(* ===== verification/Prelude.thy ===== *)
theory Prelude
  imports Complex_Main "HOL-Library.Char_ord" "HOL-Library.List_Lexorder"
begin

text \<open>
  Shared vocabulary of the development: the Go values every component uses (instants,
  durations, byte strings, results with an error), the parts of Go's standard library the
  sources call (\<open>time.Time.Sub\<close>, \<open>strings.TrimSpace\<close>, \<open>strings.ToLower\<close>, UTF-8 decoding), and
  the generic lemmas on lists and maps that the component proofs rest on.
\<close>

named_theorems wf_intros \<open>introduction rules for the well-formedness predicates\<close>
named_theorems op_defs \<open>definitions of the operations of a component\<close>

section \<open>Go values\<close>

text \<open>
  An instant (\<open>time.Time\<close>) is a number of nanoseconds counted from the zero value of
  \<open>time.Time\<close>; so \<open>IsZero\<close> is \<open>= 0\<close>, \<open>Before\<close> and \<open>After\<close> are \<open><\<close> and \<open>>\<close>. A duration is a
  number of nanoseconds. A string is the list of its bytes.
\<close>

type_synonym gotime = int
type_synonym duration = int
type_synonym bytes = string

abbreviation zero_time :: gotime where "zero_time \<equiv> 0"

abbreviation second :: duration where "second \<equiv> 1000000000"
abbreviation millisecond :: duration where "millisecond \<equiv> 1000000"

definition min_duration :: duration where "min_duration = - (2 ^ 63)"
definition max_duration :: duration where "max_duration = 2 ^ 63 - 1"

text \<open>\<open>t.Sub(u)\<close>: the difference, saturated at the bounds of an \<open>int64\<close>.\<close>

definition time_Sub :: "gotime \<Rightarrow> gotime \<Rightarrow> duration" where
  "time_Sub t u = max min_duration (min max_duration (t - u))"

text \<open>A result is an error (\<open>Inl\<close>) or a value (\<open>Inr\<close>), as in Go's \<open>(value, error)\<close> returns.\<close>

type_synonym ('e, 'a) result = "'e + 'a"

lemma time_Sub_le_iff:
  assumes "d < max_duration" and "min_duration \<le> d"
  shows "time_Sub t u \<le> d \<longleftrightarrow> t - u \<le> d"
  using assms by (auto simp: time_Sub_def min_def max_def)

section \<open>Byte strings\<close>

abbreviation byte_of :: "char \<Rightarrow> nat" where "byte_of c \<equiv> of_char c"

text \<open>
  \<open>strings.TrimSpace\<close> removes the code points of Unicode's White\_Space property from both
  ends. UTF-8 is self-synchronising, so a white-space code point at an end of the string is
  one of the byte sequences below at that end.
\<close>

definition white_space :: "nat list list" where
  "white_space =
     [[9], [10], [11], [12], [13], [32], [194, 133], [194, 160], [225, 154, 128],
      [226, 128, 128], [226, 128, 129], [226, 128, 130], [226, 128, 131], [226, 128, 132],
      [226, 128, 133], [226, 128, 134], [226, 128, 135], [226, 128, 136], [226, 128, 137],
      [226, 128, 138], [226, 128, 168], [226, 128, 169], [226, 128, 175], [226, 129, 159],
      [227, 128, 128]]"

definition has_prefix :: "nat list \<Rightarrow> bytes \<Rightarrow> bool" where
  "has_prefix w s \<longleftrightarrow> take (length w) (map byte_of s) = w"

definition space_prefix :: "nat list list \<Rightarrow> bytes \<Rightarrow> nat" where
  "space_prefix ws s = (case filter (\<lambda>w. has_prefix w s) ws of [] \<Rightarrow> 0 | w # _ \<Rightarrow> length w)"

function trim_front :: "nat list list \<Rightarrow> bytes \<Rightarrow> bytes" where
  "trim_front ws s =
     (if s = [] \<or> space_prefix ws s = 0 then s else trim_front ws (drop (space_prefix ws s) s))"
  by pat_completeness auto
termination
  by (relation "measure (\<lambda>(ws, s). length s)") auto

declare trim_front.simps [simp del]

definition TrimLeft :: "bytes \<Rightarrow> bytes" where
  "TrimLeft = trim_front white_space"

definition TrimRight :: "bytes \<Rightarrow> bytes" where
  "TrimRight s = rev (trim_front (map rev white_space) (rev s))"

definition TrimSpace :: "bytes \<Rightarrow> bytes" where
  "TrimSpace s = TrimRight (TrimLeft s)"

text \<open>
  \<open>strings.ToLower\<close> on the ASCII letters. The sources lower-case hexadecimal digests only,
  and no code point outside ASCII has a lower case among the hexadecimal digits.
\<close>

definition lower_char :: "char \<Rightarrow> char" where
  "lower_char c = (if 65 \<le> byte_of c \<and> byte_of c \<le> (90::nat) then char_of (byte_of c + 32 :: nat) else c)"

definition ToLower :: "bytes \<Rightarrow> bytes" where
  "ToLower s = map lower_char s"

section \<open>UTF-8 decoding\<close>

text \<open>
  \<open>utf8.DecodeRuneInString\<close>: the code point at the front of a byte string and its width;
  \<open>RuneError\<close> (U+FFFD) with width 1 for an invalid encoding, with width 0 for the empty
  string. The second byte's range depends on the first (no overlong forms, no surrogates,
  nothing above U+10FFFF).
\<close>

definition RuneError :: nat where "RuneError = 65533"
definition RuneSelf :: nat where "RuneSelf = 128"

text \<open>Width and accepted range of the second byte, by the first byte; 0 for an invalid one.\<close>

definition utf8_first :: "nat \<Rightarrow> nat \<times> nat \<times> nat" where
  "utf8_first b =
     (if b < 194 then (0, 0, 0)
      else if b \<le> 223 then (2, 128, 191)
      else if b = 224 then (3, 160, 191)
      else if b = 237 then (3, 128, 159)
      else if b \<le> 239 then (3, 128, 191)
      else if b = 240 then (4, 144, 191)
      else if b \<le> 243 then (4, 128, 191)
      else if b = 244 then (4, 128, 143)
      else (0, 0, 0))"

definition cont_byte :: "nat \<Rightarrow> bool" where
  "cont_byte b \<longleftrightarrow> 128 \<le> b \<and> b \<le> 191"

fun DecodeRune :: "nat list \<Rightarrow> nat \<times> nat" where
  "DecodeRune [] = (RuneError, 0)"
| "DecodeRune (b0 # bs) =
     (if b0 < RuneSelf then (b0, 1)
      else case utf8_first b0 of (sz, lo, hi) \<Rightarrow>
        if sz = 0 \<or> length (b0 # bs) < sz then (RuneError, 1)
        else if bs ! 0 < lo \<or> hi < bs ! 0 then (RuneError, 1)
        else if sz = 2 then ((b0 mod 32) * 64 + bs ! 0 mod 64, 2)
        else if \<not> cont_byte (bs ! 1) then (RuneError, 1)
        else if sz = 3 then ((b0 mod 16) * 4096 + (bs ! 0 mod 64) * 64 + bs ! 1 mod 64, 3)
        else if \<not> cont_byte (bs ! 2) then (RuneError, 1)
        else ((b0 mod 8) * 262144 + (bs ! 0 mod 64) * 4096 + (bs ! 1 mod 64) * 64 + bs ! 2 mod 64, 4))"

lemma utf8_first_bounds:
  "utf8_first b = (sz, lo, hi) \<Longrightarrow> sz \<noteq> 0 \<Longrightarrow> 128 \<le> lo \<and> hi \<le> 191 \<and> 2 \<le> sz \<and> sz \<le> 4 \<and> 194 \<le> b"
  by (auto simp: utf8_first_def split: if_splits)

lemma DecodeRune_width: "snd (DecodeRune (b # bs)) \<in> {1, 2, 3, 4}"
  by (auto split: prod.splits)

lemma DecodeRune_pos: "1 \<le> snd (DecodeRune (b # bs))"
  using DecodeRune_width [of b bs] by (metis insertE le_numeral_extra(4) one_le_numeral singletonD)

lemma DecodeRune_width_le: "snd (DecodeRune bs) \<le> length bs"
proof (cases bs)
  case (Cons b0 rest)
  obtain sz lo hi where f: "utf8_first b0 = (sz, lo, hi)" by (cases "utf8_first b0") auto
  show ?thesis using Cons f utf8_first_bounds [OF f] by (auto simp: Suc_le_eq)
qed simp

text \<open>A multi-byte code point consists of bytes that are not ASCII.\<close>

lemma DecodeRune_multibyte:
  assumes "DecodeRune bs = (r, w)" and "2 \<le> w"
  shows "\<forall>b \<in> set (take w bs). 128 \<le> b"
proof (cases bs)
  case Nil
  with assms show ?thesis by (simp add: RuneError_def)
next
  case (Cons b0 rest)
  obtain sz lo hi where f: "utf8_first b0 = (sz, lo, hi)" by (cases "utf8_first b0") auto
  from assms Cons f have sz: "sz \<noteq> 0" "sz \<le> length (b0 # rest)" "w = sz"
    and s1: "lo \<le> rest ! 0"
    and s2: "3 \<le> sz \<longrightarrow> cont_byte (rest ! 1)" and s3: "4 \<le> sz \<longrightarrow> cont_byte (rest ! 2)"
    using utf8_first_bounds [OF f] by (auto split: if_splits simp: RuneSelf_def)
  have b: "128 \<le> lo" "194 \<le> b0" "2 \<le> sz" "sz \<le> 4" using utf8_first_bounds [OF f] sz by auto
  have "128 \<le> (b0 # rest) ! i" if "i < sz" for i
  proof -
    from that b have "i = 0 \<or> i = 1 \<or> i = 2 \<or> i = 3" by linarith
    with that b s1 s2 s3 show ?thesis
      by (auto simp: cont_byte_def numeral_2_eq_2 numeral_3_eq_3)
  qed
  then show ?thesis using Cons sz by (auto simp: in_set_conv_nth)
qed

declare DecodeRune.simps [simp del]

section \<open>Lists and maps\<close>

text \<open>
  A \<open>range\<close> loop over a Go map visits the keys in an order the runtime chooses. Where that
  order can matter it is an argument of the model: any list of the keys without repetition.
\<close>

definition iteration_order :: "'k list \<Rightarrow> ('k \<rightharpoonup> 'v) \<Rightarrow> bool" where
  "iteration_order ord m \<longleftrightarrow> distinct ord \<and> set ord = dom m"

lemma filter_snd_neq: "j \<notin> snd ` set xs \<Longrightarrow> filter (\<lambda>(e, i). i \<noteq> j) xs = xs"
  by (induction xs) auto

lemma set_drop_filter_sub: "set (filter P xs) \<subseteq> set xs"
  by auto

lemma distinct_map_fst_filter: "distinct (map fst xs) \<Longrightarrow> distinct (map fst (filter P xs))"
  by (induction xs) auto

lemma distinct_fst_inj:
  "distinct (map fst xs) \<Longrightarrow> (e, a) \<in> set xs \<Longrightarrow> (e, b) \<in> set xs \<Longrightarrow> a = b"
  by (metis eq_key_imp_eq_value)

lemma distinct_map_sort_key: "distinct (map f (sort_key g xs)) = distinct (map f xs)"
  by (simp add: distinct_map)

text \<open>The first element of a list that satisfies a predicate.\<close>

fun first_such :: "('a \<Rightarrow> bool) \<Rightarrow> 'a list \<Rightarrow> 'a option" where
  "first_such P [] = None"
| "first_such P (x # xs) = (if P x then Some x else first_such P xs)"

lemma first_such_Some:
  "first_such P xs = Some x \<Longrightarrow> \<exists>us vs. xs = us @ x # vs \<and> P x \<and> (\<forall>u \<in> set us. \<not> P u)"
proof (induction xs)
  case (Cons y ys)
  show ?case
  proof (cases "P y")
    case True
    with Cons.prems show ?thesis by (auto intro: exI [of _ "[]"])
  next
    case False
    with Cons.prems have "first_such P ys = Some x" by simp
    then obtain us vs where "ys = us @ x # vs \<and> P x \<and> (\<forall>u \<in> set us. \<not> P u)" using Cons.IH by blast
    with False show ?thesis by (intro exI [of _ "y # us"] exI [of _ vs]) simp
  qed
qed simp

lemma first_such_None_iff: "first_such P xs = None \<longleftrightarrow> (\<forall>x \<in> set xs. \<not> P x)"
  by (induction xs) auto

lemma first_such_SomeD: "first_such P xs = Some x \<Longrightarrow> x \<in> set xs \<and> P x"
  using first_such_Some by fastforce

lemma first_such_ex: "x \<in> set xs \<Longrightarrow> P x \<Longrightarrow> \<exists>y. first_such P xs = Some y"
  by (induction xs) auto

lemma first_such_cong: "(\<And>x. x \<in> set xs \<Longrightarrow> P x = Q x) \<Longrightarrow> first_such P xs = first_such Q xs"
  by (induction xs) auto

section \<open>Decimal numerals\<close>

text \<open>The verb \<open>%d\<close> of \<open>fmt.Sprintf\<close> on a number that is not negative; a numeral can be read back.\<close>

definition digit :: "nat \<Rightarrow> char" where "digit d = char_of (byte_of (CHR ''0'') + d)"

fun decimal :: "nat \<Rightarrow> string" where
  "decimal i = (if i < 10 then [digit i] else decimal (i div 10) @ [digit (i mod 10)])"

declare decimal.simps [simp del]

definition read_digits :: "string \<Rightarrow> nat" where
  "read_digits s = foldl (\<lambda>acc c. 10 * acc + (of_char c - 48)) 0 s"

lemma read_digit: "d < 10 \<Longrightarrow> of_char (digit d) - (48 :: nat) = d"
  by (simp add: digit_def)

lemma read_decimal: "read_digits (decimal i) = i"
proof (induction i rule: decimal.induct)
  case (1 i)
  show ?case
  proof (cases "i < 10")
    case True
    then show ?thesis by (simp add: decimal.simps read_digits_def read_digit)
  next
    case False
    then have "read_digits (decimal i) = 10 * read_digits (decimal (i div 10)) + i mod 10"
      by (subst decimal.simps) (simp add: read_digits_def read_digit)
    then show ?thesis using 1 False by simp
  qed
qed

end
