(* ===== verification/Queue_Model.thy ===== *)
theory Queue_Model
  imports Prelude
begin

text \<open>
  The wire contract and the domain rules of the queue: the job envelope and its parts
  (\<open>queue/client/client.go\<close>, \<open>queue/client/worker.go\<close>), the ingress validation
  (\<open>ValidateJobEnvelope\<close>, \<open>ValidateJobMetadata\<close>, \<open>ValidateJobID\<close>, \<open>ValidateChunk\<close>,
  \<open>ValidateJobBatch\<close>) and the lifecycle predicates of \<open>queue/internal/model/lifecycle.go\<close>.
\<close>

section \<open>The state vocabulary\<close>

datatype State =
  StatePending | StateRunning | StateCompleted | StateFailed | StateRendered | StateCancelled
  | StateFinalizing

definition AllStates :: "State list" where
  "AllStates = [StatePending, StateRunning, StateFinalizing,
                StateCompleted, StateFailed, StateCancelled, StateRendered]"

definition IsTerminalState :: "State \<Rightarrow> bool" where
  "IsTerminalState s = (case s of
     StateCompleted \<Rightarrow> True | StateFailed \<Rightarrow> True | StateCancelled \<Rightarrow> True | _ \<Rightarrow> False)"

definition DefaultMaxAttempts :: int where "DefaultMaxAttempts = 3"

definition ShouldFailPermanently :: "int \<Rightarrow> int \<Rightarrow> bool" where
  "ShouldFailPermanently attempts maxAttempts \<longleftrightarrow> maxAttempts > 0 \<and> attempts \<ge> maxAttempts"

definition IsClaimable :: "State \<Rightarrow> bool" where
  "IsClaimable s \<longleftrightarrow> s = StatePending \<or> s = StateRendered"

definition ClaimableStates :: "State list" where
  "ClaimableStates = [StatePending, StateRendered]"

definition IsCancelable :: "State \<Rightarrow> bool" where
  "IsCancelable s \<longleftrightarrow> \<not> IsTerminalState s"

lemma AllStates_complete: "s \<in> set AllStates"
  by (cases s) (auto simp: AllStates_def)

lemma IsTerminalState_iff:
  "IsTerminalState s \<longleftrightarrow> s = StateCompleted \<or> s = StateFailed \<or> s = StateCancelled"
  by (cases s) (auto simp: IsTerminalState_def)

lemma IsClaimable_iff: "IsClaimable s \<longleftrightarrow> s \<in> set ClaimableStates"
  by (auto simp: IsClaimable_def ClaimableStates_def)

section \<open>The job envelope\<close>

text \<open>An IEEE double: not a number, an infinity, or a finite (rational) value.\<close>

datatype float64 = NaN | PosInf | NegInf | Fin rat

record AssetRef =
  ar_Hash :: string
  ar_LogicalPath :: string
  ar_SourceURL :: string

text \<open>
  \<open>OutputFacts\<close> and \<open>BatchSegmentFacts\<close> refer to each other. The numeric and textual facts
  are kept in the order of the Go structs.
\<close>

datatype OutputFacts =
  OutputFacts
    (of_Container: string) (of_HasVideo: bool) (of_VideoStreams: int) (of_VideoCodec: string)
    (of_VideoProfile: string) (of_VideoLevel: string) (of_CodecConfigSHA256: string)
    (of_PixelFormat: string) (of_Width: int) (of_Height: int) (of_FPSNum: int) (of_FPSDen: int)
    (of_VideoTimeBaseNum: int) (of_VideoTimeBaseDen: int) (of_AudioTimeBaseNum: int)
    (of_AudioTimeBaseDen: int) (of_SARNum: int) (of_SARDen: int) (of_ColorRange: string)
    (of_ColorSpace: string) (of_ColorTransfer: string) (of_ColorPrimaries: string)
    (of_FieldOrder: string) (of_KeyframeInterval: int) (of_StartPTS: int) (of_HasAudio: bool)
    (of_AudioStreams: int) (of_AudioCodec: string) (of_AudioProfile: string)
    (of_SampleRate: int) (of_Channels: int) (of_ChannelLayout: string) (of_AudioBitrate: string)
    (of_BatchSegments: "BatchSegmentFacts list")
and BatchSegmentFacts =
  BatchSegmentFacts
    (bs_ArtifactURL: string) (bs_OutputFacts: "OutputFacts option") (bs_FirstFrameKeyframe: bool)
    (bs_ClosedGOP: bool) (bs_CopyEligible: bool) (bs_ItemID: string) (bs_SHA256: string)
    (bs_SizeBytes: int) (bs_FrameCount: int) (bs_DurationUS: int) (bs_Width: int)
    (bs_Height: int) (bs_Retried: bool)

record ArtifactProvenance =
  ap_SchemaVersion :: string
  ap_Protocol :: string
  ap_Producer :: string
  ap_ImportJobID :: string
  ap_ItemIDs :: "string list"
  ap_SourceSHA256 :: string
  ap_SourceSizeBytes :: int
  ap_IdentityVerified :: bool
  ap_StructureVerified :: bool
  ap_FullDecodeVerified :: bool
  ap_ProducerTelemetry :: bytes

record Artifact =
  art_ID :: string
  art_Kind :: string
  art_StorageKey :: string
  art_ArtifactURL :: string
  art_ArtifactHash :: string
  art_ContentType :: string
  art_SizeBytes :: int
  art_Width :: int
  art_Height :: int
  art_FPSNum :: int
  art_FPSDen :: int
  art_FrameCount :: int
  art_DurationUS :: int
  art_ProfileID :: string
  art_CopyEligible :: bool
  art_Codec :: string
  art_CodecProfile :: string
  art_ClosedGOP :: bool
  art_FirstFrameKeyframe :: bool
  art_Backend :: string
  art_ChrononVersion :: string
  art_Metrics :: "(string \<times> float64) list"
  art_ChrononTelemetry :: bytes
  art_ChrononTimingStorageKey :: string
  art_ChrononTimingURL :: string
  art_ChrononTimingSHA256 :: string
  art_ChrononTimingSizeBytes :: int
  art_ChrononTimingContentType :: string
  art_DriveFileID :: string
  art_DriveLink :: string
  art_Container :: string
  art_PixelFormat :: string
  art_AudioStreams :: int
  art_OutputFacts :: "OutputFacts option"
  art_Provenance :: "ArtifactProvenance option"

record FrameRange =
  fr_Start :: int
  fr_End :: int

record Progress =
  pr_FramesDone :: int
  pr_TotalFrames :: int
  pr_LastFrameAt :: gotime
  pr_Worker :: string

record Job =
  job_ID :: string
  job_Schema :: string
  job_Version :: int
  job_IdempotencyKey :: string
  job_JobType :: string
  job_PublicationPolicy :: string
  job_DaemonAdmissionWaitMS :: float64
  job_ParentJobID :: string
  job_ChunkIndex :: int
  job_FrameRange :: "FrameRange option"
  job_NotBefore :: "gotime option"
  job_RenderPlan :: bytes
  job_Assets :: "AssetRef list"
  job_State :: State
  job_Worker :: string
  job_Attempts :: int
  job_CreatedAt :: gotime
  job_QueuedAt :: gotime
  job_StartedAt :: gotime
  job_CompletedAt :: gotime
  job_LeaseUntil :: gotime
  job_FailReason :: string
  job_Artifact :: "Artifact option"
  job_Progress :: "Progress option"
  job_Lease :: duration

record Stats =
  st_Pending :: int
  st_Running :: int
  st_Completed :: int
  st_Failed :: int
  st_Depth :: int
  st_OldestPendingSeconds :: rat
  st_Ok :: bool

text \<open>The job types of the contract.\<close>

definition JobTypeRenderSegment :: string where "JobTypeRenderSegment = ''render_segment''"
definition JobTypeOverlayPrepare :: string where "JobTypeOverlayPrepare = ''overlay.prepare''"
definition JobTypeOverlayRender :: string where "JobTypeOverlayRender = ''overlay.render''"
definition JobTypeOverlayImport :: string where "JobTypeOverlayImport = ''overlay.import''"

section \<open>Ingress validation\<close>

text \<open>The reasons for which an envelope is refused, one per \<open>return\<close> of the validators.\<close>

datatype ingress_error =
    UnsupportedSchema string
  | UnsupportedVersion int
  | RenderPlanNotJSON
  | AssetHashRequired nat
  | AssetPathRequired nat
  | UnsupportedPublicationPolicy string
  | AdmissionWaitNotFinite
  | IDTraversal string
  | IDLength
  | IDNotUTF8 string
  | IDUnsupportedChar string nat
  | InvalidJobID ingress_error
  | InvalidParentJobID ingress_error
  | InvalidFrameRange string
  | InvalidChunkIndex string
  | BatchEmpty
  | JobIDRequired
  | DuplicateJobID string

definition JobSchemaV1 :: string where "JobSchemaV1 = ''renderinggen.job''"
definition JobSchemaVersionV1 :: int where "JobSchemaVersionV1 = 1"
definition PublicationObjectStoreOnly :: string where
  "PublicationObjectStoreOnly = ''object_store_only''"
definition PublicationObjectStoreAndDrive :: string where
  "PublicationObjectStoreAndDrive = ''object_store_and_drive''"

fun validate_assets_from :: "nat \<Rightarrow> AssetRef list \<Rightarrow> (ingress_error, unit) result" where
  "validate_assets_from i [] = Inr ()"
| "validate_assets_from i (a # as) =
     (if ar_Hash a = [] then Inl (AssetHashRequired i)
      else if ar_LogicalPath a = [] then Inl (AssetPathRequired i)
      else validate_assets_from (Suc i) as)"

text \<open>The first argument is \<open>json.Valid\<close>.\<close>

definition ValidateJobEnvelope :: "(bytes \<Rightarrow> bool) \<Rightarrow> Job \<Rightarrow> (ingress_error, unit) result" where
  "ValidateJobEnvelope jsonValid job =
     (if job_Schema job \<noteq> [] \<and> job_Schema job \<noteq> JobSchemaV1 then Inl (UnsupportedSchema (job_Schema job))
      else if job_Version job \<noteq> 0 \<and> job_Version job \<noteq> JobSchemaVersionV1 then
        Inl (UnsupportedVersion (job_Version job))
      else if length (job_RenderPlan job) > 0 \<and> \<not> jsonValid (job_RenderPlan job) then
        Inl RenderPlanNotJSON
      else validate_assets_from 0 (job_Assets job))"

definition ValidateJobMetadata :: "Job \<Rightarrow> (ingress_error, unit) result" where
  "ValidateJobMetadata job =
     (if job_PublicationPolicy job \<notin> {[], PublicationObjectStoreOnly, PublicationObjectStoreAndDrive} then
        Inl (UnsupportedPublicationPolicy (job_PublicationPolicy job))
      else case job_DaemonAdmissionWaitMS job of
        Fin q \<Rightarrow> if q < 0 then Inl AdmissionWaitNotFinite else Inr ()
      | _ \<Rightarrow> Inl AdmissionWaitNotFinite)"

definition id_ascii_ok :: "nat \<Rightarrow> bool" where
  "id_ascii_ok c \<longleftrightarrow>
     (97 \<le> c \<and> c \<le> 122) \<or> (65 \<le> c \<and> c \<le> 90) \<or> (48 \<le> c \<and> c \<le> 57) \<or>
     c = 45 \<or> c = 95 \<or> c = 46 \<or> c = 58"

text \<open>
  The scan of \<open>ValidateJobID\<close>, from the current position on. The argument \<open>U\<close> is the union of
  Unicode's letters, digits and marks (\<open>unicode.IsLetter\<close>, \<open>IsDigit\<close>, \<open>IsMark\<close>), the tables of
  which belong to the Unicode standard.
\<close>

function scan_job_id ::
  "(nat \<Rightarrow> bool) \<Rightarrow> string \<Rightarrow> nat list \<Rightarrow> (ingress_error, unit) result" where
  "scan_job_id U jid [] = Inr ()"
| "scan_job_id U jid (c # cs) =
     (if c < RuneSelf then
        (if \<not> id_ascii_ok c then Inl (IDUnsupportedChar jid c) else scan_job_id U jid cs)
      else
        (let (r, size) = DecodeRune (c # cs) in
         if r = RuneError \<and> size \<le> 1 then Inl (IDNotUTF8 jid)
         else if \<not> U r then Inl (IDUnsupportedChar jid r)
         else scan_job_id U jid (drop size (c # cs))))"
  by pat_completeness auto
termination
proof (relation "measure (\<lambda>(U, jid, cs). length cs)", goal_cases)
  case (3 U jid c cs x r size)
  then have "size = snd (DecodeRune (c # cs))" by (metis snd_conv)
  then have "1 \<le> size" using DecodeRune_pos [of c cs] by simp
  then show ?case by simp
qed simp_all

definition ValidateJobID :: "(nat \<Rightarrow> bool) \<Rightarrow> string \<Rightarrow> (ingress_error, unit) result" where
  "ValidateJobID U jid =
     (if jid = ''.'' \<or> jid = ''..'' then Inl (IDTraversal jid)
      else if length jid = 0 \<or> length jid > 256 then Inl IDLength
      else scan_job_id U jid (map of_char jid))"

definition ValidateChunk :: "(nat \<Rightarrow> bool) \<Rightarrow> Job \<Rightarrow> (ingress_error, unit) result" where
  "ValidateChunk U job =
     (case ValidateJobMetadata job of
        Inl e \<Rightarrow> Inl e
      | Inr _ \<Rightarrow>
     (case ValidateJobID U (job_ID job) of
        Inl e \<Rightarrow> Inl (InvalidJobID e)
      | Inr _ \<Rightarrow>
     (case (if job_ParentJobID job \<noteq> [] then ValidateJobID U (job_ParentJobID job) else Inr ()) of
        Inl e \<Rightarrow> Inl (InvalidParentJobID e)
      | Inr _ \<Rightarrow>
        (if (case job_FrameRange job of None \<Rightarrow> False | Some fr \<Rightarrow> fr_Start fr < 0 \<or> fr_End fr \<le> fr_Start fr)
         then Inl (InvalidFrameRange (job_ID job))
         else if job_ChunkIndex job < 0 then Inl (InvalidChunkIndex (job_ID job))
         else Inr ()))))"

fun validate_batch_from :: "(nat \<Rightarrow> bool) \<Rightarrow> string list \<Rightarrow> Job list \<Rightarrow> (ingress_error, unit) result" where
  "validate_batch_from U seen [] = Inr ()"
| "validate_batch_from U seen (job # jobs) =
     (if job_ID job = [] then Inl JobIDRequired
      else if job_ID job \<in> set seen then Inl (DuplicateJobID (job_ID job))
      else case ValidateChunk U job of
        Inl e \<Rightarrow> Inl e
      | Inr _ \<Rightarrow> validate_batch_from U (job_ID job # seen) jobs)"

definition ValidateJobBatch :: "(nat \<Rightarrow> bool) \<Rightarrow> Job list \<Rightarrow> (ingress_error, unit) result" where
  "ValidateJobBatch U jobs =
     (if length jobs = 0 then Inl BatchEmpty else validate_batch_from U [] jobs)"

subsection \<open>What an accepted identifier, chunk and batch satisfy\<close>

lemma scan_job_id_bytes:
  "scan_job_id U jid cs = Inr () \<Longrightarrow> b \<in> set cs \<Longrightarrow> id_ascii_ok b \<or> RuneSelf \<le> b"
proof (induction U jid cs rule: scan_job_id.induct)
  case (2 U jid c cs)
  show ?case
  proof (cases "c < RuneSelf")
    case True
    with 2 show ?thesis by (auto split: if_splits)
  next
    case False
    obtain r size where d: "DecodeRune (c # cs) = (r, size)" by (cases "DecodeRune (c # cs)")
    with False "2.prems"(1) have ok: "\<not> (r = RuneError \<and> size \<le> 1)" "U r"
      and rest: "scan_job_id U jid (drop size (c # cs)) = Inr ()"
      by (auto split: if_splits)
    have IH: "b \<in> set (drop size (c # cs)) \<Longrightarrow> id_ascii_ok b \<or> RuneSelf \<le> b"
      using "2.IH"(2) [OF False d [symmetric] refl] ok rest by blast
    have "b \<in> set (take size (c # cs)) \<or> b \<in> set (drop size (c # cs))"
      using "2.prems"(2) by (metis append_take_drop_id UnE set_append)
    moreover have "RuneSelf \<le> b" if "b \<in> set (take size (c # cs))"
    proof (cases "2 \<le> size")
      case True
      then show ?thesis using DecodeRune_multibyte [OF d] that by (auto simp: RuneSelf_def)
    next
      case size1: False
      then have "size \<le> 1" by simp
      then have "take size (c # cs) = [] \<or> take size (c # cs) = [c]" by (cases size) auto
      then show ?thesis using that False by auto
    qed
    ultimately show ?thesis using IH by blast
  qed
qed simp

lemma ValidateJobID_bytes:
  assumes "ValidateJobID U jid = Inr ()" and "c \<in> set jid"
  shows "id_ascii_ok (of_char c) \<or> RuneSelf \<le> of_char c"
proof -
  from assms(1) have "scan_job_id U jid (map of_char jid) = Inr ()"
    by (auto simp: ValidateJobID_def split: if_splits)
  then show ?thesis using scan_job_id_bytes [of U jid "map of_char jid" "of_char c"] assms(2) by auto
qed

lemma ValidateChunk_Inr:
  assumes "ValidateChunk U job = Inr ()"
  shows "ValidateJobMetadata job = Inr () \<and> ValidateJobID U (job_ID job) = Inr ()
    \<and> (job_ParentJobID job = [] \<or> ValidateJobID U (job_ParentJobID job) = Inr ())
    \<and> (case job_FrameRange job of None \<Rightarrow> True | Some fr \<Rightarrow> 0 \<le> fr_Start fr \<and> fr_Start fr < fr_End fr)
    \<and> 0 \<le> job_ChunkIndex job"
  using assms by (auto simp: ValidateChunk_def split: sum.splits if_splits option.splits)

lemma validate_batch_from_Inr:
  "validate_batch_from U seen jobs = Inr () \<longleftrightarrow>
     distinct (map job_ID jobs) \<and> set (map job_ID jobs) \<inter> set seen = {}
     \<and> (\<forall>job \<in> set jobs. job_ID job \<noteq> [] \<and> ValidateChunk U job = Inr ())"
  by (induction jobs arbitrary: seen) (auto split: sum.splits)

section \<open>Properties\<close>

text \<open>
  C39. An accepted job id is one safe filename component, whatever the Unicode tables say: it is
  not empty, not a traversal component, at most 256 bytes, and holds no path separator, no
  backslash, no NUL and no other ASCII control or blank character.
\<close>

theorem job_id_is_a_safe_path_component:
  assumes "ValidateJobID U jid = Inr ()"
  shows "jid \<noteq> [] \<and> jid \<noteq> ''.'' \<and> jid \<noteq> ''..'' \<and> length jid \<le> 256
    \<and> CHR ''/'' \<notin> set jid \<and> CHR 0x5C \<notin> set jid \<and> CHR 0x7F \<notin> set jid
    \<and> {c \<in> set jid. of_char c \<le> (32::nat)} = {}"
proof -
  have "id_ascii_ok (of_char c) \<or> RuneSelf \<le> of_char c" if "c \<in> set jid" for c
    using ValidateJobID_bytes [OF assms that] .
  then have b: "of_char c \<noteq> (47::nat) \<and> of_char c \<noteq> (92::nat) \<and> of_char c \<noteq> (127::nat) \<and> (32::nat) < of_char c"
    if "c \<in> set jid" for c using that by (fastforce simp: id_ascii_ok_def RuneSelf_def)
  have "CHR ''/'' \<notin> set jid" "CHR 0x5C \<notin> set jid" "CHR 0x7F \<notin> set jid"
    using b [of "CHR ''/''"] b [of "CHR 0x5C"] b [of "CHR 0x7F"] by auto
  moreover have "{c \<in> set jid. of_char c \<le> (32::nat)} = {}" using b by (auto simp: not_less [symmetric])
  ultimately show ?thesis using assms by (auto simp: ValidateJobID_def split: if_splits)
qed

text \<open>The identifier below is ``comunit\`a'' in UTF-8: U+00E0 is accepted as a letter.\<close>

theorem job_id_is_a_safe_path_component_witness:
  "CHR ''/'' \<notin> set (''comunit'' @ [CHR 0xC3, CHR 0xA0])
   \<and> ValidateJobID (\<lambda>r. r = 224) (''comunit'' @ [CHR 0xC3, CHR 0xA0]) = Inr ()"
proof -
  have ok: "ValidateJobID (\<lambda>r. r = 224) (''comunit'' @ [CHR 0xC3, CHR 0xA0]) = Inr ()"
    by (simp add: ValidateJobID_def id_ascii_ok_def RuneSelf_def DecodeRune.simps utf8_first_def RuneError_def)
  then show ?thesis using job_id_is_a_safe_path_component [OF ok] by blast
qed

end
