(* ===== verification/Workers.thy ===== *)
theory Workers
  imports Prelude
begin

text \<open>
  The worker registry and the derived liveness of workers: \<open>queue/internal/model/liveness.go\<close>
  (how a heartbeat age becomes a verdict), the registry operations of
  \<open>queue/internal/repository/memory/workers.go\<close>, and the read projections of
  \<open>queue/internal/service/workers.go\<close>. The clock of each call is an argument.
\<close>

section \<open>Workers\<close>

datatype WorkerLiveness =
  WorkerLivenessReady | WorkerLivenessDegraded | WorkerLivenessStale | WorkerLivenessDead

definition AllWorkerLivenesses :: "WorkerLiveness list" where
  "AllWorkerLivenesses =
     [WorkerLivenessReady, WorkerLivenessDegraded, WorkerLivenessStale, WorkerLivenessDead]"

text \<open>The reported status is whatever text the worker registered with.\<close>

definition WorkerStatusReady :: string where "WorkerStatusReady = ''ready''"
definition WorkerStatusBusy :: string where "WorkerStatusBusy = ''busy''"

record Worker =
  w_ID :: string
  w_Hostname :: string
  w_Status :: string
  w_RenderingGenVersion :: string
  w_ChrononVersion :: string
  w_OverlaySchemaVersion :: int
  w_GPUBackend :: string
  w_GPUDevice :: string
  w_GPUDriver :: string
  w_StartedAt :: gotime
  w_LastHeartbeatAt :: gotime
  w_Liveness :: "WorkerLiveness option"

record WorkerHealth =
  h_Ready :: nat
  h_Busy :: nat
  h_Degraded :: nat
  h_Stale :: nat
  h_Offline :: nat
  h_Total :: nat

section \<open>Liveness\<close>

record WorkerLivenessBoundaries =
  b_Valid :: bool
  b_DegradedAfter :: duration
  b_StaleBoundary :: duration
  b_Window :: duration

definition WorkerLivenessWindow :: "duration \<Rightarrow> WorkerLivenessBoundaries" where
  "WorkerLivenessWindow staleAfter =
     (if staleAfter \<le> 0 then
        \<lparr> b_Valid = False, b_DegradedAfter = 0, b_StaleBoundary = 0, b_Window = 0 \<rparr>
      else
        (let degraded = staleAfter div 3 in
         \<lparr> b_Valid = True, b_DegradedAfter = degraded, b_StaleBoundary = staleAfter - degraded,
           b_Window = staleAfter \<rparr>))"

definition ClassifyWorkerLiveness ::
  "WorkerLivenessBoundaries \<Rightarrow> gotime \<Rightarrow> gotime \<Rightarrow> WorkerLiveness" where
  "ClassifyWorkerLiveness b now lastHeartbeat =
     (if \<not> b_Valid b \<or> lastHeartbeat = zero_time then WorkerLivenessDead
      else
        (let age = time_Sub now lastHeartbeat in
         if age \<le> b_DegradedAfter b then WorkerLivenessReady
         else if age \<le> b_StaleBoundary b then WorkerLivenessDegraded
         else if age \<le> b_Window b then WorkerLivenessStale
         else WorkerLivenessDead))"

definition WithLiveness :: "Worker \<Rightarrow> WorkerLivenessBoundaries \<Rightarrow> gotime \<Rightarrow> Worker" where
  "WithLiveness w b now = w\<lparr> w_Liveness := Some (ClassifyWorkerLiveness b now (w_LastHeartbeatAt w)) \<rparr>"

definition health_step ::
  "WorkerLivenessBoundaries \<Rightarrow> gotime \<Rightarrow> WorkerHealth \<Rightarrow> Worker \<Rightarrow> WorkerHealth" where
  "health_step b now h0 w =
     (let h = h0\<lparr> h_Total := h_Total h0 + 1 \<rparr> in
      case ClassifyWorkerLiveness b now (w_LastHeartbeatAt w) of
        WorkerLivenessReady \<Rightarrow>
          (if w_Status w = WorkerStatusReady then h\<lparr> h_Ready := h_Ready h + 1 \<rparr>
           else if w_Status w = WorkerStatusBusy then h\<lparr> h_Busy := h_Busy h + 1 \<rparr>
           else h)
      | WorkerLivenessDegraded \<Rightarrow> h\<lparr> h_Degraded := h_Degraded h + 1 \<rparr>
      | WorkerLivenessStale \<Rightarrow> h\<lparr> h_Stale := h_Stale h + 1 \<rparr>
      | WorkerLivenessDead \<Rightarrow> h\<lparr> h_Offline := h_Offline h + 1 \<rparr>)"

definition SummarizeWorkerHealth ::
  "Worker list \<Rightarrow> WorkerLivenessBoundaries \<Rightarrow> gotime \<Rightarrow> WorkerHealth" where
  "SummarizeWorkerHealth workers b now =
     foldl (health_step b now)
       \<lparr> h_Ready = 0, h_Busy = 0, h_Degraded = 0, h_Stale = 0, h_Offline = 0, h_Total = 0 \<rparr> workers"

definition ReadyWorkerIDs ::
  "Worker list \<Rightarrow> WorkerLivenessBoundaries \<Rightarrow> gotime \<Rightarrow> string list" where
  "ReadyWorkerIDs workers b now =
     map w_ID (filter (\<lambda>w. ClassifyWorkerLiveness b now (w_LastHeartbeatAt w) = WorkerLivenessReady)
       workers)"

section \<open>The registry\<close>

type_synonym registry = "string \<rightharpoonup> Worker"

datatype worker_error = WorkerIDRequired | WorkerNotRegistered string | WorkerRepoMissing

definition Register :: "gotime \<Rightarrow> Worker \<Rightarrow> registry \<Rightarrow> (worker_error, unit) result \<times> registry" where
  "Register now worker ws =
     (if w_ID worker = [] then (Inl WorkerIDRequired, ws)
      else
        (let existing =
           (case ws (w_ID worker) of
              None \<Rightarrow> worker\<lparr> w_StartedAt := now \<rparr>
            | Some e \<Rightarrow>
                e\<lparr> w_Hostname := w_Hostname worker, w_Status := w_Status worker,
                   w_RenderingGenVersion := w_RenderingGenVersion worker,
                   w_ChrononVersion := w_ChrononVersion worker,
                   w_OverlaySchemaVersion := w_OverlaySchemaVersion worker,
                   w_GPUBackend := w_GPUBackend worker, w_GPUDevice := w_GPUDevice worker,
                   w_GPUDriver := w_GPUDriver worker \<rparr>)
         in (Inr (), ws(w_ID worker \<mapsto> existing\<lparr> w_LastHeartbeatAt := now \<rparr>))))"

definition Heartbeat :: "gotime \<Rightarrow> string \<Rightarrow> registry \<Rightarrow> (worker_error, unit) result \<times> registry" where
  "Heartbeat now workerID ws =
     (case ws workerID of
        None \<Rightarrow> (Inl (WorkerNotRegistered workerID), ws)
      | Some worker \<Rightarrow> (Inr (), ws(workerID \<mapsto> worker\<lparr> w_LastHeartbeatAt := now \<rparr>)))"

text \<open>\<open>List\<close> ranges over a Go map: \<open>ord\<close> is the order the runtime chooses.\<close>

definition List_workers :: "string list \<Rightarrow> registry \<Rightarrow> Worker list" where
  "List_workers ord ws = sort_key w_ID (map (\<lambda>k. the (ws k)) ord)"

definition ListWorkers :: "duration \<Rightarrow> gotime \<Rightarrow> string list \<Rightarrow> registry \<Rightarrow> Worker list" where
  "ListWorkers staleAfter now ord ws =
     (let boundaries = WorkerLivenessWindow staleAfter in
      map (\<lambda>w. WithLiveness w boundaries now) (List_workers ord ws))"

definition WorkerHealth_of :: "duration \<Rightarrow> gotime \<Rightarrow> string list \<Rightarrow> registry \<Rightarrow> WorkerHealth" where
  "WorkerHealth_of staleAfter now ord ws =
     SummarizeWorkerHealth (List_workers ord ws) (WorkerLivenessWindow staleAfter) now"

definition ReadyWorkers :: "duration \<Rightarrow> gotime \<Rightarrow> string list \<Rightarrow> registry \<Rightarrow> string list" where
  "ReadyWorkers staleAfter now ord ws =
     ReadyWorkerIDs (List_workers ord ws) (WorkerLivenessWindow staleAfter) now"

section \<open>Facts about the registry\<close>

definition registry_wf :: "registry \<Rightarrow> bool" where
  "registry_wf ws \<longleftrightarrow> (\<forall>k w. ws k = Some w \<longrightarrow> w_ID w = k \<and> k \<noteq> [])"

lemma registry_wf_empty: "registry_wf Map.empty"
  by (simp add: registry_wf_def)

lemma registry_wfD: "registry_wf ws \<Longrightarrow> ws k = Some w \<Longrightarrow> w_ID w = k"
  by (simp add: registry_wf_def)

lemma Register_wf [wf_intros]: "registry_wf ws \<Longrightarrow> registry_wf (snd (Register now w ws))"
  by (auto simp: registry_wf_def Register_def Let_def split: option.splits)

lemma Heartbeat_wf [wf_intros]: "registry_wf ws \<Longrightarrow> registry_wf (snd (Heartbeat now k ws))"
  by (auto simp: registry_wf_def Heartbeat_def split: option.splits)

lemma set_List_workers:
  "iteration_order ord ws \<Longrightarrow> set (List_workers ord ws) = ran ws"
  by (force simp: List_workers_def iteration_order_def ran_def)

lemma List_workers_ids:
  assumes "registry_wf ws" and "iteration_order ord ws"
  shows "map w_ID (map (\<lambda>k. the (ws k)) ord) = ord"
  using assms by (auto simp: iteration_order_def registry_wf_def intro!: map_idI)

lemma distinct_List_workers:
  assumes "registry_wf ws" and "iteration_order ord ws"
  shows "distinct (map w_ID (List_workers ord ws))"
proof -
  have "distinct (map w_ID (map (\<lambda>k. the (ws k)) ord))"
    using List_workers_ids [OF assms] assms(2) by (simp add: iteration_order_def)
  then show ?thesis by (simp only: List_workers_def distinct_map_sort_key)
qed

lemma List_workers_order_independent:
  assumes wf: "registry_wf ws" and "iteration_order ord ws" and "iteration_order ord' ws"
  shows "List_workers ord ws = List_workers ord' ws"
proof (rule map_sorted_distinct_set_unique [of w_ID])
  show "inj_on w_ID (set (List_workers ord ws) \<union> set (List_workers ord' ws))"
    using wf by (auto simp: set_List_workers [OF assms(2)] set_List_workers [OF assms(3)]
        inj_on_def ran_def registry_wf_def)
  show "set (List_workers ord ws) = set (List_workers ord' ws)"
    by (simp only: set_List_workers [OF assms(2)] set_List_workers [OF assms(3)])
qed (use assms in \<open>simp_all add: distinct_List_workers, simp_all add: List_workers_def\<close>)

lemma length_List_workers: "iteration_order ord ws \<Longrightarrow> length (List_workers ord ws) = card (dom ws)"
  by (auto simp: List_workers_def iteration_order_def distinct_card [symmetric])

section \<open>Facts about liveness\<close>

fun liveness_rank :: "WorkerLiveness \<Rightarrow> nat" where
  "liveness_rank WorkerLivenessReady = 0"
| "liveness_rank WorkerLivenessDegraded = 1"
| "liveness_rank WorkerLivenessStale = 2"
| "liveness_rank WorkerLivenessDead = 3"

lemma time_Sub_mono: "t \<le> t' \<Longrightarrow> time_Sub t u \<le> time_Sub t' u"
  by (auto simp: time_Sub_def min_def max_def)

definition counted :: "Worker list \<Rightarrow> (Worker \<Rightarrow> bool) \<Rightarrow> nat" where
  "counted ws P = length (filter P ws)"

lemma health_fold:
  "foldl (health_step b now) h ws =
    \<lparr> h_Ready = h_Ready h + counted ws (\<lambda>w. ClassifyWorkerLiveness b now (w_LastHeartbeatAt w) = WorkerLivenessReady
          \<and> w_Status w = WorkerStatusReady),
      h_Busy = h_Busy h + counted ws (\<lambda>w. ClassifyWorkerLiveness b now (w_LastHeartbeatAt w) = WorkerLivenessReady
          \<and> w_Status w = WorkerStatusBusy),
      h_Degraded = h_Degraded h + counted ws (\<lambda>w. ClassifyWorkerLiveness b now (w_LastHeartbeatAt w) = WorkerLivenessDegraded),
      h_Stale = h_Stale h + counted ws (\<lambda>w. ClassifyWorkerLiveness b now (w_LastHeartbeatAt w) = WorkerLivenessStale),
      h_Offline = h_Offline h + counted ws (\<lambda>w. ClassifyWorkerLiveness b now (w_LastHeartbeatAt w) = WorkerLivenessDead),
      h_Total = h_Total h + length ws \<rparr>"
proof (induction ws arbitrary: h)
  case (Cons w ws)
  have "WorkerStatusReady \<noteq> WorkerStatusBusy" by (simp add: WorkerStatusReady_def WorkerStatusBusy_def)
  then show ?case
    by (simp only: foldl_Cons Cons.IH)
      (auto simp: counted_def health_step_def Let_def split: WorkerLiveness.splits)
qed (simp add: counted_def)

lemma counted_projection:
  "counted ws (\<lambda>w. P (Some (ClassifyWorkerLiveness b now (w_LastHeartbeatAt w))) (w_Status w))
     = counted (map (\<lambda>w. WithLiveness w b now) ws) (\<lambda>w. P (w_Liveness w) (w_Status w))"
  by (simp add: counted_def filter_map WithLiveness_def o_def)

lemma mem_ReadyWorkers:
  assumes "registry_wf ws" and "iteration_order ord ws"
  shows "k \<in> set (ReadyWorkers staleAfter now ord ws) \<longleftrightarrow>
    (\<exists>v. ws k = Some v \<and>
      ClassifyWorkerLiveness (WorkerLivenessWindow staleAfter) now (w_LastHeartbeatAt v) = WorkerLivenessReady)"
  using set_List_workers [OF assms(2)] assms(1)
  by (auto simp: ReadyWorkers_def ReadyWorkerIDs_def ran_def registry_wf_def image_iff)

section \<open>Properties\<close>

text \<open>
  Liveness only gets worse while a worker stays silent: for a fixed last heartbeat, a later
  reading never classifies the worker as more alive, whatever the staleness window.
\<close>

theorem liveness_never_recovers_in_silence:
  assumes "now \<le> now'"
  shows "liveness_rank (ClassifyWorkerLiveness (WorkerLivenessWindow staleAfter) now hb)
       \<le> liveness_rank (ClassifyWorkerLiveness (WorkerLivenessWindow staleAfter) now' hb)"
  using time_Sub_mono [OF assms, of hb]
  by (auto simp: ClassifyWorkerLiveness_def WorkerLivenessWindow_def Let_def)

theorem liveness_never_recovers_in_silence_witness:
  "liveness_rank (ClassifyWorkerLiveness (WorkerLivenessWindow (180 * second)) (61 * second) second)
     \<le> liveness_rank (ClassifyWorkerLiveness (WorkerLivenessWindow (180 * second)) (200 * second) second)
   \<and> ClassifyWorkerLiveness (WorkerLivenessWindow (180 * second)) (61 * second) second = WorkerLivenessReady
   \<and> ClassifyWorkerLiveness (WorkerLivenessWindow (180 * second)) (200 * second) second = WorkerLivenessDead"
  using liveness_never_recovers_in_silence [of "61 * second" "200 * second" "180 * second" second]
  by (simp add: ClassifyWorkerLiveness_def WorkerLivenessWindow_def Let_def time_Sub_def
      min_duration_def max_duration_def)

text \<open>
  The aggregate health and the preflight list are functions of the listing: for the same
  registry, clock and map iteration order every counter of \<open>WorkerHealth\<close> is the number of
  rows of \<open>ListWorkers\<close> with that liveness (and, for capacity, that reported status),
  \<open>ReadyWorkers\<close> is the ids of the rows listed as ready, and the total is the number of
  registered workers; and none of them depends on the map iteration order.
\<close>

theorem worker_health_agrees_with_listing:
  fixes staleAfter :: duration and now :: gotime
  assumes wf: "registry_wf ws" and ord: "iteration_order ord ws" "iteration_order ord' ws"
  defines "rows \<equiv> ListWorkers staleAfter now ord ws"
  shows "WorkerHealth_of staleAfter now ord' ws =
      \<lparr> h_Ready = length (filter (\<lambda>w. w_Liveness w = Some WorkerLivenessReady \<and> w_Status w = WorkerStatusReady) rows),
        h_Busy = length (filter (\<lambda>w. w_Liveness w = Some WorkerLivenessReady \<and> w_Status w = WorkerStatusBusy) rows),
        h_Degraded = length (filter (\<lambda>w. w_Liveness w = Some WorkerLivenessDegraded) rows),
        h_Stale = length (filter (\<lambda>w. w_Liveness w = Some WorkerLivenessStale) rows),
        h_Offline = length (filter (\<lambda>w. w_Liveness w = Some WorkerLivenessDead) rows),
        h_Total = card (dom ws) \<rparr>
    \<and> ReadyWorkers staleAfter now ord' ws =
        map w_ID (filter (\<lambda>w. w_Liveness w = Some WorkerLivenessReady) rows)"
  using length_List_workers [OF ord(1)]
  by (simp add: rows_def ListWorkers_def WorkerHealth_of_def ReadyWorkers_def ReadyWorkerIDs_def
      SummarizeWorkerHealth_def health_fold counted_def Let_def filter_map o_def WithLiveness_def
      List_workers_order_independent [OF wf ord(2) ord(1)])

definition sample_worker :: "string \<Rightarrow> gotime \<Rightarrow> Worker" where
  "sample_worker i hb =
     \<lparr> w_ID = i, w_Hostname = ''h'', w_Status = WorkerStatusReady, w_RenderingGenVersion = [],
       w_ChrononVersion = [], w_OverlaySchemaVersion = 1, w_GPUBackend = [], w_GPUDevice = [],
       w_GPUDriver = [], w_StartedAt = 1, w_LastHeartbeatAt = hb, w_Liveness = None \<rparr>"

theorem worker_health_agrees_with_listing_witness:
  "h_Total (WorkerHealth_of (180 * second) (200 * second) [''b'', ''a'']
     [''a'' \<mapsto> sample_worker ''a'' second, ''b'' \<mapsto> sample_worker ''b'' (190 * second)]) = 2
   \<and> ReadyWorkers (180 * second) (200 * second) [''b'', ''a'']
     [''a'' \<mapsto> sample_worker ''a'' second, ''b'' \<mapsto> sample_worker ''b'' (190 * second)] = [''b'']"
  using worker_health_agrees_with_listing
    [of "[''a'' \<mapsto> sample_worker ''a'' second, ''b'' \<mapsto> sample_worker ''b'' (190 * second)]"
      "[''a'', ''b'']" "[''b'', ''a'']" "180 * second" "200 * second"]
  by (simp add: registry_wf_def iteration_order_def sample_worker_def ListWorkers_def
      List_workers_def WithLiveness_def ClassifyWorkerLiveness_def WorkerLivenessWindow_def Let_def
      time_Sub_def min_duration_def max_duration_def insert_commute)

text \<open>
  A heartbeat buys exactly a third of the staleness window: after a recorded heartbeat the
  worker is among the ready workers at a later reading iff that reading is at most a third of
  the window after it; a worker frozen for longer is never reported ready.
\<close>

theorem heartbeat_buys_a_third_of_the_window:
  assumes wf: "registry_wf ws" and k: "ws k = Some w" and t: "t \<noteq> zero_time"
    and stale: "0 < staleAfter" "staleAfter < max_duration"
    and ord: "iteration_order ord (snd (Heartbeat t k ws))"
  shows "k \<in> set (ReadyWorkers staleAfter now ord (snd (Heartbeat t k ws)))
    \<longleftrightarrow> now - t \<le> staleAfter div 3"
proof -
  let ?ws = "snd (Heartbeat t k ws)"
  have k': "?ws k = Some (w\<lparr> w_LastHeartbeatAt := t \<rparr>)" using k by (simp add: Heartbeat_def)
  have wf': "registry_wf ?ws" using wf by (rule wf_intros)
  have sub: "time_Sub now t \<le> staleAfter div 3 \<longleftrightarrow> now - t \<le> staleAfter div 3"
    using stale by (intro time_Sub_le_iff) (auto simp: max_duration_def min_duration_def)
  have "k \<in> set (ReadyWorkers staleAfter now ord ?ws) \<longleftrightarrow>
      (\<exists>v. ?ws k = Some v \<and> ClassifyWorkerLiveness (WorkerLivenessWindow staleAfter) now (w_LastHeartbeatAt v) = WorkerLivenessReady)"
    by (rule mem_ReadyWorkers [OF wf' ord])
  also have "\<dots> \<longleftrightarrow> time_Sub now t \<le> staleAfter div 3"
    using k' t stale by (auto simp: ClassifyWorkerLiveness_def WorkerLivenessWindow_def Let_def)
  finally show ?thesis using sub by simp
qed

theorem heartbeat_buys_a_third_of_the_window_witness:
  "\<not> (''a'' \<in> set (ReadyWorkers (180 * second) (100 * second) [''a'']
       (snd (Heartbeat (5 * second) ''a'' [''a'' \<mapsto> sample_worker ''a'' second]))))
   \<and> ''a'' \<in> set (ReadyWorkers (180 * second) (65 * second) [''a'']
       (snd (Heartbeat (5 * second) ''a'' [''a'' \<mapsto> sample_worker ''a'' second])))"
  using heartbeat_buys_a_third_of_the_window
    [of "[''a'' \<mapsto> sample_worker ''a'' second]" "''a''" "sample_worker ''a'' second" "5 * second"
      "180 * second" "[''a'']" "100 * second"]
    heartbeat_buys_a_third_of_the_window
    [of "[''a'' \<mapsto> sample_worker ''a'' second]" "''a''" "sample_worker ''a'' second" "5 * second"
      "180 * second" "[''a'']" "65 * second"]
  by (simp add: registry_wf_def iteration_order_def sample_worker_def Heartbeat_def max_duration_def)

end
