(* ===== verification/Queue_Memory.thy ===== *)
theory Queue_Memory
  imports Queue_Model Workers "HOL-Library.Product_Lexorder"
begin

text \<open>
  The in-memory job repository, \<open>queue/internal/repository/memory/repository.go\<close>: its state, one
  definition per operation, the well-formedness invariant and its preservation. Every operation
  runs under the repository lock, so it is one function on the state; \<open>ClaimState\<close> releases the
  lock between its two phases, so its second phase takes the snapshot of the first as an
  argument. \<open>time.Now()\<close> is the argument \<open>clk\<close>.
\<close>

section \<open>State\<close>

text \<open>
  The FIFO is a linked list whose elements have an identity (\<open>*list.Element\<close>): a list of pairs of
  an element number and a job id, with a counter for fresh elements. The children index maps a
  parent to the set of its children.
\<close>

record Repository =
  r_jobs :: "string \<rightharpoonup> Job"
  r_artifacts :: "string \<rightharpoonup> Artifact"
  r_order :: "(nat \<times> string) list"
  r_orderIdx :: "string \<rightharpoonup> nat"
  r_nextEl :: nat
  r_idem :: "string \<rightharpoonup> string"
  r_workers :: registry
  r_lease :: duration
  r_maxAttempts :: int
  r_children :: "string \<rightharpoonup> string set"

datatype repo_error =
    IDRequired
  | ErrJobExists string
  | ErrNotFound string
  | InvalidJob ingress_error
  | ParentIDRequired
  | ParentAndWorkerRequired
  | ParentInState string State
  | JobNotFound string
  | NotRunningOrFinalizing string
  | OwnedBy string string string
  | CannotRetry string State
  | CannotCancel string State

definition New :: "duration \<Rightarrow> int \<Rightarrow> Repository" where
  "New lease maxAttempts =
     \<lparr> r_jobs = Map.empty, r_artifacts = Map.empty, r_order = [], r_orderIdx = Map.empty,
       r_nextEl = 0, r_idem = Map.empty, r_workers = Map.empty, r_lease = lease,
       r_maxAttempts = maxAttempts, r_children = Map.empty \<rparr>"

text \<open>Assignment through the pointer of a stored row.\<close>

definition put_job :: "string \<Rightarrow> Job \<Rightarrow> Repository \<Rightarrow> Repository" where
  "put_job i job s = s\<lparr> r_jobs := (r_jobs s)(i \<mapsto> job) \<rparr>"

section \<open>Internal steps\<close>

definition appendOrderLocked :: "string \<Rightarrow> Repository \<Rightarrow> Repository" where
  "appendOrderLocked i s =
     s\<lparr> r_order := r_order s @ [(r_nextEl s, i)],
        r_orderIdx := (r_orderIdx s)(i \<mapsto> r_nextEl s),
        r_nextEl := Suc (r_nextEl s) \<rparr>"

definition removeOrderLocked :: "string \<Rightarrow> Repository \<Rightarrow> Repository" where
  "removeOrderLocked i s =
     (case r_orderIdx s i of
        None \<Rightarrow> s
      | Some el \<Rightarrow>
          s\<lparr> r_order := filter (\<lambda>(e, _). e \<noteq> el) (r_order s),
             r_orderIdx := (r_orderIdx s)(i := None) \<rparr>)"

definition indexChildLocked :: "Job \<Rightarrow> Repository \<Rightarrow> Repository" where
  "indexChildLocked job s =
     (if job_ParentJobID job = [] then s
      else
        (let st = (case r_children s (job_ParentJobID job) of None \<Rightarrow> {} | Some st \<Rightarrow> st) in
         s\<lparr> r_children := (r_children s)(job_ParentJobID job \<mapsto> insert (job_ID job) st) \<rparr>))"

definition insertLocked :: "Job \<Rightarrow> gotime \<Rightarrow> Repository \<Rightarrow> Repository" where
  "insertLocked job0 now s =
     (let job = job0\<lparr> job_State := StatePending, job_CreatedAt := now, job_QueuedAt := now \<rparr> in
      appendOrderLocked (job_ID job) (indexChildLocked job (put_job (job_ID job) job s)))"

definition artifactCopyLocked :: "string \<Rightarrow> Repository \<Rightarrow> Artifact option" where
  "artifactCopyLocked i s = r_artifacts s i"

definition jobCopyWithArtifactLocked :: "Job \<Rightarrow> Repository \<Rightarrow> Job" where
  "jobCopyWithArtifactLocked job s = job\<lparr> job_Artifact := artifactCopyLocked (job_ID job) s \<rparr>"

text \<open>\<open>ord\<close> is the order in which the runtime ranges over the parent's child set.\<close>

definition jobsByParentLocked :: "string list \<Rightarrow> Repository \<Rightarrow> Job list" where
  "jobsByParentLocked ord s =
     map (\<lambda>job. jobCopyWithArtifactLocked job s) (List.map_filter (r_jobs s) ord)"

definition child_set :: "Repository \<Rightarrow> string \<Rightarrow> string set" where
  "child_set s p = (case r_children s p of None \<Rightarrow> {} | Some st \<Rightarrow> st)"

definition hasChildrenLocked :: "string \<Rightarrow> Repository \<Rightarrow> bool" where
  "hasChildrenLocked i s \<longleftrightarrow> child_set s i \<noteq> {}"

text \<open>
  The claim filter is the requested state; \<open>None\<close> is the empty string, which stands for every
  claimable state.
\<close>

definition claim_guard :: "State option \<Rightarrow> gotime \<Rightarrow> Repository \<Rightarrow> string \<Rightarrow> bool" where
  "claim_guard state now s i =
     (case r_jobs s i of
        None \<Rightarrow> False
      | Some job \<Rightarrow>
          (case state of Some st \<Rightarrow> job_State job = st | None \<Rightarrow> IsClaimable (job_State job)) \<and>
          (case job_NotBefore job of None \<Rightarrow> True | Some nb \<Rightarrow> \<not> nb > now) \<and>
          \<not> hasChildrenLocked i s)"

text \<open>The number of attempts is not bounded here; the code counts in 64 bits.\<close>

definition claimed_row :: "string \<Rightarrow> gotime \<Rightarrow> Repository \<Rightarrow> string \<Rightarrow> Job \<Rightarrow> Job" where
  "claimed_row workerID now s i job =
     job\<lparr> job_State := StateRunning, job_Worker := workerID, job_Attempts := job_Attempts job + 1,
          job_StartedAt := now, job_LeaseUntil := now + r_lease s,
          job_Artifact := artifactCopyLocked i s \<rparr>"

definition claimCandidateLocked ::
  "string \<Rightarrow> string \<Rightarrow> State option \<Rightarrow> gotime \<Rightarrow> Repository \<Rightarrow> (Job \<times> Repository) option" where
  "claimCandidateLocked i workerID state now s =
     (if \<not> claim_guard state now s i then None
      else
        (let job = claimed_row workerID now s i (the (r_jobs s i)) in
         Some (job, put_job i job (removeOrderLocked i s))))"

definition runningJob :: "string \<Rightarrow> string \<Rightarrow> Repository \<Rightarrow> (repo_error, Job) result" where
  "runningJob i workerID s =
     (case r_jobs s i of
        None \<Rightarrow> Inl (JobNotFound i)
      | Some job \<Rightarrow>
          (if job_State job \<noteq> StateRunning \<and> job_State job \<noteq> StateFinalizing then
             Inl (NotRunningOrFinalizing i)
           else if job_Worker job \<noteq> workerID then Inl (OwnedBy i (job_Worker job) workerID)
           else Inr job))"

section \<open>Submission\<close>

definition Submit ::
  "(nat \<Rightarrow> bool) \<Rightarrow> gotime \<Rightarrow> Job \<Rightarrow> Repository \<Rightarrow> (repo_error, unit) result \<times> Repository" where
  "Submit U clk job s =
     (if job_ID job = [] then (Inl IDRequired, s)
      else if job_ID job \<in> dom (r_jobs s) then (Inl (ErrJobExists (job_ID job)), s)
      else case ValidateChunk U job of
        Inl e \<Rightarrow> (Inl (InvalidJob e), s)
      | Inr _ \<Rightarrow> (Inr (), insertLocked job clk s))"

definition set_idem :: "Job \<Rightarrow> Repository \<Rightarrow> Repository" where
  "set_idem job s =
     (if job_IdempotencyKey job \<noteq> [] then
        s\<lparr> r_idem := (r_idem s)(job_IdempotencyKey job \<mapsto> job_ID job) \<rparr>
      else s)"

definition idem_hit :: "Job \<Rightarrow> Repository \<Rightarrow> Job option" where
  "idem_hit job s =
     (if job_IdempotencyKey job \<noteq> [] then
        (case r_idem s (job_IdempotencyKey job) of None \<Rightarrow> None | Some i \<Rightarrow> r_jobs s i)
      else None)"

definition SubmitIdempotent ::
  "(nat \<Rightarrow> bool) \<Rightarrow> gotime \<Rightarrow> Job \<Rightarrow> Repository \<Rightarrow> (repo_error, Job \<times> bool) result \<times> Repository" where
  "SubmitIdempotent U clk job s =
     (if job_ID job = [] then (Inl IDRequired, s)
      else case idem_hit job s of
        Some existing \<Rightarrow> (Inr (existing, False), s)
      | None \<Rightarrow>
          (if job_ID job \<in> dom (r_jobs s) then (Inl (ErrJobExists (job_ID job)), s)
           else case ValidateChunk U job of
             Inl e \<Rightarrow> (Inl (InvalidJob e), s)
           | Inr _ \<Rightarrow>
               (Inr (job\<lparr> job_State := StatePending, job_CreatedAt := clk, job_QueuedAt := clk \<rparr>, True),
                set_idem job (insertLocked job clk s))))"

definition insert_family :: "gotime \<Rightarrow> Job list \<Rightarrow> Repository \<Rightarrow> Repository" where
  "insert_family now jobs s = foldl (\<lambda>s job. set_idem job (insertLocked job now s)) s jobs"

definition SubmitBatch ::
  "(nat \<Rightarrow> bool) \<Rightarrow> gotime \<Rightarrow> Job list \<Rightarrow> Repository \<Rightarrow> (repo_error, unit) result \<times> Repository" where
  "SubmitBatch U clk jobs s =
     (case ValidateJobBatch U jobs of
        Inl e \<Rightarrow> (Inl (InvalidJob e), s)
      | Inr _ \<Rightarrow>
          (case first_such (\<lambda>job. job_ID job \<in> dom (r_jobs s)) jobs of
             Some job \<Rightarrow> (Inl (ErrJobExists (job_ID job)), s)
           | None \<Rightarrow> (Inr (), insert_family clk jobs s)))"

section \<open>Claims\<close>

text \<open>Phase 1 of \<open>ClaimState\<close>, under the shared lock.\<close>

definition claim_snapshot :: "Repository \<Rightarrow> string list" where
  "claim_snapshot s = map snd (r_order s)"

fun scan_snapshot ::
  "string \<Rightarrow> State option \<Rightarrow> gotime \<Rightarrow> Repository \<Rightarrow> string list \<Rightarrow> (Job \<times> Repository) option" where
  "scan_snapshot workerID state now s [] = None"
| "scan_snapshot workerID state now s (i # is) =
     (if i \<notin> dom (r_orderIdx s) then scan_snapshot workerID state now s is
      else case claimCandidateLocked i workerID state now s of
        Some res \<Rightarrow> Some res
      | None \<Rightarrow> scan_snapshot workerID state now s is)"

fun scan_live ::
  "string \<Rightarrow> State option \<Rightarrow> gotime \<Rightarrow> Repository \<Rightarrow> string list \<Rightarrow> string list \<Rightarrow> (Job \<times> Repository) option" where
  "scan_live workerID state now s candidates [] = None"
| "scan_live workerID state now s candidates (i # is) =
     (if i \<in> set candidates then scan_live workerID state now s candidates is
      else case claimCandidateLocked i workerID state now s of
        Some res \<Rightarrow> Some res
      | None \<Rightarrow> scan_live workerID state now s candidates is)"

text \<open>Phase 2, under the exclusive lock; the result is the job and its lease, or nothing.\<close>

definition ClaimState ::
  "gotime \<Rightarrow> string list \<Rightarrow> string \<Rightarrow> State option \<Rightarrow> Repository \<Rightarrow> (Job \<times> duration) option \<times> Repository" where
  "ClaimState clk candidates workerID state s =
     (case scan_snapshot workerID state clk s candidates of
        Some (job, s') \<Rightarrow> (Some (job, r_lease s), s')
      | None \<Rightarrow>
          (case scan_live workerID state clk s candidates (map snd (r_order s)) of
             Some (job, s') \<Rightarrow> (Some (job, r_lease s), s')
           | None \<Rightarrow> (None, s)))"

definition Claim ::
  "gotime \<Rightarrow> string list \<Rightarrow> string \<Rightarrow> Repository \<Rightarrow> (Job \<times> duration) option \<times> Repository" where
  "Claim clk candidates workerID s = ClaimState clk candidates workerID None s"

definition ClaimFinalization ::
  "gotime \<Rightarrow> string \<Rightarrow> string \<Rightarrow> Repository \<Rightarrow> (repo_error, Job option) result \<times> Repository" where
  "ClaimFinalization clk parentJobID workerID s =
     (if parentJobID = [] \<or> workerID = [] then (Inl ParentAndWorkerRequired, s)
      else case r_jobs s parentJobID of
        None \<Rightarrow> (Inl (ErrNotFound parentJobID), s)
      | Some job \<Rightarrow>
          (if job_State job = StateFinalizing then (Inr None, s)
           else if job_State job \<noteq> StatePending \<and> job_State job \<noteq> StateRunning then
             (Inl (ParentInState parentJobID (job_State job)), s)
           else
             (let job' = job\<lparr> job_State := StateFinalizing, job_Worker := workerID,
                              job_LeaseUntil := clk + r_lease s \<rparr>
              in (Inr (Some job'), put_job parentJobID job' s))))"

section \<open>Reads\<close>

definition Get :: "string \<Rightarrow> Repository \<Rightarrow> (repo_error, Job) result" where
  "Get i s =
     (case r_jobs s i of
        None \<Rightarrow> Inl (ErrNotFound i)
      | Some job \<Rightarrow> Inr (jobCopyWithArtifactLocked job s))"

definition Children :: "string list \<Rightarrow> string \<Rightarrow> Repository \<Rightarrow> (repo_error, Job list) result" where
  "Children ord parentJobID s =
     (if parentJobID = [] then Inl ParentIDRequired
      else Inr (sort_key job_ChunkIndex (jobsByParentLocked ord s)))"

definition ByParent :: "string list \<Rightarrow> string \<Rightarrow> Repository \<Rightarrow> (repo_error, Job list) result" where
  "ByParent ord parentJobID s =
     (if parentJobID = [] then Inl ParentIDRequired
      else Inr (sort_key (\<lambda>job. (job_QueuedAt job, job_ID job)) (jobsByParentLocked ord s)))"

definition recoverable :: "Repository \<Rightarrow> string \<Rightarrow> bool" where
  "recoverable s i \<longleftrightarrow>
     hasChildrenLocked i s \<and>
     (case r_jobs s i of
        None \<Rightarrow> False
      | Some job \<Rightarrow> job_State job = StatePending \<or> job_State job = StateFinalizing)"

definition RecoverableParents :: "string list \<Rightarrow> Repository \<Rightarrow> string list" where
  "RecoverableParents ord s = sort (filter (recoverable s) ord)"

section \<open>Transitions\<close>

text \<open>A transition of the worker that owns the row: refused, with the state unchanged, for anyone else.\<close>

definition with_running ::
  "string \<Rightarrow> string \<Rightarrow> (Job \<Rightarrow> Repository) \<Rightarrow> Repository \<Rightarrow> (repo_error, unit) result \<times> Repository" where
  "with_running i workerID f s =
     (case runningJob i workerID s of
        Inl e \<Rightarrow> (Inl e, s)
      | Inr job \<Rightarrow> (Inr (), f job))"

definition Complete ::
  "gotime \<Rightarrow> string \<Rightarrow> string \<Rightarrow> Artifact \<Rightarrow> Repository \<Rightarrow> (repo_error, unit) result \<times> Repository" where
  "Complete clk i workerID artifact s =
     with_running i workerID (\<lambda>job.
       (put_job i (job\<lparr> job_State := StateCompleted, job_CompletedAt := clk \<rparr>) s)
         \<lparr> r_artifacts := (r_artifacts s)(i \<mapsto> artifact) \<rparr>) s"

definition Rendered ::
  "gotime \<Rightarrow> string \<Rightarrow> string \<Rightarrow> Artifact \<Rightarrow> string \<Rightarrow> Repository \<Rightarrow> (repo_error, unit) result \<times> Repository" where
  "Rendered clk i workerID artifact reason s =
     with_running i workerID (\<lambda>job.
       appendOrderLocked i
         ((put_job i (job\<lparr> job_State := StateRendered, job_FailReason := reason, job_Worker := [],
                          job_QueuedAt := clk, job_LeaseUntil := zero_time \<rparr>) s)
           \<lparr> r_artifacts := (r_artifacts s)(i \<mapsto> artifact) \<rparr>)) s"

definition Fail ::
  "gotime \<Rightarrow> string \<Rightarrow> string \<Rightarrow> string \<Rightarrow> Repository \<Rightarrow> (repo_error, unit) result \<times> Repository" where
  "Fail clk i workerID reason s =
     with_running i workerID (\<lambda>job.
       if ShouldFailPermanently (job_Attempts job) (r_maxAttempts s) then
         put_job i (job\<lparr> job_FailReason := reason, job_State := StateFailed \<rparr>) s
       else
         appendOrderLocked i
           (put_job i (job\<lparr> job_FailReason := reason, job_State := StatePending, job_Worker := [],
                           job_QueuedAt := clk, job_LeaseUntil := zero_time \<rparr>) s)) s"

definition FailPermanently ::
  "string \<Rightarrow> string \<Rightarrow> string \<Rightarrow> Repository \<Rightarrow> (repo_error, unit) result \<times> Repository" where
  "FailPermanently i workerID reason s =
     with_running i workerID (\<lambda>job.
       put_job i (job\<lparr> job_State := StateFailed, job_FailReason := reason, job_Worker := [],
                       job_LeaseUntil := zero_time \<rparr>) s) s"

definition Renew ::
  "gotime \<Rightarrow> string \<Rightarrow> string \<Rightarrow> Repository \<Rightarrow> (repo_error, unit) result \<times> Repository" where
  "Renew clk i workerID s =
     with_running i workerID (\<lambda>job. put_job i (job\<lparr> job_LeaseUntil := clk + r_lease s \<rparr>) s) s"

definition SetProgress ::
  "gotime \<Rightarrow> string \<Rightarrow> string \<Rightarrow> Progress \<Rightarrow> Repository \<Rightarrow> (repo_error, unit) result \<times> Repository" where
  "SetProgress clk i workerID p s =
     with_running i workerID (\<lambda>job.
       put_job i (job\<lparr> job_Progress := Some (p\<lparr> pr_Worker := workerID, pr_LastFrameAt := clk \<rparr>) \<rparr>) s) s"

definition Retry :: "gotime \<Rightarrow> string \<Rightarrow> Repository \<Rightarrow> (repo_error, unit) result \<times> Repository" where
  "Retry clk i s =
     (case r_jobs s i of
        None \<Rightarrow> (Inl (ErrNotFound i), s)
      | Some job \<Rightarrow>
          (if job_State job \<noteq> StateFailed then (Inl (CannotRetry i (job_State job)), s)
           else
             (Inr (), appendOrderLocked i
                (put_job i (job\<lparr> job_State := StatePending, job_Worker := [], job_FailReason := [],
                                job_QueuedAt := clk, job_LeaseUntil := zero_time,
                                job_Progress := None \<rparr>) s))))"

definition Cancel :: "string \<Rightarrow> Repository \<Rightarrow> (repo_error, unit) result \<times> Repository" where
  "Cancel i s =
     (case r_jobs s i of
        None \<Rightarrow> (Inl (ErrNotFound i), s)
      | Some job \<Rightarrow>
          (if job_State job = StateCancelled then (Inr (), s)
           else if \<not> IsCancelable (job_State job) then (Inl (CannotCancel i (job_State job)), s)
           else
             (Inr (), put_job i (job\<lparr> job_State := StateCancelled, job_Worker := [],
                                     job_LeaseUntil := zero_time, job_Progress := None \<rparr>) s)))"

section \<open>Lease expiry\<close>

definition lease_expired :: "gotime \<Rightarrow> Job \<Rightarrow> bool" where
  "lease_expired now job \<longleftrightarrow>
     (job_State job = StateRunning \<or> job_State job = StateFinalizing) \<and>
     job_LeaseUntil job \<noteq> zero_time \<and> now > job_LeaseUntil job"

text \<open>The body of the loop; \<open>clk\<close> is the clock reading of that iteration.\<close>

definition requeue_one :: "gotime \<Rightarrow> (string \<Rightarrow> gotime) \<Rightarrow> nat \<times> Repository \<Rightarrow> string \<Rightarrow> nat \<times> Repository" where
  "requeue_one now clk ns i =
     (case ns of (n, s) \<Rightarrow>
       (case r_jobs s i of
          None \<Rightarrow> (n, s)
        | Some job \<Rightarrow>
            (if \<not> lease_expired now job then (n, s)
             else if ShouldFailPermanently (job_Attempts job) (r_maxAttempts s) then
               (Suc n, put_job i (job\<lparr> job_State := StateFailed,
                                       job_FailReason := ''lease expired, max attempts reached'' \<rparr>) s)
             else
               (Suc n, appendOrderLocked (job_ID job)
                  (put_job i (job\<lparr> job_State := StatePending, job_Worker := [],
                                  job_QueuedAt := clk i \<rparr>) s)))))"

definition RequeueExpired ::
  "gotime \<Rightarrow> (string \<Rightarrow> gotime) \<Rightarrow> string list \<Rightarrow> Repository \<Rightarrow> nat \<times> Repository" where
  "RequeueExpired now clk ord s = foldl (requeue_one now clk) (0, s) ord"

section \<open>Statistics\<close>

record stats_scan =
  sc_stats :: Stats
  sc_oldest :: gotime
  sc_saw :: bool

definition stats_step :: "stats_scan \<Rightarrow> Job \<Rightarrow> stats_scan" where
  "stats_step a job =
     (case job_State job of
        StatePending \<Rightarrow>
          (let b = a\<lparr> sc_stats := (sc_stats a)\<lparr> st_Pending := st_Pending (sc_stats a) + 1 \<rparr> \<rparr> in
           if \<not> sc_saw b \<or> job_QueuedAt job < sc_oldest b
           then b\<lparr> sc_oldest := job_QueuedAt job, sc_saw := True \<rparr> else b)
      | StateRunning \<Rightarrow> a\<lparr> sc_stats := (sc_stats a)\<lparr> st_Running := st_Running (sc_stats a) + 1 \<rparr> \<rparr>
      | StateCompleted \<Rightarrow> a\<lparr> sc_stats := (sc_stats a)\<lparr> st_Completed := st_Completed (sc_stats a) + 1 \<rparr> \<rparr>
      | StateFailed \<Rightarrow> a\<lparr> sc_stats := (sc_stats a)\<lparr> st_Failed := st_Failed (sc_stats a) + 1 \<rparr> \<rparr>
      | _ \<Rightarrow> a)"

definition empty_stats :: Stats where
  "empty_stats = \<lparr> st_Pending = 0, st_Running = 0, st_Completed = 0, st_Failed = 0, st_Depth = 0,
                   st_OldestPendingSeconds = 0, st_Ok = False \<rparr>"

definition Stats_of :: "gotime \<Rightarrow> string list \<Rightarrow> Repository \<Rightarrow> Stats" where
  "Stats_of clk ord s =
     (let a = foldl stats_step \<lparr> sc_stats = empty_stats, sc_oldest = zero_time, sc_saw = False \<rparr>
                (List.map_filter (r_jobs s) ord);
          st = (sc_stats a)\<lparr> st_Ok := True, st_Depth := st_Pending (sc_stats a) \<rparr>
      in if sc_saw a \<and> sc_oldest a \<noteq> zero_time
         then st\<lparr> st_OldestPendingSeconds := of_int (time_Sub clk (sc_oldest a)) / 1000000000 \<rparr>
         else st)"

section \<open>The representation invariant\<close>

definition wf_rows :: "Repository \<Rightarrow> bool" where
  "wf_rows s \<longleftrightarrow> (\<forall>i job. r_jobs s i = Some job \<longrightarrow> job_ID job = i \<and> i \<noteq> [])"

definition wf_order :: "Repository \<Rightarrow> bool" where
  "wf_order s \<longleftrightarrow>
     distinct (map fst (r_order s)) \<and> (\<forall>(e, i) \<in> set (r_order s). e < r_nextEl s \<and> i \<in> dom (r_jobs s)) \<and>
     (\<forall>i e. r_orderIdx s i = Some e \<longrightarrow> (e, i) \<in> set (r_order s))"

definition wf_children :: "Repository \<Rightarrow> bool" where
  "wf_children s \<longleftrightarrow> child_set s [] = {} \<and>
     (\<forall>p. p \<noteq> [] \<longrightarrow> child_set s p = {i. \<exists>job. r_jobs s i = Some job \<and> job_ParentJobID job = p})"

definition wf_idem :: "Repository \<Rightarrow> bool" where
  "wf_idem s \<longleftrightarrow> (\<forall>k i. r_idem s k = Some i \<longrightarrow>
     k \<noteq> [] \<and> (\<exists>job. r_jobs s i = Some job \<and> job_IdempotencyKey job = k))"

definition wf_artifacts :: "Repository \<Rightarrow> bool" where
  "wf_artifacts s \<longleftrightarrow> dom (r_artifacts s) \<subseteq> dom (r_jobs s) \<and>
     (\<forall>i job. r_jobs s i = Some job \<longrightarrow> job_State job \<in> {StateCompleted, StateRendered} \<longrightarrow> i \<in> dom (r_artifacts s))"

text \<open>No claimable job is lost: it is linked in the FIFO.\<close>

definition no_lost :: "Repository \<Rightarrow> bool" where
  "no_lost s \<longleftrightarrow> (\<forall>i job. r_jobs s i = Some job \<longrightarrow> IsClaimable (job_State job) \<longrightarrow> i \<in> dom (r_orderIdx s))"

definition mem_wf :: "Repository \<Rightarrow> bool" where
  "mem_wf s \<longleftrightarrow> finite (dom (r_jobs s)) \<and> wf_rows s \<and> wf_order s \<and> wf_children s \<and> wf_idem s \<and>
     wf_artifacts s \<and> no_lost s \<and> registry_wf (r_workers s)"

lemmas wf_part_defs =
  wf_rows_def wf_order_def wf_children_def wf_idem_def wf_artifacts_def no_lost_def

lemma mem_wf_rowD: "mem_wf s \<Longrightarrow> r_jobs s i = Some job \<Longrightarrow> job_ID job = i"
  by (simp add: mem_wf_def wf_rows_def)

lemma mem_wf_New: "mem_wf (New lease maxAttempts)"
  by (simp add: mem_wf_def wf_part_defs New_def registry_wf_def child_set_def)

subsection \<open>Field access after the internal steps\<close>

lemma put_job_sel [simp]:
  "r_jobs (put_job i job s) = (r_jobs s)(i \<mapsto> job)"
  "r_artifacts (put_job i job s) = r_artifacts s"
  "r_order (put_job i job s) = r_order s"
  "r_orderIdx (put_job i job s) = r_orderIdx s"
  "r_nextEl (put_job i job s) = r_nextEl s"
  "r_idem (put_job i job s) = r_idem s"
  "r_workers (put_job i job s) = r_workers s"
  "r_lease (put_job i job s) = r_lease s"
  "r_maxAttempts (put_job i job s) = r_maxAttempts s"
  "r_children (put_job i job s) = r_children s"
  by (simp_all add: put_job_def)

lemma appendOrder_sel [simp]:
  "r_jobs (appendOrderLocked i s) = r_jobs s"
  "r_artifacts (appendOrderLocked i s) = r_artifacts s"
  "r_order (appendOrderLocked i s) = r_order s @ [(r_nextEl s, i)]"
  "r_orderIdx (appendOrderLocked i s) = (r_orderIdx s)(i \<mapsto> r_nextEl s)"
  "r_nextEl (appendOrderLocked i s) = Suc (r_nextEl s)"
  "r_idem (appendOrderLocked i s) = r_idem s"
  "r_workers (appendOrderLocked i s) = r_workers s"
  "r_lease (appendOrderLocked i s) = r_lease s"
  "r_maxAttempts (appendOrderLocked i s) = r_maxAttempts s"
  "r_children (appendOrderLocked i s) = r_children s"
  by (simp_all add: appendOrderLocked_def)

lemma removeOrder_sel [simp]:
  "r_jobs (removeOrderLocked i s) = r_jobs s"
  "r_artifacts (removeOrderLocked i s) = r_artifacts s"
  "r_orderIdx (removeOrderLocked i s) = (r_orderIdx s)(i := None)"
  "r_nextEl (removeOrderLocked i s) = r_nextEl s"
  "r_idem (removeOrderLocked i s) = r_idem s"
  "r_workers (removeOrderLocked i s) = r_workers s"
  "r_lease (removeOrderLocked i s) = r_lease s"
  "r_maxAttempts (removeOrderLocked i s) = r_maxAttempts s"
  "r_children (removeOrderLocked i s) = r_children s"
  by (auto simp: removeOrderLocked_def split: option.splits)

lemma indexChild_sel [simp]:
  "r_jobs (indexChildLocked job s) = r_jobs s"
  "r_artifacts (indexChildLocked job s) = r_artifacts s"
  "r_order (indexChildLocked job s) = r_order s"
  "r_orderIdx (indexChildLocked job s) = r_orderIdx s"
  "r_nextEl (indexChildLocked job s) = r_nextEl s"
  "r_idem (indexChildLocked job s) = r_idem s"
  "r_workers (indexChildLocked job s) = r_workers s"
  "r_lease (indexChildLocked job s) = r_lease s"
  "r_maxAttempts (indexChildLocked job s) = r_maxAttempts s"
  by (simp_all add: indexChildLocked_def Let_def)

lemma child_set_frame [simp]:
  "child_set (put_job i job s) = child_set s"
  "child_set (appendOrderLocked i s) = child_set s"
  "child_set (removeOrderLocked i s) = child_set s"
  by (auto simp: child_set_def fun_eq_iff)

lemma child_set_indexChild:
  "child_set (indexChildLocked job s) p =
     (if job_ParentJobID job \<noteq> [] \<and> p = job_ParentJobID job then insert (job_ID job) (child_set s p)
      else child_set s p)"
  by (auto simp: child_set_def indexChildLocked_def Let_def)

lemma set_removeOrder:
  "set (r_order (removeOrderLocked i s)) =
     {(e, j) \<in> set (r_order s). r_orderIdx s i \<noteq> Some e}"
  by (auto simp: removeOrderLocked_def split: option.splits)

lemma distinct_removeOrder:
  "distinct (map fst (r_order s)) \<Longrightarrow> distinct (map fst (r_order (removeOrderLocked i s)))"
  by (auto simp: removeOrderLocked_def distinct_map_fst_filter split: option.splits)

subsection \<open>Preservation by the building blocks\<close>

text \<open>A row update that keeps the identity, the parent and the idempotency key.\<close>

definition same_identity :: "Job \<Rightarrow> Job \<Rightarrow> bool" where
  "same_identity job job' \<longleftrightarrow> job_ID job' = job_ID job \<and> job_ParentJobID job' = job_ParentJobID job
     \<and> job_IdempotencyKey job' = job_IdempotencyKey job"

lemma wf_parts_put_job:
  assumes "r_jobs s i = Some job" and "same_identity job job'"
  shows "wf_rows s \<Longrightarrow> wf_rows (put_job i job' s)"
    and "wf_order s \<Longrightarrow> wf_order (put_job i job' s)"
    and "wf_children s \<Longrightarrow> wf_children (put_job i job' s)"
    and "wf_idem s \<Longrightarrow> wf_idem (put_job i job' s)"
proof -
  note eqs = assms [unfolded same_identity_def]
  show "wf_rows s \<Longrightarrow> wf_rows (put_job i job' s)"
    using eqs by (simp add: wf_rows_def)
  show "wf_order s \<Longrightarrow> wf_order (put_job i job' s)"
    using eqs by (auto simp: wf_order_def)
  have "{k. \<exists>j. r_jobs (put_job i job' s) k = Some j \<and> job_ParentJobID j = p}
      = {k. \<exists>j. r_jobs s k = Some j \<and> job_ParentJobID j = p}" for p
    using eqs by auto
  then show "wf_children s \<Longrightarrow> wf_children (put_job i job' s)"
    by (simp only: wf_children_def child_set_frame) blast
  show "wf_idem s \<Longrightarrow> wf_idem (put_job i job' s)"
    using eqs by (simp add: wf_idem_def) fastforce
qed

lemma wf_put_job [wf_intros]:
  assumes "mem_wf s" and "r_jobs s i = Some job" and "same_identity job job'"
    and "IsClaimable (job_State job') \<Longrightarrow> i \<in> dom (r_orderIdx s)"
    and "job_State job' \<in> {StateCompleted, StateRendered} \<Longrightarrow> i \<in> dom (r_artifacts s)"
  shows "mem_wf (put_job i job' s)"
proof -
  have "wf_artifacts (put_job i job' s)"
    using assms(1,2,5) by (auto simp: mem_wf_def wf_artifacts_def)
  moreover have "no_lost (put_job i job' s)"
    using assms(1,4) by (simp add: mem_wf_def no_lost_def)
  ultimately show ?thesis
    using wf_parts_put_job [OF assms(2,3)] assms(1) by (simp add: mem_wf_def)
qed

text \<open>The assignment to the row and the append to the FIFO are independent.\<close>

lemma appendOrder_put_job: "appendOrderLocked i (put_job j job s) = put_job j job (appendOrderLocked i s)"
  by (simp add: appendOrderLocked_def put_job_def)

lemma put_job_artifact:
  "(put_job j job s)\<lparr> r_artifacts := m \<rparr> = put_job j job (s\<lparr> r_artifacts := m \<rparr>)"
  by (simp add: put_job_def)

lemma wf_set_artifact [wf_intros]:
  "mem_wf s \<Longrightarrow> i \<in> dom (r_jobs s) \<Longrightarrow> mem_wf (s\<lparr> r_artifacts := (r_artifacts s)(i \<mapsto> a) \<rparr>)"
  by (auto simp: mem_wf_def wf_part_defs child_set_def)

lemma wf_appendOrder [wf_intros]:
  assumes "mem_wf s" and "i \<in> dom (r_jobs s)"
  shows "mem_wf (appendOrderLocked i s)"
proof -
  have "wf_order (appendOrderLocked i s)"
    using assms by (fastforce simp: mem_wf_def wf_order_def)
  moreover have "no_lost (appendOrderLocked i s)"
    using assms(1) by (simp add: mem_wf_def no_lost_def)
  ultimately show ?thesis
    using assms(1) by (simp add: mem_wf_def wf_rows_def wf_children_def wf_idem_def wf_artifacts_def)
qed

text \<open>Unlinking is safe for a row that is about to leave the claimable states.\<close>

lemma wf_order_removeOrder:
  assumes "wf_order s"
  shows "wf_order (removeOrderLocked i s)"
proof -
  have "(e, j) \<in> set (r_order (removeOrderLocked i s))" if "r_orderIdx s j = Some e" "j \<noteq> i" for e j
    using assms that distinct_fst_inj [of "r_order s" e j i]
    by (auto simp: wf_order_def set_removeOrder)
  then show ?thesis
    using assms distinct_removeOrder [of s i] by (auto simp: wf_order_def set_removeOrder)
qed

lemma wf_take_job [wf_intros]:
  assumes "mem_wf s" and "r_jobs s i = Some job" and "same_identity job job'"
    and "\<not> IsClaimable (job_State job')" and "job_State job' \<noteq> StateCompleted"
  shows "mem_wf (put_job i job' (removeOrderLocked i s))"
proof -
  let ?r = "removeOrderLocked i s"
  have "wf_rows ?r" "wf_order ?r" "wf_children ?r" "wf_idem ?r"
    using assms(1) wf_order_removeOrder [of s i]
    by (simp_all add: mem_wf_def wf_rows_def wf_children_def wf_idem_def)
  moreover have "wf_artifacts (put_job i job' ?r)"
    using assms(1,2,4,5) by (auto simp: mem_wf_def wf_artifacts_def IsClaimable_def)
  moreover have "no_lost (put_job i job' ?r)"
    using assms(1,4) by (simp add: mem_wf_def no_lost_def)
  ultimately show ?thesis
    using wf_parts_put_job [of ?r i job job'] assms(1,2,3) by (simp add: mem_wf_def)
qed

text \<open>Requeueing a row: it is claimable again and linked at the tail.\<close>

lemma wf_requeue_job [wf_intros]:
  assumes "mem_wf s" and "r_jobs s i = Some job" and "same_identity job job'"
    and "job_State job' \<in> {StateCompleted, StateRendered} \<Longrightarrow> i \<in> dom (r_artifacts s)"
  shows "mem_wf (appendOrderLocked i (put_job i job' s))"
  unfolding appendOrder_put_job
  using assms by (intro wf_put_job [where job = job] wf_appendOrder) auto

lemma wf_insertLocked [wf_intros]:
  assumes wf: "mem_wf s" and new: "job_ID job \<notin> dom (r_jobs s)" "job_ID job \<noteq> []"
  shows "mem_wf (insertLocked job now s)"
proof -
  define job' where "job' = job\<lparr> job_State := StatePending, job_CreatedAt := now, job_QueuedAt := now \<rparr>"
  let ?i = "job_ID job"
  let ?p = "put_job ?i job' s" and ?s = "insertLocked job now s"
  have s: "?s = appendOrderLocked ?i (indexChildLocked job' ?p)"
    by (simp add: insertLocked_def job'_def Let_def)
  have ID: "job_ID job' = ?i" by (simp add: job'_def)
  have "wf_order ?s" using wf by (fastforce simp: s mem_wf_def wf_order_def)
  moreover have "wf_rows ?s" using wf new ID by (simp add: s mem_wf_def wf_rows_def)
  moreover have "child_set ?s p = {i. \<exists>j. r_jobs ?s i = Some j \<and> job_ParentJobID j = p}" if "p \<noteq> []" for p
    using wf new ID that by (auto simp: s mem_wf_def wf_children_def child_set_indexChild)
  moreover have "child_set ?s [] = {}"
    using wf by (auto simp: s mem_wf_def wf_children_def child_set_indexChild)
  moreover have "wf_idem ?s"
    unfolding wf_idem_def
  proof (intro allI impI)
    fix k i assume "r_idem ?s k = Some i"
    then obtain j where j: "r_jobs s i = Some j" "job_IdempotencyKey j = k" "k \<noteq> []"
      using wf by (auto simp: s mem_wf_def wf_idem_def)
    with new have "i \<noteq> ?i" by auto
    with j show "k \<noteq> [] \<and> (\<exists>j. r_jobs ?s i = Some j \<and> job_IdempotencyKey j = k)" by (simp add: s)
  qed
  moreover have "wf_artifacts ?s"
    using wf new by (auto simp: s mem_wf_def wf_artifacts_def job'_def)
  moreover have "no_lost ?s" using wf by (simp add: s mem_wf_def no_lost_def)
  ultimately show ?thesis using wf by (simp add: s mem_wf_def wf_children_def)
qed

subsection \<open>Preservation by the operations\<close>

lemma same_identity_upd [simp]:
  "same_identity job (job\<lparr> job_State := a \<rparr>) = True"
  "same_identity job (job'\<lparr> job_State := a \<rparr>) = same_identity job job'"
  "same_identity job (job'\<lparr> job_Worker := b \<rparr>) = same_identity job job'"
  "same_identity job (job'\<lparr> job_Attempts := n \<rparr>) = same_identity job job'"
  "same_identity job (job'\<lparr> job_QueuedAt := t \<rparr>) = same_identity job job'"
  "same_identity job (job'\<lparr> job_StartedAt := t \<rparr>) = same_identity job job'"
  "same_identity job (job'\<lparr> job_CompletedAt := t \<rparr>) = same_identity job job'"
  "same_identity job (job'\<lparr> job_LeaseUntil := t \<rparr>) = same_identity job job'"
  "same_identity job (job'\<lparr> job_FailReason := b \<rparr>) = same_identity job job'"
  "same_identity job (job'\<lparr> job_Artifact := c \<rparr>) = same_identity job job'"
  "same_identity job (job'\<lparr> job_Progress := d \<rparr>) = same_identity job job'"
  "same_identity job job"
  by (simp_all add: same_identity_def)

lemma IsClaimable_simps [simp]:
  "IsClaimable StatePending" "IsClaimable StateRendered" "\<not> IsClaimable StateRunning"
  "\<not> IsClaimable StateCompleted" "\<not> IsClaimable StateFailed" "\<not> IsClaimable StateCancelled"
  "\<not> IsClaimable StateFinalizing"
  by (simp_all add: IsClaimable_def)

lemma runningJob_Inr:
  "runningJob i w s = Inr job \<longleftrightarrow>
     r_jobs s i = Some job \<and> job_State job \<in> {StateRunning, StateFinalizing} \<and> job_Worker job = w"
  by (auto simp: runningJob_def split: option.splits)

lemma with_running_wf [wf_intros]:
  assumes "mem_wf s"
    and "\<And>job. r_jobs s i = Some job \<Longrightarrow> job_State job \<in> {StateRunning, StateFinalizing} \<Longrightarrow> mem_wf (f job)"
  shows "mem_wf (snd (with_running i w f s))"
  using assms by (auto simp: with_running_def runningJob_Inr split: sum.splits)

lemma wf_set_idem [wf_intros]:
  assumes "mem_wf s" and "r_jobs s (job_ID job) = Some job'" "job_IdempotencyKey job' = job_IdempotencyKey job"
  shows "mem_wf (set_idem job s)"
  using assms by (auto simp: set_idem_def mem_wf_def wf_part_defs child_set_def)

lemma insertLocked_jobs [simp]:
  "r_jobs (insertLocked job now s) =
     (r_jobs s)(job_ID job \<mapsto> job\<lparr> job_State := StatePending, job_CreatedAt := now, job_QueuedAt := now \<rparr>)"
  by (simp add: insertLocked_def Let_def)

lemma set_idem_jobs [simp]: "r_jobs (set_idem job s) = r_jobs s"
  by (simp add: set_idem_def)

lemma wf_insert_idem:
  "mem_wf s \<Longrightarrow> job_ID job \<notin> dom (r_jobs s) \<Longrightarrow> job_ID job \<noteq> [] \<Longrightarrow>
     mem_wf (set_idem job (insertLocked job now s))"
  by (rule wf_set_idem [OF wf_insertLocked,
        where job' = "job\<lparr> job_State := StatePending, job_CreatedAt := now, job_QueuedAt := now \<rparr>"]) simp_all

lemma Submit_wf [wf_intros]: "mem_wf s \<Longrightarrow> mem_wf (snd (Submit U clk job s))"
  by (auto simp: Submit_def split: sum.splits intro!: wf_insertLocked)

lemma SubmitIdempotent_wf [wf_intros]: "mem_wf s \<Longrightarrow> mem_wf (snd (SubmitIdempotent U clk job s))"
  by (auto simp: SubmitIdempotent_def split: sum.splits option.splits intro!: wf_insert_idem)

lemma insert_family_wf:
  assumes "mem_wf s" and "distinct (map job_ID jobs)"
    and "\<forall>job \<in> set jobs. r_jobs s (job_ID job) = None \<and> job_ID job \<noteq> []"
  shows "mem_wf (insert_family now jobs s)"
  using assms
proof (induction jobs arbitrary: s)
  case (Cons job jobs)
  have "mem_wf (insert_family now jobs (set_idem job (insertLocked job now s)))"
    using Cons.prems by (intro Cons.IH wf_insert_idem) (auto simp: domIff image_iff)
  then show ?case by (simp add: insert_family_def)
qed (simp add: insert_family_def)

lemma ValidateJobBatch_Inr:
  "ValidateJobBatch U jobs = Inr () \<longleftrightarrow>
     jobs \<noteq> [] \<and> distinct (map job_ID jobs) \<and> (\<forall>job \<in> set jobs. job_ID job \<noteq> [] \<and> ValidateChunk U job = Inr ())"
  by (auto simp: ValidateJobBatch_def validate_batch_from_Inr)

lemma SubmitBatch_wf [wf_intros]: "mem_wf s \<Longrightarrow> mem_wf (snd (SubmitBatch U clk jobs s))"
  by (auto simp: SubmitBatch_def first_such_None_iff ValidateJobBatch_Inr domIff
      split: sum.splits option.splits intro!: insert_family_wf)

lemma claimCandidate_wf [wf_intros]:
  assumes "mem_wf s" and "claimCandidateLocked i w st now s = Some (job, s')"
  shows "mem_wf s'"
proof -
  from assms(2) obtain row where row: "r_jobs s i = Some row"
    and s': "s' = put_job i (claimed_row w now s i row) (removeOrderLocked i s)"
    by (auto simp: claimCandidateLocked_def claim_guard_def Let_def split: if_splits option.splits)
  show ?thesis unfolding s' using assms(1) row
    by (intro wf_take_job [where job = row]) (auto simp: claimed_row_def)
qed

lemma scan_snapshot_Some:
  "scan_snapshot w st now s cs = Some res \<Longrightarrow>
     \<exists>i \<in> set cs. i \<in> dom (r_orderIdx s) \<and> claimCandidateLocked i w st now s = Some res"
  by (induction cs) (auto split: if_splits option.splits)

lemma scan_live_Some:
  "scan_live w st now s cs is = Some res \<Longrightarrow>
     \<exists>i \<in> set is. i \<notin> set cs \<and> claimCandidateLocked i w st now s = Some res"
  by (induction "is") (auto split: if_splits option.splits)

text \<open>Whatever the snapshot, a claim is one of: nothing, or a candidate that passed the guard on live state.\<close>

lemma ClaimState_cases:
  assumes "ClaimState now cs w st s = (res, s')"
  obtains (Nothing) "res = None" "s' = s"
    | (Claimed) i job where "res = Some (job, r_lease s)" "claimCandidateLocked i w st now s = Some (job, s')"
  using assms scan_snapshot_Some [of w st now s cs] scan_live_Some [of w st now s cs]
  by (auto simp: ClaimState_def split: option.splits) metis

lemma ClaimState_wf [wf_intros]: "mem_wf s \<Longrightarrow> mem_wf (snd (ClaimState now cs w st s))"
  by (rule ClaimState_cases [of now cs w st s "fst (ClaimState now cs w st s)" "snd (ClaimState now cs w st s)"])
    (auto intro: claimCandidate_wf)

lemma ClaimFinalization_wf [wf_intros]: "mem_wf s \<Longrightarrow> mem_wf (snd (ClaimFinalization now p w s))"
  by (auto simp: ClaimFinalization_def Let_def split: option.splits intro!: wf_put_job)

lemma Complete_wf [wf_intros]: "mem_wf s \<Longrightarrow> mem_wf (snd (Complete clk i w a s))"
  unfolding Complete_def put_job_artifact
  by (rule with_running_wf) (auto intro!: wf_put_job wf_set_artifact)

lemma Rendered_wf [wf_intros]: "mem_wf s \<Longrightarrow> mem_wf (snd (Rendered clk i w a reason s))"
  unfolding Rendered_def put_job_artifact
  by (rule with_running_wf) (auto intro!: wf_requeue_job wf_set_artifact)

lemma Fail_wf [wf_intros]: "mem_wf s \<Longrightarrow> mem_wf (snd (Fail clk i w reason s))"
  unfolding Fail_def by (rule with_running_wf) (auto intro!: wf_requeue_job wf_put_job)

lemma FailPermanently_wf [wf_intros]: "mem_wf s \<Longrightarrow> mem_wf (snd (FailPermanently i w reason s))"
  unfolding FailPermanently_def by (rule with_running_wf) (auto intro!: wf_put_job)

lemma Renew_wf [wf_intros]: "mem_wf s \<Longrightarrow> mem_wf (snd (Renew clk i w s))"
  unfolding Renew_def by (rule with_running_wf) (auto intro!: wf_put_job)

lemma SetProgress_wf [wf_intros]: "mem_wf s \<Longrightarrow> mem_wf (snd (SetProgress clk i w p s))"
  unfolding SetProgress_def by (rule with_running_wf) (auto intro!: wf_put_job)

lemma Retry_wf [wf_intros]: "mem_wf s \<Longrightarrow> mem_wf (snd (Retry clk i s))"
  by (auto simp: Retry_def split: option.splits intro!: wf_requeue_job)

lemma Cancel_wf [wf_intros]: "mem_wf s \<Longrightarrow> mem_wf (snd (Cancel i s))"
  by (auto simp: Cancel_def split: option.splits intro!: wf_put_job)

lemma requeue_one_wf: "mem_wf (snd ns) \<Longrightarrow> mem_wf (snd (requeue_one now clk ns i))"
  by (auto simp: requeue_one_def mem_wf_rowD split: prod.splits option.splits
      intro!: wf_requeue_job wf_put_job)

lemma requeue_fold_wf: "mem_wf (snd ns) \<Longrightarrow> mem_wf (snd (foldl (requeue_one now clk) ns ord))"
  by (induction ord arbitrary: ns) (simp_all add: requeue_one_wf)

lemma RequeueExpired_wf [wf_intros]: "mem_wf s \<Longrightarrow> mem_wf (snd (RequeueExpired now clk ord s))"
  by (simp add: RequeueExpired_def requeue_fold_wf)

lemma workers_wf [wf_intros]:
  "mem_wf s \<Longrightarrow> registry_wf ws \<Longrightarrow> mem_wf (s\<lparr> r_workers := ws \<rparr>)"
  by (simp add: mem_wf_def wf_part_defs child_set_def)

lemma mem_wf_workers [wf_intros]: "mem_wf s \<Longrightarrow> registry_wf (r_workers s)"
  by (simp add: mem_wf_def)

section \<open>What the operations do to the rows\<close>

lemma claimCandidate_Some:
  "claimCandidateLocked i w st now s = Some (job, s') \<longleftrightarrow>
     claim_guard st now s i \<and> job = claimed_row w now s i (the (r_jobs s i))
     \<and> s' = put_job i job (removeOrderLocked i s)"
  by (auto simp: claimCandidateLocked_def Let_def)

lemma claim_guardD:
  assumes "claim_guard st now s i"
  obtains row where "r_jobs s i = Some row"
    and "case st of Some x \<Rightarrow> job_State row = x | None \<Rightarrow> IsClaimable (job_State row)"
    and "case job_NotBefore row of None \<Rightarrow> True | Some nb \<Rightarrow> nb \<le> now" and "child_set s i = {}"
  using assms by (auto simp: claim_guard_def hasChildrenLocked_def not_less split: option.splits)

text \<open>The effect of a claim, whatever the snapshot it used.\<close>

lemma ClaimState_effect:
  assumes "ClaimState now cs w st s = (res, s')"
  obtains (Nothing) "res = None" "s' = s"
    | (Claimed) i row where "claim_guard st now s i" "r_jobs s i = Some row"
      "res = Some (claimed_row w now s i row, r_lease s)"
      "s' = put_job i (claimed_row w now s i row) (removeOrderLocked i s)"
  using assms
proof (cases rule: ClaimState_cases)
  case (Claimed i job)
  then show ?thesis using that(2) [of i "the (r_jobs s i)"]
    by (auto simp: claimCandidate_Some elim: claim_guardD)
qed (use that in simp)

text \<open>What the sweep does to one row.\<close>

definition swept_row :: "gotime \<Rightarrow> gotime \<Rightarrow> int \<Rightarrow> Job \<Rightarrow> Job" where
  "swept_row now clk maxAttempts job =
     (if \<not> lease_expired now job then job
      else if ShouldFailPermanently (job_Attempts job) maxAttempts then
        job\<lparr> job_State := StateFailed, job_FailReason := ''lease expired, max attempts reached'' \<rparr>
      else job\<lparr> job_State := StatePending, job_Worker := [], job_QueuedAt := clk \<rparr>)"

lemma swept_row_idem [simp]: "swept_row now clk m (swept_row now clk m job) = swept_row now clk m job"
  by (simp add: swept_row_def lease_expired_def)

lemma requeue_one_maxAttempts [simp]: "r_maxAttempts (snd (requeue_one now clk ns i)) = r_maxAttempts (snd ns)"
  by (auto simp: requeue_one_def split: prod.splits option.splits)

lemma requeue_one_rows:
  "r_jobs (snd (requeue_one now clk ns i)) j =
     (if j = i then map_option (swept_row now (clk i) (r_maxAttempts (snd ns))) (r_jobs (snd ns) i)
      else r_jobs (snd ns) j)"
  by (auto simp: requeue_one_def swept_row_def split: prod.splits option.splits)

lemma requeue_fold_rows:
  "r_jobs (snd (foldl (requeue_one now clk) ns ord)) j =
     (if j \<in> set ord then map_option (swept_row now (clk j) (r_maxAttempts (snd ns))) (r_jobs (snd ns) j)
      else r_jobs (snd ns) j)"
  by (induction ord arbitrary: ns) (auto simp: requeue_one_rows option.map_comp o_def)

lemma RequeueExpired_rows:
  "r_jobs (snd (RequeueExpired now clk ord s)) j =
     (if j \<in> set ord then map_option (swept_row now (clk j) (r_maxAttempts s)) (r_jobs s j) else r_jobs s j)"
  by (simp add: RequeueExpired_def requeue_fold_rows)

lemma requeue_one_count:
  "fst (requeue_one now clk ns i) =
     fst ns + (case r_jobs (snd ns) i of None \<Rightarrow> 0 | Some job \<Rightarrow> if lease_expired now job then 1 else 0)"
  by (auto simp: requeue_one_def split: prod.splits option.splits)

lemma requeue_fold_count:
  "distinct ord \<Longrightarrow> fst (foldl (requeue_one now clk) ns ord) =
     fst ns + length (filter (\<lambda>i. case r_jobs (snd ns) i of None \<Rightarrow> False | Some job \<Rightarrow> lease_expired now job) ord)"
proof (induction ord arbitrary: ns)
  case (Cons i ord)
  have "filter (\<lambda>j. case r_jobs (snd (requeue_one now clk ns i)) j of None \<Rightarrow> False | Some job \<Rightarrow> lease_expired now job) ord
      = filter (\<lambda>j. case r_jobs (snd ns) j of None \<Rightarrow> False | Some job \<Rightarrow> lease_expired now job) ord"
    using Cons.prems by (intro filter_cong) (auto simp: requeue_one_rows)
  then show ?case using Cons by (simp add: requeue_one_count split: option.splits)
qed simp

section \<open>Which job a claim returns\<close>

lemma scan_snapshot_first:
  assumes "\<And>i. claim_guard st now s i \<Longrightarrow> i \<in> dom (r_orderIdx s)"
  shows "scan_snapshot w st now s cs =
    (case first_such (claim_guard st now s) cs of None \<Rightarrow> None | Some i \<Rightarrow> claimCandidateLocked i w st now s)"
  using assms by (induction cs) (auto simp: claimCandidateLocked_def Let_def split: option.splits)

lemma scan_live_first:
  "scan_live w st now s cs is =
    (case first_such (\<lambda>i. i \<notin> set cs \<and> claim_guard st now s i) is of None \<Rightarrow> None
     | Some i \<Rightarrow> claimCandidateLocked i w st now s)"
  by (induction "is") (auto simp: claimCandidateLocked_def Let_def split: option.splits)

text \<open>Under a claimable filter, a job that passes the guard is linked in the FIFO.\<close>

lemma claim_guard_linked:
  assumes "mem_wf s" and "st \<in> {None, Some StatePending, Some StateRendered}" and "claim_guard st now s i"
  shows "i \<in> dom (r_orderIdx s)" and "i \<in> set (map snd (r_order s))"
proof -
  from assms(3) obtain row where row: "r_jobs s i = Some row"
    "case st of Some x \<Rightarrow> job_State row = x | None \<Rightarrow> IsClaimable (job_State row)"
    by (rule claim_guardD)
  then have "IsClaimable (job_State row)" using assms(2) by auto
  with row assms(1) show idx: "i \<in> dom (r_orderIdx s)" by (simp add: mem_wf_def no_lost_def)
  then show "i \<in> set (map snd (r_order s))"
    using assms(1) by (force simp: mem_wf_def wf_order_def)
qed

lemma ClaimState_first:
  assumes "mem_wf s" and "st \<in> {None, Some StatePending, Some StateRendered}"
  shows "fst (ClaimState now cs w st s) =
    map_option (\<lambda>i. (claimed_row w now s i (the (r_jobs s i)), r_lease s))
      (first_such (claim_guard st now s) (cs @ filter (\<lambda>i. i \<notin> set cs) (map snd (r_order s))))"
proof -
  have app: "first_such P (xs @ ys) = (case first_such P xs of None \<Rightarrow> first_such P ys | Some x \<Rightarrow> Some x)"
    for P and xs ys :: "string list" by (induction xs) auto
  have flt: "first_such P (filter Q xs) = first_such (\<lambda>x. Q x \<and> P x) xs"
    for P Q and xs :: "string list" by (induction xs) auto
  have snap: "scan_snapshot w st now s cs =
      (case first_such (claim_guard st now s) cs of None \<Rightarrow> None | Some i \<Rightarrow> claimCandidateLocked i w st now s)"
    using claim_guard_linked(1) [OF assms] by (rule scan_snapshot_first)
  show ?thesis
    unfolding ClaimState_def snap scan_live_first app flt
    by (auto simp: claimCandidateLocked_def Let_def dest: first_such_SomeD split: option.splits)
qed

lemma ClaimState_None_iff:
  assumes "mem_wf s" and "st \<in> {None, Some StatePending, Some StateRendered}"
  shows "fst (ClaimState now cs w st s) = None \<longleftrightarrow> (\<forall>i. \<not> claim_guard st now s i)"
  using claim_guard_linked(2) [OF assms]
  by (auto simp: ClaimState_first [OF assms] first_such_None_iff)

end
