(* ===== verification/Queue_Lifecycle.thy ===== *)
theory Queue_Lifecycle
  imports Queue_Memory
begin

text \<open>
  The in-memory queue as a transition system. A call is one operation under the repository lock
  with its arguments and clock readings; a run is a sequence of calls, so it is any interleaving
  of the clients. The second phase of a claim is one call and carries the snapshot its first
  phase took, which may be arbitrarily old. The theory states what holds along every run: the
  representation invariant, that no claimable job is lost, the lifecycle the rows go through,
  attempts, terminal states and idempotent submission.
\<close>

section \<open>Calls and runs\<close>

datatype mem_call =
    CSubmit gotime Job
  | CSubmitIdempotent gotime Job
  | CSubmitBatch gotime "Job list"
  | CClaim gotime "string list" string "State option"
  | CClaimFinalization gotime string string
  | CComplete gotime string string Artifact
  | CRendered gotime string string Artifact string
  | CFail gotime string string string
  | CFailPermanently string string string
  | CRenew gotime string string
  | CSetProgress gotime string string Progress
  | CRetry gotime string
  | CCancel string
  | CRequeueExpired gotime "string \<Rightarrow> gotime" "string list"
  | CRegister gotime Worker
  | CHeartbeat gotime string

fun exec :: "(nat \<Rightarrow> bool) \<Rightarrow> mem_call \<Rightarrow> Repository \<Rightarrow> Repository" where
  "exec U (CSubmit clk job) s = snd (Submit U clk job s)"
| "exec U (CSubmitIdempotent clk job) s = snd (SubmitIdempotent U clk job s)"
| "exec U (CSubmitBatch clk jobs) s = snd (SubmitBatch U clk jobs s)"
| "exec U (CClaim clk cs w st) s = snd (ClaimState clk cs w st s)"
| "exec U (CClaimFinalization clk p w) s = snd (ClaimFinalization clk p w s)"
| "exec U (CComplete clk i w a) s = snd (Complete clk i w a s)"
| "exec U (CRendered clk i w a reason) s = snd (Rendered clk i w a reason s)"
| "exec U (CFail clk i w reason) s = snd (Fail clk i w reason s)"
| "exec U (CFailPermanently i w reason) s = snd (FailPermanently i w reason s)"
| "exec U (CRenew clk i w) s = snd (Renew clk i w s)"
| "exec U (CSetProgress clk i w p) s = snd (SetProgress clk i w p s)"
| "exec U (CRetry clk i) s = snd (Retry clk i s)"
| "exec U (CCancel i) s = snd (Cancel i s)"
| "exec U (CRequeueExpired now clk ord) s = snd (RequeueExpired now clk ord s)"
| "exec U (CRegister clk w) s = s\<lparr> r_workers := snd (Register clk w (r_workers s)) \<rparr>"
| "exec U (CHeartbeat clk k) s = s\<lparr> r_workers := snd (Heartbeat clk k (r_workers s)) \<rparr>"

inductive mem_step :: "(nat \<Rightarrow> bool) \<Rightarrow> Repository \<Rightarrow> mem_call \<Rightarrow> Repository \<Rightarrow> bool" for U where
  step_call: "exec U c s = s' \<Longrightarrow> mem_step U s c s'"

inductive_simps mem_step_iff: "mem_step U s c s'"

inductive mem_run :: "(nat \<Rightarrow> bool) \<Rightarrow> Repository \<Rightarrow> mem_call list \<Rightarrow> Repository \<Rightarrow> bool" for U s where
  run_refl: "mem_run U s [] s"
| run_step: "mem_run U s cs s' \<Longrightarrow> mem_step U s' c s'' \<Longrightarrow> mem_run U s (cs @ [c]) s''"

inductive_cases mem_run_NilE: "mem_run U s [] s'"
inductive_cases mem_run_snocE: "mem_run U s (cs @ [c]) s'"

lemma exec_wf: "mem_wf s \<Longrightarrow> mem_wf (exec U c s)"
  by (cases c) (auto intro: wf_intros)

lemma mem_run_wf: "mem_run U s cs s' \<Longrightarrow> mem_wf s \<Longrightarrow> mem_wf s'"
  by (induction rule: mem_run.induct) (auto simp: mem_step_iff intro: exec_wf)

lemma mem_run_exec: "mem_run U s cs s' \<longleftrightarrow> s' = foldl (\<lambda>s c. exec U c s) s cs"
proof
  show "mem_run U s cs s' \<Longrightarrow> s' = foldl (\<lambda>s c. exec U c s) s cs"
    by (induction rule: mem_run.induct) (auto simp: mem_step_iff)
  have "mem_run U s cs (foldl (\<lambda>s c. exec U c s) s cs)"
    by (induction cs rule: rev_induct) (auto simp: mem_step_iff intro: mem_run.intros)
  then show "s' = foldl (\<lambda>s c. exec U c s) s cs \<Longrightarrow> mem_run U s cs s'" by simp
qed

section \<open>The abstract lifecycle\<close>

text \<open>
  The contract of a job as its producer sees it: its state and how often it was handed out.
  The parameter is the retry budget.
\<close>

inductive lc_step :: "int \<Rightarrow> State \<times> int \<Rightarrow> State \<times> int \<Rightarrow> bool" for m where
  lc_claim: "IsClaimable q \<Longrightarrow> lc_step m (q, n) (StateRunning, n + 1)"
| lc_finalize: "q \<in> {StatePending, StateRunning} \<Longrightarrow> lc_step m (q, n) (StateFinalizing, n)"
| lc_complete: "q \<in> {StateRunning, StateFinalizing} \<Longrightarrow> lc_step m (q, n) (StateCompleted, n)"
| lc_rendered: "q \<in> {StateRunning, StateFinalizing} \<Longrightarrow> lc_step m (q, n) (StateRendered, n)"
| lc_requeue: "q \<in> {StateRunning, StateFinalizing} \<Longrightarrow> \<not> ShouldFailPermanently n m \<Longrightarrow>
    lc_step m (q, n) (StatePending, n)"
| lc_fail: "q \<in> {StateRunning, StateFinalizing} \<Longrightarrow> lc_step m (q, n) (StateFailed, n)"
| lc_retry: "lc_step m (StateFailed, n) (StatePending, n)"
| lc_cancel: "IsCancelable q \<Longrightarrow> lc_step m (q, n) (StateCancelled, n)"

inductive_cases lc_step_completedE: "lc_step m (StateCompleted, n) q'"
inductive_cases lc_step_cancelledE: "lc_step m (StateCancelled, n) q'"
inductive_cases lc_step_toPendingE: "lc_step m q (StatePending, n)"

definition lc_of :: "Job \<Rightarrow> State \<times> int" where
  "lc_of job = (job_State job, job_Attempts job)"

text \<open>
  A call leaves a row alone, or updates it without touching state or attempts (only while it is
  held by a worker), or takes it one step along the lifecycle.
\<close>

definition row_rel :: "int \<Rightarrow> Job \<Rightarrow> Job \<Rightarrow> bool" where
  "row_rel m job job' \<longleftrightarrow> same_identity job job' \<and>
     (job' = job
      \<or> lc_of job' = lc_of job \<and> job_State job \<in> {StateRunning, StateFinalizing}
      \<or> lc_step m (lc_of job) (lc_of job'))"

definition rows_rel :: "Repository \<Rightarrow> Repository \<Rightarrow> bool" where
  "rows_rel s s' \<longleftrightarrow> r_maxAttempts s' = r_maxAttempts s \<and>
     (\<forall>i job. r_jobs s i = Some job \<longrightarrow> (\<exists>job'. r_jobs s' i = Some job' \<and> row_rel (r_maxAttempts s) job job'))"

named_theorems row_intros \<open>operations relate the rows before and after by \<open>rows_rel\<close>\<close>

lemma row_rel_refl [simp]: "row_rel m job job"
  by (simp add: row_rel_def)

lemma rows_rel_refl [simp]: "rows_rel s s"
  by (simp add: rows_rel_def)

lemma rows_rel_update:
  assumes "r_jobs s i = Some job" and "row_rel (r_maxAttempts s) job job'"
    and "r_jobs s' = (r_jobs s)(i \<mapsto> job')" and "r_maxAttempts s' = r_maxAttempts s"
  shows "rows_rel s s'"
  using assms by (simp add: rows_rel_def)

lemma rows_rel_extend:
  assumes "\<And>i job. r_jobs s i = Some job \<Longrightarrow> r_jobs s' i = Some job" and "r_maxAttempts s' = r_maxAttempts s"
  shows "rows_rel s s'"
  using assms by (simp add: rows_rel_def)

lemma rows_rel_with_running [row_intros]:
  assumes "\<And>job. r_jobs s i = Some job \<Longrightarrow> job_State job \<in> {StateRunning, StateFinalizing} \<Longrightarrow>
      rows_rel s (f job)"
  shows "rows_rel s (snd (with_running i w f s))"
  using assms by (auto simp: with_running_def runningJob_Inr split: sum.splits)

lemma lc_step_simps [simp]:
  "q \<in> {StateRunning, StateFinalizing} \<Longrightarrow> lc_step m (q, n) (StateCompleted, n)"
  "q \<in> {StateRunning, StateFinalizing} \<Longrightarrow> lc_step m (q, n) (StateRendered, n)"
  "q \<in> {StateRunning, StateFinalizing} \<Longrightarrow> lc_step m (q, n) (StateFailed, n)"
  "q \<in> {StateRunning, StateFinalizing} \<Longrightarrow> \<not> ShouldFailPermanently n m \<Longrightarrow> lc_step m (q, n) (StatePending, n)"
  "IsClaimable q \<Longrightarrow> lc_step m (q, n) (StateRunning, n + 1)"
  "q \<in> {StatePending, StateRunning} \<Longrightarrow> lc_step m (q, n) (StateFinalizing, n)"
  "lc_step m (StateFailed, n) (StatePending, n)"
  "IsCancelable q \<Longrightarrow> lc_step m (q, n) (StateCancelled, n)"
  by (blast intro: lc_step.intros)+

lemma Complete_rows [row_intros]: "rows_rel s (snd (Complete clk i w a s))"
  unfolding Complete_def
  by (rule rows_rel_with_running, rule rows_rel_update) (auto simp: row_rel_def lc_of_def)

lemma Rendered_rows [row_intros]: "rows_rel s (snd (Rendered clk i w a reason s))"
  unfolding Rendered_def
  by (rule rows_rel_with_running, rule rows_rel_update) (auto simp: row_rel_def lc_of_def)

lemma Fail_rows [row_intros]: "rows_rel s (snd (Fail clk i w reason s))"
  unfolding Fail_def
  by (rule rows_rel_with_running) (auto simp: row_rel_def lc_of_def intro!: rows_rel_update)

lemma FailPermanently_rows [row_intros]: "rows_rel s (snd (FailPermanently i w reason s))"
  unfolding FailPermanently_def
  by (rule rows_rel_with_running, rule rows_rel_update) (auto simp: row_rel_def lc_of_def)

lemma Renew_rows [row_intros]: "rows_rel s (snd (Renew clk i w s))"
  unfolding Renew_def
  by (rule rows_rel_with_running, rule rows_rel_update) (auto simp: row_rel_def lc_of_def)

lemma SetProgress_rows [row_intros]: "rows_rel s (snd (SetProgress clk i w p s))"
  unfolding SetProgress_def
  by (rule rows_rel_with_running, rule rows_rel_update) (auto simp: row_rel_def lc_of_def)

lemma Retry_rows [row_intros]: "rows_rel s (snd (Retry clk i s))"
  by (auto simp: Retry_def row_rel_def lc_of_def split: option.splits intro!: rows_rel_update)

lemma Cancel_rows [row_intros]: "rows_rel s (snd (Cancel i s))"
  by (auto simp: Cancel_def row_rel_def lc_of_def split: option.splits intro!: rows_rel_update)

lemma ClaimFinalization_rows [row_intros]: "rows_rel s (snd (ClaimFinalization clk p w s))"
  by (auto simp: ClaimFinalization_def row_rel_def lc_of_def Let_def split: option.splits
      intro!: rows_rel_update)

lemma ClaimState_rows [row_intros]:
  assumes "st \<in> {None, Some StatePending, Some StateRendered}"
  shows "rows_rel s (snd (ClaimState now cs w st s))"
proof (cases "ClaimState now cs w st s" rule: prod.exhaust)
  case (Pair res s')
  from this show ?thesis
  proof (cases rule: ClaimState_effect)
    case (Claimed i row)
    from Claimed(1,2) assms have "IsClaimable (job_State row)" by (auto elim!: claim_guardD)
    then show ?thesis using Claimed Pair
      by (intro rows_rel_update [where i = i and job = row and job' = "claimed_row w now s i row"])
        (auto simp: row_rel_def lc_of_def claimed_row_def)
  qed (use Pair in simp)
qed

lemma RequeueExpired_max [simp]: "r_maxAttempts (snd (RequeueExpired now clk ord s)) = r_maxAttempts s"
proof -
  have "r_maxAttempts (snd (foldl (requeue_one now clk) ns ord)) = r_maxAttempts (snd ns)" for ns
    by (induction ord arbitrary: ns) simp_all
  then show ?thesis by (simp add: RequeueExpired_def)
qed

lemma swept_row_rel: "row_rel m job (swept_row now clk m job)"
  by (auto simp: swept_row_def row_rel_def lc_of_def lease_expired_def)

lemma RequeueExpired_rows_rel [row_intros]: "rows_rel s (snd (RequeueExpired now clk ord s))"
  by (auto simp: rows_rel_def RequeueExpired_rows swept_row_rel)

lemma insert_sel [simp]:
  "r_maxAttempts (insertLocked job now s) = r_maxAttempts s"
  "r_artifacts (insertLocked job now s) = r_artifacts s"
  "r_maxAttempts (set_idem job s) = r_maxAttempts s"
  "r_artifacts (set_idem job s) = r_artifacts s"
  by (simp_all add: insertLocked_def set_idem_def Let_def)

lemma insert_family_Nil [simp]: "insert_family now [] s = s"
  by (simp add: insert_family_def)

lemma insert_family_Cons [simp]:
  "insert_family now (job # jobs) s = insert_family now jobs (set_idem job (insertLocked job now s))"
  by (simp add: insert_family_def)

lemma insert_family_sel [simp]:
  "r_maxAttempts (insert_family now jobs s) = r_maxAttempts s"
  "r_artifacts (insert_family now jobs s) = r_artifacts s"
  by (induction jobs arbitrary: s) simp_all

lemma insert_family_other: "i \<notin> job_ID ` set jobs \<Longrightarrow> r_jobs (insert_family now jobs s) i = r_jobs s i"
  by (induction jobs arbitrary: s) simp_all

lemma insert_family_row:
  "distinct (map job_ID jobs) \<Longrightarrow> job \<in> set jobs \<Longrightarrow>
     r_jobs (insert_family now jobs s) (job_ID job) =
       Some (job\<lparr> job_State := StatePending, job_CreatedAt := now, job_QueuedAt := now \<rparr>)"
  by (induction jobs arbitrary: s) (auto simp: insert_family_other)

lemma Submit_rows [row_intros]: "rows_rel s (snd (Submit U clk job s))"
  by (auto simp: Submit_def split: sum.splits intro!: rows_rel_extend)

lemma SubmitIdempotent_rows [row_intros]: "rows_rel s (snd (SubmitIdempotent U clk job s))"
  by (auto simp: SubmitIdempotent_def split: sum.splits option.splits intro!: rows_rel_extend)

lemma SubmitBatch_rows [row_intros]: "rows_rel s (snd (SubmitBatch U clk jobs s))"
proof -
  have "rows_rel s (insert_family clk jobs s)" if "\<forall>job \<in> set jobs. job_ID job \<notin> dom (r_jobs s)"
  proof (rule rows_rel_extend)
    fix i job assume "r_jobs s i = Some job"
    with that have "i \<notin> job_ID ` set jobs" by auto
    then show "r_jobs (insert_family clk jobs s) i = Some job"
      using \<open>r_jobs s i = Some job\<close> by (simp add: insert_family_other)
  qed simp
  then show ?thesis
    by (auto simp: SubmitBatch_def first_such_None_iff split: sum.splits option.splits)
qed

text \<open>
  The claim filters a worker may use: any claimable state, or one of them. (The repository also
  accepts the other states; see the last section.)
\<close>

definition claimable_filter :: "mem_call \<Rightarrow> bool" where
  "claimable_filter c =
     (case c of CClaim _ _ _ st \<Rightarrow> st = None \<or> st = Some StatePending \<or> st = Some StateRendered | _ \<Rightarrow> True)"

lemma rows_rel_workers [simp]: "rows_rel s (s\<lparr> r_workers := ws \<rparr>)"
  by (simp add: rows_rel_def)

lemma exec_rows: "claimable_filter c \<Longrightarrow> rows_rel s (exec U c s)"
  by (cases c) (auto intro: row_intros simp: claimable_filter_def)

text \<open>
  Without a restriction on the filters there is one more way: a claim that asks for a state by name
  takes a job out of that state, whichever it is.
\<close>

definition asks_for :: "State \<Rightarrow> mem_call \<Rightarrow> bool" where
  "asks_for q c = (case c of CClaim _ _ _ st \<Rightarrow> st = Some q | _ \<Rightarrow> False)"

definition row_rel_any :: "int \<Rightarrow> mem_call \<Rightarrow> Job \<Rightarrow> Job \<Rightarrow> bool" where
  "row_rel_any m c job job' \<longleftrightarrow> row_rel m job job'
     \<or> asks_for (job_State job) c \<and> same_identity job job' \<and> lc_of job' = (StateRunning, job_Attempts job + 1)"

lemma exec_row_any:
  shows "r_maxAttempts (exec U c s) = r_maxAttempts s"
    and "r_jobs s i = Some job \<Longrightarrow>
      \<exists>job'. r_jobs (exec U c s) i = Some job' \<and> row_rel_any (r_maxAttempts s) c job job'"
proof -
  have "r_maxAttempts (exec U c s) = r_maxAttempts s \<and>
    (\<forall>job. r_jobs s i = Some job \<longrightarrow>
      (\<exists>job'. r_jobs (exec U c s) i = Some job' \<and> row_rel_any (r_maxAttempts s) c job job'))"
  proof (cases "claimable_filter c")
    case True
    then show ?thesis using exec_rows [of c s U] by (auto simp: rows_rel_def row_rel_any_def)
  next
    case False
    then obtain clk cs w q where c: "c = CClaim clk cs w (Some q)"
      by (cases c) (auto simp: claimable_filter_def)
    obtain res s' where eff: "ClaimState clk cs w (Some q) s = (res, s')" by fastforce
    then show ?thesis
    proof (cases rule: ClaimState_effect)
      case (Claimed k row)
      then have "job_State row = q" by (auto elim!: claim_guardD)
      then show ?thesis using Claimed eff c
        by (auto simp: row_rel_any_def asks_for_def lc_of_def claimed_row_def)
    qed (use eff c in \<open>simp add: row_rel_any_def\<close>)
  qed
  then show "r_maxAttempts (exec U c s) = r_maxAttempts s"
    and "r_jobs s i = Some job \<Longrightarrow>
      \<exists>job'. r_jobs (exec U c s) i = Some job' \<and> row_rel_any (r_maxAttempts s) c job job'" by blast+
qed

lemma mem_run_identity_any:
  assumes "mem_run U s cs s'" and "r_jobs s i = Some job"
  shows "\<exists>job'. r_jobs s' i = Some job' \<and> same_identity job job'"
  using assms(1)
proof (induction rule: mem_run.induct)
  case (run_step cs s1 c s2)
  then obtain job1 where 1: "r_jobs s1 i = Some job1" "same_identity job job1" by blast
  from exec_row_any(2) [OF 1(1), of U c] obtain job2 where "r_jobs s2 i = Some job2" "same_identity job1 job2"
    using run_step(2) by (auto simp: row_rel_any_def row_rel_def mem_step_iff)
  with 1(2) show ?case by (auto simp: same_identity_def)
qed (simp add: assms(2) same_identity_def)

text \<open>A row that appears is a submitted one.\<close>

lemma with_running_new:
  "r_jobs s j = None \<Longrightarrow> (\<And>job. r_jobs s i = Some job \<Longrightarrow> r_jobs (f job) j = None) \<Longrightarrow>
     r_jobs (snd (with_running i w f s)) j = None"
  by (auto simp: with_running_def runningJob_Inr split: sum.splits)

lemma ClaimState_new: "r_jobs s j = None \<Longrightarrow> r_jobs (snd (ClaimState now cs w st s)) j = None"
  by (rule ClaimState_effect [of now cs w st s "fst (ClaimState now cs w st s)" "snd (ClaimState now cs w st s)"])
    auto

fun submitted :: "mem_call \<Rightarrow> Job list" where
  "submitted (CSubmit _ job) = [job]"
| "submitted (CSubmitIdempotent _ job) = [job]"
| "submitted (CSubmitBatch _ jobs) = jobs"
| "submitted _ = []"

lemma insert_family_new:
  assumes "\<And>job. r_jobs s j = Some job \<Longrightarrow> P job"
    and "\<And>job. job \<in> set jobs \<Longrightarrow> P (job\<lparr> job_State := StatePending, job_CreatedAt := now, job_QueuedAt := now \<rparr>)"
    and "r_jobs (insert_family now jobs s) j = Some job'"
  shows "P job'"
  using assms
proof (induction jobs arbitrary: s)
  case (Cons job jobs)
  show ?case
    by (rule Cons.IH [of "set_idem job (insertLocked job now s)"]) (use Cons.prems in \<open>auto split: if_splits\<close>)
qed simp

lemma transitions_new:
  assumes "r_jobs s j = None"
  shows "r_jobs (snd (Complete clk i w a s)) j = None"
    and "r_jobs (snd (Rendered clk i w a reason s)) j = None"
    and "r_jobs (snd (Fail clk i w reason s)) j = None"
    and "r_jobs (snd (FailPermanently i w reason s)) j = None"
    and "r_jobs (snd (Renew clk i w s)) j = None"
    and "r_jobs (snd (SetProgress clk i w p s)) j = None"
    and "r_jobs (snd (Retry clk i s)) j = None"
    and "r_jobs (snd (Cancel i s)) j = None"
    and "r_jobs (snd (ClaimFinalization clk i w s)) j = None"
    and "r_jobs (snd (RequeueExpired now clk' ord s)) j = None"
  using assms
  by (auto simp: Complete_def Rendered_def Fail_def FailPermanently_def Renew_def SetProgress_def
      Retry_def Cancel_def ClaimFinalization_def Let_def RequeueExpired_rows
      split: option.splits intro!: with_running_new)

lemma exec_new_row:
  assumes "r_jobs s i = None" and "r_jobs (exec U c s) i = Some job'"
  shows "job_State job' = StatePending \<and> (\<exists>job \<in> set (submitted c). job_Attempts job' = job_Attempts job)"
proof (cases c)
  case (CSubmitBatch clk jobs)
  then have "r_jobs (insert_family clk jobs s) i = Some job'"
    using assms by (auto simp: SubmitBatch_def split: sum.splits option.splits)
  then show ?thesis
    using assms(1) CSubmitBatch insert_family_new
      [of s i "\<lambda>j. job_State j = StatePending \<and> (\<exists>job \<in> set jobs. job_Attempts j = job_Attempts job)" jobs clk job']
    by auto
qed (use assms in \<open>auto simp: transitions_new ClaimState_new Submit_def SubmitIdempotent_def
      split: sum.splits option.splits if_splits\<close>)

section \<open>Properties of every run\<close>

text \<open>
  C1. Every state the in-memory queue can reach, through any interleaving of calls and with
  arbitrarily stale claim snapshots, satisfies the representation invariant: rows are stored
  under their own id, FIFO elements are distinct and indexed soundly, the children and
  idempotency indexes agree with the rows, a completed or rendered job has its artifact, and
  every claimable job is linked in the FIFO.
\<close>

theorem queue_invariant_holds_on_every_run:
  assumes "mem_run U (New lease maxAttempts) cs s"
  shows "mem_wf s"
  using mem_run_wf [OF assms] mem_wf_New by blast

text \<open>
  C2. Lifecycle refinement, for every call, whatever its arguments: every job keeps its identity,
  parent and idempotency key and is never deleted, and its state and attempt count either stay or
  take one step of the abstract lifecycle; a job that appears is pending. The one exception is a
  claim that asks for a state by name: the repository and the HTTP route accept any state there,
  and such a claim takes a job from whatever state it names to running, with one more attempt.
\<close>

theorem queue_refines_lifecycle:
  "\<forall>i. case r_jobs s i of
      Some job \<Rightarrow> (\<exists>job'. r_jobs (exec U c s) i = Some job' \<and> same_identity job job' \<and>
        (lc_of job' = lc_of job \<or> lc_step (r_maxAttempts s) (lc_of job) (lc_of job')
          \<or> asks_for (job_State job) c \<and> lc_of job' = (StateRunning, job_Attempts job + 1)))
    | None \<Rightarrow> (case r_jobs (exec U c s) i of None \<Rightarrow> True | Some job' \<Rightarrow> job_State job' = StatePending)"
proof
  fix i
  show "case r_jobs s i of
      Some job \<Rightarrow> (\<exists>job'. r_jobs (exec U c s) i = Some job' \<and> same_identity job job' \<and>
        (lc_of job' = lc_of job \<or> lc_step (r_maxAttempts s) (lc_of job) (lc_of job')
          \<or> asks_for (job_State job) c \<and> lc_of job' = (StateRunning, job_Attempts job + 1)))
    | None \<Rightarrow> (case r_jobs (exec U c s) i of None \<Rightarrow> True | Some job' \<Rightarrow> job_State job' = StatePending)"
  proof (cases "r_jobs s i")
    case None
    then show ?thesis using exec_new_row [OF None, of U c] by (auto split: option.splits)
  next
    case (Some job)
    then show ?thesis using exec_row_any(2) [OF Some, of U c]
      by (auto simp: row_rel_any_def row_rel_def)
  qed
qed

section \<open>Claims\<close>

definition sample_job :: "string \<Rightarrow> Job" where
  "sample_job i =
     \<lparr> job_ID = i, job_Schema = JobSchemaV1, job_Version = 1, job_IdempotencyKey = [], job_JobType = [],
       job_PublicationPolicy = [], job_DaemonAdmissionWaitMS = Fin 0, job_ParentJobID = [],
       job_ChunkIndex = 0, job_FrameRange = None, job_NotBefore = None, job_RenderPlan = [],
       job_Assets = [], job_State = StatePending, job_Worker = [], job_Attempts = 0, job_CreatedAt = 0,
       job_QueuedAt = 0, job_StartedAt = 0, job_CompletedAt = 0, job_LeaseUntil = 0,
       job_FailReason = [], job_Artifact = None, job_Progress = None, job_Lease = 0 \<rparr>"

text \<open>A queue with two jobs submitted in order, the first one deferred until instant 100.\<close>

definition sample_queue :: Repository where
  "sample_queue =
     snd (Submit (\<lambda>_. False) 6 (sample_job ''b'')
       (snd (Submit (\<lambda>_. False) 5 ((sample_job ''a'')\<lparr> job_NotBefore := Some 100 \<rparr>) (New 10 3))))"

lemma sample_queue_run:
  "mem_run (\<lambda>_. False) (New 10 3)
     [CSubmit 5 ((sample_job ''a'')\<lparr> job_NotBefore := Some 100 \<rparr>), CSubmit 6 (sample_job ''b'')] sample_queue"
  by (simp add: mem_run_exec sample_queue_def)

theorem queue_invariant_holds_on_every_run_witness: "mem_wf sample_queue"
  by (rule queue_invariant_holds_on_every_run [OF sample_queue_run])

lemma sample_queue_wf: "mem_wf sample_queue"
  by (rule mem_run_wf [OF sample_queue_run mem_wf_New])

lemmas sample_simps =
  sample_job_def New_def Submit_def ValidateChunk_def ValidateJobMetadata_def
  ValidateJobID_def id_ascii_ok_def RuneSelf_def insertLocked_def put_job_def
  indexChildLocked_def appendOrderLocked_def Let_def JobSchemaV1_def

lemma sample_queue_eq:
  "r_jobs sample_queue = [''a'' \<mapsto> (sample_job ''a'')\<lparr> job_NotBefore := Some 100, job_CreatedAt := 5, job_QueuedAt := 5 \<rparr>,
      ''b'' \<mapsto> (sample_job ''b'')\<lparr> job_CreatedAt := 6, job_QueuedAt := 6 \<rparr>]"
  "r_order sample_queue = [(0, ''a''), (1, ''b'')]"
  "r_orderIdx sample_queue = [''a'' \<mapsto> 0, ''b'' \<mapsto> 1]"
  "r_children sample_queue = Map.empty" "r_artifacts sample_queue = Map.empty"
  "r_lease sample_queue = 10" "r_maxAttempts sample_queue = 3"
  by (simp_all add: sample_queue_def sample_simps)

text \<open>
  No claimable job is lost or starved by bookkeeping: a claim with a claimable filter comes
  back empty exactly when no stored job passes the claim guard (right state, due, no children),
  however stale the snapshot taken in the first phase is.
\<close>

theorem claim_empty_iff_nothing_claimable:
  assumes "mem_run U (New lease maxAttempts) cs s"
    and "st \<in> {None, Some StatePending, Some StateRendered}"
  shows "fst (ClaimState now snapshot w st s) = None \<longleftrightarrow> (\<forall>i. \<not> claim_guard st now s i)"
  by (rule ClaimState_None_iff [OF mem_run_wf [OF assms(1) mem_wf_New] assms(2)])

theorem claim_empty_iff_nothing_claimable_witness:
  "fst (ClaimState 50 [''zz'', ''a''] ''w'' None sample_queue) \<noteq> None
   \<and> fst (ClaimState 50 [] ''w'' (Some StateRendered) sample_queue) = None"
  using claim_empty_iff_nothing_claimable [OF sample_queue_run, of None 50 "[''zz'', ''a'']" "''w''"]
    claim_empty_iff_nothing_claimable [OF sample_queue_run, of "Some StateRendered" 50 "[]" "''w''"]
  by (auto simp: claim_guard_def sample_queue_eq sample_job_def hasChildrenLocked_def child_set_def
      split: option.splits intro: exI [of _ "''b''"])

text \<open>
  C5. Claims are first-in-first-out over the live queue: with the snapshot of the current queue,
  the claim returns the first job of the FIFO that passes the guard, marked as running for the
  worker, with its lease, one more attempt and its stored artifact; and it returns nothing when
  no job in the FIFO passes.
\<close>

theorem claim_is_fifo:
  assumes "mem_wf s" and "st \<in> {None, Some StatePending, Some StateRendered}"
  shows "fst (ClaimState now (claim_snapshot s) w st s) =
    (case first_such (claim_guard st now s) (map snd (r_order s)) of
       None \<Rightarrow> None
     | Some i \<Rightarrow> Some ((the (r_jobs s i))\<lparr> job_State := StateRunning, job_Worker := w,
           job_Attempts := job_Attempts (the (r_jobs s i)) + 1, job_StartedAt := now,
           job_LeaseUntil := now + r_lease s, job_Artifact := r_artifacts s i \<rparr>, r_lease s))"
proof -
  have "filter (\<lambda>i. i \<notin> set (claim_snapshot s)) (map snd (r_order s)) = []"
    by (simp add: claim_snapshot_def filter_empty_conv)
  then show ?thesis
    by (simp add: ClaimState_first [OF assms] claim_snapshot_def claimed_row_def artifactCopyLocked_def
        split: option.splits)
qed

theorem claim_is_fifo_witness:
  "map_option (job_ID \<circ> fst) (fst (ClaimState 50 (claim_snapshot sample_queue) ''w'' None sample_queue)) = Some ''b''
   \<and> map_option (job_ID \<circ> fst) (fst (ClaimState 100 (claim_snapshot sample_queue) ''w'' None sample_queue)) = Some ''a''"
  using claim_is_fifo [OF sample_queue_wf, of None 50 "''w''"] claim_is_fifo [OF sample_queue_wf, of None 100 "''w''"]
  by (simp add: claim_guard_def sample_queue_eq sample_job_def hasChildrenLocked_def child_set_def)

text \<open>
  C4. Mutual exclusion: of two claims, the second made in the state the first left behind, by any
  workers, with any filters and with snapshots that may both predate the first claim, the second
  never hands out the job the first one did, unless it asks by name for running jobs (a filter
  the repository and the HTTP route accept).
\<close>

theorem claims_are_exclusive:
  assumes "ClaimState now cs w st s = (Some (job, l), s')" and "mem_wf s"
    and "ClaimState now' cs' w' st' s' = (Some (job', l'), s'')"
  shows "job_ID job' \<noteq> job_ID job \<or> st' = Some StateRunning"
proof -
  from assms(1) obtain i row where c1: "r_jobs s i = Some row" "job = claimed_row w now s i row"
    "s' = put_job i (claimed_row w now s i row) (removeOrderLocked i s)"
    by (cases rule: ClaimState_effect) auto
  from assms(3) obtain k row' where c2: "claim_guard st' now' s' k" "r_jobs s' k = Some row'"
    "job' = claimed_row w' now' s' k row'"
    by (cases rule: ClaimState_effect) auto
  have "job_State row' = StateRunning" if "k = i"
  proof -
    have "row' = claimed_row w now s i row" using c1 c2(2) that by simp
    then show ?thesis by (simp add: claimed_row_def)
  qed
  moreover have "case st' of Some x \<Rightarrow> job_State row' = x | None \<Rightarrow> IsClaimable (job_State row')"
    using c2 by (auto elim!: claim_guardD)
  ultimately have "k \<noteq> i \<or> st' = Some StateRunning"
    by (auto simp: IsClaimable_def ClaimableStates_def split: option.splits)
  then show ?thesis using c1 c2 mem_wf_rowD [OF assms(2)] by (auto simp: claimed_row_def)
qed

theorem claims_are_exclusive_witness:
  "job_ID (fst (the (fst (ClaimState 200 [''a'', ''b''] ''v'' None
      (snd (ClaimState 200 [''a'', ''b''] ''w'' None sample_queue))))))
   \<noteq> job_ID (fst (the (fst (ClaimState 200 [''a'', ''b''] ''w'' None sample_queue))))"
proof -
  let ?r = "ClaimState 200 [''a'', ''b''] ''w'' None sample_queue"
  let ?q = "ClaimState 200 [''a'', ''b''] ''v'' None (snd ?r)"
  have "fst ?r \<noteq> None \<and> fst ?q \<noteq> None"
    by (simp add: ClaimState_def claimCandidateLocked_def claim_guard_def sample_queue_eq sample_job_def
        hasChildrenLocked_def child_set_def removeOrderLocked_def claimed_row_def artifactCopyLocked_def
        put_job_def Let_def)
  then obtain a b c d where "?r = (Some (a, b), snd ?r)" "?q = (Some (c, d), snd ?q)"
    by (metis option.exhaust prod.exhaust prod.collapse)
  then show ?thesis
    using claims_are_exclusive [OF _ sample_queue_wf, of 200 "[''a'', ''b'']" "''w''" None a b "snd ?r"
        200 "[''a'', ''b'']" "''v''" None c d "snd ?q"]
    by (metis fst_conv option.distinct(1) option.sel)
qed

end
