(* ===== verification/Queue_Guarantees.thy ===== *)
theory Queue_Guarantees
  imports Queue_Lifecycle
begin

text \<open>
  What the in-memory queue guarantees to producers and workers: the fencing of transitions by
  the owning worker, terminal states, the retry budget, attempt counts, idempotent and batch
  submission, the lease sweep, assembly anchors; and the two places where the code does not keep
  its own rule (a claim with a non-claimable filter, and a finalized anchor left in the FIFO).
\<close>

section \<open>Fencing\<close>

definition holds :: "string \<Rightarrow> string \<Rightarrow> Repository \<Rightarrow> bool" where
  "holds i w s \<longleftrightarrow> (\<exists>job. r_jobs s i = Some job \<and> job_State job \<in> {StateRunning, StateFinalizing} \<and> job_Worker job = w)"

lemma with_running_fence:
  "fst (with_running i w f s) = Inr () \<longleftrightarrow> holds i w s"
  "\<not> holds i w s \<Longrightarrow> snd (with_running i w f s) = s"
  by (auto simp: with_running_def holds_def runningJob_def split: sum.splits option.splits)

text \<open>The sample queue after worker \<open>w\<close> claimed job \<open>b\<close> (job \<open>a\<close> is deferred).\<close>

definition sample_claimed :: Repository where
  "sample_claimed = snd (ClaimState 50 [] ''w'' None sample_queue)"

lemma sample_claimed_wf: "mem_wf sample_claimed"
  unfolding sample_claimed_def by (rule ClaimState_wf [OF sample_queue_wf])

lemma sample_claimed_eq:
  "r_jobs sample_claimed = [''a'' \<mapsto> (sample_job ''a'')\<lparr> job_NotBefore := Some 100, job_CreatedAt := 5, job_QueuedAt := 5 \<rparr>,
      ''b'' \<mapsto> (sample_job ''b'')\<lparr> job_CreatedAt := 6, job_QueuedAt := 6, job_State := StateRunning,
        job_Worker := ''w'', job_Attempts := 1, job_StartedAt := 50, job_LeaseUntil := 60 \<rparr>]"
  "r_order sample_claimed = [(0, ''a'')]" "r_orderIdx sample_claimed = [''a'' \<mapsto> 0]"
  "r_children sample_claimed = Map.empty" "r_artifacts sample_claimed = Map.empty"
  "r_lease sample_claimed = 10" "r_maxAttempts sample_claimed = 3"
  by (auto simp: sample_claimed_def ClaimState_def claimCandidateLocked_def claim_guard_def sample_queue_eq
      sample_job_def hasChildrenLocked_def child_set_def removeOrderLocked_def claimed_row_def put_job_def
      artifactCopyLocked_def Let_def fun_upd_twist)

text \<open>
  C6. A worker that no longer holds a job cannot affect it: each of the six transitions a worker
  reports succeeds exactly when the job is running or finalizing under that worker, and when it
  is refused the whole queue is unchanged.
\<close>

theorem transitions_are_fenced:
  "\<forall>op \<in> {\<lambda>s. Complete clk i w artifact s, \<lambda>s. Rendered clk i w artifact reason s, \<lambda>s. Fail clk i w reason s,
           \<lambda>s. FailPermanently i w reason s, \<lambda>s. Renew clk i w s, \<lambda>s. SetProgress clk i w p s}.
     (fst (op s) = Inr () \<longleftrightarrow> holds i w s) \<and> (\<not> holds i w s \<longrightarrow> snd (op s) = s)"
  by (simp add: Complete_def Rendered_def Fail_def FailPermanently_def Renew_def SetProgress_def
      with_running_fence)

theorem transitions_are_fenced_witness:
  "snd (Fail 60 ''b'' ''stale'' ''boom'' sample_claimed) = sample_claimed
   \<and> fst (Fail 60 ''b'' ''w'' ''boom'' sample_claimed) = Inr ()"
proof -
  have "holds ''b'' ''w'' sample_claimed" "\<not> holds ''b'' ''stale'' sample_claimed"
    by (auto simp: holds_def sample_claimed_eq)
  then show ?thesis
    using transitions_are_fenced [of 60 "''b''" "''stale''" undefined "''boom''" undefined sample_claimed]
      transitions_are_fenced [of 60 "''b''" "''w''" undefined "''boom''" undefined sample_claimed] by simp
qed

section \<open>Runs\<close>

lemma exec_terminal_stays:
  assumes "r_jobs s i = Some job" and "job_State job \<in> {StateCompleted, StateCancelled}"
    and "\<not> asks_for (job_State job) c"
  shows "r_jobs (exec U c s) i = Some job"
proof -
  from exec_row_any(2) [OF assms(1), of U c] assms(3) obtain job' where "r_jobs (exec U c s) i = Some job'"
    "row_rel (r_maxAttempts s) job job'" by (auto simp: row_rel_any_def)
  with assms(2) show ?thesis
    by (auto simp: row_rel_def lc_of_def IsCancelable_def IsTerminalState_def
        elim!: lc_step_completedE lc_step_cancelledE)
qed

lemma terminal_row_stays:
  assumes "mem_run U s cs s'" and "r_jobs s i = Some job" and "job_State job \<in> {StateCompleted, StateCancelled}"
    and "\<forall>c \<in> set cs. \<not> asks_for (job_State job) c"
  shows "r_jobs s' i = Some job"
  using assms(1,4)
  by (induction rule: mem_run.induct) (use assms(2,3) in \<open>auto simp: mem_step_iff exec_terminal_stays\<close>)

text \<open>A completed job's artifact is written only by the transition that completed it.\<close>

lemma exec_artifact:
  assumes "r_jobs s i = Some job" and "job_State job \<notin> {StateRunning, StateFinalizing}"
  shows "r_artifacts (exec U c s) i = r_artifacts s i"
proof -
  have wr: "r_artifacts (snd (with_running k w f s)) i = r_artifacts s i"
    if "\<And>row. r_jobs s k = Some row \<Longrightarrow> job_State row \<in> {StateRunning, StateFinalizing} \<Longrightarrow> r_artifacts (f row) i = r_artifacts s i"
    for k w f using that by (auto simp: with_running_def runningJob_Inr split: sum.splits)
  have cl: "r_artifacts (snd (ClaimState now cs w st s)) = r_artifacts s" for now cs w st
    by (rule ClaimState_effect [of now cs w st s "fst (ClaimState now cs w st s)" "snd (ClaimState now cs w st s)"])
      auto
  have rq: "r_artifacts (snd (foldl (requeue_one now clk) ns ord)) = r_artifacts (snd ns)" for now clk ns ord
    by (induction ord arbitrary: ns) (auto simp: requeue_one_def split: option.splits)
  show ?thesis
    using assms
    by (cases c) (auto simp: cl rq RequeueExpired_def Submit_def SubmitIdempotent_def SubmitBatch_def
        ClaimFinalization_def Retry_def Cancel_def Complete_def Rendered_def Fail_def FailPermanently_def
        Renew_def SetProgress_def Let_def split: sum.splits option.splits intro!: wr)
qed

lemma terminal_artifact_stays:
  assumes "mem_run U s cs s'" and "r_jobs s i = Some job" and "job_State job \<in> {StateCompleted, StateCancelled}"
    and "\<forall>c \<in> set cs. \<not> asks_for (job_State job) c"
  shows "r_artifacts s' i = r_artifacts s i"
  using assms(1,4)
proof (induction rule: mem_run.induct)
  case (run_step cs s1 c s2)
  then have "r_jobs s1 i = Some job" using terminal_row_stays [of U s cs s1 i job] assms(2,3) by simp
  with run_step show ?case using exec_artifact [of s1 i job U c] assms(3) by (auto simp: mem_step_iff)
qed simp

text \<open>
  C8. Completed and cancelled are final: along every run in which no claim asks by name for the
  terminal state the job is in (a filter the repository accepts, see
  \<open>claim_can_revive_cancelled_job\<close>), a completed or cancelled job keeps its row and its artifact,
  whatever else is called, so a producer that read the result once reads the same result forever.
\<close>

theorem terminal_results_are_immutable:
  assumes wf: "mem_wf s" and run: "mem_run U s cs s'"
    and "r_jobs s i = Some job" and "job_State job \<in> {StateCompleted, StateCancelled}"
    and "\<forall>c \<in> set cs. \<not> asks_for (job_State job) c"
  shows "Get i s' = Get i s"
  using terminal_row_stays [OF run assms(3-5)] terminal_artifact_stays [OF run assms(3-5)] assms(3)
    mem_wf_rowD [OF wf assms(3)]
  by (simp add: Get_def jobCopyWithArtifactLocked_def artifactCopyLocked_def)

theorem terminal_results_are_immutable_witness:
  "Get ''b'' (exec (\<lambda>_. True) (CClaim 90 [''b''] ''v'' None) (exec (\<lambda>_. True) (CCancel ''b'') (snd (Cancel ''b'' sample_claimed))))
     = Get ''b'' (snd (Cancel ''b'' sample_claimed))
   \<and> (\<exists>job. Get ''b'' (snd (Cancel ''b'' sample_claimed)) = Inr job \<and> job_State job = StateCancelled)"
proof -
  let ?s = "snd (Cancel ''b'' sample_claimed)"
  have row: "r_jobs ?s ''b'' = Some ((the (r_jobs sample_claimed ''b''))\<lparr> job_State := StateCancelled,
      job_Worker := [], job_LeaseUntil := 0, job_Progress := None \<rparr>)"
    by (simp add: Cancel_def sample_claimed_eq sample_job_def IsCancelable_def IsTerminalState_def)
  have "mem_run (\<lambda>_. True) ?s [CCancel ''b'', CClaim 90 [''b''] ''v'' None]
      (exec (\<lambda>_. True) (CClaim 90 [''b''] ''v'' None) (exec (\<lambda>_. True) (CCancel ''b'') ?s))"
    by (simp add: mem_run_exec)
  from terminal_results_are_immutable [OF Cancel_wf [OF sample_claimed_wf] this row]
  show ?thesis using row by (simp add: asks_for_def Get_def jobCopyWithArtifactLocked_def)
qed

section \<open>Attempts and the retry budget\<close>

definition handed_out :: "mem_call \<Rightarrow> Repository \<Rightarrow> string \<Rightarrow> bool" where
  "handed_out c s i =
     (case c of CClaim clk cs w st \<Rightarrow> map_option (\<lambda>r. job_ID (fst r)) (fst (ClaimState clk cs w st s)) = Some i
      | _ \<Rightarrow> False)"

fun handouts :: "(nat \<Rightarrow> bool) \<Rightarrow> string \<Rightarrow> Repository \<Rightarrow> mem_call list \<Rightarrow> nat" where
  "handouts U i s [] = 0"
| "handouts U i s (c # cs) = (if handed_out c s i then 1 else 0) + handouts U i (exec U c s) cs"

text \<open>A row survives a call with its attempts unchanged.\<close>

definition keeps :: "Repository \<Rightarrow> Repository \<Rightarrow> string \<Rightarrow> bool" where
  "keeps s s' i \<longleftrightarrow> (\<forall>job. r_jobs s i = Some job \<longrightarrow> (\<exists>job'. r_jobs s' i = Some job' \<and> job_Attempts job' = job_Attempts job))"

lemma keeps_with_running:
  "(\<And>job. r_jobs s k = Some job \<Longrightarrow> keeps s (f job) i) \<Longrightarrow> keeps s (snd (with_running k w f s)) i"
  by (auto simp: with_running_def runningJob_Inr keeps_def split: sum.splits)

lemma keeps_insert_family:
  "\<forall>job \<in> set jobs. job_ID job \<notin> dom (r_jobs s) \<Longrightarrow> keeps s (insert_family clk jobs s) i"
  by (cases "i \<in> job_ID ` set jobs") (auto simp: keeps_def insert_family_other)

lemma exec_keeps:
  assumes "\<forall>clk cs w st. c \<noteq> CClaim clk cs w st"
  shows "keeps s (exec U c s) i"
  using assms
  by (cases c) (auto simp: Submit_def SubmitIdempotent_def SubmitBatch_def first_such_None_iff
      ClaimFinalization_def Retry_def Cancel_def Complete_def Rendered_def Fail_def FailPermanently_def
      Renew_def SetProgress_def RequeueExpired_rows swept_row_def keeps_def Let_def
      split: sum.splits option.splits
      intro!: keeps_with_running [unfolded keeps_def, rule_format]
      keeps_insert_family [unfolded keeps_def, rule_format])

lemma exec_attempts:
  assumes wf: "mem_wf s" and row: "r_jobs s i = Some job"
  shows "\<exists>job'. r_jobs (exec U c s) i = Some job' \<and>
    job_Attempts job' = job_Attempts job + (if handed_out c s i then 1 else 0)"
proof (cases "\<exists>clk cs w st. c = CClaim clk cs w st")
  case True
  then obtain clk cs w st where c: "c = CClaim clk cs w st" by blast
  obtain res s' where eff: "ClaimState clk cs w st s = (res, s')" by fastforce
  then show ?thesis
  proof (cases rule: ClaimState_effect)
    case (Claimed k r)
    have "job_ID (claimed_row w clk s k r) = k" using mem_wf_rowD [OF wf Claimed(2)] by (simp add: claimed_row_def)
    then show ?thesis using Claimed row eff c by (auto simp: handed_out_def claimed_row_def)
  qed (use eff c row in \<open>simp add: handed_out_def\<close>)
next
  case False
  then have "\<not> handed_out c s i" by (auto simp: handed_out_def split: mem_call.splits)
  then show ?thesis using exec_keeps [of c s U i] False row by (auto simp: keeps_def)
qed

text \<open>
  The attempt counter counts hand-outs: along every run, whatever the filters, the attempts
  of a job grow by exactly the number of claims that returned it; no other call changes it.
\<close>

theorem attempts_count_claims:
  assumes "mem_wf s" and "r_jobs s i = Some job"
  shows "\<exists>job'. r_jobs (foldl (\<lambda>s c. exec U c s) s cs) i = Some job' \<and>
    job_Attempts job' = job_Attempts job + int (handouts U i s cs)"
  using assms
proof (induction cs arbitrary: s job)
  case (Cons c cs)
  obtain job1 where 1: "r_jobs (exec U c s) i = Some job1"
      "job_Attempts job1 = job_Attempts job + (if handed_out c s i then 1 else 0)"
    using exec_attempts [OF Cons.prems] by blast
  show ?case using Cons.IH [OF exec_wf [OF Cons.prems(1)] 1(1)] 1(2) by auto
qed simp

theorem attempts_count_claims_witness:
  "\<exists>job'. r_jobs (foldl (\<lambda>s c. exec (\<lambda>_. False) c s) sample_claimed
       [CFail 55 ''b'' ''w'' ''oom'', CClaim 56 [] ''v'' None]) ''b'' = Some job' \<and> job_Attempts job' = 2"
proof -
  have "handouts (\<lambda>_. False) ''b'' sample_claimed [CFail 55 ''b'' ''w'' ''oom'', CClaim 56 [] ''v'' None] = 1"
    by (simp add: handed_out_def Fail_def with_running_def runningJob_def sample_claimed_eq sample_job_def
        ShouldFailPermanently_def ClaimState_def claimCandidateLocked_def claim_guard_def
        hasChildrenLocked_def child_set_def Let_def claimed_row_def)
  moreover obtain row where "r_jobs sample_claimed ''b'' = Some row" "job_Attempts row = 1"
    by (simp add: sample_claimed_eq)
  ultimately show ?thesis
    using attempts_count_claims [OF sample_claimed_wf, of "''b''" row "\<lambda>_. False"
        "[CFail 55 ''b'' ''w'' ''oom'', CClaim 56 [] ''v'' None]"] by auto
qed

text \<open>A row that no worker holds is not touched by worker transitions or by the sweep.\<close>

lemma with_running_unheld:
  assumes "r_jobs s i = Some job" and "job_State job \<notin> {StateRunning, StateFinalizing}"
    and "\<And>r. k \<noteq> i \<Longrightarrow> r_jobs s k = Some r \<Longrightarrow> r_jobs (f r) i = r_jobs s i"
  shows "r_jobs (snd (with_running k w f s)) i = Some job"
  using assms by (cases "k = i") (auto simp: with_running_def runningJob_Inr split: sum.splits)

lemma transitions_unheld:
  assumes "r_jobs s i = Some job" and "job_State job \<notin> {StateRunning, StateFinalizing}"
  shows "r_jobs (snd (Complete clk k w a s)) i = Some job"
    and "r_jobs (snd (Rendered clk k w a reason s)) i = Some job"
    and "r_jobs (snd (Fail clk k w reason s)) i = Some job"
    and "r_jobs (snd (FailPermanently k w reason s)) i = Some job"
    and "r_jobs (snd (Renew clk k w s)) i = Some job"
    and "r_jobs (snd (SetProgress clk k w p s)) i = Some job"
    and "r_jobs (snd (RequeueExpired now clk' ord s)) i = Some job"
proof -
  show "r_jobs (snd (RequeueExpired now clk' ord s)) i = Some job"
    using assms by (simp add: RequeueExpired_rows swept_row_def lease_expired_def)
qed (unfold Complete_def Rendered_def Fail_def FailPermanently_def Renew_def SetProgress_def,
    (rule with_running_unheld [OF assms], simp)+)

lemma SubmitBatch_keeps_row:
  "r_jobs s i = Some job \<Longrightarrow> r_jobs (snd (SubmitBatch U clk jobs s)) i = Some job"
  by (cases "i \<in> job_ID ` set jobs")
    (auto simp: SubmitBatch_def first_such_None_iff insert_family_other split: sum.splits option.splits)

lemma submissions_keep_row:
  assumes "r_jobs s i = Some job"
  shows "r_jobs (snd (Submit U clk j s)) i = Some job"
    and "r_jobs (snd (SubmitIdempotent U clk j s)) i = Some job"
  using assms by (auto simp: Submit_def SubmitIdempotent_def split: sum.splits option.splits)

text \<open>A failed job becomes pending again by an operator retry only.\<close>

lemma failed_stays:
  assumes "\<forall>clk. c \<noteq> CRetry clk i"
    and row: "r_jobs s i = Some job" and failed: "job_State job = StateFailed"
  shows "\<exists>job'. r_jobs (exec U c s) i = Some job' \<and> (job' = job \<or> job_State job' = StateRunning)"
proof -
  have unheld: "job_State job \<notin> {StateRunning, StateFinalizing}" using failed by simp
  note ops = transitions_unheld [OF row unheld] SubmitBatch_keeps_row [OF row] submissions_keep_row [OF row]
  have fin: "r_jobs (snd (ClaimFinalization clk p w s)) i = Some job" for clk p w
    using row failed by (cases "p = i") (simp_all add: ClaimFinalization_def Let_def split: option.split)
  have can: "r_jobs (snd (Cancel k s)) i = Some job" for k
    using row failed
    by (cases "k = i") (simp_all add: Cancel_def IsCancelable_def IsTerminalState_iff split: option.split)
  have ret: "r_jobs (snd (Retry clk k s)) i = Some job" if "k \<noteq> i" for clk k
    using row that by (simp add: Retry_def split: option.split)
  have cl: "\<exists>job'. r_jobs (snd (ClaimState clk cs w st s)) i = Some job' \<and> (job' = job \<or> job_State job' = StateRunning)"
    for clk cs w st
  proof (cases "ClaimState clk cs w st s" rule: prod.exhaust)
    case (Pair res s')
    from this show ?thesis
      by (cases rule: ClaimState_effect) (use row Pair in \<open>auto simp: claimed_row_def\<close>)
  qed
  show ?thesis using assms(1) row by (cases c) (simp_all add: ops fin can ret cl)
qed

definition within_budget :: "Repository \<Rightarrow> bool" where
  "within_budget s \<longleftrightarrow> (\<forall>i job. r_jobs s i = Some job \<longrightarrow> job_State job = StatePending \<longrightarrow>
     \<not> ShouldFailPermanently (job_Attempts job) (r_maxAttempts s))"

lemma exec_budget:
  assumes "within_budget s" and "\<forall>clk i. c \<noteq> CRetry clk i"
    and "\<forall>job \<in> set (submitted c). \<not> ShouldFailPermanently (job_Attempts job) (r_maxAttempts s)"
  shows "within_budget (exec U c s)"
  unfolding within_budget_def
proof (intro allI impI)
  fix i job' assume row': "r_jobs (exec U c s) i = Some job'" and pend: "job_State job' = StatePending"
  note max = exec_row_any(1) [of U c s]
  show "\<not> ShouldFailPermanently (job_Attempts job') (r_maxAttempts (exec U c s))"
  proof (cases "r_jobs s i")
    case None
    then show ?thesis using exec_new_row [OF None row'] assms(3) max by auto
  next
    case (Some job)
    have r: "row_rel (r_maxAttempts s) job job'"
      using exec_row_any(2) [OF Some, of U c] row' pend by (auto simp: row_rel_any_def lc_of_def)
    have "job_State job \<noteq> StateFailed"
      using failed_stays [of c, OF _ Some, of U] assms(2) row' pend by auto
    with r pend assms(1) Some show ?thesis
      by (auto simp: row_rel_def lc_of_def max within_budget_def elim!: lc_step_toPendingE)
  qed
qed

text \<open>
  C9. The retry budget bounds automatic requeueing: start from the empty queue with a positive
  budget, let every submitted job start with fewer attempts than the budget, and let no operator
  retry a job; then whatever calls are made, with whatever claim filters, a job that is pending has
  fewer attempts than the budget. So nothing but an operator puts a job back into the queue whose
  budget is used up. The theorem is about pending jobs: a rendered job is claimed without a look at
  the budget, and so is a job of any state that a claim asks for by name.
\<close>

theorem retry_budget_is_respected:
  assumes "mem_run U (New lease maxAttempts) cs s" and "0 < maxAttempts"
    and "\<forall>c \<in> set cs. \<forall>clk i. c \<noteq> CRetry clk i"
    and "\<forall>c \<in> set cs. \<forall>job \<in> set (submitted c). job_Attempts job < maxAttempts"
    and "r_jobs s i = Some job" and "job_State job = StatePending"
  shows "job_Attempts job < maxAttempts"
proof -
  have "r_maxAttempts s = maxAttempts \<and> within_budget s"
    using assms(1,3,4)
  proof (induction rule: mem_run.induct)
    case run_refl
    show ?case by (simp add: New_def within_budget_def)
  next
    case (run_step cs s1 c s2)
    then have IH: "r_maxAttempts s1 = maxAttempts" "within_budget s1" and s2: "s2 = exec U c s1"
      by (auto simp: mem_step_iff)
    have "within_budget s2" unfolding s2
      using run_step.prems IH by (intro exec_budget) (auto simp: ShouldFailPermanently_def)
    then show ?case using exec_row_any(1) [of U c s1] IH s2 by simp
  qed
  then show ?thesis using assms(2,5,6) by (fastforce simp: within_budget_def ShouldFailPermanently_def not_le)
qed

theorem retry_budget_is_respected_witness:
  "job_Attempts (the (r_jobs sample_queue ''b'')) < 3"
  using retry_budget_is_respected [OF sample_queue_run, of "''b''" "the (r_jobs sample_queue ''b'')"]
  by (simp add: sample_queue_eq sample_job_def)

section \<open>Submission\<close>

lemma idem_frames:
  "r_idem (snd (with_running k w f s)) = r_idem s" if "\<And>job. r_idem (f job) = r_idem s"
  using that by (simp add: with_running_def split: sum.splits)

lemma idem_frames_ops:
  "r_idem (snd (Complete clk k w a s)) = r_idem s"
  "r_idem (snd (Rendered clk k w a reason s)) = r_idem s"
  "r_idem (snd (Fail clk k w reason s)) = r_idem s"
  "r_idem (snd (FailPermanently k w reason s)) = r_idem s"
  "r_idem (snd (Renew clk k w s)) = r_idem s"
  "r_idem (snd (SetProgress clk k w p s)) = r_idem s"
  by (unfold Complete_def Rendered_def Fail_def FailPermanently_def Renew_def SetProgress_def,
      (rule idem_frames, simp)+)

lemma idem_frames_more:
  "r_idem (snd (Retry clk k s)) = r_idem s"
  "r_idem (snd (Cancel k s)) = r_idem s"
  "r_idem (snd (ClaimFinalization clk k w s)) = r_idem s"
  "r_idem (insertLocked job clk s) = r_idem s"
  by (simp_all add: Retry_def Cancel_def ClaimFinalization_def insertLocked_def Let_def split: option.splits)

lemma RequeueExpired_idem: "r_idem (snd (RequeueExpired now clk ord s)) = r_idem s"
proof -
  have "r_idem (snd (foldl (requeue_one now clk) ns ord)) = r_idem (snd ns)" for ns
    by (induction ord arbitrary: ns) (auto simp: requeue_one_def split: option.splits)
  then show ?thesis by (simp add: RequeueExpired_def)
qed

lemma ClaimState_idem: "r_idem (snd (ClaimState now cs w st s)) = r_idem s"
  by (rule ClaimState_effect [of now cs w st s "fst (ClaimState now cs w st s)" "snd (ClaimState now cs w st s)"])
    auto

lemma insert_family_idem:
  "\<forall>job \<in> set jobs. job_IdempotencyKey job \<noteq> k \<Longrightarrow> r_idem (insert_family now jobs s) k = r_idem s k"
  by (induction jobs arbitrary: s) (auto simp: set_idem_def idem_frames_more)

text \<open>A call that does not submit a batch under the key keeps the key's owner.\<close>

definition spares_key :: "string \<Rightarrow> mem_call \<Rightarrow> bool" where
  "spares_key k c = (case c of CSubmitBatch _ jobs \<Rightarrow> k \<notin> job_IdempotencyKey ` set jobs | _ \<Rightarrow> True)"

lemma exec_idem:
  assumes "mem_wf s" and "r_idem s k = Some i" and "spares_key k c"
  shows "r_idem (exec U c s) k = Some i"
proof -
  obtain row where "r_jobs s i = Some row" using assms(1,2) by (auto simp: mem_wf_def wf_idem_def)
  then have sub: "r_idem (snd (SubmitIdempotent U clk job s)) k = Some i" for clk job
    using assms(2)
    by (auto simp: SubmitIdempotent_def idem_hit_def set_idem_def idem_frames_more
        split: sum.splits option.splits)
  have bat: "r_idem (snd (SubmitBatch U clk jobs s)) k = Some i"
    if "k \<notin> job_IdempotencyKey ` set jobs" for clk jobs
    using assms(2) insert_family_idem [of jobs k clk s] that
    by (auto simp: SubmitBatch_def split: sum.splits option.splits)
  show ?thesis
    using assms(2,3)
    by (cases c) (auto simp: spares_key_def sub bat idem_frames_ops idem_frames_more RequeueExpired_idem ClaimState_idem
        Submit_def split: sum.splits)
qed

lemma mem_run_idem:
  assumes "mem_run U s cs s'" and "\<forall>c \<in> set cs. spares_key k c" and "mem_wf s" and "r_idem s k = Some i"
  shows "r_idem s' k = Some i"
  using assms(1,2)
proof (induction rule: mem_run.induct)
  case (run_step cs s1 c s2)
  then show ?case using mem_run_wf [OF run_step.hyps(1) assms(3)] by (auto simp: mem_step_iff intro: exec_idem)
qed (rule assms(4))

text \<open>
  Idempotent submission: once a submission created a job under an idempotency key, then after
  any run that does not submit a batch under the same key a further submission with that key
  creates nothing: it changes no state and returns the current row of the first job.
\<close>

theorem submit_is_idempotent:
  assumes "mem_wf s" and "SubmitIdempotent U clk job s = (Inr (created, True), s1)"
    and "job_IdempotencyKey job \<noteq> []" and "mem_run U s1 cs s'"
    and "\<forall>c \<in> set cs. spares_key (job_IdempotencyKey job) c"
    and "job_IdempotencyKey replay = job_IdempotencyKey job" and "job_ID replay \<noteq> []"
  shows "\<exists>row. r_jobs s' (job_ID job) = Some row \<and> SubmitIdempotent U clk' replay s' = (Inr (row, False), s')"
proof -
  have s1: "r_idem s1 (job_IdempotencyKey job) = Some (job_ID job)"
    using assms(2,3) by (auto simp: SubmitIdempotent_def set_idem_def split: if_splits option.splits sum.splits)
  have wf1: "mem_wf s1" using SubmitIdempotent_wf [OF assms(1), of U clk job] assms(2) by simp
  have idem: "r_idem s' (job_IdempotencyKey job) = Some (job_ID job)"
    by (rule mem_run_idem [OF assms(4,5) wf1 s1])
  obtain row where row: "r_jobs s' (job_ID job) = Some row"
    using mem_run_wf [OF assms(4) wf1] idem by (auto simp: mem_wf_def wf_idem_def)
  then show ?thesis using assms(3,6,7) idem by (simp add: SubmitIdempotent_def idem_hit_def)
qed

theorem submit_is_idempotent_witness:
  "\<exists>row. SubmitIdempotent (\<lambda>_. False) 9 ((sample_job ''q'')\<lparr> job_IdempotencyKey := ''k'' \<rparr>)
       (snd (Cancel ''p'' (snd (SubmitIdempotent (\<lambda>_. False) 7 ((sample_job ''p'')\<lparr> job_IdempotencyKey := ''k'' \<rparr>) (New 10 3)))))
     = (Inr (row, False), snd (Cancel ''p'' (snd (SubmitIdempotent (\<lambda>_. False) 7 ((sample_job ''p'')\<lparr> job_IdempotencyKey := ''k'' \<rparr>) (New 10 3)))))"
proof -
  let ?p = "(sample_job ''p'')\<lparr> job_IdempotencyKey := ''k'' \<rparr>" and ?q = "(sample_job ''q'')\<lparr> job_IdempotencyKey := ''k'' \<rparr>"
  let ?r = "SubmitIdempotent (\<lambda>_. False) 7 ?p (New 10 3)"
  have c: "?r = (Inr (fst (projr (fst ?r)), True), snd ?r)"
    by (simp add: SubmitIdempotent_def idem_hit_def sample_simps)
  have "mem_run (\<lambda>_. False) (snd ?r) [CCancel ''p''] (snd (Cancel ''p'' (snd ?r)))" by (simp add: mem_run_exec)
  from submit_is_idempotent [OF mem_wf_New c _ this, of ?q 9]
  show ?thesis by (auto simp: spares_key_def sample_job_def)
qed

text \<open>
  A batch is all or nothing: a refused batch leaves the queue unchanged; an accepted one
  stores every job of the family as pending with one timestamp, appends them to the FIFO in the
  given order and touches no other row.
\<close>

theorem batch_is_all_or_nothing:
  "case SubmitBatch U clk jobs s of
     (Inl e, s') \<Rightarrow> s' = s
   | (Inr _, s') \<Rightarrow>
       claim_snapshot s' = claim_snapshot s @ map job_ID jobs \<and>
       r_jobs s' = (\<lambda>i. case first_such (\<lambda>job. job_ID job = i) jobs of
          Some job \<Rightarrow> Some (job\<lparr> job_State := StatePending, job_CreatedAt := clk, job_QueuedAt := clk \<rparr>)
        | None \<Rightarrow> r_jobs s i)"
proof -
  have snap: "claim_snapshot (insert_family clk js t) = claim_snapshot t @ map job_ID js" for js t
    by (induction js arbitrary: t) (simp_all add: claim_snapshot_def insertLocked_def set_idem_def Let_def)
  have rows: "r_jobs (insert_family clk js t) i =
      (case first_such (\<lambda>job. job_ID job = i) js of
          Some job \<Rightarrow> Some (job\<lparr> job_State := StatePending, job_CreatedAt := clk, job_QueuedAt := clk \<rparr>)
        | None \<Rightarrow> r_jobs t i)" if "distinct (map job_ID js)" for js t i
    using that
  proof (induction js arbitrary: t)
    case (Cons a js)
    have "first_such (\<lambda>job. job_ID job = job_ID a) js = None"
      using Cons.prems by (metis (mono_tags, lifting) distinct.simps(2) first_such_None_iff imageI list.simps(9) list.set_map)
    then show ?case using Cons by (auto simp: insert_family_other image_iff split: option.split)
  qed simp
  show ?thesis
    by (auto simp: SubmitBatch_def snap rows ValidateJobBatch_Inr fun_eq_iff split: sum.splits option.splits)
qed

section \<open>The lease sweep\<close>

text \<open>
  C13. The sweep requeues exactly the jobs whose lease has elapsed, fails those that exhausted
  their attempts, touches nothing else and counts them; rows and count do not depend on the
  order in which the runtime ranges over the job map.
\<close>

theorem sweep_is_exact:
  assumes ord: "iteration_order ord (r_jobs s)"
  shows "r_jobs (snd (RequeueExpired now clk ord s)) =
      (\<lambda>i. case r_jobs s i of
         None \<Rightarrow> None
       | Some job \<Rightarrow>
           Some (if \<not> lease_expired now job then job
                 else if ShouldFailPermanently (job_Attempts job) (r_maxAttempts s) then
                   job\<lparr> job_State := StateFailed, job_FailReason := ''lease expired, max attempts reached'' \<rparr>
                 else job\<lparr> job_State := StatePending, job_Worker := [], job_QueuedAt := clk i \<rparr>))
    \<and> fst (RequeueExpired now clk ord s) = card {i. \<exists>job. r_jobs s i = Some job \<and> lease_expired now job}"
proof
  let ?due = "\<lambda>i. case r_jobs s i of None \<Rightarrow> False | Some job \<Rightarrow> lease_expired now job"
  have in_ord: "i \<notin> set ord \<Longrightarrow> r_jobs s i = None" for i using ord by (auto simp: iteration_order_def)
  show "r_jobs (snd (RequeueExpired now clk ord s)) =
      (\<lambda>i. case r_jobs s i of
         None \<Rightarrow> None
       | Some job \<Rightarrow>
           Some (if \<not> lease_expired now job then job
                 else if ShouldFailPermanently (job_Attempts job) (r_maxAttempts s) then
                   job\<lparr> job_State := StateFailed, job_FailReason := ''lease expired, max attempts reached'' \<rparr>
                 else job\<lparr> job_State := StatePending, job_Worker := [], job_QueuedAt := clk i \<rparr>))"
    by (auto simp: fun_eq_iff RequeueExpired_rows swept_row_def in_ord split: option.split)
  have "fst (RequeueExpired now clk ord s) = length (filter ?due ord)"
    using ord by (simp add: RequeueExpired_def requeue_fold_count iteration_order_def)
  also have "\<dots> = card (set (filter ?due ord))"
    by (rule distinct_card [symmetric]) (use ord in \<open>simp add: iteration_order_def\<close>)
  also have "set (filter ?due ord) = {i. \<exists>job. r_jobs s i = Some job \<and> lease_expired now job}"
    using ord by (auto simp: iteration_order_def split: option.splits)
  finally show "fst (RequeueExpired now clk ord s) = card {i. \<exists>job. r_jobs s i = Some job \<and> lease_expired now job}" .
qed

theorem sweep_is_exact_witness:
  "map_option job_State (r_jobs (snd (RequeueExpired 61 (\<lambda>_. 62) [''b'', ''a''] sample_claimed)) ''b'') = Some StatePending
   \<and> map_option job_State (r_jobs (snd (RequeueExpired 60 (\<lambda>_. 62) [''b'', ''a''] sample_claimed)) ''b'') = Some StateRunning"
proof -
  have "iteration_order [''b'', ''a''] (r_jobs sample_claimed)"
    by (simp add: iteration_order_def sample_claimed_eq)
  from sweep_is_exact [OF this, of 61 "\<lambda>_. 62"] sweep_is_exact [OF this, of 60 "\<lambda>_. 62"]
  show ?thesis
    by (simp add: sample_claimed_eq sample_job_def lease_expired_def ShouldFailPermanently_def)
qed

section \<open>Assembly anchors\<close>

lemma mem_run_identity:
  assumes "mem_run U s cs s'" and "\<forall>c \<in> set cs. claimable_filter c" and "r_jobs s i = Some job"
  shows "\<exists>job'. r_jobs s' i = Some job' \<and> same_identity job job'"
  using assms(1,2)
proof (induction rule: mem_run.induct)
  case (run_step cs s1 c s2)
  then obtain job1 where 1: "r_jobs s1 i = Some job1" "same_identity job job1" by auto
  have "rows_rel s1 s2" using run_step by (auto simp: mem_step_iff exec_rows)
  then obtain job2 where "r_jobs s2 i = Some job2" "same_identity job1 job2"
    using 1 by (auto simp: rows_rel_def row_rel_def)
  then show ?case using 1 by (simp add: same_identity_def)
qed (use assms(3) in simp)

text \<open>
  An assembly anchor is never rendered on top of its children: once a job of a family is
  stored, then at any later time no claim, by any worker, with any filter and any snapshot,
  returns the parent of the family.
\<close>

theorem anchors_are_never_claimed:
  assumes "mem_wf s" and "r_jobs s i = Some child" and "job_ParentJobID child = p" and "p \<noteq> []"
    and "mem_run U s cs s'" and "\<forall>c \<in> set cs. claimable_filter c"
    and "fst (ClaimState now snapshot w st s') = Some (job, l)"
  shows "job_ID job \<noteq> p"
proof -
  have wf': "mem_wf s'" by (rule mem_run_wf [OF assms(5,1)])
  obtain child' where "r_jobs s' i = Some child'" "job_ParentJobID child' = p"
    using mem_run_identity [OF assms(5,6,2)] assms(3) by (auto simp: same_identity_def)
  then have children: "child_set s' p \<noteq> {}" using wf' assms(4) by (auto simp: mem_wf_def wf_children_def)
  have "ClaimState now snapshot w st s' = (Some (job, l), snd (ClaimState now snapshot w st s'))"
    using assms(7) by (metis prod.collapse)
  then show ?thesis
  proof (cases rule: ClaimState_effect)
    case (Claimed k row)
    then have "job_ID job = k" using mem_wf_rowD [OF wf'] by (auto simp: claimed_row_def)
    then show ?thesis using Claimed(1) children by (auto elim!: claim_guardD)
  qed simp
qed

text \<open>The sample queue with a child of job \<open>b\<close>.\<close>

definition sample_family :: Repository where
  "sample_family = snd (Submit (\<lambda>_. False) 7 ((sample_job ''c'')\<lparr> job_ParentJobID := ''b'' \<rparr>) sample_queue)"

theorem anchors_are_never_claimed_witness:
  "\<exists>job l. fst (ClaimState 50 [''b''] ''w'' None sample_family) = Some (job, l) \<and> job_ID job \<noteq> ''b''"
proof -
  have wf: "mem_wf sample_family" unfolding sample_family_def by (rule Submit_wf [OF sample_queue_wf])
  have jobs: "r_jobs sample_family = (r_jobs sample_queue)(''c'' \<mapsto> ((sample_job ''c'')\<lparr> job_ParentJobID := ''b'', job_CreatedAt := 7, job_QueuedAt := 7 \<rparr>))"
    and ch: "r_children sample_family = [''b'' \<mapsto> {''c''}]" and ox: "r_order sample_family = [(0, ''a''), (1, ''b''), (r_nextEl sample_queue, ''c'')]"
    and oi: "r_orderIdx sample_family = (r_orderIdx sample_queue)(''c'' \<mapsto> r_nextEl sample_queue)"
    by (simp_all add: sample_family_def sample_queue_eq sample_simps)
  have "fst (ClaimState 50 [''b''] ''w'' None sample_family) \<noteq> None"
    by (simp add: ClaimState_def claimCandidateLocked_def claim_guard_def jobs ch ox oi sample_queue_eq sample_job_def
        hasChildrenLocked_def child_set_def Let_def)
  then obtain job l where jl: "fst (ClaimState 50 [''b''] ''w'' None sample_family) = Some (job, l)" by auto
  have "mem_run (\<lambda>_. False) sample_family [] sample_family" by (rule mem_run.run_refl)
  from anchors_are_never_claimed [OF wf _ _ _ this _ jl, of "''c''" "the (r_jobs sample_family ''c'')" "''b''"]
  show ?thesis using jl by (auto simp: jobs)
qed

section \<open>Where the code departs from its own rule\<close>

text \<open>
  The repository takes the requested state of a claim at face value: a claim that asks for
  cancelled jobs is granted. A job cancelled while queued stays linked in the FIFO, so a worker
  that requests that state is handed the cancelled job, which becomes running again, although
  cancelled is documented as terminal and never claimed again.
\<close>

theorem claim_can_revive_cancelled_job:
  "\<exists>s job l s'. mem_run (\<lambda>_. False) (New 10 3) [CSubmit 5 (sample_job ''b''), CCancel ''b''] s
     \<and> map_option job_State (r_jobs s ''b'') = Some StateCancelled
     \<and> ClaimState 50 (claim_snapshot s) ''w'' (Some StateCancelled) s = (Some (job, l), s')
     \<and> map_option job_State (r_jobs s' ''b'') = Some StateRunning"
proof -
  define s1 where "s1 = snd (Submit (\<lambda>_. False) 5 (sample_job ''b'') (New 10 3))"
  define s2 where "s2 = snd (Cancel ''b'' s1)"
  have run: "mem_run (\<lambda>_. False) (New 10 3) [CSubmit 5 (sample_job ''b''), CCancel ''b''] s2"
    by (simp add: mem_run_exec s1_def s2_def)
  have s1: "r_jobs s1 = [''b'' \<mapsto> (sample_job ''b'')\<lparr> job_CreatedAt := 5, job_QueuedAt := 5 \<rparr>]" "r_order s1 = [(0, ''b'')]"
    "r_orderIdx s1 = [''b'' \<mapsto> 0]" "r_children s1 = Map.empty"
    by (simp_all add: s1_def sample_simps)
  have s2: "map_option job_State (r_jobs s2 ''b'') = Some StateCancelled" "r_order s2 = [(0, ''b'')]"
    "r_orderIdx s2 = [''b'' \<mapsto> 0]" "r_children s2 = Map.empty" "map_option job_NotBefore (r_jobs s2 ''b'') = Some None"
    by (simp_all add: s2_def Cancel_def s1 sample_job_def IsCancelable_def IsTerminalState_def)
  have "claim_guard (Some StateCancelled) 50 s2 ''b''"
    using s2 by (auto simp: claim_guard_def hasChildrenLocked_def child_set_def split: option.splits)
  then have "ClaimState 50 (claim_snapshot s2) ''w'' (Some StateCancelled) s2 =
      (Some (claimed_row ''w'' 50 s2 ''b'' (the (r_jobs s2 ''b'')), r_lease s2),
       put_job ''b'' (claimed_row ''w'' 50 s2 ''b'' (the (r_jobs s2 ''b''))) (removeOrderLocked ''b'' s2))"
    by (simp add: ClaimState_def claim_snapshot_def s2 claimCandidateLocked_def Let_def)
  then show ?thesis using run s2 by (intro exI conjI) (auto simp: claimed_row_def)
qed

text \<open>
  A pending job claimed for finalization keeps its element in the FIFO, so when the
  finalization fails below the retry budget the job is linked a second time; the first element
  is unreachable from the index and stays for good. Every further round adds one more.
\<close>

theorem finalization_retry_leaks_fifo_elements:
  assumes "mem_wf s" and "r_jobs s p = Some job" and "job_State job = StatePending"
    and "\<not> ShouldFailPermanently (job_Attempts job) (r_maxAttempts s)" and "w \<noteq> []"
  shows "claim_snapshot (snd (Fail clk' p w reason (snd (ClaimFinalization clk p w s))))
      = claim_snapshot s @ [p] \<and> p \<in> set (claim_snapshot s)"
proof -
  have "p \<noteq> []" using assms(1,2) by (auto simp: mem_wf_def wf_rows_def)
  moreover have "p \<in> dom (r_orderIdx s)" using assms(1-3) by (auto simp: mem_wf_def no_lost_def)
  then have "p \<in> set (claim_snapshot s)"
    using assms(1) by (force simp: mem_wf_def wf_order_def claim_snapshot_def)
  ultimately show ?thesis using assms
    by (simp add: ClaimFinalization_def Fail_def with_running_def runningJob_def claim_snapshot_def Let_def)
qed

theorem finalization_retry_leaks_fifo_elements_witness:
  "claim_snapshot (snd (Fail 9 ''b'' ''w'' ''io'' (snd (ClaimFinalization 8 ''b'' ''w'' sample_queue))))
     = [''a'', ''b'', ''b'']"
  using finalization_retry_leaks_fifo_elements
    [OF sample_queue_wf, of "''b''" "the (r_jobs sample_queue ''b'')" "''w''" 9 "''io''" 8]
  by (simp add: sample_queue_eq sample_job_def ShouldFailPermanently_def claim_snapshot_def)

end
