(* ===== verification/Notifier.thy ===== *)
theory Notifier
  imports Prelude
begin

text \<open>
  The wake-up primitive of the queue service, \<open>queue/internal/service/notify.go\<close>. A channel is a
  number; parked channels wait in a FIFO, closing a channel wakes the goroutine that waits on it.
  The locale \<open>waiter_queue\<close> states what the long-poll loops rely on; the notifier implements it.
\<close>

section \<open>The contract of a FIFO of waiters\<close>

locale waiter_queue =
  fixes invar :: "'n \<Rightarrow> bool"
    and waiting :: "'n \<Rightarrow> nat list"
    and woken :: "'n \<Rightarrow> nat set"
    and park :: "'n \<Rightarrow> nat \<times> 'n"
    and wake_one :: "'n \<Rightarrow> 'n"
    and wake_all :: "'n \<Rightarrow> 'n"
    and leave :: "nat \<Rightarrow> 'n \<Rightarrow> 'n"
  assumes park_invar: "invar n \<Longrightarrow> invar (snd (park n))"
    and park_waiting: "invar n \<Longrightarrow> waiting (snd (park n)) = waiting n @ [fst (park n)]"
    and park_fresh: "invar n \<Longrightarrow> fst (park n) \<notin> set (waiting n) \<union> woken n"
    and park_woken: "invar n \<Longrightarrow> woken (snd (park n)) = woken n"
    and wake_one_invar: "invar n \<Longrightarrow> invar (wake_one n)"
    and wake_one_waiting: "invar n \<Longrightarrow> waiting (wake_one n) = tl (waiting n)"
    and wake_one_woken: "invar n \<Longrightarrow> woken (wake_one n) = woken n \<union> set (take 1 (waiting n))"
    and wake_all_invar: "invar n \<Longrightarrow> invar (wake_all n)"
    and wake_all_waiting: "invar n \<Longrightarrow> waiting (wake_all n) = []"
    and wake_all_woken: "invar n \<Longrightarrow> woken (wake_all n) = woken n \<union> set (waiting n)"
    and leave_invar: "invar n \<Longrightarrow> invar (leave c n)"
    and leave_waiting: "invar n \<Longrightarrow> waiting (leave c n) = filter (\<lambda>d. d \<noteq> c) (waiting n)"
    and leave_woken: "invar n \<Longrightarrow> woken (leave c n) = woken n"
    and disjoint: "invar n \<Longrightarrow> set (waiting n) \<inter> woken n = {}"
    and distinct_waiting: "invar n \<Longrightarrow> distinct (waiting n)"
begin

lemma wake_many:
  assumes "invar n"
  shows "waiting ((wake_one ^^ m) n) = drop m (waiting n)
    \<and> woken ((wake_one ^^ m) n) = woken n \<union> set (take m (waiting n)) \<and> invar ((wake_one ^^ m) n)"
proof (induction m)
  case (Suc m)
  let ?n = "(wake_one ^^ m) n"
  have "set (take (Suc m) (waiting n)) = set (take m (waiting n)) \<union> set (take 1 (drop m (waiting n)))"
    by (metis Suc_eq_plus1 set_append take_add)
  then show ?case
    using Suc wake_one_waiting [of ?n] wake_one_woken [of ?n] wake_one_invar [of ?n]
    by (simp add: drop_Suc tl_drop Un_assoc)
qed (simp add: assms)

lemma reached_in_turn:
  assumes "invar n" and "c = fst (park n)"
  shows "c \<in> woken ((wake_one ^^ m) (snd (park n))) \<longleftrightarrow> length (waiting n) < m"
proof -
  let ?n = "snd (park n)"
  have "c \<in> woken ((wake_one ^^ m) ?n) \<longleftrightarrow> c \<in> set (take m (waiting n @ [c]))"
    using wake_many [OF park_invar [OF assms(1)], of m] park_waiting [OF assms(1)] park_woken [OF assms(1)]
      park_fresh [OF assms(1)] assms(2) by auto
  also have "\<dots> \<longleftrightarrow> length (waiting n) < m"
    using park_fresh [OF assms(1)] assms(2)
    by (auto simp: take_Cons' dest: in_set_takeD)
  finally show ?thesis .
qed

lemma left_is_skipped:
  assumes "invar n" and "waiting n = c # d # rest"
  shows "d \<in> woken (wake_one (leave c n)) \<and> d \<notin> woken (wake_one n)"
proof -
  have "distinct (c # d # rest)" using distinct_waiting [OF assms(1)] assms(2) by simp
  then have "filter (\<lambda>x. x \<noteq> c) (waiting n) = d # rest"
    unfolding assms(2) by (auto simp: filter_id_conv)
  then show ?thesis
    using assms wake_one_woken [OF leave_invar [OF assms(1)], of c] wake_one_woken [OF assms(1)]
      leave_waiting [OF assms(1), of c] disjoint [OF assms(1)] distinct_waiting [OF assms(1)]
    by auto
qed

end

section \<open>The notifier\<close>

text \<open>\<open>nt_closed\<close> records the closed channels, \<open>nt_next\<close> the next channel \<open>make\<close> returns.\<close>

record Notifier =
  nt_queue :: "nat list"
  nt_present :: "nat set"
  nt_closed :: "nat set"
  nt_next :: nat

definition NewNotifier :: Notifier where
  "NewNotifier = \<lparr> nt_queue = [], nt_present = {}, nt_closed = {}, nt_next = 0 \<rparr>"

fun notify_loop :: "nat list \<Rightarrow> Notifier \<Rightarrow> Notifier" where
  "notify_loop [] n = n\<lparr> nt_queue := [] \<rparr>"
| "notify_loop (ch # q) n =
     (if ch \<notin> nt_present n then notify_loop q n
      else n\<lparr> nt_queue := q, nt_present := nt_present n - {ch}, nt_closed := insert ch (nt_closed n) \<rparr>)"

definition Notify :: "Notifier \<Rightarrow> Notifier" where
  "Notify n = notify_loop (nt_queue n) n"

definition close_step :: "Notifier \<Rightarrow> nat \<Rightarrow> Notifier" where
  "close_step n ch =
     (if ch \<notin> nt_present n then n
      else n\<lparr> nt_present := nt_present n - {ch}, nt_closed := insert ch (nt_closed n) \<rparr>)"

definition Broadcast :: "Notifier \<Rightarrow> Notifier" where
  "Broadcast n = (foldl close_step n (nt_queue n))\<lparr> nt_queue := [] \<rparr>"

definition Done :: "Notifier \<Rightarrow> nat \<times> Notifier" where
  "Done n =
     (let ch = nt_next n in
      (ch, n\<lparr> nt_queue := nt_queue n @ [ch], nt_present := insert ch (nt_present n), nt_next := Suc ch \<rparr>))"

definition Forget :: "nat \<Rightarrow> Notifier \<Rightarrow> Notifier" where
  "Forget ch n = n\<lparr> nt_queue := remove1 ch (nt_queue n), nt_present := nt_present n - {ch} \<rparr>"

definition notifier_wf :: "Notifier \<Rightarrow> bool" where
  "notifier_wf n \<longleftrightarrow> distinct (nt_queue n) \<and> set (nt_queue n) = nt_present n \<and>
     nt_present n \<inter> nt_closed n = {} \<and> (\<forall>ch \<in> nt_present n \<union> nt_closed n. ch < nt_next n)"

lemma NewNotifier_wf: "notifier_wf NewNotifier"
  by (simp add: notifier_wf_def NewNotifier_def)

lemma Notify_eq:
  "notifier_wf n \<Longrightarrow> Notify n = n\<lparr> nt_queue := tl (nt_queue n), nt_present := nt_present n - set (take 1 (nt_queue n)),
     nt_closed := nt_closed n \<union> set (take 1 (nt_queue n)) \<rparr>"
  by (cases "nt_queue n") (auto simp: Notify_def notifier_wf_def)

lemma close_fold:
  "distinct q \<Longrightarrow> set q \<subseteq> nt_present n \<Longrightarrow>
     foldl close_step n q = n\<lparr> nt_present := nt_present n - set q, nt_closed := nt_closed n \<union> set q \<rparr>"
proof (induction q arbitrary: n)
  case (Cons ch q)
  let ?n = "close_step n ch"
  have "?n = n\<lparr> nt_present := nt_present n - {ch}, nt_closed := insert ch (nt_closed n) \<rparr>"
    using Cons.prems by (simp add: close_step_def)
  moreover have "foldl close_step ?n q = ?n\<lparr> nt_present := nt_present ?n - set q, nt_closed := nt_closed ?n \<union> set q \<rparr>"
    using Cons.prems calculation by (intro Cons.IH) auto
  moreover have "nt_present n - {ch} - set q = nt_present n - set (ch # q)" by auto
  ultimately show ?case by simp
qed simp

lemma Broadcast_eq:
  "notifier_wf n \<Longrightarrow> Broadcast n = n\<lparr> nt_queue := [], nt_present := {}, nt_closed := nt_closed n \<union> set (nt_queue n) \<rparr>"
  by (simp add: Broadcast_def close_fold notifier_wf_def)

lemma Forget_queue: "notifier_wf n \<Longrightarrow> nt_queue (Forget c n) = filter (\<lambda>d. d \<noteq> c) (nt_queue n)"
  by (auto simp: Forget_def notifier_wf_def distinct_remove1_removeAll removeAll_filter_not_eq intro: filter_cong)

interpretation notifier: waiter_queue notifier_wf nt_queue nt_closed Done Notify Broadcast Forget
proof (unfold_locales, goal_cases)
  case (6 n)
  then show ?case by (simp add: Notify_eq)
next
  case (5 n)
  then show ?case by (cases "nt_queue n") (auto simp: Notify_eq notifier_wf_def)
next
  case (12 n c)
  then show ?case by (rule Forget_queue)
qed (auto simp: notifier_wf_def Done_def Forget_def Notify_eq Broadcast_eq Let_def less_Suc_eq)

section \<open>Properties\<close>

text \<open>
  Wakes are delivered one by one in parking order: \<open>m\<close> notifications close exactly the \<open>m\<close>
  longest-parked channels and leave the others parked in order; and a waiter that parks behind
  \<open>k\<close> others is woken by the notification number \<open>k + 1\<close> and by no earlier one.
\<close>

theorem notifications_wake_in_parking_order:
  assumes "notifier_wf n"
  shows "nt_closed ((Notify ^^ m) n) = nt_closed n \<union> set (take m (nt_queue n))
    \<and> nt_queue ((Notify ^^ m) n) = drop m (nt_queue n)
    \<and> (fst (Done n) \<in> nt_closed ((Notify ^^ m) (snd (Done n))) \<longleftrightarrow> length (nt_queue n) < m)"
  using notifier.wake_many [OF assms, of m] notifier.reached_in_turn [OF assms refl, of m] by blast

theorem notifications_wake_in_parking_order_witness:
  "fst (Done (snd (Done NewNotifier))) \<notin> nt_closed ((Notify ^^ 1) (snd (Done (snd (Done NewNotifier)))))
   \<and> fst (Done (snd (Done NewNotifier))) \<in> nt_closed ((Notify ^^ 2) (snd (Done (snd (Done NewNotifier)))))"
proof -
  have wf: "notifier_wf (snd (Done NewNotifier))" by (rule notifier.park_invar [OF NewNotifier_wf])
  have "length (nt_queue (snd (Done NewNotifier))) = 1" by (simp add: Done_def NewNotifier_def Let_def)
  then show ?thesis
    using notifications_wake_in_parking_order [OF wf, of 1] notifications_wake_in_parking_order [OF wf, of 2]
    by (simp del: funpow.simps)
qed

end
