(* ===== verification/Queue_Service.thy ===== *)
theory Queue_Service
  imports Queue_Guarantees Notifier "HOL-Library.Log_Nat"
begin

text \<open>
  The queue service over the in-memory repository, \<open>queue/internal/service\<close>: the completion gate
  for artifacts, the operations that pair a repository transition with a wake-up, the retry loop
  of the lease sweep with its backoff, and the two long-poll loops. Prometheus metrics are not
  modelled (they are written and never read by the service).
\<close>

record Service =
  sv_repo :: Repository
  sv_notify :: Notifier

section \<open>The artifact gate\<close>

datatype artifact_error = StorageKeyRequired | Sha256Required | SizeNotPositive | ContentTypeRequired

definition validateArtifact :: "Artifact \<Rightarrow> (artifact_error, unit) result" where
  "validateArtifact a =
     (if TrimSpace (art_StorageKey a) = [] then Inl StorageKeyRequired
      else if TrimSpace (art_ArtifactHash a) = [] then Inl Sha256Required
      else if art_SizeBytes a \<le> 0 then Inl SizeNotPositive
      else if TrimSpace (art_ContentType a) = [] then Inl ContentTypeRequired
      else Inr ())"

datatype service_error = RepoError repo_error | ArtifactError artifact_error | ServiceIDRequired
  | WorkerIDMissing | NegativeWait | ServiceBatchEmpty | ContextDone

section \<open>Operations\<close>

definition notify_svc :: "Service \<Rightarrow> Service" where
  "notify_svc sv = sv\<lparr> sv_notify := Notify (sv_notify sv) \<rparr>"

text \<open>Run a repository transition and, when it succeeded, wake one waiter.\<close>

definition transition_and_notify ::
  "(repo_error, unit) result \<times> Repository \<Rightarrow> Service \<Rightarrow> (service_error, unit) result \<times> Service" where
  "transition_and_notify rr sv =
     (case rr of
        (Inl e, r) \<Rightarrow> (Inl (RepoError e), sv\<lparr> sv_repo := r \<rparr>)
      | (Inr _, r) \<Rightarrow> (Inr (), notify_svc (sv\<lparr> sv_repo := r \<rparr>)))"

definition svc_SubmitBatch ::
  "(nat \<Rightarrow> bool) \<Rightarrow> gotime \<Rightarrow> Job list \<Rightarrow> Service \<Rightarrow> (service_error, unit) result \<times> Service" where
  "svc_SubmitBatch U clk jobs sv =
     (if length jobs = 0 then (Inl ServiceBatchEmpty, sv)
      else transition_and_notify (SubmitBatch U clk jobs (sv_repo sv)) sv)"

definition svc_SubmitIdempotent ::
  "(nat \<Rightarrow> bool) \<Rightarrow> gotime \<Rightarrow> Job \<Rightarrow> Service \<Rightarrow> (service_error, Job \<times> bool) result \<times> Service" where
  "svc_SubmitIdempotent U clk job sv =
     (if job_ID job = [] then (Inl ServiceIDRequired, sv)
      else case SubmitIdempotent U clk job (sv_repo sv) of
        (Inl e, r) \<Rightarrow> (Inl (RepoError e), sv\<lparr> sv_repo := r \<rparr>)
      | (Inr (canonical, created), r) \<Rightarrow>
          (Inr (canonical, created),
           if created then notify_svc (sv\<lparr> sv_repo := r \<rparr>) else sv\<lparr> sv_repo := r \<rparr>))"

definition svc_Submit ::
  "(nat \<Rightarrow> bool) \<Rightarrow> gotime \<Rightarrow> Job \<Rightarrow> Service \<Rightarrow> (service_error, unit) result \<times> Service" where
  "svc_Submit U clk job sv =
     (case svc_SubmitIdempotent U clk job sv of
        (Inl e, sv') \<Rightarrow> (Inl e, sv')
      | (Inr _, sv') \<Rightarrow> (Inr (), sv'))"

definition svc_ClaimFinalization ::
  "gotime \<Rightarrow> string \<Rightarrow> string \<Rightarrow> Service \<Rightarrow> (service_error, Job option) result \<times> Service" where
  "svc_ClaimFinalization clk parentID workerID sv =
     (case ClaimFinalization clk parentID workerID (sv_repo sv) of
        (Inl e, r) \<Rightarrow> (Inl (RepoError e), sv\<lparr> sv_repo := r \<rparr>)
      | (Inr None, r) \<Rightarrow> (Inr None, sv\<lparr> sv_repo := r \<rparr>)
      | (Inr (Some job), r) \<Rightarrow> (Inr (Some job), notify_svc (sv\<lparr> sv_repo := r \<rparr>)))"

text \<open>\<open>snapshot\<close> is the FIFO snapshot of the first phase of the repository's claim.\<close>

definition svc_ClaimState ::
  "gotime \<Rightarrow> string list \<Rightarrow> string \<Rightarrow> State option \<Rightarrow> Service \<Rightarrow>
     (service_error, (Job \<times> duration) option) result \<times> Service" where
  "svc_ClaimState clk snapshot workerID state sv =
     (if workerID = [] then (Inl WorkerIDMissing, sv)
      else (case ClaimState clk snapshot workerID state (sv_repo sv) of
              (res, r) \<Rightarrow> (Inr res, sv\<lparr> sv_repo := r \<rparr>)))"

definition svc_Complete ::
  "gotime \<Rightarrow> string \<Rightarrow> string \<Rightarrow> Artifact \<Rightarrow> Service \<Rightarrow> (service_error, unit) result \<times> Service" where
  "svc_Complete clk i workerID artifact sv =
     (case validateArtifact artifact of
        Inl e \<Rightarrow> (Inl (ArtifactError e), sv)
      | Inr _ \<Rightarrow>
          (case Complete clk i workerID artifact (sv_repo sv) of
             (Inl e, r) \<Rightarrow> (Inl (RepoError e), sv\<lparr> sv_repo := r \<rparr>)
           | (Inr _, r) \<Rightarrow> (Inr (), sv\<lparr> sv_repo := r \<rparr>)))"

definition svc_Rendered ::
  "gotime \<Rightarrow> string \<Rightarrow> string \<Rightarrow> Artifact \<Rightarrow> string \<Rightarrow> Service \<Rightarrow> (service_error, unit) result \<times> Service" where
  "svc_Rendered clk i workerID artifact reason sv =
     (case validateArtifact artifact of
        Inl e \<Rightarrow> (Inl (ArtifactError e), sv)
      | Inr _ \<Rightarrow> transition_and_notify (Rendered clk i workerID artifact reason (sv_repo sv)) sv)"

definition svc_Fail ::
  "gotime \<Rightarrow> string \<Rightarrow> string \<Rightarrow> string \<Rightarrow> Service \<Rightarrow> (service_error, unit) result \<times> Service" where
  "svc_Fail clk i workerID reason sv = transition_and_notify (Fail clk i workerID reason (sv_repo sv)) sv"

definition svc_FailPermanently ::
  "string \<Rightarrow> string \<Rightarrow> string \<Rightarrow> Service \<Rightarrow> (service_error, unit) result \<times> Service" where
  "svc_FailPermanently i workerID reason sv =
     transition_and_notify (FailPermanently i workerID reason (sv_repo sv)) sv"

definition svc_Renew ::
  "gotime \<Rightarrow> string \<Rightarrow> string \<Rightarrow> Service \<Rightarrow> (service_error, unit) result \<times> Service" where
  "svc_Renew clk i workerID sv =
     (case Renew clk i workerID (sv_repo sv) of
        (Inl e, r) \<Rightarrow> (Inl (RepoError e), sv\<lparr> sv_repo := r \<rparr>)
      | (Inr _, r) \<Rightarrow> (Inr (), sv\<lparr> sv_repo := r \<rparr>))"

definition svc_Retry :: "gotime \<Rightarrow> string \<Rightarrow> Service \<Rightarrow> (service_error, unit) result \<times> Service" where
  "svc_Retry clk i sv = transition_and_notify (Retry clk i (sv_repo sv)) sv"

definition svc_Cancel :: "string \<Rightarrow> Service \<Rightarrow> (service_error, unit) result \<times> Service" where
  "svc_Cancel i sv = transition_and_notify (Cancel i (sv_repo sv)) sv"

definition svc_SetProgress ::
  "gotime \<Rightarrow> string \<Rightarrow> string \<Rightarrow> Progress \<Rightarrow> Service \<Rightarrow> (service_error, unit) result \<times> Service" where
  "svc_SetProgress clk i workerID p sv =
     (case SetProgress clk i workerID p (sv_repo sv) of
        (Inl e, r) \<Rightarrow> (Inl (RepoError e), sv\<lparr> sv_repo := r \<rparr>)
      | (Inr _, r) \<Rightarrow> (Inr (), sv\<lparr> sv_repo := r \<rparr>))"

section \<open>The lease sweep\<close>

record RetryConfig =
  rc_MaxAttempts :: int
  rc_BaseDelay :: duration
  rc_MaxDelay :: duration
  rc_Jitter :: rat

definition defaultBaseDelay :: duration where "defaultBaseDelay = 100 * millisecond"

text \<open>Multiplication of a \<open>time.Duration\<close> wraps around at 64 bits.\<close>

definition wrap64 :: "int \<Rightarrow> int" where
  "wrap64 x = (x + 2 ^ 63) mod 2 ^ 64 - 2 ^ 63"

fun backoff_loop :: "duration \<Rightarrow> nat \<Rightarrow> duration \<Rightarrow> duration" where
  "backoff_loop maxDelay 0 delay = delay"
| "backoff_loop maxDelay (Suc n) delay =
     (let d = wrap64 (delay * 2) in
      if maxDelay > 0 \<and> d \<ge> maxDelay then maxDelay else backoff_loop maxDelay n d)"

text \<open>
  The arithmetic of \<open>float64\<close> on values that are not negative: the exact result is rounded to a
  multiple of the unit in its last place (53 significant bits, and no unit below \<open>2^-1074\<close>), a tie to
  the even multiple. Every product here is far below the largest \<open>float64\<close>.
\<close>

definition round_even :: "rat \<Rightarrow> int" where
  "round_even x =
     (let f = \<lfloor>x\<rfloor>; r = x - of_int f in if r < 1 / 2 \<or> (r = 1 / 2 \<and> even f) then f else f + 1)"

definition unit_exponent :: "rat \<Rightarrow> int" where
  "unit_exponent x =
     (if 1 \<le> x then bitlen \<lfloor>x\<rfloor> - 53 else max (- bitlen (\<lceil>1 / x\<rceil> - 1) - 52) (- 1074))"

definition round64 :: "rat \<Rightarrow> rat" where
  "round64 x =
     (if x = 0 then 0
      else (let e = unit_exponent x in
            if 0 \<le> e then of_int (round_even (x / 2 ^ nat e)) * 2 ^ nat e
            else of_int (round_even (x * 2 ^ nat (- e))) / 2 ^ nat (- e)))"

text \<open>
  \<open>rnd\<close> is the value of \<open>rand.Float64()\<close>, in the half-open unit interval. Each operation on floats
  rounds; the conversion back to a duration truncates.
\<close>

definition backoffDelay :: "RetryConfig \<Rightarrow> rat \<Rightarrow> nat \<Rightarrow> duration" where
  "backoffDelay cfg rnd failed =
     (let base = (if rc_BaseDelay cfg \<le> 0 then defaultBaseDelay else rc_BaseDelay cfg);
          delay = backoff_loop (rc_MaxDelay cfg) (failed - 1) base
      in if rc_Jitter cfg > 0 then
           (let jitter = min (rc_Jitter cfg) 1; factor = round64 (1 - round64 (jitter * rnd))
            in \<lfloor>round64 (round64 (of_int delay) * factor)\<rfloor>)
         else delay)"

text \<open>
  The retry loop. A repository may fail transiently, so the sweep is a parameter indexed by the
  attempt; \<open>cancelled\<close> tells whether the context ended during the wait after an attempt. The
  result pairs the outcome with the number of attempts made.
\<close>

function requeue_loop ::
  "(nat \<Rightarrow> 's \<Rightarrow> ('e, nat) result \<times> 's) \<Rightarrow> (nat \<Rightarrow> bool) \<Rightarrow> nat \<Rightarrow> nat \<Rightarrow> 's \<Rightarrow>
     ('e option, nat) result \<times> nat \<times> 's" where
  "requeue_loop sweep cancelled maxAttempts attempt s =
     (case sweep attempt s of
        (Inr n, s') \<Rightarrow> (Inr n, attempt, s')
      | (Inl e, s') \<Rightarrow>
          (if attempt \<ge> maxAttempts then (Inl (Some e), attempt, s')
           else if cancelled attempt then (Inl None, attempt, s')
           else requeue_loop sweep cancelled maxAttempts (Suc attempt) s'))"
  by pat_completeness auto
termination
  by (relation "measure (\<lambda>(sweep, cancelled, m, attempt, s). m - attempt)") auto

declare requeue_loop.simps [simp del]

definition wake_requeued :: "nat \<Rightarrow> Service \<Rightarrow> Service" where
  "wake_requeued n sv =
     (if n > 1 then sv\<lparr> sv_notify := Broadcast (sv_notify sv) \<rparr>
      else if n > 0 then notify_svc sv else sv)"

definition svc_RequeueExpired ::
  "RetryConfig \<Rightarrow> (nat \<Rightarrow> Repository \<Rightarrow> (repo_error, nat) result \<times> Repository) \<Rightarrow> (nat \<Rightarrow> bool) \<Rightarrow>
     Service \<Rightarrow> (service_error, nat) result \<times> Service" where
  "svc_RequeueExpired cfg sweep cancelled sv =
     (let maxAttempts = (if rc_MaxAttempts cfg < 1 then 1 else rc_MaxAttempts cfg) in
      case requeue_loop sweep cancelled (nat maxAttempts) 1 (sv_repo sv) of
        (Inl None, _, r) \<Rightarrow> (Inl ContextDone, sv\<lparr> sv_repo := r \<rparr>)
      | (Inl (Some e), _, r) \<Rightarrow> (Inl (RepoError e), sv\<lparr> sv_repo := r \<rparr>)
      | (Inr n, _, r) \<Rightarrow> (Inr n, wake_requeued n (sv\<lparr> sv_repo := r \<rparr>)))"

text \<open>The sweep of the in-memory repository does not fail.\<close>

definition mem_sweep ::
  "gotime \<Rightarrow> (string \<Rightarrow> gotime) \<Rightarrow> string list \<Rightarrow> nat \<Rightarrow> Repository \<Rightarrow> (repo_error, nat) result \<times> Repository" where
  "mem_sweep now clk ord attempt s = (case RequeueExpired now clk ord s of (n, s') \<Rightarrow> (Inr n, s'))"

section \<open>Long polls\<close>

text \<open>
  One turn of a long-poll loop: what the rest of the system did to the service since the last
  turn, the case of the \<open>select\<close> that fires, and the clock and FIFO snapshot of the claim it makes.
  The wake-up case can fire only when the channel is closed. Timers are events: how long the
  deadline and the polls take does not change what the loop does when they fire.
\<close>

datatype wait_event = EvCancelled | EvDeadline | EvWake | EvPoll

record turn =
  tn_env :: "Service \<Rightarrow> Service"
  tn_event :: wait_event
  tn_clk :: gotime
  tn_snapshot :: "string list"

definition park :: "Service \<Rightarrow> nat \<times> Service" where
  "park sv = (case Done (sv_notify sv) of (ch, n) \<Rightarrow> (ch, sv\<lparr> sv_notify := n \<rparr>))"

definition forget :: "nat \<Rightarrow> Service \<Rightarrow> Service" where
  "forget ch sv = sv\<lparr> sv_notify := Forget ch (sv_notify sv) \<rparr>"

type_synonym claim_result = "(service_error, (Job \<times> duration) option) result"

text \<open>
  The loop of \<open>WaitAndClaim\<close>; it returns its answer (or nothing, while it still waits), the
  channel it holds and the service.
\<close>

fun wac_loop ::
  "string \<Rightarrow> State option \<Rightarrow> nat \<Rightarrow> duration \<Rightarrow> turn list \<Rightarrow> Service \<Rightarrow> claim_result option \<times> nat \<times> Service" where
  "wac_loop w st wake pollDelay [] sv = (None, wake, sv)"
| "wac_loop w st wake pollDelay (t # ts) sv0 =
     (let sv = tn_env t sv0 in
      case tn_event t of
        EvCancelled \<Rightarrow> (Some (Inl ContextDone), wake, forget wake sv)
      | EvDeadline \<Rightarrow> (Some (Inr None), wake, forget wake sv)
      | EvWake \<Rightarrow>
          (if wake \<notin> nt_closed (sv_notify sv) then wac_loop w st wake pollDelay ts sv
           else case svc_ClaimState (tn_clk t) (tn_snapshot t) w st sv of
             (Inr None, sv') \<Rightarrow>
               (case park sv' of (wake', sv'') \<Rightarrow> wac_loop w st wake' second ts sv'')
           | (res, sv') \<Rightarrow> (Some res, wake, sv'))
      | EvPoll \<Rightarrow>
          (case svc_ClaimState (tn_clk t) (tn_snapshot t) w st sv of
             (Inr None, sv') \<Rightarrow> wac_loop w st wake (min (pollDelay * 2) (10 * second)) ts sv'
           | (res, sv') \<Rightarrow> (Some res, wake, forget wake sv')))"

definition WaitAndClaim ::
  "gotime \<Rightarrow> string list \<Rightarrow> string \<Rightarrow> State option \<Rightarrow> duration \<Rightarrow> turn list \<Rightarrow> Service \<Rightarrow>
     claim_result option \<times> Service" where
  "WaitAndClaim clk snapshot w st maxWait ts sv =
     (if w = [] then (Some (Inl WorkerIDMissing), sv)
      else if maxWait < 0 then (Some (Inl NegativeWait), sv)
      else case svc_ClaimState clk snapshot w st sv of
        (Inr None, sv') \<Rightarrow>
          (case park sv' of (wake, sv'') \<Rightarrow>
             (case wac_loop w st wake second ts sv'' of (res, _, sv3) \<Rightarrow> (res, sv3)))
      | (res, sv') \<Rightarrow> (Some res, sv'))"

definition waitPollFloor :: duration where "waitPollFloor = 250 * millisecond"
definition waitPollCeiling :: duration where "waitPollCeiling = 2 * second"

text \<open>The loop of \<open>WaitState\<close>; it also carries the last observed job.\<close>

fun ws_loop ::
  "string \<Rightarrow> Job \<Rightarrow> nat \<Rightarrow> duration \<Rightarrow> turn list \<Rightarrow> Service \<Rightarrow>
     (service_error, Job) result option \<times> nat \<times> Service" where
  "ws_loop i job wake pollDelay [] sv = (None, wake, sv)"
| "ws_loop i job wake pollDelay (t # ts) sv0 =
     (let sv = tn_env t sv0;
          observe = (\<lambda>wake' delay' sv'.
            case Get i (sv_repo sv') of
              Inl e \<Rightarrow> (Some (Inl (RepoError e)), wake', sv')
            | Inr job' \<Rightarrow>
                if IsTerminalState (job_State job') then (Some (Inr job'), wake', sv')
                else ws_loop i job' wake' delay' ts sv')
      in case tn_event t of
        EvCancelled \<Rightarrow> (Some (Inl ContextDone), wake, sv)
      | EvDeadline \<Rightarrow> (Some (Inr job), wake, sv)
      | EvWake \<Rightarrow>
          (if wake \<notin> nt_closed (sv_notify sv) then ws_loop i job wake pollDelay ts sv
           else (case park sv of (wake', sv') \<Rightarrow> observe wake' waitPollFloor sv'))
      | EvPoll \<Rightarrow> observe wake (min (pollDelay * 2) waitPollCeiling) sv)"

definition WaitState ::
  "string \<Rightarrow> turn list \<Rightarrow> Service \<Rightarrow> (service_error, Job) result option \<times> Service" where
  "WaitState i ts sv =
     (if i = [] then (Some (Inl ServiceIDRequired), sv)
      else case Get i (sv_repo sv) of
        Inl e \<Rightarrow> (Some (Inl (RepoError e)), sv)
      | Inr job \<Rightarrow>
          (if IsTerminalState (job_State job) then (Some (Inr job), sv)
           else (case park sv of (wake, sv') \<Rightarrow>
             (case ws_loop i job wake waitPollFloor ts sv' of (res, _, sv'') \<Rightarrow> (res, sv'')))))"

section \<open>Facts about the long polls\<close>

definition svc_wf :: "Service \<Rightarrow> bool" where
  "svc_wf sv \<longleftrightarrow> mem_wf (sv_repo sv) \<and> notifier_wf (sv_notify sv)"

text \<open>The rest of the system may do anything that keeps the invariants.\<close>

definition env_ok :: "turn \<Rightarrow> bool" where
  "env_ok t \<longleftrightarrow> (\<forall>sv. svc_wf sv \<longrightarrow> svc_wf (tn_env t sv))"

lemma park_wf: "svc_wf sv \<Longrightarrow> park sv = (ch, sv') \<Longrightarrow> svc_wf sv'"
  using notifier.park_invar [of "sv_notify sv"] by (auto simp: svc_wf_def park_def split: prod.splits)

lemma forget_wf: "svc_wf sv \<Longrightarrow> svc_wf (forget ch sv)"
  by (simp add: svc_wf_def forget_def notifier.leave_invar)

lemma forget_queue: "svc_wf sv \<Longrightarrow> ch \<notin> set (nt_queue (sv_notify (forget ch sv)))"
  by (simp add: svc_wf_def forget_def notifier.leave_waiting)

lemma closed_not_queued: "svc_wf sv \<Longrightarrow> ch \<in> nt_closed (sv_notify sv) \<Longrightarrow> ch \<notin> set (nt_queue (sv_notify sv))"
  using notifier.disjoint [of "sv_notify sv"] by (auto simp: svc_wf_def)

text \<open>The claimed row is in the store, running for the worker.\<close>

definition owned :: "string \<Rightarrow> claim_result \<Rightarrow> Service \<Rightarrow> bool" where
  "owned w res sv =
     (case res of
        Inr (Some (job, lease)) \<Rightarrow>
          r_jobs (sv_repo sv) (job_ID job) = Some job \<and> job_State job = StateRunning \<and> job_Worker job = w
      | _ \<Rightarrow> True)"

lemma svc_ClaimState_post:
  assumes "svc_wf sv" and "svc_ClaimState clk snap w st sv = (res, sv')"
  shows "svc_wf sv'" and "sv_notify sv' = sv_notify sv" and "owned w res sv'"
proof -
  obtain cres r where eff: "ClaimState clk snap w st (sv_repo sv) = (cres, r)" by fastforce
  have wf: "mem_wf r" using ClaimState_wf [of "sv_repo sv" clk snap w st] assms(1) eff by (simp add: svc_wf_def)
  then show "svc_wf sv'" and "sv_notify sv' = sv_notify sv"
    using assms eff by (auto simp: svc_ClaimState_def svc_wf_def split: if_splits)
  from eff show "owned w res sv'"
  proof (cases rule: ClaimState_effect)
    case (Claimed i row)
    have "job_ID row = i" using assms(1) Claimed(2) mem_wf_rowD [of "sv_repo sv"] by (simp add: svc_wf_def)
    then show ?thesis using Claimed assms(2) eff
      by (auto simp: svc_ClaimState_def owned_def claimed_row_def split: if_splits)
  qed (use assms(2) eff in \<open>auto simp: svc_ClaimState_def owned_def split: if_splits\<close>)
qed

lemma owned_forget [simp]: "owned w res (forget ch sv) = owned w res sv"
  by (auto simp: owned_def forget_def split: sum.splits option.splits)

lemma wac_loop_post:
  assumes "wac_loop w st wake d ts sv = (Some res, wake', sv')" and "svc_wf sv" and "\<forall>t \<in> set ts. env_ok t"
  shows "wake' \<notin> set (nt_queue (sv_notify sv')) \<and> svc_wf sv' \<and> owned w res sv'"
  using assms
proof (induction ts arbitrary: wake d sv)
  case (Cons t ts)
  define sv1 where "sv1 = tn_env t sv"
  have wf: "svc_wf sv1" and envs: "\<forall>t \<in> set ts. env_ok t" using Cons.prems by (simp_all add: sv1_def env_ok_def)
  obtain r sv2 where cl: "svc_ClaimState (tn_clk t) (tn_snapshot t) w st sv1 = (r, sv2)" by fastforce
  note post = svc_ClaimState_post [OF wf cl]
  show ?case
  proof (cases "tn_event t")
    case EvWake
    show ?thesis
    proof (cases "wake \<in> nt_closed (sv_notify sv1)")
      case True
      obtain ch sv3 where pk: "park sv2 = (ch, sv3)" by fastforce
      show ?thesis
      proof (cases "r = Inr None")
        case None: True
        then have "wac_loop w st ch second ts sv3 = (Some res, wake', sv')"
          using Cons.prems(1) EvWake True cl pk by (simp add: sv1_def)
        then show ?thesis using Cons.IH park_wf [OF post(1) pk] envs by blast
      next
        case False
        then have "(Some res, wake', sv') = (Some r, wake, sv2)"
          using Cons.prems(1) EvWake True cl by (auto simp: sv1_def split: sum.splits option.splits)
        then show ?thesis using post closed_not_queued [OF wf True] by simp
      qed
    next
      case False
      then have "wac_loop w st wake d ts sv1 = (Some res, wake', sv')"
        using Cons.prems(1) EvWake by (simp add: sv1_def)
      then show ?thesis using Cons.IH wf envs by blast
    qed
  next
    case EvPoll
    show ?thesis
    proof (cases "r = Inr None")
      case True
      then have "wac_loop w st wake (min (d * 2) (10 * second)) ts sv2 = (Some res, wake', sv')"
        using Cons.prems(1) EvPoll cl by (simp add: sv1_def)
      then show ?thesis using Cons.IH post(1) envs by blast
    next
      case False
      then have "(Some res, wake', sv') = (Some r, wake, forget wake sv2)"
        using Cons.prems(1) EvPoll cl by (auto simp: sv1_def split: sum.splits option.splits)
      then show ?thesis using post forget_wf forget_queue by simp
    qed
  qed (use Cons.prems wf in \<open>auto simp: sv1_def [symmetric] owned_def forget_wf forget_queue\<close>)
qed simp

text \<open>Every operation of the service is a move the environment may make.\<close>

lemma notify_svc_wf: "svc_wf sv \<Longrightarrow> svc_wf (notify_svc sv)"
  by (simp add: svc_wf_def notify_svc_def notifier.wake_one_invar)

lemma transition_and_notify_wf: "mem_wf (snd rr) \<Longrightarrow> svc_wf sv \<Longrightarrow> svc_wf (snd (transition_and_notify rr sv))"
  by (cases rr) (auto simp: transition_and_notify_def svc_wf_def notify_svc_def notifier.wake_one_invar split: sum.splits)

lemma svc_ops_wf:
  assumes "svc_wf sv"
  shows "svc_wf (snd (svc_SubmitBatch U clk jobs sv))" and "svc_wf (snd (svc_SubmitIdempotent U clk job sv))"
    and "svc_wf (snd (svc_ClaimFinalization clk i w sv))" and "svc_wf (snd (svc_ClaimState clk snap w st sv))"
    and "svc_wf (snd (svc_Complete clk i w a sv))" and "svc_wf (snd (svc_Rendered clk i w a reason sv))"
    and "svc_wf (snd (svc_Fail clk i w reason sv))" and "svc_wf (snd (svc_FailPermanently i w reason sv))"
    and "svc_wf (snd (svc_Retry clk i sv))" and "svc_wf (snd (svc_Cancel i sv))"
proof -
  have r: "mem_wf (sv_repo sv)" using assms by (simp add: svc_wf_def)
  note wf = SubmitBatch_wf [OF r] SubmitIdempotent_wf [OF r] ClaimFinalization_wf [OF r] Complete_wf [OF r]
    Rendered_wf [OF r] Fail_wf [OF r] FailPermanently_wf [OF r] Retry_wf [OF r] Cancel_wf [OF r]
  show "svc_wf (snd (svc_SubmitBatch U clk jobs sv))" "svc_wf (snd (svc_Rendered clk i w a reason sv))"
    "svc_wf (snd (svc_Fail clk i w reason sv))" "svc_wf (snd (svc_FailPermanently i w reason sv))"
    "svc_wf (snd (svc_Retry clk i sv))" "svc_wf (snd (svc_Cancel i sv))"
    using assms wf by (simp_all add: svc_SubmitBatch_def svc_Rendered_def svc_Fail_def svc_FailPermanently_def
        svc_Retry_def svc_Cancel_def transition_and_notify_wf split: sum.splits)
  show "svc_wf (snd (svc_ClaimState clk snap w st sv))"
    using svc_ClaimState_post(1) [OF assms] by (metis prod.collapse)
  show "svc_wf (snd (svc_Complete clk i w a sv))"
    using assms wf(4) [of clk i w a] by (auto simp: svc_Complete_def svc_wf_def split: sum.splits prod.splits)
  show "svc_wf (snd (svc_ClaimFinalization clk i w sv))"
    using assms wf(3) [of clk i w]
    by (auto simp: svc_ClaimFinalization_def svc_wf_def notify_svc_def notifier.wake_one_invar
        split: sum.splits prod.splits option.splits)
  show "svc_wf (snd (svc_SubmitIdempotent U clk job sv))"
    using assms wf(2) [of U clk job]
    by (auto simp: svc_SubmitIdempotent_def svc_wf_def notify_svc_def notifier.wake_one_invar
        split: sum.splits prod.splits)
qed

section \<open>Properties\<close>

text \<open>
  A worker's long poll leaves nothing behind: whatever the rest of the system does between
  the turns, when the claim loop returns, by cancellation, deadline, wake-up or poll, its channel
  is no longer parked (so it cannot swallow a later wake-up), and a job it returns is in the
  store, running for that worker.
\<close>

theorem wait_and_claim_is_clean:
  assumes "wac_loop w st wake d ts sv = (Some res, wake', sv')" and "svc_wf sv" and "\<forall>t \<in> set ts. env_ok t"
  shows "wake' \<notin> set (nt_queue (sv_notify sv')) \<and> svc_wf sv' \<and> owned w res sv'"
  by (rule wac_loop_post [OF assms])

definition sample_turn :: "wait_event \<Rightarrow> turn" where
  "sample_turn ev = \<lparr> tn_env = (\<lambda>sv. sv), tn_event = ev, tn_clk = 50, tn_snapshot = [] \<rparr>"

definition sample_service :: Service where
  "sample_service = \<lparr> sv_repo = sample_queue, sv_notify = snd (Done NewNotifier) \<rparr>"

theorem wait_and_claim_is_clean_witness:
  "0 \<notin> set (nt_queue (sv_notify (snd (snd (wac_loop ''w'' None 0 second [sample_turn EvWake, sample_turn EvDeadline] sample_service)))))
   \<and> nt_queue (sv_notify sample_service) = [0]"
proof -
  have wf: "svc_wf sample_service"
    by (simp add: svc_wf_def sample_service_def sample_queue_wf notifier.park_invar NewNotifier_wf)
  have run: "wac_loop ''w'' None 0 second [sample_turn EvWake, sample_turn EvDeadline] sample_service
      = (Some (Inr None), 0, forget 0 sample_service)"
    by (simp add: sample_turn_def sample_service_def Done_def NewNotifier_def Let_def)
  then show ?thesis
    using wait_and_claim_is_clean [OF run wf]
    by (simp add: env_ok_def sample_turn_def sample_service_def Done_def NewNotifier_def Let_def)
qed

text \<open>
  A producer's wait does leave its channel behind: \<open>WaitState\<close> returns on its deadline without
  un-parking, so the next notification closes the dead producer's channel and the worker that is
  really parked behind it stays asleep until its own poll.
\<close>

theorem wait_state_abandons_its_waiter:
  "let sv0 = \<lparr> sv_repo = sample_claimed, sv_notify = NewNotifier \<rparr>;
       (res, sv1) = WaitState ''b'' [sample_turn EvDeadline] sv0;
       (worker, sv2) = park sv1
   in (\<exists>job. res = Some (Inr job) \<and> job_State job = StateRunning)
      \<and> nt_queue (sv_notify sv2) = [0, worker]
      \<and> worker \<notin> nt_closed (Notify (sv_notify sv2)) \<and> 0 \<in> nt_closed (Notify (sv_notify sv2))"
  by (simp add: WaitState_def Get_def sample_claimed_eq sample_job_def jobCopyWithArtifactLocked_def
      IsTerminalState_def park_def Done_def NewNotifier_def Let_def sample_turn_def Notify_def)

lemma ws_loop_answer:
  assumes "ws_loop i job wake d ts sv = (Some (Inr job'), wake', sv')"
    and "\<forall>t \<in> set ts. tn_event t \<noteq> EvDeadline"
  shows "IsTerminalState (job_State job') \<and> Get i (sv_repo sv') = Inr job'"
  using assms
proof (induction ts arbitrary: job wake d sv)
  case (Cons t ts)
  then show ?case
    by (cases "tn_event t") (auto simp: Let_def split: sum.splits if_splits prod.splits)
qed simp

text \<open>
  A producer is told the truth: unless the deadline fires, the only job \<open>WaitState\<close> returns
  is the row the store holds at that moment, in a terminal state.
\<close>

theorem wait_state_answers_terminal:
  assumes "WaitState i ts sv = (Some (Inr job), sv')" and "\<forall>t \<in> set ts. tn_event t \<noteq> EvDeadline"
  shows "IsTerminalState (job_State job) \<and> Get i (sv_repo sv') = Inr job"
  using assms by (auto simp: WaitState_def split: if_splits sum.splits prod.splits dest: ws_loop_answer)

definition cancel_turn :: turn where
  "cancel_turn = (sample_turn EvPoll)\<lparr> tn_env := \<lambda>sv. snd (svc_Cancel ''b'' sv) \<rparr>"

theorem wait_state_answers_terminal_witness:
  "\<exists>job sv'. WaitState ''b'' [cancel_turn] \<lparr> sv_repo = sample_claimed, sv_notify = NewNotifier \<rparr> = (Some (Inr job), sv')
     \<and> IsTerminalState (job_State job) \<and> Get ''b'' (sv_repo sv') = Inr job"
proof -
  let ?r = "WaitState ''b'' [cancel_turn] \<lparr> sv_repo = sample_claimed, sv_notify = NewNotifier \<rparr>"
  have "\<exists>job. fst ?r = Some (Inr job)"
    by (simp add: WaitState_def Get_def sample_claimed_eq sample_job_def jobCopyWithArtifactLocked_def
      IsTerminalState_def park_def Done_def NewNotifier_def Let_def cancel_turn_def sample_turn_def svc_Cancel_def
      transition_and_notify_def Cancel_def IsCancelable_def notify_svc_def Notify_def)
  then obtain job where r: "?r = (Some (Inr job), snd ?r)" by (metis prod.collapse)
  have "\<forall>t \<in> set [cancel_turn]. tn_event t \<noteq> EvDeadline" by (simp add: cancel_turn_def sample_turn_def)
  from wait_state_answers_terminal [OF r this] r show ?thesis by blast
qed

text \<open>
  C24. No job is completed without a verifiable artifact: the service accepts a completion only
  from the worker that holds the job and with an artifact that has a storage key, a hash, a
  content type and a positive size; afterwards the store reports the job completed with exactly
  that artifact.
\<close>

theorem completion_is_gated:
  assumes "svc_wf sv" and "svc_Complete clk i w a sv = (Inr (), sv')"
  shows "TrimSpace (art_StorageKey a) \<noteq> [] \<and> TrimSpace (art_ArtifactHash a) \<noteq> [] \<and> 0 < art_SizeBytes a
    \<and> TrimSpace (art_ContentType a) \<noteq> [] \<and> holds i w (sv_repo sv)
    \<and> (\<exists>job. Get i (sv_repo sv') = Inr job \<and> job_State job = StateCompleted \<and> job_CompletedAt job = clk
         \<and> job_Artifact job = Some a)"
proof -
  have gate: "validateArtifact a = Inr ()" and ok: "fst (Complete clk i w a (sv_repo sv)) = Inr ()"
    and sv': "sv_repo sv' = snd (Complete clk i w a (sv_repo sv))"
    using assms(2) by (auto simp: svc_Complete_def split: sum.splits prod.splits)
  have h: "holds i w (sv_repo sv)" using ok by (simp add: Complete_def with_running_fence)
  then obtain job where job: "r_jobs (sv_repo sv) i = Some job" "runningJob i w (sv_repo sv) = Inr job"
    by (auto simp: holds_def runningJob_Inr)
  have "job_ID job = i" using assms(1) job(1) mem_wf_rowD [of "sv_repo sv"] by (simp add: svc_wf_def)
  then have "Get i (sv_repo sv') = Inr (job\<lparr> job_State := StateCompleted, job_CompletedAt := clk, job_Artifact := Some a \<rparr>)"
    using job by (simp add: sv' Complete_def with_running_def Get_def jobCopyWithArtifactLocked_def artifactCopyLocked_def)
  then show ?thesis using gate h by (auto simp: validateArtifact_def split: if_splits)
qed

definition sample_artifact :: Artifact where
  "sample_artifact =
     \<lparr> art_ID = [], art_Kind = [], art_StorageKey = ''k'', art_ArtifactURL = [], art_ArtifactHash = ''h'',
       art_ContentType = ''t'', art_SizeBytes = 1, art_Width = 0, art_Height = 0, art_FPSNum = 0,
       art_FPSDen = 0, art_FrameCount = 0, art_DurationUS = 0, art_ProfileID = [], art_CopyEligible = False,
       art_Codec = [], art_CodecProfile = [], art_ClosedGOP = False, art_FirstFrameKeyframe = False,
       art_Backend = [], art_ChrononVersion = [], art_Metrics = [], art_ChrononTelemetry = [],
       art_ChrononTimingStorageKey = [], art_ChrononTimingURL = [], art_ChrononTimingSHA256 = [],
       art_ChrononTimingSizeBytes = 0, art_ChrononTimingContentType = [], art_DriveFileID = [],
       art_DriveLink = [], art_Container = [], art_PixelFormat = [], art_AudioStreams = 0,
       art_OutputFacts = None, art_Provenance = None \<rparr>"

lemma TrimSpace_singletons:
  "TrimSpace ''k'' = ''k''" "TrimSpace ''h'' = ''h''" "TrimSpace ''t'' = ''t''"
  by (simp_all add: TrimSpace_def TrimLeft_def TrimRight_def trim_front.simps space_prefix_def has_prefix_def white_space_def)

theorem completion_is_gated_witness:
  "\<exists>job. Get ''b'' (sv_repo (snd (svc_Complete 70 ''b'' ''w'' sample_artifact
        \<lparr> sv_repo = sample_claimed, sv_notify = NewNotifier \<rparr>))) = Inr job \<and> job_Artifact job = Some sample_artifact"
proof -
  let ?sv = "\<lparr> sv_repo = sample_claimed, sv_notify = NewNotifier \<rparr>"
  have wf: "svc_wf ?sv" by (simp add: svc_wf_def sample_claimed_wf NewNotifier_wf)
  have "fst (svc_Complete 70 ''b'' ''w'' sample_artifact ?sv) = Inr ()"
    by (simp add: svc_Complete_def validateArtifact_def sample_artifact_def TrimSpace_singletons Complete_def
        with_running_def runningJob_def sample_claimed_eq)
  then have "svc_Complete 70 ''b'' ''w'' sample_artifact ?sv = (Inr (), snd (svc_Complete 70 ''b'' ''w'' sample_artifact ?sv))"
    by (metis prod.collapse)
  from completion_is_gated [OF wf this] show ?thesis by blast
qed

lemma requeue_loop_outcome:
  assumes "requeue_loop sweep cancelled m a s = (res, k, s')" and "a \<le> m"
  shows "a \<le> k \<and> k \<le> m \<and>
    (case res of Inr n \<Rightarrow> \<exists>t. sweep k t = (Inr n, s')
     | Inl None \<Rightarrow> cancelled k \<and> k < m
     | Inl (Some e) \<Rightarrow> k = m \<and> (\<exists>t. sweep k t = (Inl e, s')))"
  using assms
proof (induction sweep cancelled m a s rule: requeue_loop.induct)
  case (1 sweep cancelled m a s)
  obtain r t where sw: "sweep a s = (r, t)" by fastforce
  show ?case
  proof (cases r)
    case (Inr n)
    then show ?thesis using "1.prems" sw by (auto simp: requeue_loop.simps [of _ _ _ a])
  next
    case (Inl e)
    show ?thesis
    proof (cases "m \<le> a \<or> cancelled a")
      case True
      then show ?thesis using "1.prems" sw Inl by (auto simp: requeue_loop.simps [of _ _ _ a] split: if_splits)
    next
      case False
      then have "requeue_loop sweep cancelled m (Suc a) t = (res, k, s')"
        using "1.prems"(1) sw Inl by (simp add: requeue_loop.simps [of _ _ _ a])
      then show ?thesis using "1.IH" [OF sw [symmetric] Inl] False by auto
    qed
  qed
qed

text \<open>
  The retried sweep is bounded and honest: it makes at least one and at most the configured
  number of attempts; it reports a repository error only after the last allowed attempt failed,
  and a cancelled wait is reported as such, never as a count.
\<close>

theorem sweep_retries_are_bounded:
  assumes "requeue_loop sweep cancelled m 1 s = (res, k, s')" and "1 \<le> m"
  shows "1 \<le> k \<and> k \<le> m \<and>
    (case res of Inr n \<Rightarrow> \<exists>t. sweep k t = (Inr n, s')
     | Inl None \<Rightarrow> cancelled k \<and> k < m
     | Inl (Some e) \<Rightarrow> k = m \<and> (\<exists>t. sweep k t = (Inl e, s')))"
  by (rule requeue_loop_outcome [OF assms])

theorem sweep_retries_are_bounded_witness:
  "fst (snd (requeue_loop (\<lambda>a s. if a < 3 then (Inl ''down'', s) else (Inr (a + 4), s)) (\<lambda>_. False) 5 1 (0::nat))) \<le> 5
   \<and> fst (requeue_loop (\<lambda>a s. if a < 3 then (Inl ''down'', s) else (Inr (a + 4), s)) (\<lambda>_. False) 5 1 (0::nat)) = Inr 7"
proof -
  let ?r = "requeue_loop (\<lambda>a s. if a < 3 then (Inl ''down'', s) else (Inr (a + 4), s)) (\<lambda>_. False) 5 1 (0::nat)"
  have "?r = (fst ?r, fst (snd ?r), snd (snd ?r))" by simp
  from sweep_retries_are_bounded [OF this] show ?thesis by (simp add: requeue_loop.simps)
qed

lemma wrap64_id: "- (2 ^ 63) \<le> x \<Longrightarrow> x < 2 ^ 63 \<Longrightarrow> wrap64 x = x"
  by (simp add: wrap64_def)

lemma backoff_loop_bounds:
  assumes "0 < maxDelay" and "maxDelay < 2 ^ 62" and "0 < delay" and "delay < 2 ^ 62"
  shows "0 < backoff_loop maxDelay n delay \<and> backoff_loop maxDelay n delay \<le> max delay maxDelay
    \<and> (0 < n \<longrightarrow> backoff_loop maxDelay n delay \<le> maxDelay)"
  using assms(3,4)
proof (induction n arbitrary: delay)
  case (Suc n)
  have w: "wrap64 (delay * 2) = delay * 2" using Suc.prems by (intro wrap64_id) auto
  show ?case
  proof (cases "maxDelay \<le> delay * 2")
    case False
    then show ?thesis using Suc.IH [of "delay * 2"] Suc.prems assms w by (auto simp: Let_def)
  qed (use assms w in \<open>simp add: Let_def\<close>)
qed simp

lemma round_even_range:
  assumes "0 \<le> x" and "x \<le> of_int c"
  shows "0 \<le> round_even x \<and> round_even x \<le> c"
proof -
  have f: "0 \<le> \<lfloor>x\<rfloor>" "\<lfloor>x\<rfloor> \<le> c" using assms by (auto simp: floor_le_iff)
  have "\<lfloor>x\<rfloor> < c" if "0 < x - of_int \<lfloor>x\<rfloor>"
    using that f assms(2) by (metis diff_gt_0_iff_gt floor_of_int floor_mono le_less not_less)
  moreover have "0 < x - of_int \<lfloor>x\<rfloor>" if "\<not> x - of_int \<lfloor>x\<rfloor> < 1 / 2" using that by simp
  ultimately show ?thesis using f by (force simp: round_even_def Let_def)
qed

text \<open>Rounding stays below every whole number that a \<open>float64\<close> represents with all its predecessors.\<close>

lemma round64_range:
  assumes "0 \<le> x" and "x \<le> of_int c" and "c \<le> 2 ^ 53"
  shows "0 \<le> round64 x \<and> round64 x \<le> of_int c"
proof (cases "0 < unit_exponent x")
  case True
  then have x: "1 \<le> x" "54 \<le> bitlen \<lfloor>x\<rfloor>" using bitlen_nonneg [of "\<lceil>1 / x\<rceil> - 1"]
    by (auto simp: unit_exponent_def split: if_splits)
  then have "0 < \<lfloor>x\<rfloor>" by (simp add: less_floor_iff le_floor_iff zero_less_floor)
  then have "2 ^ nat (bitlen \<lfloor>x\<rfloor> - 1) \<le> \<lfloor>x\<rfloor>" using bitlen_bounds by blast
  moreover have "(2::int) ^ 53 \<le> 2 ^ nat (bitlen \<lfloor>x\<rfloor> - 1)" using x by (intro power_increasing) auto
  ultimately have "2 ^ 53 \<le> \<lfloor>x\<rfloor>" by linarith
  then have "(2 ^ 53 :: rat) \<le> x" by (simp add: le_floor_iff)
  moreover have "x \<le> 2 ^ 53" using assms(2,3) by (metis of_int_le_iff of_int_numeral of_int_power order_trans)
  ultimately have "x = of_int (2 ^ 53)" "c = 2 ^ 53" using assms(2,3) by (auto simp: le_less)
  moreover have "bitlen (2 ^ 53) = 54" using bitlen_pow2 [of 1 53] by (simp add: bitlen_alt_def)
  ultimately show ?thesis by (simp add: round64_def unit_exponent_def round_even_def)
next
  case False
  define k where "k = nat (- unit_exponent x)"
  have r: "round64 x = (if x = 0 then 0 else of_int (round_even (x * 2 ^ k)) / 2 ^ k)"
    using False by (auto simp: round64_def k_def Let_def)
  have "0 \<le> round_even (x * 2 ^ k) \<and> round_even (x * 2 ^ k) \<le> c * 2 ^ k"
    using assms(1,2) by (intro round_even_range) (auto intro: mult_right_mono)
  then have "(0::rat) \<le> of_int (round_even (x * 2 ^ k)) \<and> of_int (round_even (x * 2 ^ k)) \<le> (of_int (c * 2 ^ k) :: rat)"
    by (simp only: of_int_le_iff of_int_0_le_iff)
  then show ?thesis using assms(1,2) by (auto simp: r divide_le_eq)
qed

lemma round64_unit: "0 \<le> x \<Longrightarrow> x \<le> 1 \<Longrightarrow> 0 \<le> round64 x \<and> round64 x \<le> 1"
  using round64_range [of x 1] by simp

lemma jittered_range:
  assumes "0 \<le> delay" and "delay \<le> 2 ^ 53" and "0 \<le> j" and "j \<le> 1" and "0 \<le> rnd" and "rnd < 1"
  shows "0 \<le> \<lfloor>round64 (round64 (of_int delay) * round64 (1 - round64 (j * rnd)))\<rfloor>
    \<and> \<lfloor>round64 (round64 (of_int delay) * round64 (1 - round64 (j * rnd)))\<rfloor> \<le> delay"
proof -
  have "j * rnd \<le> 1 * 1" using assms by (intro mult_mono) auto
  then have "0 \<le> round64 (j * rnd) \<and> round64 (j * rnd) \<le> 1" using assms by (intro round64_unit) auto
  then have f: "0 \<le> round64 (1 - round64 (j * rnd)) \<and> round64 (1 - round64 (j * rnd)) \<le> 1"
    by (intro round64_unit) auto
  have d: "0 \<le> round64 (of_int delay) \<and> round64 (of_int delay) \<le> of_int delay"
    using assms by (intro round64_range) auto
  have "round64 (of_int delay) * round64 (1 - round64 (j * rnd)) \<le> of_int delay * 1"
    using d f by (intro mult_mono) auto
  then have "0 \<le> round64 (round64 (of_int delay) * round64 (1 - round64 (j * rnd)))
      \<and> round64 (round64 (of_int delay) * round64 (1 - round64 (j * rnd))) \<le> of_int delay"
    using d f assms(2) by (intro round64_range) auto
  then show ?thesis by (auto simp: floor_le_iff)
qed

text \<open>
  C28. Retry delays stay in range: with a positive cap, delays below 2^62 nanoseconds (with jitter, at
  most 2^53, the whole numbers that a \<open>float64\<close> represents) and a random draw in [0, 1), the sleep
  before any retry is not negative and not above the larger of the base delay and the cap, is at most
  the cap from the second failure on, does not wrap around however many failures there were, and
  jitter only shortens it, with the rounding of every operation on floats.
\<close>

theorem backoff_is_bounded:
  assumes "0 < rc_MaxDelay cfg" and "rc_MaxDelay cfg < 2 ^ 62" and "rc_BaseDelay cfg < 2 ^ 62"
    and "0 < rc_Jitter cfg \<Longrightarrow> rc_MaxDelay cfg \<le> 2 ^ 53 \<and> rc_BaseDelay cfg \<le> 2 ^ 53"
    and "0 \<le> rnd" and "rnd < 1"
  shows "0 \<le> backoffDelay cfg rnd failed
    \<and> backoffDelay cfg rnd failed \<le> max (if rc_BaseDelay cfg \<le> 0 then defaultBaseDelay else rc_BaseDelay cfg) (rc_MaxDelay cfg)
    \<and> (2 \<le> failed \<longrightarrow> backoffDelay cfg rnd failed \<le> rc_MaxDelay cfg)
    \<and> backoffDelay cfg rnd failed \<le> backoffDelay (cfg\<lparr> rc_Jitter := 0 \<rparr>) rnd failed"
proof -
  define base where "base = (if rc_BaseDelay cfg \<le> 0 then defaultBaseDelay else rc_BaseDelay cfg)"
  define delay where "delay = backoff_loop (rc_MaxDelay cfg) (failed - 1) base"
  have base: "0 < base" "base < 2 ^ 62" using assms(3) by (auto simp: base_def defaultBaseDelay_def)
  note b = backoff_loop_bounds [OF assms(1,2) base, of "failed - 1", folded delay_def]
  have "delay \<le> 2 ^ 53" if "0 < rc_Jitter cfg"
    using b assms(4) [OF that] by (auto simp: base_def defaultBaseDelay_def max_def split: if_splits)
  then have j: "0 \<le> backoffDelay cfg rnd failed \<and> backoffDelay cfg rnd failed \<le> delay" if "0 < rc_Jitter cfg"
    using that b jittered_range [of delay "min (rc_Jitter cfg) 1" rnd] assms(5,6)
    by (simp add: backoffDelay_def base_def delay_def Let_def)
  have "backoffDelay cfg rnd failed = delay" if "\<not> 0 < rc_Jitter cfg"
    using that by (simp add: backoffDelay_def base_def delay_def Let_def)
  moreover have "backoffDelay (cfg\<lparr> rc_Jitter := 0 \<rparr>) rnd failed = delay"
    by (simp add: backoffDelay_def base_def delay_def Let_def)
  ultimately show ?thesis using b j by (cases "0 < rc_Jitter cfg") (auto simp: base_def [symmetric])
qed

theorem backoff_is_bounded_witness:
  "backoffDelay \<lparr> rc_MaxAttempts = 9, rc_BaseDelay = 0, rc_MaxDelay = 2 * second, rc_Jitter = 1 / 2 \<rparr> (1 / 2) 90 \<le> 2 * second"
  using backoff_is_bounded [of "\<lparr> rc_MaxAttempts = 9, rc_BaseDelay = 0, rc_MaxDelay = 2 * second, rc_Jitter = 1 / 2 \<rparr>" "1 / 2" 90]
  by simp

lemma round64_examples:
  "round64 (1 / 2) = 1 / 2" "round64 (2 ^ 53 + 1) = 2 ^ 53" "round64 (2 ^ 53 + 3) = 2 ^ 53 + 4"
  "round64 (1 / 10) = 3602879701896397 / 2 ^ 55"
  by code_simp+

end
