(* ===== verification/L1_Cache.thy ===== *)
theory L1_Cache
  imports Prelude
begin

text \<open>
  The in-memory level of the worker's asset cache, \<open>renderinggen/internal/storage/l1.go\<close>: a
  bounded map with first-in-first-out eviction and a per-object admission cap.
\<close>

section \<open>The cache\<close>

definition DefaultL1MaxObjectBytes :: int where "DefaultL1MaxObjectBytes = 8 * 2 ^ 20"

record memCache =
  mc_items :: "string \<rightharpoonup> bytes"
  mc_order :: "string list"
  mc_size :: int
  mc_max :: int
  mc_maxObject :: int

definition newMemCacheWithObjectCap :: "int \<Rightarrow> int \<Rightarrow> memCache" where
  "newMemCacheWithObjectCap mx maxObject =
     \<lparr> mc_items = Map.empty, mc_order = [], mc_size = 0, mc_max = mx, mc_maxObject = maxObject \<rparr>"

definition newMemCache :: "int \<Rightarrow> memCache" where
  "newMemCache mx = newMemCacheWithObjectCap mx DefaultL1MaxObjectBytes"

definition l1_Get :: "string \<Rightarrow> memCache \<Rightarrow> bytes option" where
  "l1_Get key m = mc_items m key"

text \<open>
  The eviction loop of \<open>Put\<close>, over the order still to be consumed. Reading a missing entry gives
  a nil slice, of length 0.
\<close>

definition entry_len :: "(string \<rightharpoonup> bytes) \<Rightarrow> string \<Rightarrow> int" where
  "entry_len items k = (case items k of None \<Rightarrow> 0 | Some d \<Rightarrow> int (length d))"

fun evict_loop :: "int \<Rightarrow> string list \<Rightarrow> memCache \<Rightarrow> memCache" where
  "evict_loop dataLen [] m = m\<lparr> mc_order := [] \<rparr>"
| "evict_loop dataLen (oldest # rest) m =
     (if mc_max m > 0 \<and> mc_size m + dataLen > mc_max m then
        evict_loop dataLen rest
          (m\<lparr> mc_size := mc_size m - entry_len (mc_items m) oldest,
              mc_items := (mc_items m)(oldest := None) \<rparr>)
      else m\<lparr> mc_order := oldest # rest \<rparr>)"

text \<open>\<open>trimOrder\<close> only moves the order to a smaller backing array: its value does not change.\<close>

definition l1_Put :: "string \<Rightarrow> bytes \<Rightarrow> memCache \<Rightarrow> memCache" where
  "l1_Put key data m =
     (let dataLen = int (length data) in
      if mc_maxObject m > 0 \<and> dataLen > mc_maxObject m then m
      else if mc_max m > 0 \<and> dataLen > mc_max m then m
      else if key \<in> dom (mc_items m) then m
      else
        (let m1 = evict_loop dataLen (mc_order m) m in
         m1\<lparr> mc_items := (mc_items m1)(key \<mapsto> data), mc_order := mc_order m1 @ [key],
             mc_size := mc_size m1 + dataLen \<rparr>))"

section \<open>The invariant\<close>

definition cached_bytes :: "(string \<rightharpoonup> bytes) \<Rightarrow> string list \<Rightarrow> int" where
  "cached_bytes items ks = sum_list (map (entry_len items) ks)"

definition l1_wf :: "memCache \<Rightarrow> bool" where
  "l1_wf m \<longleftrightarrow> distinct (mc_order m) \<and> set (mc_order m) = dom (mc_items m)
     \<and> mc_size m = cached_bytes (mc_items m) (mc_order m)
     \<and> (mc_max m > 0 \<longrightarrow> mc_size m \<le> mc_max m)
     \<and> (mc_maxObject m > 0 \<longrightarrow> (\<forall>k d. mc_items m k = Some d \<longrightarrow> int (length d) \<le> mc_maxObject m))"

lemma entry_len_nonneg [simp]: "0 \<le> entry_len items k"
  by (simp add: entry_len_def split: option.split)

lemma cached_bytes_upd [simp]: "k \<notin> set ks \<Longrightarrow> cached_bytes (items(k := v)) ks = cached_bytes items ks"
  by (auto simp: cached_bytes_def entry_len_def intro!: arg_cong [of _ _ sum_list] map_cong)

text \<open>
  What the eviction loop does: it drops the shortest prefix of the order that makes room, and
  exactly the entries of that prefix.
\<close>

definition room_for :: "int \<Rightarrow> memCache \<Rightarrow> nat \<Rightarrow> bool" where
  "room_for dataLen m n \<longleftrightarrow> mc_max m \<le> 0 \<or>
     cached_bytes (mc_items m) (drop n (mc_order m)) + dataLen \<le> mc_max m"

lemma evict_loop_spec:
  assumes "distinct ks" and "set ks \<subseteq> dom (mc_items m)" and "mc_size m = cached_bytes (mc_items m) ks"
  shows "\<exists>n \<le> length ks.
    evict_loop dataLen ks m = m\<lparr> mc_order := drop n ks, mc_size := cached_bytes (mc_items m) (drop n ks),
        mc_items := mc_items m |` (- set (take n ks)) \<rparr>
    \<and> (n < length ks \<longrightarrow> mc_max m \<le> 0 \<or> cached_bytes (mc_items m) (drop n ks) + dataLen \<le> mc_max m)
    \<and> (\<forall>i < n. mc_max m > 0 \<and> cached_bytes (mc_items m) (drop i ks) + dataLen > mc_max m)"
  using assms
proof (induction ks arbitrary: m)
  case Nil
  then show ?case by (auto simp: cached_bytes_def restrict_map_def)
next
  case (Cons k ks)
  show ?case
  proof (cases "mc_max m > 0 \<and> mc_size m + dataLen > mc_max m")
    case False
    then show ?thesis using Cons.prems by (intro exI [of _ 0]) (auto simp: restrict_map_def)
  next
    case True
    let ?m = "m\<lparr> mc_size := mc_size m - entry_len (mc_items m) k, mc_items := (mc_items m)(k := None) \<rparr>"
    have size: "mc_size ?m = cached_bytes (mc_items ?m) ks"
      using Cons.prems by (simp add: cached_bytes_def [of _ "k # ks"]) (simp add: cached_bytes_def [symmetric])
    have pre: "distinct ks" "set ks \<subseteq> dom (mc_items ?m)" using Cons.prems(1,2) by auto
    obtain n where n: "n \<le> length ks" "evict_loop dataLen ks ?m = ?m\<lparr> mc_order := drop n ks,
        mc_size := cached_bytes (mc_items ?m) (drop n ks), mc_items := mc_items ?m |` (- set (take n ks)) \<rparr>"
      "n < length ks \<longrightarrow> mc_max ?m \<le> 0 \<or> cached_bytes (mc_items ?m) (drop n ks) + dataLen \<le> mc_max ?m"
      "\<forall>i < n. mc_max ?m > 0 \<and> cached_bytes (mc_items ?m) (drop i ks) + dataLen > mc_max ?m"
      using Cons.IH [OF pre size] by blast
    have nk: "k \<notin> set (drop j ks)" for j using Cons.prems(1) in_set_dropD by fastforce
    have restr: "(mc_items m)(k := None) |` (- set (take n ks)) = mc_items m |` (- set (take (Suc n) (k # ks)))"
      by (auto simp: restrict_map_def fun_eq_iff)
    have sz: "cached_bytes (mc_items m) (k # ks) = mc_size m" using Cons.prems by simp
    show ?thesis
    proof (intro exI [of _ "Suc n"] conjI)
      show "evict_loop dataLen (k # ks) m = m\<lparr> mc_order := drop (Suc n) (k # ks),
          mc_size := cached_bytes (mc_items m) (drop (Suc n) (k # ks)),
          mc_items := mc_items m |` (- set (take (Suc n) (k # ks))) \<rparr>"
        using True n(2) nk [of n] restr by simp
      show "\<forall>i < Suc n. mc_max m > 0 \<and> cached_bytes (mc_items m) (drop i (k # ks)) + dataLen > mc_max m"
        using n(4) nk True sz by (auto simp: less_Suc_eq_0_disj)
    qed (use n(1,3) nk [of n] in auto)
  qed
qed

lemma cached_bytes_Cons: "cached_bytes items (k # ks) = entry_len items k + cached_bytes items ks"
  by (simp add: cached_bytes_def)

lemma cached_bytes_append: "cached_bytes items (ks @ ls) = cached_bytes items ks + cached_bytes items ls"
  by (simp add: cached_bytes_def)

lemma cached_bytes_cong: "(\<And>k. k \<in> set ks \<Longrightarrow> items k = items' k) \<Longrightarrow> cached_bytes items ks = cached_bytes items' ks"
  by (auto simp: cached_bytes_def entry_len_def intro!: arg_cong [of _ _ sum_list] map_cong)

section \<open>The specification: a queue of entries with a byte budget\<close>

definition fifo_bytes :: "(string \<times> bytes) list \<Rightarrow> int" where
  "fifo_bytes es = sum_list (map (\<lambda>(k, d). int (length d)) es)"

fun fifo_room :: "int \<Rightarrow> int \<Rightarrow> (string \<times> bytes) list \<Rightarrow> (string \<times> bytes) list" where
  "fifo_room budget n [] = []"
| "fifo_room budget n (e # es) =
     (if budget > 0 \<and> fifo_bytes (e # es) + n > budget then fifo_room budget n es else e # es)"

definition fifo_admits :: "int \<Rightarrow> int \<Rightarrow> bytes \<Rightarrow> bool" where
  "fifo_admits budget cap d \<longleftrightarrow>
     (cap > 0 \<longrightarrow> int (length d) \<le> cap) \<and> (budget > 0 \<longrightarrow> int (length d) \<le> budget)"

definition fifo_put :: "int \<Rightarrow> int \<Rightarrow> string \<Rightarrow> bytes \<Rightarrow> (string \<times> bytes) list \<Rightarrow> (string \<times> bytes) list" where
  "fifo_put budget cap k d es =
     (if fifo_admits budget cap d \<and> k \<notin> set (map fst es)
      then fifo_room budget (int (length d)) es @ [(k, d)] else es)"

definition l1_abs :: "memCache \<Rightarrow> (string \<times> bytes) list" where
  "l1_abs m = map (\<lambda>k. (k, the (mc_items m k))) (mc_order m)"

lemma fifo_room_drop:
  assumes "n \<le> length es" and "n < length es \<longrightarrow> budget \<le> 0 \<or> fifo_bytes (drop n es) + x \<le> budget"
    and "\<forall>i < n. budget > 0 \<and> fifo_bytes (drop i es) + x > budget"
  shows "fifo_room budget x es = drop n es"
  using assms
proof (induction es arbitrary: n)
  case (Cons e es)
  show ?case
  proof (cases n)
    case 0
    then show ?thesis using Cons.prems by auto
  next
    case (Suc j)
    have "\<forall>i < j. budget > 0 \<and> fifo_bytes (drop i es) + x > budget"
      using Cons.prems(3) Suc by force
    then have "fifo_room budget x es = drop j es" using Cons.IH [of j] Cons.prems Suc by simp
    moreover have "budget > 0 \<and> fifo_bytes (e # es) + x > budget" using Cons.prems(3) Suc by force
    ultimately show ?thesis using Suc by simp
  qed
qed simp

lemma fifo_bytes_map:
  "set ks \<subseteq> dom items \<Longrightarrow> fifo_bytes (map (\<lambda>k. (k, the (items k))) ks) = cached_bytes items ks"
  by (induction ks) (auto simp: fifo_bytes_def cached_bytes_def entry_len_def)

text \<open>The state the eviction loop leaves, in terms of the specification.\<close>

lemma evict_loop_room:
  assumes wf: "l1_wf m" and "m' = evict_loop dataLen (mc_order m) m"
  shows "l1_abs m' = fifo_room (mc_max m) dataLen (l1_abs m)" and "distinct (mc_order m')"
    and "set (mc_order m') = dom (mc_items m')" and "mc_size m' = cached_bytes (mc_items m') (mc_order m')"
    and "mc_max m' = mc_max m" and "mc_maxObject m' = mc_maxObject m" and "mc_items m' \<subseteq>\<^sub>m mc_items m"
    and "mc_order m' \<noteq> [] \<longrightarrow> mc_max m \<le> 0 \<or> mc_size m' + dataLen \<le> mc_max m"
    and "mc_order m' = [] \<longrightarrow> mc_size m' = 0"
proof -
  let ?ks = "mc_order m"
  have d: "distinct ?ks" "set ?ks = dom (mc_items m)" and sz: "mc_size m = cached_bytes (mc_items m) ?ks"
    using wf by (simp_all add: l1_wf_def)
  obtain n where n: "n \<le> length ?ks"
    "m' = m\<lparr> mc_order := drop n ?ks, mc_size := cached_bytes (mc_items m) (drop n ?ks),
        mc_items := mc_items m |` (- set (take n ?ks)) \<rparr>"
    "n < length ?ks \<longrightarrow> mc_max m \<le> 0 \<or> cached_bytes (mc_items m) (drop n ?ks) + dataLen \<le> mc_max m"
    "\<forall>i < n. mc_max m > 0 \<and> cached_bytes (mc_items m) (drop i ?ks) + dataLen > mc_max m"
    using evict_loop_spec [OF d(1) _ sz, of dataLen] d(2) assms(2) by blast
  have disj: "set (take n ?ks) \<inter> set (drop n ?ks) = {}" using d(1) by (simp add: set_take_disj_set_drop_if_distinct)
  have same: "(mc_items m |` (- set (take n ?ks))) k = mc_items m k" if "k \<in> set (drop n ?ks)" for k
    using disj that by (auto simp: restrict_map_def)
  have sub: "set (drop i ?ks) \<subseteq> dom (mc_items m)" for i using d(2) set_drop_subset by fast
  have bytes: "fifo_bytes (drop i (l1_abs m)) = cached_bytes (mc_items m) (drop i ?ks)" for i
    using fifo_bytes_map [OF sub] by (simp add: l1_abs_def drop_map)
  have "l1_abs m' = drop n (l1_abs m)" using n(2) same by (simp add: l1_abs_def drop_map)
  moreover have "fifo_room (mc_max m) dataLen (l1_abs m) = drop n (l1_abs m)"
    by (rule fifo_room_drop) (use n(1,3,4) bytes in \<open>simp_all add: l1_abs_def\<close>)
  ultimately show "l1_abs m' = fifo_room (mc_max m) dataLen (l1_abs m)" by simp
  show "distinct (mc_order m')" using n(2) d(1) by simp
  have "set ?ks = set (take n ?ks) \<union> set (drop n ?ks)" by (metis append_take_drop_id set_append)
  then show "set (mc_order m') = dom (mc_items m')" using n(2) disj d(2) by auto
  show "mc_size m' = cached_bytes (mc_items m') (mc_order m')"
    using n(2) cached_bytes_cong [of "drop n ?ks" "mc_items m" "mc_items m'"] same by simp
  show "mc_max m' = mc_max m" "mc_maxObject m' = mc_maxObject m" using n(2) by simp_all
  show "mc_items m' \<subseteq>\<^sub>m mc_items m" using n(2) by (auto simp: map_le_def restrict_map_def)
  show "mc_order m' \<noteq> [] \<longrightarrow> mc_max m \<le> 0 \<or> mc_size m' + dataLen \<le> mc_max m" using n(2,3) by simp
  show "mc_order m' = [] \<longrightarrow> mc_size m' = 0" using n(2) by (simp add: cached_bytes_def)
qed

lemma newMemCache_wf: "l1_wf (newMemCacheWithObjectCap mx cap)"
  by (simp add: l1_wf_def newMemCacheWithObjectCap_def cached_bytes_def)

lemma l1_keys: "l1_wf m \<Longrightarrow> set (map fst (l1_abs m)) = dom (mc_items m)"
  by (simp add: l1_wf_def l1_abs_def comp_def)

lemma l1_Get_abs: "l1_wf m \<Longrightarrow> l1_Get k m = map_of (l1_abs m) k"
proof -
  assume wf: "l1_wf m"
  have "map_of (map (\<lambda>k. (k, the (mc_items m k))) ks) k = (if k \<in> set ks then Some (the (mc_items m k)) else None)" for ks
    by (induction ks) auto
  then show ?thesis using wf by (auto simp: l1_abs_def l1_wf_def l1_Get_def domIff)
qed

lemma l1_Put_admitted:
  assumes wf: "l1_wf m" and adm: "fifo_admits (mc_max m) (mc_maxObject m) d" and new: "k \<notin> dom (mc_items m)"
  shows "l1_wf (l1_Put k d m)"
    and "l1_abs (l1_Put k d m) = fifo_room (mc_max m) (int (length d)) (l1_abs m) @ [(k, d)]"
proof -
  define m1 where "m1 = evict_loop (int (length d)) (mc_order m) m"
  note e = evict_loop_room [OF wf m1_def]
  have put: "l1_Put k d m = m1\<lparr> mc_items := (mc_items m1)(k \<mapsto> d), mc_order := mc_order m1 @ [k],
      mc_size := mc_size m1 + int (length d) \<rparr>"
    using adm new by (auto simp: l1_Put_def fifo_admits_def m1_def Let_def)
  have k: "k \<notin> set (mc_order m1)" using e(3) map_le_implies_dom_le [OF e(7)] new by blast
  have sizes: "mc_size m1 + int (length d) = cached_bytes ((mc_items m1)(k \<mapsto> d)) (mc_order m1 @ [k])"
    using e(4) k by (simp add: cached_bytes_append cached_bytes_Cons) (simp add: cached_bytes_def entry_len_def)
  have budget: "mc_max m1 > 0 \<longrightarrow> mc_size m1 + int (length d) \<le> mc_max m1"
    using e(5,8,9) adm by (cases "mc_order m1 = []") (auto simp: fifo_admits_def)
  have old: "mc_items m j = Some b" if "mc_items m1 j = Some b" for j b
    using e(7) that by (metis domI map_le_def)
  have caps: "mc_maxObject m1 > 0 \<longrightarrow> (\<forall>j b. ((mc_items m1)(k \<mapsto> d)) j = Some b \<longrightarrow> int (length b) \<le> mc_maxObject m1)"
    using e(6) adm wf old unfolding fifo_admits_def l1_wf_def fun_upd_def by (metis option.inject)
  show "l1_wf (l1_Put k d m)"
    unfolding l1_wf_def put using e(2,3) k sizes budget caps by auto
  have "l1_abs (l1_Put k d m) = l1_abs m1 @ [(k, d)]" unfolding put using k by (auto simp: l1_abs_def)
  then show "l1_abs (l1_Put k d m) = fifo_room (mc_max m) (int (length d)) (l1_abs m) @ [(k, d)]"
    using e(1) by simp
qed

section \<open>Correctness\<close>

text \<open>
  C32. The in-memory cache implements a byte-budgeted queue. From a well-formed cache (distinct
  order, exact size, within its budget and per-object cap) a \<open>Put\<close> leaves a well-formed cache
  whose contents are those of the specification: an object over the cap or the budget, or already
  present, changes nothing, and any other is appended after evicting exactly the shortest
  first-in prefix that makes room. \<open>Get\<close> returns what the queue holds, so an admitted new object is
  readable right after it was put.
\<close>

theorem l1_cache_is_a_bounded_fifo:
  assumes "l1_wf m"
  shows "l1_wf (l1_Put k d m)
    \<and> l1_abs (l1_Put k d m) = fifo_put (mc_max m) (mc_maxObject m) k d (l1_abs m)
    \<and> (\<forall>j. l1_Get j (l1_Put k d m) = map_of (l1_abs (l1_Put k d m)) j)
    \<and> (fifo_admits (mc_max m) (mc_maxObject m) d \<and> l1_Get k m = None \<longrightarrow> l1_Get k (l1_Put k d m) = Some d)"
proof (cases "fifo_admits (mc_max m) (mc_maxObject m) d \<and> k \<notin> dom (mc_items m)")
  case True
  then have put: "l1_wf (l1_Put k d m)"
    "l1_abs (l1_Put k d m) = fifo_room (mc_max m) (int (length d)) (l1_abs m) @ [(k, d)]"
    using l1_Put_admitted [OF assms] by simp_all
  have "l1_Get k (l1_Put k d m) = Some d" using True by (auto simp: l1_Get_def l1_Put_def fifo_admits_def Let_def)
  then show ?thesis using put True l1_keys [OF assms] l1_Get_abs [OF put(1)] by (simp add: fifo_put_def)
next
  case False
  then have "l1_Put k d m = m" by (auto simp: l1_Put_def fifo_admits_def Let_def)
  then show ?thesis using False assms l1_keys [OF assms] l1_Get_abs [OF assms] by (auto simp: fifo_put_def l1_Get_def)
qed

text \<open>Three objects of two bytes through a cache of five: the third evicts the first.\<close>

definition sample_l1 :: memCache where
  "sample_l1 = l1_Put ''b'' ''BB'' (l1_Put ''a'' ''AA'' (newMemCacheWithObjectCap 5 4))"

lemma sample_l1_wf: "l1_wf sample_l1"
  by (simp add: sample_l1_def l1_Put_def Let_def newMemCacheWithObjectCap_def l1_wf_def cached_bytes_def entry_len_def
      insert_commute)

theorem l1_cache_is_a_bounded_fifo_witness:
  "l1_wf sample_l1 \<and> l1_abs (l1_Put ''c'' ''CC'' sample_l1) = [(''b'', ''BB''), (''c'', ''CC'')]
    \<and> l1_Get ''c'' (l1_Put ''c'' ''CC'' sample_l1) = Some ''CC''"
proof -
  have "l1_abs sample_l1 = [(''a'', ''AA''), (''b'', ''BB'')]" "mc_max sample_l1 = 5" "mc_maxObject sample_l1 = 4"
    "l1_Get ''c'' sample_l1 = None"
    by (simp_all add: sample_l1_def l1_Put_def Let_def newMemCacheWithObjectCap_def l1_abs_def l1_Get_def)
  then show ?thesis
    using l1_cache_is_a_bounded_fifo [OF sample_l1_wf, of "''c''" "''CC''"] sample_l1_wf
    by (simp add: fifo_put_def fifo_admits_def fifo_bytes_def)
qed

end
