(* ===== verification/L2_Cache.thy ===== *)
theory L2_Cache
  imports Prelude
begin

text \<open>
  The on-disk level of the worker's asset cache, \<open>renderinggen/internal/storage/l2.go\<close>: the index
  with its byte accounting, the one-time census of the files an earlier process left, the
  temp-file-and-rename installation, and the budget enforcement that evicts the least recently
  used entries from a bounded window. File system faults are arguments of the operations.
\<close>

section \<open>The file system and the index\<close>

text \<open>
  A path is the list of its components below \<open><dir>/assets\<close>. The kinds of operating system error
  are those the code tells apart.
\<close>

datatype fnode = Regular bytes gotime | NotRegular

datatype oserr = NotExist | PermissionDenied | InputOutput | OtherOSError

datatype l2_call = L2MkdirAll | L2CreateTemp | L2Sync | L2Close | L2Stat | L2Rename | L2Read

datatype l2_error =
    L2DirEmpty | L2OS oserr | L2SourceNotRegular | L2SizeMismatch | L2HashMismatch | L2ErrNotFound | L2Cancelled

type_synonym l2_faults = "l2_call \<Rightarrow> oserr option"

record cacheEntry =
  ce_size :: int
  ce_accessed :: gotime

record diskCache =
  dc_dir :: string
  dc_max :: int
  dc_entries :: "string \<rightharpoonup> cacheEntry"
  dc_total :: int
  dc_reconciled :: bool
  dc_readErrors :: int
  dc_corruptErrors :: int
  dc_files :: "string list \<rightharpoonup> fnode"

definition newDiskCache :: "string \<Rightarrow> int \<Rightarrow> (string list \<rightharpoonup> fnode) \<Rightarrow> diskCache" where
  "newDiskCache dir mx fs = \<lparr> dc_dir = dir, dc_max = mx, dc_entries = Map.empty, dc_total = 0,
     dc_reconciled = False, dc_readErrors = 0, dc_corruptErrors = 0, dc_files = fs \<rparr>"

definition l2_path :: "string \<Rightarrow> string list" where
  "l2_path key = [if length key > 2 then take 2 key else key, key]"

definition isCacheCorrupt :: "oserr \<Rightarrow> bool" where
  "isCacheCorrupt e \<longleftrightarrow> e = PermissionDenied \<or> e = InputOutput"

definition reportReadError :: "oserr \<Rightarrow> diskCache \<Rightarrow> diskCache" where
  "reportReadError e d =
     d\<lparr> dc_readErrors := dc_readErrors d + 1,
        dc_corruptErrors := dc_corruptErrors d + (if isCacheCorrupt e then 1 else 0) \<rparr>"

text \<open>\<open>os.Stat\<close> on the path of a key: the injected fault, or what is there.\<close>

definition l2_stat :: "l2_faults \<Rightarrow> string \<Rightarrow> diskCache \<Rightarrow> (oserr, fnode) result" where
  "l2_stat fault key d =
     (case fault L2Stat of
        Some e \<Rightarrow> Inl e
      | None \<Rightarrow> (case dc_files d (l2_path key) of None \<Rightarrow> Inl NotExist | Some f \<Rightarrow> Inr f))"

definition miss :: "oserr \<Rightarrow> diskCache \<Rightarrow> diskCache" where
  "miss e d = (if e = NotExist then d else reportReadError e d)"

section \<open>Reads\<close>

definition maxBytePathBytes :: int where "maxBytePathBytes = 64 * 2 ^ 20"

text \<open>
  Reading a directory entry that is not a regular file fails in \<open>os.ReadFile\<close>; its reported size is
  taken to be within the limit.
\<close>

definition l2_Get :: "l2_faults \<Rightarrow> gotime \<Rightarrow> string \<Rightarrow> diskCache \<Rightarrow> bytes option \<times> diskCache" where
  "l2_Get fault now key d =
     (case l2_stat fault key d of
        Inl e \<Rightarrow> (None, miss e d)
      | Inr NotRegular \<Rightarrow>
          (None, miss (case fault L2Read of Some e \<Rightarrow> e | None \<Rightarrow> OtherOSError) d)
      | Inr (Regular data mtime) \<Rightarrow>
          (if int (length data) > maxBytePathBytes then (None, d)
           else case fault L2Read of
             Some e \<Rightarrow> (None, miss e d)
           | None \<Rightarrow>
               (Some data, d\<lparr> dc_entries := (dc_entries d)(key \<mapsto>
                  \<lparr> ce_size = int (length data), ce_accessed = now \<rparr>) \<rparr>)))"

definition l2_Path :: "l2_faults \<Rightarrow> string \<Rightarrow> diskCache \<Rightarrow> string list option \<times> diskCache" where
  "l2_Path fault key d =
     (case l2_stat fault key d of
        Inl e \<Rightarrow> (None, miss e d)
      | Inr NotRegular \<Rightarrow>
          (None, d\<lparr> dc_corruptErrors := dc_corruptErrors d + 1, dc_readErrors := dc_readErrors d + 1 \<rparr>)
      | Inr (Regular data mtime) \<Rightarrow> (Some (l2_path key), d))"

definition ContextPath ::
  "l2_faults \<Rightarrow> bool \<Rightarrow> string \<Rightarrow> diskCache \<Rightarrow> (l2_error, string list \<times> int) result \<times> diskCache" where
  "ContextPath fault cancelled key d =
     (if cancelled then (Inl L2Cancelled, d)
      else case l2_Path fault key d of
        (None, d') \<Rightarrow> (Inl L2ErrNotFound, d')
      | (Some p, d') \<Rightarrow>
          (case dc_files d p of Some (Regular data _) \<Rightarrow> (Inr (p, int (length data)), d') | _ \<Rightarrow> (Inl (L2OS NotExist), d')))"

section \<open>The startup census\<close>

definition stagingNamePrefix :: string where "stagingNamePrefix = ''.install-''"

text \<open>
  The census keeps what the directory walk reports: the files, each with whether \<open>Info\<close> succeeded,
  in the order of the walk and up to the entry where it stopped.
\<close>

definition census_accepts :: "string list \<Rightarrow> bool" where
  "census_accepts p =
     (p \<noteq> [] \<and> take (length stagingNamePrefix) (last p) \<noteq> stagingNamePrefix \<and> length (last p) \<ge> 3
      \<and> length p \<ge> 2 \<and> last (butlast p) = take 2 (last p))"

fun census :: "(string list \<rightharpoonup> fnode) \<Rightarrow> (string list \<times> bool) list \<Rightarrow> (string \<times> int \<times> gotime) list" where
  "census fs [] = []"
| "census fs ((p, info) # walk) =
     (if census_accepts p \<and> info then
        (case fs p of
           Some (Regular data mtime) \<Rightarrow> (last p, int (length data), mtime) # census fs walk
         | _ \<Rightarrow> census fs walk)
      else census fs walk)"

fun index_found :: "(string \<times> int \<times> gotime) list \<Rightarrow> diskCache \<Rightarrow> diskCache" where
  "index_found [] d = d"
| "index_found ((key, sz, mtime) # files) d =
     (if key \<in> dom (dc_entries d) then index_found files d
      else index_found files
        (d\<lparr> dc_entries := (dc_entries d)(key \<mapsto> \<lparr> ce_size = sz, ce_accessed = mtime \<rparr>),
            dc_total := dc_total d + sz \<rparr>))"

definition reconcile :: "(string list \<times> bool) list \<Rightarrow> diskCache \<Rightarrow> diskCache" where
  "reconcile walk d = index_found (census (dc_files d) walk) d"

definition ensureIndexed :: "(string list \<times> bool) list \<Rightarrow> diskCache \<Rightarrow> diskCache" where
  "ensureIndexed walk d =
     (if dc_dir d = [] \<or> dc_max d \<le> 0 then d
      else if dc_reconciled d then d
      else (reconcile walk d)\<lparr> dc_reconciled := True \<rparr>)"

section \<open>Budget enforcement\<close>

definition evictionBatch :: nat where "evictionBatch = 64"

text \<open>
  The window is kept oldest first. A newcomer is placed by shifting the newer candidates one slot
  up from the end: \<open>shift_rev\<close> does it on the reversed window.
\<close>

type_synonym candidate = "string \<times> gotime"

fun shift_rev :: "candidate \<Rightarrow> candidate list \<Rightarrow> candidate list" where
  "shift_rev c [] = [c]"
| "shift_rev c (y # ys) = (if snd y > snd c then y # shift_rev c ys else c # y # ys)"

definition window_step :: "nat \<Rightarrow> candidate \<Rightarrow> candidate list \<Rightarrow> candidate list" where
  "window_step batch c oldest =
     (if length oldest = batch \<and> \<not> snd c < snd (last oldest) then oldest
      else
        (let slots = (if length oldest = batch then butlast oldest else oldest)
         in rev (shift_rev c (rev slots))))"

text \<open>\<open>ord\<close> is the order in which the runtime iterates the index.\<close>

definition eviction_window :: "string list \<Rightarrow> diskCache \<Rightarrow> candidate list" where
  "eviction_window ord d =
     fold (window_step evictionBatch) (map (\<lambda>k. (k, ce_accessed (the (dc_entries d k)))) ord) []"

text \<open>
  \<open>rm k\<close> is the result of unlinking the file of key \<open>k\<close> when there is one. The index entry goes
  whatever happens; the file goes when the call succeeds.
\<close>

fun evict_victims :: "(string \<Rightarrow> oserr option) \<Rightarrow> candidate list \<Rightarrow> diskCache \<Rightarrow> diskCache" where
  "evict_victims rm [] d = d"
| "evict_victims rm ((k, _) # victims) d =
     (if dc_total d \<le> dc_max d then d
      else case dc_entries d k of
        None \<Rightarrow> evict_victims rm victims d
      | Some entry \<Rightarrow>
          evict_victims rm victims
            (d\<lparr> dc_entries := (dc_entries d)(k := None), dc_total := dc_total d - ce_size entry,
                dc_files := (if rm k = None then (dc_files d)(l2_path k := None) else dc_files d) \<rparr>))"

definition enforceBudget :: "(string \<Rightarrow> oserr option) \<Rightarrow> string list \<Rightarrow> diskCache \<Rightarrow> diskCache" where
  "enforceBudget rm ord d =
     (if dc_total d \<le> dc_max d then d else evict_victims rm (eviction_window ord d) d)"

section \<open>Installation\<close>

text \<open>
  \<open>env\<close> holds what the run time and the file system decide: the census walk, the iteration order
  of the index for each set of keys, the faults, the results of the unlinks, the clock, and the
  name of the temporary file, which stays only when the commit renamed it.
\<close>

record l2_env =
  en_walk :: "(string list \<times> bool) list"
  en_order :: "string set \<Rightarrow> string list"
  en_fault :: l2_faults
  en_remove :: "string \<Rightarrow> oserr option"
  en_now :: gotime

definition commit_install :: "l2_env \<Rightarrow> string \<Rightarrow> bytes \<Rightarrow> diskCache \<Rightarrow> (l2_error, string list \<times> int) result \<times> diskCache" where
  "commit_install env key data d =
     (let fault = en_fault env; now = en_now env; p = l2_path key;
          vanished = (case dc_entries d key of
              None \<Rightarrow> d
            | Some prev \<Rightarrow> d\<lparr> dc_entries := (dc_entries d)(key := None), dc_total := dc_total d - ce_size prev \<rparr>)
      in case (dc_entries d key, l2_stat fault key d) of
           (Some prev, Inr _) \<Rightarrow>
             (Inr (p, ce_size prev), d\<lparr> dc_entries := (dc_entries d)(key \<mapsto> prev\<lparr> ce_accessed := now \<rparr>) \<rparr>)
         | _ \<Rightarrow>
             (case fault L2Rename of
                Some e \<Rightarrow> (Inl (L2OS e), vanished)
              | None \<Rightarrow>
                  (let sz = int (length data);
                       d1 = vanished\<lparr> dc_files := (dc_files vanished)(p \<mapsto> Regular data now),
                              dc_entries := (dc_entries vanished)(key \<mapsto> \<lparr> ce_size = sz, ce_accessed = now \<rparr>),
                              dc_total := dc_total vanished + sz \<rparr>;
                       d2 = (if dc_max d1 > 0 then enforceBudget (en_remove env) (en_order env (dom (dc_entries d1))) d1
                             else d1)
                   in (Inr (p, sz), d2))))"

definition install ::
  "l2_env \<Rightarrow> string \<Rightarrow> (l2_error, bytes) result \<Rightarrow> diskCache \<Rightarrow> (l2_error, string list \<times> int) result \<times> diskCache" where
  "install env key write d0 =
     (if dc_dir d0 = [] then (Inl L2DirEmpty, d0)
      else
        (let d = ensureIndexed (en_walk env) d0; fault = en_fault env in
         case fault L2MkdirAll of Some e \<Rightarrow> (Inl (L2OS e), d) | None \<Rightarrow>
         case fault L2CreateTemp of Some e \<Rightarrow> (Inl (L2OS e), d) | None \<Rightarrow>
         case write of Inl e \<Rightarrow> (Inl e, d) | Inr data \<Rightarrow>
         case fault L2Sync of Some e \<Rightarrow> (Inl (L2OS e), d) | None \<Rightarrow>
         case fault L2Close of Some e \<Rightarrow> (Inl (L2OS e), d) | None \<Rightarrow>
           commit_install env key data d))"

definition PutBytes ::
  "l2_env \<Rightarrow> string \<Rightarrow> oserr option \<Rightarrow> bytes \<Rightarrow> diskCache \<Rightarrow> (l2_error, string list \<times> int) result \<times> diskCache" where
  "PutBytes env key writeErr data d =
     install env key (case writeErr of Some e \<Rightarrow> Inl (L2OS e) | None \<Rightarrow> Inr data) d"

text \<open>The source file outside the cache: what \<open>os.Stat\<close> reports and what the copy yields.\<close>

definition l2_PutFile ::
  "l2_env \<Rightarrow> string \<Rightarrow> (oserr, fnode) result \<Rightarrow> oserr option \<Rightarrow> diskCache \<Rightarrow> (l2_error, string list \<times> int) result \<times> diskCache" where
  "l2_PutFile env key source copyErr d =
     (if dc_dir d = [] then (Inl L2DirEmpty, d)
      else case source of
        Inl e \<Rightarrow> (Inl (L2OS e), d)
      | Inr NotRegular \<Rightarrow> (Inl L2SourceNotRegular, d)
      | Inr (Regular data _) \<Rightarrow> install env key (case copyErr of Some e \<Rightarrow> Inl (L2OS e) | None \<Rightarrow> Inr data) d)"

definition InstallReader ::
  "(bytes \<Rightarrow> string) \<Rightarrow> l2_env \<Rightarrow> string \<Rightarrow> bytes \<times> oserr option \<Rightarrow> int \<Rightarrow> diskCache \<Rightarrow>
     (l2_error, string list \<times> int) result \<times> diskCache" where
  "InstallReader sha env key rd sz d =
     install env key
       (case snd rd of
          Some e \<Rightarrow> Inl (L2OS e)
        | None \<Rightarrow>
            (if sz \<ge> 0 \<and> int (length (fst rd)) \<noteq> sz then Inl L2SizeMismatch
             else if length key = 64 \<and> sha (fst rd) \<noteq> key then Inl L2HashMismatch
             else Inr (fst rd))) d"

definition l2_Put :: "l2_env \<Rightarrow> string \<Rightarrow> oserr option \<Rightarrow> bytes \<Rightarrow> diskCache \<Rightarrow> l2_error option \<times> diskCache" where
  "l2_Put env key writeErr data d =
     (if dc_dir d = [] then (None, d)
      else case PutBytes env key writeErr data d of (Inl e, d') \<Rightarrow> (Some e, d') | (Inr _, d') \<Rightarrow> (None, d'))"

section \<open>The window is the oldest entries\<close>

text \<open>Insertion after the entries that are not newer, and its relation to the library's stable sort.\<close>

fun insr :: "candidate \<Rightarrow> candidate list \<Rightarrow> candidate list" where
  "insr c [] = [c]"
| "insr c (y # ys) = (if snd y \<le> snd c then y # insr c ys else c # y # ys)"

lemma insort_insr: "insort_key snd x (insr c ys) = insr c (insort_key snd x ys)"
  by (induction ys) auto

lemma sort_key_snoc: "sort_key snd (xs @ [c]) = insr c (sort_key snd xs)"
  by (induction xs) (simp_all add: insort_insr)

lemma insr_snoc: "sorted (map snd (ys @ [y])) \<Longrightarrow>
    insr c (ys @ [y]) = (if snd y \<le> snd c then ys @ [y, c] else insr c ys @ [y])"
  by (induction ys) (auto simp: sorted_append)

lemma shift_rev_insr: "sorted (map snd w) \<Longrightarrow> rev (shift_rev c (rev w)) = insr c w"
proof (induction w rule: rev_induct)
  case (snoc y w)
  then have "rev (shift_rev c (rev w)) = insr c w" by (simp add: sorted_append)
  then show ?case using insr_snoc [OF snoc.prems] by auto
qed simp

lemma take_insr_beyond:
  assumes "sorted (map snd s)" and "n < length s" and "snd (s ! n) \<le> snd c"
  shows "take (Suc n) (insr c s) = take (Suc n) s"
  using assms
proof (induction s arbitrary: n)
  case (Cons y s)
  show ?case
  proof (cases n)
    case (Suc k)
    then have "snd y \<le> snd (s ! k)" using Cons.prems(1,2) by simp
    then have "snd y \<le> snd c" using Cons.prems(3) Suc by simp
    then show ?thesis using Suc Cons by simp
  qed (use Cons.prems in simp)
qed simp

lemma take_insr_within:
  assumes "sorted (map snd s)" and "n < length s" and "snd c < snd (s ! n)"
  shows "take (Suc n) (insr c s) = insr c (take n s)"
  using assms
proof (induction s arbitrary: n)
  case (Cons y s)
  show ?case
  proof (cases n)
    case (Suc k)
    then show ?thesis using Cons by (cases "snd y \<le> snd c") simp_all
  qed (use Cons.prems in simp)
qed simp

lemma insr_length [simp]: "length (insr c s) = Suc (length s)"
  by (induction s) auto

lemma window_step_take:
  assumes "sorted (map snd s)" and "batch > 0"
  shows "window_step batch c (take batch s) = take batch (insr c s)"
proof -
  obtain n where n: "batch = Suc n" using assms(2) gr0_conv_Suc by blast
  have sorted: "sorted (map snd (take m s))" for m using assms(1) by (simp add: sorted_wrt_take take_map [symmetric])
  show ?thesis
  proof (cases "n < length s")
    case False
    then show ?thesis using n shift_rev_insr [OF sorted, of c batch] by (simp add: window_step_def)
  next
    case True
    have len: "length (take batch s) = batch" using True n by simp
    have l: "last (take batch s) = s ! n" using True n by (simp add: take_Suc_conv_app_nth)
    have bl: "butlast (take batch s) = take n s" using True n by (simp add: butlast_take)
    show ?thesis
      unfolding window_step_def len l bl
      using take_insr_beyond [OF assms(1) True, of c] take_insr_within [OF assms(1) True, of c]
        shift_rev_insr [OF sorted, of c n] n by (cases "snd c < snd (s ! n)") simp_all
  qed
qed

lemma window_is_sorted_prefix:
  assumes "batch > 0"
  shows "fold (window_step batch) xs [] = take batch (sort_key snd xs)"
proof (induction xs rule: rev_induct)
  case (snoc c xs)
  then show ?case using window_step_take [OF sorted_sort_key assms, of c] by (simp add: sort_key_snoc)
qed simp

section \<open>Accounting\<close>

definition accounted :: "(string \<rightharpoonup> cacheEntry) \<Rightarrow> int" where
  "accounted e = (\<Sum>k\<in>dom e. ce_size (the (e k)))"

definition l2_exact :: "diskCache \<Rightarrow> bool" where
  "l2_exact d \<longleftrightarrow> finite (dom (dc_entries d)) \<and> (\<forall>k e. dc_entries d k = Some e \<longrightarrow> 0 \<le> ce_size e)
     \<and> dc_total d = accounted (dc_entries d)"

lemma accounted_add: "finite (dom e) \<Longrightarrow> k \<notin> dom e \<Longrightarrow> accounted (e(k \<mapsto> x)) = accounted e + ce_size x"
proof -
  assume "finite (dom e)" "k \<notin> dom e"
  moreover have "(\<Sum>j\<in>dom e. ce_size (the ((e(k \<mapsto> x)) j))) = accounted e"
    unfolding accounted_def using \<open>k \<notin> dom e\<close> by (intro sum.cong) auto
  ultimately show ?thesis by (simp add: accounted_def)
qed

lemma accounted_remove: "finite (dom e) \<Longrightarrow> e k = Some x \<Longrightarrow> accounted (e(k := None)) = accounted e - ce_size x"
proof -
  assume e: "finite (dom e)" "e k = Some x"
  have "accounted ((e(k := None))(k \<mapsto> x)) = accounted (e(k := None)) + ce_size x"
    using e by (intro accounted_add) auto
  moreover have "(e(k := None))(k \<mapsto> x) = e" using e(2) by auto
  ultimately show ?thesis by simp
qed

lemma accounted_touch: "e k = Some x \<Longrightarrow> ce_size y = ce_size x \<Longrightarrow> accounted (e(k \<mapsto> y)) = accounted e"
  unfolding accounted_def by (intro sum.cong) auto

lemma exact_forget:
  assumes "l2_exact d" and "dc_entries d k = Some x"
  shows "l2_exact (d\<lparr> dc_entries := (dc_entries d)(k := None), dc_total := dc_total d - ce_size x, dc_files := fs \<rparr>)"
  using assms by (auto simp: l2_exact_def accounted_remove)

lemma exact_add:
  assumes "l2_exact d" and "k \<notin> dom (dc_entries d)" and "0 \<le> ce_size x"
  shows "l2_exact (d\<lparr> dc_entries := (dc_entries d)(k \<mapsto> x), dc_total := dc_total d + ce_size x \<rparr>)"
  using assms by (auto simp: l2_exact_def accounted_add)

lemma l2_path_inj: "l2_path j = l2_path k \<longleftrightarrow> j = k"
  by (auto simp: l2_path_def)

text \<open>What the eviction loop does: it forgets a prefix of the victims, the shortest that meets the budget.\<close>

lemma evict_victims_spec:
  assumes "l2_exact d" and "distinct (map fst vs)" and "fst ` set vs \<subseteq> dom (dc_entries d)"
    and "d' = evict_victims rm vs d"
  obtains n where "n \<le> length vs" and "l2_exact d'" and "dc_max d' = dc_max d"
    and "dc_entries d' = dc_entries d |` (- fst ` set (take n vs))"
    and "dc_total d' \<le> dc_max d \<or> n = length vs"
    and "n > 0 \<Longrightarrow> dc_total d' + ce_size (the (dc_entries d (fst (vs ! (n - 1))))) > dc_max d"
    and "\<forall>p. p \<notin> l2_path ` fst ` set (take n vs) \<longrightarrow> dc_files d' p = dc_files d p"
    and "\<forall>k \<in> fst ` set (take n vs). rm k = None \<longrightarrow> dc_files d' (l2_path k) = None"
  using assms
proof (induction vs arbitrary: d thesis)
  case Nil
  then show ?case by (simp add: restrict_map_def)
next
  case (Cons v vs)
  obtain k a where v: "v = (k, a)" by fastforce
  obtain x where x: "dc_entries d k = Some x" using Cons.prems(4) v by auto
  show ?case
  proof (cases "dc_total d \<le> dc_max d")
    case True
    then show ?thesis using Cons.prems(1) [of 0] Cons.prems(2,5) v by (simp add: restrict_map_def)
  next
    case False
    define d1 where "d1 = d\<lparr> dc_entries := (dc_entries d)(k := None), dc_total := dc_total d - ce_size x,
      dc_files := (if rm k = None then (dc_files d)(l2_path k := None) else dc_files d) \<rparr>"
    have pre: "l2_exact d1" "distinct (map fst vs)" "fst ` set vs \<subseteq> dom (dc_entries d1)" "d' = evict_victims rm vs d1"
      using exact_forget [OF Cons.prems(2) x] Cons.prems(3,4,5) v x False by (auto simp: d1_def)
    obtain n where n: "n \<le> length vs" "l2_exact d'" "dc_max d' = dc_max d1"
      "dc_entries d' = dc_entries d1 |` (- fst ` set (take n vs))" "dc_total d' \<le> dc_max d1 \<or> n = length vs"
      "n > 0 \<Longrightarrow> dc_total d' + ce_size (the (dc_entries d1 (fst (vs ! (n - 1))))) > dc_max d1"
      "\<forall>p. p \<notin> l2_path ` fst ` set (take n vs) \<longrightarrow> dc_files d' p = dc_files d1 p"
      "\<forall>k \<in> fst ` set (take n vs). rm k = None \<longrightarrow> dc_files d' (l2_path k) = None"
      using Cons.IH [OF _ pre] by blast
    have kv: "k \<notin> fst ` set vs" using Cons.prems(3) v by simp
    then have kn: "k \<notin> fst ` set (take n vs)" using set_take_subset [of n vs] by blast
    then have kp: "l2_path k \<notin> l2_path ` fst ` set (take n vs)" by (metis (no_types, lifting) image_iff l2_path_inj)
    show ?thesis
    proof (rule Cons.prems(1) [of "Suc n"])
      show "dc_entries d' = dc_entries d |` (- fst ` set (take (Suc n) (v # vs)))"
        using n(4) v by (auto simp: d1_def restrict_map_def fun_eq_iff)
      show "dc_total d' + ce_size (the (dc_entries d (fst ((v # vs) ! (Suc n - 1))))) > dc_max d"
      proof (cases n)
        case 0
        then have "d' = d1 \<or> dc_total d' = dc_total d1" using n(2,4) pre(1) by (simp add: l2_exact_def restrict_map_def)
        then show ?thesis using 0 v x False by (auto simp: d1_def)
      next
        case (Suc j)
        then have "fst (vs ! j) \<noteq> k" using kv n(1) nth_mem [of j vs] by (metis Suc_le_lessD image_eqI)
        then show ?thesis using n(6) Suc by (simp add: d1_def)
      qed
      show "\<forall>p. p \<notin> l2_path ` fst ` set (take (Suc n) (v # vs)) \<longrightarrow> dc_files d' p = dc_files d p"
        using n(7) v by (auto simp: d1_def)
      show "\<forall>j \<in> fst ` set (take (Suc n) (v # vs)). rm j = None \<longrightarrow> dc_files d' (l2_path j) = None"
        using n(7) [rule_format, of "l2_path k"] n(8) v kp by (auto simp: d1_def)
    qed (use n(1,2,3,5) in \<open>auto simp: d1_def\<close>)
  qed
qed

section \<open>Eviction is least recently used first\<close>

definition accessed :: "diskCache \<Rightarrow> string \<Rightarrow> gotime" where
  "accessed d k = ce_accessed (the (dc_entries d k))"

definition evicted :: "diskCache \<Rightarrow> diskCache \<Rightarrow> string set" where
  "evicted d d' = dom (dc_entries d) - dom (dc_entries d')"

lemma eviction_window_eq:
  "eviction_window ord d = take evictionBatch (sort_key snd (map (\<lambda>k. (k, accessed d k)) ord))"
  unfolding eviction_window_def accessed_def by (rule window_is_sorted_prefix) (simp add: evictionBatch_def)

lemma sorted_take_drop_le:
  assumes "sorted (map f xs)" and "x \<in> set (take n xs)" and "y \<in> set (drop n xs)"
  shows "f x \<le> f y"
proof -
  have "sorted (map f (take n xs) @ map f (drop n xs))" using assms(1) by (simp flip: map_append)
  then show ?thesis using assms(2,3) by (auto simp: sorted_append)
qed

lemma dom_restrict_compl: "m' = m |` (- A) \<Longrightarrow> A \<subseteq> dom m \<Longrightarrow> dom m - dom m' = A"
  by (auto simp: dom_restrict)

lemma restrict_map_le: "m |` A \<subseteq>\<^sub>m m"
  by (auto simp: map_le_def restrict_map_def split: if_splits)

lemma enforceBudget_spec:
  assumes exact: "l2_exact d" and ord: "distinct ord" "set ord = dom (dc_entries d)"
    and d': "d' = enforceBudget rm ord d"
  shows "l2_exact d'" and "dc_max d' = dc_max d" and "dc_entries d' \<subseteq>\<^sub>m dc_entries d"
    and "\<forall>k \<in> evicted d d'. \<forall>j \<in> dom (dc_entries d'). accessed d k \<le> accessed d j"
    and "dc_total d' \<le> dc_max d \<or> card (evicted d d') = evictionBatch \<or> dc_entries d' = Map.empty"
    and "evicted d d' \<noteq> {} \<longrightarrow> (\<exists>k \<in> evicted d d'. (\<forall>j \<in> evicted d d'. accessed d j \<le> accessed d k)
      \<and> dc_total d' + ce_size (the (dc_entries d k)) > dc_max d)"
    and "\<forall>p. p \<notin> l2_path ` evicted d d' \<longrightarrow> dc_files d' p = dc_files d p"
    and "\<forall>k \<in> evicted d d'. rm k = None \<longrightarrow> dc_files d' (l2_path k) = None"
proof -
  let ?cs = "map (\<lambda>k. (k, accessed d k)) ord"
  let ?s = "sort_key snd ?cs" and ?w = "take evictionBatch (sort_key snd ?cs)"
  have keys: "distinct (map fst ?s)" "fst ` set ?s = dom (dc_entries d)"
    using ord by (auto simp: distinct_map inj_on_def image_image)
  have w: "distinct (map fst ?w)" "fst ` set ?w \<subseteq> dom (dc_entries d)"
    using keys(1) image_mono [OF set_take_subset [of evictionBatch ?s], of fst] keys(2)
    by (simp_all only: take_map [symmetric] distinct_take)
  have run: "d' = evict_victims rm ?w d"
    using d' by (cases "dc_total d \<le> dc_max d"; cases ?w) (auto simp: enforceBudget_def eviction_window_eq)
  obtain n where n: "n \<le> length ?w" "l2_exact d'" "dc_max d' = dc_max d"
    "dc_entries d' = dc_entries d |` (- fst ` set (take n ?w))" "dc_total d' \<le> dc_max d \<or> n = length ?w"
    "n > 0 \<Longrightarrow> dc_total d' + ce_size (the (dc_entries d (fst (?w ! (n - 1))))) > dc_max d"
    "\<forall>p. p \<notin> l2_path ` fst ` set (take n ?w) \<longrightarrow> dc_files d' p = dc_files d p"
    "\<forall>k \<in> fst ` set (take n ?w). rm k = None \<longrightarrow> dc_files d' (l2_path k) = None"
    using evict_victims_spec [OF exact w run] by blast
  have take_w: "take n ?w = take n ?s" using n(1) by (simp add: take_take min_absorb1)
  have ev: "evicted d d' = fst ` set (take n ?s)"
    unfolding evicted_def
    by (rule dom_restrict_compl) (use n(4) take_w image_mono [OF set_take_subset [of n ?s], of fst] keys(2) in simp_all)
  show "l2_exact d'" "dc_max d' = dc_max d" using n by simp_all
  show "dc_entries d' \<subseteq>\<^sub>m dc_entries d" unfolding n(4) by (rule restrict_map_le)
  show "\<forall>p. p \<notin> l2_path ` evicted d d' \<longrightarrow> dc_files d' p = dc_files d p" using n(7) ev take_w by simp
  show "\<forall>k \<in> evicted d d'. rm k = None \<longrightarrow> dc_files d' (l2_path k) = None" using n(8) ev take_w by simp
  have acc: "snd c = accessed d (fst c)" if "c \<in> set ?s" for c using that by auto
  have split: "set ?s = set (take n ?s) \<union> set (drop n ?s)" by (metis append_take_drop_id set_append)
  show "\<forall>k \<in> evicted d d'. \<forall>j \<in> dom (dc_entries d'). accessed d k \<le> accessed d j"
  proof (intro ballI)
    fix k j assume k: "k \<in> evicted d d'" and j: "j \<in> dom (dc_entries d')"
    obtain c where c: "c \<in> set (take n ?s)" "k = fst c" using k ev by auto
    have "j \<in> fst ` set ?s" "j \<notin> fst ` set (take n ?s)"
      using j unfolding n(4) take_w keys(2) by (simp_all only: dom_restrict Int_iff Compl_iff simp_thms)
    then obtain b where b: "b \<in> set (drop n ?s)" "j = fst b" using split by blast
    have "snd c \<le> snd b" by (rule sorted_take_drop_le [OF _ c(1) b(1)]) simp
    then show "accessed d k \<le> accessed d j" using acc [of c] acc [of b] b c split by auto
  qed
  have "card (evicted d d') = length (take n ?s)"
    using keys(1) unfolding ev by (metis distinct_card distinct_take list.set_map length_map take_map)
  then have card: "card (evicted d d') = n" using n(1) by simp
  show "dc_total d' \<le> dc_max d \<or> card (evicted d d') = evictionBatch \<or> dc_entries d' = Map.empty"
  proof (cases "n = length ?w \<and> length ?s < evictionBatch")
    case True
    then have "take n ?s = ?s" by simp
    then show ?thesis using n(4) take_w keys(2) by (auto simp: restrict_map_def fun_eq_iff)
  qed (use n(5) card in auto)
  show "evicted d d' \<noteq> {} \<longrightarrow> (\<exists>k \<in> evicted d d'. (\<forall>j \<in> evicted d d'. accessed d j \<le> accessed d k)
      \<and> dc_total d' + ce_size (the (dc_entries d k)) > dc_max d)"
  proof
    assume "evicted d d' \<noteq> {}"
    then have pos: "n > 0" using ev by (cases n) auto
    have len: "n \<le> length ?s" and wn: "?w ! (n - 1) = ?s ! (n - 1)" using n(1) pos by auto
    let ?v = "?s ! (n - 1)"
    have v: "?v \<in> set (take n ?s)" using pos len by (auto simp: in_set_conv_nth intro!: exI [of _ "n - 1"])
    have newest: "snd c \<le> snd ?v" if "c \<in> set (take n ?s)" for c
    proof -
      obtain i where "i < n" "c = ?s ! i" using \<open>c \<in> set (take n ?s)\<close> by (auto simp: in_set_conv_nth)
      then show ?thesis using sorted_nth_mono [of "map snd ?s" i "n - 1"] len by simp
    qed
    have "accessed d (fst c) \<le> accessed d (fst ?v)" if "c \<in> set (take n ?s)" for c
      using newest [OF that] acc [of c] acc [of ?v] that v split by auto
    then show "\<exists>k \<in> evicted d d'. (\<forall>j \<in> evicted d d'. accessed d j \<le> accessed d k)
        \<and> dc_total d' + ce_size (the (dc_entries d k)) > dc_max d"
      using n(6) [OF pos] v unfolding ev wn by (intro bexI [of _ "fst ?v"]) auto
  qed
qed

section \<open>Installation keeps the accounting\<close>

text \<open>The runtime visits every index entry once, in an order of its own.\<close>

definition fair_order :: "l2_env \<Rightarrow> bool" where
  "fair_order env \<longleftrightarrow> (\<forall>S. finite S \<longrightarrow> distinct (en_order env S) \<and> set (en_order env S) = S)"

lemma census_sizes: "(k, sz, t) \<in> set (census fs walk) \<Longrightarrow> 0 \<le> sz"
  by (induction walk rule: census.induct) (auto split: if_splits option.splits fnode.splits)

lemma index_found_exact:
  "l2_exact d \<Longrightarrow> \<forall>(k, sz, t) \<in> set files. 0 \<le> sz \<Longrightarrow> l2_exact (index_found files d)"
proof (induction files d rule: index_found.induct)
  case (2 key sz mtime files d)
  then show ?case using exact_add [OF 2(3), of key "\<lparr> ce_size = sz, ce_accessed = mtime \<rparr>"] by auto
qed simp

lemma index_found_fields [simp]:
  "dc_max (index_found files d) = dc_max d" "dc_dir (index_found files d) = dc_dir d"
  "dc_files (index_found files d) = dc_files d"
  by (induction files d rule: index_found.induct) auto

lemma ensureIndexed_fields [simp]:
  "dc_max (ensureIndexed walk d) = dc_max d" "dc_dir (ensureIndexed walk d) = dc_dir d"
  "dc_files (ensureIndexed walk d) = dc_files d"
  by (simp_all add: ensureIndexed_def reconcile_def)

lemma exact_reconciled [simp]: "l2_exact (d\<lparr> dc_reconciled := b \<rparr>) = l2_exact d"
  by (simp add: l2_exact_def)

lemma ensureIndexed_exact: "l2_exact d \<Longrightarrow> l2_exact (ensureIndexed walk d)"
  using census_sizes by (auto simp: ensureIndexed_def reconcile_def intro!: index_found_exact)

text \<open>The index as the commit sees it once a vanished entry is forgotten, and with the new object in it.\<close>

definition forget_key :: "string \<Rightarrow> diskCache \<Rightarrow> diskCache" where
  "forget_key key d =
     (case dc_entries d key of
        None \<Rightarrow> d
      | Some prev \<Rightarrow> d\<lparr> dc_entries := (dc_entries d)(key := None), dc_total := dc_total d - ce_size prev \<rparr>)"

definition with_object :: "string \<Rightarrow> bytes \<Rightarrow> gotime \<Rightarrow> diskCache \<Rightarrow> diskCache" where
  "with_object key data now d =
     d\<lparr> dc_files := (dc_files d)(l2_path key \<mapsto> Regular data now),
        dc_entries := (dc_entries d)(key \<mapsto> \<lparr> ce_size = int (length data), ce_accessed = now \<rparr>),
        dc_total := dc_total d + int (length data) \<rparr>"

lemma forget_key_exact: "l2_exact d \<Longrightarrow> l2_exact (forget_key key d)"
  using exact_forget [of d key _ "dc_files d"] by (auto simp: forget_key_def split: option.split)

lemma forget_key_fields [simp]:
  "key \<notin> dom (dc_entries (forget_key key d))" "dc_max (forget_key key d) = dc_max d"
  "dc_files (forget_key key d) = dc_files d"
  "j \<noteq> key \<Longrightarrow> dc_entries (forget_key key d) j = dc_entries d j"
  by (auto simp: forget_key_def split: option.split)

lemma with_object_exact: "l2_exact d \<Longrightarrow> key \<notin> dom (dc_entries d) \<Longrightarrow> l2_exact (with_object key data now d)"
  using exact_add [of d key "\<lparr> ce_size = int (length data), ce_accessed = now \<rparr>"]
  by (simp add: with_object_def l2_exact_def)

text \<open>The three outcomes of the commit.\<close>

lemma commit_install_cases:
  obtains (present) prev where "dc_entries d key = Some prev" "\<exists>f. dc_files d (l2_path key) = Some f"
      "commit_install env key data d = (Inr (l2_path key, ce_size prev),
         d\<lparr> dc_entries := (dc_entries d)(key \<mapsto> prev\<lparr> ce_accessed := en_now env \<rparr>) \<rparr>)"
  | (failed) e where "commit_install env key data d = (Inl (L2OS e), forget_key key d)"
  | (installed) d1 where "d1 = with_object key data (en_now env) (forget_key key d)"
      "commit_install env key data d = (Inr (l2_path key, int (length data)),
         if dc_max d > 0 then enforceBudget (en_remove env) (en_order env (dom (dc_entries d1))) d1 else d1)"
proof -
  consider (p) prev f where "dc_entries d key = Some prev" "l2_stat (en_fault env) key d = Inr f"
    | (q) "commit_install env key data d =
        (case en_fault env L2Rename of
           Some e \<Rightarrow> (Inl (L2OS e), forget_key key d)
         | None \<Rightarrow>
             (let d1 = with_object key data (en_now env) (forget_key key d)
              in (Inr (l2_path key, int (length data)),
                  if dc_max d1 > 0 then enforceBudget (en_remove env) (en_order env (dom (dc_entries d1))) d1 else d1)))"
    by (cases "dc_entries d key"; cases "l2_stat (en_fault env) key d")
       (auto simp: commit_install_def forget_key_def with_object_def Let_def split: option.split)
  then show thesis
  proof cases
    case p
    then show ?thesis using present
      by (auto simp: commit_install_def Let_def l2_stat_def split: option.splits)
  next
    case q
    then show ?thesis using failed installed
      by (cases "en_fault env L2Rename") (auto simp: Let_def with_object_def)
  qed
qed

lemma commit_install_exact:
  assumes exact: "l2_exact d" and env: "fair_order env"
  shows "l2_exact (snd (commit_install env key data d))"
proof (cases rule: commit_install_cases [where env = env and key = key and data = data and d = d])
  case (present prev)
  then show ?thesis using exact by (auto simp: l2_exact_def accounted_touch)
next
  case (failed e)
  then show ?thesis using forget_key_exact [OF exact] by simp
next
  case (installed d1)
  have d1: "l2_exact d1" using with_object_exact [OF forget_key_exact [OF exact]] installed(1) by simp
  then have "distinct (en_order env (dom (dc_entries d1)))" "set (en_order env (dom (dc_entries d1))) = dom (dc_entries d1)"
    using env by (auto simp: fair_order_def l2_exact_def)
  then show ?thesis using installed(2) d1 enforceBudget_spec(1) [OF d1] by simp
qed

lemma install_outcomes:
  "install env key body d = (Inl L2DirEmpty, d)
    \<or> (\<exists>e. install env key body d = (Inl e, ensureIndexed (en_walk env) d))
    \<or> (\<exists>data. body = Inr data \<and> install env key body d = commit_install env key data (ensureIndexed (en_walk env) d))"
  by (auto simp: install_def Let_def split: option.split sum.split)

lemma install_cases:
  obtains (disabled) "install env key body d = (Inl L2DirEmpty, d)"
  | (failed) e where "install env key body d = (Inl e, ensureIndexed (en_walk env) d)"
  | (commit) data where "body = Inr data"
      "install env key body d = commit_install env key data (ensureIndexed (en_walk env) d)"
  using install_outcomes [of env key body d] by blast

text \<open>The most recently used entry survives a pass when it fits the budget on its own.\<close>

lemma newest_survives:
  assumes exact: "l2_exact d" and ord: "distinct ord" "set ord = dom (dc_entries d)"
    and d': "d' = enforceBudget rm ord d" and key: "dc_entries d key = Some x" and fits: "ce_size x \<le> dc_max d"
    and newest: "\<And>j. j \<in> dom (dc_entries d) \<Longrightarrow> j \<noteq> key \<Longrightarrow> accessed d j < accessed d key"
  shows "dc_entries d' key = Some x" and "dc_files d' (l2_path key) = dc_files d (l2_path key)"
proof -
  note spec = enforceBudget_spec [OF exact ord d']
  have "key \<notin> evicted d d'"
  proof
    assume ev: "key \<in> evicted d d'"
    obtain k where k: "k \<in> evicted d d'" "\<forall>j \<in> evicted d d'. accessed d j \<le> accessed d k"
      "dc_total d' + ce_size (the (dc_entries d k)) > dc_max d" using spec(6) ev by blast
    have "k = key" using k(1,2) ev newest [of k] by (force simp: evicted_def)
    moreover have "dom (dc_entries d') = {}"
    proof (rule ccontr)
      assume "dom (dc_entries d') \<noteq> {}"
      then obtain j where j: "j \<in> dom (dc_entries d')" by blast
      then have "accessed d key \<le> accessed d j" "j \<noteq> key" "j \<in> dom (dc_entries d)"
        using spec(4) ev map_le_implies_dom_le [OF spec(3)] by (auto simp: evicted_def)
      then show False using newest [of j] by simp
    qed
    ultimately show False using k(3) key fits spec(1) by (simp add: l2_exact_def accounted_def)
  qed
  then have "key \<in> dom (dc_entries d')" and "l2_path key \<notin> l2_path ` evicted d d'"
    using key by (auto simp: evicted_def l2_path_inj)
  then show "dc_entries d' key = Some x" and "dc_files d' (l2_path key) = dc_files d (l2_path key)"
    using spec(3,7) key by (simp_all add: map_le_def)
qed

section \<open>Correctness\<close>

text \<open>
  One pass of budget enforcement, from an exact index and whatever order the runtime visits
  the index in. The index stays exact. The entries removed are never more recently used than
  an entry kept, and are no more than needed: before the most recently used of them was removed
  the cache was over budget. The pass ends within the budget unless it removed a whole batch of 64. Files
  of kept entries are untouched; the file of a removed entry is gone when the unlink succeeds.
\<close>

theorem eviction_is_least_recently_used:
  assumes "l2_exact d" and "distinct ord" and "set ord = dom (dc_entries d)" and "0 \<le> dc_max d"
    and "d' = enforceBudget rm ord d"
  shows "l2_exact d' \<and> dc_entries d' \<subseteq>\<^sub>m dc_entries d
    \<and> (\<forall>k \<in> evicted d d'. \<forall>j \<in> dom (dc_entries d'). accessed d k \<le> accessed d j)
    \<and> (evicted d d' \<noteq> {} \<longrightarrow> (\<exists>k \<in> evicted d d'. (\<forall>j \<in> evicted d d'. accessed d j \<le> accessed d k)
          \<and> dc_total d' + ce_size (the (dc_entries d k)) > dc_max d))
    \<and> (dc_total d' \<le> dc_max d \<or> card (evicted d d') = 64)
    \<and> (\<forall>p. p \<notin> l2_path ` evicted d d' \<longrightarrow> dc_files d' p = dc_files d p)
    \<and> (\<forall>k \<in> evicted d d'. rm k = None \<longrightarrow> dc_files d' (l2_path k) = None)"
proof -
  note spec = enforceBudget_spec [OF assms(1-3,5)]
  have "dc_total d' \<le> dc_max d" if "dc_entries d' = Map.empty"
    using spec(1) that assms(4) by (simp add: l2_exact_def accounted_def)
  then show ?thesis using spec(1,3,4,6,7,8) spec(5) unfolding evictionBatch_def by blast
qed

text \<open>
  Every installation, whatever fails on the way, keeps the index exact: the accounted total is
  the sum of the sizes of the indexed entries.
\<close>

theorem installs_keep_the_accounting_exact:
  assumes "l2_exact d" and "fair_order env"
  shows "l2_exact (snd (install env key body d))"
proof (cases rule: install_cases [where env = env and key = key and body = body and d = d])
  case (commit data)
  then show ?thesis using commit_install_exact [OF ensureIndexed_exact [OF assms(1)] assms(2)] by simp
qed (use assms(1) ensureIndexed_exact in auto)

text \<open>
  A successful installation hands out a path with the bytes behind it, when the object fits the
  budget and the clock is past the access times in the index. The object is indexed under its
  size; when the index did not know the key, the file holds exactly the installed bytes.
\<close>

theorem installed_object_is_readable:
  assumes "l2_exact d" and "fair_order env" and "dc_max d > 0 \<longrightarrow> int (length data) \<le> dc_max d"
    and old: "\<forall>k e. dc_entries (ensureIndexed (en_walk env) d) k = Some e \<longrightarrow> ce_accessed e < en_now env"
    and ok: "install env key (Inr data) d = (Inr (p, n), d')"
  shows "p = l2_path key \<and> key \<in> dom (dc_entries d') \<and> n = ce_size (the (dc_entries d' key)) \<and> dc_files d' p \<noteq> None
    \<and> (key \<notin> dom (dc_entries (ensureIndexed (en_walk env) d)) \<longrightarrow>
         dc_files d' p = Some (Regular data (en_now env)) \<and> n = int (length data))"
proof -
  let ?d = "ensureIndexed (en_walk env) d"
  have run: "commit_install env key data ?d = (Inr (p, n), d')"
    using ok by (cases rule: install_cases [where env = env and key = key and body = "Inr data" and d = d]) auto
  show ?thesis
  proof (cases rule: commit_install_cases [where env = env and key = key and data = data and d = ?d])
    case (present prev)
    then show ?thesis using run by auto
  next
    case (failed e)
    then show ?thesis using run by simp
  next
    case (installed d1)
    have d1: "l2_exact d1"
      using with_object_exact [OF forget_key_exact [OF ensureIndexed_exact [OF assms(1)]]] installed(1) by simp
    have new: "dc_entries d1 key = Some \<lparr> ce_size = int (length data), ce_accessed = en_now env \<rparr>"
      "dc_files d1 (l2_path key) = Some (Regular data (en_now env))" "dc_max d1 = dc_max d"
      using installed(1) by (simp_all add: with_object_def)
    have others: "accessed d1 j < en_now env" if "j \<in> dom (dc_entries d1)" "j \<noteq> key" for j
      using that installed(1) old by (auto simp: with_object_def accessed_def)
    have self: "accessed d1 key = en_now env" using new(1) by (simp add: accessed_def)
    have res: "p = l2_path key" "n = int (length data)" using run installed(2) by simp_all
    have ord: "distinct (en_order env (dom (dc_entries d1)))" "set (en_order env (dom (dc_entries d1))) = dom (dc_entries d1)"
      using assms(2) d1 by (auto simp: fair_order_def l2_exact_def)
    have "dc_entries d' key = dc_entries d1 key \<and> dc_files d' (l2_path key) = dc_files d1 (l2_path key)"
      using run installed(2) newest_survives [OF d1 ord _ new(1)] others self new assms(3) by (cases "dc_max d > 0") auto
    then show ?thesis using new res by auto
  qed
qed

text \<open>A cache of five bytes over a directory with one object of an earlier process.\<close>

definition no_faults :: "gotime \<Rightarrow> l2_env" where
  "no_faults now = \<lparr> en_walk = [([''ab'', ''abc''], True)], en_order = (\<lambda>S. sorted_list_of_set S),
     en_fault = (\<lambda>_. None), en_remove = (\<lambda>_. None), en_now = now \<rparr>"

definition sample_l2 :: diskCache where
  "sample_l2 = newDiskCache ''/cache'' 5 [[''ab'', ''abc''] \<mapsto> Regular ''AAAA'' 3]"

lemma no_faults_fair: "fair_order (no_faults now)"
  by (simp add: fair_order_def no_faults_def)

lemma sample_l2_exact: "l2_exact sample_l2"
  by (simp add: l2_exact_def sample_l2_def newDiskCache_def accounted_def)

lemmas l2_eval = no_faults_def sample_l2_def newDiskCache_def install_def ensureIndexed_def reconcile_def
  census_accepts_def stagingNamePrefix_def commit_install_def l2_stat_def enforceBudget_def eviction_window_def
  window_step_def evictionBatch_def l2_path_def PutBytes_def l2_Get_def maxBytePathBytes_def Let_def

lemma sample_l2_indexed:
  "dc_entries (ensureIndexed (en_walk (no_faults 9)) sample_l2) = [''abc'' \<mapsto> \<lparr> ce_size = 4, ce_accessed = 3 \<rparr>]"
  by (simp add: l2_eval)

theorem installs_keep_the_accounting_exact_witness:
  "l2_exact sample_l2 \<and> fair_order (no_faults 9) \<and> l2_exact (snd (install (no_faults 9) ''xyz'' (Inr ''BB'') sample_l2))"
  using installs_keep_the_accounting_exact [OF sample_l2_exact no_faults_fair] sample_l2_exact no_faults_fair by blast

lemma sample_l2_install:
  "install (no_faults 9) ''xyz'' (Inr ''BB'') sample_l2 =
     (Inr ([''xy'', ''xyz''], 2),
      sample_l2\<lparr> dc_reconciled := True, dc_total := 2,
        dc_entries := [''xyz'' \<mapsto> \<lparr> ce_size = 2, ce_accessed = 9 \<rparr>],
        dc_files := [[''xy'', ''xyz''] \<mapsto> Regular ''BB'' 9] \<rparr>)"
  by (simp add: l2_eval insert_commute fun_eq_iff)

theorem installed_object_is_readable_witness:
  "dc_files (snd (install (no_faults 9) ''xyz'' (Inr ''BB'') sample_l2)) [''xy'', ''xyz''] = Some (Regular ''BB'' 9)"
proof -
  have "dc_files (snd (install (no_faults 9) ''xyz'' (Inr ''BB'') sample_l2)) [''xy'', ''xyz''] = Some (Regular ''BB'' (en_now (no_faults 9)))"
    using installed_object_is_readable [OF sample_l2_exact no_faults_fair _ _ sample_l2_install]
    by (simp add: sample_l2_indexed sample_l2_install) (simp add: no_faults_def sample_l2_def newDiskCache_def)
  then show ?thesis by (simp add: no_faults_def)
qed

text \<open>Two entries of four and two bytes over a budget of five: the older one goes.\<close>

definition over_budget :: diskCache where
  "over_budget = \<lparr> dc_dir = ''/cache'', dc_max = 5,
     dc_entries = [''new'' \<mapsto> \<lparr> ce_size = 2, ce_accessed = 9 \<rparr>, ''old'' \<mapsto> \<lparr> ce_size = 4, ce_accessed = 3 \<rparr>],
     dc_total = 6, dc_reconciled = True, dc_readErrors = 0, dc_corruptErrors = 0,
     dc_files = [[''ne'', ''new''] \<mapsto> Regular ''BB'' 9, [''ol'', ''old''] \<mapsto> Regular ''AAAA'' 3] \<rparr>"

lemma over_budget_exact:
  "l2_exact over_budget" "set [''new'', ''old''] = dom (dc_entries over_budget)"
  by (auto simp: l2_exact_def over_budget_def accounted_def split: if_splits)

theorem eviction_is_least_recently_used_witness:
  "evicted over_budget (enforceBudget (\<lambda>_. None) [''new'', ''old''] over_budget) = {''old''}
    \<and> dc_files (enforceBudget (\<lambda>_. None) [''new'', ''old''] over_budget) [''ol'', ''old''] = None
    \<and> l2_exact (enforceBudget (\<lambda>_. None) [''new'', ''old''] over_budget)"
proof -
  let ?d = "enforceBudget (\<lambda>_. None) [''new'', ''old''] over_budget"
  have ev: "evicted over_budget ?d = {''old''}"
    by (auto simp: evicted_def over_budget_def l2_eval split: if_splits)
  have "l2_exact ?d \<and> (\<forall>k \<in> evicted over_budget ?d. (\<lambda>_. None) k = None \<longrightarrow> dc_files ?d (l2_path k) = None)"
    using eviction_is_least_recently_used [OF over_budget_exact(1) _ over_budget_exact(2) _ refl, of "\<lambda>_. None"]
    by (simp add: over_budget_def)
  then show ?thesis unfolding ev by (simp add: l2_path_def)
qed

section \<open>Where the cache departs from what it promises\<close>

text \<open>
  A byte-path read puts the object it finds on disk into the index without adding its size to the
  total, and the census then skips it as already indexed. Its bytes are never counted against
  the budget: here a cache of five bytes keeps seven and believes it holds three.
\<close>

lemma read_hides_bytes_from_the_budget:
  "let d = snd (l2_Get (\<lambda>_. None) 5 ''abc'' sample_l2);
       d' = snd (install (no_faults 9) ''xyz'' (Inr ''BBB'') d)
   in \<not> l2_exact d \<and> accounted (dc_entries d') = 7 \<and> dc_total d' = 3 \<and> dc_max d' = 5
      \<and> dc_files d' [''ab'', ''abc''] = Some (Regular ''AAAA'' 3)
      \<and> dc_files d' [''xy'', ''xyz''] = Some (Regular ''BBB'' 9)"
proof -
  define d where "d = snd (l2_Get (\<lambda>_. None) 5 ''abc'' sample_l2)"
  have d: "d = sample_l2\<lparr> dc_entries := [''abc'' \<mapsto> \<lparr> ce_size = 4, ce_accessed = 5 \<rparr>] \<rparr>"
    by (simp add: d_def l2_eval)
  have d': "snd (install (no_faults 9) ''xyz'' (Inr ''BBB'') d) =
    sample_l2\<lparr> dc_reconciled := True, dc_total := 3,
      dc_entries := [''abc'' \<mapsto> \<lparr> ce_size = 4, ce_accessed = 5 \<rparr>, ''xyz'' \<mapsto> \<lparr> ce_size = 3, ce_accessed = 9 \<rparr>],
      dc_files := [[''ab'', ''abc''] \<mapsto> Regular ''AAAA'' 3, [''xy'', ''xyz''] \<mapsto> Regular ''BBB'' 9] \<rparr>"
    unfolding d by (simp add: l2_eval)
  show ?thesis
    unfolding d_def [symmetric] d' Let_def
    by (simp add: d l2_exact_def accounted_def sample_l2_def newDiskCache_def)
qed

text \<open>
  An object larger than the whole budget is evicted by the very installation that wrote it, which
  still answers with the path: the caller is handed a path with no file behind it.
\<close>

lemma oversized_install_hands_out_a_dangling_path:
  "let (r, d') = install (no_faults 9) ''xyz'' (Inr ''BBBBBB'') sample_l2
   in r = Inr ([''xy'', ''xyz''], 6) \<and> dc_files d' [''xy'', ''xyz''] = None"
  by (simp add: l2_eval insert_commute)

text \<open>
  The census looks at the name of the directory a file is in and not at where that directory is: a
  file nested deeper is indexed under a key whose path is another one.
\<close>

lemma census_indexes_foreign_files:
  "census [[''x'', ''ab'', ''abc''] \<mapsto> Regular ''AA'' 3] [([''x'', ''ab'', ''abc''], True)] = [(''abc'', 2, 3)]
    \<and> l2_path ''abc'' \<noteq> [''x'', ''ab'', ''abc'']"
  by (simp add: census_accepts_def stagingNamePrefix_def l2_path_def)

end
