(* ===== verification/Storage_Client.thy ===== *)
theory Storage_Client
  imports L1_Cache L2_Cache
begin

text \<open>
  The worker's asset client, \<open>renderinggen/internal/storage/storage.go\<close>: resolution through memory,
  disk and the central store, with at most one fetch in flight per object. The central store is a
  parameter: its answers are arguments of the steps that ask it. A call that may block is split
  where it blocks, so that calls of several goroutines interleave as sequences of steps.
\<close>

section \<open>One fetch in flight per object\<close>

text \<open>
  The contract of the two in-flight tables: the first caller of an object leads and registers a
  call, later callers follow that call, and finishing publishes the result and unregisters it.
\<close>

locale single_flight =
  fixes ids :: "'s \<Rightarrow> bool"
    and registered :: "'s \<Rightarrow> string \<Rightarrow> nat option"
    and call :: "'s \<Rightarrow> nat \<Rightarrow> (string \<times> 'r option) option"
    and start :: "string \<Rightarrow> 's \<Rightarrow> (nat \<times> bool) \<times> 's"
    and finish :: "string \<Rightarrow> nat \<Rightarrow> 'r \<Rightarrow> 's \<Rightarrow> 's"
  assumes start_follow: "registered s h = Some c \<Longrightarrow> start h s = ((c, False), s)"
    and start_lead: "ids s \<Longrightarrow> registered s h = None \<Longrightarrow>
      \<exists>c s'. start h s = ((c, True), s') \<and> ids s' \<and> call s c = None
        \<and> registered s' = (registered s)(h := Some c) \<and> call s' = (call s)(c := Some (h, None))"
    and finish_ids: "ids s \<Longrightarrow> call s c \<noteq> None \<Longrightarrow> ids (finish h c r s)"
    and finish_registered: "registered (finish h c r s) = (registered s)(h := None)"
    and finish_call: "call (finish h c r s) = (call s)(c := Some (h, Some r))"
begin

definition flights_ok :: "'s \<Rightarrow> bool" where
  "flights_ok s \<longleftrightarrow> ids s \<and> (\<forall>h c. registered s h = Some c \<longleftrightarrow> call s c = Some (h, None))"

lemma start_keeps: "flights_ok s \<Longrightarrow> flights_ok (snd (start h s))"
proof (cases "registered s h")
  case None
  assume ok: "flights_ok s"
  then obtain c s' where s': "start h s = ((c, True), s')" "ids s'" "call s c = None"
    "registered s' = (registered s)(h := Some c)" "call s' = (call s)(c := Some (h, None))"
    using ok None start_lead [of s h] unfolding flights_ok_def by blast
  have "call s c' \<noteq> Some (h, None)" for c' using ok None unfolding flights_ok_def by (metis option.distinct(1))
  then show ?thesis using ok s' unfolding flights_ok_def by auto
qed (simp add: start_follow)

lemma finish_keeps: "flights_ok s \<Longrightarrow> call s c = Some (h, None) \<Longrightarrow> flights_ok (finish h c r s)"
proof -
  assume ok: "flights_ok s" "call s c = Some (h, None)"
  have "call s c' \<noteq> Some (h, None)" if "c' \<noteq> c" for c' using ok that unfolding flights_ok_def by (metis option.inject)
  then have "((registered s)(h := None)) h' = Some c' \<longleftrightarrow> ((call s)(c := Some (h, Some r))) c' = Some (h', None)" for h' c'
    using ok unfolding flights_ok_def by (cases "h' = h"; cases "c' = c") auto
  then show ?thesis
    using ok finish_ids [of s c h r] unfolding flights_ok_def finish_registered finish_call by simp
qed

lemma one_leader: "flights_ok s \<Longrightarrow> call s c = Some (h, None) \<Longrightarrow> call s c' = Some (h, None) \<Longrightarrow> c = c'"
  unfolding flights_ok_def by (metis option.inject)

lemma leads_only_when_idle:
  assumes "flights_ok s" and "start h s = ((c, True), s')"
  shows "registered s h = None" and "call s' c = Some (h, None)"
proof -
  show none: "registered s h = None" using assms(2) start_follow by (cases "registered s h") auto
  then show "call s' c = Some (h, None)" using assms start_lead [of s h] by (auto simp: flights_ok_def)
qed

end

section \<open>The client\<close>

datatype storage_error =
    ErrNotFound | BackendError | HashMismatch | LocalFileError | StreamingUnsupported | ContextCancelled
  | SourceError | L2Failure l2_error | Unauthorized | ErrContentAddressRejected | StagingSessionRequired
  | StagedUploadRefused | StagedDigestMismatch

record Client =
  cl_l1 :: memCache
  cl_l2 :: diskCache
  cl_l1Hits :: int
  cl_l2Hits :: int
  cl_l3Fetches :: int
  cl_l2PutErrors :: int
  cl_inflight :: "string \<rightharpoonup> nat"
  cl_calls :: "nat \<rightharpoonup> string \<times> (storage_error, bytes) result option"
  cl_pathInflight :: "string \<rightharpoonup> nat"
  cl_pathCalls :: "nat \<rightharpoonup> string \<times> (storage_error, string list \<times> int) result option"
  cl_next :: nat

definition New_client :: "int \<Rightarrow> string \<Rightarrow> int \<Rightarrow> (string list \<rightharpoonup> fnode) \<Rightarrow> Client" where
  "New_client l1Max l2Dir l2Max fs = \<lparr> cl_l1 = newMemCache l1Max, cl_l2 = newDiskCache l2Dir l2Max fs,
     cl_l1Hits = 0, cl_l2Hits = 0, cl_l3Fetches = 0, cl_l2PutErrors = 0, cl_inflight = Map.empty,
     cl_calls = Map.empty, cl_pathInflight = Map.empty, cl_pathCalls = Map.empty, cl_next = 0 \<rparr>"

record CacheStats =
  cs_L1Hits :: int
  cs_L2Hits :: int
  cs_L3Fetches :: int
  cs_L2PutErrors :: int
  cs_L2ReadErrors :: int
  cs_L2Corrupt :: int

definition cl_Stats :: "Client \<Rightarrow> CacheStats" where
  "cl_Stats c = \<lparr> cs_L1Hits = cl_l1Hits c, cs_L2Hits = cl_l2Hits c, cs_L3Fetches = cl_l3Fetches c,
     cs_L2PutErrors = cl_l2PutErrors c, cs_L2ReadErrors = dc_readErrors (cl_l2 c),
     cs_L2Corrupt = dc_corruptErrors (cl_l2 c) \<rparr>"

text \<open>The addresses of the call objects are numbers; a fresh one is allocated per call.\<close>

definition startFetch :: "string \<Rightarrow> Client \<Rightarrow> (nat \<times> bool) \<times> Client" where
  "startFetch hash c =
     (case cl_inflight c hash of
        Some call \<Rightarrow> ((call, False), c)
      | None \<Rightarrow>
          ((cl_next c, True),
           c\<lparr> cl_inflight := (cl_inflight c)(hash \<mapsto> cl_next c),
              cl_calls := (cl_calls c)(cl_next c \<mapsto> (hash, None)), cl_next := cl_next c + 1 \<rparr>))"

definition finishFetch :: "string \<Rightarrow> nat \<Rightarrow> (storage_error, bytes) result \<Rightarrow> Client \<Rightarrow> Client" where
  "finishFetch hash call r c =
     c\<lparr> cl_calls := (cl_calls c)(call \<mapsto> (hash, Some r)), cl_inflight := (cl_inflight c)(hash := None) \<rparr>"

definition startPathFetch :: "string \<Rightarrow> Client \<Rightarrow> (nat \<times> bool) \<times> Client" where
  "startPathFetch hash c =
     (case cl_pathInflight c hash of
        Some call \<Rightarrow> ((call, False), c)
      | None \<Rightarrow>
          ((cl_next c, True),
           c\<lparr> cl_pathInflight := (cl_pathInflight c)(hash \<mapsto> cl_next c),
              cl_pathCalls := (cl_pathCalls c)(cl_next c \<mapsto> (hash, None)), cl_next := cl_next c + 1 \<rparr>))"

definition finishPathFetch ::
  "string \<Rightarrow> nat \<Rightarrow> (storage_error, string list \<times> int) result \<Rightarrow> Client \<Rightarrow> Client" where
  "finishPathFetch hash call r c =
     c\<lparr> cl_pathCalls := (cl_pathCalls c)(call \<mapsto> (hash, Some r)),
        cl_pathInflight := (cl_pathInflight c)(hash := None) \<rparr>"

definition warmL2 :: "l2_env \<Rightarrow> oserr option \<Rightarrow> string \<Rightarrow> bytes \<Rightarrow> Client \<Rightarrow> Client" where
  "warmL2 env writeErr hash data c =
     (case l2_Put env hash writeErr data (cl_l2 c) of
        (None, d) \<Rightarrow> c\<lparr> cl_l2 := d \<rparr>
      | (Some e, d) \<Rightarrow> c\<lparr> cl_l2 := d, cl_l2PutErrors := cl_l2PutErrors c + 1 \<rparr>)"

section \<open>Get and Put\<close>

text \<open>
  \<open>Get\<close> up to the point where it fetches or waits; the leader's part, given the answer of the
  store; and the follower's part, which has no value while the call is open.
\<close>

datatype 'a entered = Resolved 'a | Leading nat | Following nat

definition Get_enter :: "l2_env \<Rightarrow> string \<Rightarrow> Client \<Rightarrow> bytes entered \<times> Client" where
  "Get_enter env hash c =
     (case l1_Get hash (cl_l1 c) of
        Some data \<Rightarrow> (Resolved data, c\<lparr> cl_l1Hits := cl_l1Hits c + 1 \<rparr>)
      | None \<Rightarrow>
          (case l2_Get (en_fault env) (en_now env) hash (cl_l2 c) of
             (Some data, d) \<Rightarrow>
               (Resolved data, c\<lparr> cl_l2 := d, cl_l2Hits := cl_l2Hits c + 1, cl_l1 := l1_Put hash data (cl_l1 c) \<rparr>)
           | (None, d) \<Rightarrow>
               (let ((call, leader), c') = startFetch hash (c\<lparr> cl_l2 := d \<rparr>)
                in (if leader then Leading call else Following call, c'))))"

definition Get_lead ::
  "l2_env \<Rightarrow> oserr option \<Rightarrow> string \<Rightarrow> nat \<Rightarrow> (storage_error, bytes) result \<Rightarrow> Client \<Rightarrow>
     (storage_error, bytes) result \<times> Client" where
  "Get_lead env writeErr hash call fetched c =
     (case fetched of
        Inl e \<Rightarrow> (Inl e, finishFetch hash call (Inl e) c)
      | Inr data \<Rightarrow>
          (let c1 = warmL2 env writeErr hash data (c\<lparr> cl_l3Fetches := cl_l3Fetches c + 1 \<rparr>);
               c2 = c1\<lparr> cl_l1 := l1_Put hash data (cl_l1 c1) \<rparr>
           in (Inr data, finishFetch hash call (Inr data) c2)))"

definition Get_follow :: "bool \<Rightarrow> nat \<Rightarrow> Client \<Rightarrow> (storage_error, bytes) result option" where
  "Get_follow cancelled call c =
     (case cl_calls c call of
        Some (_, Some r) \<Rightarrow> Some r
      | _ \<Rightarrow> (if cancelled then Some (Inl ContextCancelled) else None))"

definition cl_Put ::
  "l2_env \<Rightarrow> oserr option \<Rightarrow> string \<Rightarrow> bytes \<Rightarrow> storage_error option \<Rightarrow> Client \<Rightarrow> storage_error option \<times> Client" where
  "cl_Put env writeErr hash data stored c =
     (case stored of
        Some e \<Rightarrow> (Some e, c)
      | None \<Rightarrow>
          (let c1 = warmL2 env writeErr hash data c
           in (None, c1\<lparr> cl_l1 := l1_Put hash data (cl_l1 c1) \<rparr>)))"

section \<open>Local paths\<close>

text \<open>
  With no cache directory the object is fetched, checked and written to a temporary file outside
  the cache; \<open>tmp\<close> says which file operations of that branch succeed, and the answer is the size.
\<close>

record temp_ok =
  tp_create :: bool
  tp_write :: bool
  tp_sync :: bool
  tp_close :: bool
  tp_stat :: "int option"

definition LocalPath_direct ::
  "(bytes \<Rightarrow> string) \<Rightarrow> temp_ok \<Rightarrow> string \<Rightarrow> (storage_error, bytes) result \<Rightarrow> (storage_error, bytes \<times> int) result" where
  "LocalPath_direct sha tmp hash fetched =
     (case fetched of
        Inl e \<Rightarrow> Inl e
      | Inr data \<Rightarrow>
          (if length hash = 64 \<and> sha data \<noteq> hash then Inl HashMismatch
           else if \<not> tp_create tmp then Inl LocalFileError
           else if \<not> tp_write tmp then Inl LocalFileError
           else if \<not> tp_sync tmp then Inl LocalFileError
           else if \<not> tp_close tmp then Inl LocalFileError
           else if tp_stat tmp \<noteq> Some (int (length data)) then Inl LocalFileError
           else Inr (data, int (length data))))"

text \<open>
  With a cache directory: a disk hit, else a reinstallation from memory, else the streaming fetch
  (a registered call) when the store streams; otherwise the byte path, \<open>LocalPath_bytes\<close>.
\<close>

definition LocalPath_enter ::
  "l2_env \<Rightarrow> bool \<Rightarrow> oserr option \<Rightarrow> string \<Rightarrow> Client \<Rightarrow> (string list \<times> int) entered \<times> Client" where
  "LocalPath_enter env cancelled writeErr hash c =
     (let stream = (\<lambda>c. let ((call, leader), c') = startPathFetch hash c
                        in (if leader then Leading call else Following call, c'))
      in case ContextPath (en_fault env) cancelled hash (cl_l2 c) of
        (Inr (p, n), d) \<Rightarrow> (Resolved (p, n), c\<lparr> cl_l2 := d, cl_l2Hits := cl_l2Hits c + 1 \<rparr>)
      | (Inl _, d) \<Rightarrow>
          (case l1_Get hash (cl_l1 c) of
             None \<Rightarrow> stream (c\<lparr> cl_l2 := d \<rparr>)
           | Some data \<Rightarrow>
               (case PutBytes env hash writeErr data d of
                  (Inr (p, n), d') \<Rightarrow> (Resolved (p, n), c\<lparr> cl_l2 := d', cl_l1Hits := cl_l1Hits c + 1 \<rparr>)
                | (Inl e, d') \<Rightarrow>
                    stream (c\<lparr> cl_l2 := d', cl_l1Hits := cl_l1Hits c + 1, cl_l2PutErrors := cl_l2PutErrors c + 1 \<rparr>))))"

definition localPathFetch_lead ::
  "(bytes \<Rightarrow> string) \<Rightarrow> l2_env \<Rightarrow> string \<Rightarrow> nat \<Rightarrow> (storage_error, (bytes \<times> oserr option) \<times> int) result \<Rightarrow> Client \<Rightarrow>
     (storage_error, string list \<times> int) result \<times> Client" where
  "localPathFetch_lead sha env hash call fetched c =
     (case fetched of
        Inl e \<Rightarrow> (Inl e, finishPathFetch hash call (Inl e) c)
      | Inr (rd, sz) \<Rightarrow>
          (case InstallReader sha env hash rd sz (cl_l2 c) of
             (Inl e, d) \<Rightarrow> (Inl (L2Failure e), finishPathFetch hash call (Inl (L2Failure e)) (c\<lparr> cl_l2 := d \<rparr>))
           | (Inr (p, n), d) \<Rightarrow>
               (Inr (p, n), finishPathFetch hash call (Inr (p, n)) (c\<lparr> cl_l2 := d, cl_l3Fetches := cl_l3Fetches c + 1 \<rparr>))))"

definition localPathFetch_follow ::
  "bool \<Rightarrow> nat \<Rightarrow> Client \<Rightarrow> (storage_error, string list \<times> int) result option" where
  "localPathFetch_follow cancelled call c =
     (case cl_pathCalls c call of
        Some (_, Some r) \<Rightarrow> Some r
      | _ \<Rightarrow> (if cancelled then Some (Inl ContextCancelled) else None))"

definition LocalPath_bytes ::
  "l2_env \<Rightarrow> oserr option \<Rightarrow> string \<Rightarrow> (storage_error, bytes) result \<Rightarrow> Client \<Rightarrow>
     (storage_error, string list \<times> int) result \<times> Client" where
  "LocalPath_bytes env writeErr hash got c =
     (case got of
        Inl e \<Rightarrow> (Inl e, c)
      | Inr data \<Rightarrow>
          (case PutBytes env hash writeErr data (cl_l2 c) of
             (Inl e, d) \<Rightarrow> (Inl (L2Failure e), c\<lparr> cl_l2 := d \<rparr>)
           | (Inr (p, n), d) \<Rightarrow> (Inr (p, n), c\<lparr> cl_l2 := d \<rparr>)))"

text \<open>
  \<open>PutFile\<close>: the upload (\<open>streams\<close>: the backend takes streams; \<open>stored\<close>: its answer), then the
  installation of the same file on disk.
\<close>

definition cl_PutFile ::
  "l2_env \<Rightarrow> string \<Rightarrow> (oserr, fnode) result \<Rightarrow> bool \<Rightarrow> storage_error option \<Rightarrow> bool \<Rightarrow> oserr option \<Rightarrow> Client \<Rightarrow>
     storage_error option \<times> Client" where
  "cl_PutFile env hash source streams stored closeOk copyErr c =
     (case source of
        Inl e \<Rightarrow> (Some SourceError, c)
      | Inr _ \<Rightarrow>
          (if \<not> streams then (Some StreamingUnsupported, c)
           else case stored of
             Some e \<Rightarrow> (Some e, c)
           | None \<Rightarrow>
               (if \<not> closeOk then (Some SourceError, c)
                else case l2_PutFile env hash source copyErr (cl_l2 c) of
                  (Inl e, d) \<Rightarrow> (Some (L2Failure e), c\<lparr> cl_l2 := d \<rparr>)
                | (Inr _, d) \<Rightarrow> (None, c\<lparr> cl_l2 := d \<rparr>))))"

section \<open>The in-flight tables meet their contract\<close>

definition fresh_calls :: "Client \<Rightarrow> bool" where
  "fresh_calls c \<longleftrightarrow> (\<forall>i \<ge> cl_next c. cl_calls c i = None \<and> cl_pathCalls c i = None)"

interpretation bytes_flight: single_flight fresh_calls cl_inflight cl_calls startFetch finishFetch
proof (unfold_locales, goal_cases)
  case (2 s h)
  then show ?case by (simp add: startFetch_def fresh_calls_def)
next
  case (3 s c h r)
  then have "c < cl_next s" unfolding fresh_calls_def by (meson leI)
  then show ?case using 3(1) by (simp add: finishFetch_def fresh_calls_def)
qed (simp_all add: startFetch_def finishFetch_def)

interpretation path_flight: single_flight fresh_calls cl_pathInflight cl_pathCalls startPathFetch finishPathFetch
proof (unfold_locales, goal_cases)
  case (2 s h)
  then show ?case by (simp add: startPathFetch_def fresh_calls_def)
next
  case (3 s c h r)
  then have "c < cl_next s" unfolding fresh_calls_def by (meson leI)
  then show ?case using 3(1) by (simp add: finishPathFetch_def fresh_calls_def)
qed (simp_all add: startPathFetch_def finishPathFetch_def)

section \<open>What the caches hold\<close>

definition files_ok :: "(bytes \<Rightarrow> string) \<Rightarrow> diskCache \<Rightarrow> bool" where
  "files_ok sha d \<longleftrightarrow> (\<forall>k b t. dc_files d (l2_path k) = Some (Regular b t) \<longrightarrow> sha b = k)"

definition items_ok :: "(bytes \<Rightarrow> string) \<Rightarrow> memCache \<Rightarrow> bool" where
  "items_ok sha m \<longleftrightarrow> (\<forall>k b. mc_items m k = Some b \<longrightarrow> sha b = k)"

definition calls_ok :: "(bytes \<Rightarrow> string) \<Rightarrow> Client \<Rightarrow> bool" where
  "calls_ok sha c \<longleftrightarrow> (\<forall>i h b. cl_calls c i = Some (h, Some (Inr b)) \<longrightarrow> sha b = h)"

text \<open>Every cached object has its address: in memory, on disk, and in the results followers read.\<close>

definition coherent :: "(bytes \<Rightarrow> string) \<Rightarrow> Client \<Rightarrow> bool" where
  "coherent sha c \<longleftrightarrow> items_ok sha (cl_l1 c) \<and> files_ok sha (cl_l2 c) \<and> calls_ok sha c"

lemma evict_loop_items: "mc_items (evict_loop n ks m) j = Some b \<Longrightarrow> mc_items m j = Some b"
  by (induction n ks m rule: evict_loop.induct) (auto split: if_splits)

lemma l1_Put_ok: "items_ok sha m \<Longrightarrow> sha b = k \<Longrightarrow> items_ok sha (l1_Put k b m)"
  by (auto simp: items_ok_def l1_Put_def Let_def split: if_splits dest: evict_loop_items)

lemma evict_victims_files:
  "dc_files (evict_victims rm vs d) p = Some f \<Longrightarrow> dc_files d p = Some f"
  by (induction rm vs d rule: evict_victims.induct) (auto split: if_splits option.splits)

lemma enforceBudget_ok: "files_ok sha d \<Longrightarrow> files_ok sha (enforceBudget rm ord d)"
  by (auto simp: files_ok_def enforceBudget_def dest: evict_victims_files)

lemma commit_install_ok: "files_ok sha d \<Longrightarrow> sha data = key \<Longrightarrow> files_ok sha (snd (commit_install env key data d))"
proof (cases rule: commit_install_cases [where env = env and key = key and data = data and d = d])
  case (installed d1)
  assume "files_ok sha d" "sha data = key"
  then have "files_ok sha d1" using installed(1) by (auto simp: files_ok_def with_object_def l2_path_inj)
  then show ?thesis using installed(2) enforceBudget_ok by simp
qed (auto simp: files_ok_def)

lemma ensureIndexed_ok [simp]: "files_ok sha (ensureIndexed walk d) = files_ok sha d"
  by (simp add: files_ok_def)

lemma install_ok:
  "files_ok sha d \<Longrightarrow> (\<And>data. body = Inr data \<Longrightarrow> sha data = key) \<Longrightarrow> files_ok sha (snd (install env key body d))"
  by (cases rule: install_cases [where env = env and key = key and body = body and d = d])
     (simp_all add: commit_install_ok)

lemma l2_reads_ok [simp]:
  "dc_files (miss e d) = dc_files d"
  "dc_files (snd (l2_Get fault now key d)) = dc_files d" "dc_files (snd (ContextPath fault cancelled key d)) = dc_files d"
  by (auto simp: miss_def reportReadError_def l2_Get_def ContextPath_def l2_Path_def split: sum.split fnode.split option.split)

lemma l2_Get_sound: "files_ok sha d \<Longrightarrow> fst (l2_Get fault now key d) = Some b \<Longrightarrow> sha b = key"
  by (auto simp: files_ok_def l2_Get_def l2_stat_def split: sum.splits fnode.splits option.splits if_splits)

section \<open>Runs of the client\<close>

text \<open>
  A run is a sequence of steps of any number of goroutines. A leader's step is taken with its own
  open call. The answers of the store are honest: bytes fetched under an address have that
  address, which is what the object store promises. A streaming answer needs no such promise
  when the key is a full digest, because the installation checks it.

  The operations above run several sections, each under a lock of its own, and other goroutines may
  run between them. So a run also has the sections as steps: a disk lookup (the lookup in memory changes
  nothing), an installation in memory or on disk, joining or publishing a call, and counting. A
  section that installs or publishes bytes is taken with bytes of the address; the ones it has read
  before are, by the theorem at the end.
\<close>

datatype cl_action =
    DoGet l2_env string
  | DoGetLead l2_env "oserr option" string nat "(storage_error, bytes) result"
  | DoPut l2_env "oserr option" string bytes "storage_error option"
  | DoLocalPath l2_env bool "oserr option" string
  | DoPathLead l2_env string nat "(storage_error, (bytes \<times> oserr option) \<times> int) result"
  | DoPathBytes l2_env "oserr option" string "(storage_error, bytes) result"
  | DoPutFile l2_env string "(oserr, fnode) result" bool "storage_error option" bool "oserr option"
  | SecL2Get l2_env string
  | SecContextPath l2_env bool string
  | SecL1Put string bytes
  | SecWarmL2 l2_env "oserr option" string bytes
  | SecPutBytes l2_env "oserr option" string bytes
  | SecInstall l2_env string "bytes \<times> oserr option" int
  | SecStartFetch string
  | SecFinishFetch string nat "(storage_error, bytes) result"
  | SecStartPathFetch string
  | SecFinishPathFetch string nat "(storage_error, string list \<times> int) result"
  | SecCount int int int int

definition cl_exec :: "(bytes \<Rightarrow> string) \<Rightarrow> cl_action \<Rightarrow> Client \<Rightarrow> Client" where
  "cl_exec sha a c =
     (case a of
        DoGet env h \<Rightarrow> snd (Get_enter env h c)
      | DoGetLead env w h i r \<Rightarrow> snd (Get_lead env w h i r c)
      | DoPut env w h b r \<Rightarrow> snd (cl_Put env w h b r c)
      | DoLocalPath env x w h \<Rightarrow> snd (LocalPath_enter env x w h c)
      | DoPathLead env h i r \<Rightarrow> snd (localPathFetch_lead sha env h i r c)
      | DoPathBytes env w h r \<Rightarrow> snd (LocalPath_bytes env w h r c)
      | DoPutFile env h f st r cl ce \<Rightarrow> snd (cl_PutFile env h f st r cl ce c)
      | SecL2Get env h \<Rightarrow> c\<lparr> cl_l2 := snd (l2_Get (en_fault env) (en_now env) h (cl_l2 c)) \<rparr>
      | SecContextPath env x h \<Rightarrow> c\<lparr> cl_l2 := snd (ContextPath (en_fault env) x h (cl_l2 c)) \<rparr>
      | SecL1Put h b \<Rightarrow> c\<lparr> cl_l1 := l1_Put h b (cl_l1 c) \<rparr>
      | SecWarmL2 env w h b \<Rightarrow> warmL2 env w h b c
      | SecPutBytes env w h b \<Rightarrow> c\<lparr> cl_l2 := snd (PutBytes env h w b (cl_l2 c)) \<rparr>
      | SecInstall env h rd n \<Rightarrow> c\<lparr> cl_l2 := snd (InstallReader sha env h rd n (cl_l2 c)) \<rparr>
      | SecStartFetch h \<Rightarrow> snd (startFetch h c)
      | SecFinishFetch h i r \<Rightarrow> finishFetch h i r c
      | SecStartPathFetch h \<Rightarrow> snd (startPathFetch h c)
      | SecFinishPathFetch h i r \<Rightarrow> finishPathFetch h i r c
      | SecCount x y z v \<Rightarrow> c\<lparr> cl_l1Hits := cl_l1Hits c + x, cl_l2Hits := cl_l2Hits c + y,
            cl_l3Fetches := cl_l3Fetches c + z, cl_l2PutErrors := cl_l2PutErrors c + v \<rparr>)"

definition cl_allowed :: "(bytes \<Rightarrow> string) \<Rightarrow> cl_action \<Rightarrow> Client \<Rightarrow> bool" where
  "cl_allowed sha a c =
     (case a of
        DoGet env h \<Rightarrow> True
      | DoGetLead env w h i r \<Rightarrow> cl_calls c i = Some (h, None) \<and> (case r of Inr b \<Rightarrow> sha b = h | Inl _ \<Rightarrow> True)
      | DoPut env w h b r \<Rightarrow> sha b = h
      | DoLocalPath env x w h \<Rightarrow> True
      | DoPathLead env h i r \<Rightarrow> cl_pathCalls c i = Some (h, None)
          \<and> (case r of Inr ((b, None), _) \<Rightarrow> length h = 64 \<or> sha b = h | _ \<Rightarrow> True)
      | DoPathBytes env w h r \<Rightarrow> (case r of Inr b \<Rightarrow> sha b = h | Inl _ \<Rightarrow> True)
      | DoPutFile env h f st r cl ce \<Rightarrow> (case f of Inr (Regular b _) \<Rightarrow> sha b = h | _ \<Rightarrow> True)
      | SecL1Put h b \<Rightarrow> sha b = h
      | SecWarmL2 env w h b \<Rightarrow> sha b = h
      | SecPutBytes env w h b \<Rightarrow> sha b = h
      | SecInstall env h rd n \<Rightarrow> (snd rd = None \<longrightarrow> length h = 64 \<or> sha (fst rd) = h)
      | SecFinishFetch h i r \<Rightarrow> cl_calls c i = Some (h, None) \<and> (case r of Inr b \<Rightarrow> sha b = h | Inl _ \<Rightarrow> True)
      | SecFinishPathFetch h i r \<Rightarrow> cl_pathCalls c i = Some (h, None)
      | _ \<Rightarrow> True)"

text \<open>The operations are their sections, in the order of the code.\<close>

lemma Get_enter_sections:
  "snd (Get_enter env h c) = fold (cl_exec sha)
     (case l1_Get h (cl_l1 c) of
        Some b \<Rightarrow> [SecCount 1 0 0 0]
      | None \<Rightarrow> SecL2Get env h #
          (case fst (l2_Get (en_fault env) (en_now env) h (cl_l2 c)) of
             Some b \<Rightarrow> [SecCount 0 1 0 0, SecL1Put h b] | None \<Rightarrow> [SecStartFetch h])) c"
  by (auto simp: Get_enter_def cl_exec_def Let_def split: option.split prod.split)

lemma Get_lead_sections:
  "snd (Get_lead env w h i r c) = fold (cl_exec sha)
     (case r of
        Inl e \<Rightarrow> [SecFinishFetch h i r]
      | Inr b \<Rightarrow> [SecCount 0 0 1 0, SecWarmL2 env w h b, SecL1Put h b, SecFinishFetch h i r]) c"
  by (auto simp: Get_lead_def cl_exec_def Let_def split: sum.split)

lemma LocalPath_enter_sections:
  "snd (LocalPath_enter env x w h c) = fold (cl_exec sha)
     (SecContextPath env x h #
      (case ContextPath (en_fault env) x h (cl_l2 c) of
         (Inr _, _) \<Rightarrow> [SecCount 0 1 0 0]
       | (Inl _, d) \<Rightarrow>
           (case l1_Get h (cl_l1 c) of
              None \<Rightarrow> [SecStartPathFetch h]
            | Some b \<Rightarrow> SecCount 1 0 0 0 # SecPutBytes env w h b #
                (case fst (PutBytes env h w b d) of Inr _ \<Rightarrow> [] | Inl _ \<Rightarrow> [SecCount 0 0 0 1, SecStartPathFetch h])))) c"
  by (auto simp: LocalPath_enter_def cl_exec_def Let_def split: option.split prod.split sum.split)

inductive cl_run :: "(bytes \<Rightarrow> string) \<Rightarrow> Client \<Rightarrow> Client \<Rightarrow> bool" for sha where
  cl_start: "cl_run sha c c"
| cl_next: "cl_run sha c0 c \<Longrightarrow> cl_allowed sha a c \<Longrightarrow> cl_run sha c0 (cl_exec sha a c)"

definition client_inv :: "(bytes \<Rightarrow> string) \<Rightarrow> Client \<Rightarrow> bool" where
  "client_inv sha c \<longleftrightarrow> coherent sha c \<and> bytes_flight.flights_ok c \<and> path_flight.flights_ok c"

lemma flights_frame:
  assumes "cl_inflight c' = cl_inflight c" and "cl_calls c' = cl_calls c" and "cl_next c' = cl_next c"
    and "cl_pathInflight c' = cl_pathInflight c" and "cl_pathCalls c' = cl_pathCalls c"
  shows "bytes_flight.flights_ok c' = bytes_flight.flights_ok c" and "path_flight.flights_ok c' = path_flight.flights_ok c"
    and "calls_ok sha c' = calls_ok sha c"
  using assms by (simp_all add: bytes_flight.flights_ok_def path_flight.flights_ok_def fresh_calls_def calls_ok_def)

text \<open>A step that only moves the caches and the counters keeps the invariant when it keeps their contents right.\<close>

lemma inv_caches:
  assumes "client_inv sha c" and "items_ok sha (cl_l1 c')" and "files_ok sha (cl_l2 c')"
    and "cl_inflight c' = cl_inflight c" and "cl_calls c' = cl_calls c" and "cl_next c' = cl_next c"
    and "cl_pathInflight c' = cl_pathInflight c" and "cl_pathCalls c' = cl_pathCalls c"
  shows "client_inv sha c'"
  using assms(1-3) flights_frame [OF assms(4-8)] by (simp add: client_inv_def coherent_def)

lemma start_inv:
  "client_inv sha c \<Longrightarrow> client_inv sha (snd (startFetch h c))"
  "client_inv sha c \<Longrightarrow> client_inv sha (snd (startPathFetch h c))"
proof -
  assume inv: "client_inv sha c"
  have "path_flight.flights_ok (snd (startFetch h c))" "coherent sha (snd (startFetch h c))"
    using inv by (auto simp: client_inv_def startFetch_def path_flight.flights_ok_def fresh_calls_def coherent_def calls_ok_def
        split: option.split)
  then show "client_inv sha (snd (startFetch h c))" using inv bytes_flight.start_keeps by (simp add: client_inv_def)
  have "bytes_flight.flights_ok (snd (startPathFetch h c))" "coherent sha (snd (startPathFetch h c))"
    using inv by (auto simp: client_inv_def startPathFetch_def bytes_flight.flights_ok_def fresh_calls_def coherent_def calls_ok_def
        split: option.split)
  then show "client_inv sha (snd (startPathFetch h c))" using inv path_flight.start_keeps by (simp add: client_inv_def)
qed

lemma finish_inv:
  assumes inv: "client_inv sha c"
  shows "cl_calls c i = Some (h, None) \<Longrightarrow> (\<And>b. r = Inr b \<Longrightarrow> sha b = h) \<Longrightarrow> client_inv sha (finishFetch h i r c)"
    and "cl_pathCalls c i = Some (h, None) \<Longrightarrow> client_inv sha (finishPathFetch h i pr c)"
proof -
  assume i: "cl_calls c i = Some (h, None)" and r: "\<And>b. r = Inr b \<Longrightarrow> sha b = h"
  have "i < cl_next c" using inv i unfolding client_inv_def bytes_flight.flights_ok_def fresh_calls_def by (metis not_le option.distinct(1))
  then have "path_flight.flights_ok (finishFetch h i r c)" "coherent sha (finishFetch h i r c)"
    using inv r by (auto simp: client_inv_def finishFetch_def path_flight.flights_ok_def fresh_calls_def coherent_def calls_ok_def)
  then show "client_inv sha (finishFetch h i r c)" using inv bytes_flight.finish_keeps [OF _ i] by (simp add: client_inv_def)
next
  assume i: "cl_pathCalls c i = Some (h, None)"
  have "i < cl_next c" using inv i unfolding client_inv_def bytes_flight.flights_ok_def fresh_calls_def by (metis not_le option.distinct(1))
  then have "bytes_flight.flights_ok (finishPathFetch h i pr c)" "coherent sha (finishPathFetch h i pr c)"
    using inv by (auto simp: client_inv_def finishPathFetch_def bytes_flight.flights_ok_def fresh_calls_def coherent_def calls_ok_def)
  then show "client_inv sha (finishPathFetch h i pr c)" using inv path_flight.finish_keeps [OF _ i] by (simp add: client_inv_def)
qed

section \<open>Every step keeps the invariant\<close>

lemma install_wrappers_ok:
  assumes "files_ok sha d"
  shows "sha b = k \<Longrightarrow> files_ok sha (snd (PutBytes env k w b d))"
    and "sha b = k \<Longrightarrow> files_ok sha (snd (l2_Put env k w b d))"
    and "(\<And>b t. f = Inr (Regular b t) \<Longrightarrow> sha b = k) \<Longrightarrow> files_ok sha (snd (l2_PutFile env k f ce d))"
    and "(snd rd = None \<Longrightarrow> length k = 64 \<or> sha (fst rd) = k) \<Longrightarrow> files_ok sha (snd (InstallReader sha env k rd n d))"
proof -
  show put: "sha b = k \<Longrightarrow> files_ok sha (snd (PutBytes env k w b d))"
    unfolding PutBytes_def by (rule install_ok [OF assms]) (auto split: option.splits)
  show "sha b = k \<Longrightarrow> files_ok sha (snd (l2_Put env k w b d))"
    using put assms by (auto simp: l2_Put_def split: prod.split sum.split)
  show "(\<And>b t. f = Inr (Regular b t) \<Longrightarrow> sha b = k) \<Longrightarrow> files_ok sha (snd (l2_PutFile env k f ce d))"
    using assms by (auto simp: l2_PutFile_def split: sum.split fnode.split option.split intro!: install_ok)
  show "(snd rd = None \<Longrightarrow> length k = 64 \<or> sha (fst rd) = k) \<Longrightarrow> files_ok sha (snd (InstallReader sha env k rd n d))"
    unfolding InstallReader_def by (rule install_ok [OF assms]) (auto split: option.splits if_splits)
qed

lemma warmL2_frame [simp]:
  "cl_l1 (warmL2 env w h b c) = cl_l1 c" "cl_inflight (warmL2 env w h b c) = cl_inflight c"
  "cl_calls (warmL2 env w h b c) = cl_calls c" "cl_next (warmL2 env w h b c) = cl_next c"
  "cl_pathInflight (warmL2 env w h b c) = cl_pathInflight c" "cl_pathCalls (warmL2 env w h b c) = cl_pathCalls c"
  "cl_l2 (warmL2 env w h b c) = snd (l2_Put env h w b (cl_l2 c))"
  by (simp_all add: warmL2_def split: prod.split option.split)

lemma inv_parts:
  "client_inv sha c \<Longrightarrow> items_ok sha (cl_l1 c)" "client_inv sha c \<Longrightarrow> files_ok sha (cl_l2 c)"
  "client_inv sha c \<Longrightarrow> calls_ok sha c"
  by (simp_all add: client_inv_def coherent_def)

lemma read_files_ok:
  "files_ok sha d \<Longrightarrow> l2_Get fault now key d = (r, d') \<Longrightarrow> files_ok sha d'"
  "files_ok sha d \<Longrightarrow> ContextPath fault x key d = (q, d') \<Longrightarrow> files_ok sha d'"
  using l2_reads_ok(2) [of fault now key d] l2_reads_ok(3) [of fault x key d] by (simp_all add: files_ok_def)

lemma Get_enter_inv:
  assumes inv: "client_inv sha c"
  shows "client_inv sha (snd (Get_enter env h c))"
proof (cases "l1_Get h (cl_l1 c)")
  case (Some b)
  then show ?thesis using inv by (simp add: Get_enter_def) (rule inv_caches, auto dest: inv_parts)
next
  case None
  obtain r d where rd: "l2_Get (en_fault env) (en_now env) h (cl_l2 c) = (r, d)" by fastforce
  have d: "files_ok sha d" using read_files_ok(1) [OF inv_parts(2) [OF inv] rd] .
  show ?thesis
  proof (cases r)
    case None
    have "client_inv sha (c\<lparr> cl_l2 := d \<rparr>)" by (rule inv_caches [OF inv]) (use d inv_parts(1) [OF inv] in simp_all)
    then show ?thesis using start_inv(1) [of sha "c\<lparr> cl_l2 := d \<rparr>" h] \<open>l1_Get h (cl_l1 c) = None\<close> rd None
      by (simp add: Get_enter_def split: prod.split) (metis snd_conv)
  next
    case (Some b)
    have "sha b = h" using l2_Get_sound [OF inv_parts(2) [OF inv]] rd Some by (metis fst_conv)
    then have "items_ok sha (l1_Put h b (cl_l1 c))" using l1_Put_ok inv_parts(1) [OF inv] by blast
    then show ?thesis using \<open>l1_Get h (cl_l1 c) = None\<close> rd Some d
      by (simp add: Get_enter_def) (rule inv_caches [OF inv], simp_all)
  qed
qed

lemma Get_lead_inv:
  assumes inv: "client_inv sha c" and i: "cl_calls c i = Some (h, None)" and r: "\<And>b. r = Inr b \<Longrightarrow> sha b = h"
  shows "client_inv sha (snd (Get_lead env w h i r c))"
proof (cases r)
  case (Inl e)
  then show ?thesis using finish_inv(1) [OF inv i, of r] by (simp add: Get_lead_def)
next
  case (Inr b)
  let ?c = "(warmL2 env w h b (c\<lparr> cl_l3Fetches := cl_l3Fetches c + 1 \<rparr>))\<lparr> cl_l1 := l1_Put h b (cl_l1 c) \<rparr>"
  have "sha b = h" using r Inr by blast
  then have c: "client_inv sha ?c"
    using l1_Put_ok [OF inv_parts(1) [OF inv], of b h] install_wrappers_ok(2) [OF inv_parts(2) [OF inv], of b h]
    by (intro inv_caches [OF inv]) simp_all
  then show ?thesis using finish_inv(1) [OF c, of i h r] i Inr \<open>sha b = h\<close> by (simp add: Get_lead_def Let_def)
qed

lemma cl_Put_inv:
  assumes inv: "client_inv sha c" and b: "sha b = h"
  shows "client_inv sha (snd (cl_Put env w h b r c))"
proof (cases r)
  case None
  then show ?thesis
    using l1_Put_ok [OF inv_parts(1) [OF inv] b] install_wrappers_ok(2) [OF inv_parts(2) [OF inv] b]
    by (simp add: cl_Put_def Let_def) (rule inv_caches [OF inv], simp_all)
qed (simp add: cl_Put_def inv)

lemma cl_l2_inv: "client_inv sha c \<Longrightarrow> files_ok sha d \<Longrightarrow>
    client_inv sha (c\<lparr> cl_l2 := d, cl_l1Hits := x, cl_l2Hits := y, cl_l3Fetches := z, cl_l2PutErrors := v \<rparr>)"
  by (rule inv_caches) (auto dest: inv_parts)

lemma LocalPath_enter_inv:
  assumes inv: "client_inv sha c"
  shows "client_inv sha (snd (LocalPath_enter env x w h c))"
proof -
  obtain q d where qd: "ContextPath (en_fault env) x h (cl_l2 c) = (q, d)" by fastforce
  have d: "files_ok sha d" using read_files_ok(2) [OF inv_parts(2) [OF inv] qd] .
  have stream: "client_inv sha (snd (let ((call, leader), c') = startPathFetch h c1
      in (if leader then Leading call else Following call, c')))" if "client_inv sha c1" for c1
    using start_inv(2) [OF that, of h] by (cases "startPathFetch h c1") (auto simp: Let_def split: prod.split)
  show ?thesis
  proof (cases q)
    case (Inr a)
    then show ?thesis using qd d cl_l2_inv [OF inv d, where x = "cl_l1Hits c" and y = "cl_l2Hits c + 1" and z = "cl_l3Fetches c" and v = "cl_l2PutErrors c"]
      by (cases a) (simp add: LocalPath_enter_def)
  next
    case (Inl e)
    show ?thesis
    proof (cases "l1_Get h (cl_l1 c)")
      case None
      then show ?thesis
        using qd Inl stream [OF cl_l2_inv [OF inv d, where x = "cl_l1Hits c" and y = "cl_l2Hits c" and z = "cl_l3Fetches c" and v = "cl_l2PutErrors c"]]
        by (simp add: LocalPath_enter_def)
    next
      case (Some b)
      have "sha b = h" using inv_parts(1) [OF inv] Some by (simp add: items_ok_def l1_Get_def)
      obtain res d' where put: "PutBytes env h w b d = (res, d')" by fastforce
      have d': "files_ok sha d'" using install_wrappers_ok(1) [OF d \<open>sha b = h\<close>, of env w] put by simp
      note c' = cl_l2_inv [OF inv d']
      show ?thesis
        using Some qd Inl put stream [OF c' [where x = "cl_l1Hits c + 1" and y = "cl_l2Hits c" and z = "cl_l3Fetches c" and v = "cl_l2PutErrors c + 1"]]
          c' [where x = "cl_l1Hits c + 1" and y = "cl_l2Hits c" and z = "cl_l3Fetches c" and v = "cl_l2PutErrors c"]
        by (cases res) (auto simp: LocalPath_enter_def)
    qed
  qed
qed

lemma localPathFetch_lead_inv:
  assumes inv: "client_inv sha c" and i: "cl_pathCalls c i = Some (h, None)"
    and r: "\<And>b n. r = Inr ((b, None), n) \<Longrightarrow> length h = 64 \<or> sha b = h"
  shows "client_inv sha (snd (localPathFetch_lead sha env h i r c))"
proof (cases r)
  case (Inl e)
  then show ?thesis using finish_inv(2) [OF inv i] by (simp add: localPathFetch_lead_def)
next
  case (Inr a)
  obtain b e n where a: "a = ((b, e), n)" by (cases a) auto
  obtain res d where ins: "InstallReader sha env h (b, e) n (cl_l2 c) = (res, d)" by fastforce
  have "files_ok sha d" using install_wrappers_ok(4) [OF inv_parts(2) [OF inv], of "(b, e)" h env n] r Inr a ins by auto
  note c = cl_l2_inv [OF inv this, where x = "cl_l1Hits c" and y = "cl_l2Hits c" and v = "cl_l2PutErrors c"]
  show ?thesis
    using finish_inv(2) [OF c [where z = "cl_l3Fetches c"], of i h] finish_inv(2) [OF c [where z = "cl_l3Fetches c + 1"], of i h] i Inr a ins
    by (cases res) (auto simp: localPathFetch_lead_def)
qed

lemma LocalPath_bytes_inv:
  assumes inv: "client_inv sha c" and r: "\<And>b. r = Inr b \<Longrightarrow> sha b = h"
  shows "client_inv sha (snd (LocalPath_bytes env w h r c))"
proof (cases r)
  case (Inr b)
  obtain res d where put: "PutBytes env h w b (cl_l2 c) = (res, d)" by fastforce
  have "files_ok sha d" using install_wrappers_ok(1) [OF inv_parts(2) [OF inv], of b h env w] r Inr put by simp
  note c = cl_l2_inv [OF inv this, where x = "cl_l1Hits c" and y = "cl_l2Hits c" and z = "cl_l3Fetches c" and v = "cl_l2PutErrors c"]
  then show ?thesis using Inr put by (cases res) (auto simp: LocalPath_bytes_def)
qed (simp add: LocalPath_bytes_def inv)

lemma cl_PutFile_inv:
  assumes inv: "client_inv sha c" and f: "\<And>b t. f = Inr (Regular b t) \<Longrightarrow> sha b = h"
  shows "client_inv sha (snd (cl_PutFile env h f st r cl ce c))"
proof -
  obtain res d where put: "l2_PutFile env h f ce (cl_l2 c) = (res, d)" by fastforce
  have "files_ok sha d" using install_wrappers_ok(3) [OF inv_parts(2) [OF inv], of f h env ce] f put by simp
  note c = cl_l2_inv [OF inv this, where x = "cl_l1Hits c" and y = "cl_l2Hits c" and z = "cl_l3Fetches c" and v = "cl_l2PutErrors c"]
  then show ?thesis using inv put by (auto simp: cl_PutFile_def split: sum.split option.split)
qed

lemma section_files_inv: "client_inv sha c \<Longrightarrow> files_ok sha d \<Longrightarrow> client_inv sha (c\<lparr> cl_l2 := d \<rparr>)"
  by (rule inv_caches) (auto dest: inv_parts)

lemma section_disk_inv:
  assumes inv: "client_inv sha c"
  shows "client_inv sha (c\<lparr> cl_l2 := snd (l2_Get fault now h (cl_l2 c)) \<rparr>)"
    and "client_inv sha (c\<lparr> cl_l2 := snd (ContextPath fault x h (cl_l2 c)) \<rparr>)"
    and "sha b = h \<Longrightarrow> client_inv sha (c\<lparr> cl_l2 := snd (PutBytes env h w b (cl_l2 c)) \<rparr>)"
    and "sha b = h \<Longrightarrow> client_inv sha (warmL2 env w h b c)"
    and "(snd rd = None \<Longrightarrow> length h = 64 \<or> sha (fst rd) = h) \<Longrightarrow>
      client_inv sha (c\<lparr> cl_l2 := snd (InstallReader sha env h rd n (cl_l2 c)) \<rparr>)"
proof -
  note d = inv_parts(2) [OF inv]
  show "client_inv sha (c\<lparr> cl_l2 := snd (l2_Get fault now h (cl_l2 c)) \<rparr>)"
    "client_inv sha (c\<lparr> cl_l2 := snd (ContextPath fault x h (cl_l2 c)) \<rparr>)"
    using d by (auto simp: files_ok_def intro!: section_files_inv [OF inv])
  show "sha b = h \<Longrightarrow> client_inv sha (c\<lparr> cl_l2 := snd (PutBytes env h w b (cl_l2 c)) \<rparr>)"
    by (intro section_files_inv [OF inv] install_wrappers_ok [OF d])
  show "sha b = h \<Longrightarrow> client_inv sha (warmL2 env w h b c)"
    by (rule inv_caches [OF inv]) (simp_all add: inv_parts [OF inv] install_wrappers_ok(2) [OF d])
  show "(snd rd = None \<Longrightarrow> length h = 64 \<or> sha (fst rd) = h) \<Longrightarrow>
      client_inv sha (c\<lparr> cl_l2 := snd (InstallReader sha env h rd n (cl_l2 c)) \<rparr>)"
    by (intro section_files_inv [OF inv] install_wrappers_ok(4) [OF d])
qed

lemma section_memory_inv:
  assumes inv: "client_inv sha c"
  shows "sha b = h \<Longrightarrow> client_inv sha (c\<lparr> cl_l1 := l1_Put h b (cl_l1 c) \<rparr>)"
    and "client_inv sha (c\<lparr> cl_l1Hits := x, cl_l2Hits := y, cl_l3Fetches := z, cl_l2PutErrors := v \<rparr>)"
  by (rule inv_caches [OF inv]; simp add: inv_parts [OF inv] l1_Put_ok)+

lemma cl_exec_inv: "client_inv sha c \<Longrightarrow> cl_allowed sha a c \<Longrightarrow> client_inv sha (cl_exec sha a c)"
  by (cases a)
     (auto simp: cl_exec_def cl_allowed_def intro!: Get_enter_inv Get_lead_inv cl_Put_inv LocalPath_enter_inv
       localPathFetch_lead_inv LocalPath_bytes_inv cl_PutFile_inv section_disk_inv section_memory_inv start_inv finish_inv)

lemma cl_run_inv: "cl_run sha c0 c \<Longrightarrow> client_inv sha c0 \<Longrightarrow> client_inv sha c"
  by (induction rule: cl_run.induct) (auto intro: cl_exec_inv)

lemma New_client_inv:
  "(\<And>k b t. fs (l2_path k) = Some (Regular b t) \<Longrightarrow> sha b = k) \<Longrightarrow> client_inv sha (New_client m dir n fs)"
  by (simp add: client_inv_def coherent_def New_client_def newMemCache_def newMemCacheWithObjectCap_def newDiskCache_def
      items_ok_def files_ok_def calls_ok_def bytes_flight.flights_ok_def path_flight.flights_ok_def fresh_calls_def)

lemma install_path: "fst (install env key body d) = Inr (p, n) \<Longrightarrow> p = l2_path key"
proof (cases rule: install_cases [where env = env and key = key and body = body and d = d])
  case (commit data)
  assume "fst (install env key body d) = Inr (p, n)"
  then show ?thesis
    using commit by (cases rule: commit_install_cases [where env = env and key = key and data = data
        and d = "ensureIndexed (en_walk env) d"]) auto
qed simp_all

lemma LocalPath_enter_path: "LocalPath_enter env x w h c = (Resolved (p, n), c') \<Longrightarrow> p = l2_path h"
  using install_path [of env h _ _ p n]
  by (auto simp: LocalPath_enter_def ContextPath_def l2_Path_def PutBytes_def Let_def
      split: prod.splits sum.splits option.splits if_splits fnode.splits) (metis fst_conv)+

section \<open>Correctness\<close>

lemma section_reads:
  assumes inv: "client_inv sha c"
  shows "l1_Get h (cl_l1 c) = Some b \<Longrightarrow> sha b = h"
    and "fst (l2_Get fault now h (cl_l2 c)) = Some b \<Longrightarrow> sha b = h"
  using inv_parts(1) [OF inv] l2_Get_sound [OF inv_parts(2) [OF inv]] by (auto simp: items_ok_def l1_Get_def)

text \<open>
  C31. Take a client whose caches hold nothing wrong, and let every body that is fetched from the store
  into memory, and every object its callers put, hash to the address it is asked or stored under. Then,
  whatever the interleaving of the goroutines, also between the sections of one operation, and whatever
  fails on the disk, an object that the client resolves is the object of its address: bytes read in the
  section that looks in memory or on disk and those a whole lookup serves, the bytes a follower reads
  from the leader's call, and the file behind a path handed out by a local lookup. Only a streamed
  download under a full-length address is checked by the client itself and needs no such assumption;
  bytes fetched by \<open>Get\<close> are cached unchecked, although \<open>LocalPath\<close> is documented to return a verified
  path (\<open>unverified_fetch_poisons_the_cache\<close>).
\<close>

theorem assets_resolve_to_their_address:
  assumes "cl_run sha c0 c" and "client_inv sha c0"
  shows "(\<forall>h b. l1_Get h (cl_l1 c) = Some b \<longrightarrow> sha b = h)
    \<and> (\<forall>fault now h b. fst (l2_Get fault now h (cl_l2 c)) = Some b \<longrightarrow> sha b = h)
    \<and> (\<forall>env h b c'. Get_enter env h c = (Resolved b, c') \<longrightarrow> sha b = h)
    \<and> (\<forall>x i h q b. cl_calls c i = Some (h, q) \<and> Get_follow x i c = Some (Inr b) \<longrightarrow> sha b = h)
    \<and> (\<forall>env x w h p n c'. LocalPath_enter env x w h c = (Resolved (p, n), c') \<longrightarrow>
          p = l2_path h \<and> (\<forall>b t. dc_files (cl_l2 c') p = Some (Regular b t) \<longrightarrow> sha b = h))"
proof (intro conjI allI impI)
  have inv: "client_inv sha c" using cl_run_inv [OF assms] .
  show "sha b = h" if "l1_Get h (cl_l1 c) = Some b" for h b using section_reads(1) [OF inv that] .
  show "sha b = h" if "fst (l2_Get fault now h (cl_l2 c)) = Some b" for fault now h b
    using section_reads(2) [OF inv that] .
  show "sha b = h" if "Get_enter env h c = (Resolved b, c')" for env h b c'
    using that section_reads [OF inv]
    by (auto simp: Get_enter_def split: option.splits prod.splits if_splits) (metis fst_conv)
  show "sha b = h" if "cl_calls c i = Some (h, q) \<and> Get_follow x i c = Some (Inr b)" for x i h q b
    using that inv_parts(3) [OF inv] by (auto simp: Get_follow_def calls_ok_def split: option.splits if_splits)
  fix env x w h p n c'
  assume lp: "LocalPath_enter env x w h c = (Resolved (p, n), c')"
  show p: "p = l2_path h" using LocalPath_enter_path [OF lp] .
  show "sha b = h" if "dc_files (cl_l2 c') p = Some (Regular b t)" for b t
    using that p lp inv_parts(2) [OF LocalPath_enter_inv [OF inv, of env x w h]] by (auto simp: files_ok_def)
qed

text \<open>
  At any moment at most one fetch of an object is in flight on each of the two paths: two open
  calls for the same object are the same call, a caller becomes leader only when none is open, and a caller
  that finds one open follows it.
\<close>

theorem one_fetch_in_flight_per_object:
  assumes "cl_run sha c0 c" and "client_inv sha c0"
  shows "(\<forall>h i j. cl_calls c i = Some (h, None) \<and> cl_calls c j = Some (h, None) \<longrightarrow> i = j)
    \<and> (\<forall>h i j. cl_pathCalls c i = Some (h, None) \<and> cl_pathCalls c j = Some (h, None) \<longrightarrow> i = j)
    \<and> (\<forall>env h i c'. Get_enter env h c = (Leading i, c') \<longrightarrow> (\<forall>j. cl_calls c j \<noteq> Some (h, None)) \<and> cl_calls c' i = Some (h, None))
    \<and> (\<forall>env h i c'. Get_enter env h c = (Following i, c') \<longrightarrow> cl_calls c i = Some (h, None))"
proof (intro conjI allI impI)
  have inv: "client_inv sha c" using cl_run_inv [OF assms] .
  then have ok: "bytes_flight.flights_ok c" "path_flight.flights_ok c" by (simp_all add: client_inv_def)
  show "i = j" if "cl_calls c i = Some (h, None) \<and> cl_calls c j = Some (h, None)" for h i j
    using bytes_flight.one_leader [OF ok(1)] that by blast
  show "i = j" if "cl_pathCalls c i = Some (h, None) \<and> cl_pathCalls c j = Some (h, None)" for h i j
    using path_flight.one_leader [OF ok(2)] that by blast
  have reg: "cl_inflight c h = Some i \<longleftrightarrow> cl_calls c i = Some (h, None)" for h i
    using ok(1) by (simp add: bytes_flight.flights_ok_def)
  show "cl_calls c j \<noteq> Some (h, None)" if "Get_enter env h c = (Leading i, c')" for env h i c' j
    using that reg [of h j] by (auto simp: Get_enter_def startFetch_def split: option.splits prod.splits if_splits)
  show "cl_calls c' i = Some (h, None)" if "Get_enter env h c = (Leading i, c')" for env h i c'
    using that by (auto simp: Get_enter_def startFetch_def split: option.splits prod.splits if_splits)
  show "cl_calls c i = Some (h, None)" if "Get_enter env h c = (Following i, c')" for env h i c'
    using that reg [of h i] by (auto simp: Get_enter_def startFetch_def split: option.splits prod.splits if_splits)
qed

text \<open>
  A client over one file of an earlier run, after a first goroutine has started to fetch another
  object; the digest is the identity.
\<close>

definition sample_env :: l2_env where
  "sample_env = \<lparr> en_walk = [], en_order = (\<lambda>S. sorted_list_of_set S), en_fault = (\<lambda>_. None),
     en_remove = (\<lambda>_. None), en_now = 7 \<rparr>"

definition cold_client :: Client where
  "cold_client = New_client 100 ''/cache'' 0 [l2_path ''abc'' \<mapsto> Regular ''abc'' 3]"

definition busy_client :: Client where
  "busy_client = cl_exec (\<lambda>b. b) (DoGet sample_env ''xyz'') cold_client"

lemma cold_client_inv: "client_inv (\<lambda>b. b) cold_client"
  unfolding cold_client_def by (rule New_client_inv) (auto simp: l2_path_inj split: if_splits)

lemma busy_client_run: "cl_run (\<lambda>b. b) cold_client busy_client"
  unfolding busy_client_def by (rule cl_next [OF cl_start]) (simp add: cl_allowed_def)

lemmas client_eval = busy_client_def cl_exec_def cold_client_def sample_env_def New_client_def Get_enter_def l1_Get_def
  newMemCache_def newMemCacheWithObjectCap_def newDiskCache_def l2_Get_def l2_stat_def l2_path_inj startFetch_def miss_def
  maxBytePathBytes_def

theorem assets_resolve_to_their_address_witness:
  "\<exists>c'. Get_enter sample_env ''abc'' busy_client = (Resolved ''abc'', c') \<and> (\<lambda>b. b) ''abc'' = ''abc''"
proof -
  obtain b c' where g: "Get_enter sample_env ''abc'' busy_client = (Resolved b, c')" by (simp add: client_eval)
  have "\<forall>env h b c'. Get_enter env h busy_client = (Resolved b, c') \<longrightarrow> b = h"
    using assets_resolve_to_their_address [OF busy_client_run cold_client_inv] by simp
  then show ?thesis using g by blast
qed

theorem one_fetch_in_flight_per_object_witness:
  "\<exists>c'. Get_enter sample_env ''xyz'' busy_client = (Following 0, c') \<and> cl_calls busy_client 0 = Some (''xyz'', None)"
proof -
  have "\<exists>c'. Get_enter sample_env ''xyz'' busy_client = (Following 0, c')" by (simp add: client_eval)
  then show ?thesis
    using one_fetch_in_flight_per_object [OF busy_client_run cold_client_inv] by blast
qed

text \<open>
  The byte path does not check what it fetches: wrong bytes from the store are cached on disk
  under the requested address, and a later local lookup hands out their path as resolved.
\<close>

lemma unverified_fetch_poisons_the_cache:
  "let h = replicate 64 CHR ''a'';
       (_, c1) = Get_enter sample_env h cold_client;
       (r, c2) = Get_lead sample_env None h 0 (Inr ''evil'') c1;
       (q, c3) = LocalPath_enter sample_env False None h c2
   in r = Inr ''evil'' \<and> q = Resolved (l2_path h, 4) \<and> dc_files (cl_l2 c3) (l2_path h) = Some (Regular ''evil'' 7)"
proof -
  define h where "h = replicate 64 (CHR ''a'')"
  have "length h = 64" by (simp add: h_def)
  then have ne: "h \<noteq> ''abc''" by auto
  obtain c1 where c1: "Get_enter sample_env h cold_client = (Leading 0, c1)" "cl_l1 c1 = newMemCache 100"
    "cl_l2 c1 = newDiskCache ''/cache'' 0 [l2_path ''abc'' \<mapsto> Regular ''abc'' 3]"
    using ne by (simp add: client_eval)
  have put: "l2_Put sample_env h None ''evil'' (cl_l2 c1) = (None, (cl_l2 c1)\<lparr>
      dc_files := [l2_path ''abc'' \<mapsto> Regular ''abc'' 3, l2_path h \<mapsto> Regular ''evil'' 7],
      dc_entries := [h \<mapsto> \<lparr> ce_size = 4, ce_accessed = 7 \<rparr>], dc_total := 4 \<rparr>)"
    by (simp add: c1 l2_Put_def PutBytes_def install_def ensureIndexed_def newDiskCache_def commit_install_def sample_env_def Let_def
        split: sum.split)
  obtain c2 where c2: "Get_lead sample_env None h 0 (Inr ''evil'') c1 = (Inr ''evil'', c2)"
    "dc_files (cl_l2 c2) (l2_path h) = Some (Regular ''evil'' 7)"
    using put by (simp add: Get_lead_def warmL2_def finishFetch_def Let_def)
  obtain c3 where c3: "LocalPath_enter sample_env False None h c2 = (Resolved (l2_path h, 4), c3)" "cl_l2 c3 = cl_l2 c2"
    using c2(2) by (simp add: LocalPath_enter_def ContextPath_def l2_Path_def l2_stat_def sample_env_def)
  show ?thesis unfolding h_def [symmetric] using c1(1) c2 c3 by simp
qed

end
