(* ===== verification/Object_Store.thy ===== *)
theory Object_Store
  imports Prelude
begin

text \<open>
  The content-addressed object store, \<open>objectstore/internal/store\<close>: the address grammar, the
  contract every backend promises (locale \<open>content_store\<close>) and the in-process backend of
  \<open>memory.go\<close> and \<open>memory_staging.go\<close>. The digest function (SHA-256, hex encoded) is the parameter
  \<open>sha\<close>; the only fact ever used about it is that its values are canonical addresses.
\<close>

section \<open>Addresses and readers\<close>

definition SHA256HexLen :: nat where "SHA256HexLen = 64"

definition hex_digit :: "char \<Rightarrow> bool" where
  "hex_digit c \<longleftrightarrow> \<not> ((of_char c < (48::nat) \<or> of_char c > (57::nat)) \<and> (of_char c < (97::nat) \<or> of_char c > (102::nat)))"

definition CanonicalContentAddress :: "string \<Rightarrow> bool" where
  "CanonicalContentAddress key \<longleftrightarrow> length key = SHA256HexLen \<and> list_all hex_digit key"

datatype store_error =
    ErrInvalidContentAddress
  | ErrContentAddressMismatch
  | ErrObjectNotFound
  | ErrIntegrityViolation
  | ErrStagingNotFound
  | ErrStagingSession
  | ContentLengthMismatch
  | BodyTooLarge
  | IOFailure

text \<open>An \<open>io.Reader\<close> delivers some bytes and then ends, with or without an error.\<close>

type_synonym reader = "bytes \<times> store_error option"

definition stagingSessionGrammar :: "string \<Rightarrow> bool" where
  "stagingSessionGrammar s \<longleftrightarrow> 1 \<le> length s \<and> length s \<le> 128 \<and>
     list_all (\<lambda>c. (of_char c \<in> {65..90::nat}) \<or> (of_char c \<in> {97..122::nat}) \<or> (of_char c \<in> {48..57::nat})
                 \<or> c = CHR ''_'' \<or> c = CHR ''-'') s"

record Integrity =
  ig_Key :: string
  ig_SHA256 :: string
  ig_SizeBytes :: int
  ig_OK :: bool

record IntegrityReport =
  ir_Objects :: nat
  ir_Verified :: nat
  ir_Failures :: "Integrity list"
  ir_Staging :: "string list"

definition Clean :: "IntegrityReport \<Rightarrow> bool" where
  "Clean r \<longleftrightarrow> ir_Failures r = [] \<and> ir_Staging r = []"

section \<open>The contract of a backend\<close>

text \<open>
  What a reader of the store relies on: an accepted write makes exactly those bytes readable
  under their digest, a refused one makes nothing readable that does not match its address, and
  no write touches another key.
\<close>

locale content_store =
  fixes sha :: "bytes \<Rightarrow> string"
    and inv :: "'s \<Rightarrow> bool"
    and read :: "'s \<Rightarrow> string \<Rightarrow> bytes option"
    and put :: "string \<Rightarrow> reader \<Rightarrow> int \<Rightarrow> 's \<Rightarrow> (store_error, unit) result \<times> 's"
  assumes put_inv: "inv s \<Longrightarrow> inv (snd (put k rd sz s))"
    and put_accepted: "inv s \<Longrightarrow> fst (put k rd sz s) = Inr () \<Longrightarrow>
      sha (fst rd) = k \<and> snd rd = None \<and> read (snd (put k rd sz s)) k = Some (fst rd)"
    and put_key: "inv s \<Longrightarrow> read (snd (put k rd sz s)) k = read s k
      \<or> read (snd (put k rd sz s)) k = Some (fst rd) \<and> sha (fst rd) = k"
    and put_others: "inv s \<Longrightarrow> k' \<noteq> k \<Longrightarrow> read (snd (put k rd sz s)) k' = read s k'"
    and read_sound: "inv s \<Longrightarrow> read s k = Some d \<Longrightarrow> sha d = k"
begin

fun puts :: "(string \<times> reader \<times> int) list \<Rightarrow> 's \<Rightarrow> 's" where
  "puts [] s = s"
| "puts ((k, rd, sz) # ws) s = puts ws (snd (put k rd sz s))"

lemma puts_inv: "inv s \<Longrightarrow> inv (puts ws s)"
  by (induction ws arbitrary: s) (auto simp: put_inv)

lemma put_present: "inv s \<Longrightarrow> read s k \<noteq> None \<Longrightarrow> read (snd (put k' rd sz s)) k \<noteq> None"
  using put_key [of s k' rd sz] put_others [of s k k' rd sz] by (cases "k = k'") auto

lemma puts_present: "inv s \<Longrightarrow> read s k \<noteq> None \<Longrightarrow> read (puts ws s) k \<noteq> None"
proof (induction ws arbitrary: s)
  case (Cons w ws)
  obtain k' rd sz where "w = (k', rd, sz)" by (cases w) auto
  then show ?case using Cons.IH [OF put_inv put_present] Cons.prems by simp
qed simp

text \<open>Once bytes are readable, every later reader gets bytes with the same digest.\<close>

lemma reads_agree:
  assumes "inv s" and "read s k = Some d"
  shows "\<exists>d'. read (puts ws s) k = Some d' \<and> sha d' = sha d"
  using puts_present [OF assms(1), of k ws] puts_inv [OF assms(1), of ws] read_sound assms by fastforce

lemma put_then_read:
  assumes "inv s" and "fst (put k rd sz s) = Inr ()"
  shows "\<exists>d'. read (puts ws (snd (put k rd sz s))) k = Some d' \<and> sha d' = k"
  using reads_agree [OF put_inv [OF assms(1)]] put_accepted [OF assms] by metis

end

section \<open>The in-process backend\<close>

record Memory =
  m_objects :: "string \<rightharpoonup> bytes \<times> gotime"
  m_pending :: "string \<rightharpoonup> bytes \<times> string"

definition NewMemory :: Memory where
  "NewMemory = \<lparr> m_objects = Map.empty, m_pending = Map.empty \<rparr>"

definition mem_PutReader ::
  "(bytes \<Rightarrow> string) \<Rightarrow> gotime \<Rightarrow> string \<Rightarrow> reader \<Rightarrow> int \<Rightarrow> Memory \<Rightarrow> (store_error, unit) result \<times> Memory" where
  "mem_PutReader sha clk key rd sz m =
     (if \<not> CanonicalContentAddress key then (Inl ErrInvalidContentAddress, m)
      else case rd of (data, err) \<Rightarrow>
        (case err of
           Some e \<Rightarrow> (Inl e, m)
         | None \<Rightarrow>
             (if sz \<ge> 0 \<and> int (length data) \<noteq> sz then (Inl ContentLengthMismatch, m)
              else if sha data \<noteq> key then (Inl ErrContentAddressMismatch, m)
              else (Inr (), m\<lparr> m_objects := (m_objects m)(key \<mapsto> (data, clk)) \<rparr>))))"

definition mem_Put ::
  "(bytes \<Rightarrow> string) \<Rightarrow> gotime \<Rightarrow> string \<Rightarrow> bytes \<Rightarrow> Memory \<Rightarrow> (store_error, unit) result \<times> Memory" where
  "mem_Put sha clk key data m = mem_PutReader sha clk key (data, None) (int (length data)) m"

definition mem_Get :: "string \<Rightarrow> Memory \<Rightarrow> (store_error, bytes \<times> int \<times> gotime) result" where
  "mem_Get key m =
     (if \<not> CanonicalContentAddress key then Inl ErrInvalidContentAddress
      else case m_objects m key of
        None \<Rightarrow> Inl ErrObjectNotFound
      | Some (data, modTime) \<Rightarrow> Inr (data, int (length data), modTime))"

text \<open>\<open>Verify\<close> returns the measured facts with the error.\<close>

definition mem_Verify :: "(bytes \<Rightarrow> string) \<Rightarrow> string \<Rightarrow> Memory \<Rightarrow> Integrity \<times> store_error option" where
  "mem_Verify sha key m =
     (let none = \<lparr> ig_Key = key, ig_SHA256 = [], ig_SizeBytes = 0, ig_OK = False \<rparr> in
      if \<not> CanonicalContentAddress key then (none, Some ErrInvalidContentAddress)
      else case m_objects m key of
        None \<Rightarrow> (none, Some ErrObjectNotFound)
      | Some (data, _) \<Rightarrow>
          (let got = sha data;
               result = none\<lparr> ig_SHA256 := got, ig_SizeBytes := int (length data) \<rparr>
           in if got \<noteq> key then (result, Some ErrIntegrityViolation)
              else (result\<lparr> ig_OK := True \<rparr>, None)))"

fun scan_keys :: "(bytes \<Rightarrow> string) \<Rightarrow> Memory \<Rightarrow> string list \<Rightarrow> IntegrityReport \<Rightarrow> (store_error, IntegrityReport) result" where
  "scan_keys sha m [] report = Inr report"
| "scan_keys sha m (key # keys) report0 =
     (let report = report0\<lparr> ir_Objects := ir_Objects report0 + 1 \<rparr> in
      case mem_Verify sha key m of
        (_, None) \<Rightarrow> scan_keys sha m keys (report\<lparr> ir_Verified := ir_Verified report + 1 \<rparr>)
      | (_, Some ErrObjectNotFound) \<Rightarrow> scan_keys sha m keys report
      | (verified, Some ErrIntegrityViolation) \<Rightarrow>
          scan_keys sha m keys (report\<lparr> ir_Failures := ir_Failures report @ [verified\<lparr> ig_OK := False \<rparr>] \<rparr>)
      | (_, Some e) \<Rightarrow> Inl e)"

definition empty_report :: IntegrityReport where
  "empty_report = \<lparr> ir_Objects = 0, ir_Verified = 0, ir_Failures = [], ir_Staging = [] \<rparr>"

definition mem_Scan :: "(bytes \<Rightarrow> string) \<Rightarrow> string list \<Rightarrow> Memory \<Rightarrow> (store_error, IntegrityReport) result" where
  "mem_Scan sha ord m = scan_keys sha m (sort ord) empty_report"

definition mem_StagingWrite ::
  "(bytes \<Rightarrow> string) \<Rightarrow> string \<Rightarrow> reader \<Rightarrow> Memory \<Rightarrow> (store_error, string \<times> int) result \<times> Memory" where
  "mem_StagingWrite sha session rd m =
     (if \<not> stagingSessionGrammar session then (Inl ErrStagingSession, m)
      else case rd of (data, err) \<Rightarrow>
        (case err of
           Some e \<Rightarrow> (Inl e, m)
         | None \<Rightarrow> (Inr (sha data, int (length data)),
                    m\<lparr> m_pending := (m_pending m)(session \<mapsto> (data, sha data)) \<rparr>)))"

definition mem_StagingFinalize ::
  "gotime \<Rightarrow> string \<Rightarrow> string \<Rightarrow> Memory \<Rightarrow> (store_error, unit) result \<times> Memory" where
  "mem_StagingFinalize clk session digest0 m =
     (if \<not> stagingSessionGrammar session then (Inl ErrStagingSession, m)
      else
        (let digest = ToLower (TrimSpace digest0) in
         if \<not> CanonicalContentAddress digest then (Inl ErrInvalidContentAddress, m)
         else case m_pending m session of
           None \<Rightarrow> (Inl ErrStagingNotFound, m)
         | Some (data, recorded) \<Rightarrow>
             (if recorded \<noteq> digest then
                (Inl ErrContentAddressMismatch, m\<lparr> m_pending := (m_pending m)(session := None) \<rparr>)
              else
                (Inr (), m\<lparr> m_objects := (m_objects m)(digest \<mapsto> (data, clk)),
                            m_pending := (m_pending m)(session := None) \<rparr>))))"

definition mem_StagingAbort :: "string \<Rightarrow> Memory \<Rightarrow> (store_error, unit) result \<times> Memory" where
  "mem_StagingAbort session m =
     (if \<not> stagingSessionGrammar session then (Inl ErrStagingSession, m)
      else (Inr (), m\<lparr> m_pending := (m_pending m)(session := None) \<rparr>))"

section \<open>The invariant of the in-process backend\<close>

definition mem_store_wf :: "(bytes \<Rightarrow> string) \<Rightarrow> Memory \<Rightarrow> bool" where
  "mem_store_wf sha m \<longleftrightarrow>
     (\<forall>k d t. m_objects m k = Some (d, t) \<longrightarrow> CanonicalContentAddress k \<and> sha d = k) \<and>
     (\<forall>s d g. m_pending m s = Some (d, g) \<longrightarrow> sha d = g)"

definition mem_read :: "Memory \<Rightarrow> string \<Rightarrow> bytes option" where
  "mem_read m k = (case mem_Get k m of Inl _ \<Rightarrow> None | Inr (d, _) \<Rightarrow> Some d)"

lemma mem_read_eq: "mem_store_wf sha m \<Longrightarrow> mem_read m k = map_option fst (m_objects m k)"
  by (auto simp: mem_read_def mem_Get_def mem_store_wf_def split: option.splits)

lemma mem_PutReader_wf [wf_intros]: "mem_store_wf sha m \<Longrightarrow> mem_store_wf sha (snd (mem_PutReader sha clk k rd sz m))"
  by (auto simp: mem_store_wf_def mem_PutReader_def split: prod.splits option.splits)

lemma mem_StagingWrite_wf [wf_intros]: "mem_store_wf sha m \<Longrightarrow> mem_store_wf sha (snd (mem_StagingWrite sha s rd m))"
  by (auto simp: mem_store_wf_def mem_StagingWrite_def split: prod.splits option.splits)

lemma mem_StagingFinalize_wf [wf_intros]: "mem_store_wf sha m \<Longrightarrow> mem_store_wf sha (snd (mem_StagingFinalize clk s g m))"
  by (auto simp: mem_store_wf_def mem_StagingFinalize_def Let_def split: prod.splits option.splits if_splits)

lemma mem_StagingAbort_wf [wf_intros]: "mem_store_wf sha m \<Longrightarrow> mem_store_wf sha (snd (mem_StagingAbort s m))"
  by (auto simp: mem_store_wf_def mem_StagingAbort_def)

interpretation memory: content_store sha "mem_store_wf sha" mem_read "mem_PutReader sha clk" for sha clk
proof (unfold_locales, goal_cases)
  case (1 s k rd sz)
  then show ?case by (rule mem_PutReader_wf)
next
  case (2 s k rd sz)
  then show ?case
    using mem_read_eq [OF mem_PutReader_wf [OF 2(1)]]
    by (auto simp: mem_PutReader_def split: if_splits prod.splits option.splits)
next
  case (3 s k rd sz)
  then show ?case
    using mem_read_eq [OF mem_PutReader_wf [OF 3]] mem_read_eq [OF 3]
    by (auto simp: mem_PutReader_def split: if_splits prod.splits option.splits)
next
  case (4 s k' k rd sz)
  then show ?case
    using mem_read_eq [OF mem_PutReader_wf [OF 4(1)]] mem_read_eq [OF 4(1)]
    by (auto simp: mem_PutReader_def split: if_splits prod.splits option.splits)
next
  case (5 s k d)
  then show ?case using mem_read_eq [OF 5(1), of k] by (auto simp: mem_store_wf_def)
qed

section \<open>Properties\<close>

datatype store_call =
    SPut gotime string reader int
  | SStage string reader
  | SFinalize gotime string string
  | SAbort string

fun mem_store_exec :: "(bytes \<Rightarrow> string) \<Rightarrow> Memory \<Rightarrow> store_call \<Rightarrow> Memory" where
  "mem_store_exec sha m (SPut clk k rd sz) = snd (mem_PutReader sha clk k rd sz m)"
| "mem_store_exec sha m (SStage s rd) = snd (mem_StagingWrite sha s rd m)"
| "mem_store_exec sha m (SFinalize clk s g) = snd (mem_StagingFinalize clk s g m)"
| "mem_store_exec sha m (SAbort s) = snd (mem_StagingAbort s m)"

lemma mem_store_exec_wf: "mem_store_wf sha m \<Longrightarrow> mem_store_wf sha (mem_store_exec sha m c)"
  by (cases c) (auto intro: wf_intros)

lemma mem_store_run_wf: "mem_store_wf sha m \<Longrightarrow> mem_store_wf sha (foldl (mem_store_exec sha) m cs)"
  by (induction cs arbitrary: m) (auto intro: mem_store_exec_wf)

text \<open>
  The in-process store never serves bytes under a wrong address: after any sequence of
  writes, staged writes, finalizations and aborts, with any readers and any asserted digests,
  whatever \<open>Get\<close> returns for a key hashes to that key, and \<open>Verify\<close> of a stored key succeeds.
\<close>

theorem memory_store_is_content_addressed:
  assumes "m = foldl (mem_store_exec sha) NewMemory cs" and "mem_Get k m = Inr (d, n, t)"
  shows "sha d = k \<and> n = int (length d) \<and> snd (mem_Verify sha k m) = None"
proof -
  have "mem_store_wf sha m"
    unfolding assms(1) by (rule mem_store_run_wf) (simp add: mem_store_wf_def NewMemory_def)
  then show ?thesis using assms(2)
    by (auto simp: mem_store_wf_def mem_Get_def mem_Verify_def Let_def split: if_splits option.splits)
qed

text \<open>A toy digest with canonical values, for evaluation on concrete inputs.\<close>

definition toy_sha :: "bytes \<Rightarrow> string" where
  "toy_sha d = replicate 63 (CHR ''0'') @ [if even (length d) then CHR ''0'' else CHR ''1'']"

lemma toy_sha_canonical: "CanonicalContentAddress (toy_sha d)"
  by (simp add: CanonicalContentAddress_def SHA256HexLen_def toy_sha_def list_all_iff hex_digit_def)

theorem memory_store_is_content_addressed_witness:
  "\<exists>d n t. mem_Get (toy_sha ''abc'') (foldl (mem_store_exec toy_sha) NewMemory
        [SPut 6 (toy_sha ''abc'') (''ab'', None) 2, SPut 7 (toy_sha ''abc'') (''abc'', None) 3]) = Inr (d, n, t)
      \<and> toy_sha d = toy_sha ''abc'' \<and> n = 3"
proof -
  let ?cs = "[SPut 6 (toy_sha ''abc'') (''ab'', None) 2, SPut 7 (toy_sha ''abc'') (''abc'', None) 3]"
  have get: "mem_Get (toy_sha ''abc'') (foldl (mem_store_exec toy_sha) NewMemory ?cs) = Inr (''abc'', 3, 7)"
    by (simp add: mem_Get_def toy_sha_canonical mem_PutReader_def NewMemory_def)
  from memory_store_is_content_addressed [OF refl get] get show ?thesis by simp
qed

end
