(* ===== verification/Object_Disk.thy ===== *)
theory Object_Disk
  imports Object_Store
begin

text \<open>
  The disk backend of the object store, \<open>objectstore/internal/store/store.go\<close>, \<open>staging.go\<close> and
  \<open>integrity.go\<close>, with every system call allowed to fail. The argument \<open>ok\<close> says which calls
  succeed; a failed write of the digest sidecar may also leave a torn file behind.
\<close>

section \<open>The file system\<close>

text \<open>
  The tree below the data directory: \<open>objects/<shard>/<name>\<close>, and in \<open>staging\<close> the pending bytes
  and the digest sidecar of each session. Temporary files that could not be removed stay in
  their shard under their temporary name.
\<close>

record Disk =
  dk_objects :: "string \<times> string \<rightharpoonup> bytes"
  dk_pending :: "string \<rightharpoonup> bytes"
  dk_digest :: "string \<rightharpoonup> bytes"

datatype syscall =
    MkdirAll | CreateTemp | CopyToTemp | CloseTemp | SyncTemp | RenameTemp | OpenDir | SyncDir | RemoveTemp
  | WriteDigest | ReadDigest | MkdirShard | SyncPending | RenamePending | RemoveDigest | RemovePending | OpenObject

definition path :: "string \<Rightarrow> string \<times> string" where
  "path key = ((if length key > 2 then take 2 key else key), key)"

definition stagingPrefix :: string where "stagingPrefix = ''.object-''"

section \<open>Writes\<close>

text \<open>The deferred removal of the temporary file, which ends every path that did not rename it.\<close>

definition drop_temp ::
  "(syscall \<Rightarrow> bool) \<Rightarrow> string \<Rightarrow> string \<Rightarrow> bytes \<Rightarrow> Disk \<Rightarrow> Disk" where
  "drop_temp ok key tmp data s =
     (if ok RemoveTemp then s
      else s\<lparr> dk_objects := (dk_objects s)((fst (path key), stagingPrefix @ tmp) \<mapsto> data) \<rparr>)"

text \<open>What goes wrong, if anything, until the temporary file is complete and closed.\<close>

definition copy_error :: "(syscall \<Rightarrow> bool) \<Rightarrow> reader \<Rightarrow> int \<Rightarrow> store_error option" where
  "copy_error ok rd sz =
     (case snd rd of
        Some e \<Rightarrow> Some e
      | None \<Rightarrow>
          (if \<not> ok CopyToTemp then Some IOFailure
           else if sz \<ge> 0 \<and> int (length (fst rd)) \<noteq> sz then Some ContentLengthMismatch
           else if \<not> ok CloseTemp then Some IOFailure else None))"

definition PutReader ::
  "(bytes \<Rightarrow> string) \<Rightarrow> (syscall \<Rightarrow> bool) \<Rightarrow> string \<Rightarrow> string \<Rightarrow> reader \<Rightarrow> int \<Rightarrow> Disk \<Rightarrow>
     (store_error, unit) result \<times> Disk" where
  "PutReader sha ok tmp key rd sz s =
     (if \<not> CanonicalContentAddress key then (Inl ErrInvalidContentAddress, s)
      else if \<not> ok MkdirAll then (Inl IOFailure, s)
      else if \<not> ok CreateTemp then (Inl IOFailure, s)
      else
        (let data = fst rd; left = drop_temp ok key tmp data s in
         case copy_error ok rd sz of
           Some e \<Rightarrow> (Inl e, left)
         | None \<Rightarrow>
             (if sha data \<noteq> key then (Inl ErrContentAddressMismatch, left)
              else if \<not> ok SyncTemp then (Inl IOFailure, left)
              else if \<not> ok RenameTemp then (Inl IOFailure, left)
              else
                (let s' = s\<lparr> dk_objects := (dk_objects s)(path key \<mapsto> data) \<rparr> in
                 if \<not> ok OpenDir then (Inl IOFailure, s')
                 else if \<not> ok SyncDir then (Inl IOFailure, s')
                 else (Inr (), s')))))"

definition Put ::
  "(bytes \<Rightarrow> string) \<Rightarrow> (syscall \<Rightarrow> bool) \<Rightarrow> string \<Rightarrow> string \<Rightarrow> bytes \<Rightarrow> Disk \<Rightarrow> (store_error, unit) result \<times> Disk" where
  "Put sha ok tmp key data s = PutReader sha ok tmp key (data, None) (int (length data)) s"

section \<open>Reads\<close>

definition Open :: "(syscall \<Rightarrow> bool) \<Rightarrow> string \<Rightarrow> Disk \<Rightarrow> (store_error, bytes \<times> int) result" where
  "Open ok key s =
     (if \<not> CanonicalContentAddress key then Inl ErrInvalidContentAddress
      else case dk_objects s (path key) of
        None \<Rightarrow> Inl ErrObjectNotFound
      | Some data \<Rightarrow> (if \<not> ok OpenObject then Inl IOFailure else Inr (data, int (length data))))"

definition Verify :: "(bytes \<Rightarrow> string) \<Rightarrow> (syscall \<Rightarrow> bool) \<Rightarrow> string \<Rightarrow> Disk \<Rightarrow> Integrity \<times> store_error option" where
  "Verify sha ok key s =
     (let none = \<lparr> ig_Key = key, ig_SHA256 = [], ig_SizeBytes = 0, ig_OK = False \<rparr> in
      case Open ok key s of
        Inl e \<Rightarrow> (none, Some e)
      | Inr (data, n) \<Rightarrow>
          (let result = none\<lparr> ig_SHA256 := sha data, ig_SizeBytes := n \<rparr> in
           if sha data \<noteq> key then (result, Some ErrIntegrityViolation)
           else (result\<lparr> ig_OK := True \<rparr>, None)))"

text \<open>\<open>ord\<close> is the list of files below \<open>objects\<close> in the order of the walk.\<close>

fun scan_files ::
  "(bytes \<Rightarrow> string) \<Rightarrow> (syscall \<Rightarrow> bool) \<Rightarrow> Disk \<Rightarrow> (string \<times> string) list \<Rightarrow> IntegrityReport \<Rightarrow>
     (store_error, IntegrityReport) result" where
  "scan_files sha ok s [] report = Inr report"
| "scan_files sha ok s ((shard, name) # files) report0 =
     (if take (length stagingPrefix) name = stagingPrefix then
        scan_files sha ok s files (report0\<lparr> ir_Staging := ir_Staging report0 @ [shard @ ''/'' @ name] \<rparr>)
      else
        (let report = report0\<lparr> ir_Objects := ir_Objects report0 + 1 \<rparr>;
             entry = \<lparr> ig_Key = name, ig_SHA256 = [], ig_SizeBytes = 0, ig_OK = False \<rparr>;
             failed = (\<lambda>e. scan_files sha ok s files (report\<lparr> ir_Failures := ir_Failures report @ [e] \<rparr>))
         in if \<not> CanonicalContentAddress name then failed entry
            else if shard \<noteq> take 2 name then failed entry
            else case Verify sha ok name s of
              (_, None) \<Rightarrow> scan_files sha ok s files (report\<lparr> ir_Verified := ir_Verified report + 1 \<rparr>)
            | (_, Some ErrObjectNotFound) \<Rightarrow> scan_files sha ok s files report
            | (v, Some ErrIntegrityViolation) \<Rightarrow>
                failed (entry\<lparr> ig_SHA256 := ig_SHA256 v, ig_SizeBytes := ig_SizeBytes v \<rparr>)
            | (_, Some e) \<Rightarrow> Inl e))"

definition Scan ::
  "(bytes \<Rightarrow> string) \<Rightarrow> (syscall \<Rightarrow> bool) \<Rightarrow> (string \<times> string) list \<Rightarrow> Disk \<Rightarrow> (store_error, IntegrityReport) result" where
  "Scan sha ok ord s = scan_files sha ok s ord empty_report"

section \<open>Staging\<close>

text \<open>
  The two visible effects of a staged write: the pending bytes are renamed into place, then the
  sidecar is written. They are separate system calls.
\<close>

definition stage_bytes :: "string \<Rightarrow> bytes \<Rightarrow> Disk \<Rightarrow> Disk" where
  "stage_bytes session data s = s\<lparr> dk_pending := (dk_pending s)(session \<mapsto> data) \<rparr>"

definition stage_digest :: "string \<Rightarrow> bytes \<Rightarrow> Disk \<Rightarrow> Disk" where
  "stage_digest session content s = s\<lparr> dk_digest := (dk_digest s)(session \<mapsto> content) \<rparr>"

text \<open>
  \<open>torn\<close> is what a failed write of the sidecar left: \<open>None\<close> when the file could not be opened, so that a
  sidecar of an earlier write under the same session is still there, \<open>Some n\<close> when it was truncated
  and \<open>n\<close> bytes of the new digest line were written.
\<close>

definition StagingWrite ::
  "(bytes \<Rightarrow> string) \<Rightarrow> (syscall \<Rightarrow> bool) \<Rightarrow> nat option \<Rightarrow> string \<Rightarrow> reader \<Rightarrow> Disk \<Rightarrow>
     (store_error, string \<times> int) result \<times> Disk" where
  "StagingWrite sha ok torn session rd s =
     (if \<not> stagingSessionGrammar session then (Inl ErrStagingSession, s)
      else if \<not> ok MkdirAll then (Inl IOFailure, s)
      else if \<not> ok CreateTemp then (Inl IOFailure, s)
      else case rd of (data, rerr) \<Rightarrow>
        (case rerr of
           Some e \<Rightarrow> (Inl e, s)
         | None \<Rightarrow>
             (if \<not> ok CopyToTemp \<or> \<not> ok CloseTemp then (Inl IOFailure, s)
              else if \<not> ok SyncTemp then (Inl IOFailure, s)
              else if \<not> ok RenameTemp then (Inl IOFailure, s)
              else
                (let s' = stage_bytes session data s in
                 if \<not> ok WriteDigest then
                   (Inl IOFailure, case torn of None \<Rightarrow> s'
                     | Some n \<Rightarrow> stage_digest session (take n (sha data @ [CHR 0x0A])) s')
                 else (Inr (sha data, int (length data)), stage_digest session (sha data @ [CHR 0x0A]) s')))))"

definition StagingAbort ::
  "(syscall \<Rightarrow> bool) \<Rightarrow> string \<Rightarrow> Disk \<Rightarrow> (store_error, unit) result \<times> Disk" where
  "StagingAbort ok session s =
     (if \<not> stagingSessionGrammar session then (Inl ErrStagingSession, s)
      else
        (let s1 = (if ok RemovePending then s\<lparr> dk_pending := (dk_pending s)(session := None) \<rparr> else s);
             s2 = (if ok RemoveDigest then s1\<lparr> dk_digest := (dk_digest s1)(session := None) \<rparr> else s1)
         in (if (\<not> ok RemovePending \<and> session \<in> dom (dk_pending s)) \<or> (\<not> ok RemoveDigest \<and> session \<in> dom (dk_digest s))
             then Inl IOFailure else Inr (), s2)))"

definition StagingFinalize ::
  "(syscall \<Rightarrow> bool) \<Rightarrow> string \<Rightarrow> string \<Rightarrow> Disk \<Rightarrow> (store_error, unit) result \<times> Disk" where
  "StagingFinalize ok session digest0 s =
     (if \<not> stagingSessionGrammar session then (Inl ErrStagingSession, s)
      else
        (let digest = ToLower (TrimSpace digest0) in
         if \<not> CanonicalContentAddress digest then (Inl ErrInvalidContentAddress, s)
         else case dk_digest s session of
           None \<Rightarrow> (Inl ErrStagingNotFound, s)
         | Some recorded \<Rightarrow>
             (if \<not> ok ReadDigest then (Inl IOFailure, s)
              else if ToLower (TrimSpace recorded) \<noteq> digest then
                (Inl ErrContentAddressMismatch, snd (StagingAbort ok session s))
              else if \<not> ok MkdirShard then (Inl IOFailure, s)
              else case dk_pending s session of
                None \<Rightarrow> (Inl IOFailure, s)
              | Some data \<Rightarrow>
                  (if \<not> ok SyncPending then (Inl IOFailure, s)
                   else if \<not> ok RenamePending then (Inl IOFailure, s)
                   else
                     (let s1 = s\<lparr> dk_objects := (dk_objects s)(path digest \<mapsto> data),
                                  dk_pending := (dk_pending s)(session := None) \<rparr>;
                          s2 = (if ok RemoveDigest then s1\<lparr> dk_digest := (dk_digest s1)(session := None) \<rparr> else s1)
                      in if \<not> ok OpenDir then (Inl IOFailure, s2)
                         else if \<not> ok SyncDir then (Inl IOFailure, s2)
                         else (Inr (), s2))))))"

section \<open>Invariants\<close>

definition disk_wf :: "(bytes \<Rightarrow> string) \<Rightarrow> Disk \<Rightarrow> bool" where
  "disk_wf sha s \<longleftrightarrow> (\<forall>k d. CanonicalContentAddress k \<longrightarrow> dk_objects s (path k) = Some d \<longrightarrow> sha d = k)"

definition staging_wf :: "(bytes \<Rightarrow> string) \<Rightarrow> Disk \<Rightarrow> bool" where
  "staging_wf sha s \<longleftrightarrow> (\<forall>i d r. dk_pending s i = Some d \<longrightarrow> dk_digest s i = Some r \<longrightarrow>
     CanonicalContentAddress (ToLower (TrimSpace r)) \<longrightarrow> ToLower (TrimSpace r) = sha d)"

definition disk_read :: "Disk \<Rightarrow> string \<Rightarrow> bytes option" where
  "disk_read s k = (if CanonicalContentAddress k then dk_objects s (path k) else None)"

lemma path_inj [simp]: "path a = path b \<longleftrightarrow> a = b"
  by (auto simp: path_def)

lemma staging_prefix_not_canonical: "\<not> CanonicalContentAddress (stagingPrefix @ tmp)"
  by (simp add: CanonicalContentAddress_def stagingPrefix_def hex_digit_def)

lemma temp_is_no_object: "CanonicalContentAddress k \<Longrightarrow> path k \<noteq> (shard, stagingPrefix @ tmp)"
  using staging_prefix_not_canonical by (auto simp: path_def)

lemma drop_temp_read [simp]:
  "CanonicalContentAddress k \<Longrightarrow> dk_objects (drop_temp ok key tmp d s) (path k) = dk_objects s (path k)"
  using temp_is_no_object [of k "fst (path key)" tmp] by (simp add: drop_temp_def)

lemma PutReader_cases:
  obtains (Refused) e where "fst (PutReader sha ok tmp key rd sz s) = Inl e"
      "\<And>k. CanonicalContentAddress k \<Longrightarrow> dk_objects (snd (PutReader sha ok tmp key rd sz s)) (path k) = dk_objects s (path k)"
  | (Installed) "CanonicalContentAddress key" "sha (fst rd) = key" "snd rd = None"
      "snd (PutReader sha ok tmp key rd sz s) = s\<lparr> dk_objects := (dk_objects s)(path key \<mapsto> fst rd) \<rparr>"
proof (cases "fst (PutReader sha ok tmp key rd sz s)
    \<in> {Inl IOFailure, Inr ()} \<and> snd (PutReader sha ok tmp key rd sz s) = s\<lparr> dk_objects := (dk_objects s)(path key \<mapsto> fst rd) \<rparr>
    \<and> CanonicalContentAddress key \<and> sha (fst rd) = key \<and> snd rd = None")
  case True
  then show ?thesis using Installed by blast
next
  case False
  have none: "copy_error ok rd sz = None \<Longrightarrow> snd rd = None" by (auto simp: copy_error_def split: option.splits)
  from False have "\<exists>e. fst (PutReader sha ok tmp key rd sz s) = Inl e
      \<and> (snd (PutReader sha ok tmp key rd sz s) = s \<or> snd (PutReader sha ok tmp key rd sz s) = drop_temp ok key tmp (fst rd) s)"
    using none unfolding PutReader_def Let_def by (simp split: option.splits if_splits)
  then show ?thesis using Refused by fastforce
qed

lemma PutReader_wf [wf_intros]: "disk_wf sha s \<Longrightarrow> disk_wf sha (snd (PutReader sha ok tmp key rd sz s))"
  by (cases rule: PutReader_cases [of sha ok tmp key rd sz s]) (auto simp: disk_wf_def)

interpretation disk: content_store sha "disk_wf sha" disk_read "PutReader sha ok tmp" for sha ok tmp
proof (unfold_locales, goal_cases)
  case (1 s k rd sz)
  then show ?case by (rule PutReader_wf)
next
  case (2 s k rd sz)
  then show ?case by (cases rule: PutReader_cases [of sha ok tmp k rd sz s]) (auto simp: disk_read_def)
next
  case (3 s k rd sz)
  show ?case by (cases rule: PutReader_cases [of sha ok tmp k rd sz s]) (auto simp: disk_read_def)
next
  case (4 s k' k rd sz)
  then show ?case by (cases rule: PutReader_cases [of sha ok tmp k rd sz s]) (auto simp: disk_read_def)
next
  case (5 s k d)
  then show ?case by (auto simp: disk_wf_def disk_read_def split: if_splits)
qed

subsection \<open>Digests survive the sidecar\<close>

lemma space_prefix_0: "(\<And>w. w \<in> set ws \<Longrightarrow> w \<noteq> [] \<and> hd w \<noteq> of_char c) \<Longrightarrow> space_prefix ws (c # cs) = 0"
proof -
  assume heads: "\<And>w. w \<in> set ws \<Longrightarrow> w \<noteq> [] \<and> hd w \<noteq> of_char c"
  have "\<not> has_prefix w (c # cs)" if "w \<in> set ws" for w
    using heads [OF that] by (cases w) (auto simp: has_prefix_def)
  then have "filter (\<lambda>w. has_prefix w (c # cs)) ws = []" by (simp add: filter_empty_conv)
  then show ?thesis by (simp add: space_prefix_def)
qed

lemma white_space_heads:
  "w \<in> set white_space \<union> set (map rev white_space) \<Longrightarrow> w \<noteq> [] \<and> (hd w \<le> 32 \<or> 128 \<le> hd w)"
  by (auto simp: white_space_def)

lemma hex_no_space:
  assumes "hex_digit c"
  shows "space_prefix white_space (c # cs) = 0" and "space_prefix (map rev white_space) (c # cs) = 0"
proof -
  have c: "48 \<le> (of_char c :: nat) \<and> (of_char c :: nat) \<le> 102" using assms by (auto simp: hex_digit_def)
  have "w \<noteq> [] \<and> hd w \<noteq> of_char c" if "w \<in> set white_space \<union> set (map rev white_space)" for w
    using white_space_heads [OF that] c by auto
  then show "space_prefix white_space (c # cs) = 0" "space_prefix (map rev white_space) (c # cs) = 0"
    by (intro space_prefix_0; blast)+
qed

lemma lower_hex [simp]: "hex_digit c \<Longrightarrow> lower_char c = c"
  by (auto simp: lower_char_def hex_digit_def)

lemma TrimSpace_hex:
  assumes hex: "list_all hex_digit d"
  shows "TrimSpace d = d"
proof -
  have ends: "trim_front ws cs = cs" if "ws = white_space \<or> ws = map rev white_space" "set cs = set d" for ws cs
  proof (cases cs)
    case (Cons c cs')
    then have "hex_digit c" using hex that(2) by (auto simp: list_all_iff)
    then show ?thesis using Cons that(1) by (auto simp: trim_front.simps [of _ "c # _"] hex_no_space)
  qed (simp add: trim_front.simps)
  show ?thesis by (simp add: TrimSpace_def TrimLeft_def TrimRight_def ends)
qed

lemma TrimSpace_canonical: "CanonicalContentAddress d \<Longrightarrow> TrimSpace d = d"
  by (simp add: CanonicalContentAddress_def TrimSpace_hex)

lemma TrimSpace_digest:
  assumes "CanonicalContentAddress d"
  shows "TrimSpace (d @ [CHR 0x0A]) = d"
proof -
  have hex: "c \<in> set d \<Longrightarrow> hex_digit c" for c using assms by (simp add: CanonicalContentAddress_def list_all_iff)
  have ne: "d \<noteq> []" using assms by (auto simp: CanonicalContentAddress_def SHA256HexLen_def)
  then obtain c cs where d: "d = c # cs" by (cases d) auto
  have left: "TrimLeft (d @ [CHR 0x0A]) = d @ [CHR 0x0A]"
    using hex [of c] by (simp add: TrimLeft_def d trim_front.simps [of _ "c # _"] hex_no_space)
  obtain e es where r: "rev d = e # es" using ne by (cases "rev d") auto
  then have e: "hex_digit e" using hex [of e] by (metis list.set_intros(1) set_rev)
  have nl: "space_prefix (map rev white_space) (CHR 0x0A # e # es) = 1"
    by (simp add: space_prefix_def has_prefix_def white_space_def)
  have "trim_front (map rev white_space) (rev (d @ [CHR 0x0A])) = e # es"
    by (simp add: r trim_front.simps [of _ "CHR 0x0A # _"] nl trim_front.simps [of _ "e # _"] hex_no_space [OF e])
  then show ?thesis
    unfolding TrimSpace_def left TrimRight_def using r by (metis rev_rev_ident)
qed

lemma ToLower_hex: "list_all hex_digit d \<Longrightarrow> ToLower d = d"
  by (auto simp: ToLower_def list_all_iff intro!: map_idI)

lemma ToLower_digest: "CanonicalContentAddress d \<Longrightarrow> ToLower d = d"
  by (auto simp: ToLower_def CanonicalContentAddress_def list_all_iff intro!: map_idI)

text \<open>A digest line that was cut short is no digest.\<close>

lemma torn_digest:
  assumes d: "CanonicalContentAddress d" and "CanonicalContentAddress (ToLower (TrimSpace (take n (d @ [CHR 0x0A]))))"
  shows "ToLower (TrimSpace (take n (d @ [CHR 0x0A]))) = d"
proof (cases "n \<le> length d")
  case True
  have hex: "list_all hex_digit (take n d)" using d by (auto simp: CanonicalContentAddress_def list_all_iff dest: in_set_takeD)
  have line: "take n (d @ [CHR 0x0A]) = take n d" using True by simp
  have "CanonicalContentAddress (take n d)" using assms(2) by (simp only: line TrimSpace_hex [OF hex] ToLower_hex [OF hex])
  then have "length d \<le> n" using d by (auto simp: CanonicalContentAddress_def)
  then show ?thesis unfolding line TrimSpace_hex [OF hex] ToLower_hex [OF hex] by simp
next
  case False
  then show ?thesis by (simp add: TrimSpace_digest [OF d] ToLower_digest [OF d])
qed

text \<open>
  A staged write never leaves the bytes of one write beside the sidecar of another unless writing the
  sidecar fails before the file is truncated and a sidecar of an earlier write is there.
\<close>

definition sidecar_fresh :: "(syscall \<Rightarrow> bool) \<Rightarrow> nat option \<Rightarrow> string \<Rightarrow> Disk \<Rightarrow> bool" where
  "sidecar_fresh ok torn session s \<longleftrightarrow> ok WriteDigest \<or> torn \<noteq> None \<or> dk_digest s session = None"

lemma StagingWrite_objects [simp]: "dk_objects (snd (StagingWrite sha ok torn i rd s)) = dk_objects s"
  by (auto simp: StagingWrite_def Let_def stage_bytes_def stage_digest_def split: prod.splits option.splits)

lemma StagingWrite_staging:
  assumes "staging_wf sha s" and canonical: "\<And>d. CanonicalContentAddress (sha d)" and "sidecar_fresh ok torn i s"
  shows "staging_wf sha (snd (StagingWrite sha ok torn i rd s))"
proof -
  obtain data rerr where rd: "rd = (data, rerr)" by fastforce
  let ?bytes = "stage_bytes i data s" and ?line = "sha data @ [CHR 0x0A]"
  have full: "staging_wf sha (stage_digest i ?line ?bytes)"
    using assms(1) by (simp add: staging_wf_def stage_bytes_def stage_digest_def TrimSpace_digest ToLower_digest canonical)
  have torn: "staging_wf sha (stage_digest i (take n ?line) ?bytes)" for n
    using assms(1) torn_digest [OF canonical, of n data]
    by (simp add: staging_wf_def stage_bytes_def stage_digest_def del: take_append)
  have "staging_wf sha ?bytes" if "dk_digest s i = None"
    using assms(1) that by (simp add: staging_wf_def stage_bytes_def)
  then have "staging_wf sha (case torn of None \<Rightarrow> ?bytes | Some n \<Rightarrow> stage_digest i (take n ?line) ?bytes)"
    if "\<not> ok WriteDigest" using that assms(3) torn by (auto simp: sidecar_fresh_def split: option.split)
  then show ?thesis using assms(1) full by (simp add: StagingWrite_def Let_def rd split: option.split)
qed

lemma StagingAbort_objects [simp]: "dk_objects (snd (StagingAbort ok i s)) = dk_objects s"
  by (simp add: StagingAbort_def Let_def)

lemma StagingAbort_staging: "staging_wf sha s \<Longrightarrow> staging_wf sha (snd (StagingAbort ok i s))"
  by (auto simp: StagingAbort_def Let_def staging_wf_def)

lemma StagingFinalize_wf:
  assumes "disk_wf sha s" and "staging_wf sha s"
  shows "disk_wf sha (snd (StagingFinalize ok i g s)) \<and> staging_wf sha (snd (StagingFinalize ok i g s))"
proof -
  have "disk_wf sha (snd (StagingFinalize ok i g s))"
    using assms by (fastforce simp: StagingFinalize_def Let_def disk_wf_def staging_wf_def split: option.splits if_splits)
  moreover have "staging_wf sha (snd (StagingFinalize ok i g s))"
    using assms(2) StagingAbort_staging [OF assms(2), of ok i]
    by (auto simp: StagingFinalize_def Let_def staging_wf_def split: option.splits)
  ultimately show ?thesis ..
qed

section \<open>Runs of the disk backend\<close>

datatype disk_call =
    DPut "syscall \<Rightarrow> bool" string string reader int
  | DStage "syscall \<Rightarrow> bool" "nat option" string reader
  | DFinalize "syscall \<Rightarrow> bool" string string
  | DAbort "syscall \<Rightarrow> bool" string

fun disk_exec :: "(bytes \<Rightarrow> string) \<Rightarrow> Disk \<Rightarrow> disk_call \<Rightarrow> Disk" where
  "disk_exec sha s (DPut ok tmp k rd sz) = snd (PutReader sha ok tmp k rd sz s)"
| "disk_exec sha s (DStage ok torn i rd) = snd (StagingWrite sha ok torn i rd s)"
| "disk_exec sha s (DFinalize ok i g) = snd (StagingFinalize ok i g s)"
| "disk_exec sha s (DAbort ok i) = snd (StagingAbort ok i s)"

text \<open>Every system call may fail, except that no failing sidecar write leaves a stale sidecar behind.\<close>

fun never_stale :: "(bytes \<Rightarrow> string) \<Rightarrow> Disk \<Rightarrow> disk_call list \<Rightarrow> bool" where
  "never_stale sha s [] \<longleftrightarrow> True"
| "never_stale sha s (c # cs) \<longleftrightarrow>
     (case c of DStage ok torn i rd \<Rightarrow> sidecar_fresh ok torn i s | _ \<Rightarrow> True) \<and> never_stale sha (disk_exec sha s c) cs"

definition NewDisk :: Disk where
  "NewDisk = \<lparr> dk_objects = Map.empty, dk_pending = Map.empty, dk_digest = Map.empty \<rparr>"

lemma PutReader_staging [simp]:
  "dk_pending (snd (PutReader sha ok tmp key rd sz s)) = dk_pending s"
  "dk_digest (snd (PutReader sha ok tmp key rd sz s)) = dk_digest s"
  by (auto simp: PutReader_def Let_def drop_temp_def split: option.splits)

lemma disk_exec_wf:
  assumes "disk_wf sha s" and "staging_wf sha s" and "\<And>d. CanonicalContentAddress (sha d)"
    and "case c of DStage ok torn i rd \<Rightarrow> sidecar_fresh ok torn i s | _ \<Rightarrow> True"
  shows "disk_wf sha (disk_exec sha s c) \<and> staging_wf sha (disk_exec sha s c)"
proof (cases c)
  case (DPut ok tmp k rd sz)
  then show ?thesis using PutReader_wf [OF assms(1)] assms(2) by (simp add: staging_wf_def)
next
  case (DStage ok torn i rd)
  then show ?thesis using StagingWrite_staging [OF assms(2,3), of ok torn i rd] assms(1,4) by (simp add: disk_wf_def)
next
  case (DFinalize ok i g)
  then show ?thesis using StagingFinalize_wf [OF assms(1,2)] by simp
next
  case (DAbort ok i)
  then show ?thesis using StagingAbort_staging [OF assms(2)] assms(1) by (simp add: disk_wf_def)
qed

lemma disk_run_wf:
  assumes "\<And>d. CanonicalContentAddress (sha d)" and "never_stale sha s cs"
    and "disk_wf sha s" and "staging_wf sha s"
  shows "disk_wf sha (foldl (disk_exec sha) s cs)"
  using assms(2-4)
proof (induction cs arbitrary: s)
  case (Cons c cs)
  then have "disk_wf sha (disk_exec sha s c) \<and> staging_wf sha (disk_exec sha s c)"
    by (intro disk_exec_wf [OF _ _ assms(1)]) simp_all
  then show ?case using Cons by simp
qed simp

section \<open>Properties\<close>

text \<open>
  C29. The disk store does not serve bytes under a wrong address: after any sequence of complete calls,
  one after the other, of writes, staged writes, finalizations and aborts, whichever of their system
  calls fail, every object that can be opened hashes to its key. A failing write of a digest sidecar
  may leave the sidecar missing or cut short at any byte; the one failure excluded is that it leaves
  the whole sidecar of an earlier write under the same session in place. Both limits are needed, see
  \<open>stale_sidecar_installs_wrong_bytes\<close> and, for overlapping calls, \<open>staging_race_installs_wrong_bytes\<close>.
\<close>

theorem disk_store_is_content_addressed:
  assumes "\<And>d. CanonicalContentAddress (sha d)" and "never_stale sha NewDisk cs"
    and "Open ok k (foldl (disk_exec sha) NewDisk cs) = Inr (d, n)"
  shows "sha d = k"
proof -
  have "disk_wf sha (foldl (disk_exec sha) NewDisk cs)"
    by (rule disk_run_wf [OF assms(1,2)]) (simp_all add: disk_wf_def staging_wf_def NewDisk_def)
  then show ?thesis using assms(3) by (auto simp: Open_def disk_wf_def split: if_splits option.splits)
qed

theorem disk_store_is_content_addressed_witness:
  "\<exists>d. Open (\<lambda>_. True) (toy_sha ''abc'') (foldl (disk_exec toy_sha) NewDisk
     [DStage (\<lambda>c. c \<noteq> WriteDigest) (Some 7) ''s'' (''xyz'', None), DPut (\<lambda>c. c \<noteq> SyncDir) ''x'' (toy_sha ''abc'') (''abc'', None) (-1)])
     = Inr (d, 3) \<and> toy_sha d = toy_sha ''abc''"
proof -
  let ?cs = "[DStage (\<lambda>c. c \<noteq> WriteDigest) (Some 7) ''s'' (''xyz'', None), DPut (\<lambda>c. c \<noteq> SyncDir) ''x'' (toy_sha ''abc'') (''abc'', None) (-1)]"
  have get: "Open (\<lambda>_. True) (toy_sha ''abc'') (foldl (disk_exec toy_sha) NewDisk ?cs) = Inr (''abc'', 3)"
    by (simp add: Open_def toy_sha_canonical PutReader_def copy_error_def Let_def)
  have "never_stale toy_sha NewDisk ?cs" by (simp add: sidecar_fresh_def)
  from disk_store_is_content_addressed [of toy_sha, OF toy_sha_canonical this get] get show ?thesis by blast
qed

text \<open>
  A sidecar that cannot be opened for writing keeps the digest of an earlier write: the bytes of the
  second write are then in place beside the digest of the first, and a finalization that asserts the
  first digest installs bytes that do not hash to it.
\<close>

theorem stale_sidecar_installs_wrong_bytes:
  "let s1 = snd (StagingWrite toy_sha (\<lambda>_. True) None ''s'' (''abc'', None) NewDisk);
       (res2, s2) = StagingWrite toy_sha (\<lambda>c. c \<noteq> WriteDigest) None ''s'' (''ab'', None) s1;
       (res3, s3) = StagingFinalize (\<lambda>_. True) ''s'' (toy_sha ''abc'') s2
   in res2 = Inl IOFailure \<and> res3 = Inr () \<and> Open (\<lambda>_. True) (toy_sha ''abc'') s3 = Inr (''ab'', 2)
      \<and> toy_sha ''ab'' \<noteq> toy_sha ''abc''"
proof -
  have g: "stagingSessionGrammar ''s''" by (simp add: stagingSessionGrammar_def)
  show ?thesis
    by (simp add: StagingFinalize_def StagingWrite_def g Let_def stage_bytes_def stage_digest_def NewDisk_def
        TrimSpace_canonical TrimSpace_digest ToLower_digest toy_sha_canonical Open_def) (simp add: toy_sha_def)
qed

text \<open>
  A staged write is not atomic: two clients that stage different bytes under the same session
  can interleave between the rename of the bytes and the write of the sidecar. The sidecar of one
  then vouches for the bytes of the other, and a finalization that asserts the recorded digest
  installs bytes that do not hash to their address, with no system call failing.
\<close>

theorem staging_race_installs_wrong_bytes:
  "let s1 = stage_bytes ''s'' ''abc'' NewDisk;
       s2 = stage_bytes ''s'' ''ab'' s1;
       s3 = stage_digest ''s'' (toy_sha ''ab'' @ [CHR 0x0A]) s2;
       s4 = stage_digest ''s'' (toy_sha ''abc'' @ [CHR 0x0A]) s3;
       (res, s5) = StagingFinalize (\<lambda>_. True) ''s'' (toy_sha ''abc'') s4
   in snd (StagingWrite toy_sha (\<lambda>_. True) None ''s'' (''abc'', None) NewDisk)
        = stage_digest ''s'' (toy_sha ''abc'' @ [CHR 0x0A]) s1
      \<and> res = Inr () \<and> Open (\<lambda>_. True) (toy_sha ''abc'') s5 = Inr (''ab'', 2)
      \<and> toy_sha ''ab'' \<noteq> toy_sha ''abc''"
proof -
  have g: "stagingSessionGrammar ''s''" by (simp add: stagingSessionGrammar_def)
  have t: "TrimSpace (toy_sha ''abc'') = toy_sha ''abc''"
    unfolding TrimSpace_def TrimLeft_def TrimRight_def toy_sha_def
    by (simp add: trim_front.simps [of _ "_ # _"] hex_no_space hex_digit_def numeral_eq_Suc)
  show ?thesis
    by (simp add: StagingFinalize_def StagingWrite_def g t Let_def stage_bytes_def stage_digest_def NewDisk_def
        TrimSpace_digest ToLower_digest toy_sha_canonical Open_def) (simp add: toy_sha_def)
qed

definition well_stored :: "(bytes \<Rightarrow> string) \<Rightarrow> Disk \<Rightarrow> string \<times> string \<Rightarrow> bool" where
  "well_stored sha s f \<longleftrightarrow>
     (case f of (shard, name) \<Rightarrow> CanonicalContentAddress name \<and> shard = take 2 name \<and> dk_objects s f \<noteq> None
        \<and> sha (the (dk_objects s f)) = name)"

lemma canonical_not_prefixed: "CanonicalContentAddress n \<Longrightarrow> take (length stagingPrefix) n \<noteq> stagingPrefix"
  using staging_prefix_not_canonical by (metis append_take_drop_id)

lemma canonical_path: "CanonicalContentAddress n \<Longrightarrow> path n = (take 2 n, n)"
  by (simp add: CanonicalContentAddress_def SHA256HexLen_def path_def)

lemma scan_files_complete:
  assumes "ok OpenObject" and "set files \<subseteq> dom (dk_objects s)"
  shows "\<exists>r. scan_files sha ok s files report = Inr r
    \<and> (Clean r \<longleftrightarrow> Clean report \<and> (\<forall>f \<in> set files. well_stored sha s f))"
  using assms(2)
proof (induction files arbitrary: report)
  case (Cons f files)
  obtain shard name where f: "f = (shard, name)" by (cases f)
  obtain data where d: "dk_objects s (shard, name) = Some data" using Cons.prems f by auto
  have IH: "\<exists>r. scan_files sha ok s files rep = Inr r \<and> (Clean r \<longleftrightarrow> Clean rep \<and> (\<forall>f \<in> set files. well_stored sha s f))" for rep
    using Cons by simp
  show ?case
  proof (cases "take (length stagingPrefix) name = stagingPrefix")
    case True
    then show ?thesis using IH [of "report\<lparr> ir_Staging := ir_Staging report @ [shard @ ''/'' @ name] \<rparr>"]
      canonical_not_prefixed [of name] f by (auto simp: Clean_def well_stored_def)
  next
    case np: False
    show ?thesis
    proof (cases "CanonicalContentAddress name \<and> shard = take 2 name")
      case True
      then have v: "Verify sha ok name s = (if sha data \<noteq> name then
          (\<lparr> ig_Key = name, ig_SHA256 = sha data, ig_SizeBytes = int (length data), ig_OK = False \<rparr>, Some ErrIntegrityViolation)
          else (\<lparr> ig_Key = name, ig_SHA256 = sha data, ig_SizeBytes = int (length data), ig_OK = True \<rparr>, None))"
        using d assms(1) by (simp add: Verify_def Open_def canonical_path Let_def)
      have IH1: "\<exists>r. scan_files sha ok s files (report\<lparr> ir_Objects := Suc (ir_Objects report), ir_Verified := Suc (ir_Verified report) \<rparr>) = Inr r
          \<and> (Clean r \<longleftrightarrow> Clean report \<and> (\<forall>f \<in> set files. well_stored sha s f))"
        using IH [of "report\<lparr> ir_Objects := Suc (ir_Objects report), ir_Verified := Suc (ir_Verified report) \<rparr>"]
        by (simp add: Clean_def)
      have IH2: "\<exists>r. scan_files sha ok s files (report\<lparr> ir_Objects := Suc (ir_Objects report), ir_Failures := ir_Failures report @ [e] \<rparr>) = Inr r
          \<and> \<not> Clean r" for e
        using IH [of "report\<lparr> ir_Objects := Suc (ir_Objects report), ir_Failures := ir_Failures report @ [e] \<rparr>"]
        by (auto simp: Clean_def)
      show ?thesis
        using True np f v d IH1 IH2 by (auto simp: Let_def well_stored_def)
    next
      case False
      then show ?thesis
        using np f IH [of "report\<lparr> ir_Objects := Suc (ir_Objects report), ir_Failures := ir_Failures report @
            [\<lparr> ig_Key = name, ig_SHA256 = [], ig_SizeBytes = 0, ig_OK = False \<rparr>] \<rparr>"]
        by (auto simp: Let_def Clean_def well_stored_def)
    qed
  qed
qed simp

text \<open>
  An audit that reports nothing wrong is proof: a scan that can open every file always ends
  with a report, and the report is clean exactly when every file of the object tree has a
  canonical name, lies in the shard its name says, and hashes to its name.
\<close>

theorem clean_scan_proves_the_store:
  assumes "iteration_order files (dk_objects s)" and "ok OpenObject"
  shows "\<exists>r. Scan sha ok files s = Inr r \<and> (Clean r \<longleftrightarrow> (\<forall>f \<in> dom (dk_objects s). well_stored sha s f))"
  using scan_files_complete [of ok files s sha empty_report] assms
  by (simp add: Scan_def iteration_order_def Clean_def empty_report_def)

theorem clean_scan_proves_the_store_witness:
  "\<exists>r. Scan toy_sha (\<lambda>_. True) [path (toy_sha ''abc'')] (NewDisk\<lparr> dk_objects := [path (toy_sha ''abc'') \<mapsto> ''ab''] \<rparr>) = Inr r \<and> \<not> Clean r"
proof -
  let ?s = "NewDisk\<lparr> dk_objects := [path (toy_sha ''abc'') \<mapsto> ''ab''] \<rparr>"
  have "iteration_order [path (toy_sha ''abc'')] (dk_objects ?s)" by (simp add: iteration_order_def)
  then have "\<exists>r. Scan toy_sha (\<lambda>_. True) [path (toy_sha ''abc'')] ?s = Inr r
      \<and> (Clean r \<longleftrightarrow> (\<forall>f \<in> dom (dk_objects ?s). well_stored toy_sha ?s f))"
    by (rule clean_scan_proves_the_store) simp
  moreover have "\<not> well_stored toy_sha ?s (path (toy_sha ''abc''))"
    by (simp add: well_stored_def canonical_path toy_sha_canonical) (simp add: toy_sha_def)
  ultimately show ?thesis by auto
qed

end
