(* ===== verification/Object_Server.thy ===== *)
theory Object_Server
  imports Object_Disk
begin

text \<open>
  The HTTP surface of the object store, \<open>objectstore/internal/server\<close>. A handler maps a request
  and the state of the backend to a response and a new state; it is generic in the backend, whose
  operations are its arguments, as the Go handlers are written against \<open>store.Backend\<close>.
\<close>

datatype payload =
    NoBody
  | ErrorBody
  | ObjectBytes bytes
  | VerifyBody Integrity
  | StagedBody string string int
  | KeyBody string

record response =
  rs_status :: nat
  rs_length :: "int option"
  rs_body :: payload

definition respond :: "nat \<Rightarrow> payload \<Rightarrow> response" where
  "respond status body = \<lparr> rs_status = status, rs_length = None, rs_body = body \<rparr>"

definition maxObjectBytes :: nat where "maxObjectBytes = 5 * 2 ^ 30"

text \<open>\<open>http.MaxBytesReader\<close>: a body beyond the limit ends with an error after the limit.\<close>

definition MaxBytesReader :: "reader \<Rightarrow> nat \<Rightarrow> reader" where
  "MaxBytesReader rd n =
     (if length (fst rd) > n then (take n (fst rd), Some BodyTooLarge) else rd)"

definition putErrorStatus :: "store_error \<Rightarrow> nat" where
  "putErrorStatus e =
     (case e of
        ErrInvalidContentAddress \<Rightarrow> 400
      | ErrContentAddressMismatch \<Rightarrow> 422
      | BodyTooLarge \<Rightarrow> 413
      | _ \<Rightarrow> 500)"

definition stagingErrorStatus :: "store_error \<Rightarrow> nat" where
  "stagingErrorStatus e =
     (case e of
        ErrInvalidContentAddress \<Rightarrow> 400
      | ErrStagingSession \<Rightarrow> 400
      | ErrStagingNotFound \<Rightarrow> 404
      | ErrContentAddressMismatch \<Rightarrow> 422
      | BodyTooLarge \<Rightarrow> 413
      | _ \<Rightarrow> 500)"

definition srv_verify :: "(string \<Rightarrow> Integrity \<times> store_error option) \<Rightarrow> string \<Rightarrow> response" where
  "srv_verify verify key =
     (case verify key of
        (check, Some ErrInvalidContentAddress) \<Rightarrow> respond 400 ErrorBody
      | (check, Some ErrObjectNotFound) \<Rightarrow> respond 404 ErrorBody
      | (check, Some ErrIntegrityViolation) \<Rightarrow> respond 409 (VerifyBody check)
      | (check, Some e) \<Rightarrow> respond 500 ErrorBody
      | (check, None) \<Rightarrow> respond 200 (VerifyBody check))"

definition openObject ::
  "(string \<Rightarrow> (store_error, bytes \<times> int) result) \<Rightarrow> string \<Rightarrow> (response, bytes \<times> int) result" where
  "openObject get key =
     (case get key of
        Inl ErrObjectNotFound \<Rightarrow> Inl (respond 404 ErrorBody)
      | Inl ErrInvalidContentAddress \<Rightarrow> Inl (respond 400 ErrorBody)
      | Inl e \<Rightarrow> Inl (respond 500 ErrorBody)
      | Inr obj \<Rightarrow> Inr obj)"

definition srv_head :: "(string \<Rightarrow> (store_error, bytes \<times> int) result) \<Rightarrow> string \<Rightarrow> response" where
  "srv_head get key =
     (case openObject get key of
        Inl r \<Rightarrow> r
      | Inr (data, n) \<Rightarrow> (respond 200 NoBody)\<lparr> rs_length := if n \<ge> 0 then Some n else None \<rparr>)"

text \<open>A full (not conditional, not ranged) \<open>GET\<close> serves the bytes of the object.\<close>

definition srv_get :: "(string \<Rightarrow> (store_error, bytes \<times> int) result) \<Rightarrow> string \<Rightarrow> response" where
  "srv_get get key =
     (case openObject get key of
        Inl r \<Rightarrow> r
      | Inr (data, n) \<Rightarrow> respond 200 (ObjectBytes data))"

definition srv_put ::
  "(string \<Rightarrow> reader \<Rightarrow> int \<Rightarrow> 's \<Rightarrow> (store_error, unit) result \<times> 's) \<Rightarrow>
     string \<Rightarrow> reader \<Rightarrow> int \<Rightarrow> 's \<Rightarrow> response \<times> 's" where
  "srv_put put key body contentLength s =
     (case put key (MaxBytesReader body maxObjectBytes) contentLength s of
        (Inl e, s') \<Rightarrow> (respond (putErrorStatus e) ErrorBody, s')
      | (Inr _, s') \<Rightarrow> (respond 201 NoBody, s'))"

definition srv_putStaging ::
  "(string \<Rightarrow> reader \<Rightarrow> 's \<Rightarrow> (store_error, string \<times> int) result \<times> 's) \<Rightarrow> string \<Rightarrow> reader \<Rightarrow> 's \<Rightarrow> response \<times> 's" where
  "srv_putStaging stage session body s =
     (case stage session (MaxBytesReader body maxObjectBytes) s of
        (Inl e, s') \<Rightarrow> (respond (stagingErrorStatus e) ErrorBody, s')
      | (Inr (digest, n), s') \<Rightarrow> (respond 201 (StagedBody session digest n), s'))"

text \<open>The request body is the decoded \<open>sha256\<close> field, or nothing when it is not JSON.\<close>

definition srv_finalizeStaging ::
  "(string \<Rightarrow> string \<Rightarrow> 's \<Rightarrow> (store_error, unit) result \<times> 's) \<Rightarrow> string \<Rightarrow> string option \<Rightarrow> 's \<Rightarrow> response \<times> 's" where
  "srv_finalizeStaging finalize session body s =
     (case body of
        None \<Rightarrow> (respond 400 ErrorBody, s)
      | Some digest \<Rightarrow>
          (case finalize session digest s of
             (Inl e, s') \<Rightarrow> (respond (stagingErrorStatus e) ErrorBody, s')
           | (Inr _, s') \<Rightarrow> (respond 201 (KeyBody digest), s')))"

definition srv_abortStaging ::
  "(string \<Rightarrow> 's \<Rightarrow> (store_error, unit) result \<times> 's) \<Rightarrow> string \<Rightarrow> 's \<Rightarrow> response \<times> 's" where
  "srv_abortStaging abort session s =
     (case abort session s of
        (Inl e, s') \<Rightarrow> (respond (stagingErrorStatus e) ErrorBody, s')
      | (Inr _, s') \<Rightarrow> (respond 204 NoBody, s'))"

section \<open>Properties\<close>

definition mem_open :: "Memory \<Rightarrow> string \<Rightarrow> (store_error, bytes \<times> int) result" where
  "mem_open m key = (case mem_Get key m of Inl e \<Rightarrow> Inl e | Inr (d, n, _) \<Rightarrow> Inr (d, n))"

lemma PutReader_all_ok:
  "PutReader sha (\<lambda>_. True) tmp key rd sz s =
     (if \<not> CanonicalContentAddress key then (Inl ErrInvalidContentAddress, s)
      else case snd rd of
        Some e \<Rightarrow> (Inl e, s)
      | None \<Rightarrow>
          (if sz \<ge> 0 \<and> int (length (fst rd)) \<noteq> sz then (Inl ContentLengthMismatch, s)
           else if sha (fst rd) \<noteq> key then (Inl ErrContentAddressMismatch, s)
           else (Inr (), s\<lparr> dk_objects := (dk_objects s)(path key \<mapsto> fst rd) \<rparr>)))"
  by (auto simp: PutReader_def copy_error_def drop_temp_def Let_def split: option.splits)

text \<open>The two backends decide an upload alike; only what they store differs.\<close>

definition upload_verdict :: "(bytes \<Rightarrow> string) \<Rightarrow> string \<Rightarrow> reader \<Rightarrow> int \<Rightarrow> store_error option" where
  "upload_verdict sha key rd sz =
     (if \<not> CanonicalContentAddress key then Some ErrInvalidContentAddress
      else case snd rd of
        Some e \<Rightarrow> Some e
      | None \<Rightarrow>
          (if sz \<ge> 0 \<and> int (length (fst rd)) \<noteq> sz then Some ContentLengthMismatch
           else if sha (fst rd) \<noteq> key then Some ErrContentAddressMismatch else None))"

lemma backends_share_verdict:
  "mem_PutReader sha clk key rd sz m =
     (case upload_verdict sha key rd sz of
        Some e \<Rightarrow> (Inl e, m) | None \<Rightarrow> (Inr (), m\<lparr> m_objects := (m_objects m)(key \<mapsto> (fst rd, clk)) \<rparr>))"
  "PutReader sha (\<lambda>_. True) tmp key rd sz s =
     (case upload_verdict sha key rd sz of
        Some e \<Rightarrow> (Inl e, s) | None \<Rightarrow> (Inr (), s\<lparr> dk_objects := (dk_objects s)(path key \<mapsto> fst rd) \<rparr>))"
  by (auto simp: mem_PutReader_def PutReader_all_ok upload_verdict_def split: prod.splits option.splits)

lemma upload_verdict_None:
  assumes "upload_verdict sha key (MaxBytesReader body n) sz = None"
  shows "CanonicalContentAddress key \<and> MaxBytesReader body n = body \<and> sha (fst body) = key"
  using assms by (auto simp: upload_verdict_def MaxBytesReader_def split: if_splits option.splits)

lemma putErrorStatus_facts: "putErrorStatus e \<noteq> 201" "putErrorStatus e = 400 \<longleftrightarrow> e = ErrInvalidContentAddress"
  by (auto simp: putErrorStatus_def split: store_error.splits)

text \<open>
  The statuses are truthful on both shipped backends: they answer every upload with the same
  status; an acknowledged upload (201) is at once readable with exactly the uploaded bytes, and
  they hash to the key; any other answer leaves the store as it was; and 400 means exactly that
  the key is malformed. (The request body ends normally or with a transport error.)
\<close>

theorem upload_statuses_are_truthful:
  assumes "srv_put (mem_PutReader sha clk) key body len m = (r, m')"
    and "srv_put (PutReader sha (\<lambda>_. True) tmp) key body len s = (r2, s')"
    and "snd body = None \<or> snd body = Some IOFailure"
  shows "r2 = r
    \<and> (if rs_status r = 201
       then sha (fst body) = key
          \<and> srv_get (mem_open m') key = respond 200 (ObjectBytes (fst body))
          \<and> srv_get (\<lambda>k. Open (\<lambda>_. True) k s') key = respond 200 (ObjectBytes (fst body))
       else m' = m \<and> s' = s)
    \<and> (rs_status r = 400 \<longleftrightarrow> \<not> CanonicalContentAddress key)"
proof (cases "upload_verdict sha key (MaxBytesReader body maxObjectBytes) len")
  case None
  note v = upload_verdict_None [OF None]
  have "r = respond 201 NoBody" "r2 = respond 201 NoBody"
    "m' = m\<lparr> m_objects := (m_objects m)(key \<mapsto> (fst body, clk)) \<rparr>"
    "s' = s\<lparr> dk_objects := (dk_objects s)(path key \<mapsto> fst body) \<rparr>"
    using assms(1,2) None v by (simp_all add: srv_put_def backends_share_verdict)
  then show ?thesis using v
    by (simp add: srv_get_def openObject_def mem_open_def mem_Get_def Open_def respond_def)
next
  case (Some e)
  then have "e = ErrInvalidContentAddress \<longleftrightarrow> \<not> CanonicalContentAddress key"
    using assms(3) by (auto simp: upload_verdict_def MaxBytesReader_def split: if_splits option.splits)
  then show ?thesis using assms(1,2) Some
    by (auto simp: srv_put_def backends_share_verdict putErrorStatus_facts respond_def)
qed

theorem upload_statuses_are_truthful_witness:
  "fst (srv_put (mem_PutReader toy_sha 5) (toy_sha ''abc'') (''abc'', None) 3 NewMemory)
     = fst (srv_put (PutReader toy_sha (\<lambda>_. True) ''t'') (toy_sha ''abc'') (''abc'', None) 3 NewDisk)
   \<and> rs_status (fst (srv_put (mem_PutReader toy_sha 5) (toy_sha ''abc'') (''abc'', None) 3 NewMemory)) = 201"
proof -
  let ?p = "srv_put (mem_PutReader toy_sha 5) (toy_sha ''abc'') (''abc'', None) 3 NewMemory"
  let ?q = "srv_put (PutReader toy_sha (\<lambda>_. True) ''t'') (toy_sha ''abc'') (''abc'', None) 3 NewDisk"
  have "?p = (fst ?p, snd ?p)" "?q = (fst ?q, snd ?q)" by simp_all
  from upload_statuses_are_truthful [OF this] show ?thesis
    by (simp add: srv_put_def mem_PutReader_def toy_sha_canonical MaxBytesReader_def maxObjectBytes_def respond_def)
qed

text \<open>
  The answer to a finalization is not always an address: the store normalises the asserted
  digest (trims it, lower-cases it) before it installs the bytes, but the response repeats the
  digest as the client wrote it. An upper-case digest is answered 201 with a key that a \<open>GET\<close>
  refuses with 400.
\<close>

theorem finalize_answers_unusable_key:
  "let digest = replicate 64 (CHR ''A'');
       m = NewMemory\<lparr> m_pending := [''s'' \<mapsto> (''abc'', replicate 64 (CHR ''a''))] \<rparr>;
       (r, m') = srv_finalizeStaging (mem_StagingFinalize 5) ''s'' (Some digest) m
   in rs_status r = 201 \<and> rs_body r = KeyBody digest
      \<and> rs_status (srv_get (mem_open m') digest) = 400
      \<and> rs_status (srv_get (mem_open m') (replicate 64 (CHR ''a''))) = 200"
proof -
  have g: "stagingSessionGrammar ''s''" by (simp add: stagingSessionGrammar_def)
  have heads: "w \<noteq> [] \<and> hd w \<noteq> (of_char (CHR ''A'') :: nat)" if "w \<in> set white_space \<union> set (map rev white_space)" for w
    using white_space_heads [OF that] by auto
  have sp: "space_prefix white_space (CHR ''A'' # cs) = 0" "space_prefix (map rev white_space) (CHR ''A'' # cs) = 0" for cs
    using heads by (intro space_prefix_0; blast)+
  have A: "replicate 64 (CHR ''A'') = CHR ''A'' # replicate 63 (CHR ''A'')" by (simp add: numeral_eq_Suc)
  have "trim_front ws (replicate 64 (CHR ''A'')) = replicate 64 (CHR ''A'')"
    if "\<And>cs. space_prefix ws (CHR ''A'' # cs) = 0" for ws
    unfolding A by (simp add: trim_front.simps [of _ "_ # _"] that)
  then have "TrimSpace (replicate 64 (CHR ''A'')) = replicate 64 (CHR ''A'')"
    using sp by (simp add: TrimSpace_def TrimLeft_def TrimRight_def)
  then have low: "ToLower (TrimSpace (replicate 64 (CHR ''A''))) = replicate 64 (CHR ''a'')"
    by (simp add: ToLower_def lower_char_def char_of_def bit_0)
  have can: "CanonicalContentAddress (replicate 64 (CHR ''a''))" "\<not> CanonicalContentAddress (replicate 64 (CHR ''A''))"
    by (simp_all add: CanonicalContentAddress_def SHA256HexLen_def list_all_iff hex_digit_def)
  show ?thesis
    by (simp add: srv_finalizeStaging_def mem_StagingFinalize_def g low can respond_def Let_def NewMemory_def
        srv_get_def openObject_def mem_open_def mem_Get_def)
qed

end
