(* ===== verification/Http_Backend.thy ===== *)
theory Http_Backend
  imports Storage_Client Object_Server
begin

text \<open>
  The worker's side of the object store protocol, \<open>renderinggen/internal/storage/backend.go\<close> and
  \<open>staging_client.go\<close>: how the HTTP backend reads the answers of the server, and the staged upload,
  which is run here against the server's handlers.
\<close>

section \<open>The in-process backend\<close>

definition mb_Fetch :: "string \<Rightarrow> (string \<rightharpoonup> bytes) \<Rightarrow> (storage_error, bytes) result" where
  "mb_Fetch key objects = (case objects key of None \<Rightarrow> Inl ErrNotFound | Some data \<Rightarrow> Inr data)"

definition mb_Store :: "string \<Rightarrow> bytes \<Rightarrow> (string \<rightharpoonup> bytes) \<Rightarrow> (string \<rightharpoonup> bytes)" where
  "mb_Store key data objects = objects(key \<mapsto> data)"

definition mb_StoreReader ::
  "bool \<Rightarrow> string \<Rightarrow> bytes \<times> oserr option \<Rightarrow> (string \<rightharpoonup> bytes) \<Rightarrow> storage_error option \<times> (string \<rightharpoonup> bytes)" where
  "mb_StoreReader cancelled key rd objects =
     (if snd rd \<noteq> None then (Some SourceError, objects)
      else if cancelled then (Some ContextCancelled, objects)
      else (None, mb_Store key (fst rd) objects))"

section \<open>Requests over HTTP\<close>

text \<open>\<open>None\<close> stands for a request that failed below HTTP.\<close>

definition body_bytes :: "response \<Rightarrow> bytes" where
  "body_bytes r = (case rs_body r of ObjectBytes data \<Rightarrow> data | _ \<Rightarrow> [])"

definition http_Fetch :: "response option \<Rightarrow> (storage_error, bytes) result" where
  "http_Fetch reply =
     (case reply of
        None \<Rightarrow> Inl BackendError
      | Some resp \<Rightarrow>
          (if rs_status resp = 404 then Inl ErrNotFound
           else if rs_status resp = 401 then Inl Unauthorized
           else if rs_status resp \<noteq> 200 then Inl BackendError
           else Inr (body_bytes resp)))"

text \<open>A streamed body may break after some bytes; the announced length is that of the object.\<close>

definition http_FetchReader ::
  "response option \<Rightarrow> (nat \<times> oserr) option \<Rightarrow> (storage_error, (bytes \<times> oserr option) \<times> int) result" where
  "http_FetchReader reply broken =
     (case reply of
        None \<Rightarrow> Inl BackendError
      | Some resp \<Rightarrow>
          (if rs_status resp = 404 then Inl ErrNotFound
           else if rs_status resp = 401 then Inl Unauthorized
           else if rs_status resp \<noteq> 200 then Inl BackendError
           else Inr (case broken of
               None \<Rightarrow> (body_bytes resp, None)
             | Some (n, e) \<Rightarrow> (take n (body_bytes resp), Some e), int (length (body_bytes resp)))))"

definition http_StoreReader :: "response option \<Rightarrow> storage_error option" where
  "http_StoreReader reply =
     (case reply of
        None \<Rightarrow> Some BackendError
      | Some resp \<Rightarrow>
          (if rs_status resp = 200 \<or> rs_status resp = 201 \<or> rs_status resp = 204 then None
           else if rs_status resp = 401 then Some Unauthorized
           else if rs_status resp = 400 \<or> rs_status resp = 422 then Some ErrContentAddressRejected
           else Some BackendError))"

section \<open>Staged uploads\<close>

text \<open>
  What the network does: the bytes that reach the server with the upload, which requests and
  which replies arrive.
\<close>

record net =
  nt_upload :: "reader option"
  nt_uploadReply :: bool
  nt_finalize :: bool
  nt_finalizeReply :: bool
  nt_abort :: bool

definition abortStaged ::
  "(string \<Rightarrow> 's \<Rightarrow> (store_error, unit) result \<times> 's) \<Rightarrow> net \<Rightarrow> string \<Rightarrow> 's \<Rightarrow> 's" where
  "abortStaged abort net session s = (if nt_abort net then snd (srv_abortStaging abort session s) else s)"

definition StoreStaged ::
  "(bytes \<Rightarrow> string) \<Rightarrow> (string \<Rightarrow> reader \<Rightarrow> 's \<Rightarrow> (store_error, string \<times> int) result \<times> 's) \<Rightarrow>
     (string \<Rightarrow> string \<Rightarrow> 's \<Rightarrow> (store_error, unit) result \<times> 's) \<Rightarrow> (string \<Rightarrow> 's \<Rightarrow> (store_error, unit) result \<times> 's) \<Rightarrow>
     net \<Rightarrow> string \<Rightarrow> bytes \<Rightarrow> 's \<Rightarrow> (storage_error, string \<times> int) result \<times> 's" where
  "StoreStaged sha stage finalize abort net session0 sent s =
     (let session = TrimSpace session0; computed = sha sent; drop_staged = abortStaged abort net session in
      if session = [] then (Inl StagingSessionRequired, s)
      else case nt_upload net of
        None \<Rightarrow> (Inl BackendError, s)
      | Some rd \<Rightarrow>
          (let (resp, s1) = srv_putStaging stage session rd s in
           if \<not> nt_uploadReply net then (Inl BackendError, s1)
           else if rs_status resp \<noteq> 201 then (Inl StagedUploadRefused, s1)
           else case rs_body resp of
             StagedBody _ digest n \<Rightarrow>
               (if digest \<noteq> computed then (Inl StagedDigestMismatch, drop_staged s1)
                else if \<not> nt_finalize net then (Inl BackendError, drop_staged s1)
                else
                  (let (resp2, s2) = srv_finalizeStaging finalize session (Some computed) s1 in
                   if \<not> nt_finalizeReply net then (Inl BackendError, drop_staged s2)
                   else if rs_status resp2 \<noteq> 201 then (Inl StagedUploadRefused, drop_staged s2)
                   else (Inr (computed, n), s2)))
           | _ \<Rightarrow> (Inl BackendError, s1)))"

section \<open>Correctness\<close>

lemma http_Fetch_get:
  "http_Fetch (Some (srv_get get key)) = Inr b \<Longrightarrow> \<exists>n. get key = Inr (b, n)"
  by (auto simp: http_Fetch_def srv_get_def openObject_def respond_def body_bytes_def
      split: sum.splits store_error.splits if_splits)

lemma http_FetchReader_get:
  "http_FetchReader (Some (srv_get get key)) None = Inr ((b, e), n) \<Longrightarrow> n = int (length b) \<and> (\<exists>m. get key = Inr (b, m))"
  by (auto simp: http_FetchReader_def srv_get_def openObject_def respond_def body_bytes_def
      split: sum.splits store_error.splits if_splits)

lemma Open_sound: "disk_wf sha s \<Longrightarrow> Open ok key s = Inr (b, n) \<Longrightarrow> sha b = key"
  by (auto simp: Open_def disk_wf_def split: if_splits option.splits)

text \<open>
  C30. Uploading and fetching an object through the HTTP backend and the disk server. A successful
  upload means the bytes have the address they were sent under, and a later fetch returns exactly
  them. Whatever a fetch returns, whether in one piece or streamed to the end, has the requested
  address. An upload of other bytes is always reported to the worker as an error and changes no
  object.
\<close>

theorem object_round_trip_over_http:
  assumes "disk_wf sha s" and "ok OpenObject"
    and "(resp, s') = srv_put (PutReader sha ok' tmp) key (data, None) n s"
  shows "(http_StoreReader (Some resp) = None \<longrightarrow>
            sha data = key \<and> http_Fetch (Some (srv_get (\<lambda>k. Open ok k s') key)) = Inr data)
    \<and> (\<forall>k b. http_Fetch (Some (srv_get (\<lambda>k. Open ok k s') k)) = Inr b \<longrightarrow> sha b = k)
    \<and> (\<forall>k b e m. http_FetchReader (Some (srv_get (\<lambda>k. Open ok k s') k)) None = Inr ((b, e), m) \<longrightarrow> sha b = k)
    \<and> (sha data \<noteq> key \<longrightarrow> http_StoreReader (Some resp) \<noteq> None \<and> disk_read s' = disk_read s)"
proof -
  let ?rd = "MaxBytesReader (data, None) maxObjectBytes"
  obtain r where put: "PutReader sha ok' tmp key ?rd n s = (r, s')"
    and resp: "resp = (case r of Inl e \<Rightarrow> respond (putErrorStatus e) ErrorBody | Inr _ \<Rightarrow> respond 201 NoBody)"
    using assms(3) by (auto simp: srv_put_def split: prod.splits sum.splits)
  have wf: "disk_wf sha s'" using disk.put_inv [OF assms(1), of ok' tmp key ?rd n] put by simp
  have ok_iff: "http_StoreReader (Some resp) = None \<longleftrightarrow> r = Inr ()"
    unfolding resp by (cases r) (auto simp: http_StoreReader_def respond_def putErrorStatus_def split: store_error.split)
  have accepted: "sha data = key \<and> disk_read s' key = Some data" if "r = Inr ()"
    using disk.put_accepted [OF assms(1), of ok' tmp key ?rd n] put that by (auto simp: MaxBytesReader_def split: if_splits)
  have fetch: "http_Fetch (Some (srv_get (\<lambda>k. Open ok k s') key)) = Inr data" if "disk_read s' key = Some data"
    using that assms(2)
    by (auto simp: http_Fetch_def srv_get_def openObject_def Open_def disk_read_def respond_def body_bytes_def split: if_splits)
  have refused: "disk_read s' = disk_read s" if "sha data \<noteq> key"
    using that put
    by (cases rule: PutReader_cases [of sha ok' tmp key ?rd n s])
       (auto simp: disk_read_def MaxBytesReader_def fun_eq_iff split: if_splits)
  show ?thesis
    using accepted fetch refused ok_iff http_Fetch_get http_FetchReader_get Open_sound [OF wf] by blast
qed

text \<open>The three server calls of a staged upload, on the in-process backend.\<close>

lemma staged_parts_wf:
  assumes "mem_store_wf sha m"
  shows "mem_store_wf sha (snd (srv_putStaging (mem_StagingWrite sha) i rd m))"
    and "mem_store_wf sha (snd (srv_finalizeStaging (mem_StagingFinalize clk) i g m))"
    and "mem_store_wf sha (abortStaged mem_StagingAbort net i m)"
proof -
  show "mem_store_wf sha (snd (srv_putStaging (mem_StagingWrite sha) i rd m))"
    using mem_StagingWrite_wf [OF assms, of i "MaxBytesReader rd maxObjectBytes"]
    by (auto simp: srv_putStaging_def split: prod.split sum.split)
  show "mem_store_wf sha (snd (srv_finalizeStaging (mem_StagingFinalize clk) i g m))"
    using mem_StagingFinalize_wf [OF assms, of clk i "the g"] assms
    by (auto simp: srv_finalizeStaging_def split: prod.split sum.split option.split)
  show "mem_store_wf sha (abortStaged mem_StagingAbort net i m)"
    using mem_StagingAbort_wf [OF assms, of i] assms
    by (auto simp: abortStaged_def srv_abortStaging_def split: prod.split sum.split)
qed

lemma staged_upload_stored:
  assumes put: "srv_putStaging (mem_StagingWrite sha) i rd m = (resp, m1)" "rs_status resp = 201"
      "rs_body resp = StagedBody x d n"
    and fin: "srv_finalizeStaging (mem_StagingFinalize clk) i (Some d) m1 = (resp2, m2)" "rs_status resp2 = 201"
  shows "\<exists>b t. m_objects m2 d = Some (b, t) \<and> sha b = d \<and> n = int (length b)"
proof -
  obtain b where b: "d = sha b" "n = int (length b)" "m_pending m1 i = Some (b, d)"
    using put by (auto simp: srv_putStaging_def mem_StagingWrite_def respond_def stagingErrorStatus_def
        split: prod.splits if_splits option.splits store_error.splits)
  have "mem_StagingFinalize clk i d m1 = (Inr (), m2)"
    using fin by (auto simp: srv_finalizeStaging_def respond_def stagingErrorStatus_def
        split: prod.splits sum.splits store_error.splits)
  then have "m_objects m2 d = Some (b, clk)"
    using b(3) by (auto simp: mem_StagingFinalize_def Let_def split: if_splits)
  then show ?thesis using b by blast
qed

text \<open>
  A staged upload that reports success has installed, under the digest of the bytes the worker
  streamed, bytes with that digest, whatever the network did to the stream. On every outcome
  the store keeps serving only bytes that match their address.
\<close>

theorem staged_upload_installs_its_digest:
  assumes "mem_store_wf sha m"
    and "(r, m') = StoreStaged sha (mem_StagingWrite sha) (mem_StagingFinalize clk) mem_StagingAbort net session sent m"
  shows "mem_store_wf sha m'
    \<and> (\<forall>d n. r = Inr (d, n) \<longrightarrow> d = sha sent \<and> (\<exists>b. mem_read m' d = Some b \<and> sha b = d \<and> n = int (length b)))"
proof (cases "TrimSpace session = [] \<or> nt_upload net = None")
  case True
  then show ?thesis using assms by (cases "TrimSpace session = []") (simp_all add: StoreStaged_def)
next
  case False
  then obtain rd where rd: "nt_upload net = Some rd" by auto
  let ?i = "TrimSpace session"
  obtain resp m1 where put: "srv_putStaging (mem_StagingWrite sha) ?i rd m = (resp, m1)" by fastforce
  have wf1: "mem_store_wf sha m1" using staged_parts_wf(1) [OF assms(1), of ?i rd] put by simp
  obtain resp2 m2 where fin: "srv_finalizeStaging (mem_StagingFinalize clk) ?i (Some (sha sent)) m1 = (resp2, m2)" by fastforce
  have wf2: "mem_store_wf sha m2" using staged_parts_wf(2) [OF wf1, of clk ?i "Some (sha sent)"] fin by simp
  consider (failed) e where "r = Inl e" "m' \<in> {m1, m2, abortStaged mem_StagingAbort net ?i m1, abortStaged mem_StagingAbort net ?i m2}"
    | (stored) x n where "r = Inr (sha sent, n)" "m' = m2" "rs_status resp = 201" "rs_body resp = StagedBody x (sha sent) n"
        "rs_status resp2 = 201"
    using assms(2) False rd put fin by (auto simp: StoreStaged_def Let_def split: if_splits payload.splits)
  then show ?thesis
  proof cases
    case failed
    then show ?thesis using wf1 wf2 staged_parts_wf(3) by auto
  next
    case stored
    then show ?thesis
      using wf2 staged_upload_stored [OF put stored(3,4) fin stored(5)] mem_read_eq [OF wf2] by auto
  qed
qed

text \<open>A store with one object, then a staged upload of another over a faultless network.\<close>

definition good_net :: "bytes \<Rightarrow> net" where
  "good_net data = \<lparr> nt_upload = Some (data, None), nt_uploadReply = True, nt_finalize = True,
     nt_finalizeReply = True, nt_abort = True \<rparr>"

lemma NewDisk_wf: "disk_wf sha NewDisk"
  by (simp add: disk_wf_def NewDisk_def)

lemma toy_put: "srv_put (PutReader toy_sha (\<lambda>_. True) ''x'') (toy_sha ''abc'') (''abc'', None) 3 NewDisk =
    (respond 201 NoBody, NewDisk\<lparr> dk_objects := [path (toy_sha ''abc'') \<mapsto> ''abc''] \<rparr>)"
  by (simp add: srv_put_def MaxBytesReader_def maxObjectBytes_def PutReader_all_ok toy_sha_canonical NewDisk_def)

theorem object_round_trip_over_http_witness:
  "http_Fetch (Some (srv_get (\<lambda>k. Open (\<lambda>_. True) k (NewDisk\<lparr> dk_objects := [path (toy_sha ''abc'') \<mapsto> ''abc''] \<rparr>))
     (toy_sha ''abc''))) = Inr ''abc''"
proof -
  have "http_StoreReader (Some (respond 201 NoBody)) = None" by (simp add: http_StoreReader_def respond_def)
  then show ?thesis
    using object_round_trip_over_http [OF NewDisk_wf TrueI toy_put [symmetric]] by blast
qed

lemma toy_staged:
  "\<exists>m'. (Inr (toy_sha ''abc'', 3), m') =
     StoreStaged toy_sha (mem_StagingWrite toy_sha) (mem_StagingFinalize 9) mem_StagingAbort (good_net ''abc'') ''s1'' ''abc'' NewMemory"
proof -
  have s: "TrimSpace ''s1'' = ''s1''" by code_simp
  have t: "TrimSpace (toy_sha ''abc'') = toy_sha ''abc''" by code_simp
  have l: "ToLower (toy_sha ''abc'') = toy_sha ''abc''" by (rule ToLower_digest [OF toy_sha_canonical])
  show ?thesis
    by (simp add: StoreStaged_def Let_def s t l good_net_def srv_putStaging_def srv_finalizeStaging_def respond_def
        MaxBytesReader_def maxObjectBytes_def mem_StagingWrite_def mem_StagingFinalize_def stagingSessionGrammar_def
        toy_sha_canonical NewMemory_def)
qed

theorem staged_upload_installs_its_digest_witness:
  "\<exists>m' b. mem_read m' (toy_sha ''abc'') = Some b \<and> toy_sha b = toy_sha ''abc'' \<and> mem_store_wf toy_sha m'"
proof -
  have wf: "mem_store_wf toy_sha NewMemory" by (simp add: mem_store_wf_def NewMemory_def)
  obtain m' where m': "(Inr (toy_sha ''abc'', 3), m') =
     StoreStaged toy_sha (mem_StagingWrite toy_sha) (mem_StagingFinalize 9) mem_StagingAbort (good_net ''abc'') ''s1'' ''abc'' NewMemory"
    using toy_staged by blast
  then show ?thesis using staged_upload_installs_its_digest [OF wf m'] by blast
qed

end
