(* ===== verification/Growing_File.thy ===== *)
theory Growing_File
  imports Prelude
begin

text \<open>
  The reader of a file that another process is still appending to,
  \<open>renderinggen/internal/storage/growing_file.go\<close>, with the producer's appends interleaved at every
  point where the reader looks at the file.
\<close>

section \<open>The reader\<close>

datatype growing_error = ErrGrowingFileMissing | ErrGrowingFileAborted | AbortCause string | ReadFailure

record GrowingFileReader =
  gf_open :: bool
  gf_pos :: nat
  gf_finished :: bool
  gf_aborted :: "growing_error option"

definition NewGrowingFileReader :: GrowingFileReader where
  "NewGrowingFileReader = \<lparr> gf_open = False, gf_pos = 0, gf_finished = False, gf_aborted = None \<rparr>"

definition Finish :: "GrowingFileReader \<Rightarrow> GrowingFileReader" where
  "Finish g = (if gf_finished g \<or> gf_aborted g \<noteq> None then g else g\<lparr> gf_finished := True \<rparr>)"

definition Abort :: "growing_error option \<Rightarrow> GrowingFileReader \<Rightarrow> GrowingFileReader" where
  "Abort err g =
     (if gf_aborted g \<noteq> None \<or> gf_finished g then g
      else g\<lparr> gf_aborted := Some (case err of None \<Rightarrow> ErrGrowingFileAborted | Some e \<Rightarrow> e), gf_finished := True \<rparr>)"

text \<open>
  What the producer does between two looks at the file: nothing, or an append, which creates the
  file when it is missing.
\<close>

fun grow :: "bytes option \<Rightarrow> bytes option \<Rightarrow> bytes option" where
  "grow None content = content"
| "grow (Some b) None = Some b"
| "grow (Some b) (Some old) = Some (old @ b)"

datatype read_out = ReadBytes bytes | ReadEOF | ReadError growing_error | Wait

text \<open>
  One turn of the loop of \<open>Read\<close> with a buffer of \<open>n\<close> bytes. The flags are sampled first; the three
  producer actions fall before the open, before the first read and before the second. \<open>io1\<close> and
  \<open>io2\<close> say that the read fails for another reason than the end of the file.
\<close>

definition read_turn ::
  "nat \<Rightarrow> bytes option \<times> bytes option \<times> bytes option \<Rightarrow> bool \<Rightarrow> bool \<Rightarrow> GrowingFileReader \<Rightarrow> bytes option \<Rightarrow>
     read_out \<times> GrowingFileReader \<times> bytes option" where
  "read_turn n acts io1 io2 g file0 =
     (case acts of (a1, a2, a3) \<Rightarrow>
      (let finished = gf_finished g in
       case gf_aborted g of
         Some e \<Rightarrow> (ReadError e, g, file0)
       | None \<Rightarrow>
           (let file1 = grow a1 file0 in
            if \<not> gf_open g \<and> file1 = None then
              (if finished then (ReadError ErrGrowingFileMissing, g, file1) else (Wait, g, file1))
            else
              (let g1 = g\<lparr> gf_open := True \<rparr>; file2 = grow a2 file1;
                   chunk = take n (drop (gf_pos g1) (the file2)) in
               if chunk \<noteq> [] then (ReadBytes chunk, g1\<lparr> gf_pos := gf_pos g1 + length chunk \<rparr>, file2)
               else if io1 then (ReadError ReadFailure, g1, file2)
               else if \<not> finished then (Wait, g1, file2)
               else
                 (let file3 = grow a3 file2; chunk' = take n (drop (gf_pos g1) (the file3)) in
                  if chunk' \<noteq> [] then (ReadBytes chunk', g1\<lparr> gf_pos := gf_pos g1 + length chunk' \<rparr>, file3)
                  else if io2 then (ReadError ReadFailure, g1, file3)
                  else (ReadEOF, g1, file3))))))"

section \<open>Runs\<close>

text \<open>
  A run interleaves reader turns with the producer, which appends, finishes and then appends no
  more. \<open>run_out\<close> is what the consumer has received.
\<close>

record tail =
  tl_reader :: GrowingFileReader
  tl_file :: "bytes option"
  tl_out :: bytes
  tl_eof :: bool

definition tail_start :: tail where
  "tail_start = \<lparr> tl_reader = NewGrowingFileReader, tl_file = None, tl_out = [], tl_eof = False \<rparr>"

inductive tail_run :: "tail \<Rightarrow> bool" where
  tail_init: "tail_run tail_start"
| tail_append: "tail_run t \<Longrightarrow> \<not> gf_finished (tl_reader t) \<Longrightarrow> tail_run (t\<lparr> tl_file := grow a (tl_file t) \<rparr>)"
| tail_finish: "tail_run t \<Longrightarrow> tail_run (t\<lparr> tl_reader := Finish (tl_reader t) \<rparr>)"
| tail_abort: "tail_run t \<Longrightarrow> tail_run (t\<lparr> tl_reader := Abort e (tl_reader t) \<rparr>)"
| tail_turn: "tail_run t \<Longrightarrow> 0 < n \<Longrightarrow> (gf_finished (tl_reader t) \<longrightarrow> acts = (None, None, None)) \<Longrightarrow>
    read_turn n acts io1 io2 (tl_reader t) (tl_file t) = (out, g, file) \<Longrightarrow>
    tail_run (t\<lparr> tl_reader := g, tl_file := file,
      tl_out := tl_out t @ (case out of ReadBytes b \<Rightarrow> b | _ \<Rightarrow> []), tl_eof := (tl_eof t \<or> out = ReadEOF) \<rparr>)"

text \<open>What the consumer has is a prefix of the file; after an end of file it is the whole file.\<close>

definition content :: "bytes option \<Rightarrow> bytes" where
  "content file = (case file of None \<Rightarrow> [] | Some f \<Rightarrow> f)"

definition tail_ok :: "tail \<Rightarrow> bool" where
  "tail_ok t \<longleftrightarrow> gf_pos (tl_reader t) \<le> length (content (tl_file t))
     \<and> tl_out t = take (gf_pos (tl_reader t)) (content (tl_file t))
     \<and> (gf_open (tl_reader t) \<longrightarrow> tl_file t \<noteq> None)
     \<and> (tl_eof t \<longrightarrow> gf_finished (tl_reader t) \<and> tl_file t \<noteq> None \<and> gf_pos (tl_reader t) = length (content (tl_file t)))"

lemma content_grow: "content (grow a f) = content f @ content a"
  by (cases a; cases f) (simp_all add: content_def)

lemma grow_some [simp]: "f \<noteq> None \<Longrightarrow> grow a f \<noteq> None"
  by (cases a; cases f) simp_all

lemma the_content: "f \<noteq> None \<Longrightarrow> the f = content f"
  by (auto simp: content_def)

lemma take_add_chunk: "take p xs @ take n (drop p xs) = take (p + length (take n (drop p xs))) xs"
  by (cases "p \<le> length xs") (auto simp: take_add min_def)

text \<open>The file only grows: \<open>extends f0 f\<close>, and not at all when the producer does nothing.\<close>

definition extends :: "bytes option \<times> bytes option \<times> bytes option \<Rightarrow> bytes option \<Rightarrow> bytes option \<Rightarrow> bool" where
  "extends acts f0 f \<longleftrightarrow> (\<exists>e. content f = content f0 @ e) \<and> (f0 \<noteq> None \<longrightarrow> f \<noteq> None) \<and> (acts = (None, None, None) \<longrightarrow> f = f0)"

lemma extends_grow:
  "extends (a1, a2, a3) f f" "extends (a1, a2, a3) f (grow a1 f)" "extends (a1, a2, a3) f (grow a2 (grow a1 f))"
  "extends (a1, a2, a3) f (grow a3 (grow a2 (grow a1 f)))"
  by (auto simp: extends_def content_grow)

text \<open>A turn of the loop in terms of positions in the file: nothing tried, bytes, or no bytes.\<close>

definition chunk_at :: "nat \<Rightarrow> GrowingFileReader \<Rightarrow> bytes option \<Rightarrow> bytes" where
  "chunk_at n g f = take n (drop (gf_pos g) (content f))"

lemma read_turn_opened:
  assumes "gf_aborted g = None" and "grow a1 f0 = Some y"
  shows "read_turn n (a1, a2, a3) io1 io2 g f0 =
     (let f2 = grow a2 (Some y); f3 = grow a3 f2; g1 = g\<lparr> gf_open := True \<rparr>
      in if chunk_at n g f2 \<noteq> [] then (ReadBytes (chunk_at n g f2), g1\<lparr> gf_pos := gf_pos g + length (chunk_at n g f2) \<rparr>, f2)
         else if io1 then (ReadError ReadFailure, g1, f2) else if \<not> gf_finished g then (Wait, g1, f2)
         else if chunk_at n g f3 \<noteq> [] then (ReadBytes (chunk_at n g f3), g1\<lparr> gf_pos := gf_pos g + length (chunk_at n g f3) \<rparr>, f3)
         else if io2 then (ReadError ReadFailure, g1, f3) else (ReadEOF, g1, f3))"
proof -
  have "the (grow a2 (Some y)) = content (grow a2 (Some y))" "the (grow a3 (grow a2 (Some y))) = content (grow a3 (grow a2 (Some y)))"
    by (simp_all only: the_content grow_some option.distinct not_False_eq_True)
  then show ?thesis using assms by (simp add: read_turn_def Let_def chunk_at_def del: take_eq_Nil)
qed

lemma read_turn_cases:
  assumes "read_turn n acts io1 io2 g f0 = (out, g', f)" and "gf_open g \<longrightarrow> f0 \<noteq> None"
  obtains (idle) "g' = g" "out \<noteq> ReadEOF" "\<forall>b. out \<noteq> ReadBytes b" "extends acts f0 f"
  | (got) "f \<noteq> None" "extends acts f0 f" "out = ReadBytes (chunk_at n g f)"
      "g' = g\<lparr> gf_open := True, gf_pos := gf_pos g + length (chunk_at n g f) \<rparr>"
  | (none) "f \<noteq> None" "extends acts f0 f" "\<forall>b. out \<noteq> ReadBytes b" "g' = g\<lparr> gf_open := True \<rparr>"
      "out = ReadEOF \<longrightarrow> gf_finished g \<and> chunk_at n g f = []"
proof -
  obtain a1 a2 a3 where acts: "acts = (a1, a2, a3)" by (cases acts) auto
  note ext = extends_grow [of a1 a2 a3 f0]
  show ?thesis
  proof (cases "gf_aborted g"; cases "grow a1 f0")
    fix y assume y: "gf_aborted g = None" "grow a1 f0 = Some y"
    define f2 f3 where f: "f2 = grow a2 (Some y)" "f3 = grow a3 f2"
    have ext: "extends acts f0 f2" "extends acts f0 f3" and ne: "f2 \<noteq> None" "f3 \<noteq> None"
      using ext(3,4) grow_some [of "Some y" a2] grow_some [of f2 a3] by (simp_all add: f acts y(2))
    note run = assms(1) [unfolded acts read_turn_opened [OF y] Let_def f [symmetric]]
    show ?thesis
    proof (cases "chunk_at n g f2 = []")
      case False
      then show ?thesis using run by (intro got) (use ext ne in auto)
    next
      case c2: True
      show ?thesis
      proof (cases "io1 \<or> \<not> gf_finished g \<or> chunk_at n g f3 = []")
        case True
        then show ?thesis using run c2 by (intro none) (use ext ne in \<open>auto split: if_splits\<close>)
      next
        case False
        then show ?thesis using run c2 by (intro got) (use ext ne in auto)
      qed
    qed
  next
    assume n: "gf_aborted g = None" "grow a1 f0 = None"
    then have "\<not> gf_open g" using assms(2) grow_some by metis
    then show ?thesis using n assms(1) ext(2) by (intro idle) (auto simp: acts read_turn_def Let_def split: if_splits)
  qed (use assms(1) idle ext(1) in \<open>auto simp: acts read_turn_def\<close>)
qed

lemma read_turn_spec:
  assumes "read_turn n acts io1 io2 g f0 = (out, g', f)" and "gf_open g \<longrightarrow> f0 \<noteq> None"
    and pos: "gf_pos g \<le> length (content f0)"
  shows "gf_finished g' = gf_finished g" and "gf_aborted g' = gf_aborted g"
    and "take (gf_pos g) (content f) = take (gf_pos g) (content f0)"
    and "gf_open g' \<longrightarrow> f \<noteq> None" and "f0 \<noteq> None \<longrightarrow> f \<noteq> None"
    and "gf_pos g' \<le> length (content f)"
    and "take (gf_pos g) (content f) @ (case out of ReadBytes b \<Rightarrow> b | _ \<Rightarrow> []) = take (gf_pos g') (content f)"
    and "acts = (None, None, None) \<longrightarrow> f = f0"
    and "0 < n \<Longrightarrow> out = ReadEOF \<Longrightarrow> gf_finished g \<and> f \<noteq> None \<and> gf_pos g' = length (content f)"
    and "gf_pos g \<le> gf_pos g'"
proof -
  note turn = read_turn_cases [OF assms(1,2)]
  have ext: "extends acts f0 f" by (cases rule: turn)
  then obtain e where e: "content f = content f0 @ e" by (auto simp: extends_def)
  show "gf_finished g' = gf_finished g" "gf_aborted g' = gf_aborted g" by (cases rule: turn; simp)+
  show "take (gf_pos g) (content f) = take (gf_pos g) (content f0)" using pos e by simp
  show "f0 \<noteq> None \<longrightarrow> f \<noteq> None" "acts = (None, None, None) \<longrightarrow> f = f0" using ext by (simp_all add: extends_def)
  then show "gf_open g' \<longrightarrow> f \<noteq> None" using assms(2) by (cases rule: turn) auto
  have p: "gf_pos g \<le> length (content f)" using pos e by simp
  then show "gf_pos g' \<le> length (content f)" by (cases rule: turn) (auto simp: chunk_at_def)
  show "take (gf_pos g) (content f) @ (case out of ReadBytes b \<Rightarrow> b | _ \<Rightarrow> []) = take (gf_pos g') (content f)"
    by (cases rule: turn) (auto simp: take_add_chunk chunk_at_def split: read_out.split)
  show "gf_finished g \<and> f \<noteq> None \<and> gf_pos g' = length (content f)" if "0 < n" "out = ReadEOF"
    using that p by (cases rule: turn) (auto simp: chunk_at_def)
  show "gf_pos g \<le> gf_pos g'" by (cases rule: turn) simp_all
qed

lemma tail_run_ok: "tail_run t \<Longrightarrow> tail_ok t"
proof (induction rule: tail_run.induct)
  case tail_init
  then show ?case by (simp add: tail_ok_def tail_start_def NewGrowingFileReader_def content_def)
next
  case (tail_append t a)
  then show ?case by (auto simp: tail_ok_def content_grow)
next
  case (tail_finish t)
  then show ?case by (auto simp: tail_ok_def Finish_def)
next
  case (tail_abort t e)
  then show ?case by (auto simp: tail_ok_def Abort_def)
next
  case (tail_turn t n acts io1 io2 out g fl)
  have pre: "gf_open (tl_reader t) \<longrightarrow> tl_file t \<noteq> None" "gf_pos (tl_reader t) \<le> length (content (tl_file t))"
    using tail_turn.IH by (simp_all add: tail_ok_def)
  note spec = read_turn_spec [OF tail_turn.hyps(4) pre]
  have "fl = tl_file t" if "gf_finished (tl_reader t)" using that spec(8) tail_turn.hyps(3) by simp
  then have "gf_finished g \<and> fl \<noteq> None \<and> gf_pos g = length (content fl)" if "tl_eof t \<or> out = ReadEOF"
    using that tail_turn.IH spec(1,6,10) spec(9) [OF tail_turn.hyps(2)] unfolding tail_ok_def by (metis le_antisym)
  then show ?case using tail_turn.IH spec(3,4,6,7) unfolding tail_ok_def by simp
qed

section \<open>Correctness\<close>

text \<open>
  C33. However the producer's appends interleave with the reads, the consumer has received a prefix of
  the file, in order and without loss; and once a read reports the end of the file, the producer
  has finished and the consumer has received the whole file.
\<close>

theorem growing_file_is_delivered_exactly:
  assumes "tail_run t"
  shows "tl_out t = take (length (tl_out t)) (content (tl_file t))
    \<and> (tl_eof t \<longrightarrow> gf_finished (tl_reader t) \<and> tl_file t = Some (tl_out t))"
  using tail_run_ok [OF assms] by (auto simp: tail_ok_def content_def)

text \<open>
  An abort that comes before \<open>Finish\<close> ends the stream with its error: from then on every read fails, so
  the consumer is never told that the file has ended.
\<close>

lemma aborted_read_fails:
  "gf_aborted g = Some e \<Longrightarrow> read_turn n acts io1 io2 g file0 = (ReadError e, g, file0)"
  by (cases acts) (simp add: read_turn_def)

lemma aborted_stream_never_ends: "tail_run t \<Longrightarrow> gf_aborted (tl_reader t) \<noteq> None \<Longrightarrow> \<not> tl_eof t"
proof (induction rule: tail_run.induct)
  case tail_init
  then show ?case by (simp add: tail_start_def)
next
  case (tail_abort t e)
  have "tl_eof t \<longrightarrow> gf_finished (tl_reader t)" using tail_run_ok [OF tail_abort.hyps] by (simp add: tail_ok_def)
  then show ?case using tail_abort by (auto simp: Abort_def split: if_splits)
next
  case (tail_turn t n acts io1 io2 out g fl)
  show ?case
  proof (cases "gf_aborted (tl_reader t)")
    case None
    have "gf_open (tl_reader t) \<longrightarrow> tl_file t \<noteq> None" "gf_pos (tl_reader t) \<le> length (content (tl_file t))"
      using tail_run_ok [OF tail_turn.hyps(1)] by (simp_all add: tail_ok_def)
    from read_turn_spec(2) [OF tail_turn.hyps(4) this] show ?thesis using None tail_turn.prems by simp
  next
    case (Some e)
    then show ?thesis using tail_turn.IH tail_turn.hyps(4) by (auto simp: aborted_read_fails)
  qed
qed (auto simp: Finish_def split: if_splits)

text \<open>After \<open>Finish\<close> the loop ends: the rest of the file comes in at most one turn per byte, then the end.\<close>

fun drain :: "nat \<Rightarrow> nat \<Rightarrow> GrowingFileReader \<Rightarrow> bytes option \<Rightarrow> bytes \<times> bool" where
  "drain 0 n g file = ([], False)"
| "drain (Suc fuel) n g file =
     (case read_turn n (None, None, None) False False g file of
        (ReadBytes b, g', file') \<Rightarrow> (let (rest, eof) = drain fuel n g' file' in (b @ rest, eof))
      | (ReadEOF, _, _) \<Rightarrow> ([], True)
      | _ \<Rightarrow> ([], False))"

lemma take_chunk_drop: "take n xs @ drop (length (take n xs)) xs = xs"
  by (cases "n \<le> length xs") simp_all

lemma drain_all:
  assumes "gf_finished g" and "gf_aborted g = None" and "gf_pos g \<le> length b" and "0 < n" and "length b - gf_pos g < fuel"
  shows "drain fuel n g (Some b) = (drop (gf_pos g) b, True)"
  using assms
proof (induction fuel arbitrary: g)
  case (Suc fuel)
  have c: "chunk_at n g (Some b) = take n (drop (gf_pos g) b)" by (simp add: chunk_at_def content_def)
  show ?case
  proof (cases "drop (gf_pos g) b = []")
    case True
    then show ?thesis using Suc.prems c by (simp add: read_turn_opened [OF Suc.prems(2)] Let_def)
  next
    case False
    let ?g = "g\<lparr> gf_open := True, gf_pos := gf_pos g + length (take n (drop (gf_pos g) b)) \<rparr>"
    have ne: "take n (drop (gf_pos g) b) \<noteq> []" using False Suc.prems(4) by simp
    then have "0 < length (take n (drop (gf_pos g) b))" by blast
    then have "drain fuel n ?g (Some b) = (drop (gf_pos ?g) b, True)" using Suc.IH [of ?g] Suc.prems by auto
    moreover have "take n (drop (gf_pos g) b) @ drop (gf_pos g + length (take n (drop (gf_pos g) b))) b = drop (gf_pos g) b"
      using take_chunk_drop [of n "drop (gf_pos g) b"] by (simp add: add.commute del: length_take)
    ultimately show ?thesis using ne c by (simp add: read_turn_opened [OF Suc.prems(2)] Let_def del: take_eq_Nil length_take)
  qed
qed simp

text \<open>
  After \<open>Finish\<close> the reads end. With the producer silent and no failing read, the rest of the file is
  delivered and the end of the file is reported within as many reads as there are bytes left, plus one,
  whatever the buffer size; a file that never appeared is an error, never an empty upload.
\<close>

theorem finished_file_is_drained:
  assumes "tail_run t" and "gf_finished (tl_reader t)" and "gf_aborted (tl_reader t) = None" and "0 < n"
  shows "(\<forall>f. tl_file t = Some f \<longrightarrow>
            drain (length f - length (tl_out t) + 1) n (tl_reader t) (Some f) = (drop (length (tl_out t)) f, True)
            \<and> tl_out t @ drop (length (tl_out t)) f = f)
    \<and> (tl_file t = None \<longrightarrow>
         fst (read_turn n (None, None, None) False False (tl_reader t) None) = ReadError ErrGrowingFileMissing)"
proof -
  have ok: "tail_ok t" using tail_run_ok [OF assms(1)] .
  have "drain (length f - length (tl_out t) + 1) n (tl_reader t) (Some f) = (drop (length (tl_out t)) f, True)
      \<and> tl_out t @ drop (length (tl_out t)) f = f" if "tl_file t = Some f" for f
  proof -
    have p: "gf_pos (tl_reader t) \<le> length f" "tl_out t = take (gf_pos (tl_reader t)) f"
      using ok that by (simp_all add: tail_ok_def content_def)
    then have l: "length (tl_out t) = gf_pos (tl_reader t)" by simp
    show ?thesis unfolding l using drain_all [OF assms(2,3) p(1) assms(4)] p(2) by (simp del: drain.simps)
  qed
  moreover have "\<not> gf_open (tl_reader t)" if "tl_file t = None" using ok that by (auto simp: tail_ok_def)
  ultimately show ?thesis using assms(2,3) by (simp add: read_turn_def Let_def)
qed

text \<open>The producer writes two bytes, the reader takes one, the producer finishes.\<close>

definition sample_tail :: tail where
  "sample_tail = \<lparr> tl_reader = \<lparr> gf_open = True, gf_pos = 1, gf_finished = True, gf_aborted = None \<rparr>,
     tl_file = Some ''ab'', tl_out = ''a'', tl_eof = False \<rparr>"

lemma sample_tail_open: "tail_run (sample_tail\<lparr> tl_reader := (tl_reader sample_tail)\<lparr> gf_finished := False \<rparr> \<rparr>)"
proof -
  have "tail_run (tail_start\<lparr> tl_file := grow (Some ''ab'') (tl_file tail_start) \<rparr>)"
    by (rule tail_append [OF tail_init]) (simp add: tail_start_def NewGrowingFileReader_def)
  then show ?thesis
    using tail_turn [where n = 1 and acts = "(None, None, None)" and t = "tail_start\<lparr> tl_file := Some ''ab'' \<rparr>"
        and ?io1.0 = False and ?io2.0 = False]
    by (simp add: tail_start_def NewGrowingFileReader_def sample_tail_def read_turn_def Let_def)
qed

lemma sample_tail_run: "tail_run sample_tail"
  using tail_finish [OF sample_tail_open] by (simp add: Finish_def sample_tail_def)

text \<open>The same stream, aborted instead of finished.\<close>

definition aborted_tail :: tail where
  "aborted_tail = sample_tail\<lparr> tl_reader := \<lparr> gf_open = True, gf_pos = 1, gf_finished = True, gf_aborted = Some ErrGrowingFileAborted \<rparr> \<rparr>"

lemma aborted_tail_run: "tail_run aborted_tail" "gf_aborted (tl_reader aborted_tail) = Some ErrGrowingFileAborted"
  using tail_abort [OF sample_tail_open, of "Some ErrGrowingFileAborted"]
  by (simp_all add: Abort_def aborted_tail_def sample_tail_def)

theorem growing_file_is_delivered_exactly_witness:
  "tl_out sample_tail = take (length (tl_out sample_tail)) (content (tl_file sample_tail)) \<and> tl_out sample_tail = ''a''"
  using growing_file_is_delivered_exactly [OF sample_tail_run] by (simp add: sample_tail_def content_def)

theorem finished_file_is_drained_witness:
  "drain (length ''ab'' - length (tl_out sample_tail) + 1) 7 (tl_reader sample_tail) (Some ''ab'') = (''b'', True)"
proof -
  have f: "gf_finished (tl_reader sample_tail)" "gf_aborted (tl_reader sample_tail) = None" "tl_file sample_tail = Some ''ab''"
    by (simp_all add: sample_tail_def)
  have "drain (length ''ab'' - length (tl_out sample_tail) + 1) 7 (tl_reader sample_tail) (Some ''ab'')
      = (drop (length (tl_out sample_tail)) ''ab'', True)"
    using finished_file_is_drained [OF sample_tail_run f(1,2) zero_less_numeral] f(3) by blast
  then show ?thesis by (simp add: sample_tail_def)
qed

end
