(* ===== verification/Chunk_Assembly.thy ===== *)
theory Chunk_Assembly
  imports Queue_Guarantees
begin

text \<open>
  The assembly of a chunk family on the worker: the contract a family must meet
  (\<open>renderinggen/internal/queue/finalization.go\<close>), the finalization protocol
  (\<open>renderinggen/internal/processor/finalization.go\<close>) run against the queue's repository, the frame range
  of a chunk against its plan (\<open>validator.go\<close>), and the output segments of a batch render
  (\<open>segments.go\<close>). The renderer, the object store client and the Drive publisher are parameters.
\<close>

section \<open>The contract of a family\<close>

datatype chunk_error =
    InvalidParentContract
  | ChunkIndexInvalid nat
  | ChunkNotCompleted nat
  | ChunkRangeInvalid nat
  | ChunkNotCopyEligible nat
  | ChunkOpenGOP nat
  | ChunkNoKeyframe nat
  | ChunkRangesEnd int

fun validate_children_from :: "nat \<Rightarrow> int \<Rightarrow> int \<Rightarrow> Job list \<Rightarrow> chunk_error option" where
  "validate_children_from i cursor end [] = (if cursor \<noteq> end then Some (ChunkRangesEnd cursor) else None)"
| "validate_children_from i cursor end (child # children) =
     (if job_ChunkIndex child \<noteq> int i then Some (ChunkIndexInvalid i)
      else case job_Artifact child of
        None \<Rightarrow> Some (ChunkNotCompleted i)
      | Some a \<Rightarrow>
          (if job_State child \<noteq> StateCompleted \<or> art_StorageKey a = [] then Some (ChunkNotCompleted i)
           else case job_FrameRange child of
             None \<Rightarrow> Some (ChunkRangeInvalid i)
           | Some r \<Rightarrow>
               (if fr_Start r \<noteq> cursor \<or> fr_End r \<le> fr_Start r then Some (ChunkRangeInvalid i)
                else if \<not> art_CopyEligible a then Some (ChunkNotCopyEligible i)
                else if \<not> art_ClosedGOP a then Some (ChunkOpenGOP i)
                else if \<not> art_FirstFrameKeyframe a then Some (ChunkNoKeyframe i)
                else validate_children_from (Suc i) (fr_End r) end children)))"

definition ValidateChildren :: "Job list \<Rightarrow> int \<Rightarrow> int \<Rightarrow> chunk_error option" where
  "ValidateChildren children start end =
     (if end \<le> start then Some InvalidParentContract else validate_children_from 0 start end children)"

definition allChildrenUnranged :: "Job list \<Rightarrow> bool" where
  "allChildrenUnranged children \<longleftrightarrow> (\<forall>child \<in> set children. job_FrameRange child = None)"

definition childFrameRange :: "Job list \<Rightarrow> (int \<times> int) option" where
  "childFrameRange children =
     (if children = [] then None
      else case (job_FrameRange (hd children), job_FrameRange (last children)) of
        (Some a, Some b) \<Rightarrow> Some (fr_Start a, fr_End b)
      | _ \<Rightarrow> None)"

section \<open>Frame ranges and output segments\<close>

datatype range_error = RangeWithoutPlan | RangeEmptyOrInverted | RangeBeyondPlan

text \<open>A plan is known here by its duration in frames; \<open>None\<close> is a job without a compiled plan.\<close>

definition validateFrameRange :: "FrameRange option \<Rightarrow> int option \<Rightarrow> range_error option" where
  "validateFrameRange frames plan =
     (case frames of
        None \<Rightarrow> None
      | Some r \<Rightarrow>
          (case plan of
             None \<Rightarrow> Some RangeWithoutPlan
           | Some frameCount \<Rightarrow>
               (if frameCount \<le> 0 then None
                else if fr_Start r < 0 \<or> fr_End r \<le> fr_Start r then Some RangeEmptyOrInverted
                else if fr_End r > frameCount then Some RangeBeyondPlan
                else None)))"

record ItemWindow =
  iw_ItemID :: string
  iw_StartFrame :: int
  iw_EndFrame :: int

record OutputSegment =
  sg_OutputPath :: string
  sg_StartFrame :: int
  sg_EndFrame :: int

record SegmentPlan =
  sp_Segments :: "OutputSegment list"
  sp_ItemIDs :: "string list"

text \<open>\<open>segment-%03d.mp4\<close> under the output directory: at least three decimal digits.\<close>

definition pad3 :: "string \<Rightarrow> string" where
  "pad3 s = replicate (3 - length s) (CHR ''0'') @ s"

definition segmentOutputPath :: "string \<Rightarrow> nat \<Rightarrow> string" where
  "segmentOutputPath outputDir index = outputDir @ ''/segment-'' @ pad3 (decimal index) @ ''.mp4''"

fun windows_end :: "int \<Rightarrow> ItemWindow list \<Rightarrow> int option" where
  "windows_end expected [] = Some expected"
| "windows_end expected (w # ws) =
     (if iw_StartFrame w \<noteq> expected \<or> iw_EndFrame w \<le> iw_StartFrame w then None
      else windows_end (iw_EndFrame w) ws)"

fun segments_from :: "string \<Rightarrow> nat \<Rightarrow> ItemWindow list \<Rightarrow> OutputSegment list" where
  "segments_from outputDir i [] = []"
| "segments_from outputDir i (w # ws) =
     \<lparr> sg_OutputPath = segmentOutputPath outputDir i, sg_StartFrame = iw_StartFrame w, sg_EndFrame = iw_EndFrame w \<rparr>
     # segments_from outputDir (Suc i) ws"

definition planSegmentOutputs :: "ItemWindow list \<Rightarrow> int \<Rightarrow> string \<Rightarrow> SegmentPlan option" where
  "planSegmentOutputs windows totalFrames outputDir =
     (if length windows < 2 \<or> totalFrames \<le> 0 then None
      else case windows_end 0 windows of
        None \<Rightarrow> None
      | Some expected \<Rightarrow>
          (if expected \<noteq> totalFrames then None
           else Some \<lparr> sp_Segments = segments_from outputDir 0 windows, sp_ItemIDs = map iw_ItemID windows \<rparr>))"

section \<open>The finalization protocol\<close>

record anchorAudio =
  aa_sourceHash :: string
  aa_targetSampleRate :: int
  aa_want :: bool

record AssembleRequest =
  as_Inputs :: "string list"
  as_Output :: string
  as_FragmentedMP4 :: bool
  as_AudioSourcePath :: string
  as_AudioTargetSampleRate :: int

datatype finalize_error =
    FinRepo repo_error
  | FinContract chunk_error
  | FinNoFrameRange
  | FinAssemblerRequired
  | FinOutputDirRequired
  | FinMkdir
  | FinLocalPath
  | FinAudio
  | FinAssemble
  | FinArtifact
  | FinStore
  | FinPublish
  | FinCancelled

text \<open>
  The collaborators of a finalizer: the local path of a stored object, the audio the anchor's plan
  asks for, the assembler (\<open>None\<close>: not wired), the artifact read back from the output, the upload and
  the publication. \<open>fz_cancelled\<close>: a renewal failed while the work was going on. The two
  interleavings are what other clients of the queue do between the claim and the second read and
  between that read and the completion; the clocks and map orders are those of the queue calls.
\<close>

record finalizer =
  fz_workerID :: string
  fz_outputDir :: string
  fz_mkdirOK :: bool
  fz_localPath :: "string \<Rightarrow> string option"
  fz_audio :: "Job \<Rightarrow> anchorAudio option"
  fz_assemble :: "(AssembleRequest \<Rightarrow> bool) option"
  fz_artifact :: "AssembleRequest \<Rightarrow> Artifact option"
  fz_putFile :: "Artifact \<Rightarrow> bool"
  fz_publish :: "(Artifact \<Rightarrow> (string \<times> string) option) option"
  fz_cancelled :: bool
  fz_claimClock :: gotime
  fz_completeClock :: gotime
  fz_order1 :: "string list"
  fz_order2 :: "string list"
  fz_others1 :: "Repository \<Rightarrow> Repository"
  fz_others2 :: "Repository \<Rightarrow> Repository"

fun local_paths :: "(string \<Rightarrow> string option) \<Rightarrow> Job list \<Rightarrow> string list option" where
  "local_paths lp [] = Some []"
| "local_paths lp (child # children) =
     (case job_Artifact child of
        None \<Rightarrow> None
      | Some a \<Rightarrow>
          (case lp (art_StorageKey a) of
             None \<Rightarrow> None
           | Some p \<Rightarrow> (case local_paths lp children of None \<Rightarrow> None | Some ps \<Rightarrow> Some (p # ps))))"

definition silent_family :: "Job list \<Rightarrow> bool" where
  "silent_family children \<longleftrightarrow>
     (\<forall>child \<in> set children. case job_Artifact child of None \<Rightarrow> True | Some a \<Rightarrow> \<not> art_AudioStreams a > 0)"

definition assemble_request ::
  "finalizer \<Rightarrow> string \<Rightarrow> Job \<Rightarrow> Job list \<Rightarrow> (finalize_error, AssembleRequest) result" where
  "assemble_request f parentID claimedJob children =
     (case local_paths (fz_localPath f) children of
        None \<Rightarrow> Inl FinLocalPath
      | Some inputs \<Rightarrow>
          (case fz_audio f claimedJob of
             None \<Rightarrow> Inl FinAudio
           | Some audio \<Rightarrow>
               (let req = \<lparr> as_Inputs = inputs, as_Output = fz_outputDir f @ ''/'' @ parentID @ ''.mp4'',
                            as_FragmentedMP4 = silent_family children, as_AudioSourcePath = [],
                            as_AudioTargetSampleRate = 0 \<rparr>
                in if aa_want audio then
                     (case fz_localPath f (aa_sourceHash audio) of
                        None \<Rightarrow> Inl FinAudio
                      | Some audioPath \<Rightarrow>
                          Inr (req\<lparr> as_AudioSourcePath := audioPath, as_AudioTargetSampleRate := aa_targetSampleRate audio,
                                    as_FragmentedMP4 := False \<rparr>))
                   else Inr req)))"

text \<open>The media work of a claimed parent, up to the artifact to complete it with.\<close>

definition assemble_parent ::
  "finalizer \<Rightarrow> string \<Rightarrow> Job \<Rightarrow> Job list \<Rightarrow> (finalize_error, Artifact) result" where
  "assemble_parent f parentID claimedJob children =
     (case fz_assemble f of
        None \<Rightarrow> Inl FinAssemblerRequired
      | Some assemble \<Rightarrow>
          (if fz_outputDir f = [] then Inl FinOutputDirRequired
           else if \<not> fz_mkdirOK f then Inl FinMkdir
           else case assemble_request f parentID claimedJob children of
             Inl e \<Rightarrow> Inl e
           | Inr req \<Rightarrow>
               (if \<not> assemble req then Inl FinAssemble
                else case fz_artifact f req of
                  None \<Rightarrow> Inl FinArtifact
                | Some artifact \<Rightarrow>
                    (if \<not> fz_putFile f artifact then Inl FinStore
                     else case fz_publish f of
                       None \<Rightarrow> (if fz_cancelled f then Inl FinCancelled else Inr artifact)
                     | Some publish \<Rightarrow>
                         (case publish artifact of
                            None \<Rightarrow> Inl FinPublish
                          | Some (fileID, link) \<Rightarrow>
                              (if fz_cancelled f then Inl FinCancelled
                               else Inr (artifact\<lparr> art_DriveFileID := fileID, art_DriveLink := link \<rparr>)))))))"

text \<open>The outcome is an error, \<open>None\<close> (nothing finalized) or the artifact of the completed parent.\<close>

definition finalize ::
  "finalizer \<Rightarrow> string \<Rightarrow> int \<Rightarrow> int \<Rightarrow> Job list \<Rightarrow> Repository \<Rightarrow> (finalize_error, Artifact option) result \<times> Repository" where
  "finalize f parentID start end children s =
     (case ValidateChildren children start end of
        Some e \<Rightarrow> (Inl (FinContract e), s)
      | None \<Rightarrow>
          (case ClaimFinalization (fz_claimClock f) parentID (fz_workerID f) s of
             (Inl e, s1) \<Rightarrow> (Inl (FinRepo e), s1)
           | (Inr None, s1) \<Rightarrow> (Inr None, s1)
           | (Inr (Some claimedJob), s1) \<Rightarrow>
               (let s2 = fz_others1 f s1 in
                case Children (fz_order2 f) parentID s2 of
                  Inl e \<Rightarrow> (Inl (FinRepo e), s2)
                | Inr children' \<Rightarrow>
                    (case ValidateChildren children' start end of
                       Some e \<Rightarrow> (Inl (FinContract e), s2)
                     | None \<Rightarrow>
                         (case assemble_parent f parentID claimedJob children' of
                            Inl e \<Rightarrow> (Inl e, fz_others2 f s2)
                          | Inr artifact \<Rightarrow>
                              (case Complete (fz_completeClock f) parentID (fz_workerID f) artifact (fz_others2 f s2) of
                                 (Inl e, s3) \<Rightarrow> (Inl (FinRepo e), s3)
                               | (Inr _, s3) \<Rightarrow> (Inr (Some artifact), s3)))))))"

definition FinalizeFromChildren ::
  "finalizer \<Rightarrow> string \<Rightarrow> Repository \<Rightarrow> (finalize_error, Artifact option) result \<times> Repository" where
  "FinalizeFromChildren f parentID s =
     (case Children (fz_order1 f) parentID s of
        Inl e \<Rightarrow> (Inl (FinRepo e), s)
      | Inr children \<Rightarrow>
          (case childFrameRange children of
             None \<Rightarrow>
               (if children = [] \<or> allChildrenUnranged children then (Inr None, s)
                else (Inl FinNoFrameRange, s))
           | Some (start, end) \<Rightarrow> finalize f parentID start end children s))"

section \<open>What the contract means\<close>

text \<open>
  A child certified for packet copy at position \<open>k\<close>, the frames it covers, and how many children cover
  a frame.
\<close>

definition certified_child :: "nat \<Rightarrow> Job \<Rightarrow> bool" where
  "certified_child k child \<longleftrightarrow> job_ChunkIndex child = int k \<and> job_State child = StateCompleted
     \<and> (\<exists>a. job_Artifact child = Some a \<and> art_StorageKey a \<noteq> [] \<and> art_CopyEligible a \<and> art_ClosedGOP a
            \<and> art_FirstFrameKeyframe a)
     \<and> (\<exists>r. job_FrameRange child = Some r \<and> fr_Start r < fr_End r)"

definition first_frame :: "Job \<Rightarrow> int" where "first_frame child = fr_Start (the (job_FrameRange child))"
definition end_frame :: "Job \<Rightarrow> int" where "end_frame child = fr_End (the (job_FrameRange child))"

definition covers :: "int \<Rightarrow> Job \<Rightarrow> bool" where
  "covers f child \<longleftrightarrow> first_frame child \<le> f \<and> f < end_frame child"

definition coverage :: "Job list \<Rightarrow> int \<Rightarrow> nat" where
  "coverage children f = length (filter (covers f) children)"

text \<open>The loop, with the shape of an accepted list of children made explicit.\<close>

fun chained :: "int \<Rightarrow> int \<Rightarrow> Job list \<Rightarrow> bool" where
  "chained cursor end [] \<longleftrightarrow> cursor = end"
| "chained cursor end (child # children) \<longleftrightarrow>
     first_frame child = cursor \<and> cursor < end_frame child \<and> chained (end_frame child) end children"

lemma certified_nonempty: "certified_child k child \<Longrightarrow> first_frame child < end_frame child"
  by (auto simp: certified_child_def first_frame_def end_frame_def)

lemma validate_children_iff:
  "validate_children_from i cursor end children = None \<longleftrightarrow>
     (\<forall>k < length children. certified_child (i + k) (children ! k)) \<and> chained cursor end children"
proof (induction i cursor "end" children rule: validate_children_from.induct)
  case (2 i cursor "end" child children)
  have "(\<forall>k < length (child # children). certified_child (i + k) ((child # children) ! k)) \<longleftrightarrow>
      certified_child i child \<and> (\<forall>k < length children. certified_child (Suc i + k) (children ! k))"
    by (auto simp: less_Suc_eq_0_disj)
  moreover have "validate_children_from i cursor end (child # children) = None \<longleftrightarrow>
      certified_child i child \<and> first_frame child = cursor \<and> cursor < end_frame child
      \<and> validate_children_from (Suc i) (end_frame child) end children = None"
    by (auto simp: certified_child_def first_frame_def end_frame_def split: option.splits)
  moreover have "validate_children_from (Suc i) (end_frame child) end children = None \<longleftrightarrow>
      (\<forall>k < length children. certified_child (Suc i + k) (children ! k)) \<and> chained (end_frame child) end children"
    if "certified_child i child" "first_frame child = cursor" "cursor < end_frame child"
    using that 2 by (auto simp: certified_child_def first_frame_def end_frame_def)
  ultimately show ?case by auto
qed simp

lemma chained_le: "chained cursor end children \<Longrightarrow> cursor \<le> end"
  by (induction cursor "end" children rule: chained.induct) auto

lemma chained_coverage:
  "chained cursor end children \<Longrightarrow> coverage children f = (if cursor \<le> f \<and> f < end then 1 else 0)"
proof (induction cursor "end" children rule: chained.induct)
  case (2 cursor "end" child children)
  then show ?case using chained_le [of "end_frame child" "end" children] by (auto simp: coverage_def covers_def)
qed (simp add: coverage_def)

lemma chained_sorted: "chained cursor end children \<Longrightarrow> sorted_wrt (\<lambda>a b. first_frame a < first_frame b) children
    \<and> (\<forall>c \<in> set children. cursor \<le> first_frame c)"
  by (induction cursor "end" children rule: chained.induct) fastforce+

lemma coverage_chained:
  assumes "sorted_wrt (\<lambda>a b. first_frame a < first_frame b) children"
    and "\<forall>c \<in> set children. first_frame c < end_frame c"
    and "\<forall>f. coverage children f = (if cursor \<le> f \<and> f < end then 1 else 0)" and "cursor \<le> end"
  shows "chained cursor end children"
  using assms
proof (induction children arbitrary: cursor)
  case Nil
  then have "\<not> cursor < end" by (auto simp: coverage_def split: if_splits)
  then show ?case using Nil.prems(4) by simp
next
  case (Cons c cs)
  have later: "first_frame c < first_frame d" if "d \<in> set cs" for d using Cons.prems(1) that by simp
  have ne: "first_frame c < end_frame c" using Cons.prems(2) by simp
  then have pos: "0 < coverage (c # cs) (first_frame c)" by (simp add: coverage_def covers_def)
  have "cursor \<le> first_frame c \<and> first_frame c < end" using Cons.prems(3) pos by (metis less_irrefl)
  moreover have "\<not> cursor < first_frame c"
  proof
    assume lt: "cursor < first_frame c"
    then have "coverage (c # cs) cursor = 1" using Cons.prems(3) calculation by simp
    then obtain d where "d \<in> set (c # cs)" "covers cursor d"
      by (metis coverage_def filter_empty_conv list.size(3) zero_neq_one)
    then show False using lt later by (auto simp: covers_def) (meson le_less_trans less_le_trans not_le order.asym)
  qed
  ultimately have start: "first_frame c = cursor" by simp
  have "0 < coverage (c # cs) (end_frame c - 1)" using ne by (simp add: coverage_def covers_def)
  then have e: "end_frame c \<le> end" using Cons.prems(3) by (metis zle_diff1_eq less_irrefl diff_add_cancel zless_imp_add1_zle)
  have rest: "coverage cs f = (if end_frame c \<le> f \<and> f < end then 1 else 0)" for f
  proof -
    have "coverage (c # cs) f = (if covers f c then 1 else 0) + coverage cs f" by (simp add: coverage_def)
    then show ?thesis using Cons.prems(3) start ne e by (auto simp: covers_def split: if_splits)
  qed
  have "chained (end_frame c) end cs" using Cons.IH [of "end_frame c"] Cons.prems(1,2) rest e by simp
  then show ?case using start ne by simp
qed

section \<open>Correctness\<close>

text \<open>
  C37. A family is accepted for assembly exactly when the parent's range is not empty, every child is
  completed, certified for packet copy and at its index, the children come in the order of
  their frames, and together they cover every frame of the parent's range once and no other frame.
\<close>

theorem accepted_family_covers_every_frame_once:
  "ValidateChildren children start end = None \<longleftrightarrow>
     start < end \<and> (\<forall>k < length children. certified_child k (children ! k))
     \<and> sorted_wrt (\<lambda>a b. first_frame a < first_frame b) children
     \<and> (\<forall>f. coverage children f = (if start \<le> f \<and> f < end then 1 else 0))"
proof
  assume "ValidateChildren children start end = None"
  then have acc: "start < end" "\<forall>k < length children. certified_child k (children ! k)" "chained start end children"
    using validate_children_iff [of 0 start "end" children] by (auto simp: ValidateChildren_def split: if_splits)
  then show "start < end \<and> (\<forall>k < length children. certified_child k (children ! k))
     \<and> sorted_wrt (\<lambda>a b. first_frame a < first_frame b) children
     \<and> (\<forall>f. coverage children f = (if start \<le> f \<and> f < end then 1 else 0))"
    using chained_coverage [OF acc(3)] chained_sorted [OF acc(3)] by simp
next
  assume r: "start < end \<and> (\<forall>k < length children. certified_child k (children ! k))
     \<and> sorted_wrt (\<lambda>a b. first_frame a < first_frame b) children
     \<and> (\<forall>f. coverage children f = (if start \<le> f \<and> f < end then 1 else 0))"
  then have "\<forall>c \<in> set children. first_frame c < end_frame c" by (metis certified_nonempty in_set_conv_nth)
  then have "chained start end children" using r coverage_chained [of children start "end"] by simp
  then show "ValidateChildren children start end = None"
    using r validate_children_iff [of 0 start "end" children] by (simp add: ValidateChildren_def)
qed

text \<open>The segment paths determine the segment: the printed index can be read back.\<close>

lemma read_pad3: "read_digits (pad3 s) = read_digits s"
proof -
  have "foldl (\<lambda>acc c. 10 * acc + (of_char c - 48)) (0::nat) (replicate n (CHR ''0'')) = 0" for n by (induction n) simp_all
  then show ?thesis by (simp add: pad3_def read_digits_def)
qed

lemma segmentOutputPath_inj: "segmentOutputPath dir i = segmentOutputPath dir j \<Longrightarrow> i = j"
proof -
  assume "segmentOutputPath dir i = segmentOutputPath dir j"
  then have "pad3 (decimal i) = pad3 (decimal j)" by (simp add: segmentOutputPath_def)
  then show "i = j" by (metis read_pad3 read_decimal)
qed

definition segment_covers :: "int \<Rightarrow> OutputSegment \<Rightarrow> bool" where
  "segment_covers f g \<longleftrightarrow> sg_StartFrame g \<le> f \<and> f < sg_EndFrame g"

lemma windows_end_le: "windows_end e ws = Some t \<Longrightarrow> e \<le> t"
  by (induction e ws rule: windows_end.induct) (auto split: if_splits)

lemma segments_from_coverage:
  "windows_end e ws = Some t \<Longrightarrow>
     length (filter (segment_covers f) (segments_from dir i ws)) = (if e \<le> f \<and> f < t then 1 else 0)"
proof (induction e ws arbitrary: i rule: windows_end.induct)
  case (2 e w ws)
  then have s: "iw_StartFrame w = e" "e < iw_EndFrame w" "windows_end (iw_EndFrame w) ws = Some t" by (auto split: if_splits)
  then show ?case using 2 windows_end_le [OF s(3)] by (auto simp: segment_covers_def)
qed (simp add: segment_covers_def)

lemma segments_from_paths: "map sg_OutputPath (segments_from dir i ws) = map (segmentOutputPath dir) [i..<i + length ws]"
  by (induction ws arbitrary: i) (simp_all add: upt_rec)

lemma segments_from_windows:
  "map (\<lambda>g. (sg_StartFrame g, sg_EndFrame g)) (segments_from dir i ws) = map (\<lambda>w. (iw_StartFrame w, iw_EndFrame w)) ws"
  by (induction ws arbitrary: i) simp_all

text \<open>
  A batch render is segmented only when its item windows tile the canvas: then there is one segment
  per item, in order and with the item's window, no two segments are written to the same file,
  and every frame of the canvas is in exactly one segment.
\<close>

theorem segments_tile_the_canvas:
  assumes "planSegmentOutputs windows totalFrames dir = Some plan"
  shows "2 \<le> length windows \<and> sp_ItemIDs plan = map iw_ItemID windows
    \<and> map (\<lambda>g. (sg_StartFrame g, sg_EndFrame g)) (sp_Segments plan) = map (\<lambda>w. (iw_StartFrame w, iw_EndFrame w)) windows
    \<and> distinct (map sg_OutputPath (sp_Segments plan))
    \<and> (\<forall>f. length (filter (segment_covers f) (sp_Segments plan)) = (if 0 \<le> f \<and> f < totalFrames then 1 else 0))"
proof -
  have plan: "2 \<le> length windows" "windows_end 0 windows = Some totalFrames"
    "plan = \<lparr> sp_Segments = segments_from dir 0 windows, sp_ItemIDs = map iw_ItemID windows \<rparr>"
    using assms by (auto simp: planSegmentOutputs_def split: if_splits option.splits)
  have "distinct (map sg_OutputPath (segments_from dir 0 windows))"
    by (simp add: segments_from_paths distinct_map inj_on_def segmentOutputPath_inj)
  then show ?thesis using plan segments_from_coverage [OF plan(2)] segments_from_windows by simp
qed

theorem segments_tile_the_canvas_witness:
  "\<exists>plan. planSegmentOutputs [\<lparr> iw_ItemID = ''x'', iw_StartFrame = 0, iw_EndFrame = 4 \<rparr>, \<lparr> iw_ItemID = ''y'', iw_StartFrame = 4, iw_EndFrame = 9 \<rparr>]
      9 ''out'' = Some plan \<and> length (filter (segment_covers 4) (sp_Segments plan)) = 1 \<and> distinct (map sg_OutputPath (sp_Segments plan))"
proof -
  let ?ws = "[\<lparr> iw_ItemID = ''x'', iw_StartFrame = 0, iw_EndFrame = 4 \<rparr>, \<lparr> iw_ItemID = ''y'', iw_StartFrame = 4, iw_EndFrame = 9 \<rparr>]"
  obtain plan where plan: "planSegmentOutputs ?ws 9 ''out'' = Some plan" by (simp add: planSegmentOutputs_def)
  show ?thesis using segments_tile_the_canvas [OF plan] plan by auto
qed

text \<open>Two chunks of five and four frames.\<close>

definition chunk_artifact :: "string \<Rightarrow> Artifact" where
  "chunk_artifact key =
     \<lparr> art_ID = [], art_Kind = [], art_StorageKey = key, art_ArtifactURL = [], art_ArtifactHash = key,
       art_ContentType = ''video/mp4'', art_SizeBytes = 1, art_Width = 0, art_Height = 0, art_FPSNum = 0,
       art_FPSDen = 0, art_FrameCount = 0, art_DurationUS = 0, art_ProfileID = [], art_CopyEligible = True,
       art_Codec = [], art_CodecProfile = [], art_ClosedGOP = True, art_FirstFrameKeyframe = True,
       art_Backend = [], art_ChrononVersion = [], art_Metrics = [], art_ChrononTelemetry = [],
       art_ChrononTimingStorageKey = [], art_ChrononTimingURL = [], art_ChrononTimingSHA256 = [],
       art_ChrononTimingSizeBytes = 0, art_ChrononTimingContentType = [], art_DriveFileID = [],
       art_DriveLink = [], art_Container = [], art_PixelFormat = [], art_AudioStreams = 0,
       art_OutputFacts = None, art_Provenance = None \<rparr>"

definition chunk_job :: "string \<Rightarrow> int \<Rightarrow> int \<Rightarrow> int \<Rightarrow> Job" where
  "chunk_job i k a b = (sample_job i)\<lparr> job_ParentJobID := ''p'', job_ChunkIndex := k,
     job_FrameRange := Some \<lparr> fr_Start = a, fr_End = b \<rparr>, job_State := StateCompleted \<rparr>"

definition sample_chunks :: "Job list" where
  "sample_chunks = [(chunk_job ''c0'' 0 0 5)\<lparr> job_Artifact := Some (chunk_artifact ''k0'') \<rparr>,
                    (chunk_job ''c1'' 1 5 9)\<lparr> job_Artifact := Some (chunk_artifact ''k1'') \<rparr>]"

lemma sample_chunks_accepted: "ValidateChildren sample_chunks 0 9 = None"
  by (simp add: ValidateChildren_def sample_chunks_def chunk_job_def sample_job_def chunk_artifact_def)

theorem accepted_family_covers_every_frame_once_witness:
  "coverage sample_chunks 4 = 1 \<and> coverage sample_chunks 9 = 0 \<and> ValidateChildren sample_chunks 0 8 \<noteq> None"
proof -
  have "coverage sample_chunks 4 = 1 \<and> coverage sample_chunks 8 = 1 \<and> coverage sample_chunks 9 = 0"
    using accepted_family_covers_every_frame_once [of sample_chunks 0 9] sample_chunks_accepted by simp
  then show ?thesis using accepted_family_covers_every_frame_once [of sample_chunks 0 8] by auto
qed

section \<open>Finalization completes a parent once, with its whole family\<close>

lemma local_paths_map:
  "local_paths lp children = Some ps \<Longrightarrow> map Some ps = map (\<lambda>c. lp (art_StorageKey (the (job_Artifact c)))) children"
  by (induction lp children arbitrary: ps rule: local_paths.induct) (auto split: option.splits)

lemma assemble_request_inputs:
  "assemble_request f p job children = Inr req \<Longrightarrow>
     map Some (as_Inputs req) = map (\<lambda>c. fz_localPath f (art_StorageKey (the (job_Artifact c)))) children
     \<and> (as_FragmentedMP4 req \<longrightarrow> silent_family children)"
  by (auto simp: assemble_request_def Let_def dest: local_paths_map split: option.splits if_splits)

lemma assemble_parent_request:
  "assemble_parent f p job children = Inr a \<Longrightarrow>
     \<exists>assemble req. fz_assemble f = Some assemble \<and> assemble_request f p job children = Inr req \<and> assemble req
       \<and> \<not> fz_cancelled f"
  by (auto simp: assemble_parent_def split: option.splits if_splits sum.splits)

lemma Complete_result:
  "Complete clk i w a s = (Inr u, s') \<Longrightarrow>
     (\<exists>job. runningJob i w s = Inr job) \<and> r_artifacts s' i = Some a
     \<and> (\<exists>job'. r_jobs s' i = Some job' \<and> job_State job' = StateCompleted)"
  by (auto simp: Complete_def with_running_def put_job_def split: sum.splits)

lemma ClaimFinalization_completed:
  "r_jobs s p = Some job \<Longrightarrow> job_State job = StateCompleted \<Longrightarrow> \<exists>e. fst (ClaimFinalization clk p w s) = Inl e"
  by (simp add: ClaimFinalization_def)

lemma finalize_success:
  assumes "finalize f p start end children s = (Inr (Some a), s')"
  obtains job s1 children' where "ClaimFinalization (fz_claimClock f) p (fz_workerID f) s = (Inr (Some job), s1)"
    "Children (fz_order2 f) p (fz_others1 f s1) = Inr children'" "ValidateChildren children' start end = None"
    "assemble_parent f p job children' = Inr a"
    "Complete (fz_completeClock f) p (fz_workerID f) a (fz_others2 f (fz_others1 f s1)) = (Inr (), s')"
  using assms by (auto simp: finalize_def Let_def split: option.splits prod.splits sum.splits)

text \<open>A completed parent stays completed: no claim, report or finalization of it is accepted any more.\<close>

definition parent_closed :: "string \<Rightarrow> Artifact \<Rightarrow> Repository \<Rightarrow> bool" where
  "parent_closed p a s \<longleftrightarrow> r_artifacts s p = Some a
     \<and> (\<exists>row. r_jobs s p = Some row \<and> job_State row = StateCompleted)"

lemma parent_stays_closed:
  assumes "parent_closed p a s" and "mem_run U s cs s'" and "\<forall>c \<in> set cs. \<not> asks_for StateCompleted c"
  shows "parent_closed p a s'"
proof -
  obtain row where "r_jobs s p = Some row" "job_State row = StateCompleted"
    using assms(1) by (auto simp: parent_closed_def)
  with assms(1) terminal_row_stays [OF assms(2), of p row] terminal_artifact_stays [OF assms(2), of p row] assms(3)
  show ?thesis by (auto simp: parent_closed_def)
qed

lemma parent_closed_refuses:
  assumes "parent_closed p a s"
  shows "fst (Complete clk p w b s) \<noteq> Inr ()" and "fst (finalize g p start end children s) \<noteq> Inr (Some b)"
proof -
  obtain row where row: "r_jobs s p = Some row" "job_State row = StateCompleted"
    using assms by (auto simp: parent_closed_def)
  then show "fst (Complete clk p w b s) \<noteq> Inr ()"
    by (simp add: Complete_def with_running_fence(1) holds_def)
  show "fst (finalize g p start end children s) \<noteq> Inr (Some b)"
  proof
    assume "fst (finalize g p start end children s) = Inr (Some b)"
    then obtain s'' where "finalize g p start end children s = (Inr (Some b), s'')" by (metis prod.collapse)
    then obtain job' s1' where "ClaimFinalization (fz_claimClock g) p (fz_workerID g) s = (Inr (Some job'), s1')"
      using finalize_success by metis
    then show False using row ClaimFinalization_completed [of s p] by (metis fst_conv sum.distinct(1))
  qed
qed

text \<open>
  C38. A successful finalization, whatever other clients of the queue do in between: after the claim the
  family was read again and the children's frame ranges cover every frame of the parent's range
  exactly once, the assembler was given the children's files in chunk order and succeeded, and the
  parent, still owned by this worker, is completed with the resulting artifact. From then on, through
  every sequence of calls (retries, cancellations, sweeps and the calls of racing finalizers
  included) in which no claim asks by name for completed jobs, the parent stays completed with that
  artifact, the queue refuses every further completion of it, also that of a finalizer that
  had claimed it earlier, and no finalization started later succeeds.
\<close>

theorem parent_completes_once_with_its_whole_family:
  assumes "finalize f p start end children s = (Inr (Some a), s')"
  shows "(\<exists>job s1 children' assemble req.
       ClaimFinalization (fz_claimClock f) p (fz_workerID f) s = (Inr (Some job), s1)
     \<and> Children (fz_order2 f) p (fz_others1 f s1) = Inr children'
     \<and> (\<forall>n. coverage children' n = (if start \<le> n \<and> n < end then 1 else 0))
     \<and> fz_assemble f = Some assemble \<and> assemble req
     \<and> map Some (as_Inputs req) = map (\<lambda>c. fz_localPath f (art_StorageKey (the (job_Artifact c)))) children'
     \<and> (\<exists>row. runningJob p (fz_workerID f) (fz_others2 f (fz_others1 f s1)) = Inr row))
    \<and> (\<forall>U cs s''. mem_run U s' cs s'' \<and> (\<forall>c \<in> set cs. \<not> asks_for StateCompleted c) \<longrightarrow>
         r_artifacts s'' p = Some a \<and> (\<exists>row. r_jobs s'' p = Some row \<and> job_State row = StateCompleted)
       \<and> (\<forall>clk w b. fst (Complete clk p w b s'') \<noteq> Inr ())
       \<and> (\<forall>g c d cs b. fst (finalize g p c d cs s'') \<noteq> Inr (Some b)))"
proof -
  obtain job s1 children' where run: "ClaimFinalization (fz_claimClock f) p (fz_workerID f) s = (Inr (Some job), s1)"
    "Children (fz_order2 f) p (fz_others1 f s1) = Inr children'" "ValidateChildren children' start end = None"
    "assemble_parent f p job children' = Inr a"
    "Complete (fz_completeClock f) p (fz_workerID f) a (fz_others2 f (fz_others1 f s1)) = (Inr (), s')"
    using finalize_success [OF assms] by blast
  obtain assemble req where req: "fz_assemble f = Some assemble" "assemble_request f p job children' = Inr req" "assemble req"
    using assemble_parent_request [OF run(4)] by blast
  have "chained start end children'"
    using run(3) validate_children_iff [of 0 start "end" children'] by (auto simp: ValidateChildren_def split: if_splits)
  note cover = chained_coverage [OF this]
  note done_row = Complete_result [OF run(5)]
  then have "parent_closed p a s'" by (simp add: parent_closed_def)
  then have later: "parent_closed p a s''" if "mem_run U s' cs s'' \<and> (\<forall>c \<in> set cs. \<not> asks_for StateCompleted c)" for U cs s''
    using parent_stays_closed that by blast
  have closed: "r_artifacts s'' p = Some a \<and> (\<exists>row. r_jobs s'' p = Some row \<and> job_State row = StateCompleted)"
    if "parent_closed p a s''" for s'' using that by (simp add: parent_closed_def)
  have "\<exists>job s1 children' assemble req.
       ClaimFinalization (fz_claimClock f) p (fz_workerID f) s = (Inr (Some job), s1)
     \<and> Children (fz_order2 f) p (fz_others1 f s1) = Inr children'
     \<and> (\<forall>n. coverage children' n = (if start \<le> n \<and> n < end then 1 else 0))
     \<and> fz_assemble f = Some assemble \<and> assemble req
     \<and> map Some (as_Inputs req) = map (\<lambda>c. fz_localPath f (art_StorageKey (the (job_Artifact c)))) children'
     \<and> (\<exists>row. runningJob p (fz_workerID f) (fz_others2 f (fz_others1 f s1)) = Inr row)"
    using run(1,2) cover req assemble_request_inputs [OF req(2)] done_row by blast
  then show ?thesis using later closed parent_closed_refuses by blast
qed

text \<open>A parent with the two chunks, all of whose collaborators succeed.\<close>

definition family_repo :: Repository where
  "family_repo = (New 10 3)\<lparr>
     r_jobs := [''p'' \<mapsto> sample_job ''p'', ''c0'' \<mapsto> chunk_job ''c0'' 0 0 5, ''c1'' \<mapsto> chunk_job ''c1'' 1 5 9],
     r_artifacts := [''c0'' \<mapsto> chunk_artifact ''k0'', ''c1'' \<mapsto> chunk_artifact ''k1''],
     r_children := [''p'' \<mapsto> {''c0'', ''c1''}] \<rparr>"

definition sample_finalizer :: finalizer where
  "sample_finalizer = \<lparr> fz_workerID = ''w'', fz_outputDir = ''out'', fz_mkdirOK = True, fz_localPath = (\<lambda>k. Some k),
     fz_audio = (\<lambda>_. Some \<lparr> aa_sourceHash = [], aa_targetSampleRate = 0, aa_want = False \<rparr>),
     fz_assemble = Some (\<lambda>req. as_Inputs req = [''k0'', ''k1'']), fz_artifact = (\<lambda>_. Some (chunk_artifact ''parent'')),
     fz_putFile = (\<lambda>_. True), fz_publish = None, fz_cancelled = False, fz_claimClock = 1, fz_completeClock = 2,
     fz_order1 = [''c1'', ''c0''], fz_order2 = [''c1'', ''c0''], fz_others1 = (\<lambda>s. s), fz_others2 = (\<lambda>s. s) \<rparr>"

lemma sample_finalize:
  "\<exists>s'. finalize sample_finalizer ''p'' 0 9 sample_chunks family_repo = (Inr (Some (chunk_artifact ''parent'')), s')"
proof -
  have kids: "Children [''c1'', ''c0''] ''p'' (put_job ''p'' row family_repo) = Inr sample_chunks" for row
    by (simp add: Children_def jobsByParentLocked_def jobCopyWithArtifactLocked_def artifactCopyLocked_def put_job_def
        family_repo_def New_def sample_chunks_def chunk_job_def sample_job_def map_filter_simps)
  define row where "row = (sample_job ''p'')\<lparr> job_State := StateFinalizing, job_Worker := ''w'', job_LeaseUntil := 11 \<rparr>"
  have claim: "ClaimFinalization 1 ''p'' ''w'' family_repo = (Inr (Some row), put_job ''p'' row family_repo)"
    by (simp add: ClaimFinalization_def family_repo_def New_def row_def sample_job_def Let_def)
  have work: "assemble_parent sample_finalizer ''p'' row sample_chunks = Inr (chunk_artifact ''parent'')"
    by (simp add: assemble_parent_def assemble_request_def sample_finalizer_def sample_chunks_def chunk_job_def sample_job_def
        chunk_artifact_def Let_def)
  have "runningJob ''p'' ''w'' (put_job ''p'' row family_repo) = Inr row"
    by (simp add: runningJob_def put_job_def row_def)
  then obtain s' where "Complete 2 ''p'' ''w'' (chunk_artifact ''parent'') (put_job ''p'' row family_repo) = (Inr (), s')"
    by (simp add: Complete_def with_running_def)
  then show ?thesis
    using claim work kids by (simp add: finalize_def sample_chunks_accepted sample_finalizer_def Let_def)
qed

theorem parent_completes_once_with_its_whole_family_witness:
  "\<exists>s' s''. finalize sample_finalizer ''p'' 0 9 sample_chunks family_repo = (Inr (Some (chunk_artifact ''parent'')), s')
     \<and> mem_run (\<lambda>_. False) s' [CRetry 20 ''p'', CCancel ''p'', CClaim 20 [''p''] ''v'' None, CRequeueExpired 90 (\<lambda>_. 90) [''p'']] s''
     \<and> r_artifacts s'' ''p'' = Some (chunk_artifact ''parent'')
     \<and> fst (Complete 21 ''p'' ''late'' (chunk_artifact ''other'') s'') \<noteq> Inr ()"
proof -
  let ?cs = "[CRetry 20 ''p'', CCancel ''p'', CClaim 20 [''p''] ''v'' None, CRequeueExpired 90 (\<lambda>_. 90) [''p'']]"
  obtain s' where fin: "finalize sample_finalizer ''p'' 0 9 sample_chunks family_repo = (Inr (Some (chunk_artifact ''parent'')), s')"
    using sample_finalize by blast
  note once = parent_completes_once_with_its_whole_family [OF this, THEN conjunct2, rule_format]
  obtain s'' where run: "mem_run (\<lambda>_. False) s' ?cs s''" by (simp add: mem_run_exec)
  have "r_artifacts s'' ''p'' = Some (chunk_artifact ''parent'')
      \<and> fst (Complete 21 ''p'' ''late'' (chunk_artifact ''other'') s'') \<noteq> Inr ()"
    using once [OF conjI, OF run] by (simp add: asks_for_def)
  then show ?thesis using fin run by blast
qed

end
