(* ===== verification/Queue_Http.thy ===== *)
theory Queue_Http
  imports Queue_Service
begin

text \<open>
  The HTTP surface of the queue, \<open>queue/internal/server\<close>, and the client of the workers and
  producers, \<open>queue/client\<close>. A handler maps a decoded request and the service to a reply and a
  new service; \<open>Handler\<close> is the route table. A client call sends requests through a transport that
  may lose the request or the reply. Bodies are the decoded values (the JSON codec keeps them),
  with \<open>None\<close> for a body that does not decode.
\<close>

section \<open>Requests and replies\<close>

datatype body =
    NoContent
  | ErrorText
  | JobDoc Job
  | JobsDoc "Job list"
  | IdsDoc "string list"
  | IdDoc string
  | StatsDoc Stats
  | WorkersDoc "Worker list"
  | HealthDoc WorkerHealth
  | StatusOk

type_synonym reply = "nat \<times> body"

text \<open>
  What the process contributes to one request: the clock, the FIFO snapshot of a claim, the turns
  of a long poll (with the clock and snapshot of the wait's own first claim), the order in which a
  map is visited, the two attempts to read random bytes, and whether the client is gone.
\<close>

record req_env =
  en_clk :: gotime
  en_snapshot :: "string list"
  en_clk2 :: gotime
  en_snapshot2 :: "string list"
  en_turns :: "turn list"
  en_order :: "string list"
  en_rand :: "bytes option \<times> bytes option"
  en_gone :: bool

definition maxClaimWait :: duration where "maxClaimWait = 25 * second"

definition defaultJobWait :: duration where "defaultJobWait = maxClaimWait"
definition maxJobWait :: duration where "maxJobWait = maxClaimWait"

section \<open>Submission routes\<close>

definition validateSubmittedJob ::
  "(nat \<Rightarrow> bool) \<Rightarrow> (bytes \<Rightarrow> bool) \<Rightarrow> Job \<Rightarrow> (ingress_error, unit) result" where
  "validateSubmittedJob U jsonValid job =
     (case ValidateJobID U (job_ID job) of
        Inl e \<Rightarrow> Inl e
      | Inr _ \<Rightarrow>
          (case ValidateJobMetadata job of
             Inl e \<Rightarrow> Inl e
           | Inr _ \<Rightarrow> ValidateJobEnvelope jsonValid job))"

definition hex_nibble :: "nat \<Rightarrow> char" where
  "hex_nibble n = char_of (if n < 10 then 48 + n else 87 + n)"

definition hex_EncodeToString :: "bytes \<Rightarrow> string" where
  "hex_EncodeToString bs = concat (map (\<lambda>c. [hex_nibble (byte_of c div 16), hex_nibble (byte_of c mod 16)]) bs)"

definition newID :: "bytes option \<times> bytes option \<Rightarrow> string option" where
  "newID rnd =
     (case fst rnd of
        Some b \<Rightarrow> Some (''job-'' @ hex_EncodeToString b)
      | None \<Rightarrow>
          (case snd rnd of
             Some b \<Rightarrow> Some (''job-'' @ hex_EncodeToString b)
           | None \<Rightarrow> None))"

definition parseJobID :: "string \<Rightarrow> string \<Rightarrow> string \<Rightarrow> string" where
  "parseJobID parent lang i = (if parent \<noteq> [] \<and> lang \<noteq> [] then parent @ ''/'' @ lang else i)"

definition submit_status :: "service_error \<Rightarrow> nat" where
  "submit_status e = (case e of RepoError (ErrJobExists _) \<Rightarrow> 409 | _ \<Rightarrow> 500)"

definition h_submit ::
  "(nat \<Rightarrow> bool) \<Rightarrow> (bytes \<Rightarrow> bool) \<Rightarrow> req_env \<Rightarrow> Job option \<Rightarrow> Service \<Rightarrow> reply \<times> Service" where
  "h_submit U jsonValid en req sv =
     (case req of
        None \<Rightarrow> ((400, ErrorText), sv)
      | Some job0 \<Rightarrow>
          (case (if job_ID job0 = [] then newID (en_rand en) else Some (job_ID job0)) of
             None \<Rightarrow> ((500, ErrorText), sv)
           | Some i \<Rightarrow>
               (let job = job0\<lparr> job_ID := i \<rparr> in
                case validateSubmittedJob U jsonValid job of
                  Inl _ \<Rightarrow> ((400, ErrorText), sv)
                | Inr _ \<Rightarrow>
                    (case svc_SubmitIdempotent U (en_clk en) job sv of
                       (Inl e, sv') \<Rightarrow> ((submit_status e, ErrorText), sv')
                     | (Inr (canonical, created), sv') \<Rightarrow>
                         ((if \<not> created then 200 else 201, IdDoc (job_ID canonical)), sv')))))"

fun validate_submitted ::
  "(nat \<Rightarrow> bool) \<Rightarrow> (bytes \<Rightarrow> bool) \<Rightarrow> Job list \<Rightarrow> (ingress_error, unit) result" where
  "validate_submitted U jsonValid [] = Inr ()"
| "validate_submitted U jsonValid (job # jobs) =
     (case validateSubmittedJob U jsonValid job of
        Inl e \<Rightarrow> Inl e
      | Inr _ \<Rightarrow> validate_submitted U jsonValid jobs)"

definition h_submitBatch ::
  "(nat \<Rightarrow> bool) \<Rightarrow> (bytes \<Rightarrow> bool) \<Rightarrow> req_env \<Rightarrow> Job list option \<Rightarrow> Service \<Rightarrow> reply \<times> Service" where
  "h_submitBatch U jsonValid en req sv =
     (case req of
        None \<Rightarrow> ((400, ErrorText), sv)
      | Some jobs \<Rightarrow>
          (if length jobs = 0 then ((400, ErrorText), sv)
           else case validate_submitted U jsonValid jobs of
             Inl _ \<Rightarrow> ((400, ErrorText), sv)
           | Inr _ \<Rightarrow>
               (case svc_SubmitBatch U (en_clk en) jobs sv of
                  (Inl e, sv') \<Rightarrow> ((submit_status e, ErrorText), sv')
                | (Inr _, sv') \<Rightarrow> ((201, NoContent), sv'))))"

section \<open>Claim routes\<close>

fun state_name :: "State \<Rightarrow> string" where
  "state_name StatePending = ''pending''"
| "state_name StateRunning = ''running''"
| "state_name StateCompleted = ''completed''"
| "state_name StateFailed = ''failed''"
| "state_name StateRendered = ''rendered''"
| "state_name StateCancelled = ''cancelled''"
| "state_name StateFinalizing = ''finalizing''"

definition validClaimState :: "string \<Rightarrow> bool" where
  "validClaimState s \<longleftrightarrow> s = [] \<or> list_ex (\<lambda>known. state_name known = s) AllStates"

text \<open>The conversion \<open>model.State(req.State)\<close>; the empty string is no filter.\<close>

definition claim_filter :: "string \<Rightarrow> State option" where
  "claim_filter s = first_such (\<lambda>known. state_name known = s) AllStates"

text \<open>
  The code looks for fixed phrases in the message of the error. Over the in-memory repository a
  claim fails only with the two errors whose messages contain one of them, or with the error of
  the context.
\<close>

definition claimStateErrorIsBadRequest :: "service_error \<Rightarrow> bool" where
  "claimStateErrorIsBadRequest e \<longleftrightarrow> e = WorkerIDMissing \<or> e = NegativeWait"

definition checkClaimRequest :: "string \<Rightarrow> int \<Rightarrow> reply option" where
  "checkClaimRequest state waitMS =
     (if \<not> validClaimState state then Some (400, ErrorText)
      else if waitMS < 0 then Some (400, ErrorText)
      else None)"

definition writeClaimError :: "service_error \<Rightarrow> reply" where
  "writeClaimError e =
     (if claimStateErrorIsBadRequest e then (400, ErrorText)
      else if e = ContextDone then (204, NoContent)
      else (500, ErrorText))"

text \<open>
  The in-memory repository hands out a pointer to the row it stores, and this function sets the lease
  of the job through it when the lock is already released. Here a row is a value: the reply has the
  lease and the stored row keeps the one it had; no guard of the queue reads that field, but in the code a later read
  of the job shows it.
\<close>

definition writeClaimResult :: "(Job \<times> duration) option \<Rightarrow> reply" where
  "writeClaimResult r =
     (case r of None \<Rightarrow> (204, NoContent) | Some (job, lease) \<Rightarrow> (200, JobDoc (job\<lparr> job_Lease := lease \<rparr>)))"

text \<open>
  A claim request is the worker, the state filter and the wait in milliseconds; the conversion to
  a duration wraps around. A handler that is still waiting, or has nobody to answer, has no reply.
\<close>

type_synonym claim_request = "string \<times> string \<times> int"

definition h_claim :: "req_env \<Rightarrow> claim_request option \<Rightarrow> Service \<Rightarrow> reply option \<times> Service" where
  "h_claim en req sv =
     (case req of
        None \<Rightarrow> (Some (400, ErrorText), sv)
      | Some (worker, state, waitMS) \<Rightarrow>
          (case checkClaimRequest state waitMS of
             Some r \<Rightarrow> (Some r, sv)
           | None \<Rightarrow>
               (case svc_ClaimState (en_clk en) (en_snapshot en) worker (claim_filter state) sv of
                  (Inl e, sv') \<Rightarrow> (Some (writeClaimError e), sv')
                | (Inr (Some jl), sv') \<Rightarrow> (Some (writeClaimResult (Some jl)), sv')
                | (Inr None, sv') \<Rightarrow>
                    (if waitMS > 0 then
                       (let wait = min (wrap64 (waitMS * millisecond)) maxClaimWait in
                        case WaitAndClaim (en_clk2 en) (en_snapshot2 en) worker (claim_filter state) wait (en_turns en) sv' of
                          (None, sv2) \<Rightarrow> (None, sv2)
                        | (Some (Inl e), sv2) \<Rightarrow> (if en_gone en then None else Some (writeClaimError e), sv2)
                        | (Some (Inr r), sv2) \<Rightarrow> (Some (writeClaimResult r), sv2))
                     else (Some (writeClaimResult None), sv')))))"

definition h_claimWait :: "req_env \<Rightarrow> claim_request option \<Rightarrow> Service \<Rightarrow> reply option \<times> Service" where
  "h_claimWait en req sv =
     (case req of
        None \<Rightarrow> (Some (400, ErrorText), sv)
      | Some (worker, state, maxWaitMs) \<Rightarrow>
          (case checkClaimRequest state maxWaitMs of
             Some r \<Rightarrow> (Some r, sv)
           | None \<Rightarrow>
               (case WaitAndClaim (en_clk en) (en_snapshot en) worker (claim_filter state)
                       (wrap64 (maxWaitMs * millisecond)) (en_turns en) sv of
                  (None, sv') \<Rightarrow> (None, sv')
                | (Some (Inl e), sv') \<Rightarrow> (Some (writeClaimError e), sv')
                | (Some (Inr r), sv') \<Rightarrow> (Some (writeClaimResult r), sv'))))"

section \<open>Transition routes\<close>

definition requireWorker :: "string \<Rightarrow> reply option" where
  "requireWorker worker = (if worker = [] then Some (400, ErrorText) else None)"

text \<open>The answer to a transition whose failures all have one status.\<close>

definition answer_with :: "nat \<Rightarrow> (service_error, unit) result \<times> Service \<Rightarrow> reply \<times> Service" where
  "answer_with status r =
     (case r of (Inl e, sv) \<Rightarrow> ((status, ErrorText), sv) | (Inr _, sv) \<Rightarrow> ((204, NoContent), sv))"

definition writeTransitionError :: "service_error \<Rightarrow> nat \<Rightarrow> reply" where
  "writeTransitionError e fallback =
     (case e of RepoError (ErrNotFound _) \<Rightarrow> (404, ErrorText) | _ \<Rightarrow> (fallback, ErrorText))"

definition answer_transition :: "nat \<Rightarrow> (service_error, unit) result \<times> Service \<Rightarrow> reply \<times> Service" where
  "answer_transition fallback r =
     (case r of (Inl e, sv) \<Rightarrow> (writeTransitionError e fallback, sv) | (Inr _, sv) \<Rightarrow> ((204, NoContent), sv))"

text \<open>A decoded body names its worker; a malformed one or one without a worker is refused.\<close>

definition with_worker ::
  "(string \<times> 'a) option \<Rightarrow> (string \<Rightarrow> 'a \<Rightarrow> reply \<times> Service) \<Rightarrow> Service \<Rightarrow> reply \<times> Service" where
  "with_worker req f sv =
     (case req of
        None \<Rightarrow> ((400, ErrorText), sv)
      | Some (worker, x) \<Rightarrow> (case requireWorker worker of Some r \<Rightarrow> (r, sv) | None \<Rightarrow> f worker x))"

definition h_complete :: "req_env \<Rightarrow> string \<Rightarrow> (string \<times> Artifact) option \<Rightarrow> Service \<Rightarrow> reply \<times> Service" where
  "h_complete en i req sv =
     with_worker req (\<lambda>worker art. answer_with 409 (svc_Complete (en_clk en) i worker art sv)) sv"

definition h_fail :: "req_env \<Rightarrow> string \<Rightarrow> (string \<times> string) option \<Rightarrow> Service \<Rightarrow> reply \<times> Service" where
  "h_fail en i req sv =
     with_worker req (\<lambda>worker reason. answer_with 409 (svc_Fail (en_clk en) i worker reason sv)) sv"

definition h_failPermanently :: "string \<Rightarrow> (string \<times> string) option \<Rightarrow> Service \<Rightarrow> reply \<times> Service" where
  "h_failPermanently i req sv =
     (case req of
        None \<Rightarrow> ((400, ErrorText), sv)
      | Some (worker, reason) \<Rightarrow>
          (if worker = [] \<or> reason = [] then ((400, ErrorText), sv)
           else answer_with 409 (svc_FailPermanently i worker reason sv)))"

definition h_retry :: "req_env \<Rightarrow> string \<Rightarrow> Service \<Rightarrow> reply \<times> Service" where
  "h_retry en i sv = answer_transition 400 (svc_Retry (en_clk en) i sv)"

definition h_cancel :: "string \<Rightarrow> Service \<Rightarrow> reply \<times> Service" where
  "h_cancel i sv = answer_transition 409 (svc_Cancel i sv)"

definition h_rendered ::
  "req_env \<Rightarrow> string \<Rightarrow> (string \<times> string \<times> Artifact) option \<Rightarrow> Service \<Rightarrow> reply \<times> Service" where
  "h_rendered en i req sv =
     with_worker req (\<lambda>worker (reason, art). answer_with 409 (svc_Rendered (en_clk en) i worker art reason sv)) sv"

definition h_progress :: "req_env \<Rightarrow> string \<Rightarrow> (string \<times> Progress) option \<Rightarrow> Service \<Rightarrow> reply \<times> Service" where
  "h_progress en i req sv =
     with_worker req (\<lambda>worker p. answer_transition 409 (svc_SetProgress (en_clk en) i worker p sv)) sv"

definition h_renew :: "req_env \<Rightarrow> string \<Rightarrow> (string \<times> unit) option \<Rightarrow> Service \<Rightarrow> reply \<times> Service" where
  "h_renew en i req sv =
     with_worker req (\<lambda>worker _. answer_with 409 (svc_Renew (en_clk en) i worker sv)) sv"

definition h_claimFinalization :: "req_env \<Rightarrow> string \<Rightarrow> string option \<Rightarrow> Service \<Rightarrow> reply \<times> Service" where
  "h_claimFinalization en i req sv =
     (case req of
        None \<Rightarrow> ((400, ErrorText), sv)
      | Some worker \<Rightarrow>
          (case svc_ClaimFinalization (en_clk en) i worker sv of
             (Inl e, sv') \<Rightarrow> ((409, ErrorText), sv')
           | (Inr None, sv') \<Rightarrow> ((204, NoContent), sv')
           | (Inr (Some job), sv') \<Rightarrow> ((200, JobDoc job), sv')))"

section \<open>Read routes\<close>

definition read_status :: "repo_error \<Rightarrow> nat" where
  "read_status e = (case e of ErrNotFound _ \<Rightarrow> 404 | _ \<Rightarrow> 500)"

definition h_get :: "string \<Rightarrow> Service \<Rightarrow> reply" where
  "h_get i sv =
     (case Get i (sv_repo sv) of
        Inl e \<Rightarrow> (read_status e, ErrorText)
      | Inr job \<Rightarrow> (200, JobDoc job))"

definition h_listByParent :: "req_env \<Rightarrow> string \<Rightarrow> Service \<Rightarrow> reply" where
  "h_listByParent en query sv =
     (let parentJobID = TrimSpace query in
      if parentJobID = [] then (400, ErrorText)
      else case ByParent (en_order en) parentJobID (sv_repo sv) of
        Inl _ \<Rightarrow> (500, ErrorText)
      | Inr jobs \<Rightarrow> (200, JobsDoc jobs))"

definition h_recoverableParents :: "req_env \<Rightarrow> Service \<Rightarrow> reply" where
  "h_recoverableParents en sv = (200, IdsDoc (RecoverableParents (en_order en) (sv_repo sv)))"

definition h_children :: "req_env \<Rightarrow> string \<Rightarrow> Service \<Rightarrow> reply" where
  "h_children en i sv =
     (case Children (en_order en) i (sv_repo sv) of
        Inl _ \<Rightarrow> (500, ErrorText)
      | Inr jobs \<Rightarrow> (200, JobsDoc jobs))"

definition h_depth :: "req_env \<Rightarrow> Service \<Rightarrow> reply" where
  "h_depth en sv = (200, StatsDoc (Stats_of (en_clk en) (en_order en) (sv_repo sv)))"

definition h_health :: reply where "h_health = (200, StatusOk)"

text \<open>
  \<open>query\<close> is the parameter \<open>max_wait_ms\<close>: absent, or present with the outcome of \<open>strconv.ParseInt\<close>.
  The window only decides when the deadline of the long poll fires.
\<close>

definition job_wait_window :: "int option option \<Rightarrow> duration option" where
  "job_wait_window query =
     (case query of
        None \<Rightarrow> Some defaultJobWait
      | Some None \<Rightarrow> None
      | Some (Some ms) \<Rightarrow>
          (if ms < 0 then None
           else let w = wrap64 (ms * millisecond) in
             Some (if w \<le> 0 \<or> w > maxJobWait then maxJobWait else w)))"

definition h_waitJob :: "req_env \<Rightarrow> string \<Rightarrow> int option option \<Rightarrow> Service \<Rightarrow> reply option \<times> Service" where
  "h_waitJob en i query sv =
     (if i = [] then (Some (400, ErrorText), sv)
      else case job_wait_window query of
        None \<Rightarrow> (Some (400, ErrorText), sv)
      | Some _ \<Rightarrow>
          (case WaitState i (en_turns en) sv of
             (None, sv') \<Rightarrow> (None, sv')
           | (Some (Inr job), sv') \<Rightarrow> (Some (200, JobDoc job), sv')
           | (Some (Inl e), sv') \<Rightarrow>
               (case e of
                  RepoError (ErrNotFound _) \<Rightarrow> Some (404, ErrorText)
                | ContextDone \<Rightarrow> None
                | _ \<Rightarrow> Some (500, ErrorText), sv')))"

section \<open>Worker registry routes\<close>

definition with_registry ::
  "nat \<Rightarrow> (worker_error, unit) result \<times> registry \<Rightarrow> Service \<Rightarrow> reply \<times> Service" where
  "with_registry status r sv =
     (case r of
        (Inl _, ws) \<Rightarrow> ((status, ErrorText), sv\<lparr> sv_repo := (sv_repo sv)\<lparr> r_workers := ws \<rparr> \<rparr>)
      | (Inr _, ws) \<Rightarrow> ((204, NoContent), sv\<lparr> sv_repo := (sv_repo sv)\<lparr> r_workers := ws \<rparr> \<rparr>))"

definition h_registerWorker :: "req_env \<Rightarrow> Worker option \<Rightarrow> Service \<Rightarrow> reply \<times> Service" where
  "h_registerWorker en req sv =
     (case req of
        None \<Rightarrow> ((400, ErrorText), sv)
      | Some w \<Rightarrow> with_registry 400 (Register (en_clk en) w (r_workers (sv_repo sv))) sv)"

definition h_heartbeat :: "req_env \<Rightarrow> string option \<Rightarrow> Service \<Rightarrow> reply \<times> Service" where
  "h_heartbeat en req sv =
     (case req of
        None \<Rightarrow> ((400, ErrorText), sv)
      | Some w \<Rightarrow> with_registry 404 (Heartbeat (en_clk en) w (r_workers (sv_repo sv))) sv)"

definition h_listWorkers :: "duration \<Rightarrow> req_env \<Rightarrow> Service \<Rightarrow> reply" where
  "h_listWorkers staleAfter en sv =
     (200, WorkersDoc (ListWorkers staleAfter (en_clk en) (en_order en) (r_workers (sv_repo sv))))"

definition h_workerHealth :: "duration \<Rightarrow> req_env \<Rightarrow> Service \<Rightarrow> reply" where
  "h_workerHealth staleAfter en sv =
     (200, HealthDoc (WorkerHealth_of staleAfter (en_clk en) (en_order en) (r_workers (sv_repo sv))))"

section \<open>The route table\<close>

datatype http_method = GET | POST

datatype route =
    RSubmit | RSubmitBatch | RClaim | RClaimWait
  | RComplete string | RRendered string | RFail string | RFailPermanently string | RRetry string
  | RCancel string | RRenew string | RProgress string | RClaimFinalization string
  | RRecoverable | RChildren string | RWait string | RGet string | RListByParent | RDepth | RHealth
  | RRegisterWorker | RHeartbeat | RListWorkers | RWorkerHealth

definition job_action :: "string \<Rightarrow> string \<Rightarrow> route option" where
  "job_action i action =
     (if action = ''complete'' then Some (RComplete i)
      else if action = ''rendered'' then Some (RRendered i)
      else if action = ''fail'' then Some (RFail i)
      else if action = ''fail-permanent'' then Some (RFailPermanently i)
      else if action = ''retry'' then Some (RRetry i)
      else if action = ''cancel'' then Some (RCancel i)
      else if action = ''renew'' then Some (RRenew i)
      else if action = ''progress'' then Some (RProgress i)
      else None)"

text \<open>
  The patterns of \<open>Handler\<close> on the segments of the path. Where two patterns match, \<open>ServeMux\<close>
  prefers the one with the literal segment, so the tests for literals come first.
\<close>

definition post_route :: "string list \<Rightarrow> route option" where
  "post_route segs =
     (case segs of
        [a] \<Rightarrow> (if a = ''jobs'' then Some RSubmit else None)
      | [a, b] \<Rightarrow>
          (if a = ''jobs'' \<and> b = ''batch'' then Some RSubmitBatch
           else if a = ''jobs'' \<and> b = ''claim'' then Some RClaim
           else if a = ''workers'' \<and> b = ''register'' then Some RRegisterWorker
           else if a = ''workers'' \<and> b = ''heartbeat'' then Some RHeartbeat
           else None)
      | [a, b, c] \<Rightarrow>
          (if a \<noteq> ''jobs'' then None
           else if b = ''claim'' \<and> c = ''wait'' then Some RClaimWait
           else job_action (parseJobID [] [] b) c)
      | [a, b, c, d] \<Rightarrow>
          (if a \<noteq> ''jobs'' then None
           else if c = ''finalize'' \<and> d = ''claim'' then Some (RClaimFinalization (parseJobID [] [] b))
           else job_action (parseJobID b c []) d)
      | [a, b, c, d, e] \<Rightarrow>
          (if a = ''jobs'' \<and> d = ''finalize'' \<and> e = ''claim''
           then Some (RClaimFinalization (parseJobID b c [])) else None)
      | _ \<Rightarrow> None)"

definition get_route :: "string list \<Rightarrow> route option" where
  "get_route segs =
     (case segs of
        [a] \<Rightarrow>
          (if a = ''jobs'' then Some RListByParent
           else if a = ''health'' then Some RHealth
           else if a = ''workers'' then Some RListWorkers
           else None)
      | [a, b] \<Rightarrow>
          (if a = ''workers'' \<and> b = ''health'' then Some RWorkerHealth
           else if a \<noteq> ''jobs'' then None
           else if b = ''depth'' then Some RDepth
           else Some (RGet (parseJobID [] [] b)))
      | [a, b, c] \<Rightarrow>
          (if a \<noteq> ''jobs'' then None
           else if b = ''finalization'' \<and> c = ''recoverable'' then Some RRecoverable
           else if c = ''children'' then Some (RChildren (parseJobID [] [] b))
           else if c = ''wait'' then Some (RWait (parseJobID [] [] b))
           else Some (RGet (parseJobID b c [])))
      | [a, b, c, d] \<Rightarrow>
          (if a \<noteq> ''jobs'' then None
           else if d = ''children'' then Some (RChildren (parseJobID b c []))
           else if d = ''wait'' then Some (RWait (parseJobID b c []))
           else None)
      | _ \<Rightarrow> None)"

definition Handler :: "http_method \<Rightarrow> string list \<Rightarrow> route option" where
  "Handler m segs = (case m of GET \<Rightarrow> get_route segs | POST \<Rightarrow> post_route segs)"

text \<open>A request body, by the shape its handler decodes; any other shape does not decode.\<close>

datatype input =
    NoInput
  | JobIn Job
  | JobsIn "Job list"
  | ClaimIn string string int
  | WorkerIn string
  | CompleteIn string Artifact
  | ReasonIn string string
  | RenderedIn string string Artifact
  | ProgressIn string Progress
  | RegisterIn Worker

record request =
  rq_method :: http_method
  rq_path :: "string list"
  rq_parent :: string
  rq_wait :: "int option option"
  rq_input :: input

text \<open>A handler that answers at once.\<close>

definition at_once :: "reply \<times> Service \<Rightarrow> reply option \<times> Service" where
  "at_once r = (Some (fst r), snd r)"

text \<open>
  The constants of the process: Unicode's tables, \<open>json.Valid\<close> and the staleness window. A path no
  pattern matches is answered 404, or 405 when a pattern of another method matches.
\<close>

record process =
  ps_unicode :: "nat \<Rightarrow> bool"
  ps_jsonValid :: "bytes \<Rightarrow> bool"
  ps_staleAfter :: duration

definition serve :: "process \<Rightarrow> req_env \<Rightarrow> request \<Rightarrow> Service \<Rightarrow> reply option \<times> Service" where
  "serve ps en rq sv =
     (case Handler (rq_method rq) (rq_path rq) of
        None \<Rightarrow>
          (if Handler GET (rq_path rq) \<noteq> None \<or> Handler POST (rq_path rq) \<noteq> None
           then (Some (405, ErrorText), sv) else (Some (404, ErrorText), sv))
      | Some r \<Rightarrow>
        (let inp = rq_input rq in
         case r of
           RSubmit \<Rightarrow> at_once (h_submit (ps_unicode ps) (ps_jsonValid ps) en (case inp of JobIn j \<Rightarrow> Some j | _ \<Rightarrow> None) sv)
         | RSubmitBatch \<Rightarrow>
             at_once (h_submitBatch (ps_unicode ps) (ps_jsonValid ps) en (case inp of JobsIn js \<Rightarrow> Some js | _ \<Rightarrow> None) sv)
         | RClaim \<Rightarrow> h_claim en (case inp of ClaimIn w st ms \<Rightarrow> Some (w, st, ms) | _ \<Rightarrow> None) sv
         | RClaimWait \<Rightarrow> h_claimWait en (case inp of ClaimIn w st ms \<Rightarrow> Some (w, st, ms) | _ \<Rightarrow> None) sv
         | RComplete i \<Rightarrow> at_once (h_complete en i (case inp of CompleteIn w a \<Rightarrow> Some (w, a) | _ \<Rightarrow> None) sv)
         | RRendered i \<Rightarrow> at_once (h_rendered en i (case inp of RenderedIn w why a \<Rightarrow> Some (w, why, a) | _ \<Rightarrow> None) sv)
         | RFail i \<Rightarrow> at_once (h_fail en i (case inp of ReasonIn w why \<Rightarrow> Some (w, why) | _ \<Rightarrow> None) sv)
         | RFailPermanently i \<Rightarrow> at_once (h_failPermanently i (case inp of ReasonIn w why \<Rightarrow> Some (w, why) | _ \<Rightarrow> None) sv)
         | RRetry i \<Rightarrow> at_once (h_retry en i sv)
         | RCancel i \<Rightarrow> at_once (h_cancel i sv)
         | RRenew i \<Rightarrow> at_once (h_renew en i (case inp of WorkerIn w \<Rightarrow> Some (w, ()) | _ \<Rightarrow> None) sv)
         | RProgress i \<Rightarrow> at_once (h_progress en i (case inp of ProgressIn w p \<Rightarrow> Some (w, p) | _ \<Rightarrow> None) sv)
         | RClaimFinalization i \<Rightarrow> at_once (h_claimFinalization en i (case inp of WorkerIn w \<Rightarrow> Some w | _ \<Rightarrow> None) sv)
         | RRecoverable \<Rightarrow> at_once (h_recoverableParents en sv, sv)
         | RChildren i \<Rightarrow> at_once (h_children en i sv, sv)
         | RWait i \<Rightarrow> h_waitJob en i (rq_wait rq) sv
         | RGet i \<Rightarrow> at_once (h_get i sv, sv)
         | RListByParent \<Rightarrow> at_once (h_listByParent en (rq_parent rq) sv, sv)
         | RDepth \<Rightarrow> at_once (h_depth en sv, sv)
         | RHealth \<Rightarrow> at_once (h_health, sv)
         | RRegisterWorker \<Rightarrow> at_once (h_registerWorker en (case inp of RegisterIn w \<Rightarrow> Some w | _ \<Rightarrow> None) sv)
         | RHeartbeat \<Rightarrow> at_once (h_heartbeat en (case inp of WorkerIn w \<Rightarrow> Some w | _ \<Rightarrow> None) sv)
         | RListWorkers \<Rightarrow> at_once (h_listWorkers (ps_staleAfter ps) en sv, sv)
         | RWorkerHealth \<Rightarrow> at_once (h_workerHealth (ps_staleAfter ps) en sv, sv)))"

end
