(* ===== verification/Queue_Client.thy ===== *)
theory Queue_Client
  imports Queue_Http
begin

text \<open>
  The client of the queue, \<open>queue/client\<close>: how each call builds its request and reads the reply,
  and the producer's two ways of waiting for a job (\<open>wait.go\<close>). A transport maps a request and the
  state of the world to a reply, or to nothing when the request failed below HTTP, and the new
  state; \<open>net\<close> is the transport to the server of the development, with lost requests and replies.
\<close>

section \<open>Transports\<close>

type_synonym 's transport = "request \<Rightarrow> 's \<Rightarrow> reply option \<times> 's"

datatype fault = Delivered | RequestLost | ReplyLost

definition net :: "process \<Rightarrow> req_env \<Rightarrow> fault \<Rightarrow> Service transport" where
  "net ps en f rq sv =
     (case f of
        Delivered \<Rightarrow> serve ps en rq sv
      | RequestLost \<Rightarrow> (None, sv)
      | ReplyLost \<Rightarrow> (None, snd (serve ps en rq sv)))"

datatype client_error =
    EnvelopeRefused ingress_error
  | JobsRequired
  | ClientErrJobExists
  | ClientErrNotFound
  | ErrLeaseConflict
  | HttpStatus nat
  | StatusUnavailable nat
  | NetworkError
  | WaitRouteUnsupported
  | ClientContextDone

definition post_req :: "string list \<Rightarrow> input \<Rightarrow> request" where
  "post_req path inp = \<lparr> rq_method = POST, rq_path = path, rq_parent = [], rq_wait = None, rq_input = inp \<rparr>"

definition get_req :: "string list \<Rightarrow> request" where
  "get_req path = \<lparr> rq_method = GET, rq_path = path, rq_parent = [], rq_wait = None, rq_input = NoInput \<rparr>"

section \<open>Producer calls\<close>

text \<open>The status switch shared by the two submissions; \<open>None\<close> is success.\<close>

definition submit_outcome :: "reply option \<Rightarrow> client_error option" where
  "submit_outcome r =
     (case r of
        None \<Rightarrow> Some NetworkError
      | Some (status, _) \<Rightarrow>
          (if status = 201 \<or> status = 200 then None
           else if status = 409 then Some ClientErrJobExists
           else Some (HttpStatus status)))"

definition qc_Submit :: "(bytes \<Rightarrow> bool) \<Rightarrow> 's transport \<Rightarrow> Job \<Rightarrow> 's \<Rightarrow> client_error option \<times> 's" where
  "qc_Submit jsonValid tr job s =
     (case ValidateJobEnvelope jsonValid job of
        Inl e \<Rightarrow> (Some (EnvelopeRefused e), s)
      | Inr _ \<Rightarrow> (case tr (post_req [''jobs''] (JobIn job)) s of (r, s') \<Rightarrow> (submit_outcome r, s')))"

fun validate_envelopes :: "(bytes \<Rightarrow> bool) \<Rightarrow> Job list \<Rightarrow> (ingress_error, unit) result" where
  "validate_envelopes jsonValid [] = Inr ()"
| "validate_envelopes jsonValid (job # jobs) =
     (case ValidateJobEnvelope jsonValid job of
        Inl e \<Rightarrow> Inl e
      | Inr _ \<Rightarrow> validate_envelopes jsonValid jobs)"

definition qc_SubmitBatch ::
  "(bytes \<Rightarrow> bool) \<Rightarrow> 's transport \<Rightarrow> Job list \<Rightarrow> 's \<Rightarrow> client_error option \<times> 's" where
  "qc_SubmitBatch jsonValid tr jobs s =
     (if length jobs = 0 then (Some JobsRequired, s)
      else case validate_envelopes jsonValid jobs of
        Inl e \<Rightarrow> (Some (EnvelopeRefused e), s)
      | Inr _ \<Rightarrow> (case tr (post_req [''jobs'', ''batch''] (JobsIn jobs)) s of (r, s') \<Rightarrow> (submit_outcome r, s')))"

definition qc_Cancel :: "'s transport \<Rightarrow> string \<Rightarrow> 's \<Rightarrow> client_error option \<times> 's" where
  "qc_Cancel tr i s =
     (case tr (post_req [''jobs'', i, ''cancel''] NoInput) s of
        (None, s') \<Rightarrow> (Some NetworkError, s')
      | (Some (status, _), s') \<Rightarrow>
          (if status = 204 then None else if status = 404 then Some ClientErrNotFound else Some (HttpStatus status), s'))"

text \<open>
  A document of another shape decodes to the zero value of the type; \<open>None\<close> stands for the zero
  job, which is in no state of the vocabulary.
\<close>

definition job_of :: "body \<Rightarrow> Job option" where
  "job_of b = (case b of JobDoc job \<Rightarrow> Some job | _ \<Rightarrow> None)"

definition getJSON :: "'s transport \<Rightarrow> string list \<Rightarrow> 's \<Rightarrow> (client_error, body) result \<times> 's" where
  "getJSON tr path s =
     (case tr (get_req path) s of
        (None, s') \<Rightarrow> (Inl NetworkError, s')
      | (Some (status, b), s') \<Rightarrow> (if status \<noteq> 200 then Inl (HttpStatus status) else Inr b, s'))"

definition qc_RecoverableParents :: "'s transport \<Rightarrow> 's \<Rightarrow> (client_error, body) result \<times> 's" where
  "qc_RecoverableParents tr s = getJSON tr [''jobs'', ''finalization'', ''recoverable''] s"

definition qc_Children :: "'s transport \<Rightarrow> string \<Rightarrow> 's \<Rightarrow> (client_error, body) result \<times> 's" where
  "qc_Children tr parentID s = getJSON tr [''jobs'', parentID, ''children''] s"

definition qc_Depth :: "'s transport \<Rightarrow> 's \<Rightarrow> (client_error, body) result \<times> 's" where
  "qc_Depth tr s = getJSON tr [''jobs'', ''depth''] s"

definition qc_Get :: "'s transport \<Rightarrow> string \<Rightarrow> 's \<Rightarrow> (client_error, Job option) result \<times> 's" where
  "qc_Get tr i s =
     (case tr (get_req [''jobs'', i]) s of
        (None, s') \<Rightarrow> (Inl NetworkError, s')
      | (Some (status, b), s') \<Rightarrow>
          (if status = 404 then Inl ClientErrNotFound
           else if status \<noteq> 200 then
             Inl (if status \<ge> 500 then StatusUnavailable status else HttpStatus status)
           else Inr (job_of b), s'))"

definition qc_Health :: "'s transport \<Rightarrow> 's \<Rightarrow> client_error option \<times> 's" where
  "qc_Health tr s =
     (case tr (get_req [''health'']) s of
        (None, s') \<Rightarrow> (Some NetworkError, s')
      | (Some (status, _), s') \<Rightarrow> (if status \<noteq> 200 then Some (HttpStatus status) else None, s'))"

section \<open>Worker calls\<close>

definition claim_outcome :: "reply option \<Rightarrow> (client_error, Job option) result" where
  "claim_outcome r =
     (case r of
        None \<Rightarrow> Inl NetworkError
      | Some (status, b) \<Rightarrow>
          (if status = 204 then Inr None
           else if status \<noteq> 200 then Inl (HttpStatus status)
           else Inr (job_of b)))"

definition qc_ClaimFinalization ::
  "'s transport \<Rightarrow> string \<Rightarrow> string \<Rightarrow> 's \<Rightarrow> (client_error, Job option) result \<times> 's" where
  "qc_ClaimFinalization tr parentID workerID s =
     (case tr (post_req [''jobs'', parentID, ''finalize'', ''claim''] (WorkerIn workerID)) s of
        (r, s') \<Rightarrow> (claim_outcome r, s'))"

text \<open>\<open>Duration.Milliseconds\<close> truncates towards zero.\<close>

definition Milliseconds :: "duration \<Rightarrow> int" where
  "Milliseconds d = (if d < 0 then - ((- d) div millisecond) else d div millisecond)"

definition qc_claimWait ::
  "'s transport \<Rightarrow> string \<Rightarrow> string \<Rightarrow> duration \<Rightarrow> 's \<Rightarrow> (client_error, Job option) result \<times> 's" where
  "qc_claimWait tr workerID state maxWait s =
     (let w = (if maxWait \<le> 0 then 25 * second else maxWait) in
      case tr (post_req [''jobs'', ''claim'', ''wait''] (ClaimIn workerID state (Milliseconds w))) s of
        (r, s') \<Rightarrow> (claim_outcome r, s'))"

definition qc_ClaimWait ::
  "'s transport \<Rightarrow> string \<Rightarrow> duration \<Rightarrow> 's \<Rightarrow> (client_error, Job option) result \<times> 's" where
  "qc_ClaimWait tr workerID maxWait s = qc_claimWait tr workerID [] maxWait s"

definition qc_claim ::
  "'s transport \<Rightarrow> string \<Rightarrow> string \<Rightarrow> duration \<Rightarrow> 's \<Rightarrow> (client_error, Job option) result \<times> 's" where
  "qc_claim tr workerID state wait s =
     (let waitMS = (if Milliseconds wait < 0 then 0 else Milliseconds wait) in
      case tr (post_req [''jobs'', ''claim''] (ClaimIn workerID state waitMS)) s of
        (r, s') \<Rightarrow> (claim_outcome r, s'))"

definition qc_Claim :: "'s transport \<Rightarrow> string \<Rightarrow> 's \<Rightarrow> (client_error, Job option) result \<times> 's" where
  "qc_Claim tr workerID s = qc_claim tr workerID [] 0 s"

definition report ::
  "'s transport \<Rightarrow> string \<Rightarrow> string \<Rightarrow> input \<Rightarrow> 's \<Rightarrow> client_error option \<times> 's" where
  "report tr i action payload s =
     (case tr (post_req [''jobs'', i, action] payload) s of
        (None, s') \<Rightarrow> (Some NetworkError, s')
      | (Some (status, _), s') \<Rightarrow>
          (if status \<noteq> 200 \<and> status \<noteq> 204 then
             Some (if status = 409 then ErrLeaseConflict else HttpStatus status)
           else None, s'))"

definition qc_Complete :: "'s transport \<Rightarrow> string \<Rightarrow> string \<Rightarrow> Artifact \<Rightarrow> 's \<Rightarrow> client_error option \<times> 's" where
  "qc_Complete tr i workerID artifact s = report tr i ''complete'' (CompleteIn workerID artifact) s"

definition qc_Fail :: "'s transport \<Rightarrow> string \<Rightarrow> string \<Rightarrow> string \<Rightarrow> 's \<Rightarrow> client_error option \<times> 's" where
  "qc_Fail tr i workerID reason s = report tr i ''fail'' (ReasonIn workerID reason) s"

definition qc_FailPermanently :: "'s transport \<Rightarrow> string \<Rightarrow> string \<Rightarrow> string \<Rightarrow> 's \<Rightarrow> client_error option \<times> 's" where
  "qc_FailPermanently tr i workerID reason s = report tr i ''fail-permanent'' (ReasonIn workerID reason) s"

definition qc_Rendered ::
  "'s transport \<Rightarrow> string \<Rightarrow> string \<Rightarrow> string \<Rightarrow> Artifact \<Rightarrow> 's \<Rightarrow> client_error option \<times> 's" where
  "qc_Rendered tr i workerID reason artifact s =
     report tr i ''rendered'' (RenderedIn workerID reason artifact) s"

definition qc_Renew :: "'s transport \<Rightarrow> string \<Rightarrow> string \<Rightarrow> 's \<Rightarrow> client_error option \<times> 's" where
  "qc_Renew tr i workerID s = report tr i ''renew'' (WorkerIn workerID) s"

definition qc_ReportProgress :: "'s transport \<Rightarrow> string \<Rightarrow> string \<Rightarrow> Progress \<Rightarrow> 's \<Rightarrow> client_error option \<times> 's" where
  "qc_ReportProgress tr i workerID p s = report tr i ''progress'' (ProgressIn workerID p) s"

text \<open>Calls for which every status of the 200 class is a success.\<close>

definition any_2xx :: "reply option \<Rightarrow> client_error option" where
  "any_2xx r =
     (case r of
        None \<Rightarrow> Some NetworkError
      | Some (status, _) \<Rightarrow> (if status < 200 \<or> status \<ge> 300 then Some (HttpStatus status) else None))"

definition qc_RegisterWorker :: "'s transport \<Rightarrow> Worker \<Rightarrow> 's \<Rightarrow> client_error option \<times> 's" where
  "qc_RegisterWorker tr w s =
     (case tr (post_req [''workers'', ''register''] (RegisterIn w)) s of (r, s') \<Rightarrow> (any_2xx r, s'))"

definition qc_HeartbeatWorker :: "'s transport \<Rightarrow> string \<Rightarrow> 's \<Rightarrow> client_error option \<times> 's" where
  "qc_HeartbeatWorker tr workerID s =
     (case tr (post_req [''workers'', ''heartbeat''] (WorkerIn workerID)) s of (r, s') \<Rightarrow> (any_2xx r, s'))"

definition qc_Retry :: "'s transport \<Rightarrow> string \<Rightarrow> 's \<Rightarrow> client_error option \<times> 's" where
  "qc_Retry tr i s =
     (case tr (post_req [''jobs'', i, ''retry''] NoInput) s of (r, s') \<Rightarrow> (any_2xx r, s'))"

definition qc_ListWorkers :: "'s transport \<Rightarrow> 's \<Rightarrow> (client_error, body) result \<times> 's" where
  "qc_ListWorkers tr s = getJSON tr [''workers''] s"

definition qc_WorkerHealth :: "'s transport \<Rightarrow> 's \<Rightarrow> (client_error, body) result \<times> 's" where
  "qc_WorkerHealth tr s = getJSON tr [''workers'', ''health''] s"

section \<open>Waiting for a job\<close>

definition waitRoundWindow :: duration where "waitRoundWindow = 20 * second"
definition waitFallbackInterval :: duration where "waitFallbackInterval = 250 * millisecond"
definition maxConsecutiveStatusFailures :: nat where "maxConsecutiveStatusFailures = 3"

text \<open>
  One round of a waiting loop: whether the context has ended when the round starts and when it
  pauses, and the transports of its requests.
\<close>

record 's round =
  rd_ended :: bool
  rd_wait :: "'s transport"
  rd_get :: "'s transport"
  rd_ends :: bool

definition next_backoff :: "duration \<Rightarrow> duration" where
  "next_backoff b = (if b < second then (if b * 2 > second then second else b * 2) else b)"

definition wait_interval :: "duration \<Rightarrow> duration" where
  "wait_interval interval =
     (let a = (if interval \<le> 0 then 100 * millisecond else interval) in if a > second then second else a)"

text \<open>
  The polling loop; it returns its answer, or nothing when the rounds are used up, with the
  delay it has reached.
\<close>

fun wait_loop ::
  "string \<Rightarrow> duration \<Rightarrow> nat \<Rightarrow> 's round list \<Rightarrow> 's \<Rightarrow> (client_error, Job) result option \<times> duration \<times> 's" where
  "wait_loop i backoff failures [] s = (None, backoff, s)"
| "wait_loop i backoff failures (r # rs) s =
     (case qc_Get (rd_get r) i s of (res, s') \<Rightarrow>
      (let pause = (\<lambda>n. if rd_ends r then (Some (Inl ClientContextDone), backoff, s')
                        else wait_loop i (next_backoff backoff) n rs s')
       in case res of
            Inr (Some job) \<Rightarrow>
              (if IsTerminalState (job_State job) then (Some (Inr job), backoff, s') else pause 0)
          | Inr None \<Rightarrow> pause 0
          | Inl (StatusUnavailable st) \<Rightarrow>
              (if Suc failures \<ge> maxConsecutiveStatusFailures then (Some (Inl (StatusUnavailable st)), backoff, s')
               else pause (Suc failures))
          | Inl ClientErrNotFound \<Rightarrow> pause 0
          | Inl e \<Rightarrow> (Some (Inl e), backoff, s')))"

definition qc_Wait ::
  "string \<Rightarrow> duration \<Rightarrow> 's round list \<Rightarrow> 's \<Rightarrow> (client_error, Job) result option \<times> 's" where
  "qc_Wait i interval rs s =
     (case wait_loop i (wait_interval interval) 0 rs s of (res, _, s') \<Rightarrow> (res, s'))"

definition wait_request :: "string \<Rightarrow> request" where
  "wait_request i = (get_req [''jobs'', i, ''wait''])\<lparr> rq_wait := Some (Some (Milliseconds waitRoundWindow)) \<rparr>"

definition waitRound ::
  "'s transport \<Rightarrow> 's transport \<Rightarrow> string \<Rightarrow> 's \<Rightarrow> (client_error, Job option) result \<times> 's" where
  "waitRound trw trg i s =
     (case trw (wait_request i) s of
        (None, s') \<Rightarrow> (Inl NetworkError, s')
      | (Some (status, b), s') \<Rightarrow>
          (if status = 404 then
             (case qc_Get trg i s' of
                (Inl e, s'') \<Rightarrow> (Inl e, s'')
              | (Inr _, s'') \<Rightarrow> (Inl WaitRouteUnsupported, s''))
           else if status \<noteq> 200 then (Inl (HttpStatus status), s')
           else (Inr (job_of b), s')))"

fun WaitTerminal :: "string \<Rightarrow> 's round list \<Rightarrow> 's \<Rightarrow> (client_error, Job) result option \<times> 's" where
  "WaitTerminal i [] s = (None, s)"
| "WaitTerminal i (r # rs) s =
     (if rd_ended r then (Some (Inl ClientContextDone), s)
      else case waitRound (rd_wait r) (rd_get r) i s of
        (Inl WaitRouteUnsupported, s') \<Rightarrow> qc_Wait i waitFallbackInterval rs s'
      | (Inl e, s') \<Rightarrow>
          (if rd_ends r then (Some (Inl ClientContextDone), s')
           else if e = ClientErrNotFound then (Some (Inl e), s')
           else qc_Wait i waitFallbackInterval rs s')
      | (Inr (Some job), s') \<Rightarrow>
          (if IsTerminalState (job_State job) then (Some (Inr job), s') else WaitTerminal i rs s')
      | (Inr None, s') \<Rightarrow> WaitTerminal i rs s')"

section \<open>Routing\<close>

lemma routes [simp]:
  "Handler POST [''jobs''] = Some RSubmit"
  "Handler POST [''jobs'', ''batch''] = Some RSubmitBatch"
  "Handler POST [''jobs'', ''claim''] = Some RClaim"
  "Handler POST [''jobs'', ''claim'', ''wait''] = Some RClaimWait"
  "Handler POST [''jobs'', i, ''complete''] = Some (RComplete i)"
  "Handler POST [''jobs'', i, ''fail''] = Some (RFail i)"
  "Handler POST [''jobs'', i, ''fail-permanent''] = Some (RFailPermanently i)"
  "Handler POST [''jobs'', i, ''rendered''] = Some (RRendered i)"
  "Handler POST [''jobs'', i, ''renew''] = Some (RRenew i)"
  "Handler POST [''jobs'', i, ''progress''] = Some (RProgress i)"
  "Handler POST [''jobs'', i, ''cancel''] = Some (RCancel i)"
  "i \<noteq> ''depth'' \<Longrightarrow> Handler GET [''jobs'', i] = Some (RGet i)"
  "Handler GET [''jobs'', ''depth''] = Some RDepth"
  "Handler GET [''jobs'', i, ''wait''] = Some (RWait i)"
  by (simp_all add: Handler_def post_route_def get_route_def job_action_def parseJobID_def)

lemma request_sel [simp]:
  "rq_method (post_req p x) = POST" "rq_path (post_req p x) = p" "rq_input (post_req p x) = x"
  "rq_method (get_req p) = GET" "rq_path (get_req p) = p" "rq_wait (get_req p) = None"
  "rq_method (wait_request i) = GET" "rq_path (wait_request i) = [''jobs'', i, ''wait'']"
  "rq_wait (wait_request i) = Some (Some (Milliseconds waitRoundWindow))"
  by (simp_all add: post_req_def get_req_def wait_request_def)

lemma at_once_sel [simp]: "at_once (r, sv) = (Some r, sv)"
  by (simp add: at_once_def)

lemma net_simps [simp]:
  "net ps en Delivered rq sv = serve ps en rq sv"
  "net ps en RequestLost rq sv = (None, sv)"
  "net ps en ReplyLost rq sv = (None, snd (serve ps en rq sv))"
  by (simp_all add: net_def)

section \<open>Reports\<close>

text \<open>The six reports of a worker, as the client sends them and as the service carries them out.\<close>

datatype worker_report =
    RepComplete Artifact
  | RepFail string
  | RepFailPermanently string
  | RepRendered string Artifact
  | RepRenew
  | RepProgress Progress

fun send_report :: "'s transport \<Rightarrow> string \<Rightarrow> string \<Rightarrow> worker_report \<Rightarrow> 's \<Rightarrow> client_error option \<times> 's" where
  "send_report tr i w (RepComplete a) s = qc_Complete tr i w a s"
| "send_report tr i w (RepFail reason) s = qc_Fail tr i w reason s"
| "send_report tr i w (RepFailPermanently reason) s = qc_FailPermanently tr i w reason s"
| "send_report tr i w (RepRendered reason a) s = qc_Rendered tr i w reason a s"
| "send_report tr i w RepRenew s = qc_Renew tr i w s"
| "send_report tr i w (RepProgress p) s = qc_ReportProgress tr i w p s"

fun svc_report :: "gotime \<Rightarrow> string \<Rightarrow> string \<Rightarrow> worker_report \<Rightarrow> Service \<Rightarrow> (service_error, unit) result \<times> Service" where
  "svc_report clk i w (RepComplete a) sv = svc_Complete clk i w a sv"
| "svc_report clk i w (RepFail reason) sv = svc_Fail clk i w reason sv"
| "svc_report clk i w (RepFailPermanently reason) sv = svc_FailPermanently i w reason sv"
| "svc_report clk i w (RepRendered reason a) sv = svc_Rendered clk i w a reason sv"
| "svc_report clk i w RepRenew sv = svc_Renew clk i w sv"
| "svc_report clk i w (RepProgress p) sv = svc_SetProgress clk i w p sv"

text \<open>The artifact gate of a report, and the reason a permanent failure must have.\<close>

fun report_ok :: "worker_report \<Rightarrow> bool" where
  "report_ok (RepComplete a) = (validateArtifact a = Inr ())"
| "report_ok (RepRendered reason a) = (validateArtifact a = Inr ())"
| "report_ok _ = True"

definition admissible :: "string \<Rightarrow> worker_report \<Rightarrow> bool" where
  "admissible w rep \<longleftrightarrow> w \<noteq> [] \<and> rep \<noteq> RepFailPermanently []"

lemma with_running_held: "holds i w s \<Longrightarrow> \<exists>s'. with_running i w f s = (Inr (), s')"
  by (auto simp: with_running_def holds_def runningJob_def)

lemma with_running_unheld_error:
  "\<not> holds i w s \<Longrightarrow> \<exists>e. with_running i w f s = (Inl e, s) \<and> (\<forall>k. e \<noteq> ErrNotFound k)"
  by (auto simp: with_running_def holds_def runningJob_def split: option.splits)

text \<open>Past the gate, every report is a transition of the running row.\<close>

lemma svc_report_shape:
  assumes "report_ok rep"
  shows "\<exists>f g. svc_report clk i w rep sv =
    (case with_running i w f (sv_repo sv) of
       (Inl e, r) \<Rightarrow> (Inl (RepoError e), sv\<lparr> sv_repo := r \<rparr>) | (Inr _, r) \<Rightarrow> (Inr (), g r))"
proof (cases rep)
  case (RepComplete a)
  with assms show ?thesis by (simp add: svc_Complete_def Complete_def) (rule exI refl)+
next
  case (RepFail reason)
  then show ?thesis by (simp add: svc_Fail_def transition_and_notify_def Fail_def) (rule exI refl)+
next
  case (RepFailPermanently reason)
  then show ?thesis by (simp add: svc_FailPermanently_def transition_and_notify_def FailPermanently_def) (rule exI refl)+
next
  case (RepRendered reason a)
  with assms show ?thesis by (simp add: svc_Rendered_def transition_and_notify_def Rendered_def) (rule exI refl)+
next
  case RepRenew
  then show ?thesis by (simp add: svc_Renew_def Renew_def) (rule exI refl)+
next
  case (RepProgress p)
  then show ?thesis by (simp add: svc_SetProgress_def SetProgress_def) (rule exI refl)+
qed

lemma svc_report_accepted:
  assumes "holds i w (sv_repo sv)" and "report_ok rep"
  shows "\<exists>sv'. svc_report clk i w rep sv = (Inr (), sv')"
proof -
  obtain f g where "svc_report clk i w rep sv =
    (case with_running i w f (sv_repo sv) of
       (Inl e, r) \<Rightarrow> (Inl (RepoError e), sv\<lparr> sv_repo := r \<rparr>) | (Inr _, r) \<Rightarrow> (Inr (), g r))"
    using svc_report_shape [OF assms(2)] by blast
  moreover obtain s' where "with_running i w f (sv_repo sv) = (Inr (), s')"
    using with_running_held [OF assms(1)] by blast
  ultimately show ?thesis by simp
qed

lemma svc_report_refused:
  assumes "\<not> (holds i w (sv_repo sv) \<and> report_ok rep)"
  shows "\<exists>e. svc_report clk i w rep sv = (Inl e, sv) \<and> (\<forall>k. e \<noteq> RepoError (ErrNotFound k))"
proof (cases "report_ok rep")
  case True
  then obtain f g where "svc_report clk i w rep sv =
    (case with_running i w f (sv_repo sv) of
       (Inl e, r) \<Rightarrow> (Inl (RepoError e), sv\<lparr> sv_repo := r \<rparr>) | (Inr _, r) \<Rightarrow> (Inr (), g r))"
    using svc_report_shape by blast
  moreover obtain e where "with_running i w f (sv_repo sv) = (Inl e, sv_repo sv)" "\<forall>k. e \<noteq> ErrNotFound k"
    using with_running_unheld_error [of i w "sv_repo sv" f] assms True by blast
  ultimately show ?thesis by simp
next
  case False
  then show ?thesis
    by (cases rep) (auto simp: svc_Complete_def svc_Rendered_def split: sum.splits)
qed

text \<open>The client reads the verdict of the service from the status.\<close>

lemma send_report_delivered:
  assumes "admissible w rep"
  shows "send_report (net ps en Delivered) i w rep sv =
    (case svc_report (en_clk en) i w rep sv of
       (Inl e, sv') \<Rightarrow> (Some (case (rep, e) of (RepProgress _, RepoError (ErrNotFound _)) \<Rightarrow> HttpStatus 404 | _ \<Rightarrow> ErrLeaseConflict), sv')
     | (Inr _, sv') \<Rightarrow> (None, sv'))"
  using assms
  by (cases rep)
    (auto simp: admissible_def qc_Complete_def qc_Fail_def qc_FailPermanently_def qc_Rendered_def qc_Renew_def
      qc_ReportProgress_def report_def serve_def Let_def h_complete_def h_fail_def h_failPermanently_def
      h_rendered_def h_renew_def h_progress_def with_worker_def requireWorker_def answer_with_def
      answer_transition_def writeTransitionError_def split: prod.splits sum.splits service_error.splits repo_error.splits)


text \<open>What becomes of a report over the network, by the fate of the request.\<close>

lemma send_report_outcome:
  assumes "admissible w rep" and "send_report (net ps en f) i w rep sv = (res, sv')"
  defines "accepted \<equiv> holds i w (sv_repo sv) \<and> report_ok rep"
  shows "res = (if f = Delivered then if accepted then None else Some ErrLeaseConflict else Some NetworkError)"
    and "sv' = (if accepted \<and> f \<noteq> RequestLost then snd (svc_report (en_clk en) i w rep sv) else sv)"
proof -
  have deliver: "send_report (net ps en Delivered) i w rep sv =
      (if accepted then None else Some ErrLeaseConflict,
       if accepted then snd (svc_report (en_clk en) i w rep sv) else sv)"
  proof (cases accepted)
    case True
    then obtain sv1 where "svc_report (en_clk en) i w rep sv = (Inr (), sv1)"
      using svc_report_accepted unfolding accepted_def by blast
    with True show ?thesis by (simp add: send_report_delivered [OF assms(1)])
  next
    case False
    then obtain e where "svc_report (en_clk en) i w rep sv = (Inl e, sv)" "\<forall>k. e \<noteq> RepoError (ErrNotFound k)"
      using svc_report_refused [of i w sv rep "en_clk en"] unfolding accepted_def by blast
    with False show ?thesis
      by (auto simp: send_report_delivered [OF assms(1)] split: worker_report.splits service_error.splits repo_error.splits)
  qed
  have lost: "send_report (net ps en RequestLost) i w rep sv = (Some NetworkError, sv)"
    "send_report (net ps en ReplyLost) i w rep sv = (Some NetworkError, snd (send_report (net ps en Delivered) i w rep sv))"
    by (cases rep; simp add: qc_Complete_def qc_Fail_def qc_FailPermanently_def qc_Rendered_def qc_Renew_def
        qc_ReportProgress_def report_def split: prod.splits option.splits)+
  show "res = (if f = Delivered then if accepted then None else Some ErrLeaseConflict else Some NetworkError)"
    and "sv' = (if accepted \<and> f \<noteq> RequestLost then snd (svc_report (en_clk en) i w rep sv) else sv)"
    using assms(2) deliver lost by (cases f; simp split: if_splits)+
qed

text \<open>
  C26. The reports of a worker over HTTP are truthful: the client sees success exactly when the report
  was delivered and answered, the worker held the job and the report passed the artifact gate; it
  sees a lease conflict exactly when a delivered report was refused; the queue carries out an
  accepted report once, also when only the reply is lost, and a refused or lost one changes nothing.
\<close>

theorem worker_reports_are_truthful:
  assumes "admissible w rep" and "send_report (net ps en f) i w rep sv = (res, sv')"
  defines "accepted \<equiv> holds i w (sv_repo sv) \<and> report_ok rep"
  shows "(res = None \<longleftrightarrow> f = Delivered \<and> accepted)
    \<and> (res = Some ErrLeaseConflict \<longleftrightarrow> f = Delivered \<and> \<not> accepted)
    \<and> (res \<noteq> None \<longrightarrow> f \<noteq> Delivered \<longrightarrow> res = Some NetworkError)
    \<and> sv' = (if accepted \<and> f \<noteq> RequestLost then snd (svc_report (en_clk en) i w rep sv) else sv)"
  using send_report_outcome [OF assms(1,2)] unfolding accepted_def by simp

definition sample_env :: req_env where
  "sample_env = \<lparr> en_clk = 70, en_snapshot = [], en_clk2 = 71, en_snapshot2 = [], en_turns = [], en_order = [],
                  en_rand = (None, None), en_gone = False \<rparr>"

definition sample_process :: process where
  "sample_process = \<lparr> ps_unicode = (\<lambda>_. False), ps_jsonValid = (\<lambda>_. True), ps_staleAfter = 180 * second \<rparr>"

definition claimed_service :: Service where
  "claimed_service = \<lparr> sv_repo = sample_claimed, sv_notify = NewNotifier \<rparr>"

theorem worker_reports_are_truthful_witness:
  "fst (send_report (net sample_process sample_env Delivered) ''b'' ''w'' RepRenew claimed_service) = None
   \<and> fst (send_report (net sample_process sample_env Delivered) ''b'' ''v'' RepRenew claimed_service) = Some ErrLeaseConflict
   \<and> fst (send_report (net sample_process sample_env Delivered) ''b'' ''w''
        (RepComplete (sample_artifact\<lparr> art_SizeBytes := 0 \<rparr>)) claimed_service) = Some ErrLeaseConflict"
proof -
  have h: "holds ''b'' ''w'' (sv_repo claimed_service)" "\<not> holds ''b'' ''v'' (sv_repo claimed_service)"
    by (simp_all add: holds_def claimed_service_def sample_claimed_eq)
  note t = worker_reports_are_truthful [where ps = sample_process and en = sample_env and f = Delivered
      and i = "''b''" and sv = claimed_service, OF _ surjective_pairing]
  show ?thesis
    using t [of "''w''" RepRenew] t [of "''v''" RepRenew] t [of "''w''" "RepComplete (sample_artifact\<lparr> art_SizeBytes := 0 \<rparr>)"] h
    by (auto simp: admissible_def validateArtifact_def sample_artifact_def TrimSpace_singletons)
qed


section \<open>Submissions\<close>

lemma qc_Submit_delivered:
  assumes "job_ID job \<noteq> []"
  shows "qc_Submit (ps_jsonValid ps) (net ps en Delivered) job sv =
    (case ValidateJobEnvelope (ps_jsonValid ps) job of
       Inl e \<Rightarrow> (Some (EnvelopeRefused e), sv)
     | Inr _ \<Rightarrow>
         (case validateSubmittedJob (ps_unicode ps) (ps_jsonValid ps) job of
            Inl e \<Rightarrow> (Some (HttpStatus 400), sv)
          | Inr _ \<Rightarrow>
              (case svc_SubmitIdempotent (ps_unicode ps) (en_clk en) job sv of
                 (Inl e, sv') \<Rightarrow> (submit_outcome (Some (submit_status e, ErrorText)), sv')
               | (Inr _, sv') \<Rightarrow> (None, sv'))))"
proof -
  have "job\<lparr> job_ID := job_ID job \<rparr> = job" by simp
  then show ?thesis
    using assms by (auto simp: qc_Submit_def serve_def h_submit_def submit_outcome_def Let_def split: sum.splits prod.splits)
qed

lemma SubmitIdempotent_created:
  assumes "SubmitIdempotent U clk job s = (Inr (row, True), s1)" and "job_IdempotencyKey job \<noteq> []"
  shows "r_idem s1 (job_IdempotencyKey job) = Some (job_ID job)"
  using assms by (auto simp: SubmitIdempotent_def set_idem_def split: if_splits option.splits sum.splits)

lemma SubmitIdempotent_changes:
  "snd (SubmitIdempotent U clk job s) \<noteq> s \<Longrightarrow> \<exists>row. fst (SubmitIdempotent U clk job s) = Inr (row, True)"
  by (auto simp: SubmitIdempotent_def split: if_splits option.splits sum.splits)

lemma svc_SubmitIdempotent_repo:
  "job_ID job \<noteq> [] \<Longrightarrow> sv_repo (snd (svc_SubmitIdempotent U clk job sv)) = snd (SubmitIdempotent U clk job (sv_repo sv))"
  by (auto simp: svc_SubmitIdempotent_def notify_svc_def split: sum.splits prod.splits)

text \<open>What a submission that stored its job did, whatever happened to the reply.\<close>

lemma qc_Submit_created:
  assumes "job_ID job \<noteq> []" and "qc_Submit (ps_jsonValid ps) (net ps en f) job sv = (res, sv1)"
    and "r_jobs (sv_repo sv) (job_ID job) = None" and "r_jobs (sv_repo sv1) (job_ID job) \<noteq> None"
  shows "ValidateJobEnvelope (ps_jsonValid ps) job = Inr ()"
    and "validateSubmittedJob (ps_unicode ps) (ps_jsonValid ps) job = Inr ()"
    and "\<exists>row. SubmitIdempotent (ps_unicode ps) (en_clk en) job (sv_repo sv) = (Inr (row, True), sv_repo sv1)"
proof -
  have f: "f \<noteq> RequestLost" using assms(2-4) by (auto simp: qc_Submit_def split: sum.splits prod.splits)
  have sv1: "sv1 = snd (qc_Submit (ps_jsonValid ps) (net ps en Delivered) job sv)"
    using assms(2) f by (cases f) (auto simp: qc_Submit_def split: sum.splits prod.splits)
  have neq: "sv_repo sv1 \<noteq> sv_repo sv" using assms(3,4) by auto
  show e: "ValidateJobEnvelope (ps_jsonValid ps) job = Inr ()"
    using sv1 neq by (auto simp: qc_Submit_def split: sum.splits)
  show v: "validateSubmittedJob (ps_unicode ps) (ps_jsonValid ps) job = Inr ()"
    using sv1 neq e by (auto simp: qc_Submit_delivered [OF assms(1)] split: sum.splits)
  have "sv1 = snd (svc_SubmitIdempotent (ps_unicode ps) (en_clk en) job sv)"
    using sv1 e v by (auto simp: qc_Submit_delivered [OF assms(1)] split: sum.splits prod.splits)
  then have r: "sv_repo sv1 = snd (SubmitIdempotent (ps_unicode ps) (en_clk en) job (sv_repo sv))"
    by (simp add: svc_SubmitIdempotent_repo assms(1))
  with neq SubmitIdempotent_changes [of "ps_unicode ps" "en_clk en" job "sv_repo sv"]
  show "\<exists>row. SubmitIdempotent (ps_unicode ps) (en_clk en) job (sv_repo sv) = (Inr (row, True), sv_repo sv1)"
    by (metis prod.collapse)
qed

text \<open>
  Retrying a submission is safe: once the queue has stored a job, then whatever became of the reply
  and after any calls of other clients that do not submit a batch under the job's key, sending
  the same job again changes nothing in the queue and the producer gets a verdict that tells it the
  job is there: success for a job with an idempotency key, a duplicate otherwise.
\<close>

theorem resubmission_is_safe:
  assumes "svc_wf sv" and "job_ID job \<noteq> []"
    and "qc_Submit (ps_jsonValid ps) (net ps en f) job sv = (res, sv1)"
    and "r_jobs (sv_repo sv) (job_ID job) = None" and "r_jobs (sv_repo sv1) (job_ID job) \<noteq> None"
    and "mem_run (ps_unicode ps) (sv_repo sv1) cs (sv_repo sv2)"
    and "\<forall>c \<in> set cs. claimable_filter c \<and> spares_key (job_IdempotencyKey job) c"
  shows "\<exists>sv3 row. qc_Submit (ps_jsonValid ps) (net ps en' Delivered) job sv2 =
      (if job_IdempotencyKey job \<noteq> [] then None else Some ClientErrJobExists, sv3)
    \<and> sv_repo sv3 = sv_repo sv2 \<and> r_jobs (sv_repo sv2) (job_ID job) = Some row \<and> job_ID row = job_ID job"
proof -
  note c = qc_Submit_created [OF assms(2-5)]
  obtain row1 where s1: "SubmitIdempotent (ps_unicode ps) (en_clk en) job (sv_repo sv) = (Inr (row1, True), sv_repo sv1)"
    using c(3) by blast
  have wf1: "mem_wf (sv_repo sv1)"
    using assms(1) SubmitIdempotent_wf [of "sv_repo sv" "ps_unicode ps" "en_clk en" job] s1 by (simp add: svc_wf_def)
  have wf2: "mem_wf (sv_repo sv2)" by (rule mem_run_wf [OF assms(6) wf1])
  obtain r1 where "r_jobs (sv_repo sv1) (job_ID job) = Some r1" using assms(5) by blast
  then obtain row where row: "r_jobs (sv_repo sv2) (job_ID job) = Some row"
    using mem_run_identity [OF assms(6)] assms(7) by blast
  have idem: "r_idem (sv_repo sv2) (job_IdempotencyKey job) = Some (job_ID job)" if "job_IdempotencyKey job \<noteq> []"
    by (rule mem_run_idem [OF assms(6) _ wf1 SubmitIdempotent_created [OF s1 that]]) (use assms(7) in blast)
  have again: "SubmitIdempotent (ps_unicode ps) (en_clk en') job (sv_repo sv2) =
      (if job_IdempotencyKey job \<noteq> [] then Inr (row, False) else Inl (ErrJobExists (job_ID job)), sv_repo sv2)"
    using assms(2) row idem by (auto simp: SubmitIdempotent_def idem_hit_def)
  have "qc_Submit (ps_jsonValid ps) (net ps en' Delivered) job sv2 =
      (if job_IdempotencyKey job \<noteq> [] then None else Some ClientErrJobExists, sv2\<lparr> sv_repo := sv_repo sv2 \<rparr>)"
    using assms(2) again
    by (auto simp: qc_Submit_delivered [OF assms(2)] c(1,2) svc_SubmitIdempotent_def submit_status_def submit_outcome_def)
  then show ?thesis using row mem_wf_rowD [OF wf2 row] by simp
qed


definition sample_keyed :: Job where
  "sample_keyed = (sample_job ''p'')\<lparr> job_IdempotencyKey := ''k'' \<rparr>"

definition fresh_service :: Service where
  "fresh_service = \<lparr> sv_repo = New 10 3, sv_notify = NewNotifier \<rparr>"

lemma sample_keyed_ok:
  "ValidateJobEnvelope jv sample_keyed = Inr ()" "validateSubmittedJob U jv sample_keyed = Inr ()"
  "job_ID sample_keyed = ''p''" "job_IdempotencyKey sample_keyed = ''k''"
  "ValidateChunk U sample_keyed = Inr ()"
  by (simp_all add: sample_keyed_def ValidateJobEnvelope_def validateSubmittedJob_def sample_simps JobSchemaVersionV1_def)

theorem resubmission_is_safe_witness:
  "fst (qc_Submit (\<lambda>_. True) (net sample_process sample_env ReplyLost) sample_keyed fresh_service) = Some NetworkError
   \<and> fst (qc_Submit (\<lambda>_. True) (net sample_process sample_env Delivered) sample_keyed
        (snd (qc_Submit (\<lambda>_. True) (net sample_process sample_env ReplyLost) sample_keyed fresh_service))) = None"
proof -
  let ?t = "net sample_process sample_env ReplyLost"
  let ?r = "qc_Submit (\<lambda>_. True) ?t sample_keyed fresh_service"
  have jv: "ps_jsonValid sample_process = (\<lambda>_. True)" by (simp add: sample_process_def)
  have wf: "svc_wf fresh_service" by (simp add: svc_wf_def fresh_service_def mem_wf_New NewNotifier_wf)
  have "snd ?r = snd (qc_Submit (\<lambda>_. True) (net sample_process sample_env Delivered) sample_keyed fresh_service)"
    by (simp add: qc_Submit_def sample_keyed_ok split: prod.splits)
  also have "\<dots> = snd (svc_SubmitIdempotent (ps_unicode sample_process) 70 sample_keyed fresh_service)"
    using qc_Submit_delivered [where ps = sample_process and job = sample_keyed and en = sample_env and sv = fresh_service]
    by (auto simp: jv sample_keyed_ok sample_env_def split: prod.splits sum.splits)
  finally have "sv_repo (snd ?r) = snd (SubmitIdempotent (ps_unicode sample_process) 70 sample_keyed (New 10 3))"
    by (simp add: svc_SubmitIdempotent_repo sample_keyed_ok fresh_service_def)
  then have stored: "r_jobs (sv_repo (snd ?r)) ''p'' \<noteq> None"
    by (simp add: SubmitIdempotent_def idem_hit_def sample_keyed_ok New_def)
  have lost: "fst ?r = Some NetworkError" by (simp add: qc_Submit_def sample_keyed_ok submit_outcome_def split: prod.splits)
  show ?thesis
    using resubmission_is_safe [OF wf, of sample_keyed sample_process sample_env ReplyLost "fst ?r" "snd ?r" "[]" "snd ?r" sample_env]
      stored lost
    by (auto simp: jv sample_keyed_ok mem_run_exec fresh_service_def New_def)
qed


section \<open>Waiting\<close>

lemma backoff_range:
  assumes "0 < b" and "b \<le> second"
  shows "0 < next_backoff b \<and> next_backoff b \<le> second \<and> b \<le> next_backoff b"
  using assms by (auto simp: next_backoff_def)

lemma wait_interval_range: "0 < wait_interval d \<and> wait_interval d \<le> second"
  by (simp add: wait_interval_def Let_def)

text \<open>Over a transport to the server that delivers, a read returns the stored row and changes nothing.\<close>

lemma qc_Get_delivered:
  assumes "i \<noteq> ''depth''"
  shows "qc_Get (\<lambda>rq sv. serve ps en rq (mv sv)) i sv =
    (case Get i (sv_repo (mv sv)) of Inl e \<Rightarrow> Inl ClientErrNotFound | Inr job \<Rightarrow> Inr (Some job), mv sv)"
  using assms by (auto simp: qc_Get_def serve_def Let_def h_get_def read_status_def Get_def job_of_def split: option.splits)

definition poll_round :: "process \<Rightarrow> req_env \<Rightarrow> (Service \<Rightarrow> Service) \<Rightarrow> Service round" where
  "poll_round ps en mv =
     \<lparr> rd_ended = False, rd_wait = (\<lambda>rq sv. serve ps en rq (mv sv)),
       rd_get = (\<lambda>rq sv. serve ps en rq (mv sv)), rd_ends = False \<rparr>"

definition terminal_at :: "string \<Rightarrow> Service \<Rightarrow> bool" where
  "terminal_at i sv \<longleftrightarrow> (\<exists>job. Get i (sv_repo sv) = Inr job \<and> IsTerminalState (job_State job))"

lemma wait_loop_live:
  assumes "i \<noteq> ''depth''" and "terminal_at i (foldl (\<lambda>sv mv. mv sv) sv mvs)" and "mvs \<noteq> []"
    and "0 < b" and "b \<le> second" and "n < maxConsecutiveStatusFailures"
  shows "\<exists>job b' sv'. wait_loop i b n (map (poll_round ps en) mvs @ rs) sv = (Some (Inr job), b', sv')
    \<and> IsTerminalState (job_State job) \<and> Get i (sv_repo sv') = Inr job \<and> 0 < b' \<and> b' \<le> second"
  using assms(2-)
proof (induction mvs arbitrary: sv b n)
  case (Cons mv mvs)
  note get = qc_Get_delivered [OF assms(1), of ps en mv sv]
  show ?case
  proof (cases "terminal_at i (mv sv)")
    case True
    then show ?thesis using Cons.prems by (auto simp: terminal_at_def poll_round_def get)
  next
    case False
    then have ne: "mvs \<noteq> []" using Cons.prems(1) by auto
    have step: "wait_loop i b n (map (poll_round ps en) (mv # mvs) @ rs) sv
        = wait_loop i (next_backoff b) 0 (map (poll_round ps en) mvs @ rs) (mv sv)"
      using False by (auto simp: terminal_at_def poll_round_def get Let_def split: sum.splits)
    show ?thesis
      unfolding step
      by (rule Cons.IH) (use Cons.prems ne backoff_range [of b] in \<open>auto simp: maxConsecutiveStatusFailures_def\<close>)
  qed
qed simp

text \<open>
  C27. A producer's wait ends with the truth: polling a reachable queue, whatever other clients do
  between the polls, it returns as soon as a poll finds the job in a terminal state, with the job
  as the store has it, and it never sleeps longer than a second between polls. A failed long poll
  does not end the wait: it goes on by polling and gives the same answer.
\<close>

theorem producer_wait_is_live:
  assumes "i \<noteq> ''depth''" and "mvs \<noteq> []" and "terminal_at i (foldl (\<lambda>sv mv. mv sv) sv mvs)"
    and "rd_wait r (wait_request i) sv0 = (reply, sv)" and "reply \<notin> Some ` ({200, 404} \<times> UNIV)"
    and "\<not> rd_ended r" and "\<not> rd_ends r"
  shows "(\<exists>job b sv'. wait_loop i (wait_interval d) 0 (map (poll_round ps en) mvs @ rs) sv = (Some (Inr job), b, sv')
      \<and> b \<le> second \<and> IsTerminalState (job_State job) \<and> Get i (sv_repo sv') = Inr job)
    \<and> (\<exists>job sv'. WaitTerminal i (r # map (poll_round ps en) mvs @ rs) sv0 = (Some (Inr job), sv')
      \<and> IsTerminalState (job_State job) \<and> Get i (sv_repo sv') = Inr job)"
proof -
  have live: "\<exists>job b sv'. wait_loop i (wait_interval d) 0 (map (poll_round ps en) mvs @ rs) sv = (Some (Inr job), b, sv')
      \<and> IsTerminalState (job_State job) \<and> Get i (sv_repo sv') = Inr job \<and> 0 < b \<and> b \<le> second" for d
    using wait_interval_range [of d]
    by (intro wait_loop_live assms) (simp_all add: maxConsecutiveStatusFailures_def)
  have "WaitTerminal i (r # map (poll_round ps en) mvs @ rs) sv0
      = qc_Wait i waitFallbackInterval (map (poll_round ps en) mvs @ rs) sv"
    using assms(4-) by (auto simp: waitRound_def split: option.splits prod.splits)
  then show ?thesis using live [of waitFallbackInterval] live [of d] by (auto simp: qc_Wait_def)
qed

definition silent_round :: "Service round" where
  "silent_round = \<lparr> rd_ended = False, rd_wait = (\<lambda>rq sv. (None, sv)), rd_get = (\<lambda>rq sv. (None, sv)), rd_ends = False \<rparr>"

theorem producer_wait_is_live_witness:
  "\<exists>job sv'. WaitTerminal ''b'' (silent_round # map (poll_round sample_process sample_env)
      [\<lambda>sv. sv, \<lambda>sv. snd (svc_Cancel ''b'' sv)]) claimed_service = (Some (Inr job), sv') \<and> IsTerminalState (job_State job)"
proof -
  have "terminal_at ''b'' (snd (svc_Cancel ''b'' claimed_service))"
    by (simp add: terminal_at_def Get_def jobCopyWithArtifactLocked_def claimed_service_def sample_claimed_eq svc_Cancel_def
        transition_and_notify_def Cancel_def IsCancelable_def notify_svc_def removeOrderLocked_def put_job_def IsTerminalState_def)
  then have fold: "terminal_at ''b'' (foldl (\<lambda>sv mv. mv sv) claimed_service [\<lambda>sv. sv, \<lambda>sv. snd (svc_Cancel ''b'' sv)])"
    by simp
  have w: "rd_wait silent_round (wait_request ''b'') claimed_service = (None, claimed_service)"
    "\<not> rd_ended silent_round" "\<not> rd_ends silent_round"
    by (simp_all add: silent_round_def)
  have "''b'' \<noteq> ''depth''" "[\<lambda>sv. sv, \<lambda>sv. snd (svc_Cancel ''b'' sv)] \<noteq> []" "None \<notin> Some ` ({200::nat, 404} \<times> (UNIV :: body set))"
    by auto
  from producer_wait_is_live [OF this(1,2) fold w(1) this(3) w(2,3), of 0 sample_process sample_env "[]"]
  show ?thesis by (metis append_Nil2)
qed

section \<open>Claims\<close>

lemma qc_Claim_repo:
  assumes "w \<noteq> []"
  shows "sv_repo (snd (qc_Claim (net ps en ReplyLost) w sv)) = snd (ClaimState (en_clk en) (en_snapshot en) w None (sv_repo sv))"
  using assms
  by (auto simp: qc_Claim_def qc_claim_def Milliseconds_def serve_def h_claim_def checkClaimRequest_def validClaimState_def
      claim_filter_def AllStates_def svc_ClaimState_def Let_def split: prod.splits option.splits)

text \<open>
  C14. A claim whose reply is lost costs one lease, never the job: the row the queue handed out to nobody
  is running for the worker that asked, and the first sweep after the end of its lease puts it back
  as pending, or fails it when the claim was its last attempt.
\<close>

theorem lost_claim_is_recovered:
  assumes "w \<noteq> []" and "qc_Claim (net ps en ReplyLost) w sv = (res, sv')"
    and "r_jobs (sv_repo sv) i = Some job" and "r_jobs (sv_repo sv') i \<noteq> Some job"
    and "iteration_order ord (r_jobs (sv_repo sv'))"
    and "en_clk en + r_lease (sv_repo sv) < now" and "en_clk en + r_lease (sv_repo sv) \<noteq> zero_time"
  shows "res = Inl NetworkError
    \<and> (\<exists>row. r_jobs (sv_repo sv') i = Some row \<and> job_State row = StateRunning \<and> job_Worker row = w
        \<and> job_Attempts row = job_Attempts job + 1
        \<and> (\<exists>row'. r_jobs (snd (RequeueExpired now clk ord (sv_repo sv'))) i = Some row'
            \<and> job_State row' = (if ShouldFailPermanently (job_Attempts job + 1) (r_maxAttempts (sv_repo sv))
                                then StateFailed else StatePending)))"
proof -
  have res: "res = Inl NetworkError"
    using assms(2) by (auto simp: qc_Claim_def qc_claim_def claim_outcome_def Let_def split: prod.splits)
  have "sv_repo sv' = snd (ClaimState (en_clk en) (en_snapshot en) w None (sv_repo sv))"
    using qc_Claim_repo [OF assms(1), of ps en sv] assms(2) by simp
  then obtain r where "ClaimState (en_clk en) (en_snapshot en) w None (sv_repo sv) = (r, sv_repo sv')"
    by (metis prod.collapse)
  then show ?thesis
  proof (cases rule: ClaimState_effect)
    case Nothing
    then show ?thesis using assms(3,4) by simp
  next
    case (Claimed k row)
    then have k: "k = i" "row = job" using assms(3,4) by (auto split: if_splits)
    have ord: "i \<in> set ord" using assms(5) Claimed(4) k by (auto simp: iteration_order_def)
    show ?thesis
      using res Claimed(4) k assms(6,7) ord
      by (auto simp: RequeueExpired_rows swept_row_def claimed_row_def lease_expired_def)
  qed
qed

theorem lost_claim_is_recovered_witness:
  "map_option job_State (r_jobs (snd (RequeueExpired 81 (\<lambda>_. 82) [''a'', ''b'']
      (sv_repo (snd (qc_Claim (net sample_process sample_env ReplyLost) ''w'' sample_service))))) ''b'') = Some StatePending"
proof -
  let ?sv = "snd (qc_Claim (net sample_process sample_env ReplyLost) ''w'' sample_service)"
  have repo: "sv_repo ?sv = snd (ClaimState 70 [] ''w'' None sample_queue)"
    using qc_Claim_repo [of "''w''" sample_process sample_env sample_service] by (simp add: sample_env_def sample_service_def)
  have claim: "ClaimState 70 [] ''w'' None sample_queue = (fst (ClaimState 70 [] ''w'' None sample_queue), sv_repo ?sv)"
    by (simp add: repo)
  have rows: "r_jobs (sv_repo ?sv) ''b'' \<noteq> r_jobs sample_queue ''b''" "dom (r_jobs (sv_repo ?sv)) = {''a'', ''b''}"
    by (auto simp: repo ClaimState_def claimCandidateLocked_def claim_guard_def sample_queue_eq sample_job_def
        hasChildrenLocked_def child_set_def claimed_row_def removeOrderLocked_def put_job_def Let_def)
  obtain job where job: "r_jobs sample_queue ''b'' = Some job" "job_Attempts job = 0" by (simp add: sample_queue_eq sample_job_def)
  show ?thesis
    using lost_claim_is_recovered [of "''w''" sample_process sample_env sample_service _ ?sv "''b''" job "[''a'', ''b'']" 81 "\<lambda>_. 82",
        OF _ surjective_pairing]
      rows job by (auto simp: sample_service_def sample_env_def sample_queue_eq iteration_order_def ShouldFailPermanently_def)
qed


text \<open>
  \<open>depth\<close> is an admissible job id, but the literal route of the queue statistics hides the job:
  a read of it returns the zero job, so a producer that waits for it never sees it end.
\<close>

lemma job_named_depth_is_unreadable:
  "ValidateJobID U ''depth'' = Inr ()"
  "qc_Get (net ps en Delivered) ''depth'' sv = (Inr None, sv)"
  by (simp_all add: ValidateJobID_def id_ascii_ok_def RuneSelf_def qc_Get_def serve_def h_depth_def job_of_def Let_def)

text \<open>The identifiers the server generates pass its own validation.\<close>

lemma hex_nibble_ok: "n < 16 \<Longrightarrow> id_ascii_ok (byte_of (hex_nibble n)) \<and> byte_of (hex_nibble n) < RuneSelf"
  by (auto simp: hex_nibble_def id_ascii_ok_def RuneSelf_def)

lemma byte_less_256: "byte_of c < 16 * (16 :: nat)"
  by (cases c) (auto simp: of_char_def)

lemma scan_ascii: "\<forall>c \<in> set cs. id_ascii_ok c \<and> c < RuneSelf \<Longrightarrow> scan_job_id U j cs = Inr ()"
  by (induction cs) auto

lemma generated_ids_are_valid:
  assumes "newID rnd = Some i" and "\<forall>b. fst rnd = Some b \<or> snd rnd = Some b \<longrightarrow> length b = 8"
  shows "ValidateJobID U i = Inr ()"
proof -
  obtain b where b: "i = ''job-'' @ hex_EncodeToString b" "length b = 8"
    using assms by (auto simp: newID_def split: option.splits)
  have hex: "\<forall>c \<in> set (hex_EncodeToString b). id_ascii_ok (byte_of c) \<and> byte_of c < RuneSelf"
    by (auto simp: hex_EncodeToString_def hex_nibble_ok less_mult_imp_div_less [OF byte_less_256])
  have len: "length (hex_EncodeToString b) = 16"
    using b(2) by (simp add: hex_EncodeToString_def length_concat comp_def sum_list_triv)
  have "scan_job_id U i (map of_char i) = Inr ()"
    by (rule scan_ascii) (use hex b(1) in \<open>auto simp: id_ascii_ok_def RuneSelf_def\<close>)
  then show ?thesis using len b(1) by (simp add: ValidateJobID_def)
qed

end
