(* ===== verification/Batch.thy ===== *)
theory Batch
  imports Queue_Client
begin

text \<open>
  Batch submission, \<open>renderinggen/internal/batch\<close>: the expansion of a manifest into queue jobs with
  content-derived identities (\<open>batch.go\<close>), their submission through the queue client (\<open>submit.go\<close>)
  and the binding of overlay jobs to a rendered base video (\<open>multilingual.go\<close>). SHA-256 in hex is
  the parameter \<open>sha\<close>; the parts of \<open>encoding/json\<close> the package uses are parameters too.
\<close>

section \<open>Manifests\<close>

definition SchemaBatchManifestV1 :: string where "SchemaBatchManifestV1 = ''renderinggen.batch-manifest.v1''"
definition SchemaMultilingualBatchV1 :: string where
  "SchemaMultilingualBatchV1 = ''renderinggen.batch-multilingual.v1''"

record FlatJob =
  fj_ID :: string
  fj_RenderPlan :: bytes
  fj_Assets :: "AssetRef list"

record Manifest =
  mf_Schema :: string
  mf_BatchID :: string
  mf_Jobs :: "FlatJob list"

record LanguageJob =
  lj_Language :: string
  lj_BaseJobID :: string
  lj_RenderPlan :: bytes
  lj_Assets :: "AssetRef list"
  lj_AudioSourceAsset :: "AssetRef option"

record MultilingualManifest =
  mm_Schema :: string
  mm_BatchID :: string
  mm_Base :: FlatJob
  mm_Langs :: "LanguageJob list"

record Result =
  bs_Submitted :: "string list"
  bs_Existing :: "string list"

datatype batch_error =
    UnsupportedManifestSchema string
  | BatchIDRequired
  | NoJobs
  | EmptyJobID
  | DuplicateLogicalID string
  | EmptyRenderPlan string
  | PlanNotObject string
  | EmptyAsset string
  | DuplicateAssetPath string string
  | EmptyLanguage
  | DuplicateLanguage string
  | WrongBaseJobID string string
  | AudioAssetIncomplete string
  | ConflictingHashes string string
  | ManifestDecode
  | NoSchemaVersion
  | PlanPatchFailed
  | NoOverlayJobs

section \<open>Identities\<close>

definition jobID :: "string \<Rightarrow> string \<Rightarrow> string" where
  "jobID b logical = b @ '':'' @ logical"

definition newline :: string where "newline = [CHR 0x0A]"

definition asset_line :: "AssetRef \<Rightarrow> bytes" where
  "asset_line a = ''asset:'' @ ar_Hash a @ '':'' @ ar_LogicalPath a @ '':'' @ ar_SourceURL a @ newline"

text \<open>
  The bytes that are hashed. \<open>sort.Slice\<close> is not stable; no two assets of a validated list have the
  same logical path, so the order it produces is the only one.
\<close>

definition key_preimage :: "string \<Rightarrow> string \<Rightarrow> bytes \<Rightarrow> AssetRef list \<Rightarrow> bytes" where
  "key_preimage b logical plan assets =
     ''batch:'' @ b @ newline @ ''job:'' @ logical @ newline @ plan @
     concat (map asset_line (sort_key (\<lambda>a. (ar_Hash a, ar_LogicalPath a)) assets))"

definition idempotencyKey :: "(bytes \<Rightarrow> string) \<Rightarrow> string \<Rightarrow> string \<Rightarrow> bytes \<Rightarrow> AssetRef list \<Rightarrow> string" where
  "idempotencyKey sha b logical plan assets = sha (key_preimage b logical plan assets)"

section \<open>Validation\<close>

text \<open>\<open>isObject\<close> tells whether \<open>json.Unmarshal\<close> accepts the bytes as a map.\<close>

definition validatePlanShape :: "(bytes \<Rightarrow> bool) \<Rightarrow> string \<Rightarrow> bytes \<Rightarrow> batch_error option" where
  "validatePlanShape isObject logical plan =
     (if length plan = 0 then Some (EmptyRenderPlan logical)
      else if \<not> isObject plan then Some (PlanNotObject logical)
      else None)"

fun validateAssets_from :: "string list \<Rightarrow> string \<Rightarrow> AssetRef list \<Rightarrow> batch_error option" where
  "validateAssets_from seen logical [] = None"
| "validateAssets_from seen logical (a # as) =
     (if TrimSpace (ar_Hash a) = [] \<or> TrimSpace (ar_LogicalPath a) = [] then Some (EmptyAsset logical)
      else if ar_LogicalPath a \<in> set seen then Some (DuplicateAssetPath logical (ar_LogicalPath a))
      else validateAssets_from (ar_LogicalPath a # seen) logical as)"

definition validateAssets :: "string \<Rightarrow> AssetRef list \<Rightarrow> batch_error option" where
  "validateAssets logical assets = validateAssets_from [] logical assets"

section \<open>Expansion\<close>

text \<open>A job with the given fields and the zero value in every other one.\<close>

definition zero_job :: Job where
  "zero_job =
     \<lparr> job_ID = [], job_Schema = [], job_Version = 0, job_IdempotencyKey = [], job_JobType = [],
       job_PublicationPolicy = [], job_DaemonAdmissionWaitMS = Fin 0, job_ParentJobID = [], job_ChunkIndex = 0,
       job_FrameRange = None, job_NotBefore = None, job_RenderPlan = [], job_Assets = [],
       job_State = StatePending, job_Worker = [], job_Attempts = 0, job_CreatedAt = 0, job_QueuedAt = 0,
       job_StartedAt = 0, job_CompletedAt = 0, job_LeaseUntil = 0, job_FailReason = [], job_Artifact = None,
       job_Progress = None, job_Lease = 0 \<rparr>"

definition queue_job ::
  "(bytes \<Rightarrow> string) \<Rightarrow> string \<Rightarrow> string \<Rightarrow> string \<Rightarrow> string \<Rightarrow> bytes \<Rightarrow> AssetRef list \<Rightarrow> Job" where
  "queue_job sha b logical jobType parent plan assets =
     zero_job\<lparr> job_ID := jobID b logical, job_Schema := JobSchemaV1, job_Version := JobSchemaVersionV1,
       job_JobType := jobType, job_ParentJobID := parent,
       job_IdempotencyKey := idempotencyKey sha b logical plan assets,
       job_RenderPlan := plan, job_Assets := assets \<rparr>"

fun expand_from ::
  "(bytes \<Rightarrow> string) \<Rightarrow> (bytes \<Rightarrow> bool) \<Rightarrow> string \<Rightarrow> string list \<Rightarrow> FlatJob list \<Rightarrow> (batch_error, Job list) result" where
  "expand_from sha isObject b seen [] = Inr []"
| "expand_from sha isObject b seen (j # js) =
     (if TrimSpace (fj_ID j) = [] then Inl EmptyJobID
      else if fj_ID j \<in> set seen then Inl (DuplicateLogicalID (fj_ID j))
      else case validatePlanShape isObject (fj_ID j) (fj_RenderPlan j) of
        Some e \<Rightarrow> Inl e
      | None \<Rightarrow>
          (case validateAssets (fj_ID j) (fj_Assets j) of
             Some e \<Rightarrow> Inl e
           | None \<Rightarrow>
               (case expand_from sha isObject b (fj_ID j # seen) js of
                  Inl e \<Rightarrow> Inl e
                | Inr jobs \<Rightarrow> Inr (queue_job sha b (fj_ID j) [] [] (fj_RenderPlan j) (fj_Assets j) # jobs))))"

definition Expand :: "(bytes \<Rightarrow> string) \<Rightarrow> (bytes \<Rightarrow> bool) \<Rightarrow> Manifest \<Rightarrow> (batch_error, Job list) result" where
  "Expand sha isObject m =
     (if mf_Schema m \<noteq> SchemaBatchManifestV1 then Inl (UnsupportedManifestSchema (mf_Schema m))
      else if TrimSpace (mf_BatchID m) = [] then Inl BatchIDRequired
      else if length (mf_Jobs m) = 0 then Inl NoJobs
      else expand_from sha isObject (mf_BatchID m) [] (mf_Jobs m))"

text \<open>The voiceover replaces the first asset with its path, or is appended.\<close>

fun place_voice :: "string \<Rightarrow> AssetRef \<Rightarrow> AssetRef list \<Rightarrow> (batch_error, AssetRef list) result" where
  "place_voice logical voice [] = Inr [voice]"
| "place_voice logical voice (a # as) =
     (if ar_LogicalPath a \<noteq> ar_LogicalPath voice then
        (case place_voice logical voice as of Inl e \<Rightarrow> Inl e | Inr as' \<Rightarrow> Inr (a # as'))
      else if ar_Hash a \<noteq> ar_Hash voice then Inl (ConflictingHashes logical (ar_LogicalPath voice))
      else Inr (voice # as))"

definition languageAssets :: "string \<Rightarrow> LanguageJob \<Rightarrow> (batch_error, AssetRef list) result" where
  "languageAssets logical l =
     (case (case lj_AudioSourceAsset l of
              None \<Rightarrow> Inr (lj_Assets l)
            | Some voice \<Rightarrow>
                (if TrimSpace (ar_Hash voice) = [] \<or> TrimSpace (ar_LogicalPath voice) = []
                 then Inl (AudioAssetIncomplete logical)
                 else place_voice logical voice (lj_Assets l))) of
        Inl e \<Rightarrow> Inl e
      | Inr assets \<Rightarrow> (case validateAssets logical assets of Some e \<Rightarrow> Inl e | None \<Rightarrow> Inr assets))"

fun expand_langs ::
  "(bytes \<Rightarrow> string) \<Rightarrow> (bytes \<Rightarrow> bool) \<Rightarrow> string \<Rightarrow> string \<Rightarrow> string list \<Rightarrow> LanguageJob list \<Rightarrow> (batch_error, Job list) result" where
  "expand_langs sha isObject b baseID seen [] = Inr []"
| "expand_langs sha isObject b baseID seen (l # ls) =
     (let lang = TrimSpace (lj_Language l); logical = baseID @ ''.overlay.'' @ lang in
      if lang = [] then Inl EmptyLanguage
      else if lang \<in> set seen then Inl (DuplicateLanguage lang)
      else if TrimSpace (lj_BaseJobID l) \<noteq> [] \<and> lj_BaseJobID l \<noteq> baseID then Inl (WrongBaseJobID lang (lj_BaseJobID l))
      else case validatePlanShape isObject logical (lj_RenderPlan l) of
        Some e \<Rightarrow> Inl e
      | None \<Rightarrow>
          (case languageAssets logical l of
             Inl e \<Rightarrow> Inl e
           | Inr assets \<Rightarrow>
               (case expand_langs sha isObject b baseID (lang # seen) ls of
                  Inl e \<Rightarrow> Inl e
                | Inr jobs \<Rightarrow>
                    Inr (queue_job sha b logical ''overlay.render'' (jobID b baseID) (lj_RenderPlan l) assets # jobs))))"

definition ExpandMultilingual ::
  "(bytes \<Rightarrow> string) \<Rightarrow> (bytes \<Rightarrow> bool) \<Rightarrow> MultilingualManifest \<Rightarrow> (batch_error, Job list) result" where
  "ExpandMultilingual sha isObject m =
     (let base = mm_Base m; b = mm_BatchID m in
      if mm_Schema m \<noteq> SchemaMultilingualBatchV1 then Inl (UnsupportedManifestSchema (mm_Schema m))
      else if TrimSpace b = [] then Inl BatchIDRequired
      else if TrimSpace (fj_ID base) = [] then Inl EmptyJobID
      else case validatePlanShape isObject (fj_ID base) (fj_RenderPlan base) of
        Some e \<Rightarrow> Inl e
      | None \<Rightarrow>
          (case validateAssets (fj_ID base) (fj_Assets base) of
             Some e \<Rightarrow> Inl e
           | None \<Rightarrow>
               (case expand_langs sha isObject b (fj_ID base) [] (mm_Langs m) of
                  Inl e \<Rightarrow> Inl e
                | Inr jobs \<Rightarrow>
                    Inr (queue_job sha b (fj_ID base) [] [] (fj_RenderPlan base) (fj_Assets base) # jobs))))"

text \<open>The three decodings of the manifest bytes are arguments; \<open>None\<close> is a decoding error.\<close>

definition Decode ::
  "(bytes \<Rightarrow> string) \<Rightarrow> (bytes \<Rightarrow> bool) \<Rightarrow> string option \<Rightarrow> Manifest option \<Rightarrow> MultilingualManifest option \<Rightarrow>
     (batch_error, Job list) result" where
  "Decode sha isObject probe flat multi =
     (case probe of
        None \<Rightarrow> Inl ManifestDecode
      | Some schema \<Rightarrow>
          (if schema = SchemaBatchManifestV1 then
             (case flat of None \<Rightarrow> Inl ManifestDecode | Some m \<Rightarrow> Expand sha isObject m)
           else if schema = SchemaMultilingualBatchV1 then
             (case multi of None \<Rightarrow> Inl ManifestDecode | Some m \<Rightarrow> ExpandMultilingual sha isObject m)
           else if schema = [] then Inl NoSchemaVersion
           else Inl (UnsupportedManifestSchema schema)))"

section \<open>Submission\<close>

datatype submit_error = CannotReadBack string client_error | SubmitFailed string client_error

fun SubmitAll ::
  "(Job \<Rightarrow> 's \<Rightarrow> client_error option \<times> 's) \<Rightarrow> (string \<Rightarrow> 's \<Rightarrow> (client_error, Job option) result \<times> 's) \<Rightarrow>
     Job list \<Rightarrow> Result \<Rightarrow> 's \<Rightarrow> (Result \<times> submit_error option) \<times> 's" where
  "SubmitAll submit getj [] res s = ((res, None), s)"
| "SubmitAll submit getj (job # jobs) res s =
     (case submit job s of
        (None, s') \<Rightarrow> SubmitAll submit getj jobs (res\<lparr> bs_Submitted := bs_Submitted res @ [job_ID job] \<rparr>) s'
      | (Some ClientErrJobExists, s') \<Rightarrow>
          (case getj (job_ID job) s' of
             (Inl e, s'') \<Rightarrow> ((res, Some (CannotReadBack (job_ID job) e)), s'')
           | (Inr _, s'') \<Rightarrow> SubmitAll submit getj jobs (res\<lparr> bs_Existing := bs_Existing res @ [job_ID job] \<rparr>) s'')
      | (Some e, s') \<Rightarrow> ((res, Some (SubmitFailed (job_ID job) e)), s'))"

section \<open>Binding overlay jobs to the base video\<close>

definition SourceBindLogicalPath :: string where "SourceBindLogicalPath = ''videos/bound_base.mp4''"

definition quoted :: "string \<Rightarrow> bytes" where "quoted x = [CHR 0x22] @ x @ [CHR 0x22]"

text \<open>\<open>dec\<close> and \<open>enc\<close> are \<open>json.Unmarshal\<close> and \<open>json.Marshal\<close> between bytes and a map of raw members.\<close>

definition overlayPlanSourcePatch ::
  "(bytes \<Rightarrow> (string \<rightharpoonup> bytes) option) \<Rightarrow> ((string \<rightharpoonup> bytes) \<Rightarrow> bytes option) \<Rightarrow> bytes \<Rightarrow> string \<Rightarrow> (batch_error, bytes) result" where
  "overlayPlanSourcePatch dec enc plan baseHash =
     (case dec plan of
        None \<Rightarrow> Inl PlanPatchFailed
      | Some doc \<Rightarrow>
          (case (case doc ''source'' of
                   Some raw \<Rightarrow> (if length raw > 0 then dec raw else Some Map.empty)
                 | None \<Rightarrow> Some Map.empty) of
             None \<Rightarrow> Inl PlanPatchFailed
           | Some source \<Rightarrow>
               (case enc (source(''asset_id'' \<mapsto> quoted ''bound_base'', ''sha256'' \<mapsto> quoted baseHash)) of
                  None \<Rightarrow> Inl PlanPatchFailed
                | Some patched \<Rightarrow>
                    (case enc (doc(''source'' \<mapsto> patched)) of
                       None \<Rightarrow> Inl PlanPatchFailed
                     | Some out \<Rightarrow> Inr out))))"

record BaseOutcome =
  bo_JobID :: string
  bo_ArtifactHash :: string

datatype await_error = AwaitFailed client_error | NoArtifactHash | BaseEnded State | AwaitContextDone

text \<open>The loop of \<open>AwaitBase\<close>, over the reads of its rounds and whether the context ends in the pause.\<close>

fun AwaitBase ::
  "string \<Rightarrow> ((string \<Rightarrow> 's \<Rightarrow> (client_error, Job option) result \<times> 's) \<times> bool) list \<Rightarrow> 's \<Rightarrow>
     (await_error, BaseOutcome) result option \<times> 's" where
  "AwaitBase i [] s = (None, s)"
| "AwaitBase i ((getj, ends) # rs) s =
     (case getj i s of
        (Inl e, s') \<Rightarrow> (Some (Inl (AwaitFailed e)), s')
      | (Inr job, s') \<Rightarrow>
          (case map_option job_State job of
             Some StateCompleted \<Rightarrow>
               (case job_Artifact (the job) of
                  None \<Rightarrow> (Some (Inl NoArtifactHash), s')
                | Some art \<Rightarrow>
                    (if art_ArtifactHash art = [] then Some (Inl NoArtifactHash)
                     else Some (Inr \<lparr> bo_JobID = i, bo_ArtifactHash = art_ArtifactHash art \<rparr>), s'))
           | Some StateFailed \<Rightarrow> (Some (Inl (BaseEnded StateFailed)), s')
           | Some StateCancelled \<Rightarrow> (Some (Inl (BaseEnded StateCancelled)), s')
           | _ \<Rightarrow> (if ends then (Some (Inl AwaitContextDone), s') else AwaitBase i rs s')))"

text \<open>What follows the first colon of an identifier, or all of it.\<close>

definition after_colon :: "string \<Rightarrow> string" where
  "after_colon i = (case dropWhile (\<lambda>c. c \<noteq> CHR '':'') i of [] \<Rightarrow> i | _ # rest \<Rightarrow> rest)"

fun bind_jobs ::
  "(bytes \<Rightarrow> string) \<Rightarrow> (bytes \<Rightarrow> string \<Rightarrow> (batch_error, bytes) result) \<Rightarrow> string \<Rightarrow> Job list \<Rightarrow> BaseOutcome \<Rightarrow>
     (batch_error, Job list) result" where
  "bind_jobs sha patch b [] base = Inr []"
| "bind_jobs sha patch b (j # js) base =
     (if job_ParentJobID j = [] then bind_jobs sha patch b js base
      else case patch (job_RenderPlan j) (bo_ArtifactHash base) of
        Inl e \<Rightarrow> Inl e
      | Inr patched \<Rightarrow>
          (let assets = job_Assets j @ [\<lparr> ar_Hash = bo_ArtifactHash base, ar_LogicalPath = SourceBindLogicalPath,
                                         ar_SourceURL = [] \<rparr>];
               j' = j\<lparr> job_RenderPlan := patched, job_Assets := assets,
                       job_IdempotencyKey := idempotencyKey sha b (after_colon (job_ID j)) patched assets \<rparr>
           in case bind_jobs sha patch b js base of Inl e \<Rightarrow> Inl e | Inr out \<Rightarrow> Inr (j' # out)))"

definition BindOverlayJobs ::
  "(bytes \<Rightarrow> string) \<Rightarrow> (bytes \<Rightarrow> string \<Rightarrow> (batch_error, bytes) result) \<Rightarrow> string \<Rightarrow> Job list \<Rightarrow> BaseOutcome \<Rightarrow>
     (batch_error, Job list) result" where
  "BindOverlayJobs sha patch b jobs base =
     (case bind_jobs sha patch b jobs base of
        Inl e \<Rightarrow> Inl e
      | Inr out \<Rightarrow> (if length out = 0 then Inl NoOverlayJobs else Inr out))"

section \<open>What an expansion produces\<close>

lemma jobID_inj: "jobID b x = jobID b y \<longleftrightarrow> x = y"
  by (simp add: jobID_def)

lemma jobID_facts: "jobID b x \<noteq> []" "jobID b x \<noteq> ''depth''"
proof -
  have "CHR '':'' \<in> set (jobID b x)" by (simp add: jobID_def)
  then show "jobID b x \<noteq> ''depth''" by force
qed (simp add: jobID_def)

lemma queue_job_sel [simp]:
  "job_ID (queue_job sha b l t p plan assets) = jobID b l"
  "job_ParentJobID (queue_job sha b l t p plan assets) = p"
  "job_IdempotencyKey (queue_job sha b l t p plan assets) = idempotencyKey sha b l plan assets"
  "job_RenderPlan (queue_job sha b l t p plan assets) = plan"
  "job_Assets (queue_job sha b l t p plan assets) = assets"
  by (simp_all add: queue_job_def zero_job_def)

lemma validateAssets_from_None:
  "validateAssets_from seen l xs = None \<Longrightarrow>
     distinct (map ar_LogicalPath xs) \<and> set (map ar_LogicalPath xs) \<inter> set seen = {}
     \<and> (\<forall>a \<in> set xs. TrimSpace (ar_Hash a) \<noteq> [] \<and> TrimSpace (ar_LogicalPath a) \<noteq> [])"
proof (induction xs arbitrary: seen)
  case (Cons a xs)
  then show ?case using Cons.IH [of "ar_LogicalPath a # seen"] by (simp split: if_splits)
qed simp

lemma expand_from_Inr:
  "expand_from sha isObject b seen js = Inr jobs \<Longrightarrow>
     jobs = map (\<lambda>j. queue_job sha b (fj_ID j) [] [] (fj_RenderPlan j) (fj_Assets j)) js
     \<and> distinct (map fj_ID js) \<and> set (map fj_ID js) \<inter> set seen = {}"
proof (induction js arbitrary: seen jobs)
  case (Cons j js)
  from Cons.prems obtain rest where "expand_from sha isObject b (fj_ID j # seen) js = Inr rest"
    and "jobs = queue_job sha b (fj_ID j) [] [] (fj_RenderPlan j) (fj_Assets j) # rest" and "fj_ID j \<notin> set seen"
    by (auto split: if_splits option.splits sum.splits)
  with Cons.IH [of "fj_ID j # seen" rest] show ?case by auto
qed simp

lemma expand_langs_Inr:
  "expand_langs sha isObject b baseID seen ls = Inr jobs \<Longrightarrow>
     map job_ID jobs = map (\<lambda>l. jobID b (baseID @ ''.overlay.'' @ TrimSpace (lj_Language l))) ls
     \<and> distinct (map (TrimSpace \<circ> lj_Language) ls) \<and> set (map (TrimSpace \<circ> lj_Language) ls) \<inter> set seen = {}
     \<and> (\<forall>job \<in> set jobs. job_ParentJobID job = jobID b baseID
          \<and> (\<exists>l plan assets. job_IdempotencyKey job = idempotencyKey sha b l plan assets))"
proof (induction ls arbitrary: seen jobs)
  case (Cons l ls)
  let ?lang = "TrimSpace (lj_Language l)"
  from Cons.prems obtain rest assets where rest: "expand_langs sha isObject b baseID (?lang # seen) ls = Inr rest"
    and jobs: "jobs = queue_job sha b (baseID @ ''.overlay.'' @ ?lang) ''overlay.render'' (jobID b baseID) (lj_RenderPlan l) assets # rest"
    and new: "?lang \<notin> set seen"
    by (auto simp: Let_def split: if_splits option.splits sum.splits)
  have key: "\<exists>l plan assets. job_IdempotencyKey (hd jobs) = idempotencyKey sha b l plan assets"
    unfolding jobs by (simp, blast)
  show ?case using Cons.IH [OF rest] new key unfolding jobs by simp
qed simp

text \<open>The jobs of a manifest: identities of their own, non-empty keys.\<close>

definition batch_jobs :: "Job list \<Rightarrow> bool" where
  "batch_jobs jobs \<longleftrightarrow>
     distinct (map job_ID jobs) \<and>
     (\<forall>job \<in> set jobs. job_ID job \<noteq> [] \<and> job_ID job \<noteq> ''depth'' \<and> job_IdempotencyKey job \<noteq> [])"

lemma Expand_batch_jobs:
  assumes "Expand sha isObject m = Inr jobs" and "\<forall>x. sha x \<noteq> []"
  shows "batch_jobs jobs"
proof -
  have "expand_from sha isObject (mf_BatchID m) [] (mf_Jobs m) = Inr jobs"
    using assms(1) by (auto simp: Expand_def split: if_splits)
  from expand_from_Inr [OF this] show ?thesis
    using assms(2)
    by (auto simp: batch_jobs_def comp_def jobID_facts idempotencyKey_def distinct_map inj_on_def jobID_inj)
qed

text \<open>The key does not depend on the order in which a manifest lists the assets of a job.\<close>

lemma idempotencyKey_order:
  assumes "validateAssets l as1 = None" and "validateAssets l as2 = None" and "set as1 = set as2"
  shows "idempotencyKey sha b l plan as1 = idempotencyKey sha b l plan as2"
proof -
  let ?f = "\<lambda>a. (ar_Hash a, ar_LogicalPath a)"
  have d: "distinct (map ar_LogicalPath as1)" "distinct (map ar_LogicalPath as2)"
    using validateAssets_from_None assms(1,2) unfolding validateAssets_def by blast+
  have f: "distinct (map ?f as1)" "distinct (map ?f as2)" "inj_on ?f (set as1)"
    using d by (auto simp: distinct_map inj_on_def)
  have "sort_key ?f as1 = sort_key ?f as2"
    by (rule map_sorted_distinct_set_unique [of ?f]) (use f assms(3) in \<open>simp_all add: distinct_map_sort_key\<close>)
  then show ?thesis by (simp add: idempotencyKey_def key_preimage_def)
qed

section \<open>Submitting a batch\<close>

text \<open>The submitter over a queue that answers; \<open>en\<close> is what the process contributes to each request.\<close>

definition deliver_submit :: "process \<Rightarrow> (string \<Rightarrow> req_env) \<Rightarrow> Job \<Rightarrow> Service \<Rightarrow> client_error option \<times> Service" where
  "deliver_submit ps en job sv = qc_Submit (ps_jsonValid ps) (net ps (en (job_ID job)) Delivered) job sv"

definition deliver_get :: "process \<Rightarrow> (string \<Rightarrow> req_env) \<Rightarrow> string \<Rightarrow> Service \<Rightarrow> (client_error, Job option) result \<times> Service" where
  "deliver_get ps en i sv = qc_Get (net ps (en i) Delivered) i sv"

text \<open>A job the queue has taken notice of: under its key, or under its identifier.\<close>

definition registered :: "Job \<Rightarrow> Repository \<Rightarrow> bool" where
  "registered job s \<longleftrightarrow> (\<exists>k row. r_idem s (job_IdempotencyKey job) = Some k \<and> r_jobs s k = Some row)"

definition settled :: "process \<Rightarrow> Job \<Rightarrow> Repository \<Rightarrow> bool" where
  "settled ps job s \<longleftrightarrow>
     ValidateJobEnvelope (ps_jsonValid ps) job = Inr () \<and>
     validateSubmittedJob (ps_unicode ps) (ps_jsonValid ps) job = Inr () \<and>
     (registered job s \<or> job_ID job \<in> dom (r_jobs s))"

lemma SubmitIdempotent_verdict:
  assumes "job_ID job \<noteq> []" and "job_IdempotencyKey job \<noteq> []" and "mem_wf s"
  shows "fst (SubmitIdempotent U clk job s) = Inr x \<Longrightarrow> registered job (snd (SubmitIdempotent U clk job s))"
    and "fst (SubmitIdempotent U clk job s) = Inl (ErrJobExists k) \<Longrightarrow>
      job_ID job \<in> dom (r_jobs s) \<and> snd (SubmitIdempotent U clk job s) = s"
  using assms
  by (auto simp: SubmitIdempotent_def registered_def idem_hit_def set_idem_def split: if_splits option.splits sum.splits)

lemma deliver_submit_settles:
  assumes "svc_wf sv" and "job_ID job \<noteq> []" and "job_IdempotencyKey job \<noteq> []"
    and "deliver_submit ps en job sv = (r, sv')" and "r = None \<or> r = Some ClientErrJobExists"
  shows "settled ps job (sv_repo sv')" and "r = None \<Longrightarrow> registered job (sv_repo sv')"
    and "svc_wf sv'" and "mem_run (ps_unicode ps) (sv_repo sv) [CSubmitIdempotent (en_clk (en (job_ID job))) job] (sv_repo sv')"
proof -
  let ?U = "ps_unicode ps" and ?jv = "ps_jsonValid ps" and ?clk = "en_clk (en (job_ID job))"
  have d: "qc_Submit ?jv (net ps (en (job_ID job)) Delivered) job sv = (r, sv')"
    using assms(4) by (simp add: deliver_submit_def)
  note u = qc_Submit_delivered [OF assms(2), of ps "en (job_ID job)" sv]
  have e: "ValidateJobEnvelope ?jv job = Inr ()" using d u assms(5) by (auto split: sum.splits)
  have v: "validateSubmittedJob ?U ?jv job = Inr ()" using d u e assms(5) by (auto split: sum.splits)
  have sv': "sv' = snd (svc_SubmitIdempotent ?U ?clk job sv)"
    using d u e v by (auto split: sum.splits prod.splits)
  then have repo: "sv_repo sv' = snd (SubmitIdempotent ?U ?clk job (sv_repo sv))"
    by (simp add: svc_SubmitIdempotent_repo assms(2))
  show "svc_wf sv'" using svc_ops_wf(2) [OF assms(1)] sv' by simp
  show "mem_run ?U (sv_repo sv) [CSubmitIdempotent ?clk job] (sv_repo sv')" by (simp add: mem_run_exec repo)
  have wf: "mem_wf (sv_repo sv)" using assms(1) by (simp add: svc_wf_def)
  note verdict = SubmitIdempotent_verdict [OF assms(2,3) wf, of ?U ?clk]
  have res: "(r = None \<longrightarrow> (\<exists>x. fst (SubmitIdempotent ?U ?clk job (sv_repo sv)) = Inr x))
    \<and> (r = Some ClientErrJobExists \<longrightarrow> (\<exists>k. fst (SubmitIdempotent ?U ?clk job (sv_repo sv)) = Inl (ErrJobExists k)))"
    using d u e v assms(2)
    by (auto simp: svc_SubmitIdempotent_def submit_outcome_def submit_status_def
        split: sum.splits prod.splits service_error.splits repo_error.splits if_splits)
  show reg: "registered job (sv_repo sv')" if "r = None" using res verdict(1) that repo by auto
  show "settled ps job (sv_repo sv')"
    using res verdict reg assms(5) repo e v unfolding settled_def by auto
qed

lemma settled_replay:
  assumes "svc_wf sv" and "job_ID job \<noteq> []" and "job_IdempotencyKey job \<noteq> []" and "settled ps job (sv_repo sv)"
  shows "\<exists>sv'. deliver_submit ps en job sv =
      (if registered job (sv_repo sv) then None else Some ClientErrJobExists, sv')
    \<and> sv_repo sv' = sv_repo sv \<and> svc_wf sv' \<and> (\<not> registered job (sv_repo sv) \<longrightarrow> job_ID job \<in> dom (r_jobs (sv_repo sv)))"
proof -
  let ?U = "ps_unicode ps" and ?clk = "en_clk (en (job_ID job))"
  have idem: "SubmitIdempotent ?U ?clk job (sv_repo sv) =
      (if registered job (sv_repo sv) then Inr (the (r_jobs (sv_repo sv) (the (r_idem (sv_repo sv) (job_IdempotencyKey job)))), False)
       else Inl (ErrJobExists (job_ID job)), sv_repo sv)"
    using assms(2-4) by (auto simp: SubmitIdempotent_def idem_hit_def registered_def settled_def split: option.splits)
  then have svc: "svc_SubmitIdempotent ?U ?clk job sv = (if registered job (sv_repo sv)
      then Inr (the (r_jobs (sv_repo sv) (the (r_idem (sv_repo sv) (job_IdempotencyKey job)))), False)
      else Inl (RepoError (ErrJobExists (job_ID job))), sv)"
    using assms(2) by (simp add: svc_SubmitIdempotent_def)
  have "deliver_submit ps en job sv = (if registered job (sv_repo sv) then None else Some ClientErrJobExists, sv)"
    using qc_Submit_delivered [OF assms(2), of ps "en (job_ID job)" sv] assms(4) svc
    by (auto simp: deliver_submit_def settled_def submit_outcome_def submit_status_def)
  then show ?thesis using assms(1,4) by (auto simp: settled_def)
qed

lemma settled_run:
  assumes "mem_wf s" and "mem_run (ps_unicode ps) s cs s'"
    and "\<forall>c \<in> set cs. spares_key (job_IdempotencyKey job) c"
  shows "registered job s \<Longrightarrow> registered job s'" and "settled ps job s \<Longrightarrow> settled ps job s'"
proof -
  show reg: "registered job s'" if "registered job s"
    using that mem_run_idem [OF assms(2,3,1)] mem_run_identity_any [OF assms(2)]
    unfolding registered_def by meson
  show "settled ps job s'" if "settled ps job s"
    using that reg mem_run_identity_any [OF assms(2)] unfolding settled_def dom_def by blast
qed

definition submission_call :: "mem_call \<Rightarrow> bool" where
  "submission_call c = (case c of CSubmitIdempotent _ _ \<Rightarrow> True | _ \<Rightarrow> False)"

lemma submission_call_spares: "submission_call c \<Longrightarrow> spares_key k c"
  by (cases c) (auto simp: submission_call_def spares_key_def)

lemma SubmitAll_settles:
  assumes "SubmitAll (deliver_submit ps en) (deliver_get ps en) jobs res sv = ((res', None), sv')"
    and "svc_wf sv" and "\<forall>job \<in> set jobs. job_ID job \<noteq> [] \<and> job_ID job \<noteq> ''depth'' \<and> job_IdempotencyKey job \<noteq> []"
  shows "\<exists>cs. mem_run (ps_unicode ps) (sv_repo sv) cs (sv_repo sv') \<and> (\<forall>c \<in> set cs. submission_call c)"
    and "svc_wf sv'" and "\<forall>job \<in> set jobs. settled ps job (sv_repo sv')"
    and "set (bs_Submitted res') \<subseteq> set (bs_Submitted res) \<union> {job_ID job | job. job \<in> set jobs \<and> registered job (sv_repo sv')}"
proof -
  have "(\<exists>cs. mem_run (ps_unicode ps) (sv_repo sv) cs (sv_repo sv') \<and> (\<forall>c \<in> set cs. submission_call c))
    \<and> svc_wf sv' \<and> (\<forall>job \<in> set jobs. settled ps job (sv_repo sv'))
    \<and> set (bs_Submitted res') \<subseteq> set (bs_Submitted res) \<union> {job_ID job | job. job \<in> set jobs \<and> registered job (sv_repo sv')}"
    using assms
  proof (induction jobs arbitrary: res sv)
    case Nil
    then show ?case by (auto intro!: exI [of _ "[]"] simp: mem_run_exec)
  next
    case (Cons job jobs)
    obtain r sv1 where sub: "deliver_submit ps en job sv = (r, sv1)" by fastforce
    have get: "deliver_get ps en (job_ID job) sv1 = (q, sv2) \<Longrightarrow> sv2 = sv1" for q sv2
      using qc_Get_delivered [of "job_ID job" ps "en (job_ID job)" "\<lambda>sv. sv" sv1] Cons.prems(3)
      by (simp add: deliver_get_def net_def [abs_def])
    obtain res1 where r: "r = None \<or> r = Some ClientErrJobExists"
      and rest: "SubmitAll (deliver_submit ps en) (deliver_get ps en) jobs res1 sv1 = ((res', None), sv')"
      and res1: "set (bs_Submitted res1) \<subseteq> set (bs_Submitted res) \<union> (if r = None then {job_ID job} else {})"
      using Cons.prems(1) sub get
      by (auto split: option.splits client_error.splits prod.splits sum.splits intro: that)
    have j: "job_ID job \<noteq> []" "job_IdempotencyKey job \<noteq> []" using Cons.prems(3) by auto
    note d = deliver_submit_settles [OF Cons.prems(2) j sub r]
    have ih: "(\<exists>cs. mem_run (ps_unicode ps) (sv_repo sv1) cs (sv_repo sv') \<and> (\<forall>c \<in> set cs. submission_call c))
      \<and> svc_wf sv' \<and> (\<forall>job \<in> set jobs. settled ps job (sv_repo sv'))
      \<and> set (bs_Submitted res') \<subseteq> set (bs_Submitted res1) \<union> {job_ID job | job. job \<in> set jobs \<and> registered job (sv_repo sv')}"
      by (rule Cons.IH [OF rest d(3)]) (use Cons.prems(3) in simp)
    then obtain cs where cs: "mem_run (ps_unicode ps) (sv_repo sv1) cs (sv_repo sv')" "\<forall>c \<in> set cs. submission_call c" by blast
    have wf1: "mem_wf (sv_repo sv1)" using d(3) by (simp add: svc_wf_def)
    have spare: "\<forall>c \<in> set cs. spares_key (job_IdempotencyKey job) c"
      using cs(2) submission_call_spares by blast
    have job: "settled ps job (sv_repo sv')" "r = None \<Longrightarrow> registered job (sv_repo sv')"
      using settled_run [OF wf1 cs(1) spare] d(1,2) by blast+
    have run: "mem_run (ps_unicode ps) (sv_repo sv) (CSubmitIdempotent (en_clk (en (job_ID job))) job # cs) (sv_repo sv')"
      using cs(1) d(4) by (simp add: mem_run_exec)
    have calls: "\<forall>c \<in> set (CSubmitIdempotent (en_clk (en (job_ID job))) job # cs). submission_call c"
      using cs(2) by (simp add: submission_call_def)
    have "set (bs_Submitted res1) \<subseteq> set (bs_Submitted res) \<union> {job_ID k | k. k \<in> set (job # jobs) \<and> registered k (sv_repo sv')}"
      using res1 job(2) by (cases "r = None") auto
    moreover have "set (bs_Submitted res') \<subseteq> set (bs_Submitted res1) \<union> {job_ID k | k. k \<in> set (job # jobs) \<and> registered k (sv_repo sv')}"
      using ih by auto
    ultimately have "set (bs_Submitted res') \<subseteq> set (bs_Submitted res) \<union> {job_ID k | k. k \<in> set (job # jobs) \<and> registered k (sv_repo sv')}"
      by blast
    with ih job(1) run calls show ?case by (metis set_ConsD)
  qed
  then show "\<exists>cs. mem_run (ps_unicode ps) (sv_repo sv) cs (sv_repo sv') \<and> (\<forall>c \<in> set cs. submission_call c)"
    and "svc_wf sv'" and "\<forall>job \<in> set jobs. settled ps job (sv_repo sv')"
    and "set (bs_Submitted res') \<subseteq> set (bs_Submitted res) \<union> {job_ID job | job. job \<in> set jobs \<and> registered job (sv_repo sv')}"
    by blast+
qed

lemma SubmitAll_replay:
  assumes "svc_wf sv" and "\<forall>job \<in> set jobs. job_ID job \<noteq> [] \<and> job_ID job \<noteq> ''depth'' \<and> job_IdempotencyKey job \<noteq> []"
    and "\<forall>job \<in> set jobs. settled ps job (sv_repo sv)"
  shows "\<exists>sv'. SubmitAll (deliver_submit ps en) (deliver_get ps en) jobs res sv =
      ((\<lparr> bs_Submitted = bs_Submitted res @ map job_ID (filter (\<lambda>job. registered job (sv_repo sv)) jobs),
          bs_Existing = bs_Existing res @ map job_ID (filter (\<lambda>job. \<not> registered job (sv_repo sv)) jobs) \<rparr>, None), sv')
    \<and> sv_repo sv' = sv_repo sv"
  using assms
proof (induction jobs arbitrary: res sv)
  case (Cons job jobs)
  then have j: "job_ID job \<noteq> []" "job_ID job \<noteq> ''depth''" "job_IdempotencyKey job \<noteq> []" "settled ps job (sv_repo sv)" by auto
  obtain sv1 where sub: "deliver_submit ps en job sv = (if registered job (sv_repo sv) then None else Some ClientErrJobExists, sv1)"
    and same: "sv_repo sv1 = sv_repo sv" and wf1: "svc_wf sv1"
    and there: "\<not> registered job (sv_repo sv) \<longrightarrow> job_ID job \<in> dom (r_jobs (sv_repo sv))"
    using settled_replay [OF Cons.prems(1) j(1,3,4)] by blast
  have get: "\<not> registered job (sv_repo sv) \<Longrightarrow> \<exists>row. deliver_get ps en (job_ID job) sv1 = (Inr (Some row), sv1)"
    using qc_Get_delivered [OF j(2), of ps "en (job_ID job)" "\<lambda>sv. sv" sv1] there same
    by (auto simp: deliver_get_def net_def [abs_def] Get_def)
  have settled: "\<forall>job \<in> set jobs. settled ps job (sv_repo sv1)" using Cons.prems(3) same by simp
  have rest: "\<exists>sv'. SubmitAll (deliver_submit ps en) (deliver_get ps en) jobs r sv1 =
      ((\<lparr> bs_Submitted = bs_Submitted r @ map job_ID (filter (\<lambda>job. registered job (sv_repo sv)) jobs),
          bs_Existing = bs_Existing r @ map job_ID (filter (\<lambda>job. \<not> registered job (sv_repo sv)) jobs) \<rparr>, None), sv')
    \<and> sv_repo sv' = sv_repo sv" for r
    using Cons.IH [OF wf1 _ settled, of r] Cons.prems(2) same by simp
  show ?case
  proof (cases "registered job (sv_repo sv)")
    case True
    then show ?thesis using rest [of "res\<lparr> bs_Submitted := bs_Submitted res @ [job_ID job] \<rparr>"] sub by simp
  next
    case False
    then obtain row where "deliver_get ps en (job_ID job) sv1 = (Inr (Some row), sv1)" using get by blast
    then show ?thesis using rest [of "res\<lparr> bs_Existing := bs_Existing res @ [job_ID job] \<rparr>"] sub False by simp
  qed
qed simp

definition no_result :: Result where "no_result = \<lparr> bs_Submitted = [], bs_Existing = [] \<rparr>"

text \<open>
  C17. Replaying a batch changes nothing. When a manifest has been submitted to the end, let other clients
  make any calls but batch submissions (\<open>SubmitBatch\<close>) that use one of its keys. Then submitting it
  again, over a network that delivers, succeeds, leaves the queue as it is and reports every job. The
  jobs the first run had enqueued are reported as submitted again: the comment of the result
  (batch.go) promises to count them as existing.
\<close>

theorem batch_replay_changes_nothing:
  assumes "svc_wf sv" and "Expand sha isObject m = Inr jobs" and "\<forall>x. sha x \<noteq> []"
    and "SubmitAll (deliver_submit ps en) (deliver_get ps en) jobs no_result sv = ((res1, None), sv1)"
    and "mem_run (ps_unicode ps) (sv_repo sv1) cs (sv_repo sv2)" and "svc_wf sv2"
    and "\<forall>c \<in> set cs. \<forall>job \<in> set jobs. spares_key (job_IdempotencyKey job) c"
  shows "\<exists>res2 sv3. SubmitAll (deliver_submit ps en') (deliver_get ps en') jobs no_result sv2 = ((res2, None), sv3)
    \<and> sv_repo sv3 = sv_repo sv2
    \<and> set (bs_Submitted res2) \<union> set (bs_Existing res2) = job_ID ` set jobs
    \<and> set (bs_Submitted res1) \<subseteq> set (bs_Submitted res2)"
proof -
  have jobs: "\<forall>job \<in> set jobs. job_ID job \<noteq> [] \<and> job_ID job \<noteq> ''depth'' \<and> job_IdempotencyKey job \<noteq> []"
    using Expand_batch_jobs [OF assms(2,3)] by (simp add: batch_jobs_def)
  note first = SubmitAll_settles [OF assms(4,1) jobs]
  have wf1: "mem_wf (sv_repo sv1)" using first(2) by (simp add: svc_wf_def)
  have keep: "registered job (sv_repo sv1) \<Longrightarrow> registered job (sv_repo sv2)"
    "settled ps job (sv_repo sv1) \<Longrightarrow> settled ps job (sv_repo sv2)" if "job \<in> set jobs" for job
    using settled_run [OF wf1 assms(5), of job] assms(7) that by blast+
  obtain sv3 where replay: "SubmitAll (deliver_submit ps en') (deliver_get ps en') jobs no_result sv2 =
      ((\<lparr> bs_Submitted = map job_ID (filter (\<lambda>job. registered job (sv_repo sv2)) jobs),
          bs_Existing = map job_ID (filter (\<lambda>job. \<not> registered job (sv_repo sv2)) jobs) \<rparr>, None), sv3)"
    and same: "sv_repo sv3 = sv_repo sv2"
    using SubmitAll_replay [OF assms(6) jobs, of ps en' no_result] first(3) keep(2) by (auto simp: no_result_def)
  have "set (bs_Submitted res1) \<subseteq> {job_ID job | job. job \<in> set jobs \<and> registered job (sv_repo sv2)}"
    using first(4) keep(1) by (auto simp: no_result_def)
  moreover have "job_ID ` {j \<in> set jobs. registered j (sv_repo sv2)} \<union> job_ID ` {j \<in> set jobs. \<not> registered j (sv_repo sv2)} = job_ID ` set jobs"
    by blast
  ultimately show ?thesis using replay same by (auto simp: image_def)
qed

definition sample_manifest :: Manifest where
  "sample_manifest = \<lparr> mf_Schema = SchemaBatchManifestV1, mf_BatchID = ''k'',
     mf_Jobs = [\<lparr> fj_ID = ''t'', fj_RenderPlan = ''{}'', fj_Assets = [] \<rparr>] \<rparr>"

definition sample_batch_job :: "bytes \<Rightarrow> Job" where
  "sample_batch_job plan = queue_job (\<lambda>x. ''h'' @ x) ''k'' ''t'' [] [] plan []"

lemma sample_expand: "Expand (\<lambda>x. ''h'' @ x) (\<lambda>_. True) sample_manifest = Inr [sample_batch_job ''{}'']"
  by (simp add: Expand_def sample_manifest_def TrimSpace_singletons validatePlanShape_def validateAssets_def sample_batch_job_def)

lemma sample_batch_job_ok:
  "ValidateJobEnvelope (\<lambda>_. True) (sample_batch_job plan) = Inr ()"
  "validateSubmittedJob U (\<lambda>_. True) (sample_batch_job plan) = Inr ()"
  "ValidateChunk U (sample_batch_job plan) = Inr ()"
  "job_ID (sample_batch_job plan) = ''k:t''" "job_IdempotencyKey (sample_batch_job plan) \<noteq> []"
  by (simp_all add: sample_batch_job_def queue_job_def zero_job_def jobID_def ValidateJobEnvelope_def validateSubmittedJob_def
      ValidateChunk_def ValidateJobMetadata_def ValidateJobID_def id_ascii_ok_def RuneSelf_def JobSchemaV1_def
      JobSchemaVersionV1_def idempotencyKey_def)

lemma sample_first_run:
  "\<exists>sv1. SubmitAll (deliver_submit sample_process (\<lambda>_. sample_env)) (deliver_get sample_process (\<lambda>_. sample_env))
      [sample_batch_job plan] no_result fresh_service = ((\<lparr> bs_Submitted = [''k:t''], bs_Existing = [] \<rparr>, None), sv1)
    \<and> svc_wf sv1 \<and> (\<exists>row. r_jobs (sv_repo sv1) ''k:t'' = Some row) \<and> dom (r_idem (sv_repo sv1)) = {job_IdempotencyKey (sample_batch_job plan)}"
proof -
  let ?job = "sample_batch_job plan"
  have wf: "svc_wf fresh_service" by (simp add: svc_wf_def fresh_service_def mem_wf_New NewNotifier_wf)
  have ps: "ps_jsonValid sample_process = (\<lambda>_. True)" by (simp add: sample_process_def)
  let ?r = "svc_SubmitIdempotent (ps_unicode sample_process) 70 ?job fresh_service"
  have idem: "SubmitIdempotent (ps_unicode sample_process) 70 ?job (New 10 3) =
      (Inr (?job\<lparr> job_State := StatePending, job_CreatedAt := 70, job_QueuedAt := 70 \<rparr>, True),
       set_idem ?job (insertLocked ?job 70 (New 10 3)))"
    by (simp add: SubmitIdempotent_def sample_batch_job_ok idem_hit_def New_def)
  have sub: "deliver_submit sample_process (\<lambda>_. sample_env) ?job fresh_service = (None, snd ?r)"
    using qc_Submit_delivered [where ps = sample_process and job = ?job and en = sample_env and sv = fresh_service]
    by (simp add: deliver_submit_def ps sample_batch_job_ok sample_env_def svc_SubmitIdempotent_def fresh_service_def idem)
  have repo: "sv_repo (snd ?r) = set_idem ?job (insertLocked ?job 70 (New 10 3))"
    by (simp add: svc_SubmitIdempotent_repo sample_batch_job_ok fresh_service_def idem)
  have "dom (r_idem (sv_repo (snd ?r))) = {job_IdempotencyKey ?job}"
    using sample_batch_job_ok(5) by (simp add: repo set_idem_def insertLocked_def New_def Let_def)
  moreover have "r_jobs (sv_repo (snd ?r)) ''k:t'' \<noteq> None" by (simp add: repo sample_batch_job_ok)
  ultimately show ?thesis
    using sub svc_ops_wf(2) [OF wf, of "ps_unicode sample_process" 70 ?job] by (simp add: no_result_def sample_batch_job_ok)
qed

theorem batch_replay_changes_nothing_witness:
  "\<exists>res sv1 sv3. SubmitAll (deliver_submit sample_process (\<lambda>_. sample_env)) (deliver_get sample_process (\<lambda>_. sample_env))
      [sample_batch_job ''{}''] no_result fresh_service = ((\<lparr> bs_Submitted = [''k:t''], bs_Existing = [] \<rparr>, None), sv1)
    \<and> SubmitAll (deliver_submit sample_process (\<lambda>_. sample_env)) (deliver_get sample_process (\<lambda>_. sample_env))
        [sample_batch_job ''{}''] no_result sv1 = ((res, None), sv3)
    \<and> ''k:t'' \<in> set (bs_Submitted res) \<and> sv_repo sv3 = sv_repo sv1"
proof -
  obtain sv1 where first: "SubmitAll (deliver_submit sample_process (\<lambda>_. sample_env)) (deliver_get sample_process (\<lambda>_. sample_env))
      [sample_batch_job ''{}''] no_result fresh_service = ((\<lparr> bs_Submitted = [''k:t''], bs_Existing = [] \<rparr>, None), sv1)"
    and wf1: "svc_wf sv1"
    using sample_first_run by blast
  have wf: "svc_wf fresh_service" by (simp add: svc_wf_def fresh_service_def mem_wf_New NewNotifier_wf)
  have run: "mem_run (ps_unicode sample_process) (sv_repo sv1) [] (sv_repo sv1)" by (simp add: mem_run_exec)
  from batch_replay_changes_nothing [OF wf sample_expand _ first run wf1, of "\<lambda>_. sample_env"] first
  show ?thesis by auto
qed

text \<open>
  An edited plan under the same batch and logical id gets a new idempotency key but the old job id.
  The queue refuses the id, and the submission reports the job as existing: it succeeds, the queue
  does not change, and the edited plan is not rendered.
\<close>

theorem edited_plan_is_reported_as_existing:
  assumes "svc_wf sv" and "r_jobs (sv_repo sv) (jobID b l) = Some row"
    and "job = queue_job sha b l t p plan assets" and "\<forall>x. sha x \<noteq> []"
    and "ValidateJobEnvelope (ps_jsonValid ps) job = Inr ()"
    and "validateSubmittedJob (ps_unicode ps) (ps_jsonValid ps) job = Inr ()"
    and "r_idem (sv_repo sv) (job_IdempotencyKey job) = None"
  shows "\<exists>sv'. SubmitAll (deliver_submit ps en) (deliver_get ps en) [job] no_result sv =
      ((\<lparr> bs_Submitted = [], bs_Existing = [jobID b l] \<rparr>, None), sv')
    \<and> sv_repo sv' = sv_repo sv \<and> r_jobs (sv_repo sv') (jobID b l) = Some row"
proof -
  have nr: "\<not> registered job (sv_repo sv)" using assms(7) by (simp add: registered_def)
  have "settled ps job (sv_repo sv)" using assms(2,3,5,6) by (auto simp: settled_def)
  then show ?thesis
    using SubmitAll_replay [OF assms(1), of "[job]" ps en no_result] nr assms(2,3,4)
    by (auto simp: jobID_facts idempotencyKey_def no_result_def)
qed

theorem edited_plan_is_reported_as_existing_witness:
  "\<exists>sv1 sv2. SubmitAll (deliver_submit sample_process (\<lambda>_. sample_env)) (deliver_get sample_process (\<lambda>_. sample_env))
      [sample_batch_job ''{}''] no_result fresh_service = ((\<lparr> bs_Submitted = [''k:t''], bs_Existing = [] \<rparr>, None), sv1)
    \<and> SubmitAll (deliver_submit sample_process (\<lambda>_. sample_env)) (deliver_get sample_process (\<lambda>_. sample_env))
        [sample_batch_job ''{1}''] no_result sv1 = ((\<lparr> bs_Submitted = [], bs_Existing = [''k:t''] \<rparr>, None), sv2)"
proof -
  have jid: "jobID ''k'' ''t'' = ''k:t''" by (simp add: jobID_def)
  obtain sv1 row where first: "SubmitAll (deliver_submit sample_process (\<lambda>_. sample_env)) (deliver_get sample_process (\<lambda>_. sample_env))
      [sample_batch_job ''{}''] no_result fresh_service = ((\<lparr> bs_Submitted = [''k:t''], bs_Existing = [] \<rparr>, None), sv1)"
    and wf1: "svc_wf sv1" and row: "r_jobs (sv_repo sv1) (jobID ''k'' ''t'') = Some row"
    and keys: "dom (r_idem (sv_repo sv1)) = {job_IdempotencyKey (sample_batch_job ''{}'')}"
    using sample_first_run [of "''{}''"] unfolding jid by blast
  have "job_IdempotencyKey (sample_batch_job ''{1}'') \<noteq> job_IdempotencyKey (sample_batch_job ''{}'')"
    by (simp add: sample_batch_job_def idempotencyKey_def key_preimage_def)
  then have none: "r_idem (sv_repo sv1) (job_IdempotencyKey (sample_batch_job ''{1}'')) = None" using keys by blast
  have ok: "ValidateJobEnvelope (ps_jsonValid sample_process) (sample_batch_job ''{1}'') = Inr ()"
    "validateSubmittedJob (ps_unicode sample_process) (ps_jsonValid sample_process) (sample_batch_job ''{1}'') = Inr ()"
    using sample_batch_job_ok by (simp_all add: sample_process_def)
  from edited_plan_is_reported_as_existing [OF wf1 row sample_batch_job_def _ ok none, of "\<lambda>_. sample_env"] first
  show ?thesis by (auto simp: jobID_def)
qed

text \<open>Two batches can collide: a job id does not determine its batch when identifiers contain a colon.\<close>

lemma batches_can_collide: "jobID ''a:b'' ''c'' = jobID ''a'' ''b:c''"
  by (simp add: jobID_def)

section \<open>Overlay waves\<close>

text \<open>
  Binding drops the base job and keeps every overlay job's identity and parent; each bound job has
  the base artifact among its assets and a key over its final content.
\<close>

lemma bind_jobs_Inr:
  "bind_jobs sha patch b jobs base = Inr out \<Longrightarrow>
     map job_ID out = map job_ID (filter (\<lambda>j. job_ParentJobID j \<noteq> []) jobs)
     \<and> (\<forall>j \<in> set out. job_ParentJobID j \<noteq> []
          \<and> last (job_Assets j) = \<lparr> ar_Hash = bo_ArtifactHash base, ar_LogicalPath = SourceBindLogicalPath, ar_SourceURL = [] \<rparr>
          \<and> job_IdempotencyKey j = idempotencyKey sha b (after_colon (job_ID j)) (job_RenderPlan j) (job_Assets j))"
proof (induction jobs arbitrary: out)
  case (Cons j js)
  show ?case
  proof (cases "job_ParentJobID j = []")
    case True
    then show ?thesis using Cons by simp
  next
    case False
    with Cons.prems obtain patched rest where p: "patch (job_RenderPlan j) (bo_ArtifactHash base) = Inr patched"
      and rest: "bind_jobs sha patch b js base = Inr rest"
      by (auto simp: Let_def split: sum.splits)
    show ?thesis using Cons.prems Cons.IH [OF rest] False p rest by (auto simp: Let_def)
  qed
qed simp

text \<open>The decoded source block of a patched plan names the base artifact, every other member is kept.\<close>

lemma overlayPlanSourcePatch_source:
  assumes codec: "\<And>m bs. enc m = Some bs \<Longrightarrow> dec bs = Some m"
    and "overlayPlanSourcePatch dec enc plan h = Inr out" and "dec plan = Some doc"
  shows "\<exists>doc' raw source. dec out = Some doc' \<and> doc' ''source'' = Some raw \<and> dec raw = Some source
    \<and> source ''sha256'' = Some (quoted h) \<and> source ''asset_id'' = Some (quoted ''bound_base'')
    \<and> (\<forall>k. k \<noteq> ''source'' \<longrightarrow> doc' k = doc k)"
  using assms(2,3)
  by (auto simp: overlayPlanSourcePatch_def dest!: codec split: option.splits if_splits)

end
