(* ===== verification/Go_Path.thy ===== *)
theory Go_Path
  imports Prelude
begin

text \<open>
  The lexical path functions of Go's \<open>path/filepath\<close> on Unix that the sources call: \<open>Clean\<close>,
  \<open>Join\<close>, \<open>Rel\<close>, \<open>Dir\<close>, \<open>Base\<close> and \<open>IsAbs\<close>. A cleaned path is described by whether it is rooted and by the
  list of its elements; \<open>render\<close> writes it.
\<close>

section \<open>Elements of a path\<close>

text \<open>\<open>strings.Split(s, "/")\<close> and \<open>strings.Join(segs, "/")\<close>.\<close>

fun split_slash :: "string \<Rightarrow> string list" where
  "split_slash [] = [[]]"
| "split_slash (c # cs) =
     (if c = CHR ''/'' then [] # split_slash cs
      else case split_slash cs of seg # segs \<Rightarrow> (c # seg) # segs | [] \<Rightarrow> [[c]])"

fun join_slash :: "string list \<Rightarrow> string" where
  "join_slash [] = []"
| "join_slash [s] = s"
| "join_slash (s # ss) = s @ CHR ''/'' # join_slash ss"

definition IsAbs :: "string \<Rightarrow> bool" where
  "IsAbs p \<longleftrightarrow> take 1 p = ''/''"

text \<open>One element of the path; the elements kept so far come last first.\<close>

definition clean_step :: "bool \<Rightarrow> string list \<Rightarrow> string \<Rightarrow> string list" where
  "clean_step rooted out seg =
     (if seg = [] \<or> seg = ''.'' then out
      else if seg = ''..'' then
        (case out of
           [] \<Rightarrow> if rooted then [] else [''..'']
         | s # rest \<Rightarrow> if s = ''..'' then ''..'' # out else rest)
      else seg # out)"

definition clean_segs :: "bool \<Rightarrow> string list \<Rightarrow> string list" where
  "clean_segs rooted segs = rev (foldl (clean_step rooted) [] segs)"

definition render :: "bool \<Rightarrow> string list \<Rightarrow> string" where
  "render rooted segs =
     (if rooted then CHR ''/'' # join_slash segs else if segs = [] then ''.'' else join_slash segs)"

definition path_segs :: "string \<Rightarrow> string list" where
  "path_segs p = clean_segs (IsAbs p) (split_slash p)"

definition path_Clean :: "string \<Rightarrow> string" where
  "path_Clean p = render (IsAbs p) (path_segs p)"

definition path_Join :: "string list \<Rightarrow> string" where
  "path_Join elems =
     (case filter (\<lambda>e. e \<noteq> []) elems of [] \<Rightarrow> [] | es \<Rightarrow> path_Clean (join_slash es))"

text \<open>\<open>Rel\<close> works on the elements of the cleaned paths; the base \<open>.\<close> has none.\<close>

fun drop_common :: "string list \<Rightarrow> string list \<Rightarrow> string list \<times> string list" where
  "drop_common (b # bs) (t # ts) = (if b = t then drop_common bs ts else (b # bs, t # ts))"
| "drop_common bs ts = (bs, ts)"

definition elements :: "string \<Rightarrow> string list" where
  "elements p = filter (\<lambda>s. s \<noteq> []) (split_slash p)"

definition path_Rel :: "string \<Rightarrow> string \<Rightarrow> string option" where
  "path_Rel basepath targpath =
     (let base = path_Clean basepath; targ = path_Clean targpath in
      if targ = base then Some ''.''
      else if IsAbs base \<noteq> IsAbs targ then None
      else
        (let (bs, ts) = drop_common (if base = ''.'' then [] else elements base) (elements targ) in
         if bs \<noteq> [] \<and> hd bs = ''..'' then None
         else Some (join_slash (replicate (length bs) ''..'' @ ts))))"

definition path_Dir :: "string \<Rightarrow> string" where
  "path_Dir p = path_Clean (join_slash (butlast (split_slash p)) @ (if length (split_slash p) > 1 then ''/'' else []))"

definition path_Base :: "string \<Rightarrow> string" where
  "path_Base p = (if p = [] then ''.'' else if elements p = [] then ''/'' else last (elements p))"

section \<open>Splitting and joining\<close>

lemma split_slash_nonempty [simp]: "split_slash p \<noteq> []"
  by (cases p) (auto split: list.splits)

lemma split_slash_no_slash: "s \<in> set (split_slash p) \<Longrightarrow> CHR ''/'' \<notin> set s"
proof (induction p arbitrary: s)
  case (Cons c p)
  then show ?case by (cases "split_slash p") (auto split: if_splits)
qed simp

lemma split_slash_plain: "CHR ''/'' \<notin> set s \<Longrightarrow> split_slash s = [s]"
  by (induction s) auto

lemma split_slash_append: "CHR ''/'' \<notin> set s \<Longrightarrow> split_slash (s @ CHR ''/'' # p) = s # split_slash p"
  by (induction s) auto

lemma split_join:
  "segs \<noteq> [] \<Longrightarrow> \<forall>s \<in> set segs. CHR ''/'' \<notin> set s \<Longrightarrow> split_slash (join_slash segs) = segs"
  by (induction segs rule: join_slash.induct) (auto simp: split_slash_plain split_slash_append)

lemma join_slash_Cons: "join_slash (s # ss) = (if ss = [] then s else s @ CHR ''/'' # join_slash ss)"
  by (cases ss) auto

lemma split_join_append:
  "\<forall>s \<in> set segs. CHR ''/'' \<notin> set s \<Longrightarrow> segs \<noteq> [] \<Longrightarrow>
     split_slash (join_slash segs @ CHR ''/'' # p) = segs @ split_slash p"
  by (induction segs rule: join_slash.induct) (auto simp: split_slash_append)

section \<open>Clean paths\<close>

text \<open>
  The elements of a clean path: nothing empty, no \<open>.\<close>, and \<open>..\<close> only in front of a path that is not
  rooted.
\<close>

definition plain_seg :: "string \<Rightarrow> bool" where
  "plain_seg s \<longleftrightarrow> s \<noteq> [] \<and> s \<noteq> ''.'' \<and> s \<noteq> ''..'' \<and> CHR ''/'' \<notin> set s"

definition normal :: "bool \<Rightarrow> string list \<Rightarrow> bool" where
  "normal rooted segs \<longleftrightarrow>
     (\<exists>n us. segs = replicate n ''..'' @ us \<and> (\<forall>s \<in> set us. plain_seg s) \<and> (rooted \<longrightarrow> n = 0))"

lemma normal_plain: "(\<forall>s \<in> set us. plain_seg s) \<Longrightarrow> normal rooted us"
  unfolding normal_def by (rule exI [of _ 0]) auto

lemma normal_rooted_iff: "normal True us \<longleftrightarrow> (\<forall>s \<in> set us. plain_seg s)"
  by (auto simp: normal_def)

lemma normal_no_slash: "normal rooted segs \<Longrightarrow> s \<in> set segs \<Longrightarrow> s \<noteq> [] \<and> CHR ''/'' \<notin> set s \<and> s \<noteq> ''.''"
proof -
  assume "normal rooted segs" and "s \<in> set segs"
  then have "s = ''..'' \<or> plain_seg s" unfolding normal_def by (metis Un_iff in_set_replicate set_append)
  then show ?thesis by (elim disjE) (simp_all add: plain_seg_def)
qed

lemma not_plain_dots [simp]: "\<not> plain_seg ''..''" "\<not> plain_seg ''.''" "\<not> plain_seg []"
  by (auto simp: plain_seg_def)

lemma normal_snoc_iff:
  "normal rooted (segs @ [s]) \<longleftrightarrow>
     normal rooted segs \<and> (plain_seg s \<or> s = ''..'' \<and> \<not> rooted \<and> (\<forall>x \<in> set segs. x = ''..''))"
proof
  assume "normal rooted (segs @ [s])"
  then obtain n us where *: "segs @ [s] = replicate n ''..'' @ us" "\<forall>s \<in> set us. plain_seg s" "rooted \<longrightarrow> n = 0"
    by (auto simp: normal_def)
  show "normal rooted segs \<and> (plain_seg s \<or> s = ''..'' \<and> \<not> rooted \<and> (\<forall>x \<in> set segs. x = ''..''))"
  proof (cases us rule: rev_cases)
    case Nil
    then obtain m where m: "n = Suc m" using * by (cases n) auto
    then have "segs @ [s] = replicate m ''..'' @ [''..'']" using * Nil by (simp add: replicate_append_same)
    then show ?thesis using * m unfolding normal_def by (auto intro: exI [of _ m])
  next
    case (snoc vs v)
    then show ?thesis using * unfolding normal_def by (auto intro: exI [of _ n])
  qed
next
  assume a: "normal rooted segs \<and> (plain_seg s \<or> s = ''..'' \<and> \<not> rooted \<and> (\<forall>x \<in> set segs. x = ''..''))"
  then obtain n us where *: "segs = replicate n ''..'' @ us" "\<forall>s \<in> set us. plain_seg s" "rooted \<longrightarrow> n = 0"
    by (auto simp: normal_def)
  show "normal rooted (segs @ [s])"
  proof (cases "plain_seg s")
    case True
    then show ?thesis using * unfolding normal_def by (intro exI [of _ n] exI [of _ "us @ [s]"]) auto
  next
    case False
    then have "us = []" using a * by (cases us) auto
    then show ?thesis using * a False unfolding normal_def
      by (intro exI [of _ "Suc n"] exI [of _ "[]"]) (auto simp: replicate_append_same)
  qed
qed

lemma clean_step_plain: "plain_seg seg \<Longrightarrow> clean_step rooted out seg = seg # out"
  by (simp add: clean_step_def plain_seg_def)

lemma clean_step_dots:
  "clean_step rooted [] ''..'' = (if rooted then [] else [''..''])"
  "clean_step rooted (s # rest) ''..'' = (if s = ''..'' then ''..'' # s # rest else rest)"
  by (simp_all add: clean_step_def)

lemma normal_Nil [simp]: "normal rooted []"
  by (simp add: normal_plain)

lemma clean_step_normal:
  assumes "normal rooted (rev out)" and "CHR ''/'' \<notin> set seg"
  shows "normal rooted (rev (clean_step rooted out seg))"
proof -
  consider "seg = [] \<or> seg = ''.''" | "seg = ''..''" | "plain_seg seg" using assms(2) unfolding plain_seg_def by blast
  then show ?thesis
  proof cases
    case 1
    then show ?thesis using assms(1) by (simp add: clean_step_def)
  next
    case 2
    show ?thesis
    proof (cases out)
      case Nil
      then show ?thesis using 2 normal_snoc_iff [of rooted "[]" "''..''"] by (cases rooted) (simp_all add: clean_step_dots)
    next
      case (Cons s rest)
      have n: "normal rooted (rev rest)" "plain_seg s \<or> s = ''..'' \<and> \<not> rooted \<and> (\<forall>x \<in> set rest. x = ''..'')"
        using assms(1) Cons by (simp_all add: normal_snoc_iff)
      show ?thesis
      proof (cases "s = ''..''")
        case True
        then have "normal rooted ((rev rest @ [s]) @ [''..''])"
          unfolding normal_snoc_iff using n by auto
        then show ?thesis using 2 Cons True by (simp add: clean_step_dots)
      next
        case False
        then show ?thesis using 2 Cons n by (simp add: clean_step_dots)
      qed
    qed
  next
    case 3
    then show ?thesis using assms(1) by (simp add: clean_step_plain normal_snoc_iff)
  qed
qed

lemma clean_segs_normal:
  assumes "\<forall>s \<in> set segs. CHR ''/'' \<notin> set s"
  shows "normal rooted (clean_segs rooted segs)"
proof -
  have "normal rooted (rev (foldl (clean_step rooted) out segs))" if "normal rooted (rev out)" for out
    using assms that by (induction segs arbitrary: out) (auto simp: clean_step_normal)
  then show ?thesis by (simp add: clean_segs_def normal_plain)
qed

lemma foldl_plain: "\<forall>s \<in> set us. plain_seg s \<Longrightarrow> foldl (clean_step rooted) out us = rev us @ out"
  by (induction us arbitrary: out) (auto simp: clean_step_def)

lemma foldl_dots: "\<forall>x \<in> set out. x = ''..'' \<Longrightarrow> foldl (clean_step False) out (replicate n ''..'') = replicate n ''..'' @ out"
proof (induction n arbitrary: out)
  case (Suc n)
  then have "clean_step False out ''..'' = ''..'' # out" by (cases out) (auto simp: clean_step_def)
  then show ?case using Suc by (simp add: replicate_app_Cons_same)
qed simp

lemma clean_segs_of_normal:
  assumes "normal rooted segs" shows "clean_segs rooted segs = segs"
proof -
  from assms obtain n us where *: "segs = replicate n ''..'' @ us" "\<forall>s \<in> set us. plain_seg s" "rooted \<longrightarrow> n = 0"
    by (auto simp: normal_def)
  then have "foldl (clean_step rooted) [] (replicate n ''..'') = replicate n ''..''"
    using foldl_dots [of "[]" n] by (cases rooted) auto
  then show ?thesis using * by (simp add: clean_segs_def foldl_plain)
qed

lemma clean_segs_append_plain:
  "\<forall>s \<in> set us. plain_seg s \<Longrightarrow> clean_segs rooted (segs @ us) = clean_segs rooted segs @ us"
  by (simp add: clean_segs_def foldl_plain)

lemma clean_segs_drop_empty: "clean_segs rooted ([] # segs) = clean_segs rooted segs"
  by (simp add: clean_segs_def clean_step_def)

lemma path_segs_normal: "normal (IsAbs p) (path_segs p)"
  unfolding path_segs_def by (rule clean_segs_normal) (auto dest: split_slash_no_slash)

lemma join_slash_IsAbs: "segs \<noteq> [] \<Longrightarrow> normal rooted segs \<Longrightarrow> \<not> IsAbs (join_slash segs)"
  by (cases segs; cases "hd segs")
    (auto simp: IsAbs_def join_slash_Cons dest!: normal_no_slash [of _ _ "hd segs"] split: if_splits)

lemma IsAbs_render [simp]: "normal rooted segs \<Longrightarrow> IsAbs (render rooted segs) = rooted"
  using join_slash_IsAbs [of segs rooted] by (cases "segs = []") (auto simp: render_def IsAbs_def)

lemma split_render_rooted:
  "normal True segs \<Longrightarrow> split_slash (render True segs) = [] # (if segs = [] then [[]] else segs)"
  using split_join [of segs] normal_no_slash [of True segs] by (auto simp: render_def)

lemma path_segs_render [simp]: "normal rooted segs \<Longrightarrow> path_segs (render rooted segs) = segs"
proof (cases rooted)
  case True
  assume n: "normal rooted segs"
  have "clean_segs True ([] # (if segs = [] then [[]] else segs)) = segs"
    using n True by (cases "segs = []") (simp_all add: clean_segs_drop_empty clean_segs_of_normal)
  then show ?thesis using n True by (simp add: path_segs_def split_render_rooted)
next
  case False
  assume n: "normal rooted segs"
  show ?thesis
  proof (cases "segs = []")
    case True
    then show ?thesis using False by (simp add: path_segs_def render_def IsAbs_def clean_segs_def clean_step_def)
  next
    case ne: False
    then have "split_slash (join_slash segs) = segs" using split_join normal_no_slash [OF n] by blast
    then show ?thesis using n ne False IsAbs_render [OF n] by (simp add: path_segs_def render_def clean_segs_of_normal)
  qed
qed

theorem path_Clean_idempotent: "path_Clean (path_Clean p) = path_Clean p"
  using path_segs_normal [of p] by (simp add: path_Clean_def)

lemma path_Clean_render: "normal rooted segs \<Longrightarrow> path_Clean (render rooted segs) = render rooted segs"
  by (simp add: path_Clean_def)

lemma render_inj: "normal r segs \<Longrightarrow> normal r' segs' \<Longrightarrow> render r segs = render r' segs' \<longleftrightarrow> r = r' \<and> segs = segs'"
  using IsAbs_render path_segs_render by (intro iffI conjI) (fastforce dest: arg_cong [where f = IsAbs] arg_cong [where f = path_segs])+

lemma elements_render: "normal True segs \<Longrightarrow> elements (render True segs) = segs"
  using normal_no_slash [of True segs] by (auto simp: elements_def split_render_rooted intro!: filter_True)

section \<open>Joining below a rooted path\<close>

lemma path_Join_below:
  assumes "normal True rs" and "\<forall>s \<in> set us. plain_seg s"
  shows "path_Join [render True rs, render False us] = render True (rs @ us)"
proof -
  have ne: "render True rs \<noteq> []" "render False us \<noteq> []" using assms(2) by (cases us; auto simp: render_def join_slash_Cons)+
  have abs: "IsAbs (render True rs @ CHR ''/'' # render False us)" by (simp add: render_def IsAbs_def)
  have rs: "\<forall>s \<in> set ([] # rs). CHR ''/'' \<notin> set s" using normal_no_slash [OF assms(1)] by auto
  have "render True rs = join_slash ([] # rs) \<or> rs = [] \<and> render True rs = ''/''" by (cases rs) (auto simp: render_def)
  then have "split_slash (render True rs @ CHR ''/'' # p) = [] # (if rs = [] then [[]] else rs) @ split_slash p" for p
    using split_join_append [OF rs, of p] by (cases rs) (auto simp: render_def)
  moreover have "split_slash (render False us) = (if us = [] then [''.''] else us)"
    using split_join [of us] assms(2) by (auto simp: render_def plain_seg_def)
  moreover have "clean_segs True ([] # (if rs = [] then [[]] else rs) @ (if us = [] then [''.''] else us)) = rs @ us"
  proof -
    have base: "clean_segs True ([] # (if rs = [] then [[]] else rs)) = rs"
      using clean_segs_of_normal [OF assms(1)] by (cases "rs = []") (simp_all add: clean_segs_drop_empty)
    show ?thesis
    proof (cases "us = []")
      case True
      then show ?thesis using base by (simp add: clean_segs_def clean_step_def)
    next
      case False
      then show ?thesis using base clean_segs_append_plain [OF assms(2), of True "[] # (if rs = [] then [[]] else rs)"] by simp
    qed
  qed
  ultimately have "path_segs (render True rs @ CHR ''/'' # render False us) = rs @ us"
    using abs by (simp add: path_segs_def)
  then show ?thesis using ne abs by (simp add: path_Join_def path_Clean_def)
qed

lemma drop_common_prefix [simp]: "drop_common rs (rs @ us) = ([], us)"
  by (induction rs) (cases us; auto)+

lemma path_Rel_below:
  assumes "\<forall>s \<in> set rs. plain_seg s" and "\<forall>s \<in> set us. plain_seg s"
  shows "path_Rel (render True rs) (render True (rs @ us)) = Some (render False us)"
proof -
  have n: "normal True rs" "normal True (rs @ us)" using assms by (auto simp: normal_rooted_iff)
  have "render True rs \<noteq> ''.''" by (simp add: render_def)
  then show ?thesis using n
    by (simp add: path_Rel_def Let_def path_Clean_render render_inj elements_render) (simp add: render_def)
qed

end
