(* ===== verification/Schema_Validation.thy ===== *)
theory Schema_Validation
  imports Go_Path
begin

text \<open>
  The JSON Schema validator of the contract tests, \<open>renderinggen/internal/schemaval/schemaval.go\<close>:
  the gate on the keywords of a schema, the validation of a document, and the resolution of local
  references. Schemas and documents are decoded values; regular expressions are the parameter \<open>re\<close>
  (compilation may fail, a compiled pattern is a predicate on strings).
\<close>

section \<open>Decoded values\<close>

text \<open>
  A number is a \<open>float64\<close>; decoding yields finite ones only, and \<open>-0\<close> is a value of its own. An
  object lists its members in the order of their keys, which is the order \<open>sort.Strings\<close> gives and
  the order \<open>json.Marshal\<close> writes; then the canonical encodings of two values are equal exactly when
  the values are.
\<close>

datatype number = Num rat | NegZero

fun num_val :: "number \<Rightarrow> rat" where
  "num_val (Num q) = q"
| "num_val NegZero = 0"

datatype json =
    JNull
  | JBool bool
  | JNum number
  | JStr string
  | JArr "json list"
  | JObj "(string \<times> json) list"

type_synonym schema = "(string \<times> json) list"
type_synonym regexp = "string \<Rightarrow> (string \<Rightarrow> bool) option"


definition deepEqual :: "json \<Rightarrow> json \<Rightarrow> bool" where
  "deepEqual a b \<longleftrightarrow> a = b"

definition num :: "json option \<Rightarrow> rat option" where
  "num v = (case v of Some (JNum n) \<Rightarrow> Some (num_val n) | _ \<Rightarrow> None)"

section \<open>The gate on schemas\<close>

definition knownTypeNames :: "string list" where
  "knownTypeNames = [''object'', ''array'', ''string'', ''number'', ''integer'', ''boolean'', ''null'']"

definition maxRefDepth :: nat where "maxRefDepth = 64"

definition valueKeywords :: "string list" where
  "valueKeywords = [''$ref'', ''type'', ''const'', ''enum'', ''required'', ''minItems'', ''maxItems'', ''uniqueItems'',
     ''minimum'', ''maximum'', ''exclusiveMinimum'', ''exclusiveMaximum'', ''minLength'', ''maxLength'', ''pattern'']"

definition annotationKeywords :: "string list" where
  "annotationKeywords = [''$schema'', ''$id'', ''$anchor'', ''$comment'', ''title'', ''description'', ''default'',
     ''examples'', ''deprecated'', ''readOnly'', ''writeOnly'', ''format'']"

definition singleSubschema :: "string list" where
  "singleSubschema = [''additionalProperties'', ''items'', ''if'', ''then'', ''else'', ''not'']"

definition subschemaArray :: "string list" where "subschemaArray = [''allOf'', ''anyOf'', ''oneOf'']"

definition subschemaMap :: "string list" where "subschemaMap = [''properties'', ''$defs'', ''definitions'']"

text \<open>An entry of the list of problems: where, under which keyword, and what is wrong with it.\<close>

datatype problem =
    UnknownKeyword
  | NotABoolean
  | NotAString
  | UnknownTypeName string
  | EmptyTypeArray
  | TypeElementUnknown
  | TypeShape
  | EnumShape
  | RequiredShape
  | RequiredElement
  | PatternDoesNotCompile
  | NotANumber
  | NotASchema
  | NotASchemaArray
  | NotASchemaMap

datatype location = Key string | Index string nat | Member string string

type_synonym unsupported = "location list \<times> string \<times> problem"

definition is_string :: "json \<Rightarrow> bool" where
  "is_string v = (case v of JStr _ \<Rightarrow> True | _ \<Rightarrow> False)"

definition known_type :: "json \<Rightarrow> bool" where
  "known_type v = (case v of JStr s \<Rightarrow> s \<in> set knownTypeNames | _ \<Rightarrow> False)"

definition check_type_shape :: "json \<Rightarrow> problem list" where
  "check_type_shape raw =
     (case raw of
        JStr value \<Rightarrow> (if value \<notin> set knownTypeNames then [UnknownTypeName value] else [])
      | JArr value \<Rightarrow>
          (if length value = 0 then [EmptyTypeArray] else []) @
          (if list_ex (\<lambda>name. \<not> known_type name) value then [TypeElementUnknown] else [])
      | _ \<Rightarrow> [TypeShape])"

definition check_required_shape :: "json \<Rightarrow> problem list" where
  "check_required_shape raw =
     (case raw of
        JArr list \<Rightarrow> (if list_ex (\<lambda>name. \<not> is_string name) list then [RequiredElement] else [])
      | _ \<Rightarrow> [RequiredShape])"

definition check_pattern_shape :: "regexp \<Rightarrow> json \<Rightarrow> problem list" where
  "check_pattern_shape re raw =
     (case raw of
        JStr pattern \<Rightarrow> (case re pattern of None \<Rightarrow> [PatternDoesNotCompile] | Some _ \<Rightarrow> [])
      | _ \<Rightarrow> [NotAString])"

definition numericKeywords :: "string list" where
  "numericKeywords = [''minimum'', ''maximum'', ''exclusiveMinimum'', ''exclusiveMaximum'', ''minItems'', ''maxItems'',
     ''minLength'', ''maxLength'']"

definition under :: "schema \<Rightarrow> string \<Rightarrow> (json \<Rightarrow> problem list) \<Rightarrow> (string \<times> problem) list" where
  "under m key f = (case map_of m key of None \<Rightarrow> [] | Some raw \<Rightarrow> map (Pair key) (f raw))"

definition checkValueKeywordShapes :: "regexp \<Rightarrow> schema \<Rightarrow> (string \<times> problem) list" where
  "checkValueKeywordShapes re m =
     under m ''uniqueItems'' (\<lambda>raw. case raw of JBool _ \<Rightarrow> [] | _ \<Rightarrow> [NotABoolean]) @
     under m ''$ref'' (\<lambda>raw. if is_string raw then [] else [NotAString]) @
     under m ''type'' check_type_shape @
     under m ''enum'' (\<lambda>raw. case raw of JArr list \<Rightarrow> if length list = 0 then [EnumShape] else [] | _ \<Rightarrow> [EnumShape]) @
     under m ''required'' check_required_shape @
     under m ''pattern'' (check_pattern_shape re) @
     concat (map (\<lambda>key. under m key (\<lambda>raw. case raw of JNum _ \<Rightarrow> [] | _ \<Rightarrow> [NotANumber])) numericKeywords)"

lemma size_member: "(k, v) \<in> set ms \<Longrightarrow> size v < size (JObj ms)"
  by (induction ms) auto

lemma size_element: "x \<in> set xs \<Longrightarrow> size x < size (JArr xs)"
  by (induction xs) auto

lemma size_array_member: "(k, JArr xs) \<in> set ms \<Longrightarrow> x \<in> set xs \<Longrightarrow> size x < size (JObj ms)"
  using size_member size_element by fastforce

lemma size_object_member: "(k, JObj ps) \<in> set ms \<Longrightarrow> (n, x) \<in> set ps \<Longrightarrow> size x < size (JObj ms)"
  by (meson size_member less_trans)

text \<open>
  The walk of \<open>checkSupported\<close>. Only objects are walked; other members of an array or a map of
  schemas are passed over.
\<close>

function walk :: "regexp \<Rightarrow> location list \<Rightarrow> json \<Rightarrow> unsupported list" where
  "walk re loc (JObj m) =
     map (Pair loc) (checkValueKeywordShapes re m) @
     concat (map (\<lambda>(key, value).
       if key \<in> set valueKeywords \<or> key \<in> set annotationKeywords then []
       else if key \<in> set singleSubschema then
         (case value of
            JObj _ \<Rightarrow> walk re (loc @ [Key key]) value
          | JBool _ \<Rightarrow> []
          | _ \<Rightarrow> [(loc, key, NotASchema)])
       else if key \<in> set subschemaArray then
         (case value of
            JArr arr \<Rightarrow> concat (map (\<lambda>(i, item). walk re (loc @ [Index key i]) item) (enumerate 0 arr))
          | _ \<Rightarrow> [(loc, key, NotASchemaArray)])
       else if key \<in> set subschemaMap then
         (case value of
            JObj ps \<Rightarrow> concat (map (\<lambda>(name, item). walk re (loc @ [Member key name]) item) ps)
          | _ \<Rightarrow> [(loc, key, NotASchemaMap)])
       else [(loc, key, UnknownKeyword)]) m)"
| "walk re loc JNull = []"
| "walk re loc (JBool b) = []"
| "walk re loc (JNum n) = []"
| "walk re loc (JStr s) = []"
| "walk re loc (JArr xs) = []"
  by pat_completeness auto
termination
proof (relation "measure (\<lambda>(re, loc, j). size j)", goal_cases)
  case (3 re loc m x a b arr y i item)
  then have "item \<in> set arr" by (metis enumerate_eq_zip in_set_zipE)
  then show ?case using 3 size_array_member [of a arr m item] by simp
qed (auto dest: size_member size_object_member)

definition checkSupported :: "regexp \<Rightarrow> schema \<Rightarrow> unsupported list" where
  "checkSupported re node = walk re [] (JObj node)"

section \<open>References\<close>

datatype schema_error =
    RefTooDeep
  | ExternalRef string
  | RefDoesNotResolve string
  | RefSegmentMissing string string
  | RefNotAnObject string
  | NotEqualConst
  | NotInEnum
  | WrongType
  | NoAnyOfBranch
  | OneOfMatches nat
  | MatchesNot
  | MissingProperty string
  | AdditionalProperty string
  | DuplicateItem nat
  | TooFewItems
  | TooManyItems
  | TooShort
  | TooLong
  | PatternBroken string
  | PatternMismatch string
  | BelowMinimum
  | AboveMaximum
  | NotAboveExclusiveMinimum
  | NotBelowExclusiveMaximum

text \<open>\<open>strings.ReplaceAll\<close> of a tilde followed by \<open>d\<close>.\<close>

fun replace_tilde :: "char \<Rightarrow> char \<Rightarrow> string \<Rightarrow> string" where
  "replace_tilde d r (a # b # cs) =
     (if a = CHR ''~'' \<and> b = d then r # replace_tilde d r cs else a # replace_tilde d r (b # cs))"
| "replace_tilde d r cs = cs"

definition pointer_segment :: "string \<Rightarrow> string" where
  "pointer_segment seg = replace_tilde (CHR ''0'') (CHR ''~'') (replace_tilde (CHR ''1'') (CHR ''/'') seg)"

fun follow :: "string \<Rightarrow> string list \<Rightarrow> json \<Rightarrow> (schema_error, json) result" where
  "follow ref [] current = Inr current"
| "follow ref (seg # segs) current =
     (case current of
        JObj m \<Rightarrow>
          (case map_of m (pointer_segment seg) of
             None \<Rightarrow> Inl (RefSegmentMissing ref (pointer_segment seg))
           | Some next \<Rightarrow> follow ref segs next)
      | _ \<Rightarrow> Inl (RefDoesNotResolve ref))"

definition resolveRef :: "schema \<Rightarrow> string \<Rightarrow> (schema_error, schema) result" where
  "resolveRef rt ref =
     (if take 2 ref \<noteq> ''#/'' then Inl (ExternalRef ref)
      else case follow ref (split_slash (drop 2 ref)) (JObj rt) of
        Inl e \<Rightarrow> Inl e
      | Inr (JObj m) \<Rightarrow> Inr m
      | Inr _ \<Rightarrow> Inl (RefNotAnObject ref))"

section \<open>Validation\<close>

definition hasType :: "json \<Rightarrow> string \<Rightarrow> bool" where
  "hasType doc want =
     (if want = ''object'' then (case doc of JObj _ \<Rightarrow> True | _ \<Rightarrow> False)
      else if want = ''array'' then (case doc of JArr _ \<Rightarrow> True | _ \<Rightarrow> False)
      else if want = ''string'' then (case doc of JStr _ \<Rightarrow> True | _ \<Rightarrow> False)
      else if want = ''boolean'' then (case doc of JBool _ \<Rightarrow> True | _ \<Rightarrow> False)
      else if want = ''integer'' then (case doc of JNum n \<Rightarrow> num_val n = of_int \<lfloor>num_val n\<rfloor> | _ \<Rightarrow> False)
      else if want = ''number'' then (case doc of JNum _ \<Rightarrow> True | _ \<Rightarrow> False)
      else if want = ''null'' then doc = JNull
      else False)"

definition validateType :: "json \<Rightarrow> schema \<Rightarrow> schema_error option" where
  "validateType doc schema =
     (case map_of schema ''type'' of
        Some (JStr declared) \<Rightarrow> (if \<not> hasType doc declared then Some WrongType else None)
      | Some (JArr declared) \<Rightarrow>
          (if list_ex (\<lambda>name. case name of JStr want \<Rightarrow> hasType doc want | _ \<Rightarrow> False) declared then None
           else Some WrongType)
      | _ \<Rightarrow> None)"

definition check_const :: "json \<Rightarrow> schema \<Rightarrow> schema_error option" where
  "check_const doc schema =
     (case map_of schema ''const'' of
        Some c \<Rightarrow> (if \<not> deepEqual doc c then Some NotEqualConst else None)
      | None \<Rightarrow> None)"

definition check_enum :: "json \<Rightarrow> schema \<Rightarrow> schema_error option" where
  "check_enum doc schema =
     (case map_of schema ''enum'' of
        Some (JArr enum) \<Rightarrow> (if \<not> list_ex (deepEqual doc) enum then Some NotInEnum else None)
      | _ \<Rightarrow> None)"

text \<open>
  The parts of \<open>validate\<close> that recurse take the recursive call as the argument \<open>v\<close>, a function of
  the document and the subschema.
\<close>

type_synonym validator = "json \<Rightarrow> schema \<Rightarrow> schema_error option"

fun all_of_loop :: "validator \<Rightarrow> json \<Rightarrow> json list \<Rightarrow> schema_error option" where
  "all_of_loop v doc [] = None"
| "all_of_loop v doc (sub # subs) =
     (case sub of
        JObj m \<Rightarrow> (case v doc m of Some e \<Rightarrow> Some e | None \<Rightarrow> all_of_loop v doc subs)
      | _ \<Rightarrow> all_of_loop v doc subs)"

definition check_allOf :: "validator \<Rightarrow> json \<Rightarrow> schema \<Rightarrow> schema_error option" where
  "check_allOf v doc schema =
     (case map_of schema ''allOf'' of Some (JArr subs) \<Rightarrow> all_of_loop v doc subs | _ \<Rightarrow> None)"

definition branch_matches :: "validator \<Rightarrow> json \<Rightarrow> json \<Rightarrow> bool" where
  "branch_matches v doc sub = (case sub of JObj m \<Rightarrow> v doc m = None | _ \<Rightarrow> False)"

definition check_anyOf :: "validator \<Rightarrow> json \<Rightarrow> schema \<Rightarrow> schema_error option" where
  "check_anyOf v doc schema =
     (case map_of schema ''anyOf'' of
        Some (JArr subs) \<Rightarrow> (if list_ex (branch_matches v doc) subs then None else Some NoAnyOfBranch)
      | _ \<Rightarrow> None)"

definition check_oneOf :: "validator \<Rightarrow> json \<Rightarrow> schema \<Rightarrow> schema_error option" where
  "check_oneOf v doc schema =
     (case map_of schema ''oneOf'' of
        Some (JArr subs) \<Rightarrow>
          (let matches = length (filter (branch_matches v doc) subs) in
           if matches \<noteq> 1 then Some (OneOfMatches matches) else None)
      | _ \<Rightarrow> None)"

definition check_not :: "validator \<Rightarrow> json \<Rightarrow> schema \<Rightarrow> schema_error option" where
  "check_not v doc schema =
     (case map_of schema ''not'' of
        Some (JObj m) \<Rightarrow> (if v doc m = None then Some MatchesNot else None)
      | _ \<Rightarrow> None)"

definition check_under :: "validator \<Rightarrow> json \<Rightarrow> schema \<Rightarrow> string \<Rightarrow> schema_error option" where
  "check_under v doc schema key = (case map_of schema key of Some (JObj m) \<Rightarrow> v doc m | _ \<Rightarrow> None)"

definition check_if :: "validator \<Rightarrow> json \<Rightarrow> schema \<Rightarrow> schema_error option" where
  "check_if v doc schema =
     (case map_of schema ''if'' of
        Some (JObj cond) \<Rightarrow>
          (if v doc cond = None then check_under v doc schema ''then'' else check_under v doc schema ''else'')
      | _ \<Rightarrow> None)"

fun required_loop :: "(string \<times> json) list \<Rightarrow> json list \<Rightarrow> schema_error option" where
  "required_loop d [] = None"
| "required_loop d (r # rs) =
     (let name = (case r of JStr s \<Rightarrow> s | _ \<Rightarrow> []) in
      if map_of d name = None then Some (MissingProperty name) else required_loop d rs)"

definition check_member :: "validator \<Rightarrow> schema \<Rightarrow> string \<Rightarrow> json \<Rightarrow> schema_error option" where
  "check_member v schema key val =
     (let props = (case map_of schema ''properties'' of Some (JObj ps) \<Rightarrow> ps | _ \<Rightarrow> []) in
      case map_of props key of
        Some (JObj sub) \<Rightarrow> v val sub
      | _ \<Rightarrow>
          (case map_of schema ''additionalProperties'' of
             Some (JBool b) \<Rightarrow> (if \<not> b then Some (AdditionalProperty key) else None)
           | Some (JObj ap) \<Rightarrow> v val ap
           | _ \<Rightarrow> None))"

text \<open>The members of a Go map come in some order; which error is reported first depends on it.\<close>

fun members_loop :: "validator \<Rightarrow> schema \<Rightarrow> (string \<times> json) list \<Rightarrow> schema_error option" where
  "members_loop v schema [] = None"
| "members_loop v schema ((key, val) # d) =
     (case check_member v schema key val of Some e \<Rightarrow> Some e | None \<Rightarrow> members_loop v schema d)"

fun first_error :: "'e option list \<Rightarrow> 'e option" where
  "first_error [] = None"
| "first_error (r # rs) = (case r of Some e \<Rightarrow> Some e | None \<Rightarrow> first_error rs)"

definition check_object :: "validator \<Rightarrow> schema \<Rightarrow> (string \<times> json) list \<Rightarrow> schema_error option" where
  "check_object v schema d =
     first_error
       [case map_of schema ''required'' of Some (JArr req) \<Rightarrow> required_loop d req | _ \<Rightarrow> None,
        members_loop v schema d]"

fun unique_loop :: "nat \<Rightarrow> json list \<Rightarrow> json list \<Rightarrow> schema_error option" where
  "unique_loop i seen [] = None"
| "unique_loop i seen (item # items) =
     (if item \<in> set seen then Some (DuplicateItem i) else unique_loop (Suc i) (item # seen) items)"

fun items_loop :: "validator \<Rightarrow> schema \<Rightarrow> json list \<Rightarrow> schema_error option" where
  "items_loop v sub [] = None"
| "items_loop v sub (item # items) = (case v item sub of Some e \<Rightarrow> Some e | None \<Rightarrow> items_loop v sub items)"

definition bound :: "schema \<Rightarrow> string \<Rightarrow> (rat \<Rightarrow> bool) \<Rightarrow> schema_error \<Rightarrow> schema_error option" where
  "bound schema key violates e =
     (case num (map_of schema key) of Some b \<Rightarrow> (if violates b then Some e else None) | None \<Rightarrow> None)"

definition check_array :: "validator \<Rightarrow> schema \<Rightarrow> json list \<Rightarrow> schema_error option" where
  "check_array v schema d =
     first_error
       [case map_of schema ''uniqueItems'' of Some (JBool True) \<Rightarrow> unique_loop 0 [] d | _ \<Rightarrow> None,
        case map_of schema ''items'' of Some (JObj items) \<Rightarrow> items_loop v items d | _ \<Rightarrow> None,
        bound schema ''minItems'' (\<lambda>mn. of_nat (length d) < mn) TooFewItems,
        bound schema ''maxItems'' (\<lambda>mx. of_nat (length d) > mx) TooManyItems]"

definition check_string :: "regexp \<Rightarrow> schema \<Rightarrow> string \<Rightarrow> schema_error option" where
  "check_string re schema d =
     first_error
       [bound schema ''minLength'' (\<lambda>mn. of_nat (length d) < mn) TooShort,
        bound schema ''maxLength'' (\<lambda>mx. of_nat (length d) > mx) TooLong,
        case map_of schema ''pattern'' of
          Some (JStr pattern) \<Rightarrow>
            (case re pattern of
               None \<Rightarrow> Some (PatternBroken pattern)
             | Some matches \<Rightarrow> (if \<not> matches d then Some (PatternMismatch pattern) else None))
        | _ \<Rightarrow> None]"

definition check_number :: "schema \<Rightarrow> rat \<Rightarrow> schema_error option" where
  "check_number schema d =
     first_error
       [bound schema ''minimum'' (\<lambda>b. d < b) BelowMinimum,
        bound schema ''maximum'' (\<lambda>b. d > b) AboveMaximum,
        bound schema ''exclusiveMinimum'' (\<lambda>b. d \<le> b) NotAboveExclusiveMinimum,
        bound schema ''exclusiveMaximum'' (\<lambda>b. d \<ge> b) NotBelowExclusiveMaximum]"

definition check_by_type :: "regexp \<Rightarrow> validator \<Rightarrow> json \<Rightarrow> schema \<Rightarrow> schema_error option" where
  "check_by_type re v doc schema =
     (case doc of
        JObj d \<Rightarrow> check_object v schema d
      | JArr d \<Rightarrow> check_array v schema d
      | JStr d \<Rightarrow> check_string re schema d
      | JNum n \<Rightarrow> check_number schema (num_val n)
      | _ \<Rightarrow> None)"

definition check_ref ::
  "schema \<Rightarrow> nat \<Rightarrow> (json \<Rightarrow> schema \<Rightarrow> schema_error option) \<Rightarrow> json \<Rightarrow> schema \<Rightarrow> schema_error option" where
  "check_ref rt refDepth v doc schema =
     (case map_of schema ''$ref'' of
        Some (JStr ref) \<Rightarrow>
          (if refDepth \<ge> maxRefDepth then Some RefTooDeep
           else case resolveRef rt ref of
             Inl e \<Rightarrow> Some e
           | Inr target \<Rightarrow> v doc target)
      | _ \<Rightarrow> None)"

text \<open>Each part calls the validator on proper subschemas only, and a reference only below the depth limit.\<close>

abbreviation ssize :: "schema \<Rightarrow> nat" where "ssize s \<equiv> size (JObj s)"

lemma ssize_member: "map_of s k = Some (JObj m) \<Longrightarrow> ssize m < ssize s"
  by (meson map_of_SomeD size_member)

lemma ssize_element: "map_of s k = Some (JArr xs) \<Longrightarrow> JObj m \<in> set xs \<Longrightarrow> ssize m < ssize s"
  by (meson map_of_SomeD size_array_member)

lemma ssize_property: "map_of s k = Some (JObj ps) \<Longrightarrow> map_of ps n = Some (JObj m) \<Longrightarrow> ssize m < ssize s"
  by (meson map_of_SomeD size_object_member)

lemma all_of_loop_cong:
  "(\<And>m. JObj m \<in> set subs \<Longrightarrow> v doc m = w doc m) \<Longrightarrow> all_of_loop v doc subs = all_of_loop w doc subs"
  by (induction subs) (auto split: json.splits option.splits)

lemma branch_matches_cong:
  "(\<And>m. sub = JObj m \<Longrightarrow> v doc m = w doc m) \<Longrightarrow> branch_matches v doc sub = branch_matches w doc sub"
  by (auto simp: branch_matches_def split: json.splits)

lemma members_loop_cong:
  "(\<And>key val. check_member v schema key val = check_member w schema key val) \<Longrightarrow>
     members_loop v schema d = members_loop w schema d"
  by (induction d) (auto split: option.splits)

lemma items_loop_cong: "(\<And>doc. v doc sub = w doc sub) \<Longrightarrow> items_loop v sub d = items_loop w sub d"
  by (induction d) (auto split: option.splits)

lemma check_allOf_cong [fundef_cong]:
  assumes "doc = doc'" and "schema = schema'" and "\<And>doc m. ssize m < ssize schema' \<Longrightarrow> v doc m = w doc m"
  shows "check_allOf v doc schema = check_allOf w doc' schema'"
  using assms by (auto simp: check_allOf_def intro!: all_of_loop_cong dest: ssize_element split: option.splits json.splits)

lemma check_anyOf_cong [fundef_cong]:
  assumes "doc = doc'" and "schema = schema'" and "\<And>doc m. ssize m < ssize schema' \<Longrightarrow> v doc m = w doc m"
  shows "check_anyOf v doc schema = check_anyOf w doc' schema'"
proof -
  have "branch_matches v doc' sub = branch_matches w doc' sub"
    if "map_of schema' ''anyOf'' = Some (JArr subs)" "sub \<in> set subs" for subs sub
    using that assms(3) by (intro branch_matches_cong) (auto dest: ssize_element)
  then show ?thesis
    using assms(1,2) unfolding check_anyOf_def
    by (auto simp: list_ex_iff Let_def cong: filter_cong split: option.splits json.splits)
qed

lemma check_oneOf_cong [fundef_cong]:
  assumes "doc = doc'" and "schema = schema'" and "\<And>doc m. ssize m < ssize schema' \<Longrightarrow> v doc m = w doc m"
  shows "check_oneOf v doc schema = check_oneOf w doc' schema'"
proof -
  have "branch_matches v doc' sub = branch_matches w doc' sub"
    if "map_of schema' ''oneOf'' = Some (JArr subs)" "sub \<in> set subs" for subs sub
    using that assms(3) by (intro branch_matches_cong) (auto dest: ssize_element)
  then show ?thesis
    using assms(1,2) unfolding check_oneOf_def
    by (auto simp: list_ex_iff Let_def cong: filter_cong split: option.splits json.splits)
qed

lemma check_not_cong [fundef_cong]:
  assumes "doc = doc'" and "schema = schema'" and "\<And>doc m. ssize m < ssize schema' \<Longrightarrow> v doc m = w doc m"
  shows "check_not v doc schema = check_not w doc' schema'"
  using assms by (auto simp: check_not_def dest: ssize_member split: option.splits json.splits)

lemma check_if_cong [fundef_cong]:
  assumes "doc = doc'" and "schema = schema'" and "\<And>doc m. ssize m < ssize schema' \<Longrightarrow> v doc m = w doc m"
  shows "check_if v doc schema = check_if w doc' schema'"
  using assms by (auto simp: check_if_def check_under_def dest: ssize_member split: option.splits json.splits)

lemma check_member_cong:
  assumes "\<And>doc m. ssize m < ssize schema \<Longrightarrow> v doc m = w doc m"
  shows "check_member v schema key val = check_member w schema key val"
  using assms by (auto simp: check_member_def Let_def dest: ssize_member ssize_property split: option.splits json.splits)

lemma check_by_type_cong [fundef_cong]:
  assumes "doc = doc'" and "schema = schema'" and "\<And>doc m. ssize m < ssize schema' \<Longrightarrow> v doc m = w doc m"
  shows "check_by_type re v doc schema = check_by_type re w doc' schema'"
proof -
  have "members_loop v schema' d = members_loop w schema' d" for d
    by (rule members_loop_cong) (rule check_member_cong [OF assms(3)])
  moreover have "items_loop v m d = items_loop w m d" if "map_of schema' ''items'' = Some (JObj m)" for m d
    by (rule items_loop_cong) (use that assms(3) ssize_member in blast)
  ultimately show ?thesis
    using assms(1,2) by (auto simp: check_by_type_def check_object_def check_array_def split: json.splits option.splits bool.splits)
qed

lemma check_ref_cong [fundef_cong]:
  assumes "rt = rt'" and "d = d'" and "doc = doc'" and "schema = schema'"
    and "\<And>m. d' < maxRefDepth \<Longrightarrow> v doc' m = w doc' m"
  shows "check_ref rt d v doc schema = check_ref rt' d' w doc' schema'"
  using assms by (auto simp: check_ref_def split: option.splits json.splits sum.splits)

function validate :: "regexp \<Rightarrow> schema \<Rightarrow> nat \<Rightarrow> json \<Rightarrow> schema \<Rightarrow> schema_error option" where
  "validate re rt refDepth doc schema =
     first_error
       [check_ref rt refDepth (\<lambda>doc m. validate re rt (Suc refDepth) doc m) doc schema,
        check_const doc schema,
        check_enum doc schema,
        validateType doc schema,
        check_allOf (\<lambda>doc m. validate re rt refDepth doc m) doc schema,
        check_anyOf (\<lambda>doc m. validate re rt refDepth doc m) doc schema,
        check_oneOf (\<lambda>doc m. validate re rt refDepth doc m) doc schema,
        check_not (\<lambda>doc m. validate re rt refDepth doc m) doc schema,
        check_if (\<lambda>doc m. validate re rt refDepth doc m) doc schema,
        check_by_type re (\<lambda>doc m. validate re rt refDepth doc m) doc schema]"
  by pat_completeness auto
termination
  by (relation "measures [\<lambda>(re, rt, d, doc, schema). maxRefDepth - d, \<lambda>(re, rt, d, doc, schema). ssize schema]") auto

declare validate.simps [simp del]

section \<open>Entry points\<close>

text \<open>
  The files and documents are the outcomes of reading and decoding. Decoding into a map accepts
  \<open>null\<close> as the empty map.
\<close>

datatype schema_outcome = SchemaUnreadable | SchemaNotDecoded | Unsupported "unsupported list" | DocumentNotDecoded | Invalid schema_error

definition decode_map :: "json option \<Rightarrow> schema option" where
  "decode_map v = (case v of Some (JObj m) \<Rightarrow> Some m | Some JNull \<Rightarrow> Some [] | _ \<Rightarrow> None)"

definition CheckSupported :: "regexp \<Rightarrow> json option \<Rightarrow> schema_outcome option" where
  "CheckSupported re raw =
     (case decode_map raw of
        None \<Rightarrow> Some SchemaNotDecoded
      | Some schema \<Rightarrow>
          (if length (checkSupported re schema) > 0 then Some (Unsupported (checkSupported re schema)) else None))"

definition ValidateFile :: "regexp \<Rightarrow> json option \<Rightarrow> json option option \<Rightarrow> schema_outcome option" where
  "ValidateFile re doc schemaFile =
     (case schemaFile of
        None \<Rightarrow> Some SchemaUnreadable
      | Some raw \<Rightarrow>
          (case decode_map raw of
             None \<Rightarrow> Some SchemaNotDecoded
           | Some schema \<Rightarrow>
               (if length (checkSupported re schema) > 0 then Some (Unsupported (checkSupported re schema))
                else case doc of
                  None \<Rightarrow> Some DocumentNotDecoded
                | Some d \<Rightarrow> map_option Invalid (validate re schema 0 d schema))))"

section \<open>What a schema means\<close>

text \<open>
  The meaning of the keywords in draft 2020-12, one clause each, for the document \<open>doc\<close> and the
  schema object \<open>s\<close>; \<open>c\<close> is conformance to a subschema, which may be a boolean. A keyword with a value
  of the wrong shape is not satisfied. Values are compared as the draft compares them, numbers by
  their mathematical value, and the length of a string is its number of characters, the bytes of
  its UTF-8 encoding that do not continue a character; the code differs in both.
\<close>

fun canonical :: "json \<Rightarrow> json" where
  "canonical (JNum n) = JNum (Num (num_val n))"
| "canonical (JArr xs) = JArr (map canonical xs)"
| "canonical (JObj ms) = JObj (map (\<lambda>(k, v). (k, canonical v)) ms)"
| "canonical v = v"

definition json_equal :: "json \<Rightarrow> json \<Rightarrow> bool" where
  "json_equal a b \<longleftrightarrow> canonical a = canonical b"

definition char_count :: "string \<Rightarrow> nat" where
  "char_count d = length (filter (\<lambda>c. \<not> (128 \<le> (of_char c :: nat) \<and> (of_char c :: nat) < 192)) d)"

definition types_of :: "json \<Rightarrow> string set" where
  "types_of doc =
     (case doc of
        JNull \<Rightarrow> {''null''}
      | JBool _ \<Rightarrow> {''boolean''}
      | JNum n \<Rightarrow> (if num_val n \<in> \<int> then {''number'', ''integer''} else {''number''})
      | JStr _ \<Rightarrow> {''string''}
      | JArr _ \<Rightarrow> {''array''}
      | JObj _ \<Rightarrow> {''object''})"

definition means_type :: "json \<Rightarrow> schema \<Rightarrow> bool" where
  "means_type doc s =
     (case map_of s ''type'' of
        None \<Rightarrow> True
      | Some (JStr t) \<Rightarrow> t \<in> types_of doc
      | Some (JArr ts) \<Rightarrow> (\<exists>t \<in> types_of doc. JStr t \<in> set ts)
      | _ \<Rightarrow> False)"

definition means_const :: "json \<Rightarrow> schema \<Rightarrow> bool" where
  "means_const doc s = (case map_of s ''const'' of None \<Rightarrow> True | Some x \<Rightarrow> json_equal doc x)"

definition means_enum :: "json \<Rightarrow> schema \<Rightarrow> bool" where
  "means_enum doc s =
     (case map_of s ''enum'' of None \<Rightarrow> True | Some (JArr xs) \<Rightarrow> (\<exists>x \<in> set xs. json_equal doc x) | _ \<Rightarrow> False)"

definition means_allOf :: "(json \<Rightarrow> json \<Rightarrow> bool) \<Rightarrow> json \<Rightarrow> schema \<Rightarrow> bool" where
  "means_allOf c doc s =
     (case map_of s ''allOf'' of None \<Rightarrow> True | Some (JArr xs) \<Rightarrow> (\<forall>x \<in> set xs. c doc x) | _ \<Rightarrow> False)"

definition means_anyOf :: "(json \<Rightarrow> json \<Rightarrow> bool) \<Rightarrow> json \<Rightarrow> schema \<Rightarrow> bool" where
  "means_anyOf c doc s =
     (case map_of s ''anyOf'' of None \<Rightarrow> True | Some (JArr xs) \<Rightarrow> (\<exists>x \<in> set xs. c doc x) | _ \<Rightarrow> False)"

definition means_oneOf :: "(json \<Rightarrow> json \<Rightarrow> bool) \<Rightarrow> json \<Rightarrow> schema \<Rightarrow> bool" where
  "means_oneOf c doc s =
     (case map_of s ''oneOf'' of
        None \<Rightarrow> True
      | Some (JArr xs) \<Rightarrow> card {i. i < length xs \<and> c doc (xs ! i)} = 1
      | _ \<Rightarrow> False)"

definition means_not :: "(json \<Rightarrow> json \<Rightarrow> bool) \<Rightarrow> json \<Rightarrow> schema \<Rightarrow> bool" where
  "means_not c doc s = (case map_of s ''not'' of None \<Rightarrow> True | Some x \<Rightarrow> \<not> c doc x)"

definition means_if :: "(json \<Rightarrow> json \<Rightarrow> bool) \<Rightarrow> json \<Rightarrow> schema \<Rightarrow> bool" where
  "means_if c doc s =
     (case map_of s ''if'' of
        None \<Rightarrow> True
      | Some x \<Rightarrow>
          (case map_of s (if c doc x then ''then'' else ''else'') of None \<Rightarrow> True | Some y \<Rightarrow> c doc y))"

definition property_names :: "schema \<Rightarrow> string set" where
  "property_names s = (case map_of s ''properties'' of Some (JObj ps) \<Rightarrow> set (map fst ps) | _ \<Rightarrow> {})"

definition means_object :: "(json \<Rightarrow> json \<Rightarrow> bool) \<Rightarrow> schema \<Rightarrow> (string \<times> json) list \<Rightarrow> bool" where
  "means_object c s d \<longleftrightarrow>
     (case map_of s ''required'' of
        None \<Rightarrow> True
      | Some (JArr xs) \<Rightarrow> (\<forall>x \<in> set xs. case x of JStr name \<Rightarrow> name \<in> fst ` set d | _ \<Rightarrow> False)
      | _ \<Rightarrow> False) \<and>
     (case map_of s ''properties'' of
        None \<Rightarrow> True
      | Some (JObj ps) \<Rightarrow> (\<forall>(name, val) \<in> set d. \<forall>(name', sub) \<in> set ps. name' = name \<longrightarrow> c val sub)
      | _ \<Rightarrow> False) \<and>
     (case map_of s ''additionalProperties'' of
        None \<Rightarrow> True
      | Some sub \<Rightarrow> (\<forall>(name, val) \<in> set d. name \<notin> property_names s \<longrightarrow> c val sub))"

definition in_bound :: "schema \<Rightarrow> string \<Rightarrow> (rat \<Rightarrow> bool) \<Rightarrow> bool" where
  "in_bound s key P = (case map_of s key of None \<Rightarrow> True | Some (JNum n) \<Rightarrow> P (num_val n) | _ \<Rightarrow> False)"

definition means_array :: "(json \<Rightarrow> json \<Rightarrow> bool) \<Rightarrow> schema \<Rightarrow> json list \<Rightarrow> bool" where
  "means_array c s d \<longleftrightarrow>
     (case map_of s ''uniqueItems'' of None \<Rightarrow> True | Some (JBool b) \<Rightarrow> b \<longrightarrow> distinct (map canonical d) | _ \<Rightarrow> False) \<and>
     (case map_of s ''items'' of None \<Rightarrow> True | Some sub \<Rightarrow> (\<forall>x \<in> set d. c x sub)) \<and>
     in_bound s ''minItems'' (\<lambda>b. b \<le> of_nat (length d)) \<and> in_bound s ''maxItems'' (\<lambda>b. of_nat (length d) \<le> b)"

definition means_string :: "regexp \<Rightarrow> schema \<Rightarrow> string \<Rightarrow> bool" where
  "means_string re s d \<longleftrightarrow>
     in_bound s ''minLength'' (\<lambda>b. b \<le> of_nat (char_count d)) \<and> in_bound s ''maxLength'' (\<lambda>b. of_nat (char_count d) \<le> b) \<and>
     (case map_of s ''pattern'' of
        None \<Rightarrow> True
      | Some (JStr p) \<Rightarrow> (case re p of None \<Rightarrow> False | Some matches \<Rightarrow> matches d)
      | _ \<Rightarrow> False)"

definition means_number :: "schema \<Rightarrow> rat \<Rightarrow> bool" where
  "means_number s d \<longleftrightarrow>
     in_bound s ''minimum'' (\<lambda>b. b \<le> d) \<and> in_bound s ''maximum'' (\<lambda>b. d \<le> b) \<and>
     in_bound s ''exclusiveMinimum'' (\<lambda>b. b < d) \<and> in_bound s ''exclusiveMaximum'' (\<lambda>b. d < b)"

definition means_by_type :: "regexp \<Rightarrow> (json \<Rightarrow> json \<Rightarrow> bool) \<Rightarrow> json \<Rightarrow> schema \<Rightarrow> bool" where
  "means_by_type re c doc s =
     (case doc of
        JObj d \<Rightarrow> means_object c s d
      | JArr d \<Rightarrow> means_array c s d
      | JStr d \<Rightarrow> means_string re s d
      | JNum n \<Rightarrow> means_number s (num_val n)
      | _ \<Rightarrow> True)"

text \<open>
  A reference means its target. \<open>n\<close> bounds how often references are unfolded; it plays no role for a
  schema whose chains of references are not longer (\<open>refs_within\<close> below), and the draft gives no
  meaning to a reference that does not resolve.
\<close>

definition means_ref :: "schema \<Rightarrow> nat \<Rightarrow> (json \<Rightarrow> json \<Rightarrow> bool) \<Rightarrow> json \<Rightarrow> schema \<Rightarrow> bool" where
  "means_ref rt n c doc s =
     (case map_of s ''$ref'' of
        None \<Rightarrow> True
      | Some (JStr ref) \<Rightarrow> 0 < n \<and> (case resolveRef rt ref of Inl _ \<Rightarrow> False | Inr t \<Rightarrow> c doc (JObj t))
      | _ \<Rightarrow> False)"

lemma size_value: "map_of s k = Some x \<Longrightarrow> size x < ssize s"
  by (meson map_of_SomeD size_member)

lemma size_in_array: "map_of s k = Some (JArr xs) \<Longrightarrow> x \<in> set xs \<Longrightarrow> size x < ssize s"
  by (meson map_of_SomeD size_array_member)

lemma size_in_object: "map_of s k = Some (JObj ps) \<Longrightarrow> (n, x) \<in> set ps \<Longrightarrow> size x < ssize s"
  by (meson map_of_SomeD size_object_member)

lemma means_cong:
  assumes "\<And>doc x. size x < ssize s \<Longrightarrow> c doc x = c' doc x"
  shows "means_allOf c doc s = means_allOf c' doc s" and "means_anyOf c doc s = means_anyOf c' doc s"
    and "means_oneOf c doc s = means_oneOf c' doc s" and "means_not c doc s = means_not c' doc s"
    and "means_if c doc s = means_if c' doc s" and "means_by_type re c doc s = means_by_type re c' doc s"
proof -
  have arr: "\<forall>x \<in> set xs. c doc x = c' doc x" if "map_of s k = Some (JArr xs)" for k xs doc
    using assms size_in_array [OF that] by blast
  show "means_allOf c doc s = means_allOf c' doc s" "means_anyOf c doc s = means_anyOf c' doc s"
    using arr [of "''allOf''" _ doc] arr [of "''anyOf''" _ doc]
    by (auto simp: means_allOf_def means_anyOf_def split: option.splits json.splits)
  have "{i. i < length xs \<and> c doc (xs ! i)} = {i. i < length xs \<and> c' doc (xs ! i)}"
    if "map_of s ''oneOf'' = Some (JArr xs)" for xs
    using assms size_in_array [OF that] nth_mem by blast
  then show "means_oneOf c doc s = means_oneOf c' doc s"
    by (auto simp: means_oneOf_def split: option.splits json.splits)
  show "means_not c doc s = means_not c' doc s" "means_if c doc s = means_if c' doc s"
    using assms size_value [of s] by (auto simp: means_not_def means_if_def split: option.splits)
  have "means_object c s xs = means_object c' s xs" for xs
    using assms size_value [of s "''additionalProperties''"] size_in_object [of s "''properties''"]
    unfolding means_object_def by (intro arg_cong2 [where f = "(\<and>)"] refl) (force split: option.splits json.splits)+
  moreover have "means_array c s xs = means_array c' s xs" for xs
    using assms size_value [of s "''items''"]
    unfolding means_array_def by (intro arg_cong2 [where f = "(\<and>)"] refl) (force split: option.splits)
  ultimately show "means_by_type re c doc s = means_by_type re c' doc s"
    by (simp add: means_by_type_def split: json.splits)
qed

lemma means_allOf_cong [fundef_cong]:
  "doc = doc' \<Longrightarrow> s = s' \<Longrightarrow> (\<And>doc x. size x < ssize s' \<Longrightarrow> c doc x = c' doc x) \<Longrightarrow> means_allOf c doc s = means_allOf c' doc' s'"
  using means_cong(1) [of s' c c' doc'] by simp

lemma means_anyOf_cong [fundef_cong]:
  "doc = doc' \<Longrightarrow> s = s' \<Longrightarrow> (\<And>doc x. size x < ssize s' \<Longrightarrow> c doc x = c' doc x) \<Longrightarrow> means_anyOf c doc s = means_anyOf c' doc' s'"
  using means_cong(2) [of s' c c' doc'] by simp

lemma means_oneOf_cong [fundef_cong]:
  "doc = doc' \<Longrightarrow> s = s' \<Longrightarrow> (\<And>doc x. size x < ssize s' \<Longrightarrow> c doc x = c' doc x) \<Longrightarrow> means_oneOf c doc s = means_oneOf c' doc' s'"
  using means_cong(3) [of s' c c' doc'] by simp

lemma means_not_cong [fundef_cong]:
  "doc = doc' \<Longrightarrow> s = s' \<Longrightarrow> (\<And>doc x. size x < ssize s' \<Longrightarrow> c doc x = c' doc x) \<Longrightarrow> means_not c doc s = means_not c' doc' s'"
  using means_cong(4) [of s' c c' doc'] by simp

lemma means_if_cong [fundef_cong]:
  "doc = doc' \<Longrightarrow> s = s' \<Longrightarrow> (\<And>doc x. size x < ssize s' \<Longrightarrow> c doc x = c' doc x) \<Longrightarrow> means_if c doc s = means_if c' doc' s'"
  using means_cong(5) [of s' c c' doc'] by simp

lemma means_by_type_cong [fundef_cong]:
  "doc = doc' \<Longrightarrow> s = s' \<Longrightarrow> (\<And>doc x. size x < ssize s' \<Longrightarrow> c doc x = c' doc x) \<Longrightarrow>
     means_by_type re c doc s = means_by_type re c' doc' s'"
  using means_cong(6) [of s' c c' re doc'] by simp

lemma means_ref_cong [fundef_cong]:
  assumes "doc = doc'" and "s = s'" and "\<And>m. 0 < n \<Longrightarrow> c doc' (JObj m) = c' doc' (JObj m)"
  shows "means_ref rt n c doc s = means_ref rt n c' doc' s'"
  using assms by (auto simp: means_ref_def split: option.splits json.splits sum.splits)

function conforms :: "regexp \<Rightarrow> schema \<Rightarrow> nat \<Rightarrow> json \<Rightarrow> json \<Rightarrow> bool" where
  "conforms re rt n doc sch =
     (case sch of
        JBool b \<Rightarrow> b
      | JObj s \<Rightarrow>
          means_ref rt n (\<lambda>doc x. conforms re rt (n - 1) doc x) doc s \<and>
          means_const doc s \<and> means_enum doc s \<and> means_type doc s \<and>
          means_allOf (\<lambda>doc x. conforms re rt n doc x) doc s \<and>
          means_anyOf (\<lambda>doc x. conforms re rt n doc x) doc s \<and>
          means_oneOf (\<lambda>doc x. conforms re rt n doc x) doc s \<and>
          means_not (\<lambda>doc x. conforms re rt n doc x) doc s \<and>
          means_if (\<lambda>doc x. conforms re rt n doc x) doc s \<and>
          means_by_type re (\<lambda>doc x. conforms re rt n doc x) doc s
      | _ \<Rightarrow> False)"
  by pat_completeness auto
termination
  by (relation "measures [\<lambda>(re, rt, n, doc, sch). n, \<lambda>(re, rt, n, doc, sch). size sch]") auto

declare conforms.simps [simp del]

section \<open>The validator decides conformance\<close>



























lemma first_error_None: "first_error rs = None \<longleftrightarrow> (\<forall>r \<in> set rs. r = None)"
  by (induction rs) (auto split: option.splits)























lemma members_loop_None: "members_loop v s d = None \<longleftrightarrow> (\<forall>(key, val) \<in> set d. check_member v s key val = None)"
  by (induction d) (auto split: option.splits)


















text \<open>
  Boolean subschemas fail open: a schema that forbids every document, written with a boolean
  subschema under the keyword not, passes the gate; no document conforms to it, and the validator
  accepts every document.
\<close>

theorem boolean_subschemas_fail_open:
  "checkSupported re [(''not'', JBool True)] = []
   \<and> ValidateFile re (Some doc) (Some (Some (JObj [(''not'', JBool True)]))) = None
   \<and> \<not> conforms re [(''not'', JBool True)] 0 doc (JObj [(''not'', JBool True)])"
proof -
  have sup: "checkSupported re [(''not'', JBool True)] = []"
    by (simp add: checkSupported_def checkValueKeywordShapes_def under_def valueKeywords_def annotationKeywords_def
        singleSubschema_def subschemaArray_def subschemaMap_def numericKeywords_def)
  have "validate re [(''not'', JBool True)] 0 doc [(''not'', JBool True)] = None"
    by (cases doc) (simp_all add: validate.simps check_ref_def check_const_def check_enum_def validateType_def check_allOf_def
        check_anyOf_def check_oneOf_def check_not_def check_if_def check_by_type_def check_object_def check_array_def
        check_string_def check_number_def bound_def num_def first_error_None members_loop_None check_member_def
        del: first_error.simps)
  moreover have "\<not> conforms re [(''not'', JBool True)] 0 doc (JObj [(''not'', JBool True)])"
    by (simp add: conforms.simps means_not_def)
  ultimately show ?thesis using sup by (simp add: ValidateFile_def decode_map_def)
qed

end
