(* ===== verification/Workspace.thy ===== *)
theory Workspace
  imports Go_Path Queue_Model
begin

text \<open>
  The per-job workspaces of a worker, \<open>renderinggen/internal/workspace/workspace.go\<close> with the advisory
  locks of \<open>workspace_lock_unix.go\<close>: creation, use, cleanup and the sweep of stale directories, by
  several processes on one jobs root; the logical paths of assets, and their materialization.

  The jobs root maps names to directories and files, both numbered; a number stands for the identity
  that \<open>os.SameFile\<close> compares. An advisory lock belongs to an open file, which is numbered too. The
  registry lock is held only inside one call, so the code between taking and releasing it is one
  step of the model. Every system call may fail (\<open>ok\<close>). Symbolic links are not modelled: the program
  makes none, and opens nothing through one.
\<close>

section \<open>The jobs root\<close>

datatype entry = EDir nat | EFile nat

text \<open>
  A job directory: its modification time, the files in it and the directories in it, by the
  elements of their path.
\<close>

record jobdir =
  jd_mtime :: gotime
  jd_files :: "string list \<rightharpoonup> bytes"
  jd_dirs :: "string list set"

record fs =
  fs_entries :: "string \<rightharpoonup> entry"
  fs_dirs :: "nat \<Rightarrow> jobdir"
  fs_flock :: "nat \<rightharpoonup> nat"
  fs_next :: nat

datatype wcall =
    MkdirJobsRoot | EvalSymlinks | OpenJobsRoot | MkdirJob | OpenRegistry | LockRegistry | OpenLock | LockSlot
  | LstatJob | OpenJob | StatJob | MkdirIn "string list" | RemoveTree | RemoveLock | UnlockSlot | CloseLock | CloseRoot | CloseJobsRoot
  | ReadDirRoot | ReadLease | WriteIn | OpenSource | CreateTemp | CopyData | SyncTemp | CloseTemp | RenameTemp | RemoveTemp

datatype ws_error =
    InvalidWorkspaceID ingress_error
  | SyscallFailed wcall
  | WorkspaceBusy string
  | NotARealDirectory string
  | RootChanged
  | ClosedWorkspace
  | InvalidOutputName string
  | LogicalPathRequired
  | LogicalPathEscapes string
  | ResolveFailed string
  | EmptyLocalPath string
  | OutsideJobRoot
  | ContextCancelled

type_synonym faults = "wcall \<Rightarrow> bool"

definition registryName :: string where "registryName = ''.workspace-lock-registry''"
definition leaseMarkerName :: string where "leaseMarkerName = ''.lease_until''"

text \<open>\<open>hex\<close> is the hexadecimal SHA-256 digest of a string.\<close>

definition workspaceLockName :: "(string \<Rightarrow> string) \<Rightarrow> string \<Rightarrow> string" where
  "workspaceLockName hex jobID = ''.workspace-lock-'' @ hex jobID"

definition empty_dir :: "gotime \<Rightarrow> jobdir" where
  "empty_dir clk = \<lparr> jd_mtime = clk, jd_files = Map.empty, jd_dirs = {} \<rparr>"

definition mkdir_entry :: "gotime \<Rightarrow> string \<Rightarrow> fs \<Rightarrow> fs" where
  "mkdir_entry clk name s =
     (case fs_entries s name of
        Some _ \<Rightarrow> s
      | None \<Rightarrow> s\<lparr> fs_entries := (fs_entries s)(name \<mapsto> EDir (fs_next s)),
                  fs_dirs := (fs_dirs s)(fs_next s := empty_dir clk), fs_next := Suc (fs_next s) \<rparr>)"

text \<open>Opening for writing, with creation; a directory cannot be opened so.\<close>

definition open_create :: "string \<Rightarrow> fs \<Rightarrow> nat option \<times> fs" where
  "open_create name s =
     (case fs_entries s name of
        Some (EFile i) \<Rightarrow> (Some i, s)
      | Some (EDir _) \<Rightarrow> (None, s)
      | None \<Rightarrow> (Some (fs_next s), s\<lparr> fs_entries := (fs_entries s)(name \<mapsto> EFile (fs_next s)), fs_next := Suc (fs_next s) \<rparr>))"

definition remove_entry :: "string \<Rightarrow> fs \<Rightarrow> fs" where
  "remove_entry name s = s\<lparr> fs_entries := (fs_entries s)(name := None) \<rparr>"

text \<open>\<open>flock(LOCK_EX|LOCK_NB)\<close> on a fresh open file, and the release, which is harmless when the lock is not held.\<close>

definition try_flock :: "nat \<Rightarrow> fs \<Rightarrow> nat option \<times> fs" where
  "try_flock i s =
     (case fs_flock s i of
        Some _ \<Rightarrow> (None, s)
      | None \<Rightarrow> (Some (fs_next s), s\<lparr> fs_flock := (fs_flock s)(i \<mapsto> fs_next s), fs_next := Suc (fs_next s) \<rparr>))"

definition funlock :: "nat \<times> nat \<Rightarrow> fs \<Rightarrow> fs" where
  "funlock lk s = (if fs_flock s (fst lk) = Some (snd lk) then s\<lparr> fs_flock := (fs_flock s)(fst lk := None) \<rparr> else s)"

section \<open>Locks\<close>

definition acquireLockRegistry :: "faults \<Rightarrow> fs \<Rightarrow> ws_error option \<times> fs" where
  "acquireLockRegistry ok s =
     (if \<not> ok OpenRegistry then (Some (SyscallFailed OpenRegistry), s)
      else case open_create registryName s of
        (None, s') \<Rightarrow> (Some (SyscallFailed OpenRegistry), s')
      | (Some _, s') \<Rightarrow> (if \<not> ok LockRegistry then (Some (SyscallFailed LockRegistry), s') else (None, s')))"

definition openWorkspaceLock :: "faults \<Rightarrow> (string \<Rightarrow> string) \<Rightarrow> string \<Rightarrow> fs \<Rightarrow> (ws_error, nat) result \<times> fs" where
  "openWorkspaceLock ok hex jobID s =
     (if \<not> ok OpenLock then (Inl (SyscallFailed OpenLock), s)
      else case open_create (workspaceLockName hex jobID) s of
        (None, s') \<Rightarrow> (Inl (SyscallFailed OpenLock), s')
      | (Some i, s') \<Rightarrow> (Inr i, s'))"

text \<open>A held lock: the locked file and the open file that holds it.\<close>

definition acquireWorkspaceLock ::
  "faults \<Rightarrow> (string \<Rightarrow> string) \<Rightarrow> string \<Rightarrow> fs \<Rightarrow> (ws_error, nat \<times> nat) result \<times> fs" where
  "acquireWorkspaceLock ok hex jobID s =
     (case acquireLockRegistry ok s of
        (Some e, s1) \<Rightarrow> (Inl e, s1)
      | (None, s1) \<Rightarrow>
          (case openWorkspaceLock ok hex jobID s1 of
             (Inl e, s2) \<Rightarrow> (Inl e, s2)
           | (Inr i, s2) \<Rightarrow>
               (if \<not> ok LockSlot then (Inl (SyscallFailed LockSlot), s2)
                else case try_flock i s2 of
                  (None, s3) \<Rightarrow> (Inl (WorkspaceBusy jobID), s3)
                | (Some h, s3) \<Rightarrow> (Inr (i, h), s3))))"

text \<open>
  The only caller passes \<open>removeEntry\<close> as true and drops the error. Closing the lock file releases the lock
  even when the explicit unlock failed.
\<close>

definition removeWorkspaceLock :: "faults \<Rightarrow> (string \<Rightarrow> string) \<Rightarrow> string \<Rightarrow> nat \<times> nat \<Rightarrow> fs \<Rightarrow> fs" where
  "removeWorkspaceLock ok hex jobID lk s =
     (case acquireLockRegistry ok s of
        (Some e, s1) \<Rightarrow> s1
      | (None, s1) \<Rightarrow> funlock lk (if ok RemoveLock then remove_entry (workspaceLockName hex jobID) s1 else s1))"

section \<open>Creating a workspace\<close>

record Workspace =
  w_job :: string
  w_root :: string
  w_jobsFS :: bool
  w_fsRoot :: "nat option"
  w_lockFile :: "(nat \<times> nat) option"

definition assetsDir :: "Workspace \<Rightarrow> string" where "assetsDir w = path_Join [w_root w, ''assets'']"
definition outputDir :: "Workspace \<Rightarrow> string" where "outputDir w = path_Join [w_root w, ''output'']"

text \<open>
  Writing into a job directory; a new entry at its top changes its modification time. Nothing can be
  created in a directory that was removed (\<open>linked\<close>).
\<close>

definition on_dir :: "nat \<Rightarrow> (jobdir \<Rightarrow> jobdir) \<Rightarrow> fs \<Rightarrow> fs" where
  "on_dir d f s = s\<lparr> fs_dirs := (fs_dirs s)(d := f (fs_dirs s d)) \<rparr>"

definition linked :: "string \<Rightarrow> nat \<Rightarrow> fs \<Rightarrow> bool" where
  "linked name d s \<longleftrightarrow> fs_entries s name = Some (EDir d)"

definition touch :: "gotime \<Rightarrow> string list \<Rightarrow> jobdir \<Rightarrow> jobdir" where
  "touch clk path j =
     (if length path = 1 \<and> path \<notin> jd_dirs j \<and> path \<notin> dom (jd_files j) then j\<lparr> jd_mtime := clk \<rparr> else j)"

text \<open>\<open>MkdirAll\<close> beneath the root of a job: the path and the directories above it.\<close>

definition up_paths :: "string list \<Rightarrow> string list list" where
  "up_paths path = map (\<lambda>n. take n path) [1..<Suc (length path)]"

definition mkdir_all :: "gotime \<Rightarrow> string list \<Rightarrow> jobdir \<Rightarrow> jobdir option" where
  "mkdir_all clk path j =
     (if list_ex (\<lambda>p. p \<in> dom (jd_files j)) (up_paths path) then None
      else Some ((touch clk (take 1 path) j)\<lparr> jd_dirs := jd_dirs j \<union> set (up_paths path) \<rparr>))"

definition MkdirAll_in :: "faults \<Rightarrow> gotime \<Rightarrow> string \<Rightarrow> nat \<Rightarrow> string list \<Rightarrow> fs \<Rightarrow> ws_error option \<times> fs" where
  "MkdirAll_in ok clk name d path s =
     (if \<not> ok (MkdirIn path) \<or> \<not> linked name d s then (Some (SyscallFailed (MkdirIn path)), s)
      else case mkdir_all clk path (fs_dirs s d) of
        None \<Rightarrow> (Some (SyscallFailed (MkdirIn path)), s)
      | Some j \<Rightarrow> (None, on_dir d (\<lambda>_. j) s))"

text \<open>The parts of \<open>New\<close> between which other processes may run.\<close>

definition new_mkdir :: "faults \<Rightarrow> (nat \<Rightarrow> bool) \<Rightarrow> gotime \<Rightarrow> string \<Rightarrow> fs \<Rightarrow> ws_error option \<times> fs" where
  "new_mkdir ok U clk jobID s =
     (case ValidateJobID U jobID of
        Inl e \<Rightarrow> (Some (InvalidWorkspaceID e), s)
      | Inr _ \<Rightarrow>
          (if \<not> ok MkdirJobsRoot then (Some (SyscallFailed MkdirJobsRoot), s)
           else if \<not> ok EvalSymlinks then (Some (SyscallFailed EvalSymlinks), s)
           else if \<not> ok OpenJobsRoot then (Some (SyscallFailed OpenJobsRoot), s)
           else if \<not> ok MkdirJob then (Some (SyscallFailed MkdirJob), s)
           else (None, mkdir_entry clk jobID s)))"

definition new_stat :: "faults \<Rightarrow> string \<Rightarrow> fs \<Rightarrow> (ws_error, nat) result" where
  "new_stat ok jobID s =
     (if \<not> ok LstatJob then Inl (SyscallFailed LstatJob)
      else case fs_entries s jobID of
        None \<Rightarrow> Inl (SyscallFailed LstatJob)
      | Some (EFile _) \<Rightarrow> Inl (NotARealDirectory jobID)
      | Some (EDir d) \<Rightarrow> Inr d)"

definition new_open :: "faults \<Rightarrow> string \<Rightarrow> nat \<Rightarrow> fs \<Rightarrow> (ws_error, nat) result" where
  "new_open ok jobID entryInfo s =
     (if \<not> ok OpenJob then Inl (SyscallFailed OpenJob)
      else case fs_entries s jobID of
        Some (EDir d) \<Rightarrow>
          (if \<not> ok StatJob then Inl (SyscallFailed StatJob)
           else if entryInfo \<noteq> d then Inl RootChanged
           else Inr d)
      | _ \<Rightarrow> Inl (SyscallFailed OpenJob))"

definition new_populate :: "faults \<Rightarrow> gotime \<Rightarrow> string \<Rightarrow> nat \<Rightarrow> fs \<Rightarrow> ws_error option \<times> fs" where
  "new_populate ok clk jobID d s =
     (case MkdirAll_in ok clk jobID d [''assets''] s of
        (Some e, s1) \<Rightarrow> (Some e, s1)
      | (None, s1) \<Rightarrow> MkdirAll_in ok clk jobID d [''output''] s1)"

definition new_workspace :: "string \<Rightarrow> string \<Rightarrow> nat \<times> nat \<Rightarrow> nat \<Rightarrow> Workspace" where
  "new_workspace jobsRoot jobID lk d =
     \<lparr> w_job = jobID, w_root = path_Join [jobsRoot, jobID], w_jobsFS = True, w_fsRoot = Some d, w_lockFile = Some lk \<rparr>"

text \<open>\<open>jobsRoot\<close> is the canonical path of the jobs root; \<open>okd\<close> are the faults of the deferred release.\<close>

definition ws_New ::
  "faults \<Rightarrow> faults \<Rightarrow> (nat \<Rightarrow> bool) \<Rightarrow> (string \<Rightarrow> string) \<Rightarrow> gotime \<Rightarrow> string \<Rightarrow> string \<Rightarrow> fs \<Rightarrow> (ws_error, Workspace) result \<times> fs" where
  "ws_New ok okd U hex clk jobsRoot jobID s =
     (case new_mkdir ok U clk jobID s of
        (Some e, s1) \<Rightarrow> (Inl e, s1)
      | (None, s1) \<Rightarrow>
          (case acquireWorkspaceLock ok hex jobID s1 of
             (Inl e, s2) \<Rightarrow> (Inl e, s2)
           | (Inr lk, s2) \<Rightarrow>
               (case new_stat ok jobID s2 of
                  Inl e \<Rightarrow> (Inl e, removeWorkspaceLock okd hex jobID lk s2)
                | Inr entryInfo \<Rightarrow>
                    (case new_open ok jobID entryInfo s2 of
                       Inl e \<Rightarrow> (Inl e, removeWorkspaceLock okd hex jobID lk s2)
                     | Inr d \<Rightarrow>
                         (case new_populate ok clk jobID d s2 of
                            (Some e, s3) \<Rightarrow> (Inl e, removeWorkspaceLock okd hex jobID lk s3)
                          | (None, s3) \<Rightarrow> (Inr (new_workspace jobsRoot jobID lk d), s3))))))"

section \<open>Using a workspace\<close>

definition write_file :: "faults \<Rightarrow> gotime \<Rightarrow> string list \<Rightarrow> bytes \<Rightarrow> Workspace \<Rightarrow> fs \<Rightarrow> ws_error option \<times> fs" where
  "write_file ok clk path data w s =
     (case w_fsRoot w of
        None \<Rightarrow> (Some ClosedWorkspace, s)
      | Some d \<Rightarrow>
          (if \<not> ok WriteIn \<or> \<not> linked (w_job w) d s \<or> path \<in> jd_dirs (fs_dirs s d) then (Some (SyscallFailed WriteIn), s)
           else (None, on_dir d (\<lambda>j. (touch clk path j)\<lparr> jd_files := (jd_files j)(path \<mapsto> data) \<rparr>) s)))"

definition WritePlan :: "faults \<Rightarrow> gotime \<Rightarrow> bytes \<Rightarrow> Workspace \<Rightarrow> fs \<Rightarrow> ws_error option \<times> fs" where
  "WritePlan ok clk plan w s = write_file ok clk [''plan.json''] plan w s"

definition WritePreparedPackage :: "faults \<Rightarrow> gotime \<Rightarrow> bytes \<Rightarrow> Workspace \<Rightarrow> fs \<Rightarrow> ws_error option \<times> fs" where
  "WritePreparedPackage ok clk pkg w s = write_file ok clk [''prepared.json''] pkg w s"

text \<open>\<open>fmt\<close> writes an instant in the layout of RFC 3339 with nanoseconds.\<close>

definition WriteLease :: "faults \<Rightarrow> (gotime \<Rightarrow> bytes) \<Rightarrow> gotime \<Rightarrow> gotime \<Rightarrow> Workspace \<Rightarrow> fs \<Rightarrow> ws_error option \<times> fs" where
  "WriteLease ok fmt clk until w s = write_file ok clk [leaseMarkerName] (fmt until) w s"

definition OutputPath :: "Workspace \<Rightarrow> string \<Rightarrow> string" where
  "OutputPath w name = path_Join [outputDir w, name]"

definition PlanPath :: "Workspace \<Rightarrow> string" where
  "PlanPath w = path_Join [w_root w, ''plan.json'']"

definition PreparedPackagePath :: "Workspace \<Rightarrow> string" where
  "PreparedPackagePath w = path_Join [w_root w, ''prepared.json'']"

text \<open>The checks that a relative path stays inside.\<close>

definition escapes :: "string \<Rightarrow> bool" where
  "escapes p \<longleftrightarrow> p = ''..'' \<or> take 3 p = ''../''"

definition OpenOutput :: "faults \<Rightarrow> gotime \<Rightarrow> string \<Rightarrow> Workspace \<Rightarrow> fs \<Rightarrow> (ws_error, string list) result \<times> fs" where
  "OpenOutput ok clk name w s =
     (case w_fsRoot w of
        None \<Rightarrow> (Inl ClosedWorkspace, s)
      | Some d \<Rightarrow>
          (let clean = path_Clean name in
           if IsAbs clean \<or> clean = ''.'' \<or> escapes clean then (Inl (InvalidOutputName name), s)
           else
             (let rel = elements (path_Join [''output'', clean]) in
              case (if butlast rel \<noteq> [] then MkdirAll_in ok clk (w_job w) d (butlast rel) s else (None, s)) of
                (Some e, s1) \<Rightarrow> (Inl e, s1)
              | (None, s1) \<Rightarrow>
                  (case write_file ok clk rel [] w s1 of
                     (Some e, s2) \<Rightarrow> (Inl e, s2)
                   | (None, s2) \<Rightarrow> (Inr rel, s2)))))"

definition ensurePathContained :: "string \<Rightarrow> string \<Rightarrow> bool" where
  "ensurePathContained base child \<longleftrightarrow>
     (case path_Rel base child of
        None \<Rightarrow> False
      | Some rel \<Rightarrow> rel \<noteq> ''.'' \<and> \<not> escapes rel \<and> \<not> IsAbs rel)"

definition assetPath :: "Workspace \<Rightarrow> string \<Rightarrow> (ws_error, string) result" where
  "assetPath w logical =
     (if logical = [] then Inl LogicalPathRequired
      else
        (let clean = path_Clean logical in
         if IsAbs clean \<or> escapes clean then Inl (LogicalPathEscapes logical)
         else
           (let candidate = (if clean = ''assets'' \<or> take 7 clean = ''assets/'' then path_Join [w_root w, clean]
                             else path_Join [assetsDir w, clean]) in
            if \<not> ensurePathContained (w_root w) candidate then Inl (LogicalPathEscapes logical)
            else Inr candidate)))"

section \<open>Cleanup\<close>

text \<open>
  The registry section of \<open>Cleanup\<close>. When \<open>RemoveAll\<close> fails it may have removed part of the tree:
  \<open>keep\<close> tells what is left.
\<close>

definition remove_tree :: "faults \<Rightarrow> (string list \<Rightarrow> bool) \<Rightarrow> string \<Rightarrow> fs \<Rightarrow> ws_error option \<times> fs" where
  "remove_tree ok keep name s =
     (if ok RemoveTree then (None, remove_entry name s)
      else
        (Some (SyscallFailed RemoveTree),
         case fs_entries s name of
           Some (EDir d) \<Rightarrow> on_dir d (\<lambda>j. j\<lparr> jd_files := jd_files j |` {p. keep p}, jd_dirs := {p \<in> jd_dirs j. keep p} \<rparr>) s
         | _ \<Rightarrow> s))"

definition cleanup_section ::
  "faults \<Rightarrow> (string \<Rightarrow> string) \<Rightarrow> (string list \<Rightarrow> bool) \<Rightarrow> Workspace \<Rightarrow> fs \<Rightarrow> ws_error option \<times> fs" where
  "cleanup_section ok hex keep w s =
     (if w_jobsFS w \<and> w_lockFile w \<noteq> None then
        (case acquireLockRegistry ok s of
           (Some e, s1) \<Rightarrow> (Some e, s1)
         | (None, s1) \<Rightarrow>
             (case remove_tree ok keep (path_Base (w_root w)) s1 of
                (Some e, s2) \<Rightarrow> (Some e, s2)
              | (None, s2) \<Rightarrow>
                  (if \<not> ok RemoveLock then (Some (SyscallFailed RemoveLock), s2)
                   else (None, remove_entry (workspaceLockName hex (path_Base (w_root w))) s2))))
      else if w_jobsFS w then remove_tree ok keep (path_Base (w_root w)) s
      else (None, s))"

definition first_of :: "'e option \<Rightarrow> 'e option \<Rightarrow> 'e option" where
  "first_of e e' = (case e of Some _ \<Rightarrow> e | None \<Rightarrow> e')"

definition failed_call :: "faults \<Rightarrow> wcall \<Rightarrow> ws_error option" where
  "failed_call ok c = (if ok c then None else Some (SyscallFailed c))"

text \<open>The rest of \<open>Cleanup\<close>: closing the handles, and releasing the lock unless something failed.\<close>

definition cleanup_close ::
  "faults \<Rightarrow> ws_error option \<Rightarrow> Workspace \<Rightarrow> fs \<Rightarrow> ws_error option \<times> Workspace \<times> fs" where
  "cleanup_close ok err w s =
     (let err1 = (if w_fsRoot w \<noteq> None then first_of err (failed_call ok CloseRoot) else err);
          w1 = w\<lparr> w_fsRoot := None \<rparr>;
          (err2, w2, s2) =
            (case w_lockFile w of
               None \<Rightarrow> (err1, w1, s)
             | Some lk \<Rightarrow>
                 (if err1 \<noteq> None then (err1, w1, s)
                  else if \<not> ok UnlockSlot then (Some (SyscallFailed UnlockSlot), w1, s)
                  else if \<not> ok CloseLock then (Some (SyscallFailed CloseLock), w1, funlock lk s)
                  else (None, w1\<lparr> w_lockFile := None \<rparr>, funlock lk s)))
      in (if w_jobsFS w then first_of err2 (failed_call ok CloseJobsRoot) else err2, w2\<lparr> w_jobsFS := False \<rparr>, s2))"

definition Cleanup ::
  "faults \<Rightarrow> (string \<Rightarrow> string) \<Rightarrow> (string list \<Rightarrow> bool) \<Rightarrow> Workspace \<Rightarrow> fs \<Rightarrow> ws_error option \<times> Workspace \<times> fs" where
  "Cleanup ok hex keep w s =
     (if w_fsRoot w = None \<and> \<not> w_jobsFS w \<and> w_lockFile w = None then (None, w, s)
      else case cleanup_section ok hex keep w s of (err, s1) \<Rightarrow> cleanup_close ok err w s1)"

section \<open>The sweep\<close>

definition sweep_lstat :: "faults \<Rightarrow> gotime \<Rightarrow> string \<Rightarrow> fs \<Rightarrow> (ws_error, bool) result" where
  "sweep_lstat ok cutoff name s =
     (if \<not> ok LstatJob then Inl (SyscallFailed LstatJob)
      else case fs_entries s name of
        None \<Rightarrow> Inl (SyscallFailed LstatJob)
      | Some (EFile _) \<Rightarrow> Inr False
      | Some (EDir d) \<Rightarrow> Inr (\<not> jd_mtime (fs_dirs s d) > cutoff))"

definition sweep_open :: "faults \<Rightarrow> string \<Rightarrow> fs \<Rightarrow> (ws_error, nat option) result" where
  "sweep_open ok name s =
     (case fs_entries s name of
        Some (EDir d) \<Rightarrow> if ok OpenJob then Inr (Some d) else Inl (SyscallFailed OpenJob)
      | _ \<Rightarrow> Inr None)"

text \<open>\<open>parse\<close> reads an instant in the layout of RFC 3339.\<close>

definition lease_valid :: "faults \<Rightarrow> (bytes \<Rightarrow> gotime option) \<Rightarrow> gotime \<Rightarrow> nat \<Rightarrow> fs \<Rightarrow> bool" where
  "lease_valid ok parse now d s \<longleftrightarrow>
     ok ReadLease \<and>
     (case jd_files (fs_dirs s d) [leaseMarkerName] of
        None \<Rightarrow> False
      | Some raw \<Rightarrow> (case parse (TrimSpace raw) of None \<Rightarrow> False | Some lease \<Rightarrow> lease > now))"

definition sweep_locked ::
  "faults \<Rightarrow> (string \<Rightarrow> string) \<Rightarrow> (bytes \<Rightarrow> gotime option) \<Rightarrow> (string list \<Rightarrow> bool) \<Rightarrow> gotime \<Rightarrow> string \<Rightarrow> nat \<Rightarrow> fs
     \<Rightarrow> ws_error option \<times> fs" where
  "sweep_locked ok hex parse keep now name d s =
     (if lease_valid ok parse now d s then (None, s)
      else case remove_tree ok keep name s of
        (Some e, s1) \<Rightarrow> (Some e, s1)
      | (None, s1) \<Rightarrow>
          (if \<not> ok RemoveLock then (Some (SyscallFailed RemoveLock), s1)
           else (None, remove_entry (workspaceLockName hex name) s1)))"

definition sweep_section ::
  "faults \<Rightarrow> (string \<Rightarrow> string) \<Rightarrow> (bytes \<Rightarrow> gotime option) \<Rightarrow> (string list \<Rightarrow> bool) \<Rightarrow> gotime \<Rightarrow> string \<Rightarrow> nat \<Rightarrow> fs
     \<Rightarrow> ws_error option \<times> fs" where
  "sweep_section ok hex parse keep now name d s =
     (case acquireLockRegistry ok s of
        (Some e, s1) \<Rightarrow> (Some e, s1)
      | (None, s1) \<Rightarrow>
          (case openWorkspaceLock ok hex name s1 of
             (Inl e, s2) \<Rightarrow> (Some e, s2)
           | (Inr i, s2) \<Rightarrow>
               (if \<not> ok LockSlot then (Some (SyscallFailed LockSlot), s2)
                else case try_flock i s2 of
                  (None, s3) \<Rightarrow> (None, s3)
                | (Some h, s3) \<Rightarrow>
                    (case sweep_locked ok hex parse keep now name d s3 of (e, s4) \<Rightarrow> (e, funlock (i, h) s4)))))"

definition sweep_entry ::
  "faults \<Rightarrow> (string \<Rightarrow> string) \<Rightarrow> (bytes \<Rightarrow> gotime option) \<Rightarrow> (string list \<Rightarrow> bool) \<Rightarrow> gotime \<Rightarrow> gotime \<Rightarrow> string \<Rightarrow> fs
     \<Rightarrow> ws_error option \<times> fs" where
  "sweep_entry ok hex parse keep cutoff now name s =
     (case sweep_lstat ok cutoff name s of
        Inl e \<Rightarrow> (Some e, s)
      | Inr False \<Rightarrow> (None, s)
      | Inr True \<Rightarrow>
          (case sweep_open ok name s of
             Inl e \<Rightarrow> (Some e, s)
           | Inr None \<Rightarrow> (None, s)
           | Inr (Some d) \<Rightarrow> sweep_section ok hex parse keep now name d s))"

text \<open>The loop over the listing; \<open>isDir\<close> is the type the listing gave for a name.\<close>

fun sweep_loop ::
  "(string \<Rightarrow> faults) \<Rightarrow> (string \<Rightarrow> string) \<Rightarrow> (bytes \<Rightarrow> gotime option) \<Rightarrow> (string list \<Rightarrow> bool) \<Rightarrow> gotime \<Rightarrow> (string \<Rightarrow> gotime)
     \<Rightarrow> (string \<times> bool) list \<Rightarrow> fs \<Rightarrow> ws_error option \<times> fs" where
  "sweep_loop ok hex parse keep cutoff now [] s = (None, s)"
| "sweep_loop ok hex parse keep cutoff now ((name, isDir) # es) s =
     (if \<not> isDir \<or> take 1 name = ''.'' then sweep_loop ok hex parse keep cutoff now es s
      else case sweep_entry (ok name) hex parse keep cutoff (now name) name s of
        (Some e, s1) \<Rightarrow> (Some e, s1)
      | (None, s1) \<Rightarrow> sweep_loop ok hex parse keep cutoff now es s1)"

text \<open>
  \<open>listing\<close> is the content of the jobs root as \<open>ReadDir\<close> returns it; \<open>rootMissing\<close> tells that the jobs
  root does not exist. \<open>now\<close> gives the clock at each check of a lease.
\<close>

definition CleanupStale ::
  "(string \<Rightarrow> faults) \<Rightarrow> faults \<Rightarrow> bool \<Rightarrow> (string \<Rightarrow> string) \<Rightarrow> (bytes \<Rightarrow> gotime option) \<Rightarrow> (string list \<Rightarrow> bool)
     \<Rightarrow> gotime \<Rightarrow> (string \<Rightarrow> gotime) \<Rightarrow> duration \<Rightarrow> (string \<times> bool) list \<Rightarrow> fs \<Rightarrow> ws_error option \<times> fs" where
  "CleanupStale ok rootOk rootMissing hex parse keep clk now olderThan listing s =
     (if \<not> rootOk EvalSymlinks then (if rootMissing then None else Some (SyscallFailed EvalSymlinks), s)
      else if \<not> rootOk OpenJobsRoot then (Some (SyscallFailed OpenJobsRoot), s)
      else if \<not> rootOk ReadDirRoot then (Some (SyscallFailed ReadDirRoot), s)
      else sweep_loop ok hex parse keep (clk - olderThan) now listing s)"

section \<open>Logical paths\<close>

lemma first_element:
  assumes "CHR ''/'' \<notin> set s" and "CHR ''/'' \<notin> set d"
  shows "join_slash (s # ss) = d \<or> take (Suc (length d)) (join_slash (s # ss)) = d @ ''/'' \<longleftrightarrow> s = d"
proof (cases ss)
  case Nil
  have "take n s \<noteq> d @ ''/''" for n using assms(1) in_set_takeD [of "CHR ''/''" n s] by (metis in_set_conv_decomp)
  then show ?thesis using Nil by simp
next
  case (Cons a as)
  let ?p = "s @ CHR ''/'' # join_slash ss"
  have "s = d" if "take (Suc (length d)) ?p = d @ ''/''"
  proof -
    have "?p = d @ CHR ''/'' # drop (Suc (length d)) ?p" using that append_take_drop_id [of "Suc (length d)" ?p] by simp
    then have "split_slash ?p = d # split_slash (drop (Suc (length d)) ?p)" by (metis assms(2) split_slash_append)
    then show ?thesis by (simp add: split_slash_append [OF assms(1)])
  qed
  moreover have "?p \<noteq> d" using assms(2) by auto
  ultimately show ?thesis using Cons by (auto simp: join_slash_Cons)
qed

lemma normal_elements: "normal rooted (s # ss) \<Longrightarrow> CHR ''/'' \<notin> set s"
  by (meson list.set_intros(1) normal_no_slash)

lemma escapes_render: "normal False us \<Longrightarrow> escapes (render False us) \<longleftrightarrow> us \<noteq> [] \<and> hd us = ''..''"
  using first_element [OF normal_elements, of False _ _ "''..''"]
  by (cases us) (simp_all add: escapes_def render_def eval_nat_numeral)

lemma dots_first:
  assumes "normal False us" shows "us \<noteq> [] \<and> hd us = ''..'' \<longleftrightarrow> ''..'' \<in> set us"
proof -
  obtain n vs where *: "us = replicate n ''..'' @ vs" "\<forall>s \<in> set vs. plain_seg s" using assms by (auto simp: normal_def)
  moreover have "''..'' \<notin> set vs" using * not_plain_dots(1) by blast
  ultimately show ?thesis by (cases n; cases vs) auto
qed

lemma plain_elements: "normal False us \<Longrightarrow> ''..'' \<notin> set us \<Longrightarrow> s \<in> set us \<Longrightarrow> plain_seg s"
  using normal_no_slash [of False us s] by (metis plain_seg_def)

lemma assets_prefix:
  "normal False us \<Longrightarrow>
     (render False us = ''assets'' \<or> take 7 (render False us) = ''assets/'') \<longleftrightarrow> us \<noteq> [] \<and> hd us = ''assets''"
  using first_element [OF normal_elements, of False _ _ "''assets''"]
  by (cases us) (simp_all add: render_def eval_nat_numeral)

definition asset_elements :: "string list \<Rightarrow> string list" where
  "asset_elements us = (if us \<noteq> [] \<and> hd us = ''assets'' then us else ''assets'' # us)"

lemma plain_assets [simp]: "plain_seg ''assets''" "plain_seg ''output''"
  by (simp_all add: plain_seg_def)

lemma contained_below:
  assumes "\<forall>s \<in> set rs. plain_seg s" and "\<forall>s \<in> set us. plain_seg s" and "us \<noteq> []"
  shows "ensurePathContained (render True rs) (render True (rs @ us))"
proof -
  have n: "normal False us" using assms(2) by (simp add: normal_plain)
  have "render False us \<noteq> ''.''" using render_inj [OF n normal_Nil [of False]] assms(3) by (simp add: render_def)
  moreover have "hd us \<noteq> ''..''" using assms(2,3) not_plain_dots(1) hd_in_set by metis
  ultimately show ?thesis
    using n by (simp add: ensurePathContained_def path_Rel_below [OF assms(1,2)] escapes_render)
qed

lemma assetsDir_render:
  assumes "w_root w = render True rs" and "\<forall>s \<in> set rs. plain_seg s"
  shows "assetsDir w = render True (rs @ [''assets''])"
  using path_Join_below [of rs "[''assets'']"] assms
  by (simp add: assetsDir_def normal_rooted_iff) (simp add: render_def)

lemma assetPath_eq:
  assumes "w_root w = render True rs" and "\<forall>s \<in> set rs. plain_seg s"
  shows "assetPath w logical =
    (if logical = [] then Inl LogicalPathRequired
     else if IsAbs logical \<or> ''..'' \<in> set (path_segs logical) then Inl (LogicalPathEscapes logical)
     else Inr (render True (rs @ asset_elements (path_segs logical))))"
proof -
  let ?us = "path_segs logical"
  have n: "normal (IsAbs logical) ?us" by (rule path_segs_normal)
  show ?thesis
  proof (cases "IsAbs logical")
    case True
    then show ?thesis using IsAbs_render [OF n] by (simp add: assetPath_def path_Clean_def Let_def)
  next
    case False
    then have nf: "normal False ?us" using n by simp
    have clean: "path_Clean logical = render False ?us" using False by (simp add: path_Clean_def)
    have esc: "escapes (path_Clean logical) \<longleftrightarrow> ''..'' \<in> set ?us" using clean escapes_render [OF nf] dots_first [OF nf] by simp
    show ?thesis
    proof (cases "''..'' \<in> set ?us")
      case True
      then show ?thesis using False esc by (simp add: assetPath_def Let_def)
    next
      case inside: False
      have pl: "\<forall>s \<in> set ?us. plain_seg s" using plain_elements [OF nf inside] by blast
      then have ae: "\<forall>s \<in> set (asset_elements ?us). plain_seg s" "asset_elements ?us \<noteq> []" by (auto simp: asset_elements_def)
      have rs: "normal True rs" "normal True (rs @ [''assets''])" using assms(2) by (simp_all add: normal_rooted_iff)
      have "(if path_Clean logical = ''assets'' \<or> take 7 (path_Clean logical) = ''assets/'' then path_Join [w_root w, path_Clean logical]
             else path_Join [assetsDir w, path_Clean logical]) = render True (rs @ asset_elements ?us)"
        using path_Join_below [OF rs(1) pl] path_Join_below [OF rs(2) pl] assets_prefix [OF nf]
        by (simp add: clean assms(1) assetsDir_render [OF assms] asset_elements_def)
      moreover have "ensurePathContained (w_root w) (render True (rs @ asset_elements ?us))"
        using contained_below [OF assms(2) ae] assms(1) by simp
      moreover have "\<not> IsAbs (path_Clean logical)" using IsAbs_render [OF nf] clean by simp
      ultimately show ?thesis using False inside esc by (simp add: assetPath_def Let_def)
    qed
  qed
qed

text \<open>Below the assets directory, or the directory itself for a name that cleans to nothing.\<close>

lemma assetPath_below:
  assumes "w_root w = render True rs" and "\<forall>s \<in> set rs. plain_seg s" and "assetPath w logical = Inr p"
  shows "\<exists>us. p = render True (rs @ ''assets'' # us) \<and> (\<forall>s \<in> set us. plain_seg s)
    \<and> (us = [] \<longleftrightarrow> path_segs logical \<in> {[], [''assets'']})"
proof -
  let ?us = "path_segs logical"
  have p: "p = render True (rs @ asset_elements ?us)" and esc: "''..'' \<notin> set ?us"
    using assms(3) assetPath_eq [OF assms(1,2), of logical] by (auto split: if_splits)
  obtain n us where us: "?us = replicate n ''..'' @ us" "\<forall>s \<in> set us. plain_seg s"
    using path_segs_normal [of logical] by (auto simp: normal_def)
  then have plain: "\<forall>s \<in> set ?us. plain_seg s" using esc by (cases n) auto
  show ?thesis
  proof (cases "?us \<noteq> [] \<and> hd ?us = ''assets''")
    case True
    then obtain vs where "?us = ''assets'' # vs" by (cases ?us) auto
    then show ?thesis using p plain by (intro exI [of _ vs]) (auto simp: asset_elements_def)
  next
    case False
    then show ?thesis using p plain by (intro exI [of _ ?us]) (auto simp: asset_elements_def)
  qed
qed

text \<open>
  C36. In a workspace whose root is an absolute, cleaned path, a logical path is refused exactly when it is
  empty, absolute or steps out with \<open>..\<close> once it is cleaned. Every other logical path names a place in
  the workspace's assets directory, under the cleaned path: strictly below the directory, except that a
  path that cleans to nothing or to \<open>assets\<close> (such as \<open>.\<close> or \<open>a/..\<close>) is accepted and names the
  directory itself.
\<close>

theorem asset_paths_stay_inside:
  assumes "w_root w = render True rs" and "\<forall>s \<in> set rs. plain_seg s"
  shows "assetPath w logical =
    (if logical = [] then Inl LogicalPathRequired
     else if IsAbs logical \<or> ''..'' \<in> set (path_segs logical) then Inl (LogicalPathEscapes logical)
     else Inr (render True (rs @ asset_elements (path_segs logical))))
    \<and> (\<forall>p. assetPath w logical = Inr p \<longrightarrow>
         (\<exists>us. p = render True (rs @ ''assets'' # us) \<and> (\<forall>s \<in> set us. plain_seg s)
           \<and> (us = [] \<longleftrightarrow> path_segs logical \<in> {[], [''assets'']})))"
  using assetPath_eq [OF assms, of logical] assetPath_below [OF assms, of logical] by blast

theorem asset_paths_stay_inside_witness:
  "assetPath \<lparr> w_job = ''a'', w_root = ''/jobs/a'', w_jobsFS = True, w_fsRoot = Some 0, w_lockFile = None \<rparr> ''img/../x.png''
     = Inr ''/jobs/a/assets/x.png''"
proof -
  have r: "''/jobs/a'' = render True [''jobs'', ''a'']" by (simp add: render_def)
  have p: "\<forall>s \<in> set [''jobs'', ''a'']. plain_seg s" by (simp add: plain_seg_def)
  have s: "path_segs ''img/../x.png'' = [''x.png'']" "\<not> IsAbs ''img/../x.png''"
    by (simp_all add: path_segs_def IsAbs_def clean_segs_def clean_step_def)
  have w: "w_root \<lparr> w_job = ''a'', w_root = ''/jobs/a'', w_jobsFS = True, w_fsRoot = Some 0, w_lockFile = None \<rparr>
      = render True [''jobs'', ''a'']" unfolding r by simp
  have o: "render True ([''jobs'', ''a''] @ asset_elements [''x.png'']) = ''/jobs/a/assets/x.png''"
    by (simp add: render_def asset_elements_def)
  show ?thesis using asset_paths_stay_inside [OF w p, of "''img/../x.png''", THEN conjunct1] unfolding s(1) o by (simp add: s(2))
qed

text \<open>
  The two spellings of a logical path name the same asset, so a job that declares both has one file
  for two assets.
\<close>

lemma asset_spellings_collide:
  assumes "w_root w = render True rs" and "\<forall>s \<in> set rs. plain_seg s" and "plain_seg x" and "x \<noteq> ''assets''"
  shows "assetPath w x = assetPath w (''assets/'' @ x)"
proof -
  have n: "normal False [x]" "normal False [''assets'', x]" using assms(3) by (auto simp: normal_plain)
  have r: "render False [x] = x" "render False [''assets'', x] = ''assets/'' @ x" by (simp_all add: render_def)
  have "path_segs x = [x]" "path_segs (''assets/'' @ x) = [''assets'', x]" using path_segs_render [OF n(1)] path_segs_render [OF n(2)] r by simp_all
  moreover have "\<not> IsAbs x" "\<not> IsAbs (''assets/'' @ x)" using IsAbs_render [OF n(1)] IsAbs_render [OF n(2)] r by simp_all
  moreover have "x \<noteq> []" "x \<noteq> ''..''" using assms(3) by (auto simp: plain_seg_def)
  ultimately show ?thesis using assms(4) by (simp add: assetPath_eq [OF assms(1,2)] asset_elements_def)
qed

end
