(* ===== verification/Workspace_Sharing.thy ===== *)
theory Workspace_Sharing
  imports Workspace
begin

text \<open>
  Several processes on one jobs root: workers that create, use and clean up workspaces, sweeps of
  stale directories, and crashes, which release the locks of the process and leave its files. The
  steps are the parts of \<open>New\<close>, \<open>Cleanup\<close> and \<open>CleanupStale\<close> between which the code holds no lock on the
  registry. The theory shows that a live workspace has one owner and keeps its directory.
\<close>

section \<open>Processes\<close>

datatype proc =
    NewMade string
  | NewLocked string "nat \<times> nat"
  | NewStated string "nat \<times> nat" nat
  | NewOpened string "nat \<times> nat" nat
  | NewAborting string "nat \<times> nat"
  | Owner Workspace
  | Closing Workspace "ws_error option"
  | SweepSeen string
  | SweepPinned string nat

record world =
  wl_fs :: fs
  wl_procs :: "nat \<rightharpoonup> proc"

text \<open>One step of a process; \<open>None\<close> tells that it is done. An owner's step is the start of \<open>Cleanup\<close>.\<close>

definition proc_step ::
  "faults \<Rightarrow> (string \<Rightarrow> string) \<Rightarrow> (bytes \<Rightarrow> gotime option) \<Rightarrow> (string list \<Rightarrow> bool) \<Rightarrow> gotime \<Rightarrow> string list \<Rightarrow> proc \<Rightarrow> fs
     \<Rightarrow> proc option \<times> fs" where
  "proc_step ok hex parse keep clk rs pr s =
     (case pr of
        NewMade j \<Rightarrow>
          (case acquireWorkspaceLock ok hex j s of
             (Inl e, s') \<Rightarrow> (None, s') | (Inr lk, s') \<Rightarrow> (Some (NewLocked j lk), s'))
      | NewLocked j lk \<Rightarrow>
          (case new_stat ok j s of Inl e \<Rightarrow> (Some (NewAborting j lk), s) | Inr d \<Rightarrow> (Some (NewStated j lk d), s))
      | NewStated j lk d \<Rightarrow>
          (case new_open ok j d s of Inl e \<Rightarrow> (Some (NewAborting j lk), s) | Inr d' \<Rightarrow> (Some (NewOpened j lk d'), s))
      | NewOpened j lk d \<Rightarrow>
          (case new_populate ok clk j d s of
             (Some e, s') \<Rightarrow> (Some (NewAborting j lk), s')
           | (None, s') \<Rightarrow> (Some (Owner (new_workspace (render True rs) j lk d)), s'))
      | NewAborting j lk \<Rightarrow> (None, removeWorkspaceLock ok hex j lk s)
      | Owner w \<Rightarrow> (case cleanup_section ok hex keep w s of (err, s') \<Rightarrow> (Some (Closing w err), s'))
      | Closing w err \<Rightarrow>
          (case cleanup_close ok err w s of
             (err', w', s') \<Rightarrow> (if w_lockFile w' = None then None else Some (Owner w'), s'))
      | SweepSeen n \<Rightarrow> (case sweep_open ok n s of Inr (Some d) \<Rightarrow> Some (SweepPinned n d) | _ \<Rightarrow> None, s)
      | SweepPinned n d \<Rightarrow> (None, snd (sweep_section ok hex parse keep clk n d s)))"

definition lock_of :: "proc \<Rightarrow> (nat \<times> nat) option" where
  "lock_of pr =
     (case pr of
        NewLocked j lk \<Rightarrow> Some lk | NewStated j lk d \<Rightarrow> Some lk | NewOpened j lk d \<Rightarrow> Some lk | NewAborting j lk \<Rightarrow> Some lk
      | Owner w \<Rightarrow> w_lockFile w | Closing w err \<Rightarrow> w_lockFile w | _ \<Rightarrow> None)"

text \<open>
  A worker starts \<open>New\<close>, a sweep picks a directory, a process goes on, an owner changes the content of
  its directory, a process dies.
\<close>

inductive ws_step :: "(string \<Rightarrow> string) \<Rightarrow> (bytes \<Rightarrow> gotime option) \<Rightarrow> string list \<Rightarrow> world \<Rightarrow> world \<Rightarrow> bool"
  for hex parse rs where
  start: "wl_procs w p = None \<Longrightarrow> new_mkdir ok U clk j (wl_fs w) = (e, s') \<Longrightarrow>
     ws_step hex parse rs w \<lparr> wl_fs = s', wl_procs = (wl_procs w)(p := if e = None then Some (NewMade j) else None) \<rparr>"
| look: "wl_procs w p = None \<Longrightarrow> take 1 n \<noteq> ''.'' \<Longrightarrow> sweep_lstat ok cutoff n (wl_fs w) = Inr True \<Longrightarrow>
     ws_step hex parse rs w (w\<lparr> wl_procs := (wl_procs w)(p \<mapsto> SweepSeen n) \<rparr>)"
| advance: "wl_procs w p = Some pr \<Longrightarrow> proc_step ok hex parse keep clk rs pr (wl_fs w) = (pr', s') \<Longrightarrow>
     ws_step hex parse rs w \<lparr> wl_fs = s', wl_procs = (wl_procs w)(p := pr') \<rparr>"
| work: "wl_procs w p = Some (Owner ws) \<Longrightarrow> w_fsRoot ws = Some d \<Longrightarrow>
     ws_step hex parse rs w (w\<lparr> wl_fs := on_dir d f (wl_fs w) \<rparr>)"
| crash: "wl_procs w p = Some pr \<Longrightarrow>
     ws_step hex parse rs w \<lparr> wl_fs = (case lock_of pr of None \<Rightarrow> wl_fs w | Some lk \<Rightarrow> funlock lk (wl_fs w)),
       wl_procs = (wl_procs w)(p := None) \<rparr>"

text \<open>Numbers in use are below the next fresh one.\<close>

definition fs_wf :: "fs \<Rightarrow> bool" where
  "fs_wf s \<longleftrightarrow>
     (\<forall>n i. fs_entries s n = Some (EFile i) \<longrightarrow> i < fs_next s) \<and>
     (\<forall>i h. fs_flock s i = Some h \<longrightarrow> i < fs_next s \<and> h < fs_next s)"

inductive ws_reach :: "(string \<Rightarrow> string) \<Rightarrow> (bytes \<Rightarrow> gotime option) \<Rightarrow> string list \<Rightarrow> world \<Rightarrow> bool"
  for hex parse rs where
  initial: "fs_wf s \<Longrightarrow> fs_flock s = Map.empty \<Longrightarrow> ws_reach hex parse rs \<lparr> wl_fs = s, wl_procs = Map.empty \<rparr>"
| further: "ws_reach hex parse rs w \<Longrightarrow> ws_step hex parse rs w w' \<Longrightarrow> ws_reach hex parse rs w'"

section \<open>What an operation may change\<close>

text \<open>
  \<open>changes X H s s'\<close>: entries outside \<open>X\<close> survive, and so do locks of open files outside \<open>H\<close>.
\<close>

definition changes :: "string set \<Rightarrow> nat set \<Rightarrow> fs \<Rightarrow> fs \<Rightarrow> bool" where
  "changes X H s s' \<longleftrightarrow>
     fs_next s \<le> fs_next s' \<and> (fs_wf s \<longrightarrow> fs_wf s') \<and>
     (\<forall>n e. n \<notin> X \<longrightarrow> fs_entries s n = Some e \<longrightarrow> fs_entries s' n = Some e) \<and>
     (\<forall>i h. h \<notin> H \<longrightarrow> fs_flock s i = Some h \<longrightarrow> fs_flock s' i = Some h)"

lemma changes_refl [intro, simp]: "changes X H s s"
  by (simp add: changes_def)

lemma changes_trans: "changes X H s s' \<Longrightarrow> changes X' H' s' s'' \<Longrightarrow> X \<subseteq> Y \<Longrightarrow> X' \<subseteq> Y \<Longrightarrow> H \<subseteq> K \<Longrightarrow> H' \<subseteq> K \<Longrightarrow> changes Y K s s''"
  unfolding changes_def by (meson order_trans subsetD)

lemma changes_mono: "changes X H s s' \<Longrightarrow> X \<subseteq> Y \<Longrightarrow> H \<subseteq> K \<Longrightarrow> changes Y K s s'"
  by (rule changes_trans [OF _ changes_refl]) auto

lemma changes_mkdir_entry: "changes {} {} s (mkdir_entry clk n s)"
  by (auto simp: changes_def mkdir_entry_def fs_wf_def less_SucI split: option.splits)

lemma changes_open_create: "open_create n s = (r, s') \<Longrightarrow> changes {} {} s s'"
  by (auto simp: changes_def open_create_def fs_wf_def less_SucI split: option.splits entry.splits if_splits)

lemma changes_remove_entry: "changes {n} {} s (remove_entry n s)"
  by (auto simp: changes_def remove_entry_def fs_wf_def split: if_splits)

lemma changes_try_flock: "try_flock i s = (r, s') \<Longrightarrow> (fs_wf s \<Longrightarrow> i < fs_next s) \<Longrightarrow> changes {} {} s s'"
  by (auto simp: changes_def try_flock_def fs_wf_def less_SucI split: option.splits if_splits)

lemma changes_funlock: "changes {} {snd lk} s (funlock lk s)"
  by (auto simp: changes_def funlock_def fs_wf_def split: if_splits)

lemma changes_on_dir: "changes {} {} s (on_dir d f s)"
  by (simp add: changes_def on_dir_def fs_wf_def)

lemma open_create_Some: "open_create n s = (Some i, s') \<Longrightarrow> fs_entries s' n = Some (EFile i)"
  by (auto simp: open_create_def split: option.splits entry.splits)

lemma try_flock_Some:
  "try_flock i s = (Some h, s') \<Longrightarrow> fs_flock s i = None \<and> h = fs_next s \<and> fs_flock s' i = Some h \<and> h < fs_next s' \<and> fs_entries s' = fs_entries s"
  by (auto simp: try_flock_def split: option.splits)

lemma changes_registry: "acquireLockRegistry ok s = (r, s') \<Longrightarrow> changes {} {} s s'"
  by (auto simp: acquireLockRegistry_def dest!: changes_open_create split: if_splits prod.splits option.splits)

lemma changes_openLock: "openWorkspaceLock ok hex j s = (r, s') \<Longrightarrow> changes {} {} s s'"
  by (auto simp: openWorkspaceLock_def dest!: changes_open_create split: if_splits prod.splits option.splits)

lemma openLock_Inr: "openWorkspaceLock ok hex j s = (Inr i, s') \<Longrightarrow> fs_entries s' (workspaceLockName hex j) = Some (EFile i)"
  by (auto simp: openWorkspaceLock_def dest!: open_create_Some split: if_splits prod.splits option.splits)

lemma entry_number: "fs_entries s n = Some (EFile i) \<Longrightarrow> fs_wf s \<Longrightarrow> i < fs_next s"
  by (simp add: fs_wf_def)

text \<open>The lock of a name is free when nobody holds the file under its lock name.\<close>

definition lock_free :: "(string \<Rightarrow> string) \<Rightarrow> string \<Rightarrow> fs \<Rightarrow> bool" where
  "lock_free hex n s \<longleftrightarrow>
     (case fs_entries s (workspaceLockName hex n) of None \<Rightarrow> True | Some (EDir _) \<Rightarrow> False | Some (EFile i) \<Rightarrow> fs_flock s i = None)"

lemma lock_freeI:
  assumes "changes {} {} s s'" and "fs_entries s' (workspaceLockName hex n) = Some (EFile i)" and "fs_flock s' i = None"
  shows "lock_free hex n s"
proof (cases "fs_entries s (workspaceLockName hex n)")
  case (Some e)
  then have "e = EFile i" using assms(1,2) by (simp add: changes_def)
  moreover have "fs_flock s i = None" using assms(1,3) by (cases "fs_flock s i") (auto simp: changes_def)
  ultimately show ?thesis using Some by (simp add: lock_free_def)
qed (simp add: lock_free_def)

lemma acquireWorkspaceLock_changes:
  assumes "acquireWorkspaceLock ok hex j s = (r, s')"
  shows "changes {} {} s s'"
    and "r = Inr (i, h) \<Longrightarrow> fs_entries s' (workspaceLockName hex j) = Some (EFile i) \<and> fs_flock s' i = Some h
      \<and> fs_next s \<le> h \<and> h < fs_next s' \<and> lock_free hex j s"
proof -
  obtain e1 s1 where r1: "acquireLockRegistry ok s = (e1, s1)" by fastforce
  obtain r2 s2 where r2: "openWorkspaceLock ok hex j s1 = (r2, s2)" by fastforce
  obtain s12: "changes {} {} s s1" "changes {} {} s1 s2" using r1 r2 changes_registry changes_openLock by blast
  then have c2: "changes {} {} s s2" by (rule changes_trans) auto
  have fl: "changes {} {} s s3" "fs_next s \<le> fs_next s2" if "r2 = Inr i" "try_flock i s2 = (q, s3)" for i q s3
  proof -
    have "fs_wf s2 \<Longrightarrow> i < fs_next s2" using openLock_Inr r2 that(1) entry_number by blast
    then show "changes {} {} s s3" using changes_trans [OF c2 changes_try_flock [OF that(2)]] by blast
    show "fs_next s \<le> fs_next s2" using c2 by (simp add: changes_def)
  qed
  show "changes {} {} s s'"
    using assms r1 r2 s12(1) c2 fl by (auto simp: acquireWorkspaceLock_def split: option.splits sum.splits if_splits prod.splits)
  show "fs_entries s' (workspaceLockName hex j) = Some (EFile i) \<and> fs_flock s' i = Some h
      \<and> fs_next s \<le> h \<and> h < fs_next s' \<and> lock_free hex j s" if "r = Inr (i, h)"
  proof -
    from assms r1 r2 that have a: "r2 = Inr i" "try_flock i s2 = (Some h, s')"
      by (auto simp: acquireWorkspaceLock_def split: option.splits sum.splits if_splits prod.splits)
    then have e: "fs_entries s2 (workspaceLockName hex j) = Some (EFile i)" using r2 openLock_Inr by blast
    moreover have "lock_free hex j s" by (rule lock_freeI [OF c2 e conjunct1 [OF try_flock_Some [OF a(2)]]])
    ultimately show ?thesis using try_flock_Some [OF a(2)] fl [OF a] by auto
  qed
qed

lemma remove_tree_changes: "remove_tree ok keep n s = (r, s') \<Longrightarrow> changes {n} {} s s'"
  using changes_remove_entry changes_mono [OF changes_on_dir, of "{n}" "{}"]
  by (auto simp: remove_tree_def split: if_splits option.splits entry.splits)

lemma sweep_locked_changes:
  assumes "sweep_locked ok hex parse keep clk n d s = (r, s')"
  shows "changes {n, workspaceLockName hex n} {} s s'"
proof -
  obtain e1 s1 where rt: "remove_tree ok keep n s = (e1, s1)" by fastforce
  have c: "changes {n, workspaceLockName hex n} {} s s1" by (rule changes_mono [OF remove_tree_changes [OF rt]]) auto
  moreover have "changes {n, workspaceLockName hex n} {} s (remove_entry (workspaceLockName hex n) s1)"
    by (rule changes_trans [OF c changes_remove_entry]) auto
  ultimately show ?thesis using assms rt
    by (auto simp: sweep_locked_def split: if_splits option.splits)
qed

text \<open>A sweep step removes nothing, or it found the lock of the name free.\<close>

lemma sweep_section_changes:
  assumes "sweep_section ok hex parse keep clk n d s = (r, s')"
  shows "changes {} {} s s' \<or> lock_free hex n s \<and> changes {n, workspaceLockName hex n} {h. fs_next s \<le> h} s s'"
proof -
  obtain e1 s1 where r1: "acquireLockRegistry ok s = (e1, s1)" by fastforce
  obtain r2 s2 where r2: "openWorkspaceLock ok hex n s1 = (r2, s2)" by fastforce
  obtain s12: "changes {} {} s s1" "changes {} {} s1 s2" using r1 r2 changes_registry changes_openLock by blast
  then have c2: "changes {} {} s s2" by (rule changes_trans) auto
  show ?thesis
  proof (cases "\<exists>i h s3. e1 = None \<and> r2 = Inr i \<and> ok LockSlot \<and> try_flock i s2 = (Some h, s3)")
    case True
    then obtain i h s3 where a: "e1 = None" "r2 = Inr i" "ok LockSlot" "try_flock i s2 = (Some h, s3)" by blast
    obtain e4 s4 where r4: "sweep_locked ok hex parse keep clk n d s3 = (e4, s4)" by fastforce
    have e: "fs_entries s2 (workspaceLockName hex n) = Some (EFile i)" using r2 a(2) openLock_Inr by blast
    have f: "fs_flock s2 i = None" "h = fs_next s2" using try_flock_Some [OF a(4)] by auto
    have h: "{h} \<subseteq> {h. fs_next s \<le> h}" using f c2 by (simp add: changes_def)
    have "changes {} {} s s3"
      using changes_trans [OF c2 changes_try_flock [OF a(4)]] entry_number [OF e] by blast
    then have "changes {n, workspaceLockName hex n} {} s s4"
      by (rule changes_trans [OF _ sweep_locked_changes [OF r4]]) auto
    then have "changes {n, workspaceLockName hex n} {h. fs_next s \<le> h} s (funlock (i, h) s4)"
      by (rule changes_trans [OF _ changes_funlock]) (use h in auto)
    then show ?thesis using lock_freeI [OF c2 e f(1)] assms r1 r2 r4 a by (simp add: sweep_section_def)
  next
    case False
    have "changes {} {} s s'"
    proof (cases "e1 = None \<and> (\<exists>i. r2 = Inr i) \<and> ok LockSlot")
      case True
      then obtain i where i: "r2 = Inr i" by blast
      then obtain s3 where t: "try_flock i s2 = (None, s3)" using False True by (cases "try_flock i s2"; cases "fst (try_flock i s2)") auto
      then have "s3 = s2" by (auto simp: try_flock_def split: option.splits)
      then show ?thesis using assms r1 r2 True i t c2 by (simp add: sweep_section_def)
    next
      case False
      then show ?thesis using assms r1 r2 c2 s12(1)
        by (auto simp: sweep_section_def split: option.splits sum.splits if_splits)
    qed
    then show ?thesis ..
  qed
qed

lemma removeWorkspaceLock_changes: "changes {workspaceLockName hex j} {snd lk} s (removeWorkspaceLock ok hex j lk s)"
proof -
  obtain e1 s1 where r1: "acquireLockRegistry ok s = (e1, s1)" by fastforce
  let ?s2 = "if ok RemoveLock then remove_entry (workspaceLockName hex j) s1 else s1"
  have "changes {workspaceLockName hex j} {} s ?s2"
    using changes_trans [OF changes_registry [OF r1] changes_remove_entry] changes_mono [OF changes_registry [OF r1]] by auto
  then have "changes {workspaceLockName hex j} {snd lk} s (funlock lk ?s2)"
    by (rule changes_trans [OF _ changes_funlock]) auto
  then show ?thesis using r1 changes_mono [OF changes_registry [OF r1]]
    by (auto simp: removeWorkspaceLock_def split: option.splits)
qed

lemma cleanup_section_changes:
  assumes "cleanup_section ok hex keep w s = (r, s')"
  shows "changes (if w_jobsFS w then {path_Base (w_root w), workspaceLockName hex (path_Base (w_root w))} else {}) {} s s'"
proof (cases "w_jobsFS w")
  case True
  let ?n = "path_Base (w_root w)"
  obtain e1 s1 where r1: "acquireLockRegistry ok s = (e1, s1)" by fastforce
  obtain e2 s2 where r2: "remove_tree ok keep ?n s1 = (e2, s2)" by fastforce
  have c2: "changes {?n, workspaceLockName hex ?n} {} s s2"
    by (rule changes_trans [OF changes_registry [OF r1] remove_tree_changes [OF r2]]) auto
  have "changes {?n, workspaceLockName hex ?n} {} s (remove_entry (workspaceLockName hex ?n) s2)"
    by (rule changes_trans [OF c2 changes_remove_entry]) auto
  then show ?thesis using assms r1 r2 c2 True changes_mono [OF changes_registry [OF r1]] changes_mono [OF remove_tree_changes, of _ _ _ s]
    by (auto simp: cleanup_section_def split: option.splits if_splits)
next
  case False
  then show ?thesis using assms by (auto simp: cleanup_section_def split: if_splits)
qed

lemma cleanup_close_changes:
  assumes "cleanup_close ok err w s = (r, w', s')"
  shows "changes {} (snd ` set_option (w_lockFile w)) s s'" and "w_fsRoot w' = None" and "\<not> w_jobsFS w'"
    and "w_lockFile w' = None \<or> w_lockFile w' = w_lockFile w" and "w_root w' = w_root w" and "w_job w' = w_job w"
  using assms changes_funlock
  by (auto simp: cleanup_close_def Let_def split: option.splits if_splits prod.splits)

lemma MkdirAll_in_changes: "MkdirAll_in ok clk j d path s = (r, s') \<Longrightarrow> changes {} {} s s'"
  using changes_on_dir by (auto simp: MkdirAll_in_def split: if_splits option.splits)

lemma new_populate_changes: "new_populate ok clk j d s = (r, s') \<Longrightarrow> changes {} {} s s'"
  by (auto simp: new_populate_def dest!: MkdirAll_in_changes intro: changes_trans split: prod.splits option.splits)

section \<open>The invariant\<close>

text \<open>The lock a process relies on, and the directory it relies on.\<close>

definition guards :: "proc \<Rightarrow> (string \<times> nat \<times> nat) option" where
  "guards pr =
     (case pr of
        NewLocked j lk \<Rightarrow> Some (j, lk) | NewStated j lk d \<Rightarrow> Some (j, lk) | NewOpened j lk d \<Rightarrow> Some (j, lk)
      | NewAborting j lk \<Rightarrow> Some (j, lk)
      | Owner w \<Rightarrow> if w_fsRoot w = None then None else map_option (Pair (w_job w)) (w_lockFile w)
      | _ \<Rightarrow> None)"

definition dir_of :: "proc \<Rightarrow> (string \<times> nat) option" where
  "dir_of pr =
     (case pr of
        NewStated j lk d \<Rightarrow> Some (j, d) | NewOpened j lk d \<Rightarrow> Some (j, d)
      | Owner w \<Rightarrow> map_option (Pair (w_job w)) (w_fsRoot w)
      | _ \<Rightarrow> None)"

definition proc_wf :: "proc \<Rightarrow> bool" where
  "proc_wf pr =
     (case pr of
        NewMade j \<Rightarrow> plain_seg j | NewLocked j lk \<Rightarrow> plain_seg j | NewStated j lk d \<Rightarrow> plain_seg j
      | NewOpened j lk d \<Rightarrow> plain_seg j | NewAborting j lk \<Rightarrow> True
      | Owner w \<Rightarrow> path_Base (w_root w) = w_job w \<and> (w_jobsFS w \<longleftrightarrow> w_fsRoot w \<noteq> None) \<and> (w_jobsFS w \<longrightarrow> w_lockFile w \<noteq> None)
      | Closing w err \<Rightarrow> path_Base (w_root w) = w_job w
      | SweepSeen n \<Rightarrow> take 1 n \<noteq> ''.'' | SweepPinned n d \<Rightarrow> take 1 n \<noteq> ''.'')"

definition proc_ok :: "(string \<Rightarrow> string) \<Rightarrow> fs \<Rightarrow> proc \<Rightarrow> bool" where
  "proc_ok hex s pr \<longleftrightarrow>
     proc_wf pr \<and>
     (\<forall>j i h. guards pr = Some (j, i, h) \<longrightarrow> fs_entries s (workspaceLockName hex j) = Some (EFile i) \<and> fs_flock s i = Some h) \<and>
     (\<forall>j d. dir_of pr = Some (j, d) \<longrightarrow> fs_entries s j = Some (EDir d)) \<and>
     (\<forall>lk. lock_of pr = Some lk \<longrightarrow> snd lk < fs_next s)"

definition ws_inv :: "(string \<Rightarrow> string) \<Rightarrow> world \<Rightarrow> bool" where
  "ws_inv hex w \<longleftrightarrow>
     fs_wf (wl_fs w) \<and>
     (\<forall>p pr. wl_procs w p = Some pr \<longrightarrow> proc_ok hex (wl_fs w) pr) \<and>
     (\<forall>p q pr qr lk lk'. wl_procs w p = Some pr \<longrightarrow> wl_procs w q = Some qr \<longrightarrow> lock_of pr = Some lk \<longrightarrow> lock_of qr = Some lk'
        \<longrightarrow> snd lk = snd lk' \<longrightarrow> p = q)"

lemma guards_lock_of: "guards pr = Some (j, lk) \<Longrightarrow> lock_of pr = Some lk"
  by (cases pr) (auto simp: guards_def lock_of_def split: if_splits)

lemma guard_of_dir: "proc_wf pr \<Longrightarrow> dir_of pr = Some (j, d) \<Longrightarrow> \<exists>lk. guards pr = Some (j, lk)"
  by (cases pr) (auto simp: guards_def dir_of_def proc_wf_def split: if_splits)

text \<open>Two processes do not guard the same lock name.\<close>

lemma guards_unique:
  assumes "ws_inv hex w" and "wl_procs w p = Some pr" and "wl_procs w q = Some qr"
    and "guards pr = Some (j, lk)" and "guards qr = Some (k, lk')" and "workspaceLockName hex j = workspaceLockName hex k"
  shows "p = q"
proof -
  obtain i h i' h' where lk: "lk = (i, h)" "lk' = (i', h')" by fastforce
  have "proc_ok hex (wl_fs w) pr" "proc_ok hex (wl_fs w) qr" using assms(1-3) by (auto simp: ws_inv_def)
  then have "fs_entries (wl_fs w) (workspaceLockName hex j) = Some (EFile i)" "fs_flock (wl_fs w) i = Some h"
     "fs_entries (wl_fs w) (workspaceLockName hex k) = Some (EFile i')" "fs_flock (wl_fs w) i' = Some h'"
    using assms(4,5) lk unfolding proc_ok_def by blast+
  then have "snd lk = snd lk'" using assms(6) lk by simp
  then show ?thesis using assms(1-3) guards_lock_of [OF assms(4)] guards_lock_of [OF assms(5)] unfolding ws_inv_def by blast
qed

text \<open>
  The frame rule: a process that removes only names no other process relies on, and releases only
  locks of its own, keeps the invariant of the others.
\<close>

definition avoids :: "(string \<Rightarrow> string) \<Rightarrow> string set \<Rightarrow> proc \<Rightarrow> bool" where
  "avoids hex X qr \<longleftrightarrow>
     (\<forall>j lk. guards qr = Some (j, lk) \<longrightarrow> workspaceLockName hex j \<notin> X) \<and> (\<forall>j d. dir_of qr = Some (j, d) \<longrightarrow> j \<notin> X)"

lemma proc_ok_frame:
  assumes "proc_ok hex s qr" and "changes X H s s'" and "avoids hex X qr" and "\<forall>lk. lock_of qr = Some lk \<longrightarrow> snd lk \<notin> H"
  shows "proc_ok hex s' qr"
proof -
  have "fs_entries s' (workspaceLockName hex j) = Some (EFile i) \<and> fs_flock s' i = Some h" if g: "guards qr = Some (j, i, h)" for j i h
  proof -
    have "fs_entries s (workspaceLockName hex j) = Some (EFile i)" "fs_flock s i = Some h" using assms(1) g by (auto simp: proc_ok_def)
    moreover have "workspaceLockName hex j \<notin> X" "h \<notin> H" using assms(3,4) g guards_lock_of [OF g] by (auto simp: avoids_def)
    ultimately show ?thesis using assms(2) by (simp add: changes_def)
  qed
  moreover have "fs_entries s' j = Some (EDir d)" if "dir_of qr = Some (j, d)" for j d
    using assms(1-3) that by (simp add: proc_ok_def avoids_def changes_def)
  moreover have "snd lk < fs_next s'" if "lock_of qr = Some lk" for lk
    using assms(1,2) that unfolding proc_ok_def changes_def by (meson order_less_le_trans)
  ultimately show ?thesis using assms(1) by (simp add: proc_ok_def)
qed

lemma ws_inv_update:
  assumes inv: "ws_inv hex w" and ch: "changes X H (wl_fs w) s'"
    and others: "\<And>q qr. q \<noteq> p \<Longrightarrow> wl_procs w q = Some qr \<Longrightarrow> avoids hex X qr \<and> (\<forall>lk. lock_of qr = Some lk \<longrightarrow> snd lk \<notin> H)"
    and self: "\<And>pr. pr' = Some pr \<Longrightarrow> proc_ok hex s' pr"
    and locks: "\<And>pr lk. pr' = Some pr \<Longrightarrow> lock_of pr = Some lk \<Longrightarrow> fs_next (wl_fs w) \<le> snd lk \<or> (\<exists>pr0. wl_procs w p = Some pr0 \<and> lock_of pr0 = Some lk)"
  shows "ws_inv hex \<lparr> wl_fs = s', wl_procs = (wl_procs w)(p := pr') \<rparr>"
proof -
  have ok: "proc_ok hex (wl_fs w) qr" if "wl_procs w q = Some qr" for q qr using inv that by (auto simp: ws_inv_def)
  have low: "snd lk < fs_next (wl_fs w)" if "wl_procs w q = Some qr" "lock_of qr = Some lk" for q qr lk
    using ok [OF that(1)] that(2) unfolding proc_ok_def by blast
  have uniq: "snd lk \<noteq> snd lk'" if "pr' = Some pr" "lock_of pr = Some lk" "wl_procs w q = Some qr" "lock_of qr = Some lk'" "q \<noteq> p"
    for pr lk q qr lk'
    using locks [OF that(1,2)]
  proof
    assume "fs_next (wl_fs w) \<le> snd lk" then show ?thesis using low [OF that(3,4)] by simp
  next
    assume "\<exists>pr0. wl_procs w p = Some pr0 \<and> lock_of pr0 = Some lk"
    then show ?thesis using inv that(3-5) unfolding ws_inv_def by blast
  qed
  show ?thesis unfolding ws_inv_def
  proof (intro conjI allI impI)
    show "fs_wf (wl_fs \<lparr>wl_fs = s', wl_procs = (wl_procs w)(p := pr')\<rparr>)" using inv ch by (simp add: ws_inv_def changes_def)
  next
    fix q qr assume "wl_procs \<lparr>wl_fs = s', wl_procs = (wl_procs w)(p := pr')\<rparr> q = Some qr"
    then show "proc_ok hex (wl_fs \<lparr>wl_fs = s', wl_procs = (wl_procs w)(p := pr')\<rparr>) qr"
      using self others [of q qr] proc_ok_frame [OF ok ch, of q qr] by (cases "q = p") auto
  next
    fix q r qr rr lk lk'
    assume *: "wl_procs \<lparr>wl_fs = s', wl_procs = (wl_procs w)(p := pr')\<rparr> q = Some qr"
      "wl_procs \<lparr>wl_fs = s', wl_procs = (wl_procs w)(p := pr')\<rparr> r = Some rr"
      "lock_of qr = Some lk" "lock_of rr = Some lk'" "snd lk = snd lk'"
    show "q = r"
    proof (rule ccontr)
      assume ne: "q \<noteq> r"
      consider "q = p" | "r = p" | "q \<noteq> p" "r \<noteq> p" by blast
      then show False
      proof cases
        case 1
        then show False using * ne uniq [of qr lk r rr lk'] by simp
      next
        case 2
        then show False using * ne uniq [of rr lk' q qr lk] by simp
      next
        case 3
        then show False using * ne inv unfolding ws_inv_def by simp
      qed
    qed
  qed
qed

lemma inv_procD:
  assumes "ws_inv hex w" and "wl_procs w p = Some pr"
  shows "proc_ok hex (wl_fs w) pr" and "proc_wf pr"
    and "guards pr = Some (j, i, h) \<Longrightarrow> fs_entries (wl_fs w) (workspaceLockName hex j) = Some (EFile i) \<and> fs_flock (wl_fs w) i = Some h"
    and "dir_of pr = Some (j, d) \<Longrightarrow> fs_entries (wl_fs w) j = Some (EDir d)"
    and "lock_of pr = Some lk \<Longrightarrow> snd lk < fs_next (wl_fs w)"
  using assms unfolding ws_inv_def proc_ok_def by blast+

lemma guard_avoids:
  assumes inv: "ws_inv hex w" and p: "wl_procs w p = Some pr" and q: "wl_procs w q = Some qr" and "q \<noteq> p"
    and g: "guards pr = Some (j, lk)" and X: "X \<subseteq> {j, workspaceLockName hex j}" and d: "j \<in> X \<Longrightarrow> j \<noteq> workspaceLockName hex j \<Longrightarrow> \<exists>d. dir_of pr = Some (j, d)"
  shows "avoids hex X qr"
proof -
  obtain i h where lk: "lk = (i, h)" by fastforce
  have e: "fs_entries (wl_fs w) (workspaceLockName hex j) = Some (EFile i)" using inv_procD(3) [OF inv p] g lk by blast
  have dj: "\<exists>d. fs_entries (wl_fs w) j = Some (EDir d)" if "j \<in> X" "j \<noteq> workspaceLockName hex j" using d [OF that] inv_procD(4) [OF inv p] by blast
  have neq: "workspaceLockName hex k \<noteq> workspaceLockName hex j" if "guards qr = Some (k, lk')" for k lk'
    using guards_unique [OF inv p q g that] assms(4) by auto
  have "workspaceLockName hex k \<notin> X" if "guards qr = Some (k, lk')" for k lk'
  proof -
    obtain i' h' where "lk' = (i', h')" by fastforce
    then have "fs_entries (wl_fs w) (workspaceLockName hex k) = Some (EFile i')" using inv_procD(3) [OF inv q] that by blast
    then show ?thesis using neq [OF that] dj X by auto
  qed
  moreover have "k \<notin> X" if dq: "dir_of qr = Some (k, d')" for k d'
  proof -
    have "fs_entries (wl_fs w) k = Some (EDir d')" using inv_procD(4) [OF inv q dq] .
    moreover obtain lk' where "guards qr = Some (k, lk')" using guard_of_dir [OF inv_procD(2) [OF inv q] dq] by blast
    ultimately show ?thesis using e X neq by auto
  qed
  ultimately show ?thesis by (simp add: avoids_def)
qed

lemma free_avoids:
  assumes inv: "ws_inv hex w" and q: "wl_procs w q = Some qr" and free: "lock_free hex n (wl_fs w)" and dot: "take 1 n \<noteq> ''.''"
  shows "avoids hex {n, workspaceLockName hex n} qr"
proof -
  have neq: "workspaceLockName hex k \<noteq> workspaceLockName hex n" if "guards qr = Some (k, lk)" for k lk
  proof -
    obtain i h where "lk = (i, h)" by fastforce
    then have "fs_entries (wl_fs w) (workspaceLockName hex k) = Some (EFile i)" "fs_flock (wl_fs w) i = Some h"
      using inv_procD(3) [OF inv q] that by blast+
    then show ?thesis using free by (auto simp: lock_free_def)
  qed
  have "workspaceLockName hex k \<noteq> n" for k using dot by (auto simp: workspaceLockName_def)
  moreover have "k \<notin> {n, workspaceLockName hex n}" if dq: "dir_of qr = Some (k, d)" for k d
  proof -
    obtain lk where "guards qr = Some (k, lk)" using guard_of_dir [OF inv_procD(2) [OF inv q] dq] by blast
    then have "k \<noteq> n" using neq by blast
    moreover have "k \<noteq> workspaceLockName hex n" using inv_procD(4) [OF inv q dq] free by (auto simp: lock_free_def)
    ultimately show ?thesis by simp
  qed
  ultimately show ?thesis using neq by (auto simp: avoids_def)
qed

lemma own_handle:
  assumes "ws_inv hex w" and "wl_procs w p = Some pr" and "wl_procs w q = Some qr" and "q \<noteq> p"
    and "lock_of pr = Some lk" and "lock_of qr = Some lk'"
  shows "snd lk' \<noteq> snd lk"
  using assms unfolding ws_inv_def by metis

lemma avoids_none [simp]: "avoids hex {} qr"
  by (simp add: avoids_def)

lemma avoids_mono: "avoids hex X qr \<Longrightarrow> Y \<subseteq> X \<Longrightarrow> avoids hex Y qr"
  unfolding avoids_def by blast

section \<open>Every step keeps the invariant\<close>

lemma valid_id_plain:
  assumes "ValidateJobID U j = Inr ()" shows "plain_seg j"
proof -
  have "CHR ''/'' \<notin> set j"
  proof
    assume "CHR ''/'' \<in> set j"
    from ValidateJobID_bytes [OF assms this] show False by (simp add: id_ascii_ok_def RuneSelf_def)
  qed
  then show ?thesis using assms by (auto simp: plain_seg_def ValidateJobID_def split: if_splits)
qed

lemma new_mkdir_changes: "new_mkdir ok U clk j s = (e, s') \<Longrightarrow> changes {} {} s s' \<and> (e = None \<longrightarrow> plain_seg j)"
  using changes_mkdir_entry valid_id_plain by (auto simp: new_mkdir_def split: sum.splits if_splits)

lemma inv_start:
  assumes "ws_inv hex w" and "new_mkdir ok U clk j (wl_fs w) = (e, s')"
  shows "ws_inv hex \<lparr> wl_fs = s', wl_procs = (wl_procs w)(p := if e = None then Some (NewMade j) else None) \<rparr>"
  using new_mkdir_changes [OF assms(2)]
  by (intro ws_inv_update [OF assms(1), of "{}" "{}"])
    (auto simp: proc_ok_def proc_wf_def guards_def dir_of_def lock_of_def split: if_splits)

lemma inv_acquire:
  assumes "ws_inv hex w" and "wl_procs w p = Some (NewMade j)" and "acquireWorkspaceLock ok hex j (wl_fs w) = (r, s')"
  shows "ws_inv hex \<lparr> wl_fs = s', wl_procs = (wl_procs w)(p := case r of Inl _ \<Rightarrow> None | Inr lk \<Rightarrow> Some (NewLocked j lk)) \<rparr>"
  using acquireWorkspaceLock_changes [OF assms(3)] inv_procD(2) [OF assms(1,2)]
  by (intro ws_inv_update [OF assms(1), of "{}" "{}"])
    (auto simp: proc_ok_def proc_wf_def guards_def dir_of_def lock_of_def split: sum.splits)

text \<open>A process that goes on with the same lock and changes nothing others rely on.\<close>

lemma inv_goes_on:
  assumes inv: "ws_inv hex w" and p: "wl_procs w p = Some pr" and ch: "changes {} {} (wl_fs w) s'"
    and g: "guards pr' = guards pr" and l: "lock_of pr' = lock_of pr" and wf: "proc_wf pr'"
    and d: "\<And>j d. dir_of pr' = Some (j, d) \<Longrightarrow> fs_entries (wl_fs w) j = Some (EDir d)"
  shows "ws_inv hex \<lparr> wl_fs = s', wl_procs = (wl_procs w)(p := Some pr') \<rparr>"
proof (rule ws_inv_update [OF inv ch])
  fix pr0 assume "Some pr' = Some pr0"
  moreover have "proc_ok hex (wl_fs w) pr'" using inv_procD(1) [OF inv p] g l wf d by (simp add: proc_ok_def)
  then have "proc_ok hex s' pr'" by (rule proc_ok_frame [OF _ ch]) auto
  ultimately show "proc_ok hex s' pr0" by simp
qed (use p l in auto)

lemma inv_done:
  assumes inv: "ws_inv hex w" and p: "wl_procs w p = Some pr" and ch: "changes X H (wl_fs w) s'"
    and X: "\<And>q qr. q \<noteq> p \<Longrightarrow> wl_procs w q = Some qr \<Longrightarrow> avoids hex X qr"
    and H: "H \<subseteq> {h. fs_next (wl_fs w) \<le> h} \<union> snd ` set_option (lock_of pr)"
  shows "ws_inv hex \<lparr> wl_fs = s', wl_procs = (wl_procs w)(p := None) \<rparr>"
proof (rule ws_inv_update [OF inv ch])
  fix q qr assume q: "q \<noteq> p" "wl_procs w q = Some qr"
  have "snd lk \<notin> H" if "lock_of qr = Some lk" for lk
    using inv_procD(5) [OF inv q(2) that] own_handle [OF inv p q(2,1) _ that] H by fastforce
  then show "avoids hex X qr \<and> (\<forall>lk. lock_of qr = Some lk \<longrightarrow> snd lk \<notin> H)" using X [OF q] by simp
qed auto

lemma path_Base_workspace:
  assumes "\<forall>s \<in> set rs. plain_seg s" and "plain_seg j"
  shows "path_Base (w_root (new_workspace (render True rs) j lk d)) = j"
proof -
  have n: "normal True (rs @ [j])" "normal True rs" using assms by (auto simp: normal_rooted_iff)
  have "path_Join [render True rs, j] = render True (rs @ [j])"
    using path_Join_below [OF n(2), of "[j]"] assms(2) by (simp add: render_def)
  then show ?thesis using elements_render [OF n(1)] by (simp add: new_workspace_def path_Base_def) (simp add: render_def)
qed

lemma inv_cleanup_section:
  assumes inv: "ws_inv hex w" and p: "wl_procs w p = Some (Owner ws)" and c: "cleanup_section ok hex keep ws (wl_fs w) = (err, s')"
  shows "ws_inv hex \<lparr> wl_fs = s', wl_procs = (wl_procs w)(p := Some (Closing ws err)) \<rparr>"
proof -
  have wf: "path_Base (w_root ws) = w_job ws" "w_jobsFS ws \<longleftrightarrow> w_fsRoot ws \<noteq> None" "w_jobsFS ws \<longrightarrow> w_lockFile ws \<noteq> None"
    using inv_procD(2) [OF inv p] by (auto simp: proc_wf_def)
  let ?X = "if w_jobsFS ws then {w_job ws, workspaceLockName hex (w_job ws)} else {}"
  have ch: "changes ?X {} (wl_fs w) s'" using cleanup_section_changes [OF c] unfolding wf(1) .
  show ?thesis
  proof (rule ws_inv_update [OF inv ch])
    fix q qr assume q: "q \<noteq> p" "wl_procs w q = Some qr"
    have "avoids hex ?X qr"
    proof (cases "w_jobsFS ws")
      case True
      then obtain d lk where "w_fsRoot ws = Some d" "w_lockFile ws = Some lk" using wf by auto
      then have "guards (Owner ws) = Some (w_job ws, lk)" "dir_of (Owner ws) = Some (w_job ws, d)"
        by (simp_all add: guards_def dir_of_def)
      then show ?thesis using guard_avoids [OF inv p q(2,1)] by auto
    qed simp
    then show "avoids hex ?X qr \<and> (\<forall>lk. lock_of qr = Some lk \<longrightarrow> snd lk \<notin> {})" by simp
  next
    fix pr assume "Some (Closing ws err) = Some pr"
    moreover have "snd lk < fs_next s'" if "w_lockFile ws = Some lk" for lk
    proof -
      have "snd lk < fs_next (wl_fs w)" by (rule inv_procD(5) [OF inv p]) (simp add: lock_of_def that)
      then show ?thesis using ch by (simp add: changes_def)
    qed
    ultimately show "proc_ok hex s' pr"
      using wf(1) by (auto simp: proc_ok_def proc_wf_def guards_def dir_of_def lock_of_def)
  qed (auto simp: lock_of_def p)
qed

lemma inv_cleanup_close:
  assumes inv: "ws_inv hex w" and p: "wl_procs w p = Some (Closing ws err)" and c: "cleanup_close ok err ws (wl_fs w) = (err', ws', s')"
  shows "ws_inv hex \<lparr> wl_fs = s', wl_procs = (wl_procs w)(p := if w_lockFile ws' = None then None else Some (Owner ws')) \<rparr>"
proof -
  note cc = cleanup_close_changes [OF c]
  have wf: "path_Base (w_root ws) = w_job ws" using inv_procD(2) [OF inv p] by (simp add: proc_wf_def)
  show ?thesis
  proof (rule ws_inv_update [OF inv cc(1)])
    fix q qr assume q: "q \<noteq> p" "wl_procs w q = Some qr"
    have "snd lk \<notin> snd ` set_option (w_lockFile ws)" if "lock_of qr = Some lk" for lk
      using own_handle [OF inv p q(2,1) _ that] by (auto simp: lock_of_def)
    then show "avoids hex {} qr \<and> (\<forall>lk. lock_of qr = Some lk \<longrightarrow> snd lk \<notin> snd ` set_option (w_lockFile ws))" by simp
  next
    fix pr assume pr: "(if w_lockFile ws' = None then None else Some (Owner ws')) = Some pr"
    have "snd lk < fs_next s'" if "w_lockFile ws' = Some lk" for lk
    proof -
      have "w_lockFile ws = Some lk" using cc(4) that by auto
      then have "snd lk < fs_next (wl_fs w)" by (intro inv_procD(5) [OF inv p]) (simp add: lock_of_def)
      then show ?thesis using cc(1) by (simp add: changes_def)
    qed
    then show "proc_ok hex s' pr" using pr cc(2,3,5,6) wf
      by (auto simp: proc_ok_def proc_wf_def guards_def dir_of_def lock_of_def split: if_splits)
  qed (use cc(4) p in \<open>auto simp: lock_of_def split: if_splits\<close>)
qed

lemma inv_sweep_section:
  assumes inv: "ws_inv hex w" and p: "wl_procs w p = Some (SweepPinned n d)"
  shows "ws_inv hex \<lparr> wl_fs = snd (sweep_section ok hex parse keep clk n d (wl_fs w)), wl_procs = (wl_procs w)(p := None) \<rparr>"
proof -
  obtain r s' where s': "sweep_section ok hex parse keep clk n d (wl_fs w) = (r, s')" by fastforce
  have dot: "take 1 n \<noteq> ''.''" using inv_procD(2) [OF inv p] by (simp add: proc_wf_def)
  from sweep_section_changes [OF s'] show ?thesis
  proof
    assume "changes {} {} (wl_fs w) s'"
    then show ?thesis unfolding s' snd_conv by (rule inv_done [OF inv p]) auto
  next
    assume *: "lock_free hex n (wl_fs w) \<and> changes {n, workspaceLockName hex n} {h. fs_next (wl_fs w) \<le> h} (wl_fs w) s'"
    show ?thesis unfolding s' snd_conv
      by (rule inv_done [OF inv p conjunct2 [OF *]]) (use free_avoids [OF inv _ conjunct1 [OF *] dot] in auto)
  qed
qed

lemma inv_advance:
  assumes inv: "ws_inv hex w" and p: "wl_procs w p = Some pr" and rs: "\<forall>s \<in> set rs. plain_seg s"
    and st: "proc_step ok hex parse keep clk rs pr (wl_fs w) = (pr', s')"
  shows "ws_inv hex \<lparr> wl_fs = s', wl_procs = (wl_procs w)(p := pr') \<rparr>"
proof (cases pr)
  case (NewMade j)
  obtain r s1 where a: "acquireWorkspaceLock ok hex j (wl_fs w) = (r, s1)" by fastforce
  then show ?thesis using inv_acquire [OF inv _ a] p st NewMade by (auto simp: proc_step_def split: sum.splits)
next
  case (NewLocked j lk)
  note go = inv_goes_on [OF inv p changes_refl]
  show ?thesis using st NewLocked inv_procD(2) [OF inv p]
    by (auto simp: proc_step_def new_stat_def proc_wf_def guards_def lock_of_def dir_of_def intro!: go split: sum.splits if_splits option.splits entry.splits)
next
  case (NewStated j lk d)
  note go = inv_goes_on [OF inv p changes_refl]
  show ?thesis using st NewStated inv_procD(2) [OF inv p]
    by (auto simp: proc_step_def new_open_def proc_wf_def guards_def lock_of_def dir_of_def intro!: go split: sum.splits if_splits option.splits entry.splits)
next
  case (NewOpened j lk d)
  obtain e s1 where s1: "new_populate ok clk j d (wl_fs w) = (e, s1)" by fastforce
  note go = inv_goes_on [OF inv p new_populate_changes [OF s1]]
  have "plain_seg j" using inv_procD(2) [OF inv p] NewOpened by (simp add: proc_wf_def)
  then have b: "path_Base (w_root (new_workspace (render True rs) j lk d)) = j" by (rule path_Base_workspace [OF rs])
  have "fs_entries (wl_fs w) j = Some (EDir d)" using inv_procD(4) [OF inv p] NewOpened by (simp add: dir_of_def)
  then have "ws_inv hex \<lparr> wl_fs = s1, wl_procs = (wl_procs w)(p \<mapsto> Owner (new_workspace (render True rs) j lk d)) \<rparr>"
    using b by (intro go) (auto simp: NewOpened proc_wf_def guards_def lock_of_def dir_of_def new_workspace_def)
  moreover have "ws_inv hex \<lparr> wl_fs = s1, wl_procs = (wl_procs w)(p \<mapsto> NewAborting j lk) \<rparr>"
    by (intro go) (auto simp: NewOpened proc_wf_def guards_def lock_of_def dir_of_def)
  ultimately show ?thesis using st NewOpened s1 by (cases e) (auto simp: proc_step_def)
next
  case (NewAborting j lk)
  have "avoids hex {workspaceLockName hex j} qr" if "q \<noteq> p" "wl_procs w q = Some qr" for q qr
    by (rule guard_avoids [OF inv p that(2,1), of j lk]) (auto simp: NewAborting guards_def)
  then have "ws_inv hex \<lparr> wl_fs = removeWorkspaceLock ok hex j lk (wl_fs w), wl_procs = (wl_procs w)(p := None) \<rparr>"
    by (rule inv_done [OF inv p removeWorkspaceLock_changes]) (auto simp: NewAborting lock_of_def)
  then show ?thesis using st NewAborting by (auto simp: proc_step_def)
next
  case (Owner ws)
  obtain err s1 where s1: "cleanup_section ok hex keep ws (wl_fs w) = (err, s1)" by fastforce
  then show ?thesis using inv_cleanup_section [OF inv _ s1] p st Owner by (auto simp: proc_step_def)
next
  case (Closing ws err)
  obtain err1 ws1 s1 where s1: "cleanup_close ok err ws (wl_fs w) = (err1, ws1, s1)" using prod_cases3 by blast
  then show ?thesis using inv_cleanup_close [OF inv _ s1] p st Closing by (auto simp: proc_step_def)
next
  case (SweepSeen n)
  have "proc_wf (SweepPinned n d)" for d using inv_procD(2) [OF inv p] SweepSeen by (simp add: proc_wf_def)
  then have "ws_inv hex \<lparr> wl_fs = wl_fs w, wl_procs = (wl_procs w)(p \<mapsto> SweepPinned n d) \<rparr>" for d
    by (intro inv_goes_on [OF inv p changes_refl]) (auto simp: SweepSeen guards_def lock_of_def dir_of_def)
  moreover have "ws_inv hex \<lparr> wl_fs = wl_fs w, wl_procs = (wl_procs w)(p := None) \<rparr>"
    by (rule inv_done [OF inv p changes_refl [of "{}" "{}"]]) auto
  ultimately show ?thesis using st SweepSeen by (auto simp: proc_step_def split: sum.splits option.splits)
next
  case (SweepPinned n d)
  then show ?thesis using inv_sweep_section [OF inv] p st by (auto simp: proc_step_def)
qed

lemma ws_step_inv:
  assumes "ws_step hex parse rs w w'" and inv: "ws_inv hex w" and rs: "\<forall>s \<in> set rs. plain_seg s"
  shows "ws_inv hex w'"
  using assms(1)
proof cases
  case (start p ok U clk j e s')
  then show ?thesis using inv_start [OF inv] by simp
next
  case (look p n ok cutoff)
  then have "ws_inv hex \<lparr> wl_fs = wl_fs w, wl_procs = (wl_procs w)(p \<mapsto> SweepSeen n) \<rparr>"
    by (intro ws_inv_update [OF inv changes_refl [of "{}" "{}"]])
      (auto simp: proc_ok_def proc_wf_def guards_def dir_of_def lock_of_def)
  then show ?thesis using look by (cases w) simp
next
  case (advance p pr ok keep clk pr' s')
  then show ?thesis using inv_advance [OF inv _ rs] by simp
next
  case (work p ws d f)
  have "ws_inv hex \<lparr> wl_fs = on_dir d f (wl_fs w), wl_procs = (wl_procs w)(p \<mapsto> Owner ws) \<rparr>"
    using inv_procD(2,4) [OF inv work(2)] by (intro inv_goes_on [OF inv work(2) changes_on_dir]) auto
  moreover have "(wl_procs w)(p \<mapsto> Owner ws) = wl_procs w" using work(2) by auto
  ultimately show ?thesis using work by (cases w) simp
next
  case (crash p pr)
  then show ?thesis
    using inv_done [OF inv crash(2) changes_refl [of "{}" "{}"]] inv_done [OF inv crash(2) changes_funlock]
    by (auto split: option.splits)
qed

lemma ws_reach_inv: "ws_reach hex parse rs w \<Longrightarrow> \<forall>s \<in> set rs. plain_seg s \<Longrightarrow> ws_inv hex w"
proof (induction rule: ws_reach.induct)
  case (initial s)
  then show ?case by (simp add: ws_inv_def)
qed (rule ws_step_inv)

text \<open>
  C34. A live workspace belongs to one process and keeps its directory: in every state that workers,
  sweeps and crashes can reach, whatever system calls failed, the entry of the job in the jobs root
  is the directory its owner works in, and no other process has a live workspace of the same job.
\<close>

theorem live_workspaces_are_exclusive:
  assumes "ws_reach hex parse rs w" and "\<forall>s \<in> set rs. plain_seg s"
    and "wl_procs w p = Some (Owner ws)" and "w_fsRoot ws = Some d"
  shows "fs_entries (wl_fs w) (w_job ws) = Some (EDir d) \<and>
    {q. \<exists>ws'. wl_procs w q = Some (Owner ws') \<and> w_job ws' = w_job ws \<and> w_fsRoot ws' \<noteq> None} = {p}"
proof -
  have inv: "ws_inv hex w" using ws_reach_inv assms(1,2) by blast
  have guard: "\<exists>lk. guards (Owner ws') = Some (w_job ws', lk)" if "wl_procs w q = Some (Owner ws')" "w_fsRoot ws' \<noteq> None" for q ws'
    using inv_procD(2) [OF inv that(1)] that(2) by (auto simp: proc_wf_def guards_def)
  have uniq: "q = p" if q: "wl_procs w q = Some (Owner ws')" "w_job ws' = w_job ws" "w_fsRoot ws' \<noteq> None" for q ws'
  proof -
    obtain lk where g: "guards (Owner ws') = Some (w_job ws', lk)" using guard [OF q(1,3)] by blast
    obtain lk' where g': "guards (Owner ws) = Some (w_job ws, lk')" using guard [OF assms(3)] assms(4) by blast
    show ?thesis using guards_unique [OF inv q(1) assms(3) g g'] q(2) by simp
  qed
  have "fs_entries (wl_fs w) (w_job ws) = Some (EDir d)"
    by (rule inv_procD(4) [OF inv assms(3)]) (simp add: dir_of_def assms(4))
  moreover have "w_fsRoot ws \<noteq> None" using assms(4) by simp
  ultimately show ?thesis using uniq assms(3) by blast
qed

text \<open>One worker creates the workspace of job \<open>a\<close> in an empty jobs root.\<close>

definition empty_fs :: fs where
  "empty_fs = \<lparr> fs_entries = Map.empty, fs_dirs = (\<lambda>_. empty_dir 0), fs_flock = Map.empty, fs_next = 0 \<rparr>"

definition sample_start :: world where
  "sample_start =
     \<lparr> wl_fs = mkdir_entry 5 ''a'' empty_fs,
       wl_procs = [0 \<mapsto> NewMade ''a''] \<rparr>"

definition sample_advance :: "world \<Rightarrow> world" where
  "sample_advance w =
     (case proc_step (\<lambda>_. True) (\<lambda>_. ''h'') (\<lambda>_. None) (\<lambda>_. True) 5 [''jobs''] (the (wl_procs w 0)) (wl_fs w) of
        (pr', s') \<Rightarrow> \<lparr> wl_fs = s', wl_procs = (wl_procs w)(0 := pr') \<rparr>)"

lemma sample_advance_reach:
  "ws_reach (\<lambda>_. ''h'') (\<lambda>_. None) [''jobs''] w \<Longrightarrow> wl_procs w 0 \<noteq> None \<Longrightarrow>
     ws_reach (\<lambda>_. ''h'') (\<lambda>_. None) [''jobs''] (sample_advance w)"
proof -
  assume r: "ws_reach (\<lambda>_. ''h'') (\<lambda>_. None) [''jobs''] w" and "wl_procs w 0 \<noteq> None"
  then obtain pr where p: "wl_procs w 0 = Some pr" by blast
  obtain pr' s' where st: "proc_step (\<lambda>_. True) (\<lambda>_. ''h'') (\<lambda>_. None) (\<lambda>_. True) 5 [''jobs''] pr (wl_fs w) = (pr', s')" by fastforce
  show ?thesis using ws_reach.further [OF r ws_step.advance [OF p st]] by (simp add: sample_advance_def p st)
qed

lemmas sample_defs = empty_fs_def sample_start_def sample_advance_def proc_step_def acquireWorkspaceLock_def acquireLockRegistry_def
  openWorkspaceLock_def open_create_def try_flock_def new_stat_def new_open_def new_populate_def MkdirAll_in_def mkdir_all_def
  linked_def on_dir_def mkdir_entry_def registryName_def workspaceLockName_def empty_dir_def up_paths_def touch_def new_workspace_def

theorem live_workspaces_are_exclusive_witness:
  "fs_entries (wl_fs (sample_advance (sample_advance (sample_advance (sample_advance sample_start))))) ''a'' = Some (EDir 0)"
proof -
  let ?w1 = "sample_advance sample_start" and ?w2 = "sample_advance (sample_advance sample_start)"
  let ?w3 = "sample_advance ?w2"
  let ?hex = "\<lambda>_ :: string. ''h''" and ?parse = "\<lambda>_ :: bytes. None :: gotime option"
  have "new_mkdir (\<lambda>_. True) (\<lambda>_. False) 5 ''a'' empty_fs
      = (None, wl_fs sample_start)"
    by (simp add: new_mkdir_def ValidateJobID_def id_ascii_ok_def RuneSelf_def sample_start_def)
  then have "ws_step ?hex ?parse [''jobs'']
      \<lparr> wl_fs = empty_fs, wl_procs = Map.empty \<rparr> sample_start"
    using ws_step.start [where w = "\<lparr> wl_fs = empty_fs, wl_procs = Map.empty \<rparr>"
        and p = 0 and ok = "\<lambda>_. True" and U = "\<lambda>_. False" and clk = 5 and j = "''a''" and e = None and s' = "wl_fs sample_start"]
    by (simp add: sample_start_def)
  then have r0: "ws_reach ?hex ?parse [''jobs''] sample_start"
    by (intro ws_reach.further [OF ws_reach.initial]) (simp_all add: fs_wf_def empty_fs_def)
  have r1: "ws_reach ?hex ?parse [''jobs''] ?w1" by (rule sample_advance_reach [OF r0]) (simp add: sample_start_def)
  have r2: "ws_reach ?hex ?parse [''jobs''] ?w2" by (rule sample_advance_reach [OF r1]) (simp add: sample_defs)
  have r3: "ws_reach ?hex ?parse [''jobs''] ?w3" by (rule sample_advance_reach [OF r2]) (simp add: sample_defs)
  have r4: "ws_reach ?hex ?parse [''jobs''] (sample_advance ?w3)" by (rule sample_advance_reach [OF r3]) (simp add: sample_defs)
  have o: "wl_procs (sample_advance ?w3) 0 = Some (Owner (new_workspace (render True [''jobs'']) ''a'' (2, 3) 0))"
    by (simp add: sample_defs)
  have "\<forall>s \<in> set [''jobs'']. plain_seg s" by (simp add: plain_seg_def)
  from live_workspaces_are_exclusive [OF r4 this o] show ?thesis by (simp add: new_workspace_def)
qed

end
