(* ===== verification/Workspace_Sweep.thy ===== *)
theory Workspace_Sweep
  imports Workspace_Sharing
begin

text \<open>
  The workspace operations of one process when nothing fails: creating and cleaning up a workspace,
  the exact effect of a sweep; and two places where the code gives less than it says: job ids that
  collide with the names of the lock files, and a cleanup that is tried again after a failure.
\<close>

section \<open>When nothing fails\<close>

abbreviation all_ok :: faults where "all_ok \<equiv> \<lambda>_. True"

definition reserved_ok :: "(string \<Rightarrow> string) \<Rightarrow> fs \<Rightarrow> bool" where
  "reserved_ok hex s \<longleftrightarrow>
     (\<forall>d. fs_entries s registryName \<noteq> Some (EDir d)) \<and> (\<forall>n d. fs_entries s (workspaceLockName hex n) \<noteq> Some (EDir d))"

text \<open>
  What the operations keep of the rest of the jobs root: every entry without a dot in front, and every
  directory. The files with a dot in front are their own, the registry and the locks.
\<close>

definition dot_dirs_kept :: "fs \<Rightarrow> fs \<Rightarrow> bool" where
  "dot_dirs_kept s s' \<longleftrightarrow>
     (\<forall>m d. take 1 m = ''.'' \<longrightarrow> fs_entries s m = Some (EDir d) \<longrightarrow> fs_entries s' m = Some (EDir d))"

definition quiet :: "(string \<Rightarrow> string) \<Rightarrow> fs \<Rightarrow> fs \<Rightarrow> bool" where
  "quiet hex s s' \<longleftrightarrow>
     fs_wf s' \<and> reserved_ok hex s' \<and> fs_dirs s' = fs_dirs s \<and> fs_flock s' = fs_flock s \<and> fs_next s \<le> fs_next s' \<and>
     (\<forall>m. take 1 m \<noteq> ''.'' \<longrightarrow> fs_entries s' m = fs_entries s m) \<and> dot_dirs_kept s s' \<and>
     (\<forall>m. lock_free hex m s' = lock_free hex m s)"

lemma quiet_refl: "fs_wf s \<Longrightarrow> reserved_ok hex s \<Longrightarrow> quiet hex s s"
  by (simp add: quiet_def dot_dirs_kept_def)

lemma quiet_trans: "quiet hex s s' \<Longrightarrow> quiet hex s' s'' \<Longrightarrow> quiet hex s s''"
  by (auto simp: quiet_def dot_dirs_kept_def)

lemma open_create_quiet:
  assumes "fs_wf s" and "reserved_ok hex s" and "\<forall>d. fs_entries s n \<noteq> Some (EDir d)" and "take 1 n = ''.''"
  shows "\<exists>i s'. open_create n s = (Some i, s') \<and> quiet hex s s' \<and> fs_entries s' n = Some (EFile i)"
proof (cases "fs_entries s n")
  case None
  let ?s = "s\<lparr> fs_entries := (fs_entries s)(n \<mapsto> EFile (fs_next s)), fs_next := Suc (fs_next s) \<rparr>"
  have fresh: "fs_flock s (fs_next s) = None"
    using assms(1) unfolding fs_wf_def by (metis less_irrefl option.exhaust)
  have "lock_free hex m ?s = lock_free hex m s" for m using None fresh by (simp add: lock_free_def split: option.splits entry.splits)
  moreover have "fs_wf ?s" using assms(1) by (auto simp: fs_wf_def less_SucI)
  moreover have "reserved_ok hex ?s" using assms(2) by (simp add: reserved_ok_def)
  moreover have "dot_dirs_kept s ?s" using None by (auto simp: dot_dirs_kept_def)
  ultimately show ?thesis using None assms(4) by (auto simp: open_create_def quiet_def)
next
  case (Some e)
  then show ?thesis using assms by (cases e) (auto simp: open_create_def quiet_refl)
qed

lemma lock_name_dot [simp]: "take (Suc 0) (workspaceLockName hex n) = ''.''" "take (Suc 0) registryName = ''.''"
  by (simp_all add: workspaceLockName_def registryName_def)

lemma registry_quiet:
  assumes "fs_wf s" and "reserved_ok hex s"
  shows "\<exists>s'. acquireLockRegistry all_ok s = (None, s') \<and> quiet hex s s'"
  using open_create_quiet [OF assms, of registryName] assms(2) by (auto simp: acquireLockRegistry_def reserved_ok_def)

lemma openLock_quiet:
  assumes "fs_wf s" and "reserved_ok hex s"
  shows "\<exists>i s'. openWorkspaceLock all_ok hex n s = (Inr i, s') \<and> quiet hex s s' \<and> fs_entries s' (workspaceLockName hex n) = Some (EFile i)"
  using open_create_quiet [OF assms, of "workspaceLockName hex n"] assms(2) by (auto simp: openWorkspaceLock_def reserved_ok_def)

lemma acquire_quiet:
  assumes "fs_wf s" and "reserved_ok hex s"
  shows "\<exists>i s1 s2. quiet hex s s2 \<and> fs_entries s2 (workspaceLockName hex n) = Some (EFile i)
    \<and> (fs_flock s2 i = None) = lock_free hex n s
    \<and> acquireLockRegistry all_ok s = (None, s1) \<and> openWorkspaceLock all_ok hex n s1 = (Inr i, s2)"
proof -
  obtain s1 where s1: "acquireLockRegistry all_ok s = (None, s1)" "quiet hex s s1" using registry_quiet [OF assms] by blast
  then obtain i s2 where s2: "openWorkspaceLock all_ok hex n s1 = (Inr i, s2)" "quiet hex s1 s2"
      "fs_entries s2 (workspaceLockName hex n) = Some (EFile i)"
    using openLock_quiet [of s1 hex n] by (auto simp: quiet_def)
  have q: "quiet hex s s2" by (rule quiet_trans [OF s1(2) s2(2)])
  have "lock_free hex n s2 = (fs_flock s2 i = None)" using s2(3) by (simp add: lock_free_def)
  then have l: "(fs_flock s2 i = None) = lock_free hex n s" using q unfolding quiet_def by blast
  show ?thesis by (intro exI conjI) (rule q, rule s2(3), rule l, rule s1(1), rule s2(1))
qed

section \<open>The sweep\<close>

definition sweepable :: "(string \<Rightarrow> string) \<Rightarrow> (bytes \<Rightarrow> gotime option) \<Rightarrow> gotime \<Rightarrow> gotime \<Rightarrow> string \<Rightarrow> fs \<Rightarrow> bool" where
  "sweepable hex parse cutoff clk n s \<longleftrightarrow>
     (case fs_entries s n of
        Some (EDir d) \<Rightarrow> jd_mtime (fs_dirs s d) \<le> cutoff \<and> \<not> lease_valid all_ok parse clk d s \<and> lock_free hex n s
      | _ \<Rightarrow> False)"

definition swept :: "(string \<Rightarrow> string) \<Rightarrow> string set \<Rightarrow> fs \<Rightarrow> fs \<Rightarrow> bool" where
  "swept hex X s s' \<longleftrightarrow>
     fs_wf s' \<and> reserved_ok hex s' \<and> fs_dirs s' = fs_dirs s \<and>
     (\<forall>m. take 1 m \<noteq> ''.'' \<longrightarrow> fs_entries s' m = (if m \<in> X then None else fs_entries s m)) \<and> dot_dirs_kept s s' \<and>
     (\<forall>m. lock_free hex m s' = lock_free hex m s)"

lemma quiet_swept: "quiet hex s s' \<Longrightarrow> swept hex {} s s'"
  by (simp add: quiet_def swept_def)

lemma lock_free_cong: "fs_entries s' = fs_entries s \<Longrightarrow> fs_flock s' = fs_flock s \<Longrightarrow> lock_free hex n s' = lock_free hex n s"
  unfolding lock_free_def by (simp only:)

text \<open>What the sweep does with a directory whose lock it took, after it released the lock.\<close>

lemma sweep_locked_effect:
  assumes q: "quiet hex s s2" and e: "fs_entries s2 (workspaceLockName hex n) = Some (EFile i)" and f: "fs_flock s2 i = None"
    and dot: "take 1 n \<noteq> ''.''" and s3: "try_flock i s2 = (Some h, s3)"
    and s4: "sweep_locked all_ok hex parse keep clk n d s3 = (r, s4)"
  shows "r = None \<and> swept hex (if lease_valid all_ok parse clk d s then {} else {n}) s (funlock (i, h) s4)"
proof -
  have s3': "s3 = s2\<lparr> fs_flock := (fs_flock s2)(i \<mapsto> fs_next s2), fs_next := Suc (fs_next s2) \<rparr>" and h: "h = fs_next s2"
    using s3 f by (auto simp: try_flock_def)
  have wf: "fs_wf s2" "reserved_ok hex s2" using q by (auto simp: quiet_def)
  have lv: "lease_valid all_ok parse clk d s3 = lease_valid all_ok parse clk d s" using q by (simp add: s3' lease_valid_def quiet_def)
  have nolock: "workspaceLockName hex m \<noteq> n" for m using dot by (auto simp: workspaceLockName_def)
  show ?thesis
  proof (cases "lease_valid all_ok parse clk d s")
    case True
    then have "s4 = s3" "r = None" using s4 lv by (auto simp: sweep_locked_def)
    moreover have "(fs_flock s2)(i := None) = fs_flock s2" using f by auto
    then have eq: "funlock (i, h) s3 = s2\<lparr> fs_next := Suc (fs_next s2) \<rparr>" by (simp add: s3' h funlock_def)
    have "lock_free hex m (s2\<lparr> fs_next := k \<rparr>) = lock_free hex m s2" for m k by (rule lock_free_cong) simp_all
    then have "quiet hex s2 (funlock (i, h) s3)"
      using wf unfolding eq by (auto simp: quiet_def dot_dirs_kept_def fs_wf_def reserved_ok_def less_SucI)
    ultimately show ?thesis using True quiet_swept [OF quiet_trans [OF q]] by auto
  next
    case False
    then have r: "r = None" and s4': "s4 = remove_entry (workspaceLockName hex n) (remove_entry n s3)"
      using s4 lv by (auto simp: sweep_locked_def remove_tree_def)
    let ?s5 = "funlock (i, h) s4"
    have flock: "fs_flock ?s5 = fs_flock s2" using f by (auto simp: s4' s3' h funlock_def remove_entry_def)
    have ent: "fs_entries ?s5 = (fs_entries s2)(n := None, workspaceLockName hex n := None)"
      by (simp add: s4' s3' h funlock_def remove_entry_def)
    have lf: "lock_free hex m ?s5 = lock_free hex m s2" for m
      using e f nolock by (auto simp: lock_free_def ent flock split: option.splits entry.splits)
    have "fs_next ?s5 = Suc (fs_next s2)" "fs_dirs ?s5 = fs_dirs s2" by (simp_all add: s4' s3' h funlock_def remove_entry_def)
    then have "fs_wf ?s5" "reserved_ok hex ?s5" using wf by (auto simp: fs_wf_def reserved_ok_def ent flock less_SucI)
    moreover have "dot_dirs_kept s ?s5"
      using q e dot by (auto simp: quiet_def dot_dirs_kept_def ent)
    ultimately show ?thesis using False r q lf \<open>fs_dirs ?s5 = fs_dirs s2\<close> by (auto simp: swept_def quiet_def ent)
  qed
qed

lemma sweep_entry_effect:
  assumes wf: "fs_wf s" "reserved_ok hex s" and dot: "take 1 n \<noteq> ''.''" and present: "fs_entries s n \<noteq> None"
  shows "\<exists>s'. sweep_entry all_ok hex parse keep cutoff clk n s = (None, s') \<and>
    swept hex (if sweepable hex parse cutoff clk n s then {n} else {}) s s'"
proof -
  have stay: "swept hex {} s s" by (rule quiet_swept [OF quiet_refl [OF wf]])
  from present obtain e where e: "fs_entries s n = Some e" by blast
  show ?thesis
  proof (cases "\<exists>d. e = EDir d \<and> jd_mtime (fs_dirs s d) \<le> cutoff")
    case False
    then show ?thesis using e stay
      by (cases e) (auto simp: sweep_entry_def sweep_lstat_def sweepable_def)
  next
    case True
    then obtain d where d: "fs_entries s n = Some (EDir d)" "jd_mtime (fs_dirs s d) \<le> cutoff" using e by auto
    then have se: "sweep_entry all_ok hex parse keep cutoff clk n s = sweep_section all_ok hex parse keep clk n d s"
      by (simp add: sweep_entry_def sweep_lstat_def sweep_open_def)
    obtain i s1 s2 where a: "quiet hex s s2" "fs_entries s2 (workspaceLockName hex n) = Some (EFile i)"
        "(fs_flock s2 i = None) = lock_free hex n s" "acquireLockRegistry all_ok s = (None, s1)"
        "openWorkspaceLock all_ok hex n s1 = (Inr i, s2)"
      using acquire_quiet [OF wf, of n] by auto
    show ?thesis
    proof (cases "lock_free hex n s")
      case False
      then obtain h where "fs_flock s2 i = Some h" using a(3) by auto
      then have "sweep_section all_ok hex parse keep clk n d s = (None, s2)" using a by (simp add: sweep_section_def try_flock_def)
      then show ?thesis using se quiet_swept [OF a(1)] False d by (simp add: sweepable_def)
    next
      case True
      then have f: "fs_flock s2 i = None" using a(3) by simp
      then obtain h s3 where s3: "try_flock i s2 = (Some h, s3)" by (auto simp: try_flock_def)
      obtain r s4 where s4: "sweep_locked all_ok hex parse keep clk n d s3 = (r, s4)" by fastforce
      note eff = sweep_locked_effect [OF a(1,2) f dot s3 s4]
      have "sweep_section all_ok hex parse keep clk n d s = (r, funlock (i, h) s4)" using a s3 s4 by (simp add: sweep_section_def)
      then show ?thesis using se eff True d by (auto simp: sweepable_def)
    qed
  qed
qed

lemma sweepable_swept:
  assumes "swept hex X s s'" and "m \<notin> X" and "take 1 m \<noteq> ''.''"
  shows "sweepable hex parse cutoff clk m s' = sweepable hex parse cutoff clk m s"
  using assms by (simp add: sweepable_def swept_def lease_valid_def split: option.splits entry.splits)

lemma swept_trans: "swept hex X s s1 \<Longrightarrow> swept hex Y s1 s' \<Longrightarrow> swept hex (X \<union> Y) s s'"
  by (auto simp: swept_def dot_dirs_kept_def)

lemma sweep_loop_effect:
  assumes "fs_wf s" and "reserved_ok hex s" and "distinct (map fst es)"
    and "\<forall>n \<in> fst ` set es. take 1 n \<noteq> ''.'' \<longrightarrow> fs_entries s n \<noteq> None"
  shows "\<exists>s'. sweep_loop (\<lambda>_. all_ok) hex parse keep cutoff clk es s = (None, s') \<and>
    swept hex {n. (n, True) \<in> set es \<and> take 1 n \<noteq> ''.'' \<and> sweepable hex parse cutoff (clk n) n s} s s'"
  using assms
proof (induction es arbitrary: s)
  case Nil
  then show ?case using quiet_swept [OF quiet_refl] by simp
next
  case (Cons x es)
  obtain n b where x: "x = (n, b)" by fastforce
  let ?rest = "\<lambda>s. {m. (m, True) \<in> set es \<and> take 1 m \<noteq> ''.'' \<and> sweepable hex parse cutoff (clk m) m s}"
  let ?all = "{m. (m, True) \<in> set (x # es) \<and> take 1 m \<noteq> ''.'' \<and> sweepable hex parse cutoff (clk m) m s}"
  show ?case
  proof (cases "\<not> b \<or> take 1 n = ''.''")
    case True
    have eq: "?all = ?rest s" using True x by auto
    show ?thesis unfolding eq using Cons.IH [OF Cons.prems(1,2)] Cons.prems(3,4) x True by simp
  next
    case False
    let ?X = "if sweepable hex parse cutoff (clk n) n s then {n} else {}"
    have present: "fs_entries s n \<noteq> None" using False Cons.prems(4) x by simp
    from False have dot: "take 1 n \<noteq> ''.''" by simp
    obtain s1 where s1: "sweep_entry all_ok hex parse keep cutoff (clk n) n s = (None, s1)" "swept hex ?X s s1"
      using sweep_entry_effect [OF Cons.prems(1,2) dot present] by blast
    have n: "n \<notin> fst ` set es" using Cons.prems(3) x by auto
    have rest: "\<forall>m \<in> fst ` set es. take 1 m \<noteq> ''.'' \<longrightarrow> fs_entries s1 m \<noteq> None"
      using s1(2) Cons.prems(4) n unfolding swept_def by (auto split: if_splits)
    have wf: "fs_wf s1" "reserved_ok hex s1" "distinct (map fst es)" using s1(2) Cons.prems(3) by (auto simp: swept_def)
    obtain s' where s': "sweep_loop (\<lambda>_. all_ok) hex parse keep cutoff clk es s1 = (None, s')" "swept hex (?rest s1) s1 s'"
      using Cons.IH [OF wf rest] by blast
    have same: "sweepable hex parse cutoff (clk m) m s1 = sweepable hex parse cutoff (clk m) m s"
      if "(m, True) \<in> set es" "take 1 m \<noteq> ''.''" for m
    proof (rule sweepable_swept [OF s1(2) _ that(2)])
      have "m \<noteq> n" using that(1) n by (metis fst_conv image_eqI)
      then show "m \<notin> ?X" by simp
    qed
    have "?all = ?X \<union> ?rest s1" using x False same by auto
    then show ?thesis using s1(1) s' swept_trans [OF s1(2) s'(2)] x False by simp
  qed
qed

text \<open>
  C35. A sweep that meets no fault and no other process at work removes exactly the stale workspaces. Of
  the listed directories without a dot in front it removes those that are old enough, have no valid
  lease marker and whose lock nobody holds; every other entry without a dot in front stays as it was,
  and so does every directory with a dot in front, however old it is. (Job ids may start with a dot;
  their workspaces are therefore never swept.) The names of the registry and of the locks must not
  be directories.
\<close>

theorem sweep_removes_exactly_stale_workspaces:
  assumes "fs_wf s" and "reserved_ok hex s" and "distinct (map fst listing)"
    and "\<forall>n \<in> fst ` set listing. fs_entries s n \<noteq> None"
  shows "\<exists>s'. CleanupStale (\<lambda>_. all_ok) all_ok missing hex parse keep clk check_at olderThan listing s = (None, s')
    \<and> (\<forall>m. take 1 m \<noteq> ''.'' \<longrightarrow> fs_entries s' m =
         (if (m, True) \<in> set listing \<and> sweepable hex parse (clk - olderThan) (check_at m) m s then None else fs_entries s m))
    \<and> (\<forall>m d. take 1 m = ''.'' \<longrightarrow> fs_entries s m = Some (EDir d) \<longrightarrow> fs_entries s' m = Some (EDir d))"
proof -
  have "\<forall>n \<in> fst ` set listing. take 1 n \<noteq> ''.'' \<longrightarrow> fs_entries s n \<noteq> None" using assms(4) by blast
  from sweep_loop_effect [OF assms(1-3) this, of parse keep "clk - olderThan" check_at] obtain s'
    where "sweep_loop (\<lambda>_. all_ok) hex parse keep (clk - olderThan) check_at listing s = (None, s')"
      "swept hex {n. (n, True) \<in> set listing \<and> take 1 n \<noteq> ''.'' \<and> sweepable hex parse (clk - olderThan) (check_at n) n s} s s'"
    by blast
  then show ?thesis by (intro exI [of _ s']) (auto simp: CleanupStale_def swept_def dot_dirs_kept_def)
qed

text \<open>An old workspace, one in use, and the old workspace of a job whose id starts with a dot.\<close>

definition sample_root :: fs where
  "sample_root =
     \<lparr> fs_entries = [''old'' \<mapsto> EDir 0, ''live'' \<mapsto> EDir 1, ''.workspace-lock-live'' \<mapsto> EFile 2, ''.job'' \<mapsto> EDir 3],
       fs_dirs = (\<lambda>_. empty_dir 5), fs_flock = [2 \<mapsto> 3], fs_next = 4 \<rparr>"

theorem sweep_removes_exactly_stale_workspaces_witness:
  "sweepable (\<lambda>n. n) (\<lambda>_. None) 5 9 ''old'' sample_root \<and> \<not> sweepable (\<lambda>n. n) (\<lambda>_. None) 5 9 ''live'' sample_root \<and>
   (\<exists>s'. CleanupStale (\<lambda>_. all_ok) all_ok False (\<lambda>n. n) (\<lambda>_. None) (\<lambda>_. True) 9 (\<lambda>_. 9) 4
      [(''.job'', True), (''.workspace-lock-live'', False), (''live'', True), (''old'', True)] sample_root = (None, s')
      \<and> fs_entries s' ''old'' = None \<and> fs_entries s' ''live'' = Some (EDir 1) \<and> fs_entries s' ''.job'' = Some (EDir 3))"
proof -
  have wf: "fs_wf sample_root" by (auto simp: fs_wf_def sample_root_def split: if_splits)
  have res: "reserved_ok (\<lambda>n. n) sample_root"
    by (auto simp: reserved_ok_def sample_root_def registryName_def workspaceLockName_def split: if_splits)
  let ?l = "[(''.job'', True), (''.workspace-lock-live'', False), (''live'', True), (''old'', True)]"
  have sw: "sweepable (\<lambda>n. n) (\<lambda>_. None) (9 - 4) 9 ''old'' sample_root" "\<not> sweepable (\<lambda>n. n) (\<lambda>_. None) (9 - 4) 9 ''live'' sample_root"
    by (simp_all add: sweepable_def sample_root_def empty_dir_def lease_valid_def lock_free_def workspaceLockName_def)
  have pres: "\<forall>n \<in> fst ` set ?l. fs_entries sample_root n \<noteq> None" by (simp add: sample_root_def)
  have dist: "distinct (map fst ?l)" by simp
  have e: "fs_entries sample_root ''live'' = Some (EDir 1)" "fs_entries sample_root ''.job'' = Some (EDir 3)"
    by (simp_all add: sample_root_def)
  obtain s' where s': "CleanupStale (\<lambda>_. all_ok) all_ok False (\<lambda>n. n) (\<lambda>_. None) (\<lambda>_. True) 9 (\<lambda>_. 9) 4 ?l sample_root = (None, s')"
    and gone: "\<And>m. take 1 m \<noteq> ''.'' \<Longrightarrow> fs_entries s' m =
      (if (m, True) \<in> set ?l \<and> sweepable (\<lambda>n. n) (\<lambda>_. None) (9 - 4) 9 m sample_root then None else fs_entries sample_root m)"
    and kept: "\<And>m d. take 1 m = ''.'' \<Longrightarrow> fs_entries sample_root m = Some (EDir d) \<Longrightarrow> fs_entries s' m = Some (EDir d)"
    using sweep_removes_exactly_stale_workspaces [OF wf res dist pres, of False "\<lambda>_. None" "\<lambda>_. True" 9 "\<lambda>_. 9" 4] by blast
  have "fs_entries s' ''old'' = None" "fs_entries s' ''live'' = Some (EDir 1)" "fs_entries s' ''.job'' = Some (EDir 3)"
    using gone [of "''old''"] gone [of "''live''"] kept [of "''.job''" 3] sw e by simp_all
  then show ?thesis using s' sw by auto
qed

section \<open>Creating and cleaning up\<close>

text \<open>The directory a job finds: none, or one left behind, in which the two subdirectories can be made.\<close>

definition usable :: "string \<Rightarrow> fs \<Rightarrow> bool" where
  "usable j s \<longleftrightarrow>
     (case fs_entries s j of
        None \<Rightarrow> True
      | Some (EFile _) \<Rightarrow> False
      | Some (EDir d) \<Rightarrow> jd_files (fs_dirs s d) [''assets''] = None \<and> jd_files (fs_dirs s d) [''output''] = None)"

lemma mkdir_entry_effect:
  assumes "fs_wf s" and "reserved_ok hex s" and "usable j s" and "take 1 j \<noteq> ''.''"
  shows "\<exists>d. fs_entries (mkdir_entry clk j s) j = Some (EDir d)
    \<and> jd_files (fs_dirs (mkdir_entry clk j s) d) [''assets''] = None \<and> jd_files (fs_dirs (mkdir_entry clk j s) d) [''output''] = None"
    and "fs_wf (mkdir_entry clk j s)" and "reserved_ok hex (mkdir_entry clk j s)"
    and "fs_flock (mkdir_entry clk j s) = fs_flock s" and "lock_free hex m (mkdir_entry clk j s) = lock_free hex m s"
    and "n \<noteq> j \<Longrightarrow> fs_entries (mkdir_entry clk j s) n = fs_entries s n"
proof -
  have nj: "workspaceLockName hex n \<noteq> j" "registryName \<noteq> j" for n using assms(4) by (auto simp: workspaceLockName_def registryName_def)
  show "\<exists>d. fs_entries (mkdir_entry clk j s) j = Some (EDir d)
    \<and> jd_files (fs_dirs (mkdir_entry clk j s) d) [''assets''] = None \<and> jd_files (fs_dirs (mkdir_entry clk j s) d) [''output''] = None"
    using assms(3) by (auto simp: usable_def mkdir_entry_def empty_dir_def split: option.splits entry.splits)
  show "fs_wf (mkdir_entry clk j s)" using assms(1) changes_mkdir_entry unfolding changes_def by blast
  show "reserved_ok hex (mkdir_entry clk j s)"
    using assms(2) nj by (auto simp: reserved_ok_def mkdir_entry_def split: option.splits)
  show "fs_flock (mkdir_entry clk j s) = fs_flock s" by (simp add: mkdir_entry_def split: option.splits)
  show "lock_free hex m (mkdir_entry clk j s) = lock_free hex m s"
    using nj(1) by (simp add: lock_free_def mkdir_entry_def split: option.splits entry.splits)
  show "n \<noteq> j \<Longrightarrow> fs_entries (mkdir_entry clk j s) n = fs_entries s n" by (simp add: mkdir_entry_def split: option.splits)
qed

lemma MkdirAll_in_top:
  assumes "fs_entries s j = Some (EDir d)" and "jd_files (fs_dirs s d) [x] = None"
  shows "\<exists>j'. MkdirAll_in all_ok clk j d [x] s = (None, on_dir d (\<lambda>_. j') s) \<and> jd_files j' = jd_files (fs_dirs s d)"
  using assms
  by (intro exI [of _ "(touch clk [x] (fs_dirs s d))\<lparr> jd_dirs := jd_dirs (fs_dirs s d) \<union> {[x]} \<rparr>"])
    (simp add: MkdirAll_in_def linked_def mkdir_all_def up_paths_def touch_def domIff)

lemma new_populate_effect:
  assumes "fs_entries s j = Some (EDir d)" and "jd_files (fs_dirs s d) [''assets''] = None" and "jd_files (fs_dirs s d) [''output''] = None"
  shows "\<exists>s'. new_populate all_ok clk j d s = (None, s') \<and> fs_entries s' = fs_entries s \<and> fs_flock s' = fs_flock s \<and> fs_next s' = fs_next s"
proof -
  obtain j1 where 1: "MkdirAll_in all_ok clk j d [''assets''] s = (None, on_dir d (\<lambda>_. j1) s)" "jd_files j1 = jd_files (fs_dirs s d)"
    using MkdirAll_in_top [OF assms(1,2)] by blast
  let ?s1 = "on_dir d (\<lambda>_. j1) s"
  have "fs_entries ?s1 j = Some (EDir d)" "jd_files (fs_dirs ?s1 d) [''output''] = None" using assms 1(2) by (simp_all add: on_dir_def)
  from MkdirAll_in_top [OF this, of clk] obtain j2 where "MkdirAll_in all_ok clk j d [''output''] ?s1 = (None, on_dir d (\<lambda>_. j2) ?s1)" by blast
  then show ?thesis using 1(1) by (simp add: new_populate_def) (simp add: on_dir_def)
qed

lemma New_effect:
  assumes "fs_wf s" and "reserved_ok hex s" and "usable j s" and "take 1 j \<noteq> ''.''" and "ValidateJobID U j = Inr ()" and "lock_free hex j s"
  shows "\<exists>i h d s'. ws_New all_ok all_ok U hex clk jobsRoot j s = (Inr (new_workspace jobsRoot j (i, h) d), s')
    \<and> fs_entries s' j = Some (EDir d) \<and> fs_entries s' (workspaceLockName hex j) = Some (EFile i) \<and> fs_flock s' = (fs_flock s)(i \<mapsto> h)
    \<and> fs_flock s i = None \<and> fs_wf s' \<and> reserved_ok hex s' \<and> (\<forall>n. take 1 n \<noteq> ''.'' \<longrightarrow> n \<noteq> j \<longrightarrow> fs_entries s' n = fs_entries s n)"
proof -
  let ?s0 = "mkdir_entry clk j s"
  note m = mkdir_entry_effect [OF assms(1-4), where clk = clk]
  obtain d where d: "fs_entries ?s0 j = Some (EDir d)" "jd_files (fs_dirs ?s0 d) [''assets''] = None" "jd_files (fs_dirs ?s0 d) [''output''] = None"
    using m(1) by blast
  obtain i s1 s2 where a: "quiet hex ?s0 s2" "fs_entries s2 (workspaceLockName hex j) = Some (EFile i)"
      "(fs_flock s2 i = None) = lock_free hex j ?s0" "acquireLockRegistry all_ok ?s0 = (None, s1)"
      "openWorkspaceLock all_ok hex j s1 = (Inr i, s2)"
    using acquire_quiet [OF m(2,3), of j] by auto
  have f: "fs_flock s2 i = None" using a(3) m(5) assms(6) by simp
  let ?h = "fs_next s2"
  let ?s3 = "s2\<lparr> fs_flock := (fs_flock s2)(i \<mapsto> ?h), fs_next := Suc ?h \<rparr>"
  have acq: "acquireWorkspaceLock all_ok hex j ?s0 = (Inr (i, ?h), ?s3)" using a f by (simp add: acquireWorkspaceLock_def try_flock_def)
  have e2: "fs_entries s2 j = Some (EDir d)" "fs_dirs s2 = fs_dirs ?s0" using a(1) d assms(4) by (auto simp: quiet_def)
  have i: "i < ?h" using entry_number [OF a(2)] a(1) by (simp add: quiet_def)
  obtain s4 where s4: "new_populate all_ok clk j d ?s3 = (None, s4)" "fs_entries s4 = fs_entries ?s3" "fs_flock s4 = fs_flock ?s3" "fs_next s4 = fs_next ?s3"
    using new_populate_effect [of ?s3 j d clk] e2 d by auto
  have "ws_New all_ok all_ok U hex clk jobsRoot j s = (Inr (new_workspace jobsRoot j (i, ?h) d), s4)"
    using assms(5) acq s4(1) e2(1) by (simp add: ws_New_def new_mkdir_def new_stat_def new_open_def)
  moreover have "fs_wf s4" using a(1) i s4(2-4) by (auto simp: quiet_def fs_wf_def less_SucI)
  moreover have "reserved_ok hex s4" using a(1) s4(2) by (simp add: quiet_def reserved_ok_def)
  ultimately show ?thesis using e2(1) a f s4(2,3) m(4,6) by (auto simp: quiet_def)
qed

text \<open>
  A workspace that is created and cleaned up without a fault leaves nothing behind: \<open>New\<close> returns the
  workspace of the job and holds its lock, and after \<open>Cleanup\<close> neither the directory nor the lock file
  is there, no lock is held that was not held before, and the other entries are as they were.
\<close>

theorem workspace_round_trip:
  assumes "fs_wf s" and "reserved_ok hex s" and "usable j s" and "take 1 j \<noteq> ''.''" and "ValidateJobID U j = Inr ()" and "lock_free hex j s"
    and "\<forall>x \<in> set rs. plain_seg x"
  shows "\<exists>w s1 w' s2. ws_New all_ok all_ok U hex clk (render True rs) j s = (Inr w, s1) \<and> \<not> lock_free hex j s1
    \<and> Cleanup all_ok hex keep w s1 = (None, w', s2) \<and> fs_entries s2 j = None \<and> fs_entries s2 (workspaceLockName hex j) = None
    \<and> fs_flock s2 = fs_flock s \<and> {n. take 1 n \<noteq> ''.'' \<and> n \<noteq> j \<and> fs_entries s2 n \<noteq> fs_entries s n} = {}"
proof -
  obtain i h d s1 where n: "ws_New all_ok all_ok U hex clk (render True rs) j s = (Inr (new_workspace (render True rs) j (i, h) d), s1)"
      "fs_entries s1 j = Some (EDir d)" "fs_entries s1 (workspaceLockName hex j) = Some (EFile i)" "fs_flock s1 = (fs_flock s)(i \<mapsto> h)"
      "fs_flock s i = None" "fs_wf s1" "reserved_ok hex s1" "\<forall>n. take 1 n \<noteq> ''.'' \<longrightarrow> n \<noteq> j \<longrightarrow> fs_entries s1 n = fs_entries s n"
    using New_effect [OF assms(1-6), of clk "render True rs"] by blast
  let ?w = "new_workspace (render True rs) j (i, h) d"
  have b: "path_Base (w_root ?w) = j" by (rule path_Base_workspace [OF assms(7) valid_id_plain [OF assms(5)]])
  obtain s2 where s2: "acquireLockRegistry all_ok s1 = (None, s2)" "quiet hex s1 s2" using registry_quiet [OF n(6,7)] by blast
  let ?s3 = "remove_entry (workspaceLockName hex j) (remove_entry j s2)"
  have sec: "cleanup_section all_ok hex keep ?w s1 = (None, ?s3)"
    unfolding cleanup_section_def b using s2(1) by (simp add: remove_tree_def new_workspace_def)
  have nl: "workspaceLockName hex j \<noteq> n" if "take 1 n \<noteq> ''.''" for n using that by (auto simp: workspaceLockName_def)
  have fl: "fs_flock (funlock (i, h) ?s3) = fs_flock s" "fs_entries (funlock (i, h) ?s3) = fs_entries ?s3"
    using s2(2) n(4,5) by (auto simp: quiet_def funlock_def remove_entry_def)
  have c: "Cleanup all_ok hex keep ?w s1 = (None, ?w\<lparr> w_fsRoot := None, w_lockFile := None, w_jobsFS := False \<rparr>, funlock (i, h) ?s3)"
    unfolding Cleanup_def sec by (simp add: cleanup_close_def new_workspace_def first_of_def failed_call_def)
  have l: "\<not> lock_free hex j s1" using n(3,4) by (simp add: lock_free_def)
  have gone: "fs_entries (funlock (i, h) ?s3) j = None" "fs_entries (funlock (i, h) ?s3) (workspaceLockName hex j) = None"
    unfolding fl(2) by (simp_all add: remove_entry_def)
  have "fs_entries (funlock (i, h) ?s3) m = fs_entries s m" if "take 1 m \<noteq> ''.''" "m \<noteq> j" for m
    using that n(8) s2(2) nl [OF that(1)] unfolding fl(2) by (simp add: quiet_def remove_entry_def)
  then have rest: "{n. take 1 n \<noteq> ''.'' \<and> n \<noteq> j \<and> fs_entries (funlock (i, h) ?s3) n \<noteq> fs_entries s n} = {}" by blast
  show ?thesis by (intro exI conjI) (rule n(1), rule l, rule c, rule gone(1), rule gone(2), rule fl(1), rule rest)
qed

theorem workspace_round_trip_witness:
  "\<exists>w s1. ws_New all_ok all_ok (\<lambda>_. False) (\<lambda>n. n) 7 (render True [''jobs'']) ''old'' sample_root = (Inr w, s1)"
proof -
  have wf: "fs_wf sample_root" by (auto simp: fs_wf_def sample_root_def split: if_splits)
  have res: "reserved_ok (\<lambda>n. n) sample_root"
    by (auto simp: reserved_ok_def sample_root_def registryName_def workspaceLockName_def split: if_splits)
  have us: "usable ''old'' sample_root" by (simp add: usable_def sample_root_def empty_dir_def)
  have lf: "lock_free (\<lambda>n. n) ''old'' sample_root" by (simp add: lock_free_def sample_root_def workspaceLockName_def)
  have ok: "ValidateJobID (\<lambda>_. False) ''old'' = Inr ()" by (simp add: ValidateJobID_def id_ascii_ok_def RuneSelf_def)
  have dot: "take 1 ''old'' \<noteq> ''.''" by simp
  have pl: "\<forall>x \<in> set [''jobs'']. plain_seg x" by (simp add: plain_seg_def)
  show ?thesis using workspace_round_trip [OF wf res us dot ok lf pl, of 7 "\<lambda>_. True"] by blast
qed

section \<open>Two departures\<close>

text \<open>
  The name of the lock registry is a valid job id. A job of that name on a fresh worker leaves a
  directory in the place of the registry, after which no workspace can be created, whatever the job.
\<close>

theorem registry_name_as_job_id_blocks_the_worker:
  "ValidateJobID U registryName = Inr ()
   \<and> fs_entries (snd (ws_New all_ok all_ok U hex clk jobsRoot registryName empty_fs)) registryName = Some (EDir 0)
   \<and> {(j, ok, okd). \<exists>w. fst (ws_New ok okd U hex clk jobsRoot j (snd (ws_New all_ok all_ok U hex clk jobsRoot registryName empty_fs))) = Inr w} = {}"
proof -
  have v: "ValidateJobID U registryName = Inr ()"
    by (simp add: ValidateJobID_def registryName_def id_ascii_ok_def RuneSelf_def)
  have e: "fs_entries (snd (ws_New all_ok all_ok U hex clk jobsRoot registryName empty_fs)) registryName = Some (EDir 0)"
    using v by (simp add: ws_New_def new_mkdir_def mkdir_entry_def empty_fs_def acquireWorkspaceLock_def acquireLockRegistry_def open_create_def)
  have "fst (ws_New ok okd U hex clk jobsRoot j s) \<noteq> Inr w" if "fs_entries s registryName = Some (EDir 0)" for ok okd j w s
  proof -
    have "fs_entries (mkdir_entry clk j s) registryName = Some (EDir 0)" using that by (auto simp: mkdir_entry_def split: option.splits)
    then show ?thesis
      by (auto simp: ws_New_def new_mkdir_def acquireWorkspaceLock_def acquireLockRegistry_def open_create_def that split: sum.splits)
  qed
  then show ?thesis using v e by blast
qed

text \<open>
  A cleanup that could not remove the directory keeps the lock, so that nobody reuses the directory; a
  second call of \<open>Cleanup\<close> then reports success, releases the lock and leaves the directory in place.
\<close>

lemma second_cleanup_forgets_the_directory:
  assumes "fs_wf s" and "reserved_ok hex s" and "w_jobsFS w" and "w_lockFile w = Some lk"
  shows "\<exists>e w1 s1 w2 s2. Cleanup (\<lambda>c. c \<noteq> RemoveTree) hex keep w s = (Some e, w1, s1) \<and> Cleanup all_ok hex keep w1 s1 = (None, w2, s2)
    \<and> fs_flock s2 (fst lk) \<noteq> Some (snd lk) \<and> (take 1 (w_job w) \<noteq> ''.'' \<longrightarrow> fs_entries s2 (w_job w) = fs_entries s (w_job w))"
proof -
  have "acquireLockRegistry (\<lambda>c. c \<noteq> RemoveTree) s = acquireLockRegistry all_ok s"
    by (simp add: acquireLockRegistry_def split: option.splits prod.splits)
  then obtain s0 where s0: "acquireLockRegistry (\<lambda>c. c \<noteq> RemoveTree) s = (None, s0)" "quiet hex s s0"
    using registry_quiet [OF assms(1,2)] by auto
  obtain e s1 where s1: "remove_tree (\<lambda>c. c \<noteq> RemoveTree) keep (path_Base (w_root w)) s0 = (Some e, s1)" "fs_entries s1 = fs_entries s0"
    by (auto simp: remove_tree_def on_dir_def split: option.splits entry.splits)
  let ?w1 = "w\<lparr> w_fsRoot := None, w_jobsFS := False \<rparr>"
  have c1: "Cleanup (\<lambda>c. c \<noteq> RemoveTree) hex keep w s = (Some e, ?w1, s1)"
    using assms(3,4) s0(1) s1(1)
    by (simp add: Cleanup_def cleanup_section_def cleanup_close_def first_of_def failed_call_def split: option.splits)
  have c2: "Cleanup all_ok hex keep ?w1 s1 = (None, ?w1\<lparr> w_lockFile := None \<rparr>, funlock lk s1)"
    using assms(4) by (simp add: Cleanup_def cleanup_section_def cleanup_close_def)
  have "fs_flock (funlock lk s1) (fst lk) \<noteq> Some (snd lk)" "fs_entries (funlock lk s1) = fs_entries s0"
    using s1(2) by (auto simp: funlock_def)
  then show ?thesis using c1 c2 s0(2) by (auto simp: quiet_def)
qed

end
