(* ===== verification/Workspace_Assets.thy ===== *)
theory Workspace_Assets
  imports Workspace_Sweep "HOL-Library.Multiset"
begin

text \<open>
  The materialization of assets into a workspace, \<open>MaterializePaths\<close> of
  \<open>renderinggen/internal/workspace/workspace.go\<close>: the copy of one asset through a temporary file, and
  the pool of workers fed through a channel that a failure or the caller may cancel at any moment.
\<close>

section \<open>One asset\<close>

text \<open>
  \<open>read\<close> gives the content of a local file, \<open>tmpName\<close> is the name of the temporary file (from the clock),
  \<open>part\<close> how much of it a failing copy has written. \<open>cancelled\<close> is the context as the copy sees it before
  it installs the file. The temporary file is created exclusively and removed at the end, unless it was
  renamed or cannot be removed.
\<close>

definition drop_temp_file :: "faults \<Rightarrow> nat \<Rightarrow> string list \<Rightarrow> bytes \<Rightarrow> fs \<Rightarrow> fs" where
  "drop_temp_file ok d tmp data s =
     (if ok RemoveTemp then s else on_dir d (\<lambda>j. j\<lparr> jd_files := (jd_files j)(tmp \<mapsto> data) \<rparr>) s)"

definition copyFileRooted ::
  "faults \<Rightarrow> bool \<Rightarrow> (string \<Rightarrow> bytes option) \<Rightarrow> string \<Rightarrow> nat \<Rightarrow> string \<Rightarrow> nat \<Rightarrow> string \<Rightarrow> string list \<Rightarrow> fs \<Rightarrow> ws_error option \<times> fs" where
  "copyFileRooted ok cancelled read tmpName part job d source dst s =
     (case (if ok OpenSource then read source else None) of
        None \<Rightarrow> (Some (SyscallFailed OpenSource), s)
      | Some data \<Rightarrow>
          (let tmp = butlast dst @ [tmpName]; j = fs_dirs s d in
           if \<not> ok CreateTemp \<or> \<not> linked job d s \<or> tmp \<in> jd_dirs j \<or> tmp \<in> dom (jd_files j) then (Some (SyscallFailed CreateTemp), s)
           else if \<not> ok CopyData then (Some (SyscallFailed CopyData), drop_temp_file ok d tmp (take part data) s)
           else if \<not> ok SyncTemp then (Some (SyscallFailed SyncTemp), drop_temp_file ok d tmp data s)
           else if \<not> ok CloseTemp then (Some (SyscallFailed CloseTemp), drop_temp_file ok d tmp data s)
           else if cancelled then (Some ContextCancelled, drop_temp_file ok d tmp data s)
           else if \<not> ok RenameTemp \<or> dst \<in> jd_dirs j then (Some (SyscallFailed RenameTemp), drop_temp_file ok d tmp data s)
           else (None, on_dir d (\<lambda>j. j\<lparr> jd_files := (jd_files j)(dst \<mapsto> data) \<rparr>) s)))"

text \<open>\<open>resolve\<close> is the outcome of the path resolver: an error or the path of a local file.\<close>

definition materializeOne ::
  "faults \<Rightarrow> bool \<Rightarrow> (AssetRef \<Rightarrow> string option) \<Rightarrow> (string \<Rightarrow> bytes option) \<Rightarrow> string \<Rightarrow> nat \<Rightarrow> gotime \<Rightarrow> nat \<Rightarrow> Workspace \<Rightarrow> AssetRef \<Rightarrow> fs
     \<Rightarrow> ws_error option \<times> fs" where
  "materializeOne ok cancelled resolve read tmpName part clk d w a s =
     (case assetPath w (ar_LogicalPath a) of
        Inl e \<Rightarrow> (Some e, s)
      | Inr dst \<Rightarrow>
          (case resolve a of
             None \<Rightarrow> (Some (ResolveFailed (ar_Hash a)), s)
           | Some localPath \<Rightarrow>
               (if localPath = [] then (Some (EmptyLocalPath (ar_Hash a)), s)
                else case path_Rel (w_root w) dst of
                  None \<Rightarrow> (Some OutsideJobRoot, s)
                | Some rel \<Rightarrow>
                    (if rel = ''.'' \<or> escapes rel then (Some OutsideJobRoot, s)
                     else
                       (let path = elements rel in
                        case (if butlast path \<noteq> [] then MkdirAll_in ok clk (w_job w) d (butlast path) s else (None, s)) of
                          (Some e, s1) \<Rightarrow> (Some e, s1)
                        | (None, s1) \<Rightarrow>
                            (if localPath = dst then (None, s1)
                             else copyFileRooted ok cancelled read tmpName part (w_job w) d localPath path s1))))))"

section \<open>The pool\<close>

text \<open>
  The assets still to send, those in the channel, those whose turn is over, the first error, and
  whether the working context is cancelled, by a failure or (\<open>pl_outer\<close>) by the caller. The sending loop
  ends when everything is sent or when it takes the cancelled branch of its \<open>select\<close>.
\<close>

record pool =
  pl_todo :: "AssetRef list"
  pl_jobs :: "AssetRef list"
  pl_over :: "AssetRef list"
  pl_err :: "ws_error option"
  pl_cancelled :: bool
  pl_outer :: bool
  pl_fs :: fs

definition workerCount :: "nat \<Rightarrow> nat \<Rightarrow> nat" where
  "workerCount assets ncpu = max 1 (min (min assets 4) ncpu)"

definition send_asset :: "nat \<Rightarrow> pool \<Rightarrow> pool option" where
  "send_asset workers p =
     (case pl_todo p of
        [] \<Rightarrow> None
      | a # rest \<Rightarrow> (if length (pl_jobs p) < workers then Some (p\<lparr> pl_todo := rest, pl_jobs := pl_jobs p @ [a] \<rparr>) else None))"

text \<open>A worker takes an asset and deals with it; the first error is kept and cancels the context.\<close>

definition take_asset ::
  "faults \<Rightarrow> (AssetRef \<Rightarrow> string option) \<Rightarrow> (string \<Rightarrow> bytes option) \<Rightarrow> string \<Rightarrow> nat \<Rightarrow> gotime \<Rightarrow> nat \<Rightarrow> Workspace \<Rightarrow> pool \<Rightarrow> pool option" where
  "take_asset ok resolve read tmpName part clk d w p =
     (case pl_jobs p of
        [] \<Rightarrow> None
      | a # rest \<Rightarrow>
          (case materializeOne ok (pl_cancelled p) resolve read tmpName part clk d w a (pl_fs p) of
             (r, s') \<Rightarrow>
               Some (p\<lparr> pl_jobs := rest, pl_over := a # pl_over p, pl_fs := s',
                        pl_err := (if pl_err p = None then r else pl_err p),
                        pl_cancelled := (pl_cancelled p \<or> pl_err p = None \<and> r \<noteq> None) \<rparr>)))"

inductive pool_step ::
  "(AssetRef \<Rightarrow> string option) \<Rightarrow> (string \<Rightarrow> bytes option) \<Rightarrow> nat \<Rightarrow> nat \<Rightarrow> Workspace \<Rightarrow> pool \<Rightarrow> pool \<Rightarrow> bool"
  for resolve read workers d w where
  send: "send_asset workers p = Some p' \<Longrightarrow> pool_step resolve read workers d w p p'"
| stop: "pl_cancelled p \<Longrightarrow> pool_step resolve read workers d w p (p\<lparr> pl_todo := [] \<rparr>)"
| take: "take_asset ok resolve read tmpName part clk d w p = Some p' \<Longrightarrow> pool_step resolve read workers d w p p'"
| outer: "pool_step resolve read workers d w p (p\<lparr> pl_cancelled := True, pl_outer := True \<rparr>)"

definition pool_start :: "AssetRef list \<Rightarrow> fs \<Rightarrow> pool" where
  "pool_start assets s =
     \<lparr> pl_todo = assets, pl_jobs = [], pl_over = [], pl_err = None, pl_cancelled = False, pl_outer = False, pl_fs = s \<rparr>"

text \<open>\<open>MaterializePaths\<close> returns \<open>r\<close> with the files \<open>s'\<close>: some run of the pool ends with nothing left to do.\<close>

inductive MaterializePaths ::
  "(AssetRef \<Rightarrow> string option) \<Rightarrow> (string \<Rightarrow> bytes option) \<Rightarrow> nat \<Rightarrow> Workspace \<Rightarrow> AssetRef list \<Rightarrow> fs \<Rightarrow> bool \<Rightarrow> ws_error option \<Rightarrow> fs \<Rightarrow> bool"
  for resolve read ncpu w where
  closed_workspace: "w_fsRoot w = None \<Longrightarrow> MaterializePaths resolve read ncpu w assets s outer (Some ClosedWorkspace) s"
| no_assets: "w_fsRoot w = Some d \<Longrightarrow> MaterializePaths resolve read ncpu w [] s outer None s"
| ran: "w_fsRoot w = Some d \<Longrightarrow> assets \<noteq> [] \<Longrightarrow>
     (pool_step resolve read (workerCount (length assets) ncpu) d w)\<^sup>*\<^sup>* (pool_start assets s) p \<Longrightarrow>
     pl_todo p = [] \<Longrightarrow> pl_jobs p = [] \<Longrightarrow>
     MaterializePaths resolve read ncpu w assets s (pl_outer p) (pl_err p) (pl_fs p)"

section \<open>What a successful materialization means\<close>

definition asset_dest :: "Workspace \<Rightarrow> AssetRef \<Rightarrow> string list option" where
  "asset_dest w a =
     (case assetPath w (ar_LogicalPath a) of Inl e \<Rightarrow> None | Inr dst \<Rightarrow> map_option elements (path_Rel (w_root w) dst))"

text \<open>The asset is in its place: its local file was there already, or its bytes are.\<close>

definition in_place :: "(AssetRef \<Rightarrow> string option) \<Rightarrow> (string \<Rightarrow> bytes option) \<Rightarrow> nat \<Rightarrow> Workspace \<Rightarrow> fs \<Rightarrow> AssetRef \<Rightarrow> bool" where
  "in_place resolve read d w s a \<longleftrightarrow>
     (case (resolve a, asset_dest w a) of
        (Some localPath, Some path) \<Rightarrow>
          assetPath w (ar_LogicalPath a) = Inr localPath \<or>
          read localPath \<noteq> None \<and> jd_files (fs_dirs s d) path = read localPath
      | _ \<Rightarrow> False)"

text \<open>What one step does to the files: it leaves them, writes one that was not there, or installs the asset.\<close>

lemma copy_files:
  assumes "copyFileRooted ok cancelled read tmpName part job d source dst s = (r, s')"
  shows "(r = None \<longrightarrow> read source \<noteq> None \<and> jd_files (fs_dirs s' d) dst = read source) \<and>
    (\<forall>path. path \<noteq> dst \<longrightarrow> path \<in> dom (jd_files (fs_dirs s d)) \<longrightarrow> jd_files (fs_dirs s' d) path = jd_files (fs_dirs s d) path) \<and>
    (r \<noteq> None \<longrightarrow> (\<forall>path \<in> dom (jd_files (fs_dirs s d)). jd_files (fs_dirs s' d) path = jd_files (fs_dirs s d) path))"
  using assms
  by (auto simp: copyFileRooted_def drop_temp_file_def on_dir_def Let_def split: option.splits if_splits)

lemma MkdirAll_in_files: "MkdirAll_in ok clk j d path s = (r, s') \<Longrightarrow> jd_files (fs_dirs s' d) = jd_files (fs_dirs s d)"
  by (auto simp: MkdirAll_in_def mkdir_all_def touch_def on_dir_def split: if_splits option.splits)

lemma materializeOne_files:
  assumes "materializeOne ok cancelled resolve read tmpName part clk d w a s = (r, s')"
  shows "r = None \<Longrightarrow> in_place resolve read d w s' a"
    and "path \<in> dom (jd_files (fs_dirs s d)) \<Longrightarrow> asset_dest w a \<noteq> Some path \<Longrightarrow> jd_files (fs_dirs s' d) path = jd_files (fs_dirs s d) path"
proof -
  have *: "(r = None \<longrightarrow> in_place resolve read d w s' a) \<and>
    (path \<in> dom (jd_files (fs_dirs s d)) \<longrightarrow> asset_dest w a \<noteq> Some path \<longrightarrow> jd_files (fs_dirs s' d) path = jd_files (fs_dirs s d) path)"
  proof (cases "\<exists>dst lp rel. assetPath w (ar_LogicalPath a) = Inr dst \<and> resolve a = Some lp \<and> lp \<noteq> [] \<and> path_Rel (w_root w) dst = Some rel
      \<and> \<not> (rel = ''.'' \<or> escapes rel)")
    case False
    then have "r \<noteq> None \<and> s' = s" using assms by (auto simp: materializeOne_def split: sum.splits option.splits if_splits)
    then show ?thesis by auto
  next
    case True
    then obtain dst lp rel where h: "assetPath w (ar_LogicalPath a) = Inr dst" "resolve a = Some lp" "lp \<noteq> []"
        "path_Rel (w_root w) dst = Some rel" "\<not> (rel = ''.'' \<or> escapes rel)" by blast
    let ?path = "elements rel"
    have d: "asset_dest w a = Some ?path" using h by (simp add: asset_dest_def)
    obtain e s1 where s1: "(if butlast ?path \<noteq> [] then MkdirAll_in ok clk (w_job w) d (butlast ?path) s else (None, s)) = (e, s1)" by fastforce
    then have f: "jd_files (fs_dirs s1 d) = jd_files (fs_dirs s d)" using MkdirAll_in_files by (auto split: if_splits)
    have m: "materializeOne ok cancelled resolve read tmpName part clk d w a s =
        (case e of Some e \<Rightarrow> (Some e, s1)
         | None \<Rightarrow> if lp = dst then (None, s1) else copyFileRooted ok cancelled read tmpName part (w_job w) d lp ?path s1)"
      using h s1 by (simp add: materializeOne_def Let_def split: option.splits)
    show ?thesis
    proof (cases "e = None \<and> lp \<noteq> dst")
      case True
      then have "copyFileRooted ok cancelled read tmpName part (w_job w) d lp ?path s1 = (r, s')" using assms m by simp
      from copy_files [OF this] show ?thesis using f h d by (auto simp: in_place_def)
    next
      case False
      then show ?thesis using assms m f h d by (auto simp: in_place_def split: option.splits if_splits)
    qed
  qed
  show "r = None \<Longrightarrow> in_place resolve read d w s' a" using * by blast
  show "path \<in> dom (jd_files (fs_dirs s d)) \<Longrightarrow> asset_dest w a \<noteq> Some path \<Longrightarrow> jd_files (fs_dirs s' d) path = jd_files (fs_dirs s d) path"
    using * by blast
qed

lemma in_place_kept:
  assumes "materializeOne ok cancelled resolve read tmpName part clk d w b s = (r, s')" and "in_place resolve read d w s a"
    and "asset_dest w a \<noteq> asset_dest w b"
  shows "in_place resolve read d w s' a"
proof -
  obtain lp path where h: "resolve a = Some lp" "asset_dest w a = Some path" using assms(2) by (auto simp: in_place_def split: option.splits)
  show ?thesis
  proof (cases "assetPath w (ar_LogicalPath a) = Inr lp")
    case False
    then have "read lp \<noteq> None" "jd_files (fs_dirs s d) path = read lp" using assms(2) h by (auto simp: in_place_def)
    moreover from this have "jd_files (fs_dirs s' d) path = jd_files (fs_dirs s d) path"
      using materializeOne_files(2) [OF assms(1)] assms(3) h by (metis domIff)
    ultimately show ?thesis using h by (simp add: in_place_def)
  qed (use h in \<open>simp add: in_place_def\<close>)
qed

definition pool_inv :: "(AssetRef \<Rightarrow> string option) \<Rightarrow> (string \<Rightarrow> bytes option) \<Rightarrow> nat \<Rightarrow> Workspace \<Rightarrow> AssetRef list \<Rightarrow> pool \<Rightarrow> bool" where
  "pool_inv resolve read d w assets p \<longleftrightarrow>
     (\<not> pl_outer p \<and> pl_err p = None \<longrightarrow>
        \<not> pl_cancelled p \<and> mset assets = mset (pl_over p) + mset (pl_jobs p) + mset (pl_todo p) \<and>
        (\<forall>a \<in> set (pl_over p). in_place resolve read d w (pl_fs p) a))"

lemma pool_step_inv:
  assumes "pool_step resolve read workers d w p p'" and inv: "pool_inv resolve read d w assets p"
    and dist: "distinct (map (asset_dest w) assets)"
  shows "pool_inv resolve read d w assets p'"
  using assms(1)
proof cases
  case send
  then show ?thesis using inv by (auto simp: send_asset_def pool_inv_def split: list.splits if_splits)
next
  case stop
  then show ?thesis using inv by (auto simp: pool_inv_def)
next
  case (take ok tmpName part clk)
  then obtain a rest r s' where h: "pl_jobs p = a # rest"
      "materializeOne ok (pl_cancelled p) resolve read tmpName part clk d w a (pl_fs p) = (r, s')"
      "p' = p\<lparr> pl_jobs := rest, pl_over := a # pl_over p, pl_fs := s', pl_err := (if pl_err p = None then r else pl_err p),
        pl_cancelled := (pl_cancelled p \<or> pl_err p = None \<and> r \<noteq> None) \<rparr>"
    by (auto simp: take_asset_def split: list.splits prod.splits)
  show ?thesis
  proof (cases "\<not> pl_outer p \<and> pl_err p = None \<and> r = None")
    case True
    then have ms: "mset assets = mset (pl_over p) + mset (pl_jobs p) + mset (pl_todo p)" "\<not> pl_cancelled p"
        and ip: "\<forall>b \<in> set (pl_over p). in_place resolve read d w (pl_fs p) b"
      using inv by (auto simp: pool_inv_def)
    have "mset (map (asset_dest w) assets) = mset (map (asset_dest w) (pl_over p @ a # rest @ pl_todo p))"
      using ms h(1) by (simp add: image_mset_union)
    then have "distinct (map (asset_dest w) (pl_over p @ a # rest @ pl_todo p))" using dist mset_eq_imp_distinct_iff by blast
    then have "asset_dest w a \<notin> asset_dest w ` set (pl_over p)" by simp
    then have "\<forall>b \<in> set (pl_over p). asset_dest w b \<noteq> asset_dest w a" by (metis imageI)
    then have "\<forall>b \<in> set (pl_over p). in_place resolve read d w s' b" using ip in_place_kept [OF h(2)] by blast
    moreover have "in_place resolve read d w s' a" using materializeOne_files(1) [OF h(2)] True by simp
    ultimately show ?thesis using True ms h by (simp add: pool_inv_def)
  next
    case False
    then show ?thesis using h(3) by (auto simp: pool_inv_def)
  qed
next
  case outer
  then show ?thesis by (simp add: pool_inv_def)
qed

lemma pool_run_inv:
  assumes "(pool_step resolve read workers d w)\<^sup>*\<^sup>* (pool_start assets s) p" and "distinct (map (asset_dest w) assets)"
  shows "pool_inv resolve read d w assets p"
  using assms(1)
proof (induction rule: rtranclp_induct)
  case base
  then show ?case by (simp add: pool_inv_def pool_start_def)
next
  case (step y z)
  then show ?case using pool_step_inv assms(2) by blast
qed

text \<open>
  When \<open>MaterializePaths\<close> reports success and its caller did not cancel it, every asset of the job is in
  its place with the bytes of the file it was resolved to, whatever the order in which the workers ran,
  provided that no two assets have the same destination.
\<close>

theorem materialization_is_complete:
  assumes "MaterializePaths resolve read ncpu w assets s False None s'" and "w_fsRoot w = Some d"
    and "distinct (map (asset_dest w) assets)" and "a \<in> set assets"
  shows "in_place resolve read d w s' a"
  using assms(1)
proof cases
  case no_assets
  then show ?thesis using assms(4) by simp
next
  case (ran d' p)
  then have p: "(pool_step resolve read (workerCount (length assets) ncpu) d w)\<^sup>*\<^sup>* (pool_start assets s) p" using assms(2) by simp
  have "set_mset (mset assets) = set_mset (mset (pl_over p))"
    using pool_run_inv [OF p assms(3)] ran by (simp add: pool_inv_def)
  then show ?thesis using pool_run_inv [OF p assms(3)] ran assms(4) by (simp add: pool_inv_def)
qed

text \<open>One asset \<open>x\<close>, resolved to a cache file, in the workspace of job \<open>a\<close>.\<close>

definition sample_ws :: Workspace where
  "sample_ws = \<lparr> w_job = ''a'', w_root = render True [''jobs'', ''a''], w_jobsFS = True, w_fsRoot = Some 0, w_lockFile = Some (1, 2) \<rparr>"

definition sample_asset :: AssetRef where
  "sample_asset = \<lparr> ar_Hash = ''h'', ar_LogicalPath = ''x'', ar_SourceURL = [] \<rparr>"

definition sample_fs :: fs where
  "sample_fs = \<lparr> fs_entries = [''a'' \<mapsto> EDir 0], fs_dirs = (\<lambda>_. empty_dir 5), fs_flock = [1 \<mapsto> 2], fs_next = 3 \<rparr>"

lemma sample_dest:
  "assetPath sample_ws (ar_LogicalPath sample_asset) = Inr (render True [''jobs'', ''a'', ''assets'', ''x''])"
  "path_Rel (w_root sample_ws) (render True [''jobs'', ''a'', ''assets'', ''x'']) = Some ''assets/x''"
  "elements ''assets/x'' = [''assets'', ''x'']"
proof -
  have r: "w_root sample_ws = render True [''jobs'', ''a'']" by (simp add: sample_ws_def)
  have p: "\<forall>s \<in> set [''jobs'', ''a'']. plain_seg s" "\<forall>s \<in> set [''assets'', ''x'']. plain_seg s" by (simp_all add: plain_seg_def)
  have "path_segs ''x'' = [''x'']" by (simp add: path_segs_def IsAbs_def clean_segs_def clean_step_def)
  then show "assetPath sample_ws (ar_LogicalPath sample_asset) = Inr (render True [''jobs'', ''a'', ''assets'', ''x''])"
    by (simp add: assetPath_eq [OF r p(1)] sample_asset_def asset_elements_def IsAbs_def)
  show "path_Rel (w_root sample_ws) (render True [''jobs'', ''a'', ''assets'', ''x'']) = Some ''assets/x''"
    using path_Rel_below [OF p] r by simp (simp add: render_def)
  show "elements ''assets/x'' = [''assets'', ''x'']" by (simp add: elements_def)
qed

theorem materialization_is_complete_witness:
  "\<exists>s'. MaterializePaths (\<lambda>_. Some ''c'') (\<lambda>_. Some ''data'') 2 sample_ws [sample_asset] sample_fs False None s'
     \<and> jd_files (fs_dirs s' 0) [''assets'', ''x''] = Some ''data''"
proof -
  let ?resolve = "\<lambda>_ :: AssetRef. Some ''c''" and ?read = "\<lambda>_ :: string. Some ''data''"
  have ne: "''c'' \<noteq> render True [''jobs'', ''a'', ''assets'', ''x'']" by (simp add: render_def)
  obtain s' where m: "materializeOne all_ok False ?resolve ?read ''.materialize-1'' 0 5 0 sample_ws sample_asset sample_fs = (None, s')"
    using sample_dest ne
    by (simp add: materializeOne_def escapes_def MkdirAll_in_def linked_def mkdir_all_def up_paths_def copyFileRooted_def touch_def
        sample_ws_def sample_fs_def empty_dir_def on_dir_def)
  let ?R = "pool_step ?resolve ?read (workerCount (length [sample_asset]) 2) 0 sample_ws"
  let ?p0 = "pool_start [sample_asset] sample_fs"
  let ?p1 = "?p0\<lparr> pl_todo := [], pl_jobs := [sample_asset] \<rparr>"
  let ?p2 = "?p1\<lparr> pl_jobs := [], pl_over := [sample_asset], pl_fs := s' \<rparr>"
  have "?R ?p0 ?p1" by (rule pool_step.send) (simp add: send_asset_def pool_start_def workerCount_def)
  moreover have "?R ?p1 ?p2"
    by (rule pool_step.take [where ok = all_ok and tmpName = "''.materialize-1''" and part = 0 and clk = 5])
      (simp add: take_asset_def pool_start_def m)
  ultimately have run: "?R\<^sup>*\<^sup>* ?p0 ?p2" by (meson rtranclp.rtrancl_refl rtranclp.rtrancl_into_rtrancl)
  have w: "w_fsRoot sample_ws = Some 0" by (simp add: sample_ws_def)
  have mp: "MaterializePaths ?resolve ?read 2 sample_ws [sample_asset] sample_fs False None s'"
    using MaterializePaths.ran [OF w _ run] by (simp add: pool_start_def)
  have "in_place ?resolve ?read 0 sample_ws s' sample_asset" by (rule materialization_is_complete [OF mp w]) simp_all
  then have "jd_files (fs_dirs s' 0) [''assets'', ''x''] = Some ''data''"
    using sample_dest ne by (auto simp: in_place_def asset_dest_def)
  then show ?thesis using mp by blast
qed

text \<open>
  A caller that cancels gets success without its assets: whatever they are, \<open>MaterializePaths\<close> can
  return no error with nothing materialized.
\<close>

lemma cancelled_materialization_reports_success:
  assumes "w_fsRoot w = Some d"
  shows "MaterializePaths resolve read ncpu w assets s True None s \<or> assets = []"
proof (cases "assets = []")
  case False
  let ?R = "pool_step resolve read (workerCount (length assets) ncpu) d w"
  let ?p1 = "(pool_start assets s)\<lparr> pl_cancelled := True, pl_outer := True \<rparr>"
  have "?R (pool_start assets s) ?p1" by (rule pool_step.outer)
  moreover have "?R ?p1 (?p1\<lparr> pl_todo := [] \<rparr>)" by (rule pool_step.stop) simp
  ultimately have "?R\<^sup>*\<^sup>* (pool_start assets s) (?p1\<lparr> pl_todo := [] \<rparr>)" by (meson rtranclp.rtrancl_refl rtranclp.rtrancl_into_rtrancl)
  from MaterializePaths.ran [where p = "?p1\<lparr> pl_todo := [] \<rparr>", OF assms False this] show ?thesis by (simp add: pool_start_def)
qed simp

end
