(* ===== verification/Postgres_Tables.thy ===== *)
theory Postgres_Tables
  imports Queue_Model Workers
begin

text \<open>
  The tables of the PostgreSQL repository (\<open>queue/internal/repository/postgres\<close>) and the statements
  its operations are made of: attempts (\<open>attempts.go\<close>), the event ledger (\<open>events.go\<close>), decoding
  (\<open>decode.go\<close>), job rows (\<open>repository.go\<close>) and artifacts (\<open>artifacts.go\<close>, \<open>artifact_rows.go\<close>).

  A table is the list of its rows; a column that may be NULL is an option. The statements are those
  of the Go sources, on the schema the files of \<open>queue/migrations\<close> leave behind. A value a column
  cannot hold, a lost connection and an elapsed deadline all make the transaction fail, and the fate
  of a transaction is an argument of each operation (\<open>tx_fate\<close>). The order of the rows that a query
  leaves open is the order of the list; the runs of \<open>Postgres_Runs\<close> permute it at will.
\<close>

section \<open>Errors, codecs, configuration\<close>

datatype pg_error =
    PgStorage
  | PgIDRequired
  | PgInvalid ingress_error
  | PgUnknownJobType string
  | PgInvalidJSON
  | PgJobExists string
  | PgUniqueViolation
  | PgNotNullViolation
  | PgNotFound string
  | PgNoRows
  | PgNotOwned string string
  | PgCannotRetry string State
  | PgCannotCancel string State
  | PgUnsupportedClaim State
  | PgCorruptFrameRange
  | PgCorruptManifest
  | PgCorruptProvenance string
  | PgNoArtifact string
  | PgParentIDRequired
  | PgParentAndWorkerRequired
  | PgParentInState string State
  | PgIDAndWorkerRequired
  | PgNegativeProgress string
  | PgProgressExceedsTotal string
  | PgNotRunning string State
  | PgOwnedByOther string
  | PgTelemetryDecode
  | PgTelemetryNoSchema
  | PgWorkerIDRequired
  | PgWorkerNotRegistered string

text \<open>
  What lies outside the repository: the instant a TIMESTAMPTZ column gives back for one it was
  given, the text a JSONB column gives back, the encoders and decoders of \<open>encoding/json\<close>, the texts
  of errors, the collation of the database (as the key by which it compares), the Unicode tables and
  \<open>strings.ToLower\<close>.
\<close>

record codecs =
  c_ts :: "gotime \<Rightarrow> gotime"
  c_valid :: "bytes \<Rightarrow> bool"
  c_jsonb :: "bytes \<Rightarrow> bytes"
  c_putManifest :: "AssetRef list \<Rightarrow> bytes"
  c_getManifest :: "bytes \<Rightarrow> AssetRef list option"
  c_putRange :: "FrameRange \<Rightarrow> bytes"
  c_getRange :: "bytes \<Rightarrow> FrameRange option"
  c_putFacts :: "OutputFacts \<Rightarrow> bytes option"
  c_getFacts :: "bytes \<Rightarrow> OutputFacts option"
  c_putProvenance :: "ArtifactProvenance \<Rightarrow> bytes option"
  c_getProvenance :: "bytes \<Rightarrow> ArtifactProvenance option"
  c_telemetrySchema :: "bytes \<Rightarrow> string option"
  c_errText :: "pg_error \<Rightarrow> string"
  c_collate :: "string \<Rightarrow> string"
  c_unicode :: "nat \<Rightarrow> bool"
  c_toLower :: "string \<Rightarrow> string"

record PgRepository =
  p_lease :: duration
  p_maxAttempts :: int

definition pg_New :: "duration \<Rightarrow> int \<Rightarrow> PgRepository" where
  "pg_New lease maxAttempts = \<lparr> p_lease = lease, p_maxAttempts = maxAttempts \<rparr>"

definition nullIfEmpty :: "string \<Rightarrow> string option" where
  "nullIfEmpty s = (if s = [] then None else Some s)"

definition nullIfZero :: "int \<Rightarrow> int option" where
  "nullIfZero v = (if v = 0 then None else Some v)"

text \<open>The zero value a \<open>sql.NullString\<close>, \<open>NullInt64\<close>, \<open>NullBool\<close> or \<open>NullTime\<close> holds for NULL.\<close>

definition or_empty :: "string option \<Rightarrow> string" where
  "or_empty s = (case s of None \<Rightarrow> [] | Some x \<Rightarrow> x)"

definition or_zero :: "int option \<Rightarrow> int" where
  "or_zero v = (case v of None \<Rightarrow> 0 | Some x \<Rightarrow> x)"

definition or_false :: "bool option \<Rightarrow> bool" where
  "or_false b = (case b of None \<Rightarrow> False | Some x \<Rightarrow> x)"

lemma or_empty_nullIfEmpty [simp]: "or_empty (nullIfEmpty s) = s"
  by (simp add: or_empty_def nullIfEmpty_def)

lemma or_zero_nullIfZero [simp]: "or_zero (nullIfZero v) = v"
  by (simp add: or_zero_def nullIfZero_def)

lemma null_simps [simp]:
  "or_empty None = []" "or_empty (Some s) = s" "or_zero None = 0" "or_zero (Some v) = v"
  "or_false None = False" "or_false (Some b) = b" "nullIfEmpty [] = None"
  by (simp_all add: or_empty_def or_zero_def or_false_def nullIfEmpty_def)

lemma nullIfEmpty_iff [simp]: "nullIfEmpty s = None \<longleftrightarrow> s = []" "nullIfEmpty s = Some t \<longleftrightarrow> s = t \<and> s \<noteq> []"
  by (auto simp: nullIfEmpty_def)

section \<open>Rows\<close>

record job_row =
  j_id :: string
  j_job_type :: string
  j_state :: State
  j_job_schema :: string
  j_job_schema_version :: "int option"
  j_render_plan :: bytes
  j_input_manifest :: "bytes option"
  j_attempt_count :: int
  j_max_attempts :: int
  j_created_at :: gotime
  j_queued_at :: gotime
  j_started_at :: "gotime option"
  j_completed_at :: "gotime option"
  j_failed_at :: "gotime option"
  j_current_worker_id :: "string option"
  j_lease_until :: "gotime option"
  j_error_message :: "string option"
  j_artifact_id :: "string option"
  j_idempotency_key :: "string option"
  j_parent_job_id :: "string option"
  j_chunk_index :: int
  j_frame_range :: "bytes option"
  j_not_before :: "gotime option"
  j_publication_policy :: string
  j_daemon_admission_wait_ms :: float64
  j_progress_frames_done :: int
  j_progress_total_frames :: int
  j_progress_last_frame_at :: "gotime option"
  j_progress_worker :: string

datatype AttemptStatus =
  AttemptRunning | AttemptCompleted | AttemptFailed | AttemptLeaseExpired | AttemptRendered
  | AttemptCancelled

record attempt_row =
  a_id :: string
  a_job_id :: string
  a_attempt_number :: int
  a_worker_id :: "string option"
  a_status :: AttemptStatus
  a_started_at :: gotime
  a_lease_started_at :: "gotime option"
  a_last_renewed_at :: "gotime option"
  a_finished_at :: "gotime option"
  a_error_code :: "string option"
  a_error_message :: "string option"

datatype event_type =
  EventJobCreated | EventJobClaimed | EventLeaseRenewed | EventJobCompleted | EventJobFailed
  | EventJobRequeued | EventJobRendered | EventJobCancelled

datatype payload_value = PayloadText string | PayloadBool bool | PayloadState State

text \<open>The payload is a JSON object; \<open>nil\<close> is stored as the empty object.\<close>

record event_row =
  e_job_id :: string
  e_attempt_id :: "string option"
  e_worker_id :: "string option"
  e_type :: event_type
  e_payload :: "(string \<times> payload_value) list"
  e_created_at :: gotime

record artifact_row =
  ra_id :: string
  ra_job_id :: string
  ra_kind :: string
  ra_storage_key :: string
  ra_artifact_url :: "string option"
  ra_sha256 :: "string option"
  ra_mime_type :: "string option"
  ra_size_bytes :: "int option"
  ra_width :: "int option"
  ra_height :: "int option"
  ra_fps_num :: "int option"
  ra_fps_den :: "int option"
  ra_frame_count :: "int option"
  ra_duration_us :: "int option"
  ra_profile_id :: "string option"
  ra_copy_eligible :: bool
  ra_codec :: "string option"
  ra_codec_profile :: "string option"
  ra_closed_gop :: "bool option"
  ra_first_frame_keyframe :: "bool option"
  ra_backend :: "string option"
  ra_chronon_version :: "string option"
  ra_drive_file_id :: "string option"
  ra_drive_link :: "string option"
  ra_container :: "string option"
  ra_pixel_format :: "string option"
  ra_audio_streams :: "int option"
  ra_chronon_timing_storage_key :: "string option"
  ra_chronon_timing_url :: "string option"
  ra_chronon_timing_sha256 :: "string option"
  ra_chronon_timing_size_bytes :: "int option"
  ra_chronon_timing_content_type :: "string option"
  ra_output_facts :: "bytes option"
  ra_provenance :: "bytes option"

record metric_row =
  m_job_id :: string
  m_attempt_id :: "string option"
  m_name :: string
  m_value :: float64
  m_unit :: string
  m_created_at :: gotime

record telemetry_row =
  y_job_id :: string
  y_attempt_id :: string
  y_schema :: string
  y_telemetry :: bytes
  y_created_at :: gotime

record worker_row =
  wr_id :: string
  wr_hostname :: "string option"
  wr_status :: string
  wr_renderinggen_version :: "string option"
  wr_chronon_version :: "string option"
  wr_overlay_schema_version :: "int option"
  wr_gpu_backend :: "string option"
  wr_gpu_device :: "string option"
  wr_gpu_driver :: "string option"
  wr_started_at :: gotime
  wr_last_heartbeat_at :: "gotime option"

record tables =
  t_jobs :: "job_row list"
  t_attempts :: "attempt_row list"
  t_events :: "event_row list"
  t_artifacts :: "artifact_row list"
  t_metrics :: "metric_row list"
  t_telemetry :: "telemetry_row list"
  t_workers :: "worker_row list"
  t_heartbeats :: "(string \<times> gotime) list"

definition empty_tables :: tables where
  "empty_tables = \<lparr> t_jobs = [], t_attempts = [], t_events = [], t_artifacts = [], t_metrics = [],
                    t_telemetry = [], t_workers = [], t_heartbeats = [] \<rparr>"

section \<open>Transactions\<close>

text \<open>
  A transaction body reads and writes the tables and may stop with an error. \<open>withTx\<close> keeps its
  writes only when it returns without one. The fate says what the database makes of it: the
  transaction is carried out, some statement fails, or the commit is carried out and its
  acknowledgement is lost.
\<close>

type_synonym 'a txn = "tables \<Rightarrow> (pg_error, 'a \<times> tables) result"

datatype tx_fate = TxCommits | TxFails | TxCommitUnknown

definition tx_return :: "'a \<Rightarrow> 'a txn" where "tx_return x db = Inr (x, db)"
definition tx_fail :: "pg_error \<Rightarrow> 'a txn" where "tx_fail e db = Inl e"
definition tx_read :: "(tables \<Rightarrow> 'a) \<Rightarrow> 'a txn" where "tx_read q db = Inr (q db, db)"
definition tx_write :: "(tables \<Rightarrow> tables) \<Rightarrow> unit txn" where "tx_write f db = Inr ((), f db)"

definition tx_bind :: "'a txn \<Rightarrow> ('a \<Rightarrow> 'b txn) \<Rightarrow> 'b txn" where
  "tx_bind m f db = (case m db of Inl e \<Rightarrow> Inl e | Inr (x, db') \<Rightarrow> f x db')"

definition tx_then :: "unit txn \<Rightarrow> 'b txn \<Rightarrow> 'b txn" where
  "tx_then m k = tx_bind m (\<lambda>_. k)"

lemmas tx_defs = tx_return_def tx_fail_def tx_read_def tx_write_def tx_bind_def tx_then_def

definition withTx :: "tx_fate \<Rightarrow> 'a txn \<Rightarrow> tables \<Rightarrow> (pg_error, 'a) result \<times> tables" where
  "withTx fate f db =
     (case fate of
        TxFails \<Rightarrow> (Inl PgStorage, db)
      | TxCommits \<Rightarrow>
          (case f db of Inl e \<Rightarrow> (Inl e, db) | Inr (x, db') \<Rightarrow> (Inr x, db'))
      | TxCommitUnknown \<Rightarrow>
          (case f db of Inl e \<Rightarrow> (Inl e, db) | Inr (x, db') \<Rightarrow> (Inl PgStorage, db')))"

lemma withTx_cases:
  "snd (withTx fate f db) = db \<or> (\<exists>x. f db = Inr (x, snd (withTx fate f db)))"
  by (auto simp: withTx_def split: tx_fate.splits sum.splits)

lemma withTx_OK: "fst (withTx fate f db) = Inr x \<longleftrightarrow> fate = TxCommits \<and> (\<exists>db'. f db = Inr (x, db'))"
  by (auto simp: withTx_def split: tx_fate.splits sum.splits)

lemma withTx_InrD:
  "withTx fate f db = (Inr x, db') \<Longrightarrow> fate = TxCommits \<and> f db = Inr (x, db')"
  by (auto simp: withTx_def split: tx_fate.splits sum.splits)

section \<open>Statements on the job table\<close>

text \<open>The row of a primary key, and \<open>UPDATE render_jobs SET .. WHERE id = i AND ..\<close>.\<close>

definition row_of :: "tables \<Rightarrow> string \<Rightarrow> job_row option" where
  "row_of db i = first_such (\<lambda>r. j_id r = i) (t_jobs db)"

definition update_jobs :: "string \<Rightarrow> (job_row \<Rightarrow> bool) \<Rightarrow> (job_row \<Rightarrow> job_row) \<Rightarrow> tables \<Rightarrow> tables" where
  "update_jobs i P f db = db\<lparr> t_jobs := map (\<lambda>r. if j_id r = i \<and> P r then f r else r) (t_jobs db) \<rparr>"

definition affected :: "string \<Rightarrow> (job_row \<Rightarrow> bool) \<Rightarrow> tables \<Rightarrow> nat" where
  "affected i P db = length (filter (\<lambda>r. j_id r = i \<and> P r) (t_jobs db))"

text \<open>A conditional update that has to hit a row: \<open>requireTransitionRows\<close>.\<close>

definition requireTransitionRows ::
  "string \<Rightarrow> string \<Rightarrow> (job_row \<Rightarrow> bool) \<Rightarrow> (job_row \<Rightarrow> job_row) \<Rightarrow> unit txn" where
  "requireTransitionRows i workerID P f db =
     (if affected i P db = 0 then Inl (PgNotOwned i workerID) else Inr ((), update_jobs i P f db))"

definition owned_in :: "State list \<Rightarrow> string \<Rightarrow> job_row \<Rightarrow> bool" where
  "owned_in sts workerID r \<longleftrightarrow> j_state r \<in> set sts \<and> j_current_worker_id r = Some workerID"

definition has_children :: "tables \<Rightarrow> string \<Rightarrow> bool" where
  "has_children db i \<longleftrightarrow> list_ex (\<lambda>r. j_parent_job_id r = Some i) (t_jobs db)"

section \<open>Attempts\<close>

definition attemptID :: "string \<Rightarrow> int \<Rightarrow> string" where
  "attemptID jobID n = jobID @ ''#'' @ decimal (nat n)"

text \<open>The primary key and the pair of job and number are unique.\<close>

definition createAttempt :: "codecs \<Rightarrow> string \<Rightarrow> int \<Rightarrow> string \<Rightarrow> gotime \<Rightarrow> unit txn" where
  "createAttempt c jobID n workerID clk db =
     (if list_ex (\<lambda>a. a_id a = attemptID jobID n \<or> a_job_id a = jobID \<and> a_attempt_number a = n) (t_attempts db)
      then Inl PgUniqueViolation
      else Inr ((), db\<lparr> t_attempts := t_attempts db @
             [\<lparr> a_id = attemptID jobID n, a_job_id = jobID, a_attempt_number = n,
                a_worker_id = Some workerID, a_status = AttemptRunning,
                a_started_at = c_ts c clk, a_lease_started_at = Some (c_ts c clk),
                a_last_renewed_at = None, a_finished_at = None, a_error_code = None,
                a_error_message = None \<rparr>] \<rparr>))"

definition runningAttemptID :: "string \<Rightarrow> tables \<Rightarrow> string" where
  "runningAttemptID jobID db =
     (case sort_key (\<lambda>a. - a_attempt_number a)
             (filter (\<lambda>a. a_job_id a = jobID \<and> a_status a = AttemptRunning) (t_attempts db)) of
        [] \<Rightarrow> []
      | a # _ \<Rightarrow> a_id a)"

definition update_attempt :: "string \<Rightarrow> (attempt_row \<Rightarrow> attempt_row) \<Rightarrow> tables \<Rightarrow> tables" where
  "update_attempt i f db = db\<lparr> t_attempts := map (\<lambda>a. if a_id a = i then f a else a) (t_attempts db) \<rparr>"

definition finishAttempt :: "gotime \<Rightarrow> string \<Rightarrow> AttemptStatus \<Rightarrow> string \<Rightarrow> string \<Rightarrow> tables \<Rightarrow> tables" where
  "finishAttempt now i status errorCode errorMessage =
     update_attempt i (\<lambda>a. a\<lparr> a_status := status, a_finished_at := Some now,
       a_error_code := nullIfEmpty errorCode, a_error_message := nullIfEmpty errorMessage \<rparr>)"

text \<open>\<open>COALESCE(MAX(attempt_number), 0)\<close>.\<close>

definition maxRecordedAttempt :: "string \<Rightarrow> tables \<Rightarrow> int" where
  "maxRecordedAttempt jobID db =
     foldr max (map a_attempt_number (filter (\<lambda>a. a_job_id a = jobID) (t_attempts db))) 0"

section \<open>The event ledger\<close>

definition event ::
  "gotime \<Rightarrow> event_type \<Rightarrow> string \<Rightarrow> string \<Rightarrow> string \<Rightarrow> (string \<times> payload_value) list \<Rightarrow> event_row" where
  "event now ty jobID attempt workerID payload =
     \<lparr> e_job_id = jobID, e_attempt_id = nullIfEmpty attempt, e_worker_id = nullIfEmpty workerID,
       e_type = ty, e_payload = payload, e_created_at = now \<rparr>"

definition recordEvents :: "event_row list \<Rightarrow> tables \<Rightarrow> tables" where
  "recordEvents evs db = db\<lparr> t_events := t_events db @ evs \<rparr>"

definition recordEvent ::
  "gotime \<Rightarrow> event_type \<Rightarrow> string \<Rightarrow> string \<Rightarrow> string \<Rightarrow> (string \<times> payload_value) list \<Rightarrow> tables \<Rightarrow> tables" where
  "recordEvent now ty jobID attempt workerID payload = recordEvents [event now ty jobID attempt workerID payload]"

section \<open>Decoding\<close>

definition normalizeJSON :: "codecs \<Rightarrow> bytes \<Rightarrow> (pg_error, bytes) result" where
  "normalizeJSON c raw =
     (if raw = [] \<or> raw = ''null'' then Inr ''{}''
      else if \<not> c_valid c raw then Inl PgInvalidJSON
      else Inr raw)"

definition schemaVersion :: "int option \<Rightarrow> int" where
  "schemaVersion v = (case v of None \<Rightarrow> JobSchemaVersionV1 | Some n \<Rightarrow> n)"

definition decodeFrameRange :: "codecs \<Rightarrow> bytes option \<Rightarrow> (pg_error, FrameRange option) result" where
  "decodeFrameRange c raw =
     (case raw of
        None \<Rightarrow> Inr None
      | Some b \<Rightarrow>
          (if b = [] then Inr None
           else case c_getRange c b of None \<Rightarrow> Inl PgCorruptFrameRange | Some fr \<Rightarrow> Inr (Some fr)))"

definition decodeAssets :: "codecs \<Rightarrow> bytes option \<Rightarrow> (pg_error, AssetRef list) result" where
  "decodeAssets c raw =
     (case raw of
        None \<Rightarrow> Inr []
      | Some b \<Rightarrow>
          (if b = [] then Inr []
           else case c_getManifest c b of None \<Rightarrow> Inl PgCorruptManifest | Some xs \<Rightarrow> Inr xs))"

text \<open>The terminal row shape shared by \<open>markFailedTx\<close>, the poison of a corrupt row and the sweep.\<close>

definition failed_row :: "gotime \<Rightarrow> string \<Rightarrow> job_row \<Rightarrow> job_row" where
  "failed_row now reason r =
     r\<lparr> j_state := StateFailed, j_failed_at := Some now, j_error_message := Some reason,
        j_current_worker_id := None, j_lease_until := None \<rparr>"

definition markFailedTx :: "gotime \<Rightarrow> string \<Rightarrow> string \<Rightarrow> tables \<Rightarrow> tables" where
  "markFailedTx now i reason = update_jobs i (\<lambda>_. True) (failed_row now reason)"

definition poisonCorruptJob :: "gotime \<Rightarrow> string \<Rightarrow> string \<Rightarrow> tables \<Rightarrow> tables" where
  "poisonCorruptJob now i reason db =
     (let db1 = markFailedTx now i reason db;
          attempt = runningAttemptID i db1;
          db2 = (if attempt \<noteq> [] then finishAttempt now attempt AttemptFailed [] reason db1 else db1)
      in recordEvent now EventJobFailed i attempt [] [(''reason'', PayloadText reason)] db2)"

definition poisonCorruptRead :: "gotime \<Rightarrow> string \<Rightarrow> string \<Rightarrow> tables \<Rightarrow> tables" where
  "poisonCorruptRead now i reason = update_jobs i (\<lambda>_. True) (failed_row now reason)"

end
