(* ===== verification/Postgres_Artifacts.thy ===== *)
theory Postgres_Artifacts
  imports Postgres_Tables "HOL-Library.Sublist"
begin

text \<open>
  Artifacts, metrics and telemetry of the PostgreSQL repository (\<open>artifacts.go\<close>,
  \<open>artifact_rows.go\<close>, \<open>persistArtifactTx\<close> of \<open>finalize.go\<close>): what a completed attempt leaves in the
  tables and what a reader of the job gets back.
\<close>

section \<open>Writing\<close>

definition jsonFacts :: "codecs \<Rightarrow> OutputFacts option \<Rightarrow> bytes option" where
  "jsonFacts c facts = (case facts of None \<Rightarrow> None | Some f \<Rightarrow> map_option (c_jsonb c) (c_putFacts c f))"

definition jsonProvenance :: "codecs \<Rightarrow> ArtifactProvenance option \<Rightarrow> bytes option" where
  "jsonProvenance c p = (case p of None \<Rightarrow> None | Some v \<Rightarrow> map_option (c_jsonb c) (c_putProvenance c v))"

definition defaultArtifactKind :: string where "defaultArtifactKind = ''segment''"

definition artifact_to_row :: "codecs \<Rightarrow> string \<Rightarrow> Artifact \<Rightarrow> artifact_row" where
  "artifact_to_row c jobID a =
     \<lparr> ra_id = art_ID a, ra_job_id = jobID,
       ra_kind = (if art_Kind a = [] then defaultArtifactKind else art_Kind a),
       ra_storage_key = art_StorageKey a, ra_artifact_url = nullIfEmpty (art_ArtifactURL a),
       ra_sha256 = nullIfEmpty (art_ArtifactHash a), ra_mime_type = nullIfEmpty (art_ContentType a),
       ra_size_bytes = Some (art_SizeBytes a), ra_width = Some (art_Width a),
       ra_height = Some (art_Height a), ra_fps_num = Some (art_FPSNum a),
       ra_fps_den = Some (art_FPSDen a), ra_frame_count = Some (art_FrameCount a),
       ra_duration_us = Some (art_DurationUS a), ra_profile_id = nullIfEmpty (art_ProfileID a),
       ra_copy_eligible = art_CopyEligible a, ra_codec = nullIfEmpty (art_Codec a),
       ra_codec_profile = nullIfEmpty (art_CodecProfile a), ra_closed_gop = Some (art_ClosedGOP a),
       ra_first_frame_keyframe = Some (art_FirstFrameKeyframe a),
       ra_backend = nullIfEmpty (art_Backend a),
       ra_chronon_version = nullIfEmpty (art_ChrononVersion a),
       ra_drive_file_id = nullIfEmpty (art_DriveFileID a),
       ra_drive_link = nullIfEmpty (art_DriveLink a), ra_container = nullIfEmpty (art_Container a),
       ra_pixel_format = nullIfEmpty (art_PixelFormat a),
       ra_audio_streams = Some (art_AudioStreams a),
       ra_chronon_timing_storage_key = nullIfEmpty (art_ChrononTimingStorageKey a),
       ra_chronon_timing_url = nullIfEmpty (art_ChrononTimingURL a),
       ra_chronon_timing_sha256 = nullIfEmpty (art_ChrononTimingSHA256 a),
       ra_chronon_timing_size_bytes = Some (art_ChrononTimingSizeBytes a),
       ra_chronon_timing_content_type = nullIfEmpty (art_ChrononTimingContentType a),
       ra_output_facts = jsonFacts c (art_OutputFacts a),
       ra_provenance = jsonProvenance c (art_Provenance a) \<rparr>"

text \<open>\<open>ON CONFLICT (id) DO UPDATE\<close> replaces the two Drive columns only.\<close>

definition upsert_artifact :: "artifact_row \<Rightarrow> artifact_row list \<Rightarrow> artifact_row list" where
  "upsert_artifact row rows =
     (if list_ex (\<lambda>r. ra_id r = ra_id row) rows then
        map (\<lambda>r. if ra_id r = ra_id row
                  then r\<lparr> ra_drive_file_id := ra_drive_file_id row, ra_drive_link := ra_drive_link row \<rparr>
                  else r) rows
      else rows @ [row])"

definition insertArtifact :: "codecs \<Rightarrow> string \<Rightarrow> Artifact \<Rightarrow> tables \<Rightarrow> tables" where
  "insertArtifact c jobID a db =
     update_jobs jobID (\<lambda>_. True) (\<lambda>r. r\<lparr> j_artifact_id := Some (art_ID a) \<rparr>)
       (db\<lparr> t_artifacts := upsert_artifact (artifact_to_row c jobID a) (t_artifacts db) \<rparr>)"

text \<open>The unit of a metric; the rules are tried in the order of the source.\<close>

definition metricUnit :: "codecs \<Rightarrow> string \<Rightarrow> string" where
  "metricUnit c name =
     (let n = c_toLower c name in
      if suffix ''_us'' n then ''us''
      else if suffix ''_ms'' n then ''ms''
      else if sublist ''bytes'' n then ''bytes''
      else if suffix ''_mb'' n then ''mb''
      else if sublist ''fps'' n then ''fps''
      else if sublist ''ratio'' n \<or> suffix ''_percent'' n then ''ratio''
      else ''count'')"

text \<open>
  The unique index is on the job, the attempt and the name; a NULL attempt equals no other, so its
  rows never conflict.
\<close>

definition same_metric :: "metric_row \<Rightarrow> metric_row \<Rightarrow> bool" where
  "same_metric m r \<longleftrightarrow> m_job_id r = m_job_id m \<and> m_attempt_id r = m_attempt_id m \<and>
     m_attempt_id m \<noteq> None \<and> m_name r = m_name m"

definition upsert_metric :: "metric_row list \<Rightarrow> metric_row \<Rightarrow> metric_row list" where
  "upsert_metric rows m =
     (if list_ex (same_metric m) rows then
        map (\<lambda>r. if same_metric m r then r\<lparr> m_value := m_value m, m_unit := m_unit m \<rparr> else r) rows
      else rows @ [m])"

definition insertProcessingMetrics ::
  "codecs \<Rightarrow> gotime \<Rightarrow> string \<Rightarrow> string \<Rightarrow> (string \<times> float64) list \<Rightarrow> tables \<Rightarrow> tables" where
  "insertProcessingMetrics c now jobID attempt values db =
     db\<lparr> t_metrics := foldl upsert_metric (t_metrics db)
           (map (\<lambda>(name, v). \<lparr> m_job_id = jobID, m_attempt_id = nullIfEmpty attempt, m_name = name,
                               m_value = v, m_unit = metricUnit c name, m_created_at = now \<rparr>)
                (filter (\<lambda>(name, v). name \<noteq> []) values)) \<rparr>"

definition upsert_telemetry :: "telemetry_row \<Rightarrow> telemetry_row list \<Rightarrow> telemetry_row list" where
  "upsert_telemetry y rows =
     (if list_ex (\<lambda>r. y_job_id r = y_job_id y \<and> y_attempt_id r = y_attempt_id y) rows then
        map (\<lambda>r. if y_job_id r = y_job_id y \<and> y_attempt_id r = y_attempt_id y
                  then r\<lparr> y_schema := y_schema y, y_telemetry := y_telemetry y \<rparr> else r) rows
      else rows @ [y])"

text \<open>The attempt is part of the primary key, so it cannot be NULL.\<close>

definition insertRenderTelemetry :: "codecs \<Rightarrow> gotime \<Rightarrow> string \<Rightarrow> string \<Rightarrow> bytes \<Rightarrow> unit txn" where
  "insertRenderTelemetry c now jobID attempt raw db =
     (if raw = [] then Inr ((), db)
      else case c_telemetrySchema c raw of
        None \<Rightarrow> Inl PgTelemetryDecode
      | Some schema \<Rightarrow>
          (if schema = [] then Inl PgTelemetryNoSchema
           else case nullIfEmpty attempt of
             None \<Rightarrow> Inl PgNotNullViolation
           | Some att \<Rightarrow>
               Inr ((), db\<lparr> t_telemetry :=
                 upsert_telemetry \<lparr> y_job_id = jobID, y_attempt_id = att, y_schema = schema,
                                    y_telemetry = c_jsonb c raw, y_created_at = now \<rparr> (t_telemetry db) \<rparr>)))"

definition with_default_id :: "string \<Rightarrow> Artifact \<Rightarrow> Artifact" where
  "with_default_id jobID a = (if art_ID a = [] then a\<lparr> art_ID := jobID \<rparr> else a)"

definition persistArtifactTx :: "codecs \<Rightarrow> gotime \<Rightarrow> string \<Rightarrow> string \<Rightarrow> Artifact \<Rightarrow> unit txn" where
  "persistArtifactTx c now jobID attempt a =
     tx_then (tx_write (\<lambda>db. if art_StorageKey a \<noteq> [] then insertArtifact c jobID (with_default_id jobID a) db else db))
    (tx_then (tx_write (insertProcessingMetrics c now jobID attempt (art_Metrics a)))
             (insertRenderTelemetry c now jobID attempt (art_ChrononTelemetry a)))"

section \<open>Reading\<close>

definition blank_artifact :: Artifact where
  "blank_artifact =
     \<lparr> art_ID = [], art_Kind = [], art_StorageKey = [], art_ArtifactURL = [], art_ArtifactHash = [],
       art_ContentType = [], art_SizeBytes = 0, art_Width = 0, art_Height = 0, art_FPSNum = 0,
       art_FPSDen = 0, art_FrameCount = 0, art_DurationUS = 0, art_ProfileID = [],
       art_CopyEligible = False, art_Codec = [], art_CodecProfile = [], art_ClosedGOP = False,
       art_FirstFrameKeyframe = False, art_Backend = [], art_ChrononVersion = [], art_Metrics = [],
       art_ChrononTelemetry = [], art_ChrononTimingStorageKey = [], art_ChrononTimingURL = [],
       art_ChrononTimingSHA256 = [], art_ChrononTimingSizeBytes = 0,
       art_ChrononTimingContentType = [], art_DriveFileID = [], art_DriveLink = [],
       art_Container = [], art_PixelFormat = [], art_AudioStreams = 0, art_OutputFacts = None,
       art_Provenance = None \<rparr>"

text \<open>The projection of the listings: the columns of \<open>artifactColumns\<close> and a constant kind.\<close>

definition artifactScan_artifact :: "artifact_row \<Rightarrow> Artifact" where
  "artifactScan_artifact r = blank_artifact
     \<lparr> art_ID := ra_id r, art_Kind := ''segment'', art_StorageKey := ra_storage_key r,
       art_ArtifactURL := or_empty (ra_artifact_url r), art_ArtifactHash := or_empty (ra_sha256 r),
       art_ContentType := or_empty (ra_mime_type r), art_SizeBytes := or_zero (ra_size_bytes r),
       art_Width := or_zero (ra_width r), art_Height := or_zero (ra_height r),
       art_FPSNum := or_zero (ra_fps_num r), art_FPSDen := or_zero (ra_fps_den r),
       art_FrameCount := or_zero (ra_frame_count r), art_DurationUS := or_zero (ra_duration_us r),
       art_ProfileID := or_empty (ra_profile_id r), art_CopyEligible := ra_copy_eligible r,
       art_Codec := or_empty (ra_codec r), art_CodecProfile := or_empty (ra_codec_profile r),
       art_ClosedGOP := or_false (ra_closed_gop r),
       art_FirstFrameKeyframe := or_false (ra_first_frame_keyframe r),
       art_Backend := or_empty (ra_backend r), art_ChrononVersion := or_empty (ra_chronon_version r),
       art_DriveFileID := or_empty (ra_drive_file_id r), art_DriveLink := or_empty (ra_drive_link r),
       art_Container := or_empty (ra_container r), art_PixelFormat := or_empty (ra_pixel_format r),
       art_AudioStreams := or_zero (ra_audio_streams r) \<rparr>"

text \<open>The facts of a damaged column are dropped, a damaged provenance is an error.\<close>

definition decode_facts :: "codecs \<Rightarrow> bytes option \<Rightarrow> OutputFacts option" where
  "decode_facts c raw = (case raw of None \<Rightarrow> None | Some b \<Rightarrow> if b = [] then None else c_getFacts c b)"

definition decode_provenance ::
  "codecs \<Rightarrow> string \<Rightarrow> bytes option \<Rightarrow> (pg_error, ArtifactProvenance option) result" where
  "decode_provenance c i raw =
     (case raw of
        None \<Rightarrow> Inr None
      | Some b \<Rightarrow>
          (if b = [] then Inr None
           else case c_getProvenance c b of
             None \<Rightarrow> Inl (PgCorruptProvenance i)
           | Some v \<Rightarrow> Inr (Some v)))"

text \<open>Metrics in the order of creation, the later row of a name winning.\<close>

definition put_metric :: "(string \<times> float64) list \<Rightarrow> metric_row \<Rightarrow> (string \<times> float64) list" where
  "put_metric ms m =
     (if m_name m = [] then ms else filter (\<lambda>(k, v). k \<noteq> m_name m) ms @ [(m_name m, m_value m)])"

definition read_metrics :: "string \<Rightarrow> tables \<Rightarrow> (string \<times> float64) list" where
  "read_metrics jobID db =
     foldl put_metric [] (sort_key m_created_at (filter (\<lambda>m. m_job_id m = jobID) (t_metrics db)))"

definition read_telemetry :: "string \<Rightarrow> tables \<Rightarrow> bytes" where
  "read_telemetry jobID db =
     (case sort_key (\<lambda>y. - y_created_at y) (filter (\<lambda>y. y_job_id y = jobID) (t_telemetry db)) of
        [] \<Rightarrow> []
      | y # _ \<Rightarrow> y_telemetry y)"

definition artifact_of_row :: "codecs \<Rightarrow> artifact_row \<Rightarrow> ArtifactProvenance option \<Rightarrow> tables \<Rightarrow> Artifact" where
  "artifact_of_row c r prov db =
     (artifactScan_artifact r)
       \<lparr> art_Kind := ra_kind r, art_OutputFacts := decode_facts c (ra_output_facts r),
         art_Provenance := prov,
         art_ChrononTimingStorageKey := or_empty (ra_chronon_timing_storage_key r),
         art_ChrononTimingURL := or_empty (ra_chronon_timing_url r),
         art_ChrononTimingSHA256 := or_empty (ra_chronon_timing_sha256 r),
         art_ChrononTimingSizeBytes := or_zero (ra_chronon_timing_size_bytes r),
         art_ChrononTimingContentType := or_empty (ra_chronon_timing_content_type r),
         art_Metrics := read_metrics (ra_job_id r) db,
         art_ChrononTelemetry := read_telemetry (ra_job_id r) db \<rparr>"

definition getArtifact :: "codecs \<Rightarrow> string \<Rightarrow> tables \<Rightarrow> (pg_error, Artifact) result" where
  "getArtifact c i db =
     (case first_such (\<lambda>r. ra_id r = i) (t_artifacts db) of
        None \<Rightarrow> Inl (PgNoArtifact i)
      | Some r \<Rightarrow>
          (case decode_provenance c i (ra_provenance r) of
             Inl e \<Rightarrow> Inl e
           | Inr prov \<Rightarrow> Inr (artifact_of_row c r prov db)))"

end
