(* ===== verification/Postgres_Queue.thy ===== *)
theory Postgres_Queue
  imports Postgres_Artifacts
begin

text \<open>
  The operations of the PostgreSQL repository: submission, claims and reads (\<open>repository.go\<close>), the
  transitions of a claimed job (\<open>lifecycle.go\<close>, \<open>finalize.go\<close>) and the lease sweep (\<open>requeue.go\<close>).
  \<open>now\<close> is the database's \<open>now()\<close>, the instant at which the transaction began, and
  \<open>clk\<close> is \<open>time.Now()\<close> of the process. A transaction locks the rows it changes, so it is one
  function on the tables; an operation made of several statements outside a transaction takes the
  function \<open>mid\<close>, what other sessions commit between two of them.
\<close>

section \<open>Submission\<close>

definition normalizeJobType :: "string \<Rightarrow> (pg_error, string) result" where
  "normalizeJobType jobType =
     (if jobType = [] then Inr JobTypeRenderSegment
      else if jobType \<in> {JobTypeRenderSegment, JobTypeOverlayPrepare, JobTypeOverlayRender, JobTypeOverlayImport}
      then Inr jobType
      else Inl (PgUnknownJobType jobType))"

record jobRow =
  jr_jobType :: string
  jr_schema :: string
  jr_version :: int
  jr_plan :: bytes
  jr_manifest :: bytes

definition prepareJobRow :: "codecs \<Rightarrow> Job \<Rightarrow> (pg_error, jobRow) result" where
  "prepareJobRow c job =
     (case normalizeJSON c (job_RenderPlan job) of
        Inl e \<Rightarrow> Inl e
      | Inr plan \<Rightarrow>
          (case normalizeJobType (job_JobType job) of
             Inl e \<Rightarrow> Inl e
           | Inr ty \<Rightarrow>
               Inr \<lparr> jr_jobType = ty,
                     jr_schema = (if job_Schema job = [] then JobSchemaV1 else job_Schema job),
                     jr_version = (if job_Version job = 0 then JobSchemaVersionV1 else job_Version job),
                     jr_plan = plan, jr_manifest = c_putManifest c (job_Assets job) \<rparr>))"

text \<open>The row of \<open>insertJobSQL\<close>, with the column defaults of the schema.\<close>

definition inserted_row :: "PgRepository \<Rightarrow> codecs \<Rightarrow> gotime \<Rightarrow> Job \<Rightarrow> jobRow \<Rightarrow> job_row" where
  "inserted_row p c now job row =
     \<lparr> j_id = job_ID job, j_job_type = jr_jobType row, j_state = StatePending,
       j_job_schema = jr_schema row, j_job_schema_version = Some (jr_version row),
       j_render_plan = c_jsonb c (jr_plan row),
       j_input_manifest = Some (c_jsonb c (jr_manifest row)), j_attempt_count = 0,
       j_max_attempts = p_maxAttempts p, j_created_at = now, j_queued_at = now,
       j_started_at = None, j_completed_at = None, j_failed_at = None,
       j_current_worker_id = None, j_lease_until = None, j_error_message = None,
       j_artifact_id = None, j_idempotency_key = nullIfEmpty (job_IdempotencyKey job),
       j_parent_job_id = nullIfEmpty (job_ParentJobID job), j_chunk_index = job_ChunkIndex job,
       j_frame_range = map_option (\<lambda>fr. c_jsonb c (c_putRange c fr)) (job_FrameRange job),
       j_not_before = map_option (c_ts c) (job_NotBefore job),
       j_publication_policy = job_PublicationPolicy job,
       j_daemon_admission_wait_ms = job_DaemonAdmissionWaitMS job,
       j_progress_frames_done = 0, j_progress_total_frames = 0,
       j_progress_last_frame_at = None, j_progress_worker = [] \<rparr>"

text \<open>
  \<open>ON CONFLICT (id) DO NOTHING\<close> covers the primary key; a second row with an idempotency key
  violates the unique index.
\<close>

definition insertJobRowOnly :: "PgRepository \<Rightarrow> codecs \<Rightarrow> gotime \<Rightarrow> Job \<Rightarrow> unit txn" where
  "insertJobRowOnly p c now job db =
     (case prepareJobRow c job of
        Inl e \<Rightarrow> Inl e
      | Inr row \<Rightarrow>
          (if list_ex (\<lambda>r. j_id r = job_ID job) (t_jobs db) then Inl (PgJobExists (job_ID job))
           else if job_IdempotencyKey job \<noteq> [] \<and>
                   list_ex (\<lambda>r. j_idempotency_key r = Some (job_IdempotencyKey job)) (t_jobs db)
           then Inl PgUniqueViolation
           else Inr ((), db\<lparr> t_jobs := t_jobs db @ [inserted_row p c now job row] \<rparr>)))"

definition insertJobRow :: "PgRepository \<Rightarrow> codecs \<Rightarrow> gotime \<Rightarrow> Job \<Rightarrow> unit txn" where
  "insertJobRow p c now job =
     tx_then (insertJobRowOnly p c now job)
             (tx_write (recordEvent now EventJobCreated (job_ID job) [] [] []))"

definition pg_Submit ::
  "PgRepository \<Rightarrow> codecs \<Rightarrow> tx_fate \<Rightarrow> gotime \<Rightarrow> Job \<Rightarrow> tables \<Rightarrow> (pg_error, unit) result \<times> tables" where
  "pg_Submit p c fate now job db =
     (if job_ID job = [] then (Inl PgIDRequired, db)
      else case ValidateChunk (c_unicode c) job of
        Inl e \<Rightarrow> (Inl (PgInvalid e), db)
      | Inr _ \<Rightarrow> withTx fate (insertJobRow p c now job) db)"

text \<open>The loop of \<open>SubmitBatch\<close>; the events are appended together at its end.\<close>

fun insert_rows :: "PgRepository \<Rightarrow> codecs \<Rightarrow> gotime \<Rightarrow> Job list \<Rightarrow> unit txn" where
  "insert_rows p c now [] db = Inr ((), db)"
| "insert_rows p c now (job # jobs) db =
     (case insertJobRowOnly p c now job db of
        Inl e \<Rightarrow> Inl e
      | Inr (_, db') \<Rightarrow> insert_rows p c now jobs db')"

definition pg_SubmitBatch ::
  "PgRepository \<Rightarrow> codecs \<Rightarrow> tx_fate \<Rightarrow> gotime \<Rightarrow> Job list \<Rightarrow> tables \<Rightarrow> (pg_error, unit) result \<times> tables" where
  "pg_SubmitBatch p c fate now jobs db =
     (case ValidateJobBatch (c_unicode c) jobs of
        Inl e \<Rightarrow> (Inl (PgInvalid e), db)
      | Inr _ \<Rightarrow>
          (case first_such (\<lambda>job. isl (normalizeJobType (job_JobType job))) jobs of
             Some job \<Rightarrow> (Inl (PgUnknownJobType (job_JobType job)), db)
           | None \<Rightarrow>
               withTx fate
                 (tx_then (insert_rows p c now jobs)
                          (tx_write (recordEvents (map (\<lambda>job. event now EventJobCreated (job_ID job) [] [] []) jobs))))
                 db))"

section \<open>Reads\<close>

definition blank_job :: Job where
  "blank_job =
     \<lparr> job_ID = [], job_Schema = [], job_Version = 0, job_IdempotencyKey = [], job_JobType = [],
       job_PublicationPolicy = [], job_DaemonAdmissionWaitMS = Fin 0, job_ParentJobID = [],
       job_ChunkIndex = 0, job_FrameRange = None, job_NotBefore = None, job_RenderPlan = [],
       job_Assets = [], job_State = StatePending, job_Worker = [], job_Attempts = 0,
       job_CreatedAt = zero_time, job_QueuedAt = zero_time, job_StartedAt = zero_time,
       job_CompletedAt = zero_time, job_LeaseUntil = zero_time, job_FailReason = [],
       job_Artifact = None, job_Progress = None, job_Lease = 0 \<rparr>"

definition row_progress :: "job_row \<Rightarrow> Progress option" where
  "row_progress r =
     (case j_progress_last_frame_at r of
        None \<Rightarrow> None
      | Some t \<Rightarrow> Some \<lparr> pr_FramesDone = j_progress_frames_done r, pr_TotalFrames = j_progress_total_frames r,
                         pr_LastFrameAt = t, pr_Worker = j_progress_worker r \<rparr>)"

definition row_job :: "job_row \<Rightarrow> FrameRange option \<Rightarrow> AssetRef list \<Rightarrow> Job" where
  "row_job r fr assets = blank_job
     \<lparr> job_ID := j_id r, job_State := j_state r, job_JobType := j_job_type r,
       job_PublicationPolicy := j_publication_policy r,
       job_DaemonAdmissionWaitMS := j_daemon_admission_wait_ms r, job_Schema := j_job_schema r,
       job_Version := schemaVersion (j_job_schema_version r), job_RenderPlan := j_render_plan r,
       job_Assets := assets, job_Attempts := j_attempt_count r,
       job_Worker := or_empty (j_current_worker_id r), job_QueuedAt := j_queued_at r,
       job_StartedAt := or_zero (j_started_at r), job_CompletedAt := or_zero (j_completed_at r),
       job_LeaseUntil := or_zero (j_lease_until r), job_FailReason := or_empty (j_error_message r),
       job_IdempotencyKey := or_empty (j_idempotency_key r),
       job_ParentJobID := or_empty (j_parent_job_id r), job_ChunkIndex := j_chunk_index r,
       job_FrameRange := fr, job_NotBefore := j_not_before r, job_Progress := row_progress r \<rparr>"

text \<open>Both JSONB columns of a row, the frame range first.\<close>

definition decode_row :: "codecs \<Rightarrow> job_row \<Rightarrow> (pg_error, FrameRange option \<times> AssetRef list) result" where
  "decode_row c r =
     (case decodeFrameRange c (j_frame_range r) of
        Inl e \<Rightarrow> Inl e
      | Inr fr \<Rightarrow>
          (case decodeAssets c (j_input_manifest r) of
             Inl e \<Rightarrow> Inl e
           | Inr assets \<Rightarrow> Inr (fr, assets)))"

definition attach_artifact :: "codecs \<Rightarrow> string option \<Rightarrow> Job \<Rightarrow> tables \<Rightarrow> (pg_error, Job) result" where
  "attach_artifact c aid job db =
     (case aid of
        None \<Rightarrow> Inr job
      | Some a \<Rightarrow>
          (case getArtifact c a db of
             Inl e \<Rightarrow> Inl e
           | Inr artifact \<Rightarrow> Inr (job\<lparr> job_Artifact := Some artifact \<rparr>)))"

text \<open>
  \<open>Get\<close> reads the row and then either poisons it, when a column cannot be decoded, or reads the
  artifact; \<open>mid\<close> acts in between. \<open>fate\<close> is that of the poisoning statement.
\<close>

definition pg_Get ::
  "codecs \<Rightarrow> tx_fate \<Rightarrow> gotime \<Rightarrow> (tables \<Rightarrow> tables) \<Rightarrow> string \<Rightarrow> tables \<Rightarrow> (pg_error, Job) result \<times> tables" where
  "pg_Get c fate now mid i db =
     (case row_of db i of
        None \<Rightarrow> (Inl (PgNotFound i), db)
      | Some r \<Rightarrow>
          (case decode_row c r of
             Inl e \<Rightarrow>
               (case withTx fate (tx_write (poisonCorruptRead now i (c_errText c e))) (mid db) of
                  (Inl e', db') \<Rightarrow> (Inl e', db')
                | (Inr _, db') \<Rightarrow> (Inl e, db'))
           | Inr (fr, assets) \<Rightarrow>
               (attach_artifact c (j_artifact_id r) (row_job r fr assets) (mid db), mid db)))"

definition by_key :: "string \<Rightarrow> tables \<Rightarrow> string option" where
  "by_key k db = map_option j_id (first_such (\<lambda>r. j_idempotency_key r = Some k) (t_jobs db))"

text \<open>
  \<open>SubmitIdempotent\<close>: look the key up, submit, look the key up again. \<open>mid 0\<close> acts before the
  submission, \<open>mid 1\<close> before the lookup or read that follows it, \<open>mid 2\<close> before the last read; \<open>get\<close>
  is \<open>Get\<close>.
\<close>

definition pg_SubmitIdempotent ::
  "PgRepository \<Rightarrow> codecs \<Rightarrow> tx_fate \<Rightarrow> gotime \<Rightarrow> (nat \<Rightarrow> tables \<Rightarrow> tables) \<Rightarrow>
   (string \<Rightarrow> tables \<Rightarrow> (pg_error, Job) result \<times> tables) \<Rightarrow> Job \<Rightarrow> tables \<Rightarrow>
   (pg_error, Job \<times> bool) result \<times> tables" where
  "pg_SubmitIdempotent p c fate now mid get job db =
     (let answer = (\<lambda>created (res, db'). (case res of Inl e \<Rightarrow> Inl e | Inr j \<Rightarrow> Inr (j, created), db')) in
      if job_IdempotencyKey job = [] then
        (case pg_Submit p c fate now job db of
           (Inl e, db1) \<Rightarrow> (Inl e, db1)
         | (Inr _, db1) \<Rightarrow> answer True (get (job_ID job) (mid 1 db1)))
      else case by_key (job_IdempotencyKey job) db of
        Some i \<Rightarrow> answer False (get i (mid 1 db))
      | None \<Rightarrow>
          (case pg_Submit p c fate now job (mid 0 db) of
             (Inr _, db1) \<Rightarrow> answer True (get (job_ID job) (mid 1 db1))
           | (Inl e, db1) \<Rightarrow>
               (let db2 = mid 1 db1 in
                case by_key (job_IdempotencyKey job) db2 of
                  None \<Rightarrow> (Inl PgNoRows, db2)
                | Some i \<Rightarrow> answer False (get i (mid 2 db2)))))"

definition pg_RecoverableParents :: "tables \<Rightarrow> string list" where
  "pg_RecoverableParents db =
     map j_id (sort_key j_queued_at
       (filter (\<lambda>r. j_state r \<in> {StatePending, StateFinalizing} \<and> has_children db (j_id r)) (t_jobs db)))"

section \<open>Claims\<close>

text \<open>
  The query of \<open>ClaimState\<close>: the row waiting longest among those in a wanted state, due, without
  children and not locked by another session (\<open>locked\<close>).
\<close>

definition claim_where :: "codecs \<Rightarrow> (string \<Rightarrow> bool) \<Rightarrow> State option \<Rightarrow> gotime \<Rightarrow> tables \<Rightarrow> job_row \<Rightarrow> bool" where
  "claim_where c locked state clk db r \<longleftrightarrow>
     (case state of None \<Rightarrow> j_state r \<in> set ClaimableStates | Some st \<Rightarrow> j_state r = st) \<and>
     (case j_not_before r of None \<Rightarrow> True | Some t \<Rightarrow> t \<le> c_ts c clk) \<and>
     \<not> has_children db (j_id r) \<and> \<not> locked (j_id r)"

definition claim_query ::
  "codecs \<Rightarrow> (string \<Rightarrow> bool) \<Rightarrow> State option \<Rightarrow> gotime \<Rightarrow> tables \<Rightarrow> job_row option" where
  "claim_query c locked state clk db =
     (case sort_key j_queued_at (filter (claim_where c locked state clk db) (t_jobs db)) of
        [] \<Rightarrow> None
      | r # _ \<Rightarrow> Some r)"

definition claimed_job_row :: "PgRepository \<Rightarrow> codecs \<Rightarrow> gotime \<Rightarrow> string \<Rightarrow> int \<Rightarrow> job_row \<Rightarrow> job_row" where
  "claimed_job_row p c clk workerID n r =
     r\<lparr> j_state := StateRunning, j_current_worker_id := Some workerID,
        j_lease_until := Some (c_ts c (clk + p_lease p)), j_started_at := Some (c_ts c clk),
        j_attempt_count := n \<rparr>"

definition claim_attempt_number :: "job_row \<Rightarrow> tables \<Rightarrow> int" where
  "claim_attempt_number r db =
     (let n = j_attempt_count r + 1; m = maxRecordedAttempt (j_id r) db
      in if m \<ge> n then m + 1 else n)"

definition claimed_job ::
  "PgRepository \<Rightarrow> gotime \<Rightarrow> string \<Rightarrow> int \<Rightarrow> job_row \<Rightarrow> FrameRange option \<Rightarrow> AssetRef list \<Rightarrow> Job" where
  "claimed_job p clk workerID n r fr assets = blank_job
     \<lparr> job_ID := j_id r, job_ParentJobID := or_empty (j_parent_job_id r),
       job_ChunkIndex := j_chunk_index r, job_FrameRange := fr, job_JobType := j_job_type r,
       job_PublicationPolicy := j_publication_policy r,
       job_DaemonAdmissionWaitMS := j_daemon_admission_wait_ms r, job_Schema := j_job_schema r,
       job_Version := schemaVersion (j_job_schema_version r), job_RenderPlan := j_render_plan r,
       job_Assets := assets, job_State := StateRunning, job_Worker := workerID,
       job_Attempts := n, job_QueuedAt := j_queued_at r, job_StartedAt := clk,
       job_LeaseUntil := clk + p_lease p \<rparr>"

text \<open>
  The transaction of a claim. A corrupt row is poisoned, and that is committed; otherwise the job is
  handed out with the artifact to attach.
\<close>

datatype pg_claim_outcome = ClaimNothing | ClaimPoisoned pg_error | ClaimGot Job "string option"

definition claim_tx ::
  "PgRepository \<Rightarrow> codecs \<Rightarrow> gotime \<Rightarrow> gotime \<Rightarrow> (string \<Rightarrow> bool) \<Rightarrow> string \<Rightarrow> State option \<Rightarrow> pg_claim_outcome txn" where
  "claim_tx p c now clk locked workerID state =
     tx_bind (tx_read (claim_query c locked state clk)) (\<lambda>found.
       case found of
         None \<Rightarrow> tx_return ClaimNothing
       | Some r \<Rightarrow>
           (case decode_row c r of
              Inl e \<Rightarrow>
                tx_then (tx_write (poisonCorruptJob now (j_id r) (c_errText c e)))
                        (tx_return (ClaimPoisoned e))
            | Inr (fr, assets) \<Rightarrow>
                tx_bind (tx_read (claim_attempt_number r)) (\<lambda>n.
                tx_then (createAttempt c (j_id r) n workerID clk)
               (tx_then (tx_write (update_jobs (j_id r) (\<lambda>_. True) (claimed_job_row p c clk workerID n)))
               (tx_then (tx_write (recordEvent now EventJobClaimed (j_id r) (attemptID (j_id r) n) workerID []))
                        (tx_return (ClaimGot (claimed_job p clk workerID n r fr assets) (j_artifact_id r))))))))"

definition pg_ClaimState ::
  "PgRepository \<Rightarrow> codecs \<Rightarrow> tx_fate \<Rightarrow> gotime \<Rightarrow> gotime \<Rightarrow> (string \<Rightarrow> bool) \<Rightarrow> (tables \<Rightarrow> tables) \<Rightarrow>
   string \<Rightarrow> State option \<Rightarrow> tables \<Rightarrow> (pg_error, (Job \<times> duration) option) result \<times> tables" where
  "pg_ClaimState p c fate now clk locked mid workerID state db =
     (case (case state of None \<Rightarrow> None | Some st \<Rightarrow> if IsClaimable st then None else Some (PgUnsupportedClaim st)) of
        Some e \<Rightarrow> (Inl e, db)
      | None \<Rightarrow>
          (case withTx fate (claim_tx p c now clk locked workerID state) db of
             (Inl e, db1) \<Rightarrow> (Inl e, db1)
           | (Inr ClaimNothing, db1) \<Rightarrow> (Inr None, db1)
           | (Inr (ClaimPoisoned e), db1) \<Rightarrow> (Inl e, db1)
           | (Inr (ClaimGot job aid), db1) \<Rightarrow>
               (case attach_artifact c aid job (mid db1) of
                  Inl e \<Rightarrow> (Inl e, mid db1)
                | Inr job' \<Rightarrow> (Inr (Some (job', p_lease p)), mid db1))))"

definition pg_Claim ::
  "PgRepository \<Rightarrow> codecs \<Rightarrow> tx_fate \<Rightarrow> gotime \<Rightarrow> gotime \<Rightarrow> (string \<Rightarrow> bool) \<Rightarrow> (tables \<Rightarrow> tables) \<Rightarrow>
   string \<Rightarrow> tables \<Rightarrow> (pg_error, (Job \<times> duration) option) result \<times> tables" where
  "pg_Claim p c fate now clk locked mid workerID db = pg_ClaimState p c fate now clk locked mid workerID None db"

section \<open>Transitions of a claimed job\<close>

definition lockRunningJobAttempts :: "string \<Rightarrow> string \<Rightarrow> (int \<times> int) txn" where
  "lockRunningJobAttempts i workerID db =
     (case first_such (\<lambda>r. j_id r = i \<and> owned_in [StateRunning] workerID r) (t_jobs db) of
        None \<Rightarrow> Inl (PgNotOwned i workerID)
      | Some r \<Rightarrow> Inr ((j_attempt_count r, j_max_attempts r), db))"

definition requeued_row :: "gotime \<Rightarrow> string \<Rightarrow> job_row \<Rightarrow> job_row" where
  "requeued_row now reason r =
     r\<lparr> j_state := StatePending, j_error_message := Some reason, j_queued_at := now,
        j_current_worker_id := None, j_lease_until := None \<rparr>"

definition fail_tx :: "gotime \<Rightarrow> string \<Rightarrow> string \<Rightarrow> string \<Rightarrow> unit txn" where
  "fail_tx now i workerID reason =
     tx_bind (lockRunningJobAttempts i workerID) (\<lambda>(attempts, maxAttempts).
     tx_bind (tx_read (runningAttemptID i)) (\<lambda>attempt.
     let permanent = ShouldFailPermanently attempts maxAttempts in
     tx_then (tx_write (finishAttempt now attempt AttemptFailed [] reason))
    (tx_then (tx_write (if permanent then markFailedTx now i reason
                        else update_jobs i (\<lambda>_. True) (requeued_row now reason)))
             (tx_write (recordEvent now (if permanent then EventJobFailed else EventJobRequeued)
                          i attempt workerID [(''reason'', PayloadText reason)])))))"

definition pg_Fail ::
  "tx_fate \<Rightarrow> gotime \<Rightarrow> string \<Rightarrow> string \<Rightarrow> string \<Rightarrow> tables \<Rightarrow> (pg_error, unit) result \<times> tables" where
  "pg_Fail fate now i workerID reason = withTx fate (fail_tx now i workerID reason)"

definition failPermanently_tx :: "gotime \<Rightarrow> string \<Rightarrow> string \<Rightarrow> string \<Rightarrow> unit txn" where
  "failPermanently_tx now i workerID reason =
     tx_bind (lockRunningJobAttempts i workerID) (\<lambda>_.
     tx_bind (tx_read (runningAttemptID i)) (\<lambda>attempt.
     tx_then (tx_write (finishAttempt now attempt AttemptFailed [] reason))
    (tx_then (tx_write (markFailedTx now i reason))
             (tx_write (recordEvent now EventJobFailed i attempt workerID
                          [(''reason'', PayloadText reason), (''permanent'', PayloadBool True)])))))"

definition pg_FailPermanently ::
  "tx_fate \<Rightarrow> gotime \<Rightarrow> string \<Rightarrow> string \<Rightarrow> string \<Rightarrow> tables \<Rightarrow> (pg_error, unit) result \<times> tables" where
  "pg_FailPermanently fate now i workerID reason = withTx fate (failPermanently_tx now i workerID reason)"

definition renew_tx :: "PgRepository \<Rightarrow> codecs \<Rightarrow> gotime \<Rightarrow> gotime \<Rightarrow> string \<Rightarrow> string \<Rightarrow> unit txn" where
  "renew_tx p c now clk i workerID =
     tx_then (requireTransitionRows i workerID (owned_in [StateRunning, StateFinalizing] workerID)
                (\<lambda>r. r\<lparr> j_lease_until := Some (c_ts c (clk + p_lease p)) \<rparr>))
    (tx_bind (tx_read (runningAttemptID i)) (\<lambda>attempt.
     tx_then (tx_write (update_attempt attempt (\<lambda>a. a\<lparr> a_last_renewed_at := Some now \<rparr>)))
             (tx_write (recordEvent now EventLeaseRenewed i attempt workerID []))))"

definition pg_Renew ::
  "PgRepository \<Rightarrow> codecs \<Rightarrow> tx_fate \<Rightarrow> gotime \<Rightarrow> gotime \<Rightarrow> string \<Rightarrow> string \<Rightarrow> tables \<Rightarrow> (pg_error, unit) result \<times> tables" where
  "pg_Renew p c fate now clk i workerID = withTx fate (renew_tx p c now clk i workerID)"

text \<open>The row lock shared by \<open>Retry\<close> and \<open>Cancel\<close>.\<close>

definition lockJobState :: "string \<Rightarrow> State txn" where
  "lockJobState i db =
     (case row_of db i of None \<Rightarrow> Inl (PgNotFound i) | Some r \<Rightarrow> Inr (j_state r, db))"

definition withJobState ::
  "tx_fate \<Rightarrow> string \<Rightarrow> (State \<Rightarrow> unit txn) \<Rightarrow> tables \<Rightarrow> (pg_error, unit) result \<times> tables" where
  "withJobState fate i f = withTx fate (tx_bind (lockJobState i) f)"

definition no_progress :: "job_row \<Rightarrow> job_row" where
  "no_progress r =
     r\<lparr> j_progress_frames_done := 0, j_progress_total_frames := 0,
        j_progress_last_frame_at := None, j_progress_worker := [] \<rparr>"

definition retry_body :: "gotime \<Rightarrow> string \<Rightarrow> State \<Rightarrow> unit txn" where
  "retry_body now i state =
     (if state \<noteq> StateFailed then tx_fail (PgCannotRetry i state)
      else
        tx_then (tx_write (update_jobs i (\<lambda>_. True) (\<lambda>r. no_progress
                   (r\<lparr> j_state := StatePending, j_error_message := None, j_queued_at := now,
                       j_current_worker_id := None, j_lease_until := None \<rparr>))))
                (tx_write (recordEvent now EventJobRequeued i [] [] [(''action'', PayloadText ''retry'')])))"

definition pg_Retry :: "tx_fate \<Rightarrow> gotime \<Rightarrow> string \<Rightarrow> tables \<Rightarrow> (pg_error, unit) result \<times> tables" where
  "pg_Retry fate now i = withJobState fate i (retry_body now i)"

definition cancel_body :: "gotime \<Rightarrow> string \<Rightarrow> State \<Rightarrow> unit txn" where
  "cancel_body now i state =
     (if state = StateCancelled then tx_return ()
      else if IsTerminalState state then tx_fail (PgCannotCancel i state)
      else
        tx_bind (tx_read (runningAttemptID i)) (\<lambda>attempt.
        tx_then (tx_write (if attempt \<noteq> []
                   then finishAttempt now attempt AttemptCancelled ''cancelled'' ''cancelled by producer''
                   else (\<lambda>db. db)))
       (tx_then (tx_write (update_jobs i (\<lambda>_. True) (\<lambda>r. no_progress
                   (r\<lparr> j_state := StateCancelled, j_current_worker_id := None,
                       j_lease_until := None, j_error_message := None \<rparr>))))
                (tx_write (recordEvent now EventJobCancelled i attempt [] [(''from'', PayloadState state)])))))"

definition pg_Cancel :: "tx_fate \<Rightarrow> gotime \<Rightarrow> string \<Rightarrow> tables \<Rightarrow> (pg_error, unit) result \<times> tables" where
  "pg_Cancel fate now i = withJobState fate i (cancel_body now i)"

text \<open>\<open>mid\<close> acts between the update that hits no row and the query for the reason.\<close>

definition progress_row :: "gotime \<Rightarrow> string \<Rightarrow> Progress \<Rightarrow> job_row \<Rightarrow> job_row" where
  "progress_row now workerID pr r =
     r\<lparr> j_progress_frames_done := pr_FramesDone pr, j_progress_total_frames := pr_TotalFrames pr,
        j_progress_last_frame_at := Some now, j_progress_worker := workerID \<rparr>"

definition pg_SetProgress ::
  "tx_fate \<Rightarrow> gotime \<Rightarrow> (tables \<Rightarrow> tables) \<Rightarrow> string \<Rightarrow> string \<Rightarrow> Progress \<Rightarrow> tables \<Rightarrow>
   (pg_error, unit) result \<times> tables" where
  "pg_SetProgress fate now mid i workerID pr db =
     (if i = [] \<or> workerID = [] then (Inl PgIDAndWorkerRequired, db)
      else if pr_FramesDone pr < 0 \<or> pr_TotalFrames pr < 0 then (Inl (PgNegativeProgress i), db)
      else if pr_TotalFrames pr > 0 \<and> pr_FramesDone pr > pr_TotalFrames pr then
        (Inl (PgProgressExceedsTotal i), db)
      else case withTx fate (requireTransitionRows i workerID (owned_in [StateRunning] workerID)
                               (progress_row now workerID pr)) db of
        (Inl (PgNotOwned _ _), _) \<Rightarrow>
          (let db' = mid db in
           case row_of db' i of
             None \<Rightarrow> (Inl (PgNotFound i), db')
           | Some r \<Rightarrow>
               (if j_state r \<noteq> StateRunning then (Inl (PgNotRunning i (j_state r)), db')
                else (Inl (PgOwnedByOther i), db')))
      | res \<Rightarrow> res)"

section \<open>Completion\<close>

text \<open>The lease is \<open>now() + make_interval(secs => lease)\<close>, at the precision of the column.\<close>

definition finalizing_row :: "PgRepository \<Rightarrow> codecs \<Rightarrow> gotime \<Rightarrow> string \<Rightarrow> job_row \<Rightarrow> job_row" where
  "finalizing_row p c now workerID r =
     r\<lparr> j_state := StateFinalizing, j_current_worker_id := Some workerID, j_started_at := Some now,
        j_lease_until := Some (c_ts c (now + p_lease p)) \<rparr>"

definition finalization_tx :: "PgRepository \<Rightarrow> codecs \<Rightarrow> gotime \<Rightarrow> string \<Rightarrow> string \<Rightarrow> nat txn" where
  "finalization_tx p c now parent workerID db =
     (let P = (\<lambda>r. j_state r \<in> {StatePending, StateRunning})
      in Inr (affected parent P db, update_jobs parent P (finalizing_row p c now workerID) db))"

definition pg_ClaimFinalization ::
  "PgRepository \<Rightarrow> codecs \<Rightarrow> tx_fate \<Rightarrow> gotime \<Rightarrow> (tables \<Rightarrow> tables) \<Rightarrow>
   (string \<Rightarrow> tables \<Rightarrow> (pg_error, Job) result \<times> tables) \<Rightarrow> string \<Rightarrow> string \<Rightarrow> tables \<Rightarrow>
   (pg_error, Job \<times> bool) result \<times> tables" where
  "pg_ClaimFinalization p c fate now mid get parent workerID db =
     (if parent = [] \<or> workerID = [] then (Inl PgParentAndWorkerRequired, db)
      else case withTx fate (finalization_tx p c now parent workerID) db of
        (Inl e, db1) \<Rightarrow> (Inl e, db1)
      | (Inr n, db1) \<Rightarrow>
          (case get parent (mid db1) of
             (Inl e, db2) \<Rightarrow> (Inl e, db2)
           | (Inr job, db2) \<Rightarrow>
               (if n \<noteq> 0 then (Inr (job, True), db2)
                else if job_State job \<in> {StateFinalizing, StateCompleted} then (Inr (job, False), db2)
                else (Inl (PgParentInState parent (job_State job)), db2))))"

definition closeRunningAttempt ::
  "gotime \<Rightarrow> string \<Rightarrow> AttemptStatus \<Rightarrow> string \<Rightarrow> string \<Rightarrow> string txn" where
  "closeRunningAttempt now i status failureCode reason =
     tx_bind (tx_read (runningAttemptID i)) (\<lambda>attempt.
     tx_then (tx_write (finishAttempt now attempt status failureCode reason)) (tx_return attempt))"

definition complete_tx :: "codecs \<Rightarrow> gotime \<Rightarrow> string \<Rightarrow> string \<Rightarrow> Artifact \<Rightarrow> unit txn" where
  "complete_tx c now i workerID artifact =
     tx_then (requireTransitionRows i workerID (owned_in [StateRunning, StateFinalizing] workerID)
                (\<lambda>r. r\<lparr> j_state := StateCompleted, j_completed_at := Some now \<rparr>))
    (tx_bind (closeRunningAttempt now i AttemptCompleted [] []) (\<lambda>attempt.
     tx_then (tx_write (recordEvent now EventJobCompleted i attempt workerID []))
             (persistArtifactTx c now i attempt artifact)))"

definition pg_Complete ::
  "codecs \<Rightarrow> tx_fate \<Rightarrow> gotime \<Rightarrow> string \<Rightarrow> string \<Rightarrow> Artifact \<Rightarrow> tables \<Rightarrow> (pg_error, unit) result \<times> tables" where
  "pg_Complete c fate now i workerID artifact = withTx fate (complete_tx c now i workerID artifact)"

definition rendered_tx :: "codecs \<Rightarrow> gotime \<Rightarrow> string \<Rightarrow> string \<Rightarrow> Artifact \<Rightarrow> string \<Rightarrow> unit txn" where
  "rendered_tx c now i workerID artifact reason =
     tx_then (requireTransitionRows i workerID (owned_in [StateRunning] workerID)
                (\<lambda>r. r\<lparr> j_state := StateRendered, j_error_message := Some reason, j_queued_at := now,
                        j_current_worker_id := None, j_lease_until := None \<rparr>))
    (tx_bind (closeRunningAttempt now i AttemptRendered ''drive_upload_failed'' reason) (\<lambda>attempt.
     tx_then (tx_write (recordEvent now EventJobRendered i attempt workerID [(''reason'', PayloadText reason)]))
             (persistArtifactTx c now i attempt artifact)))"

definition pg_Rendered ::
  "codecs \<Rightarrow> tx_fate \<Rightarrow> gotime \<Rightarrow> string \<Rightarrow> string \<Rightarrow> Artifact \<Rightarrow> string \<Rightarrow> tables \<Rightarrow>
   (pg_error, unit) result \<times> tables" where
  "pg_Rendered c fate now i workerID artifact reason = withTx fate (rendered_tx c now i workerID artifact reason)"

section \<open>Lease expiry\<close>

definition expired_filter :: "codecs \<Rightarrow> (string \<Rightarrow> bool) \<Rightarrow> gotime \<Rightarrow> job_row \<Rightarrow> bool" where
  "expired_filter c locked deadline r \<longleftrightarrow>
     j_state r \<in> {StateRunning, StateFinalizing} \<and>
     (case j_lease_until r of None \<Rightarrow> False | Some t \<Rightarrow> t < c_ts c deadline) \<and> \<not> locked (j_id r)"

text \<open>One expired job: the tables and the event that is flushed at the end.\<close>

definition sweep_one :: "gotime \<Rightarrow> tables \<times> event_row list \<Rightarrow> job_row \<Rightarrow> tables \<times> event_row list" where
  "sweep_one now st e =
     (case st of (db, evs) \<Rightarrow>
        let i = j_id e; attempt = runningAttemptID i db;
            db1 = finishAttempt now attempt AttemptLeaseExpired [] ''lease expired'' db
        in if ShouldFailPermanently (j_attempt_count e) (j_max_attempts e) then
             (update_jobs i (\<lambda>_. True) (failed_row now ''lease expired, max attempts reached'') db1,
              evs @ [event now EventJobFailed i attempt []
                       [(''reason'', PayloadText ''lease expired, max attempts reached'')]])
           else
             (update_jobs i (\<lambda>_. True) (\<lambda>r. r\<lparr> j_state := StatePending, j_current_worker_id := None,
                                               j_lease_until := None, j_queued_at := now \<rparr>) db1,
              evs @ [event now EventJobRequeued i attempt [] [(''reason'', PayloadText ''lease expired'')]]))"

definition requeue_tx :: "codecs \<Rightarrow> gotime \<Rightarrow> (string \<Rightarrow> bool) \<Rightarrow> gotime \<Rightarrow> nat txn" where
  "requeue_tx c now locked deadline db =
     (let expired = filter (expired_filter c locked deadline) (t_jobs db)
      in case foldl (sweep_one now) (db, []) expired of
           (db', evs) \<Rightarrow> Inr (length expired, recordEvents evs db'))"

definition pg_RequeueExpired ::
  "codecs \<Rightarrow> tx_fate \<Rightarrow> gotime \<Rightarrow> (string \<Rightarrow> bool) \<Rightarrow> gotime \<Rightarrow> tables \<Rightarrow> (pg_error, nat) result \<times> tables" where
  "pg_RequeueExpired c fate now locked deadline = withTx fate (requeue_tx c now locked deadline)"

end
