(* ===== verification/Postgres_Reads.thy ===== *)
theory Postgres_Reads
  imports Postgres_Queue "HOL-Library.Product_Lexorder"
begin

text \<open>
  The listings (\<open>by_parent.go\<close>, \<open>children.go\<close>), the statistics (\<open>stats.go\<close>) and the worker registry
  (\<open>workers.go\<close>) of the PostgreSQL repository.
\<close>

section \<open>Listings\<close>

text \<open>The artifact of the LEFT JOIN, and the job columns the two listings share.\<close>

definition joined_artifact :: "tables \<Rightarrow> job_row \<Rightarrow> Artifact option" where
  "joined_artifact db r =
     (case j_artifact_id r of
        None \<Rightarrow> None
      | Some a \<Rightarrow> map_option artifactScan_artifact (first_such (\<lambda>x. ra_id x = a) (t_artifacts db)))"

definition listed_job :: "tables \<Rightarrow> string \<Rightarrow> FrameRange option \<Rightarrow> job_row \<Rightarrow> Job" where
  "listed_job db parent fr r = blank_job
     \<lparr> job_ID := j_id r, job_State := j_state r, job_ParentJobID := parent,
       job_ChunkIndex := j_chunk_index r, job_FrameRange := fr,
       job_Artifact := joined_artifact db r \<rparr>"

text \<open>The scan of a result set; the first row that cannot be decoded ends it with an error.\<close>

fun scan_rows :: "codecs \<Rightarrow> (FrameRange option \<Rightarrow> job_row \<Rightarrow> Job) \<Rightarrow> job_row list \<Rightarrow> (pg_error, Job list) result" where
  "scan_rows c f [] = Inr []"
| "scan_rows c f (r # rows) =
     (case decodeFrameRange c (j_frame_range r) of
        Inl e \<Rightarrow> Inl e
      | Inr fr \<Rightarrow>
          (case scan_rows c f rows of Inl e \<Rightarrow> Inl e | Inr jobs \<Rightarrow> Inr (f fr r # jobs)))"

definition child_rows :: "tables \<Rightarrow> string \<Rightarrow> job_row list" where
  "child_rows db parent = filter (\<lambda>r. j_parent_job_id r = Some parent) (t_jobs db)"

definition pg_ByParent :: "codecs \<Rightarrow> string \<Rightarrow> tables \<Rightarrow> (pg_error, Job list) result" where
  "pg_ByParent c parent db =
     (if parent = [] then Inl PgParentIDRequired
      else scan_rows c (\<lambda>fr r. (listed_job db parent fr r)
                \<lparr> job_Attempts := j_attempt_count r, job_Worker := or_empty (j_current_worker_id r),
                  job_QueuedAt := j_queued_at r, job_FailReason := or_empty (j_error_message r) \<rparr>)
             (sort_key (\<lambda>r. (j_queued_at r, c_collate c (j_id r))) (child_rows db parent)))"

definition pg_Children :: "codecs \<Rightarrow> string \<Rightarrow> tables \<Rightarrow> (pg_error, Job list) result" where
  "pg_Children c parent db =
     (if parent = [] then Inl PgParentIDRequired
      else scan_rows c (listed_job db parent) (sort_key j_chunk_index (child_rows db parent)))"

section \<open>Statistics\<close>

definition count_state :: "State \<Rightarrow> tables \<Rightarrow> int" where
  "count_state st db = int (length (filter (\<lambda>r. j_state r = st) (t_jobs db)))"

text \<open>The instant \<open>'epoch'::timestamptz\<close>, counted from Go's zero time.\<close>

definition unix_epoch :: gotime where "unix_epoch = 62135596800 * second"

definition oldest_pending :: "tables \<Rightarrow> gotime option" where
  "oldest_pending db =
     (case map j_queued_at (filter (\<lambda>r. j_state r = StatePending \<and> j_queued_at r \<noteq> unix_epoch) (t_jobs db)) of
        [] \<Rightarrow> None
      | t # ts \<Rightarrow> Some (foldr min ts t))"

text \<open>\<open>answered\<close> says whether the query came back.\<close>

definition pg_Stats :: "bool \<Rightarrow> gotime \<Rightarrow> tables \<Rightarrow> Stats" where
  "pg_Stats answered now db =
     (if \<not> answered then
        \<lparr> st_Pending = 0, st_Running = 0, st_Completed = 0, st_Failed = 0, st_Depth = 0,
          st_OldestPendingSeconds = 0, st_Ok = False \<rparr>
      else
        \<lparr> st_Pending = count_state StatePending db, st_Running = count_state StateRunning db,
          st_Completed = count_state StateCompleted db, st_Failed = count_state StateFailed db,
          st_Depth = count_state StatePending db,
          st_OldestPendingSeconds =
            (case oldest_pending db of None \<Rightarrow> 0 | Some t \<Rightarrow> of_int (now - t) / of_int second),
          st_Ok = True \<rparr>)"

section \<open>Workers\<close>

definition worker_to_row :: "gotime \<Rightarrow> Worker \<Rightarrow> worker_row" where
  "worker_to_row now w =
     \<lparr> wr_id = w_ID w, wr_hostname = nullIfEmpty (w_Hostname w),
       wr_status = (if w_Status w = [] then WorkerStatusReady else w_Status w),
       wr_renderinggen_version = nullIfEmpty (w_RenderingGenVersion w),
       wr_chronon_version = nullIfEmpty (w_ChrononVersion w),
       wr_overlay_schema_version = nullIfZero (w_OverlaySchemaVersion w),
       wr_gpu_backend = nullIfEmpty (w_GPUBackend w), wr_gpu_device = nullIfEmpty (w_GPUDevice w),
       wr_gpu_driver = nullIfEmpty (w_GPUDriver w), wr_started_at = now,
       wr_last_heartbeat_at = Some now \<rparr>"

text \<open>The upsert keeps \<open>started_at\<close> of a row that exists.\<close>

definition pg_Register :: "tx_fate \<Rightarrow> gotime \<Rightarrow> Worker \<Rightarrow> tables \<Rightarrow> (pg_error, unit) result \<times> tables" where
  "pg_Register fate now w db =
     (if w_ID w = [] then (Inl PgWorkerIDRequired, db)
      else withTx fate (tx_write (\<lambda>db.
        if list_ex (\<lambda>r. wr_id r = w_ID w) (t_workers db) then
          db\<lparr> t_workers := map (\<lambda>r. if wr_id r = w_ID w
                                     then (worker_to_row now w)\<lparr> wr_started_at := wr_started_at r \<rparr>
                                     else r) (t_workers db) \<rparr>
        else db\<lparr> t_workers := t_workers db @ [worker_to_row now w] \<rparr>)) db)"

definition heartbeat_ttl :: duration where "heartbeat_ttl = 7 * 24 * 3600 * second"

definition pg_Heartbeat :: "tx_fate \<Rightarrow> gotime \<Rightarrow> string \<Rightarrow> tables \<Rightarrow> (pg_error, unit) result \<times> tables" where
  "pg_Heartbeat fate now workerID =
     withTx fate (\<lambda>db.
       if \<not> list_ex (\<lambda>r. wr_id r = workerID) (t_workers db) then Inl (PgWorkerNotRegistered workerID)
       else Inr ((), db
         \<lparr> t_workers := map (\<lambda>r. if wr_id r = workerID then r\<lparr> wr_last_heartbeat_at := Some now \<rparr> else r) (t_workers db),
           t_heartbeats := filter (\<lambda>(w, t). \<not> t < now - heartbeat_ttl) (t_heartbeats db @ [(workerID, now)]) \<rparr>))"

definition scanWorker :: "worker_row \<Rightarrow> Worker" where
  "scanWorker r =
     \<lparr> w_ID = wr_id r, w_Hostname = or_empty (wr_hostname r), w_Status = wr_status r,
       w_RenderingGenVersion = or_empty (wr_renderinggen_version r),
       w_ChrononVersion = or_empty (wr_chronon_version r),
       w_OverlaySchemaVersion = or_zero (wr_overlay_schema_version r),
       w_GPUBackend = or_empty (wr_gpu_backend r), w_GPUDevice = or_empty (wr_gpu_device r),
       w_GPUDriver = or_empty (wr_gpu_driver r), w_StartedAt = wr_started_at r,
       w_LastHeartbeatAt = or_zero (wr_last_heartbeat_at r), w_Liveness = None \<rparr>"

definition pg_List :: "codecs \<Rightarrow> tables \<Rightarrow> Worker list" where
  "pg_List c db = map scanWorker (sort_key (\<lambda>r. c_collate c (wr_id r)) (t_workers db))"

end
