(* ===== verification/Postgres_Steps.thy ===== *)
theory Postgres_Steps
  imports Postgres_Reads Queue_Lifecycle
begin

text \<open>
  What a transaction of the PostgreSQL repository does to one job. The view of a job is its row, its
  attempts and its events; \<open>job_step\<close> is the machine the views go through, and every transaction
  body is shown to move each view by at most one step of it.
\<close>

section \<open>Views\<close>

type_synonym job_view = "job_row option \<times> attempt_row list \<times> event_row list"

definition attempts_of :: "tables \<Rightarrow> string \<Rightarrow> attempt_row list" where
  "attempts_of db i = filter (\<lambda>a. a_job_id a = i) (t_attempts db)"

definition events_of :: "tables \<Rightarrow> string \<Rightarrow> event_row list" where
  "events_of db i = filter (\<lambda>e. e_job_id e = i) (t_events db)"

definition view :: "tables \<Rightarrow> string \<Rightarrow> job_view" where
  "view db i = (row_of db i, attempts_of db i, events_of db i)"

subsection \<open>How the statements change the views\<close>

lemma first_such_map:
  "(\<And>r. P (h r) = P r) \<Longrightarrow> first_such P (map h rs) = map_option h (first_such P rs)"
  by (induction rs) auto

lemma row_of_id: "row_of db i = Some r \<Longrightarrow> j_id r = i"
  by (auto simp: row_of_def dest: first_such_SomeD)

lemma row_of_update [simp]:
  assumes "\<And>r. j_id (f r) = j_id r"
  shows "row_of (update_jobs i P f db) k =
    map_option (\<lambda>r. if k = i \<and> P r then f r else r) (row_of db k)"
proof -
  have "first_such (\<lambda>r. j_id r = k) (t_jobs (update_jobs i P f db))
      = map_option (\<lambda>r. if j_id r = i \<and> P r then f r else r) (first_such (\<lambda>r. j_id r = k) (t_jobs db))"
    using assms by (simp add: update_jobs_def first_such_map)
  then show ?thesis
    by (auto simp: row_of_def map_option_case split: option.splits dest: first_such_SomeD)
qed

lemma update_jobs_other [simp]:
  "t_attempts (update_jobs i P f db) = t_attempts db" "t_events (update_jobs i P f db) = t_events db"
  "t_artifacts (update_jobs i P f db) = t_artifacts db" "t_metrics (update_jobs i P f db) = t_metrics db"
  "t_telemetry (update_jobs i P f db) = t_telemetry db" "t_workers (update_jobs i P f db) = t_workers db"
  by (simp_all add: update_jobs_def)

lemma update_jobs_columns:
  "(\<And>r. g (f r) = g r) \<Longrightarrow> map g (t_jobs (update_jobs i P f db)) = map g (t_jobs db)"
  by (simp add: update_jobs_def)

lemma update_attempt_other [simp]:
  "t_jobs (update_attempt i f db) = t_jobs db" "t_events (update_attempt i f db) = t_events db"
  by (simp_all add: update_attempt_def)

lemma finishAttempt_other [simp]:
  "t_jobs (finishAttempt now i st code msg db) = t_jobs db"
  "t_events (finishAttempt now i st code msg db) = t_events db"
  by (simp_all add: finishAttempt_def)

lemma recordEvents_other [simp]:
  "t_jobs (recordEvents evs db) = t_jobs db" "t_attempts (recordEvents evs db) = t_attempts db"
  "t_events (recordEvents evs db) = t_events db @ evs"
  by (simp_all add: recordEvents_def)

lemma recordEvent_other [simp]:
  "t_jobs (recordEvent now ty i a w pl db) = t_jobs db"
  "t_attempts (recordEvent now ty i a w pl db) = t_attempts db"
  "t_events (recordEvent now ty i a w pl db) = t_events db @ [event now ty i a w pl]"
  by (simp_all add: recordEvent_def)

lemma event_fields [simp]:
  "e_job_id (event now ty i a w pl) = i" "e_type (event now ty i a w pl) = ty"
  by (simp_all add: event_def)

lemma row_of_cong: "t_jobs db' = t_jobs db \<Longrightarrow> row_of db' = row_of db"
  by (simp add: row_of_def fun_eq_iff)

lemma row_of_simps [simp]:
  "row_of (db\<lparr> t_artifacts := x1 \<rparr>) = row_of db" "row_of (db\<lparr> t_attempts := x2 \<rparr>) = row_of db"
  "row_of (recordEvent now ty i a w pl db) = row_of db" "row_of (recordEvents evs db) = row_of db"
  "row_of (finishAttempt now j st code msg db) = row_of db" "row_of (update_attempt j f db) = row_of db"
  by (simp_all add: row_of_def fun_eq_iff)

lemma in_jobs_iff:
  assumes "distinct (map j_id (t_jobs db))"
  shows "r \<in> set (t_jobs db) \<longleftrightarrow> row_of db (j_id r) = Some r"
proof
  assume r: "r \<in> set (t_jobs db)"
  then obtain s where s: "row_of db (j_id r) = Some s" "s \<in> set (t_jobs db)" "j_id s = j_id r"
    using first_such_ex [of r "t_jobs db" "\<lambda>s. j_id s = j_id r"]
    by (auto simp: row_of_def dest: first_such_SomeD)
  then show "row_of db (j_id r) = Some r" using r assms by (metis distinct_map inj_onD)
qed (auto simp: row_of_def dest: first_such_SomeD)

lemma affected_0_iff:
  assumes "distinct (map j_id (t_jobs db))"
  shows "affected i P db = 0 \<longleftrightarrow> (case row_of db i of None \<Rightarrow> True | Some r \<Rightarrow> \<not> P r)"
proof (cases "row_of db i")
  case None
  then have "\<forall>x \<in> set (t_jobs db). j_id x \<noteq> i" by (simp add: row_of_def first_such_None_iff)
  then show ?thesis using None by (simp add: affected_def filter_empty_conv)
next
  case (Some r)
  then have "r \<in> set (t_jobs db)" "j_id r = i" by (auto simp: row_of_def dest: first_such_SomeD)
  then show ?thesis using Some assms by (auto simp: affected_def filter_empty_conv in_jobs_iff)
qed

lemma update_jobs_attempts [simp]: "attempts_of (update_jobs i P f db) k = attempts_of db k"
  by (simp add: attempts_of_def)

lemma requireTransitionRows_InrD:
  assumes "requireTransitionRows i w P f db = Inr (x, db')" and "distinct (map j_id (t_jobs db))"
  obtains r where "row_of db i = Some r" "P r" "db' = update_jobs i P f db"
  using assms by (auto simp: requireTransitionRows_def affected_0_iff split: if_splits option.splits)

section \<open>The machine of one job\<close>

text \<open>The columns that a submission sets and nothing changes afterwards.\<close>

definition frozen :: "job_row \<Rightarrow> job_row" where
  "frozen r = r\<lparr> j_state := StatePending, j_attempt_count := 0, j_queued_at := zero_time,
     j_started_at := None, j_completed_at := None, j_failed_at := None, j_current_worker_id := None,
     j_lease_until := None, j_error_message := None, j_artifact_id := None,
     j_progress_frames_done := 0, j_progress_total_frames := 0, j_progress_last_frame_at := None,
     j_progress_worker := [] \<rparr>"

lemma frozen_eqD:
  assumes "frozen r' = frozen r"
  shows "j_id r' = j_id r" "j_max_attempts r' = j_max_attempts r"
    "j_parent_job_id r' = j_parent_job_id r" "j_idempotency_key r' = j_idempotency_key r"
    "j_frame_range r' = j_frame_range r" "j_input_manifest r' = j_input_manifest r"
  using arg_cong [OF assms, of j_id] arg_cong [OF assms, of j_max_attempts]
    arg_cong [OF assms, of j_parent_job_id] arg_cong [OF assms, of j_idempotency_key]
    arg_cong [OF assms, of j_frame_range] arg_cong [OF assms, of j_input_manifest]
  by (simp_all add: frozen_def)

text \<open>The end of every open attempt in a list.\<close>

definition end_open :: "(attempt_row \<Rightarrow> attempt_row) \<Rightarrow> attempt_row list \<Rightarrow> attempt_row list" where
  "end_open f = map (\<lambda>a. if a_status a = AttemptRunning then f a else a)"

definition ended :: "gotime \<Rightarrow> AttemptStatus \<Rightarrow> string \<Rightarrow> string \<Rightarrow> attempt_row \<Rightarrow> attempt_row" where
  "ended now st code msg a = a\<lparr> a_status := st, a_finished_at := Some now,
     a_error_code := nullIfEmpty code, a_error_message := nullIfEmpty msg \<rparr>"

text \<open>The state an event announces.\<close>

fun announced :: "event_type \<Rightarrow> State option" where
  "announced EventJobCreated = Some StatePending"
| "announced EventJobClaimed = Some StateRunning"
| "announced EventLeaseRenewed = None"
| "announced EventJobCompleted = Some StateCompleted"
| "announced EventJobFailed = Some StateFailed"
| "announced EventJobRequeued = Some StatePending"
| "announced EventJobRendered = Some StateRendered"
| "announced EventJobCancelled = Some StateCancelled"

abbreviation active :: "State \<Rightarrow> bool" where
  "active q \<equiv> q = StateRunning \<or> q = StateFinalizing"

definition row_lc :: "job_row \<Rightarrow> State \<times> int" where
  "row_lc r = (j_state r, j_attempt_count r)"

text \<open>
  A row may release its worker and its lease (\<open>released\<close>), or keep them in a final state.
\<close>

definition released :: "job_row \<Rightarrow> bool" where
  "released r \<longleftrightarrow> j_current_worker_id r = None \<and> j_lease_until r = None"

inductive job_step :: "codecs \<Rightarrow> string \<Rightarrow> job_view \<Rightarrow> job_view \<Rightarrow> bool" for c i where
  js_insert: "j_id r = i \<Longrightarrow> j_state r = StatePending \<Longrightarrow> j_attempt_count r = 0 \<Longrightarrow> released r \<Longrightarrow>
    j_artifact_id r = None \<Longrightarrow> \<not> isl (decode_row c r) \<Longrightarrow> CHR ''#'' \<notin> set i \<Longrightarrow> i \<noteq> [] \<Longrightarrow>
    e_type e = EventJobCreated \<Longrightarrow> job_step c i (None, [], []) (Some r, [], [e])"
| js_claim: "IsClaimable (j_state r) \<Longrightarrow> frozen r' = frozen r \<Longrightarrow>
    row_lc r' = (StateRunning, j_attempt_count r + 1) \<Longrightarrow> j_current_worker_id r' = Some w \<Longrightarrow>
    j_lease_until r' \<noteq> None \<Longrightarrow> a_job_id a = i \<Longrightarrow> a_attempt_number a = j_attempt_count r' \<Longrightarrow>
    a_id a = attemptID i (a_attempt_number a) \<Longrightarrow> a_worker_id a = Some w \<Longrightarrow>
    a_status a = AttemptRunning \<Longrightarrow> a_finished_at a = None \<Longrightarrow> e_type e = EventJobClaimed \<Longrightarrow>
    e_attempt_id e = Some (a_id a) \<Longrightarrow>
    job_step c i (Some r, ats, es) (Some r', ats @ [a], es @ [e])"
| js_report: "active (j_state r) \<Longrightarrow> frozen r' = frozen r \<Longrightarrow> row_lc r' = row_lc r \<Longrightarrow>
    j_current_worker_id r' = j_current_worker_id r \<Longrightarrow> j_lease_until r' \<noteq> None \<Longrightarrow>
    es' = [] \<and> ats' = ats \<or>
      (\<exists>e. es' = [e] \<and> e_type e = EventLeaseRenewed) \<and> ats' = end_open (\<lambda>a. a\<lparr> a_last_renewed_at := Some now \<rparr>) ats \<Longrightarrow>
    job_step c i (Some r, ats, es) (Some r', ats', es @ es')"
| js_finalize: "j_state r \<in> {StatePending, StateRunning} \<Longrightarrow> frozen r' = frozen r \<Longrightarrow>
    row_lc r' = (StateFinalizing, j_attempt_count r) \<Longrightarrow> j_current_worker_id r' \<noteq> None \<Longrightarrow>
    j_lease_until r' \<noteq> None \<Longrightarrow> job_step c i (Some r, ats, es) (Some r', ats, es)"
| js_close: "frozen r' = frozen r \<Longrightarrow> lc_step (j_max_attempts r) (row_lc r) (row_lc r') \<Longrightarrow>
    j_attempt_count r' = j_attempt_count r \<Longrightarrow> \<not> active (j_state r') \<Longrightarrow>
    released r' \<or> j_state r' = StateCompleted \<Longrightarrow> st \<noteq> AttemptRunning \<Longrightarrow>
    announced (e_type e) = Some (j_state r') \<Longrightarrow> e_type e \<noteq> EventJobCreated \<Longrightarrow>
    job_step c i (Some r, ats, es) (Some r', end_open (ended now st code msg) ats, es @ [e])"
| js_poison: "isl (decode_row c r) \<Longrightarrow> frozen r' = frozen r \<Longrightarrow>
    row_lc r' = (StateFailed, j_attempt_count r) \<Longrightarrow> released r' \<Longrightarrow>
    es' = [] \<and> ats' = ats \<or>
      (\<exists>e. es' = [e] \<and> e_type e = EventJobFailed) \<and> ats' = end_open (ended now AttemptFailed code msg) ats \<Longrightarrow>
    job_step c i (Some r, ats, es) (Some r', ats', es @ es')"

section \<open>What every job satisfies\<close>

definition row_ok :: "codecs \<Rightarrow> string \<Rightarrow> job_row \<Rightarrow> bool" where
  "row_ok c i r \<longleftrightarrow> j_id r = i \<and> CHR ''#'' \<notin> set i \<and> i \<noteq> [] \<and> \<not> isl (decode_row c r) \<and> 0 \<le> j_attempt_count r \<and>
     (if active (j_state r) then j_current_worker_id r \<noteq> None \<and> j_lease_until r \<noteq> None
      else released r \<or> j_state r = StateCompleted)"

text \<open>
  The attempts are numbered from 1 to the count of the row, in the order of their creation; only the
  last may be open, the job is then held, and a running job has it open under its own worker.
\<close>

definition attempt_ok :: "string \<Rightarrow> job_row \<Rightarrow> attempt_row \<Rightarrow> bool" where
  "attempt_ok i r a \<longleftrightarrow>
     a_job_id a = i \<and> a_id a = attemptID i (a_attempt_number a) \<and>
     (a_status a = AttemptRunning \<longleftrightarrow> a_finished_at a = None) \<and>
     (a_status a = AttemptRunning \<longrightarrow> a_attempt_number a = j_attempt_count r \<and> active (j_state r) \<and>
        (j_state r = StateRunning \<longrightarrow> a_worker_id a = j_current_worker_id r))"

definition attempts_ok :: "string \<Rightarrow> job_row \<Rightarrow> attempt_row list \<Rightarrow> bool" where
  "attempts_ok i r ats \<longleftrightarrow>
     map a_attempt_number ats = [1..j_attempt_count r] \<and>
     (\<forall>a \<in> set ats. attempt_ok i r a) \<and>
     (j_state r = StateRunning \<longrightarrow> (\<exists>a \<in> set ats. a_status a = AttemptRunning))"

text \<open>The state that a ledger announces last.\<close>

definition replay :: "event_row list \<Rightarrow> State option" where
  "replay es = foldl (\<lambda>q e. case announced (e_type e) of None \<Rightarrow> q | Some q' \<Rightarrow> Some q') None es"

definition claim_events :: "event_row list \<Rightarrow> event_row list" where
  "claim_events es = filter (\<lambda>e. e_type e = EventJobClaimed) es"

definition ledger_ok :: "job_row \<Rightarrow> event_row list \<Rightarrow> bool" where
  "ledger_ok r es \<longleftrightarrow>
     (replay es = Some (j_state r) \<or>
      j_state r = StateFinalizing \<and> replay es \<in> {Some StatePending, Some StateRunning}) \<and>
     int (length (claim_events es)) = j_attempt_count r"

definition job_inv :: "codecs \<Rightarrow> string \<Rightarrow> job_view \<Rightarrow> bool" where
  "job_inv c i v =
     (case v of (ro, ats, es) \<Rightarrow>
        (case ro of
           None \<Rightarrow> ats = [] \<and> es = []
         | Some r \<Rightarrow> row_ok c i r \<and> attempts_ok i r ats \<and> ledger_ok r es))"

lemma job_inv_Some [simp]:
  "job_inv c i (Some r, ats, es) \<longleftrightarrow> row_ok c i r \<and> attempts_ok i r ats \<and> ledger_ok r es"
  and job_inv_None [simp]: "job_inv c i (None, ats, es) \<longleftrightarrow> ats = [] \<and> es = []"
  by (simp_all add: job_inv_def)

lemma replay_snoc [simp]:
  "replay (es @ [e]) = (case announced (e_type e) of None \<Rightarrow> replay es | Some q \<Rightarrow> Some q)"
  by (cases "announced (e_type e)") (simp_all add: replay_def)

lemma claim_events_snoc [simp]:
  "claim_events (es @ [e]) = claim_events es @ (if e_type e = EventJobClaimed then [e] else [])"
  by (simp add: claim_events_def)

lemma end_open_numbers [simp]:
  "(\<And>a. a_attempt_number (f a) = a_attempt_number a) \<Longrightarrow>
   map a_attempt_number (end_open f ats) = map a_attempt_number ats"
  by (simp add: end_open_def)

lemma in_end_open: "b \<in> set (end_open f ats) \<longleftrightarrow>
    (\<exists>a \<in> set ats. b = (if a_status a = AttemptRunning then f a else a))"
  by (auto simp: end_open_def)

lemma ended_fields [simp]:
  "a_attempt_number (ended now st code msg a) = a_attempt_number a" "a_job_id (ended now st code msg a) = a_job_id a"
  "a_id (ended now st code msg a) = a_id a" "a_status (ended now st code msg a) = st"
  "a_finished_at (ended now st code msg a) = Some now" "a_worker_id (ended now st code msg a) = a_worker_id a"
  "a_started_at (ended now st code msg a) = a_started_at a"
  by (simp_all add: ended_def)

lemma decode_row_frozen:
  assumes "frozen r' = frozen r" shows "decode_row c r' = decode_row c r"
  by (simp only: decode_row_def frozen_eqD [OF assms])

lemma attempts_ok_end_open:
  assumes ok: "attempts_ok i r ats" and n: "j_attempt_count r' = j_attempt_count r" "\<not> active (j_state r')"
    and st: "st \<noteq> AttemptRunning"
  shows "attempts_ok i r' (end_open (ended now st code msg) ats)"
proof -
  have "attempt_ok i r' b" if "b \<in> set (end_open (ended now st code msg) ats)" for b
  proof -
    from that obtain a where a: "a \<in> set ats"
      "b = (if a_status a = AttemptRunning then ended now st code msg a else a)" by (auto simp: in_end_open)
    then have "attempt_ok i r a" using ok by (simp add: attempts_ok_def)
    then show ?thesis using a(2) st n by (cases "a_status a = AttemptRunning") (simp_all add: attempt_ok_def)
  qed
  then show ?thesis using ok n by (simp add: attempts_ok_def)
qed

lemma attempts_ok_renewed:
  assumes ok: "attempts_ok i r ats"
  shows "attempts_ok i r (end_open (\<lambda>a. a\<lparr> a_last_renewed_at := Some now \<rparr>) ats)"
proof -
  have "attempt_ok i r b" if "b \<in> set (end_open (\<lambda>a. a\<lparr> a_last_renewed_at := Some now \<rparr>) ats)" for b
  proof -
    from that obtain a where a: "a \<in> set ats"
      "b = (if a_status a = AttemptRunning then a\<lparr> a_last_renewed_at := Some now \<rparr> else a)" by (auto simp: in_end_open)
    then have "attempt_ok i r a" using ok by (simp add: attempts_ok_def)
    then show ?thesis using a(2) by (cases "a_status a = AttemptRunning") (simp_all add: attempt_ok_def)
  qed
  moreover have "\<exists>b \<in> set (end_open (\<lambda>a. a\<lparr> a_last_renewed_at := Some now \<rparr>) ats). a_status b = AttemptRunning"
    if "a \<in> set ats" "a_status a = AttemptRunning" for a
    using that by (intro bexI [of _ "a\<lparr> a_last_renewed_at := Some now \<rparr>"]) (auto simp: in_end_open)
  ultimately show ?thesis using ok by (auto simp: attempts_ok_def)
qed

lemma attempts_ok_row:
  assumes "attempts_ok i r ats" and "j_attempt_count r' = j_attempt_count r"
    and "j_state r' = j_state r \<and> j_current_worker_id r' = j_current_worker_id r \<or> j_state r' = StateFinalizing"
  shows "attempts_ok i r' ats"
proof -
  have "attempt_ok i r' a" if "a \<in> set ats" for a
    using assms that by (auto simp: attempts_ok_def attempt_ok_def)
  then show ?thesis using assms by (auto simp: attempts_ok_def)
qed

lemma attempts_ok_claim:
  assumes ok: "attempts_ok i r ats" and q: "\<not> active (j_state r)" and n: "0 \<le> j_attempt_count r"
    "j_attempt_count r' = j_attempt_count r + 1" and a: "attempt_ok i r' a" "a_attempt_number a = j_attempt_count r'"
    "a_status a = AttemptRunning"
  shows "attempts_ok i r' (ats @ [a])"
proof -
  have "[1..j_attempt_count r'] = [1..j_attempt_count r] @ [j_attempt_count r']"
    using n upto_rec2 [of 1 "j_attempt_count r'"] by simp
  moreover have "attempt_ok i r' b" if "b \<in> set ats" for b
    using ok q that by (auto simp: attempts_ok_def attempt_ok_def)
  ultimately show ?thesis using ok a by (auto simp: attempts_ok_def)
qed

lemma job_step_inv: "job_step c i v v' \<Longrightarrow> job_inv c i v \<Longrightarrow> job_inv c i v'"
proof (induction rule: job_step.induct)
  case (js_insert r e)
  then show ?case by (simp add: row_ok_def attempts_ok_def ledger_ok_def replay_def claim_events_def)
next
  case (js_claim r r' w a e ats es)
  have n: "j_attempt_count r' = j_attempt_count r + 1" "j_state r' = StateRunning" "0 \<le> j_attempt_count r"
    and q: "\<not> active (j_state r)"
    using js_claim.prems js_claim.hyps(1,3) by (auto simp: row_lc_def row_ok_def IsClaimable_def)
  have "attempt_ok i r' a" using js_claim.hyps n by (simp add: attempt_ok_def)
  then have "attempts_ok i r' (ats @ [a])"
    using js_claim.prems js_claim.hyps n q attempts_ok_claim [of i r ats r' a] by simp
  moreover have "row_ok c i r'"
    using js_claim.prems js_claim.hyps(2,4,5) n by (simp add: row_ok_def frozen_eqD [OF js_claim.hyps(2)] decode_row_frozen [OF js_claim.hyps(2)])
  moreover have "ledger_ok r' (es @ [e])"
    using js_claim.prems js_claim.hyps(12) n by (simp add: ledger_ok_def)
  ultimately show ?case by simp
next
  case (js_report r r' es' ats' ats now es)
  have n: "j_attempt_count r' = j_attempt_count r" "j_state r' = j_state r" using js_report.hyps(3) by (auto simp: row_lc_def)
  have "row_ok c i r'"
    using js_report.prems js_report.hyps(1,2,4,5) n by (auto simp: row_ok_def frozen_eqD [OF js_report.hyps(2)] decode_row_frozen [OF js_report.hyps(2)])
  moreover have "attempts_ok i r' ats"
    using js_report.prems js_report.hyps(4) n attempts_ok_row [of i r ats r'] by simp
  then have "attempts_ok i r' ats'" using js_report.hyps(6) attempts_ok_renewed [of i r' ats now] by auto
  moreover have "ledger_ok r' (es @ es')" using js_report.prems js_report.hyps(6) n by (auto simp: ledger_ok_def)
  ultimately show ?case by simp
next
  case (js_finalize r r' ats es)
  have n: "j_attempt_count r' = j_attempt_count r" "j_state r' = StateFinalizing" using js_finalize.hyps(3) by (auto simp: row_lc_def)
  have "row_ok c i r'"
    using js_finalize.prems js_finalize.hyps(2,4,5) n by (simp add: row_ok_def frozen_eqD [OF js_finalize.hyps(2)] decode_row_frozen [OF js_finalize.hyps(2)])
  moreover have "attempts_ok i r' ats" using js_finalize.prems n attempts_ok_row [of i r ats r'] by simp
  moreover have "ledger_ok r' es" using js_finalize.prems js_finalize.hyps(1) n by (auto simp: ledger_ok_def)
  ultimately show ?case by simp
next
  case (js_close r' r st e ats es now code msg)
  have "row_ok c i r'"
    using js_close.prems js_close.hyps(1,3,4,5) by (simp add: row_ok_def frozen_eqD [OF js_close.hyps(1)] decode_row_frozen [OF js_close.hyps(1)])
  moreover have "attempts_ok i r' (end_open (ended now st code msg) ats)"
    using js_close.prems js_close.hyps(3,4,6) by (intro attempts_ok_end_open [of i r]) simp_all
  moreover have "e_type e \<noteq> EventJobClaimed" using js_close.hyps(4,7) by auto
  then have "ledger_ok r' (es @ [e])" using js_close.prems js_close.hyps(3,7) by (simp add: ledger_ok_def)
  ultimately show ?case by simp
next
  case (js_poison r r' es' ats' ats now code msg es)
  then show ?case by (simp add: row_ok_def)
qed

section \<open>What the tables satisfy\<close>

definition keys_unique :: "tables \<Rightarrow> bool" where
  "keys_unique db \<longleftrightarrow> (\<forall>r \<in> set (t_jobs db). \<forall>r' \<in> set (t_jobs db).
     j_idempotency_key r = j_idempotency_key r' \<longrightarrow> j_idempotency_key r \<noteq> None \<longrightarrow> j_id r = j_id r')"

definition pg_wf :: "codecs \<Rightarrow> tables \<Rightarrow> bool" where
  "pg_wf c db \<longleftrightarrow> distinct (map j_id (t_jobs db)) \<and> keys_unique db \<and> (\<forall>i. job_inv c i (view db i))"

text \<open>A transaction that moves every job by at most one step and keeps the two unique indexes.\<close>

definition moves :: "codecs \<Rightarrow> tables \<Rightarrow> tables \<Rightarrow> bool" where
  "moves c db db' \<longleftrightarrow> distinct (map j_id (t_jobs db')) \<and> keys_unique db' \<and>
     (\<forall>i. view db' i = view db i \<or> job_step c i (view db i) (view db' i))"

lemma moves_wf: "moves c db db' \<Longrightarrow> pg_wf c db \<Longrightarrow> pg_wf c db'"
  unfolding moves_def pg_wf_def by (metis job_step_inv)

lemma moves_refl: "pg_wf c db \<Longrightarrow> moves c db db"
  by (simp add: moves_def pg_wf_def)

lemma pg_wf_empty: "pg_wf c empty_tables"
  by (simp add: pg_wf_def keys_unique_def empty_tables_def view_def row_of_def attempts_of_def events_of_def)

lemma pg_wf_ids: "pg_wf c db \<Longrightarrow> distinct (map j_id (t_jobs db))"
  by (simp add: pg_wf_def)

lemma pg_wf_row:
  assumes "pg_wf c db" and "row_of db i = Some r"
  shows "row_ok c i r" "attempts_ok i r (attempts_of db i)" "ledger_ok r (events_of db i)"
proof -
  have "job_inv c i (view db i)" using assms by (simp add: pg_wf_def)
  then show "row_ok c i r" "attempts_ok i r (attempts_of db i)" "ledger_ok r (events_of db i)"
    using assms(2) by (simp_all add: view_def)
qed

lemma pg_wf_orphan:
  assumes "pg_wf c db" and "row_of db i = None"
  shows "attempts_of db i = []" "events_of db i = []"
  using assms by (auto simp: pg_wf_def view_def dest: spec [of _ i])

lemma wf_attempt:
  assumes "pg_wf c db" and "a \<in> set (t_attempts db)"
  obtains r where "row_of db (a_job_id a) = Some r" "a \<in> set (attempts_of db (a_job_id a))"
    "a_id a = attemptID (a_job_id a) (a_attempt_number a)"
proof -
  have a: "a \<in> set (attempts_of db (a_job_id a))" using assms(2) by (simp add: attempts_of_def)
  then obtain r where r: "row_of db (a_job_id a) = Some r" using pg_wf_orphan [OF assms(1)] by force
  moreover have "attempt_ok (a_job_id a) r a" using a pg_wf_row(2) [OF assms(1) r] by (simp add: attempts_ok_def)
  then have "a_id a = attemptID (a_job_id a) (a_attempt_number a)" by (simp only: attempt_ok_def)
  ultimately show ?thesis using a that by blast
qed

lemma attemptID_inj:
  assumes "attemptID i n = attemptID k m" and "CHR ''#'' \<notin> set i" and "CHR ''#'' \<notin> set k"
  shows "i = k"
proof -
  have "takeWhile (\<lambda>x. x \<noteq> CHR ''#'') (attemptID u l) = u" if "CHR ''#'' \<notin> set u" for u l
  proof -
    have "\<forall>x \<in> set u. x \<noteq> CHR ''#''" using that by auto
    then show ?thesis by (simp add: attemptID_def takeWhile_append)
  qed
  then show ?thesis using assms by metis
qed

lemma attemptID_nonempty [simp]: "attemptID i n \<noteq> []" "[] \<noteq> attemptID i n"
  by (simp_all add: attemptID_def)

end
