(* ===== verification/Postgres_Moves.thy ===== *)
theory Postgres_Moves
  imports Postgres_Steps
begin

text \<open>
  Every transaction body of the PostgreSQL repository moves each job by at most one step of the
  machine of \<open>Postgres_Steps\<close>.
\<close>

section \<open>The open attempt\<close>

lemma upto_numbers_inj:
  assumes "map f xs = [1..n::int]" and "a \<in> set xs" and "b \<in> set xs" and "f a = f b"
  shows "a = b"
proof -
  have "distinct (map f xs)" using assms(1) by simp
  then show ?thesis using assms(2-4) by (simp add: distinct_map inj_on_def)
qed

lemma wf_attempt_number_pos:
  assumes "pg_wf c db" and "a \<in> set (attempts_of db i)"
  shows "1 \<le> a_attempt_number a"
proof -
  obtain r where r: "row_of db i = Some r" using assms pg_wf_orphan(1) by (cases "row_of db i") force+
  have "a_attempt_number a \<in> set (map a_attempt_number (attempts_of db i))" using assms(2) by simp
  also have "\<dots> = {1..j_attempt_count r}" using pg_wf_row(2) [OF assms(1) r] by (simp add: attempts_ok_def)
  finally show ?thesis by simp
qed

lemma same_attempt:
  assumes wf: "pg_wf c db" and a: "a \<in> set (attempts_of db i)" and b: "b \<in> set (attempts_of db i)"
    and n: "a_attempt_number a = a_attempt_number b"
  shows "a = b"
proof -
  obtain r where r: "row_of db i = Some r" using wf a pg_wf_orphan(1) by (cases "row_of db i") force+
  then have "map a_attempt_number (attempts_of db i) = [1..j_attempt_count r]"
    using pg_wf_row(2) [OF wf r] by (simp add: attempts_ok_def)
  then show ?thesis using upto_numbers_inj a b n by metis
qed

lemma open_attempt_unique:
  assumes wf: "pg_wf c db" and "a \<in> set (attempts_of db i)" "a_status a = AttemptRunning"
    and "b \<in> set (attempts_of db i)" "a_status b = AttemptRunning"
  shows "a = b"
proof -
  obtain r where r: "row_of db i = Some r" using wf assms(2) pg_wf_orphan(1) by (cases "row_of db i") force+
  have ok: "attempt_ok i r a" "attempt_ok i r b" using pg_wf_row(2) [OF wf r] assms by (simp_all add: attempts_ok_def)
  have "a_attempt_number a = j_attempt_count r" "a_attempt_number b = j_attempt_count r"
    using ok assms(3,5) by (simp_all add: attempt_ok_def)
  then show ?thesis using same_attempt [OF wf assms(2,4)] by simp
qed

lemma runningAttemptID_cong: "t_attempts db' = t_attempts db \<Longrightarrow> runningAttemptID i db' = runningAttemptID i db"
  by (simp add: runningAttemptID_def)

lemma runningAttemptID_update [simp]: "runningAttemptID i (update_jobs k P f db) = runningAttemptID i db"
  by (simp add: runningAttemptID_def)

lemma wf_no_hash:
  assumes "pg_wf c db" and "row_of db i = Some r" shows "CHR ''#'' \<notin> set i"
  using pg_wf_row(1) [OF assms] by (simp only: row_ok_def) blast

text \<open>The open attempt is the one the identifier names.\<close>

lemma runningAttemptID_iff:
  assumes wf: "pg_wf c db" and a: "a \<in> set (t_attempts db)"
  shows "a_id a = runningAttemptID i db \<longleftrightarrow> a_job_id a = i \<and> a_status a = AttemptRunning"
proof -
  obtain s where s: "row_of db (a_job_id a) = Some s" "a \<in> set (attempts_of db (a_job_id a))"
    "a_id a = attemptID (a_job_id a) (a_attempt_number a)" using wf_attempt [OF wf a] .
  let ?open = "filter (\<lambda>a. a_job_id a = i \<and> a_status a = AttemptRunning) (t_attempts db)"
  show ?thesis
  proof (cases "sort_key (\<lambda>a. - a_attempt_number a) ?open")
    case Nil
    then have "?open = []" using set_sort [of "\<lambda>a. - a_attempt_number a" ?open] by simp
    then have "\<not> (a_job_id a = i \<and> a_status a = AttemptRunning)" using a by (auto simp: filter_empty_conv)
    then show ?thesis using Nil s(3) by (simp add: runningAttemptID_def)
  next
    case (Cons h hs)
    then have "h \<in> set ?open" using set_sort [of "\<lambda>a. - a_attempt_number a" ?open] by auto
    then have h: "h \<in> set (t_attempts db)" "a_job_id h = i" "a_status h = AttemptRunning" "h \<in> set (attempts_of db i)"
      by (auto simp: attempts_of_def)
    obtain u where u: "row_of db i = Some u" "a_id h = attemptID i (a_attempt_number h)"
      using wf_attempt [OF wf h(1)] h(2) by metis
    have x: "runningAttemptID i db = a_id h" using Cons by (simp add: runningAttemptID_def)
    have "a = h" if "a_id a = a_id h"
    proof -
      have eq: "attemptID (a_job_id a) (a_attempt_number a) = attemptID i (a_attempt_number h)" using that s(3) u(2) by simp
      then have j: "a_job_id a = i" using attemptID_inj wf_no_hash [OF wf s(1)] wf_no_hash [OF wf u(1)] by blast
      then have "decimal (nat (a_attempt_number a)) = decimal (nat (a_attempt_number h))" using eq by (simp add: attemptID_def)
      then have "nat (a_attempt_number a) = nat (a_attempt_number h)" by (metis read_decimal)
      moreover have "1 \<le> a_attempt_number a" "1 \<le> a_attempt_number h"
        using wf_attempt_number_pos [OF wf] s(2) h(4) by blast+
      ultimately have "a_attempt_number a = a_attempt_number h" by linarith
      then show ?thesis using same_attempt [OF wf _ h(4)] s(2) j by simp
    qed
    moreover have "a = h" if "a_job_id a = i" "a_status a = AttemptRunning"
      using open_attempt_unique [OF wf _ that(2) h(4) h(3)] s(2) that(1) by simp
    ultimately show ?thesis using x h(2,3) by auto
  qed
qed

lemma attempts_of_update:
  assumes wf: "pg_wf c db" and f: "\<And>a. a_job_id (f a) = a_job_id a"
  shows "attempts_of (update_attempt (runningAttemptID i db) f db) k =
    (if k = i then end_open f (attempts_of db i) else attempts_of db k)"
proof -
  let ?x = "runningAttemptID i db"
  have "attempts_of (update_attempt ?x f db) k = map (\<lambda>a. if a_id a = ?x then f a else a) (attempts_of db k)"
    using f by (auto simp: attempts_of_def update_attempt_def filter_map o_def intro!: arg_cong [of _ _ "map _"] filter_cong)
  also have "\<dots> = map (\<lambda>a. if k = i \<and> a_status a = AttemptRunning then f a else a) (attempts_of db k)"
  proof (rule map_cong [OF HOL.refl])
    fix a assume "a \<in> set (attempts_of db k)"
    then have "a \<in> set (t_attempts db)" "a_job_id a = k" by (auto simp: attempts_of_def)
    then show "(if a_id a = ?x then f a else a) = (if k = i \<and> a_status a = AttemptRunning then f a else a)"
      using runningAttemptID_iff [OF wf, of a i] by auto
  qed
  finally show ?thesis by (cases "k = i") (simp_all add: end_open_def)
qed

lemma finishAttempt_ended: "finishAttempt now i st code msg = update_attempt i (ended now st code msg)"
  by (simp add: finishAttempt_def ended_def [abs_def])

lemma attempts_of_finish:
  assumes "pg_wf c db"
  shows "attempts_of (finishAttempt now (runningAttemptID i db) st code msg db) k =
    (if k = i then end_open (ended now st code msg) (attempts_of db i) else attempts_of db k)"
  by (simp add: finishAttempt_ended attempts_of_update [OF assms])

lemma attempts_of_cong: "t_attempts db' = t_attempts db \<Longrightarrow> attempts_of db' k = attempts_of db k"
  by (simp add: attempts_of_def)

lemma no_open_attempt:
  assumes wf: "pg_wf c db" and r: "row_of db i = Some r" and q: "\<not> active (j_state r)"
  shows "end_open f (attempts_of db i) = attempts_of db i" and "runningAttemptID i db = []"
proof -
  have closed: "a_status a \<noteq> AttemptRunning" if "a \<in> set (attempts_of db i)" for a
  proof -
    have "attempt_ok i r a" using pg_wf_row(2) [OF wf r] that by (simp add: attempts_ok_def)
    then show ?thesis using q by (auto simp: attempt_ok_def)
  qed
  then show "end_open f (attempts_of db i) = attempts_of db i" by (simp add: end_open_def map_idI)
  have "filter (\<lambda>a. a_job_id a = i \<and> a_status a = AttemptRunning) (t_attempts db) = []"
    using closed by (auto simp: filter_empty_conv attempts_of_def)
  then show "runningAttemptID i db = []" by (simp add: runningAttemptID_def)
qed

section \<open>Moves of one job\<close>

definition index_columns :: "tables \<Rightarrow> (string \<times> string option) list" where
  "index_columns db = map (\<lambda>r. (j_id r, j_idempotency_key r)) (t_jobs db)"

lemma index_columns_keep:
  assumes "index_columns db' = index_columns db" and "pg_wf c db"
  shows "distinct (map j_id (t_jobs db'))" "keys_unique db'"
proof -
  have ids: "map j_id (t_jobs d) = map fst (index_columns d)" for d by (simp add: index_columns_def)
  have keys: "keys_unique d \<longleftrightarrow> (\<forall>x \<in> set (index_columns d). \<forall>y \<in> set (index_columns d).
     snd x = snd y \<longrightarrow> snd x \<noteq> None \<longrightarrow> fst x = fst y)" for d
    by (simp add: keys_unique_def index_columns_def)
  show "distinct (map j_id (t_jobs db'))" using assms by (simp only: ids pg_wf_def)
  have "keys_unique db" using assms(2) by (simp only: pg_wf_def)
  then show "keys_unique db'" using assms(1) by (simp only: keys)
qed

lemma index_columns_update:
  "(\<And>r. j_id (f r) = j_id r \<and> j_idempotency_key (f r) = j_idempotency_key r) \<Longrightarrow>
   index_columns (update_jobs i P f db) = index_columns db"
  by (simp add: index_columns_def update_jobs_columns)

definition moves_only :: "codecs \<Rightarrow> string \<Rightarrow> tables \<Rightarrow> tables \<Rightarrow> bool" where
  "moves_only c i db db' \<longleftrightarrow> moves c db db' \<and> (\<forall>k. k \<noteq> i \<longrightarrow> view db' k = view db k)"

lemma moves_onlyD: "moves_only c i db db' \<Longrightarrow> moves c db db'"
  by (simp add: moves_only_def)

lemma moves_only_one:
  assumes "pg_wf c db" and "index_columns db' = index_columns db"
    and "\<And>k. k \<noteq> i \<Longrightarrow> view db' k = view db k" and "job_step c i (view db i) (view db' i)"
  shows "moves_only c i db db'"
  using assms index_columns_keep [OF assms(2,1)] unfolding moves_only_def moves_def by metis

lemmas moves_one = moves_only_one [THEN moves_onlyD]

text \<open>The end of an attempt together with the row and the event that go with it.\<close>

lemma moves_only_close:
  assumes wf: "pg_wf c db" and r: "row_of db i = Some r" and idx: "index_columns db' = index_columns db"
    and jobs: "\<And>k. row_of db' k = (if k = i then Some r' else row_of db k)"
    and att: "t_attempts db' = t_attempts (finishAttempt now (runningAttemptID i db) st code msg db)"
    and ev: "t_events db' = t_events db @ [e]" "e_job_id e = i"
    and fr: "frozen r' = frozen r" and lc: "lc_step (j_max_attempts r) (row_lc r) (row_lc r')"
    and row: "j_attempt_count r' = j_attempt_count r" "\<not> active (j_state r')" "released r' \<or> j_state r' = StateCompleted"
    and st: "st \<noteq> AttemptRunning" and ann: "announced (e_type e) = Some (j_state r')" "e_type e \<noteq> EventJobCreated"
  shows "moves_only c i db db'"
proof (rule moves_only_one [OF wf idx])
  have att': "attempts_of db' k = (if k = i then end_open (ended now st code msg) (attempts_of db i) else attempts_of db k)" for k
    using attempts_of_cong [OF att] attempts_of_finish [OF wf] by simp
  show "view db' k = view db k" if "k \<noteq> i" for k
    using that jobs att' ev by (simp add: view_def events_of_def)
  have "view db' i = (Some r', end_open (ended now st code msg) (attempts_of db i), events_of db i @ [e])"
    using jobs att' ev by (simp add: view_def events_of_def)
  then show "job_step c i (view db i) (view db' i)"
    using js_close [OF fr lc row st ann] r by (simp add: view_def)
qed

lemmas moves_close = moves_only_close [THEN moves_onlyD]

section \<open>Transitions of the owner\<close>

lemma frozen_simps [simp]:
  "frozen (r\<lparr> j_state := x1 \<rparr>) = frozen r" "frozen (r\<lparr> j_attempt_count := x2 \<rparr>) = frozen r"
  "frozen (r\<lparr> j_queued_at := x3 \<rparr>) = frozen r" "frozen (r\<lparr> j_started_at := x4 \<rparr>) = frozen r"
  "frozen (r\<lparr> j_completed_at := x4 \<rparr>) = frozen r" "frozen (r\<lparr> j_failed_at := x4 \<rparr>) = frozen r"
  "frozen (r\<lparr> j_current_worker_id := x5 \<rparr>) = frozen r" "frozen (r\<lparr> j_lease_until := x4 \<rparr>) = frozen r"
  "frozen (r\<lparr> j_error_message := x5 \<rparr>) = frozen r" "frozen (r\<lparr> j_artifact_id := x5 \<rparr>) = frozen r"
  "frozen (r\<lparr> j_progress_frames_done := x2 \<rparr>) = frozen r" "frozen (r\<lparr> j_progress_total_frames := x2 \<rparr>) = frozen r"
  "frozen (r\<lparr> j_progress_last_frame_at := x4 \<rparr>) = frozen r" "frozen (r\<lparr> j_progress_worker := x6 \<rparr>) = frozen r"
  by (simp_all add: frozen_def)

lemma frozen_rows [simp]:
  "frozen (failed_row now reason r) = frozen r" "frozen (requeued_row now reason r) = frozen r"
  "frozen (no_progress r) = frozen r" "frozen (progress_row now w pr r) = frozen r"
  "frozen (finalizing_row p c now w r) = frozen r" "frozen (claimed_job_row p c clk w n r) = frozen r"
  by (simp_all add: failed_row_def requeued_row_def no_progress_def progress_row_def finalizing_row_def
      claimed_job_row_def)

lemma frozen_index:
  assumes "\<And>r. frozen (f r) = frozen r"
  shows "j_id (f r) = j_id r" "j_idempotency_key (f r) = j_idempotency_key r"
  using frozen_eqD [OF assms] by blast+

lemma index_columns_frozen:
  assumes "\<And>r. frozen (f r) = frozen r"
  shows "index_columns (update_jobs i P f db) = index_columns db"
  by (rule index_columns_update) (simp add: frozen_index [of f, OF assms])

lemma index_columns_simps [simp]:
  "index_columns (db\<lparr> t_artifacts := x1 \<rparr>) = index_columns db" "index_columns (db\<lparr> t_attempts := x2 \<rparr>) = index_columns db"
  "index_columns (recordEvent now ty i a w pl db) = index_columns db" "index_columns (recordEvents evs db) = index_columns db"
  "index_columns (finishAttempt now j st code msg db) = index_columns db"
  "index_columns (update_attempt j f db) = index_columns db"
  by (simp_all add: index_columns_def)

lemma index_columns_cong: "t_jobs db' = t_jobs db \<Longrightarrow> index_columns db' = index_columns db"
  by (simp add: index_columns_def)

lemma persistArtifactTx_effect:
  assumes "persistArtifactTx c now i att a db = Inr (x, db')"
  shows "t_attempts db' = t_attempts db" "t_events db' = t_events db" "index_columns db' = index_columns db"
    and "row_of db' k = map_option (\<lambda>r. if k = i \<and> art_StorageKey a \<noteq> []
           then r\<lparr> j_artifact_id := Some (art_ID (with_default_id i a)) \<rparr> else r) (row_of db k)"
proof -
  let ?d = "if art_StorageKey a \<noteq> [] then insertArtifact c i (with_default_id i a) db else db"
  have d: "t_jobs db' = t_jobs ?d" "t_attempts db' = t_attempts ?d" "t_events db' = t_events ?d"
    using assms by (auto simp: persistArtifactTx_def tx_defs insertRenderTelemetry_def insertProcessingMetrics_def
        split: if_splits option.splits)
  show "t_attempts db' = t_attempts db" "t_events db' = t_events db" using d by (simp_all add: insertArtifact_def)
  show "index_columns db' = index_columns db"
    using index_columns_cong [OF d(1)] by (simp add: insertArtifact_def index_columns_update)
  have "row_of ?d k = map_option (\<lambda>r. if k = i \<and> art_StorageKey a \<noteq> []
           then r\<lparr> j_artifact_id := Some (art_ID (with_default_id i a)) \<rparr> else r) (row_of db k)"
    by (cases "row_of db k") (auto simp: insertArtifact_def)
  then show "row_of db' k = map_option (\<lambda>r. if k = i \<and> art_StorageKey a \<noteq> []
           then r\<lparr> j_artifact_id := Some (art_ID (with_default_id i a)) \<rparr> else r) (row_of db k)"
    using row_of_cong [OF d(1)] by simp
qed

text \<open>
  The shape that \<open>Complete\<close> and \<open>Rendered\<close> share: the conditional update, the end of the attempt, the
  event and the artifact.
\<close>

lemma finish_moves:
  assumes wf: "pg_wf c db"
    and tx: "tx_then (requireTransitionRows i w P f)
       (tx_bind (closeRunningAttempt now i st code msg) (\<lambda>attempt.
        tx_then (tx_write (recordEvent now ty i attempt w pl)) (persistArtifactTx c now i attempt art))) db = Inr (x, db')"
    and f: "\<And>r. frozen (f r) = frozen r" "\<And>r. j_attempt_count (f r) = j_attempt_count r"
    and P: "\<And>r. P r \<Longrightarrow> lc_step (j_max_attempts r) (row_lc r) (row_lc (f r))"
    and q: "\<And>r. \<not> active (j_state (f r))" "\<And>r. released (f r) \<or> j_state (f r) = StateCompleted"
    and st: "st \<noteq> AttemptRunning" and ann: "\<And>r. announced ty = Some (j_state (f r))" "ty \<noteq> EventJobCreated"
  shows "moves c db db'"
proof -
  obtain d1 where d1: "requireTransitionRows i w P f db = Inr ((), d1)" using tx by (auto simp: tx_defs split: sum.splits)
  obtain r where r: "row_of db i = Some r" "P r" "d1 = update_jobs i P f db"
    using requireTransitionRows_InrD [OF d1 pg_wf_ids [OF wf]] by blast
  let ?x = "runningAttemptID i db"
  have x: "runningAttemptID i d1 = ?x" using r(3) by simp
  let ?d3 = "recordEvent now ty i ?x w pl (finishAttempt now ?x st code msg d1)"
  have p: "persistArtifactTx c now i ?x art ?d3 = Inr (x, db')"
    using tx d1 x by (simp add: tx_defs closeRunningAttempt_def)
  note eff = persistArtifactTx_effect [OF p]
  let ?r' = "if art_StorageKey art \<noteq> [] then (f r)\<lparr> j_artifact_id := Some (art_ID (with_default_id i art)) \<rparr> else f r"
  have fid: "j_id (f r) = j_id r" for r by (rule frozen_index(1) [of f, OF f(1)])
  have jobs: "row_of db' k = (if k = i then Some ?r' else row_of db k)" for k
    unfolding eff(4) using r fid by (cases "row_of db k") auto
  have lc': "row_lc ?r' = row_lc (f r)" and rel: "released ?r' = released (f r)"
    by (simp_all add: row_lc_def released_def)
  show ?thesis
  proof (rule moves_close [OF wf r(1)])
    show "index_columns db' = index_columns db"
      using eff(3) r(3) index_columns_frozen [OF f(1)] by simp
    show "row_of db' k = (if k = i then Some ?r' else row_of db k)" for k by (rule jobs)
    show "t_attempts db' = t_attempts (finishAttempt now ?x st code msg db)"
      using eff(1) r(3) by (simp add: finishAttempt_def update_attempt_def)
    show "t_events db' = t_events db @ [event now ty i ?x w pl]" using eff(2) r(3) by simp
    show "lc_step (j_max_attempts r) (row_lc r) (row_lc ?r')" using P [OF r(2)] lc' by simp
  qed (use f q st ann rel in \<open>simp_all split: if_splits\<close>)
qed

lemma complete_moves:
  assumes "pg_wf c db" and "complete_tx c now i w art db = Inr (x, db')" shows "moves c db db'"
  using assms(2) unfolding complete_tx_def
  by (rule finish_moves [OF assms(1)]) (auto simp: owned_in_def row_lc_def)

lemma rendered_moves:
  assumes "pg_wf c db" and "rendered_tx c now i w art reason db = Inr (x, db')" shows "moves c db db'"
  using assms(2) unfolding rendered_tx_def
  by (rule finish_moves [OF assms(1)]) (auto simp: owned_in_def row_lc_def released_def)

lemma update_attempt_none:
  assumes "pg_wf c db" shows "t_attempts (update_attempt [] f db) = t_attempts db"
proof -
  have "a_id a \<noteq> []" if "a \<in> set (t_attempts db)" for a
    by (rule wf_attempt [OF assms that]) simp
  then show ?thesis by (simp add: update_attempt_def map_idI)
qed

text \<open>A row update with its event, and an attempt that is ended when there is an open one.\<close>

lemma simple_only_close:
  assumes wf: "pg_wf c db" and r: "row_of db i = Some r"
    and db': "t_jobs db' = t_jobs (update_jobs i (\<lambda>_. True) f db)"
      "t_attempts db' = t_attempts (finishAttempt now (runningAttemptID i db) st code msg db)"
      "t_events db' = t_events db @ [event now' ty i att w pl]"
    and f: "\<And>r. frozen (f r) = frozen r" "j_attempt_count (f r) = j_attempt_count r"
    and lc: "lc_step (j_max_attempts r) (row_lc r) (row_lc (f r))"
    and q: "\<not> active (j_state (f r))" "released (f r)"
    and st: "st \<noteq> AttemptRunning" and ann: "announced ty = Some (j_state (f r))" "ty \<noteq> EventJobCreated"
  shows "moves_only c i db db'"
proof (rule moves_only_close [OF wf r _ _ db'(2) db'(3)])
  show "index_columns db' = index_columns db"
    using index_columns_cong [OF db'(1)] index_columns_frozen [OF f(1)] by simp
  have fid: "j_id (f r) = j_id r" for r by (rule frozen_index(1) [of f, OF f(1)])
  show "row_of db' k = (if k = i then Some (f r) else row_of db k)" for k
    unfolding row_of_cong [OF db'(1)] using r fid by (cases "row_of db k") auto
qed (use f lc q st ann in simp_all)

lemmas simple_close = simple_only_close [THEN moves_onlyD]

lemma simple_close_eq:
  assumes wf: "pg_wf c db" and r: "row_of db i = Some r"
    and db': "db' = recordEvent now' ty i att w pl (update_jobs i (\<lambda>_. True) f
      (finishAttempt now (runningAttemptID i db) st code msg db))"
    and f: "\<And>r. frozen (f r) = frozen r" "j_attempt_count (f r) = j_attempt_count r"
    and lc: "lc_step (j_max_attempts r) (row_lc r) (row_lc (f r))"
    and q: "\<not> active (j_state (f r))" "released (f r)"
    and st: "st \<noteq> AttemptRunning" and ann: "announced ty = Some (j_state (f r))" "ty \<noteq> EventJobCreated"
  shows "moves c db db'"
  by (rule simple_close [OF wf r _ _ _ f lc q st ann, of db' now code msg now' att w pl])
    (simp_all add: db' update_jobs_def)

lemma lockRunning_InrD:
  assumes "lockRunningJobAttempts i w db = Inr (nm, db')" and "distinct (map j_id (t_jobs db))"
  obtains r where "row_of db i = Some r" "owned_in [StateRunning] w r"
    "nm = (j_attempt_count r, j_max_attempts r)" "db' = db"
proof -
  from assms(1) obtain r where r: "first_such (\<lambda>r. j_id r = i \<and> owned_in [StateRunning] w r) (t_jobs db) = Some r"
    "nm = (j_attempt_count r, j_max_attempts r)" "db' = db"
    by (auto simp: lockRunningJobAttempts_def split: option.splits)
  then have "r \<in> set (t_jobs db)" "j_id r = i" "owned_in [StateRunning] w r" by (auto dest: first_such_SomeD)
  then show ?thesis using that r in_jobs_iff [OF assms(2)] by auto
qed

lemma fail_moves:
  assumes wf: "pg_wf c db" and tx: "fail_tx now i w reason db = Inr (x, db')" shows "moves c db db'"
proof -
  obtain nm d where lk: "lockRunningJobAttempts i w db = Inr (nm, d)"
    using tx by (auto simp: fail_tx_def tx_defs split: sum.splits)
  obtain r where r: "row_of db i = Some r" "owned_in [StateRunning] w r"
    "nm = (j_attempt_count r, j_max_attempts r)" "d = db" using lockRunning_InrD [OF lk pg_wf_ids [OF wf]] .
  let ?perm = "ShouldFailPermanently (j_attempt_count r) (j_max_attempts r)"
  let ?f = "if ?perm then failed_row now reason else requeued_row now reason"
  let ?x = "runningAttemptID i db"
  have db': "db' = recordEvent now (if ?perm then EventJobFailed else EventJobRequeued) i ?x w
      [(''reason'', PayloadText reason)]
      (update_jobs i (\<lambda>_. True) ?f (finishAttempt now ?x AttemptFailed [] reason db))"
    using tx lk r(3,4) by (auto simp: fail_tx_def tx_defs Let_def markFailedTx_def split: if_splits)
  have q: "j_state r = StateRunning" using r(2) by (simp add: owned_in_def)
  show ?thesis
  proof (cases ?perm)
    case True
    show ?thesis
      by (rule simple_close_eq [OF wf r(1) db'])
        (use q True in \<open>simp_all add: row_lc_def released_def failed_row_def\<close>)
  next
    case False
    show ?thesis
      by (rule simple_close_eq [OF wf r(1) db'])
        (use q False in \<open>simp_all add: row_lc_def released_def requeued_row_def\<close>)
  qed
qed

lemma failPermanently_moves:
  assumes wf: "pg_wf c db" and tx: "failPermanently_tx now i w reason db = Inr (x, db')" shows "moves c db db'"
proof -
  obtain nm d where lk: "lockRunningJobAttempts i w db = Inr (nm, d)"
    using tx by (auto simp: failPermanently_tx_def tx_defs split: sum.splits)
  obtain r where r: "row_of db i = Some r" "owned_in [StateRunning] w r" "d = db"
    using lockRunning_InrD [OF lk pg_wf_ids [OF wf]] .
  let ?x = "runningAttemptID i db"
  have db': "db' = recordEvent now EventJobFailed i ?x w
      [(''reason'', PayloadText reason), (''permanent'', PayloadBool True)]
      (update_jobs i (\<lambda>_. True) (failed_row now reason) (finishAttempt now ?x AttemptFailed [] reason db))"
    using tx lk r(3) by (auto simp: failPermanently_tx_def tx_defs markFailedTx_def)
  show ?thesis
    by (rule simple_close_eq [OF wf r(1) db'])
      (use r(2) in \<open>simp_all add: owned_in_def row_lc_def released_def failed_row_def\<close>)
qed

lemma lockJobState_InrD:
  "lockJobState i db = Inr (q, db') \<Longrightarrow> \<exists>r. row_of db i = Some r \<and> q = j_state r \<and> db' = db"
  by (auto simp: lockJobState_def split: option.splits)

lemma retry_moves:
  assumes wf: "pg_wf c db" and tx: "tx_bind (lockJobState i) (retry_body now i) db = Inr (x, db')"
  shows "moves c db db'"
proof -
  obtain r where r: "row_of db i = Some r" and body: "retry_body now i (j_state r) db = Inr (x, db')"
    using tx by (auto simp: tx_bind_def split: sum.splits dest: lockJobState_InrD)
  then have q: "j_state r = StateFailed" by (auto simp: retry_body_def tx_defs split: if_splits)
  let ?f = "\<lambda>r. no_progress (r\<lparr> j_state := StatePending, j_error_message := None, j_queued_at := now,
                       j_current_worker_id := None, j_lease_until := None \<rparr>)"
  have db': "db' = recordEvent now EventJobRequeued i [] [] [(''action'', PayloadText ''retry'')]
      (update_jobs i (\<lambda>_. True) ?f db)"
    using body q by (auto simp: retry_body_def tx_defs)
  have x: "runningAttemptID i db = []" using no_open_attempt(2) [OF wf r] q by simp
  show ?thesis
    by (rule simple_close [OF wf r, where f = ?f and st = AttemptFailed and code = "[]" and msg = "[]" and now = now])
      (use q db' x in \<open>auto simp: row_lc_def released_def no_progress_def update_jobs_def finishAttempt_ended update_attempt_none [OF wf]\<close>)
qed

lemma cancel_moves:
  assumes wf: "pg_wf c db" and tx: "tx_bind (lockJobState i) (cancel_body now i) db = Inr (x, db')"
  shows "moves c db db'"
proof -
  obtain r where r: "row_of db i = Some r" and body: "cancel_body now i (j_state r) db = Inr (x, db')"
    using tx by (auto simp: tx_bind_def split: sum.splits dest: lockJobState_InrD)
  show ?thesis
  proof (cases "j_state r = StateCancelled")
    case True
    then have "db' = db" using body by (simp add: cancel_body_def tx_defs)
    then show ?thesis using moves_refl [OF wf] by simp
  next
    case False
    then have q: "\<not> IsTerminalState (j_state r)" using body by (auto simp: cancel_body_def tx_defs split: if_splits)
    let ?f = "\<lambda>r. no_progress (r\<lparr> j_state := StateCancelled, j_current_worker_id := None,
                       j_lease_until := None, j_error_message := None \<rparr>)"
    let ?x = "runningAttemptID i db"
    let ?d = "if ?x \<noteq> [] then finishAttempt now ?x AttemptCancelled ''cancelled'' ''cancelled by producer'' db else db"
    have db': "db' = recordEvent now EventJobCancelled i ?x [] [(''from'', PayloadState (j_state r))]
        (update_jobs i (\<lambda>_. True) ?f ?d)"
      using body q False by (auto simp: cancel_body_def tx_defs)
    have att: "t_attempts ?d = t_attempts (finishAttempt now ?x AttemptCancelled ''cancelled'' ''cancelled by producer'' db)"
      by (simp add: finishAttempt_ended update_attempt_none [OF wf])
    have jobs: "t_jobs ?d = t_jobs db" "t_events ?d = t_events db" by simp_all
    show ?thesis
    proof (rule simple_close [OF wf r, where f = ?f])
      show "t_jobs db' = t_jobs (update_jobs i (\<lambda>_. True) ?f db)" using db' jobs(1) by (simp add: update_jobs_def)
      show "t_attempts db' = t_attempts (finishAttempt now ?x AttemptCancelled ''cancelled'' ''cancelled by producer'' db)"
        using db' att by simp
      show "t_events db' = t_events db @ [event now EventJobCancelled i ?x [] [(''from'', PayloadState (j_state r))]]"
        using db' jobs(2) by simp
    qed (use q in \<open>auto simp: row_lc_def released_def no_progress_def IsCancelable_def\<close>)
  qed
qed

section \<open>Reports, finalization and poison\<close>

lemma renew_moves:
  assumes wf: "pg_wf c db" and tx: "renew_tx p c now clk i w db = Inr (x, db')" shows "moves c db db'"
proof -
  let ?P = "owned_in [StateRunning, StateFinalizing] w"
  let ?f = "\<lambda>r. r\<lparr> j_lease_until := Some (c_ts c (clk + p_lease p)) \<rparr>"
  let ?g = "\<lambda>a. a\<lparr> a_last_renewed_at := Some now \<rparr>"
  let ?x = "runningAttemptID i db"
  obtain d1 where d1: "requireTransitionRows i w ?P ?f db = Inr ((), d1)"
    using tx by (auto simp: renew_tx_def tx_defs split: sum.splits)
  obtain r where r: "row_of db i = Some r" "?P r" "d1 = update_jobs i ?P ?f db"
    using requireTransitionRows_InrD [OF d1 pg_wf_ids [OF wf]] by blast
  have db': "db' = recordEvent now EventLeaseRenewed i ?x w [] (update_attempt ?x ?g d1)"
    using tx d1 r(3) by (simp add: renew_tx_def tx_defs)
  have att: "attempts_of db' k = (if k = i then end_open ?g (attempts_of db i) else attempts_of db k)" for k
    using attempts_of_update [OF wf, of ?g i k] by (simp add: db' r(3) attempts_of_def update_attempt_def)
  have jobs: "row_of db' k = (if k = i then Some (?f r) else row_of db k)" for k
    using r by (cases "row_of db k") (auto simp: db')
  have ev: "events_of db' k = events_of db k @ (if k = i then [event now EventLeaseRenewed i ?x w []] else [])" for k
    by (simp add: db' r(3) events_of_def)
  have "job_step c i (Some r, attempts_of db i, events_of db i)
     (Some (?f r), end_open ?g (attempts_of db i), events_of db i @ [event now EventLeaseRenewed i ?x w []])"
    by (rule js_report [where now = now]) (use r(2) in \<open>auto simp: owned_in_def row_lc_def\<close>)
  then show ?thesis
    by (intro moves_one [OF wf, of _ i]) (simp_all add: view_def jobs att ev r(1), simp add: db' r(3) index_columns_update)
qed

text \<open>An update of one row alone.\<close>

lemma update_moves:
  assumes wf: "pg_wf c db" and r: "row_of db i = Some r" "P r"
    and f: "\<And>r. frozen (f r) = frozen r"
    and step: "\<And>ats es. job_step c i (Some r, ats, es) (Some (f r), ats, es)"
  shows "moves c db (update_jobs i P f db)"
proof (rule moves_one [OF wf])
  have fid: "j_id (f r) = j_id r" for r by (rule frozen_index(1) [of f, OF f(1)])
  show "index_columns (update_jobs i P f db) = index_columns db" by (rule index_columns_frozen [OF f])
  have jobs: "row_of (update_jobs i P f db) k = (if k = i then Some (f r) else row_of db k)" for k
    using r fid by (cases "row_of db k") auto
  show "view (update_jobs i P f db) k = view db k" if "k \<noteq> i" for k
    using that jobs by (simp add: view_def events_of_def)
  show "job_step c i (view db i) (view (update_jobs i P f db) i)"
    using step r jobs by (simp add: view_def events_of_def)
qed

text \<open>An update that hits no row.\<close>

lemma update_none:
  assumes "case row_of db i of None \<Rightarrow> True | Some r \<Rightarrow> \<not> P r" and "distinct (map j_id (t_jobs db))"
  shows "update_jobs i P f db = db"
proof -
  have "\<not> (j_id r = i \<and> P r)" if "r \<in> set (t_jobs db)" for r
    using assms that in_jobs_iff [OF assms(2), of r] by auto
  then have "map (\<lambda>r. if j_id r = i \<and> P r then f r else r) (t_jobs db) = t_jobs db" by (intro map_idI) auto
  then show ?thesis by (simp add: update_jobs_def)
qed

lemma update_moves_or_not:
  assumes wf: "pg_wf c db"
    and f: "\<And>r. frozen (f r) = frozen r"
    and step: "\<And>r ats es. row_of db i = Some r \<Longrightarrow> P r \<Longrightarrow> job_step c i (Some r, ats, es) (Some (f r), ats, es)"
  shows "moves c db (update_jobs i P f db)"
proof (cases "\<exists>r. row_of db i = Some r \<and> P r")
  case True
  then show ?thesis using update_moves [OF wf _ _ f step] by blast
next
  case False
  then have "update_jobs i P f db = db"
    by (intro update_none [OF _ pg_wf_ids [OF wf]]) (auto split: option.splits)
  then show ?thesis using moves_refl [OF wf] by simp
qed

lemma finalization_moves:
  assumes wf: "pg_wf c db" and tx: "finalization_tx p c now i w db = Inr (n, db')" shows "moves c db db'"
proof -
  have "db' = update_jobs i (\<lambda>r. j_state r \<in> {StatePending, StateRunning}) (finalizing_row p c now w) db"
    using tx by (simp add: finalization_tx_def Let_def)
  then show ?thesis
    using js_finalize by (auto simp: finalizing_row_def row_lc_def intro!: update_moves_or_not [OF wf])
qed

lemma progress_moves:
  assumes wf: "pg_wf c db"
    and tx: "requireTransitionRows i w (owned_in [StateRunning] w) (progress_row now w pr) db = Inr (x, db')"
  shows "moves c db db'"
proof -
  obtain r where r: "row_of db i = Some r" "owned_in [StateRunning] w r"
    "db' = update_jobs i (owned_in [StateRunning] w) (progress_row now w pr) db"
    using requireTransitionRows_InrD [OF tx pg_wf_ids [OF wf]] .
  have lease: "j_lease_until r \<noteq> None" using pg_wf_row(1) [OF wf r(1)] r(2) by (auto simp: row_ok_def owned_in_def)
  have "job_step c i (Some r, ats, es) (Some (progress_row now w pr r), ats, es)" for ats es
    using js_report [of r "progress_row now w pr r" "[]" ats ats now c i es] r(2) lease
    by (simp add: owned_in_def progress_row_def row_lc_def)
  then show ?thesis unfolding r(3)
    by (intro update_moves [of c db i r "owned_in [StateRunning] w" "progress_row now w pr", OF wf r(1) r(2)]) simp_all
qed

text \<open>No row that the repository wrote is poisoned: the poisoning statements are never reached.\<close>

lemma wf_decodes:
  assumes "pg_wf c db" and "row_of db i = Some r"
  obtains fr assets where "decode_row c r = Inr (fr, assets)"
proof -
  have "\<not> isl (decode_row c r)" using pg_wf_row(1) [OF assms] by (simp only: row_ok_def) blast
  then show ?thesis using that by (cases "decode_row c r") auto
qed

lemma Get_cases:
  assumes "pg_wf c db"
  shows "snd (pg_Get c fate now mid i db) \<in> {db, mid db}"
proof (cases "row_of db i")
  case (Some r)
  obtain fr assets where "decode_row c r = Inr (fr, assets)" using wf_decodes [OF assms Some] .
  then show ?thesis using Some by (simp add: pg_Get_def)
qed (simp add: pg_Get_def)

section \<open>Claims\<close>

lemma claim_query_SomeD:
  assumes "claim_query c locked state clk db = Some r"
  shows "r \<in> set (t_jobs db)" "claim_where c locked state clk db r"
    and "\<And>s. s \<in> set (t_jobs db) \<Longrightarrow> claim_where c locked state clk db s \<Longrightarrow> j_queued_at r \<le> j_queued_at s"
proof -
  let ?L = "filter (claim_where c locked state clk db) (t_jobs db)"
  obtain rs where s: "sort_key j_queued_at ?L = r # rs"
    using assms by (auto simp: claim_query_def split: list.splits)
  have m: "set (r # rs) = set ?L" using s set_sort by metis
  then have "r \<in> set ?L" by auto
  then show "r \<in> set (t_jobs db)" "claim_where c locked state clk db r" by auto
  have "sorted (map j_queued_at (r # rs))" using s sorted_sort_key [of j_queued_at ?L] by simp
  then show "j_queued_at r \<le> j_queued_at s"
    if "s \<in> set (t_jobs db)" "claim_where c locked state clk db s" for s
  proof -
    have "s \<in> set (r # rs)" using that m by simp
    then show ?thesis using \<open>sorted (map j_queued_at (r # rs))\<close> by auto
  qed
qed

lemma claim_query_None_iff:
  "claim_query c locked state clk db = None \<longleftrightarrow> (\<forall>r \<in> set (t_jobs db). \<not> claim_where c locked state clk db r)"
proof -
  let ?L = "filter (claim_where c locked state clk db) (t_jobs db)"
  have "sort_key j_queued_at ?L = [] \<longleftrightarrow> ?L = []" by (metis length_sort length_0_conv)
  then show ?thesis by (auto simp: claim_query_def filter_empty_conv split: list.splits)
qed

text \<open>The attempts of a job are numbered without gaps, so the larger of the two numbers is never needed.\<close>

lemma foldr_max_upto: "0 \<le> n \<Longrightarrow> foldr max [1..n] (0::int) = n"
proof -
  assume n: "0 \<le> n"
  have *: "foldr max xs (0::int) = Max (insert 0 (set xs))" for xs :: "int list"
    by (induction xs) (simp_all add: insert_commute)
  show ?thesis using n by (auto simp: * intro!: Max_eqI)
qed

lemma claim_attempt_number_eq:
  assumes "pg_wf c db" and "row_of db (j_id r) = Some r"
  shows "claim_attempt_number r db = j_attempt_count r + 1"
proof -
  have "map a_attempt_number (attempts_of db (j_id r)) = [1..j_attempt_count r]"
    using pg_wf_row(2) [OF assms] by (simp add: attempts_ok_def)
  moreover have "0 \<le> j_attempt_count r" using pg_wf_row(1) [OF assms] by (simp add: row_ok_def)
  ultimately have "maxRecordedAttempt (j_id r) db = j_attempt_count r"
    by (simp add: maxRecordedAttempt_def attempts_of_def [symmetric] foldr_max_upto)
  then show ?thesis by (simp add: claim_attempt_number_def)
qed

lemma createAttempt_succeeds:
  assumes wf: "pg_wf c db" and r: "row_of db i = Some r" and n: "j_attempt_count r < n"
  shows "\<not> list_ex (\<lambda>a. a_id a = attemptID i n \<or> a_job_id a = i \<and> a_attempt_number a = n) (t_attempts db)"
proof -
  have False if a: "a \<in> set (t_attempts db)" and eq: "a_id a = attemptID i n \<or> a_job_id a = i \<and> a_attempt_number a = n" for a
  proof -
    obtain s where s: "row_of db (a_job_id a) = Some s" "a \<in> set (attempts_of db (a_job_id a))"
      "a_id a = attemptID (a_job_id a) (a_attempt_number a)" using wf_attempt [OF wf a] .
    have j: "a_job_id a = i"
      using eq s(3) attemptID_inj [of "a_job_id a" "a_attempt_number a" i n] wf_no_hash [OF wf s(1)] wf_no_hash [OF wf r] by auto
    then have "attempts_ok i r (attempts_of db i)" using pg_wf_row(2) [OF wf r] by simp
    then have m: "set (map a_attempt_number (attempts_of db i)) = {1..j_attempt_count r}" by (simp add: attempts_ok_def)
    then have le: "1 \<le> a_attempt_number a" "a_attempt_number a \<le> j_attempt_count r"
      using s(2) j by (auto simp: set_eq_iff image_iff)
    then have "attemptID i (a_attempt_number a) = attemptID i n" using eq s(3) j n by auto
    then have "nat (a_attempt_number a) = nat n" by (simp add: attemptID_def) (metis read_decimal)
    then show False using le n by simp
  qed
  then show ?thesis by (auto simp: list_ex_iff)
qed

text \<open>The attempt that a claim opens.\<close>

definition opened_attempt :: "codecs \<Rightarrow> gotime \<Rightarrow> string \<Rightarrow> string \<Rightarrow> int \<Rightarrow> attempt_row" where
  "opened_attempt c clk w i n =
     \<lparr> a_id = attemptID i n, a_job_id = i, a_attempt_number = n, a_worker_id = Some w,
       a_status = AttemptRunning, a_started_at = c_ts c clk, a_lease_started_at = Some (c_ts c clk),
       a_last_renewed_at = None, a_finished_at = None, a_error_code = None, a_error_message = None \<rparr>"

lemma claim_tx_Some:
  assumes wf: "pg_wf c db" and q: "claim_query c locked state clk db = Some r" and dec: "decode_row c r = Inr (fr, assets)"
  shows "claim_tx p c now clk locked w state db =
    Inr (ClaimGot (claimed_job p clk w (j_attempt_count r + 1) r fr assets) (j_artifact_id r),
      recordEvent now EventJobClaimed (j_id r) (attemptID (j_id r) (j_attempt_count r + 1)) w []
         (update_jobs (j_id r) (\<lambda>_. True) (claimed_job_row p c clk w (j_attempt_count r + 1))
           (db\<lparr> t_attempts := t_attempts db @ [opened_attempt c clk w (j_id r) (j_attempt_count r + 1)] \<rparr>)))"
proof -
  have r: "row_of db (j_id r) = Some r" using claim_query_SomeD(1) [OF q] in_jobs_iff [OF pg_wf_ids [OF wf]] by simp
  have cr: "createAttempt c (j_id r) (j_attempt_count r + 1) w clk db =
      Inr ((), db\<lparr> t_attempts := t_attempts db @ [opened_attempt c clk w (j_id r) (j_attempt_count r + 1)] \<rparr>)"
    unfolding createAttempt_def opened_attempt_def
    using createAttempt_succeeds [OF wf r, of "j_attempt_count r + 1"] by (simp only: if_False)
  have n: "claim_attempt_number r db = j_attempt_count r + 1" by (rule claim_attempt_number_eq [OF wf r])
  show ?thesis by (simp add: claim_tx_def tx_defs q dec cr n)
qed

lemma claim_tx_cases [consumes 3, case_names none got]:
  assumes wf: "pg_wf c db" and state: "\<forall>st. state = Some st \<longrightarrow> IsClaimable st"
    and tx: "claim_tx p c now clk locked w state db = Inr (out, db')"
  obtains (none) "claim_query c locked state clk db = None" "out = ClaimNothing" "db' = db"
  | (got) r fr assets where "claim_query c locked state clk db = Some r" "row_of db (j_id r) = Some r"
      "IsClaimable (j_state r)" "decode_row c r = Inr (fr, assets)"
      "out = ClaimGot (claimed_job p clk w (j_attempt_count r + 1) r fr assets) (j_artifact_id r)"
      "db' = recordEvent now EventJobClaimed (j_id r) (attemptID (j_id r) (j_attempt_count r + 1)) w []
         (update_jobs (j_id r) (\<lambda>_. True) (claimed_job_row p c clk w (j_attempt_count r + 1))
           (db\<lparr> t_attempts := t_attempts db @ [opened_attempt c clk w (j_id r) (j_attempt_count r + 1)] \<rparr>))"
proof (cases "claim_query c locked state clk db")
  case None
  then have "out = ClaimNothing" "db' = db" using tx by (simp_all add: claim_tx_def tx_defs)
  then show ?thesis by (rule none [OF None])
next
  case (Some r)
  note q = claim_query_SomeD [OF Some]
  have r: "row_of db (j_id r) = Some r" using q(1) in_jobs_iff [OF pg_wf_ids [OF wf]] by simp
  obtain fr assets where dec: "decode_row c r = Inr (fr, assets)" using wf_decodes [OF wf r] .
  have cl: "IsClaimable (j_state r)"
    using q(2) state by (auto simp: claim_where_def IsClaimable_iff [symmetric] split: option.splits)
  show ?thesis using tx claim_tx_Some [OF wf Some dec] by (intro got [OF Some r cl dec]) simp_all
qed

lemma claim_moves:
  assumes wf: "pg_wf c db" and state: "\<forall>st. state = Some st \<longrightarrow> IsClaimable st"
    and tx: "claim_tx p c now clk locked w state db = Inr (out, db')"
  shows "moves c db db'"
  using wf state tx
proof (cases rule: claim_tx_cases)
  case none
  then show ?thesis using moves_refl [OF wf] by simp
next
  case (got r fr assets)
  let ?i = "j_id r" and ?n = "j_attempt_count r + 1"
  let ?f = "claimed_job_row p c clk w ?n"
  let ?a = "opened_attempt c clk w ?i ?n"
  let ?e = "event now EventJobClaimed ?i (attemptID ?i ?n) w []"
  have fid: "j_id (?f s) = j_id s" for s by (simp add: claimed_job_row_def)
  have jobs: "row_of db' k = (if k = ?i then Some (?f r) else row_of db k)" for k
    using got(2) fid by (cases "row_of db k") (auto simp: got(6))
  have att: "attempts_of db' k = attempts_of db k @ (if k = ?i then [?a] else [])" for k
    by (simp add: got(6) attempts_of_def opened_attempt_def)
  have ev: "events_of db' k = events_of db k @ (if k = ?i then [?e] else [])" for k
    by (simp add: got(6) events_of_def)
  have "job_step c ?i (Some r, attempts_of db ?i, events_of db ?i)
      (Some (?f r), attempts_of db ?i @ [?a], events_of db ?i @ [?e])"
    by (rule js_claim) (use got(3) in \<open>simp_all add: opened_attempt_def claimed_job_row_def row_lc_def event_def nullIfEmpty_def\<close>)
  then show ?thesis
    by (intro moves_one [OF wf, of _ ?i])
      (simp_all add: view_def jobs att ev got(2), simp add: got(6) index_columns_update fid claimed_job_row_def)
qed

section \<open>Submission\<close>

text \<open>
  What the model relies on of \<open>encoding/json\<close> and of JSONB columns: what was encoded can be decoded,
  a frame range without loss.
\<close>

definition json_decodable :: "codecs \<Rightarrow> bool" where
  "json_decodable c \<longleftrightarrow>
     (\<forall>fr. c_jsonb c (c_putRange c fr) \<noteq> [] \<and> c_getRange c (c_jsonb c (c_putRange c fr)) = Some fr) \<and>
     (\<forall>xs. c_getManifest c (c_jsonb c (c_putManifest c xs)) \<noteq> None)"

lemma decode_inserted:
  assumes "json_decodable c" and "prepareJobRow c job = Inr row"
  shows "\<exists>assets. decode_row c (inserted_row p c now job row) = Inr (job_FrameRange job, assets)"
proof -
  have m: "jr_manifest row = c_putManifest c (job_Assets job)"
    using assms(2) by (auto simp: prepareJobRow_def split: sum.splits)
  obtain xs where xs: "c_getManifest c (c_jsonb c (c_putManifest c (job_Assets job))) = Some xs"
    using assms(1) unfolding json_decodable_def by blast
  have "decodeFrameRange c (j_frame_range (inserted_row p c now job row)) = Inr (job_FrameRange job)"
    using assms(1) by (cases "job_FrameRange job") (simp_all add: decodeFrameRange_def inserted_row_def json_decodable_def)
  moreover have "\<exists>assets. decodeAssets c (j_input_manifest (inserted_row p c now job row)) = Inr assets"
    using xs m by (simp add: decodeAssets_def inserted_row_def)
  ultimately show ?thesis by (auto simp: decode_row_def)
qed

text \<open>The row of a submission, as the machine of a job begins.\<close>

definition fresh_row :: "codecs \<Rightarrow> Job \<Rightarrow> job_row \<Rightarrow> bool" where
  "fresh_row c job r \<longleftrightarrow> j_id r = job_ID job \<and> j_state r = StatePending \<and> j_attempt_count r = 0 \<and>
     released r \<and> j_artifact_id r = None \<and> \<not> isl (decode_row c r)"

lemma fresh_inserted:
  assumes "json_decodable c" and "prepareJobRow c job = Inr row"
  shows "fresh_row c job (inserted_row p c now job row)"
  using decode_inserted [OF assms, of p now] by (auto simp: fresh_row_def inserted_row_def released_def)

lemma keys_unique_snoc:
  assumes "keys_unique db" and "j_idempotency_key r = None \<or> (\<forall>s \<in> set (t_jobs db). j_idempotency_key s \<noteq> j_idempotency_key r)"
  shows "keys_unique (db\<lparr> t_jobs := t_jobs db @ [r] \<rparr>)"
  unfolding keys_unique_def
proof (intro ballI impI)
  fix x y assume xy: "x \<in> set (t_jobs (db\<lparr> t_jobs := t_jobs db @ [r] \<rparr>))" "y \<in> set (t_jobs (db\<lparr> t_jobs := t_jobs db @ [r] \<rparr>))"
    and k: "j_idempotency_key x = j_idempotency_key y" "j_idempotency_key x \<noteq> None"
  have "x \<in> set (t_jobs db) \<or> x = r" "y \<in> set (t_jobs db) \<or> y = r" using xy by auto
  moreover have "\<not> (x \<in> set (t_jobs db) \<and> y = r)" "\<not> (x = r \<and> y \<in> set (t_jobs db))"
    using assms(2) k by auto
  ultimately show "j_id x = j_id y" using assms(1) k unfolding keys_unique_def by blast
qed

lemma insertJobRowOnly_InrD:
  assumes "insertJobRowOnly p c now job db = Inr (x, db')" and "json_decodable c"
    and "distinct (map j_id (t_jobs db))" "keys_unique db"
  obtains r where "db' = db\<lparr> t_jobs := t_jobs db @ [r] \<rparr>" "fresh_row c job r"
    "distinct (map j_id (t_jobs db'))" "keys_unique db'"
proof -
  obtain row where row: "prepareJobRow c job = Inr row"
    using assms(1) by (auto simp: insertJobRowOnly_def split: sum.splits)
  let ?r = "inserted_row p c now job row"
  have db': "db' = db\<lparr> t_jobs := t_jobs db @ [?r] \<rparr>" and new: "\<forall>s \<in> set (t_jobs db). j_id s \<noteq> job_ID job"
    and key: "job_IdempotencyKey job = [] \<or> (\<forall>s \<in> set (t_jobs db). j_idempotency_key s \<noteq> Some (job_IdempotencyKey job))"
    using assms(1) row by (auto simp: insertJobRowOnly_def list_ex_iff split: if_splits)
  have id: "j_id ?r = job_ID job" and k: "j_idempotency_key ?r = nullIfEmpty (job_IdempotencyKey job)"
    by (simp_all add: inserted_row_def)
  show ?thesis
  proof (rule that [OF db' fresh_inserted [OF assms(2) row]])
    show "distinct (map j_id (t_jobs db'))" using db' assms(3) new id by auto
    show "keys_unique db'"
      unfolding db' by (rule keys_unique_snoc [OF assms(4)]) (use key in \<open>auto simp: k nullIfEmpty_def\<close>)
  qed
qed

lemma insert_rows_InrD:
  assumes "insert_rows p c now jobs db = Inr (x, db')" and "json_decodable c"
    and "distinct (map j_id (t_jobs db))" "keys_unique db"
  shows "\<exists>rs. db' = db\<lparr> t_jobs := t_jobs db @ rs \<rparr> \<and> list_all2 (fresh_row c) jobs rs \<and>
    distinct (map j_id (t_jobs db')) \<and> keys_unique db'"
  using assms
proof (induction jobs arbitrary: db)
  case Nil
  then show ?case by (intro exI [of _ "[]"]) simp
next
  case (Cons job jobs)
  obtain d where d: "insertJobRowOnly p c now job db = Inr ((), d)" "insert_rows p c now jobs d = Inr (x, db')"
    using Cons.prems(1) by (auto split: sum.splits)
  obtain r where r: "d = db\<lparr> t_jobs := t_jobs db @ [r] \<rparr>" "fresh_row c job r"
    "distinct (map j_id (t_jobs d))" "keys_unique d"
    using insertJobRowOnly_InrD [OF d(1) Cons.prems(2-4)] .
  obtain rs where "db' = d\<lparr> t_jobs := t_jobs d @ rs \<rparr>" "list_all2 (fresh_row c) jobs rs"
    "distinct (map j_id (t_jobs db'))" "keys_unique db'"
    using Cons.IH [OF d(2) Cons.prems(2) r(3,4)] by blast
  then show ?case using r(1,2) by (intro exI [of _ "r # rs"]) simp
qed

lemma fresh_rows_lookup:
  "list_all2 (fresh_row c) jobs rs \<Longrightarrow> distinct (map job_ID jobs) \<Longrightarrow> job \<in> set jobs \<Longrightarrow>
   \<exists>r. first_such (\<lambda>r. j_id r = job_ID job) rs = Some r \<and> fresh_row c job r"
proof (induction jobs rs rule: list_all2_induct)
  case (Cons j js r rs)
  then show ?case by (cases "j = job") (auto simp: fresh_row_def)
qed simp

lemma created_events:
  assumes "distinct (map job_ID jobs)"
  shows "filter (\<lambda>e. e_job_id e = k) (map (\<lambda>job. event now EventJobCreated (job_ID job) [] [] []) jobs)
    = (if k \<in> job_ID ` set jobs then [event now EventJobCreated k [] [] []] else [])"
  using assms by (induction jobs) auto

lemma first_such_append: "first_such P (xs @ ys) = (case first_such P xs of None \<Rightarrow> first_such P ys | Some x \<Rightarrow> Some x)"
  by (induction xs) auto

lemma insert_moves:
  assumes wf: "pg_wf c db" and json: "json_decodable c" and ids: "distinct (map job_ID jobs)"
    "\<forall>job \<in> set jobs. job_ID job \<noteq> [] \<and> CHR ''#'' \<notin> set (job_ID job)"
    and tx: "insert_rows p c now jobs db = Inr (x, d)"
    and db': "db' = recordEvents (map (\<lambda>job. event now EventJobCreated (job_ID job) [] [] []) jobs) d"
  shows "moves c db db'"
proof -
  obtain rs where rs: "d = db\<lparr> t_jobs := t_jobs db @ rs \<rparr>" "list_all2 (fresh_row c) jobs rs"
    "distinct (map j_id (t_jobs d))" "keys_unique d"
    using insert_rows_InrD [OF tx json] wf by (auto simp: pg_wf_def)
  have rs_ids: "map j_id rs = map job_ID jobs"
    using rs(2) by (induction jobs rs rule: list_all2_induct) (auto simp: fresh_row_def)
  have step: "view db' k = view db k \<or> job_step c k (view db k) (view db' k)" for k
  proof (cases "k \<in> job_ID ` set jobs")
    case False
    moreover have "j_id ` set rs = job_ID ` set jobs" using arg_cong [OF rs_ids, of set] by simp
    ultimately have "\<forall>r \<in> set rs. j_id r \<noteq> k" by blast
    then have "first_such (\<lambda>r. j_id r = k) rs = None" by (simp add: first_such_None_iff)
    then have "row_of db' k = row_of db k"
      by (simp add: db' rs(1) row_of_def first_such_append split: option.split)
    moreover have "events_of db' k = events_of db k"
      using created_events [OF ids(1), of k now] False by (simp only: db' rs(1) events_of_def recordEvents_other filter_append if_False) simp
    moreover have "attempts_of db' k = attempts_of db k" by (simp add: db' rs(1) attempts_of_def)
    ultimately show ?thesis by (simp add: view_def)
  next
    case True
    then obtain job where job: "job \<in> set jobs" "k = job_ID job" by auto
    have "k \<in> set (map j_id rs)" using job rs_ids by simp
    moreover have "set (map j_id (t_jobs db)) \<inter> set (map j_id rs) = {}" using rs(3) unfolding rs(1) by simp
    ultimately have "\<forall>s \<in> set (t_jobs db). j_id s \<noteq> k" by auto
    then have none: "row_of db k = None" by (simp add: row_of_def first_such_None_iff)
    obtain r where r: "first_such (\<lambda>r. j_id r = k) rs = Some r" "fresh_row c job r"
      using fresh_rows_lookup [OF rs(2) ids(1) job(1)] job(2) by auto
    have "view db' k = (Some r, [], [event now EventJobCreated k [] [] []])"
      using pg_wf_orphan [OF wf none] none r(1) True created_events [OF ids(1), of k now]
      by (simp add: db' rs(1) view_def row_of_def first_such_append events_of_def attempts_of_def)
    moreover have "view db k = (None, [], [])" using pg_wf_orphan [OF wf none] none by (simp add: view_def)
    moreover have "job_step c k (None, [], []) (Some r, [], [event now EventJobCreated k [] [] []])"
      using r(2) ids(2) job by (intro js_insert) (auto simp: fresh_row_def)
    ultimately show ?thesis by simp
  qed
  have "keys_unique db'" using rs(4) unfolding keys_unique_def db' recordEvents_other .
  moreover have "distinct (map j_id (t_jobs db'))" using rs(3) by (simp add: db')
  ultimately show ?thesis unfolding moves_def using step by blast
qed

lemma valid_ids:
  assumes "ValidateChunk U job = Inr ()"
  shows "CHR ''#'' \<notin> set (job_ID job)"
proof
  assume "CHR ''#'' \<in> set (job_ID job)"
  then have "id_ascii_ok (of_char (CHR ''#'')) \<or> RuneSelf \<le> of_char (CHR ''#'')"
    using ValidateChunk_Inr [OF assms] ValidateJobID_bytes [of U "job_ID job"] by blast
  then show False by (simp add: id_ascii_ok_def RuneSelf_def)
qed

lemma insertJobRow_as_batch:
  "insertJobRow p c now job db = tx_then (insert_rows p c now [job])
     (tx_write (recordEvents (map (\<lambda>job. event now EventJobCreated (job_ID job) [] [] []) [job]))) db"
  by (simp add: insertJobRow_def tx_defs recordEvent_def split: sum.split)

lemma batch_moves:
  assumes wf: "pg_wf c db" and json: "json_decodable c"
    and ids: "distinct (map job_ID jobs)" "\<forall>job \<in> set jobs. job_ID job \<noteq> [] \<and> ValidateChunk U job = Inr ()"
    and tx: "tx_then (insert_rows p c now jobs)
       (tx_write (recordEvents (map (\<lambda>job. event now EventJobCreated (job_ID job) [] [] []) jobs))) db = Inr (x, db')"
  shows "moves c db db'"
proof -
  obtain d where d: "insert_rows p c now jobs db = Inr ((), d)"
    "db' = recordEvents (map (\<lambda>job. event now EventJobCreated (job_ID job) [] [] []) jobs) d"
    using tx by (auto simp: tx_defs split: sum.splits)
  have "\<forall>job \<in> set jobs. job_ID job \<noteq> [] \<and> CHR ''#'' \<notin> set (job_ID job)" using ids(2) valid_ids by blast
  then show ?thesis using insert_moves [OF wf json ids(1) _ d] by blast
qed

section \<open>The sweep\<close>

definition flushed :: "tables \<times> event_row list \<Rightarrow> tables" where
  "flushed st = recordEvents (snd st) (fst st)"

lemma flushed_view [simp]:
  "row_of (flushed st) = row_of (fst st)" "attempts_of (flushed st) i = attempts_of (fst st) i"
  "runningAttemptID i (flushed st) = runningAttemptID i (fst st)" "t_jobs (flushed st) = t_jobs (fst st)"
  "t_attempts (flushed st) = t_attempts (fst st)" "t_events (flushed st) = t_events (fst st) @ snd st"
  by (simp_all add: flushed_def attempts_of_def runningAttemptID_def)

lemma sweep_one_moves:
  assumes wf: "pg_wf c (flushed st)" and r: "row_of (fst st) (j_id e) = Some e"
    and q: "active (j_state e)"
  shows "moves_only c (j_id e) (flushed st) (flushed (sweep_one now st e))"
proof -
  obtain db evs where st: "st = (db, evs)" by (cases st)
  let ?i = "j_id e"
  let ?x = "runningAttemptID ?i db"
  have r': "row_of (flushed st) ?i = Some e" using r by simp
  show ?thesis
  proof (cases "ShouldFailPermanently (j_attempt_count e) (j_max_attempts e)")
    case True
    show ?thesis
    proof (rule simple_only_close [OF wf r', where f = "failed_row now ''lease expired, max attempts reached''"])
      show "t_events (flushed (sweep_one now st e)) = t_events (flushed st) @
          [event now EventJobFailed ?i ?x [] [(''reason'', PayloadText ''lease expired, max attempts reached'')]]"
        using True by (simp add: st sweep_one_def Let_def)
      show "t_jobs (flushed (sweep_one now st e)) =
          t_jobs (update_jobs ?i (\<lambda>_. True) (failed_row now ''lease expired, max attempts reached'') (flushed st))"
        using True by (simp add: st sweep_one_def Let_def update_jobs_def)
      show "t_attempts (flushed (sweep_one now st e)) =
          t_attempts (finishAttempt now (runningAttemptID ?i (flushed st)) AttemptLeaseExpired [] ''lease expired'' (flushed st))"
        using True by (simp add: st sweep_one_def Let_def finishAttempt_ended update_attempt_def)
    qed (use q in \<open>auto simp: row_lc_def released_def failed_row_def\<close>)
  next
    case False
    let ?f = "\<lambda>r. r\<lparr> j_state := StatePending, j_current_worker_id := None, j_lease_until := None, j_queued_at := now \<rparr>"
    show ?thesis
    proof (rule simple_only_close [OF wf r', where f = ?f])
      show "t_events (flushed (sweep_one now st e)) = t_events (flushed st) @
          [event now EventJobRequeued ?i ?x [] [(''reason'', PayloadText ''lease expired'')]]"
        using False by (simp add: st sweep_one_def Let_def)
      show "t_jobs (flushed (sweep_one now st e)) = t_jobs (update_jobs ?i (\<lambda>_. True) ?f (flushed st))"
        using False by (simp add: st sweep_one_def Let_def update_jobs_def)
      show "t_attempts (flushed (sweep_one now st e)) =
          t_attempts (finishAttempt now (runningAttemptID ?i (flushed st)) AttemptLeaseExpired [] ''lease expired'' (flushed st))"
        using False by (simp add: st sweep_one_def Let_def finishAttempt_ended update_attempt_def)
    qed (use q False in \<open>auto simp: row_lc_def released_def\<close>)
  qed
qed

lemma moves_only_compose:
  assumes "moves c db d" and "moves_only c i d d'" and "view d i = view db i"
  shows "moves c db d'"
  using assms unfolding moves_only_def moves_def by metis

lemma sweep_moves:
  assumes wf: "pg_wf c db" and es: "distinct (map j_id es)" "\<forall>e \<in> set es. row_of db (j_id e) = Some e \<and> active (j_state e)"
  shows "moves c db (flushed (foldl (sweep_one now) (db, []) es)) \<and>
    (\<forall>k. k \<notin> j_id ` set es \<longrightarrow> view (flushed (foldl (sweep_one now) (db, []) es)) k = view db k)"
  using es
proof (induction es rule: rev_induct)
  case Nil
  then show ?case using moves_refl [OF wf] by (simp add: flushed_def recordEvents_def view_def)
next
  case (snoc e es)
  let ?st = "foldl (sweep_one now) (db, []) es"
  have IH: "moves c db (flushed ?st)" "\<forall>k. k \<notin> j_id ` set es \<longrightarrow> view (flushed ?st) k = view db k"
    using snoc by auto
  have new: "j_id e \<notin> j_id ` set es" using snoc.prems(1) by simp
  then have v: "view (flushed ?st) (j_id e) = view db (j_id e)" using IH(2) by blast
  then have "row_of (fst ?st) (j_id e) = Some e" using snoc.prems(2) by (simp add: view_def)
  then have one: "moves_only c (j_id e) (flushed ?st) (flushed (sweep_one now ?st e))"
    using sweep_one_moves [OF moves_wf [OF IH(1) wf]] snoc.prems(2) by simp
  show ?case
    using moves_only_compose [OF IH(1) one v] one IH(2) by (auto simp: moves_only_def)
qed

lemma requeue_moves:
  assumes wf: "pg_wf c db" and tx: "requeue_tx c now locked deadline db = Inr (n, db')"
  shows "moves c db db'"
proof -
  let ?es = "filter (expired_filter c locked deadline) (t_jobs db)"
  have db': "db' = flushed (foldl (sweep_one now) (db, []) ?es)"
    using tx by (auto simp: requeue_tx_def Let_def flushed_def split: prod.splits)
  have "distinct (map j_id ?es)" using pg_wf_ids [OF wf] by (simp add: distinct_map_filter)
  moreover have "\<forall>e \<in> set ?es. row_of db (j_id e) = Some e \<and> active (j_state e)"
    using in_jobs_iff [OF pg_wf_ids [OF wf]] by (auto simp: expired_filter_def)
  ultimately show ?thesis using sweep_moves [OF wf] db' by simp
qed

end
