(* ===== verification/Postgres_Runs.thy ===== *)
theory Postgres_Runs
  imports Postgres_Moves Queue_Guarantees "HOL-Library.Multiset" "HOL-Library.Countable"
begin

text \<open>
  The PostgreSQL repository as a transition system, and what holds along its runs. A run is any
  sequence of transactions with any fates, interleaved with permutations of the rows of the job
  table (SQL does not fix the order in which a query meets them).
\<close>

section \<open>Runs\<close>

datatype pg_call =
    TSubmit gotime Job
  | TSubmitBatch gotime "Job list"
  | TGet gotime string
  | TClaim gotime gotime "string \<Rightarrow> bool" string "State option"
  | TClaimFinalization gotime string string
  | TComplete gotime string string Artifact
  | TRendered gotime string string Artifact string
  | TFail gotime string string string
  | TFailPermanently gotime string string string
  | TRenew gotime gotime string string
  | TSetProgress gotime string string Progress
  | TRetry gotime string
  | TCancel gotime string
  | TRequeueExpired gotime "string \<Rightarrow> bool" gotime
  | TRegister gotime Worker
  | THeartbeat gotime string
  | TReorder "job_row list"

definition nobody :: "tables \<Rightarrow> tables" where "nobody db = db"

lemma nobody_eq [simp]: "nobody db = db"
  by (simp add: nobody_def)

text \<open>An operation of several statements is a call for each of them, so nobody acts in between.\<close>

primrec pg_exec :: "PgRepository \<Rightarrow> codecs \<Rightarrow> tx_fate \<Rightarrow> pg_call \<Rightarrow> tables \<Rightarrow> tables" where
  "pg_exec p c fate (TSubmit now job) db = snd (pg_Submit p c fate now job db)"
| "pg_exec p c fate (TSubmitBatch now jobs) db = snd (pg_SubmitBatch p c fate now jobs db)"
| "pg_exec p c fate (TGet now i) db = snd (pg_Get c fate now nobody i db)"
| "pg_exec p c fate (TClaim now clk locked w st) db = snd (pg_ClaimState p c fate now clk locked nobody w st db)"
| "pg_exec p c fate (TClaimFinalization now i w) db =
     (if i = [] \<or> w = [] then db else snd (withTx fate (finalization_tx p c now i w) db))"
| "pg_exec p c fate (TComplete now i w a) db = snd (pg_Complete c fate now i w a db)"
| "pg_exec p c fate (TRendered now i w a reason) db = snd (pg_Rendered c fate now i w a reason db)"
| "pg_exec p c fate (TFail now i w reason) db = snd (pg_Fail fate now i w reason db)"
| "pg_exec p c fate (TFailPermanently now i w reason) db = snd (pg_FailPermanently fate now i w reason db)"
| "pg_exec p c fate (TRenew now clk i w) db = snd (pg_Renew p c fate now clk i w db)"
| "pg_exec p c fate (TSetProgress now i w pr) db = snd (pg_SetProgress fate now nobody i w pr db)"
| "pg_exec p c fate (TRetry now i) db = snd (pg_Retry fate now i db)"
| "pg_exec p c fate (TCancel now i) db = snd (pg_Cancel fate now i db)"
| "pg_exec p c fate (TRequeueExpired now locked deadline) db = snd (pg_RequeueExpired c fate now locked deadline db)"
| "pg_exec p c fate (TRegister now w) db = snd (pg_Register fate now w db)"
| "pg_exec p c fate (THeartbeat now k) db = snd (pg_Heartbeat fate now k db)"
| "pg_exec p c fate (TReorder rows) db = (if mset rows = mset (t_jobs db) then db\<lparr> t_jobs := rows \<rparr> else db)"

inductive pg_step :: "PgRepository \<Rightarrow> codecs \<Rightarrow> tables \<Rightarrow> pg_call \<Rightarrow> tables \<Rightarrow> bool" for p c where
  pg_step: "pg_step p c db call (pg_exec p c fate call db)"

inductive_cases pg_stepE: "pg_step p c db call db'"

inductive pg_run :: "PgRepository \<Rightarrow> codecs \<Rightarrow> tables \<Rightarrow> pg_call list \<Rightarrow> tables \<Rightarrow> bool" for p c db where
  pg_run_refl: "pg_run p c db [] db"
| pg_run_step: "pg_run p c db cs db' \<Longrightarrow> pg_step p c db' call db'' \<Longrightarrow> pg_run p c db (cs @ [call]) db''"

section \<open>Every call moves every job by at most one step\<close>

lemma withTx_moves:
  assumes "pg_wf c db" and "\<And>x db'. f db = Inr (x, db') \<Longrightarrow> moves c db db'"
  shows "moves c db (snd (withTx fate f db))"
  using withTx_cases [of fate f db] moves_refl [OF assms(1)] assms(2) by metis

lemma submit_moves:
  assumes wf: "pg_wf c db" and json: "json_decodable c"
  shows "moves c db (snd (pg_Submit p c fate now job db))"
proof (cases "job_ID job = [] \<or> (\<exists>e. ValidateChunk (c_unicode c) job = Inl e)")
  case True
  then show ?thesis using moves_refl [OF wf] by (auto simp: pg_Submit_def)
next
  case False
  then obtain u where ok: "job_ID job \<noteq> []" "ValidateChunk (c_unicode c) job = Inr u"
    by (cases "ValidateChunk (c_unicode c) job") auto
  have "moves c db db'" if "insertJobRow p c now job db = Inr (x, db')" for x db'
    using batch_moves [OF wf json, of "[job]" "c_unicode c" p now x db'] that ok
    by (simp add: insertJobRow_as_batch)
  then have "moves c db (snd (withTx fate (insertJobRow p c now job) db))" by (rule withTx_moves [OF wf])
  then show ?thesis using ok by (simp add: pg_Submit_def)
qed

lemma submitBatch_moves:
  assumes wf: "pg_wf c db" and json: "json_decodable c"
  shows "moves c db (snd (pg_SubmitBatch p c fate now jobs db))"
proof (cases "ValidateJobBatch (c_unicode c) jobs")
  case (Inl e)
  then show ?thesis using moves_refl [OF wf] by (simp add: pg_SubmitBatch_def)
next
  case (Inr u)
  then have ids: "distinct (map job_ID jobs)"
    "\<forall>job \<in> set jobs. job_ID job \<noteq> [] \<and> ValidateChunk (c_unicode c) job = Inr ()"
    using validate_batch_from_Inr [of "c_unicode c" "[]" jobs] by (auto simp: ValidateJobBatch_def split: if_splits)
  let ?f = "tx_then (insert_rows p c now jobs)
    (tx_write (recordEvents (map (\<lambda>job. event now EventJobCreated (job_ID job) [] [] []) jobs)))"
  have "moves c db (snd (withTx fate ?f db))"
    by (rule withTx_moves [OF wf], erule batch_moves [OF wf json ids])
  then show ?thesis using Inr moves_refl [OF wf] by (simp add: pg_SubmitBatch_def split: option.split)
qed

lemma claimState_moves:
  assumes wf: "pg_wf c db"
  shows "moves c db (snd (pg_ClaimState p c fate now clk locked nobody w st db))"
proof (cases "\<exists>q. st = Some q \<and> \<not> IsClaimable q")
  case True
  then show ?thesis using moves_refl [OF wf] by (auto simp: pg_ClaimState_def)
next
  case False
  then have "moves c db (snd (withTx fate (claim_tx p c now clk locked w st) db))"
    by (intro withTx_moves [OF wf] claim_moves [OF wf]) auto
  moreover have "snd (pg_ClaimState p c fate now clk locked nobody w st db)
      = snd (withTx fate (claim_tx p c now clk locked w st) db)"
    using False by (auto simp: pg_ClaimState_def split: option.splits sum.splits prod.splits pg_claim_outcome.splits)
  ultimately show ?thesis by simp
qed

lemma setProgress_moves:
  assumes wf: "pg_wf c db"
  shows "moves c db (snd (pg_SetProgress fate now nobody i w pr db))"
proof -
  let ?m = "withTx fate (requireTransitionRows i w (owned_in [StateRunning] w) (progress_row now w pr)) db"
  have "snd (pg_SetProgress fate now nobody i w pr db) \<in> {db, snd ?m}"
    by (auto simp: pg_SetProgress_def Let_def split: option.splits sum.splits prod.splits pg_error.splits)
  moreover have "moves c db (snd ?m)" by (intro withTx_moves [OF wf] progress_moves [OF wf])
  ultimately show ?thesis using moves_refl [OF wf] by auto
qed

lemma reorder_moves:
  assumes wf: "pg_wf c db" and rows: "mset rows = mset (t_jobs db)"
  shows "moves c db (db\<lparr> t_jobs := rows \<rparr>)"
proof -
  let ?d = "db\<lparr> t_jobs := rows \<rparr>"
  have d: "distinct (map j_id rows)" using pg_wf_ids [OF wf] rows by (metis mset_eq_imp_distinct_iff mset_map)
  have s: "set rows = set (t_jobs db)" using rows by (metis set_mset_mset)
  have "row_of ?d i = row_of db i" for i
  proof (cases "row_of db i")
    case None
    then have "\<forall>r \<in> set rows. j_id r \<noteq> i" using s by (simp add: row_of_def first_such_None_iff)
    then have "row_of ?d i = None" by (simp add: row_of_def first_such_None_iff)
    then show ?thesis using None by simp
  next
    case (Some r)
    then have "r \<in> set (t_jobs ?d)" "j_id r = i" using s by (auto simp: row_of_def dest: first_such_SomeD)
    then show ?thesis using in_jobs_iff [of ?d r] d Some by simp
  qed
  then have "view ?d i = view db i" for i by (simp add: view_def attempts_of_def events_of_def)
  have e: "set (t_jobs ?d) = set (t_jobs db)" using s by simp
  have "keys_unique ?d = keys_unique db" unfolding keys_unique_def e ..
  then show ?thesis using d wf \<open>\<And>i. view ?d i = view db i\<close> unfolding moves_def pg_wf_def by simp
qed

lemma same_views_moves:
  assumes wf: "pg_wf c db" and eq: "t_jobs db' = t_jobs db" "t_attempts db' = t_attempts db" "t_events db' = t_events db"
  shows "moves c db db'"
proof -
  have "view db' i = view db i" for i by (simp add: view_def row_of_def attempts_of_def events_of_def eq)
  moreover have "keys_unique db' = keys_unique db" unfolding keys_unique_def eq ..
  ultimately show ?thesis using wf eq(1) unfolding moves_def pg_wf_def by simp
qed

lemma withTx_same:
  assumes "\<And>x db'. f db = Inr (x, db') \<Longrightarrow> g db' = g db"
  shows "g (snd (withTx fate f db)) = g db"
  using withTx_cases [of fate f db] assms by metis

lemma worker_moves:
  assumes "pg_wf c db"
  shows "moves c db (snd (pg_Register fate now w db))" "moves c db (snd (pg_Heartbeat fate now k db))"
proof -
  have r: "g (snd (pg_Register fate now w db)) = g db" if "\<And>x. g (db\<lparr> t_workers := x \<rparr>) = g db" for g :: "tables \<Rightarrow> 'a"
    unfolding pg_Register_def by (simp, intro impI withTx_same) (auto simp: tx_defs that split: if_splits)
  show "moves c db (snd (pg_Register fate now w db))"
    by (rule same_views_moves [OF assms]; rule r; simp)
  have h: "g (snd (pg_Heartbeat fate now k db)) = g db"
    if "\<And>x y. g (db\<lparr> t_workers := x, t_heartbeats := y \<rparr>) = g db" for g :: "tables \<Rightarrow> 'b"
    unfolding pg_Heartbeat_def by (rule withTx_same) (auto simp: that split: if_splits)
  show "moves c db (snd (pg_Heartbeat fate now k db))"
    by (rule same_views_moves [OF assms]; rule h; simp)
qed

lemma pg_exec_moves:
  assumes wf: "pg_wf c db" and json: "json_decodable c"
  shows "moves c db (pg_exec p c fate call db)"
proof (cases call)
  case (TSubmit now job)
  then show ?thesis using submit_moves [OF wf json] by simp
next
  case (TSubmitBatch now jobs)
  then show ?thesis using submitBatch_moves [OF wf json] by simp
next
  case (TGet now i)
  then show ?thesis using Get_cases [OF wf, of fate now nobody i] moves_refl [OF wf] by auto
next
  case (TClaim now clk locked w st)
  then show ?thesis using claimState_moves [OF wf] by simp
next
  case (TClaimFinalization now i w)
  have "moves c db (snd (withTx fate (finalization_tx p c now i w) db))"
    by (rule withTx_moves [OF wf], erule finalization_moves [OF wf])
  then show ?thesis using TClaimFinalization moves_refl [OF wf] by simp
next
  case (TSetProgress now i w pr)
  then show ?thesis using setProgress_moves [OF wf] by simp
next
  case (TRegister now w)
  then show ?thesis using worker_moves(1) [OF wf] by simp
next
  case (THeartbeat now k)
  then show ?thesis using worker_moves(2) [OF wf] by simp
next
  case (TReorder rows)
  then show ?thesis using reorder_moves [OF wf] moves_refl [OF wf] by simp
next
  case (TComplete now i w a)
  show ?thesis unfolding TComplete pg_exec.simps pg_Complete_def
    by (rule withTx_moves [OF wf], erule complete_moves [OF wf])
next
  case (TRendered now i w a reason)
  show ?thesis unfolding TRendered pg_exec.simps pg_Rendered_def
    by (rule withTx_moves [OF wf], erule rendered_moves [OF wf])
next
  case (TFail now i w reason)
  show ?thesis unfolding TFail pg_exec.simps pg_Fail_def
    by (rule withTx_moves [OF wf], erule fail_moves [OF wf])
next
  case (TFailPermanently now i w reason)
  show ?thesis unfolding TFailPermanently pg_exec.simps pg_FailPermanently_def
    by (rule withTx_moves [OF wf], erule failPermanently_moves [OF wf])
next
  case (TRenew now clk i w)
  show ?thesis unfolding TRenew pg_exec.simps pg_Renew_def
    by (rule withTx_moves [OF wf], erule renew_moves [OF wf])
next
  case (TRetry now i)
  show ?thesis unfolding TRetry pg_exec.simps pg_Retry_def withJobState_def
    by (rule withTx_moves [OF wf], erule retry_moves [OF wf])
next
  case (TCancel now i)
  show ?thesis unfolding TCancel pg_exec.simps pg_Cancel_def withJobState_def
    by (rule withTx_moves [OF wf], erule cancel_moves [OF wf])
next
  case (TRequeueExpired now locked deadline)
  show ?thesis unfolding TRequeueExpired pg_exec.simps pg_RequeueExpired_def
    by (rule withTx_moves [OF wf], erule requeue_moves [OF wf])
qed

lemma pg_step_moves: "pg_step p c db call db' \<Longrightarrow> pg_wf c db \<Longrightarrow> json_decodable c \<Longrightarrow> moves c db db'"
  by (erule pg_stepE) (simp add: pg_exec_moves)

lemma pg_run_wf: "pg_run p c db cs db' \<Longrightarrow> pg_wf c db \<Longrightarrow> json_decodable c \<Longrightarrow> pg_wf c db'"
  by (induction rule: pg_run.induct) (auto intro: moves_wf pg_step_moves)

section \<open>What a run preserves\<close>

inductive_cases job_step_SomeE: "job_step c i (Some r, ats, es) v'"

lemma job_step_row:
  assumes "job_step c i (Some r, ats, es) v'" and "row_ok c i r"
  obtains r' where "fst v' = Some r'" "frozen r' = frozen r"
    "row_lc r' = row_lc r \<or> lc_step (j_max_attempts r) (row_lc r) (row_lc r')"
  using assms
proof (elim job_step_SomeE, goal_cases)
  case (1 r' w a e)
  then show ?case by (auto simp: row_lc_def)
next
  case (2 r' es' ats' now)
  then show ?case by auto
next
  case (3 r')
  then show ?case by (auto simp: row_lc_def)
next
  case (4 r' st e now code msg)
  then show ?case by auto
next
  case (5 r' es' ats' now code msg)
  then show ?case by (simp add: row_ok_def)
qed

lemma moves_row:
  assumes m: "moves c db db'" and wf: "pg_wf c db" and r: "row_of db i = Some r"
  obtains r' where "row_of db' i = Some r'" "frozen r' = frozen r"
    "row_lc r' = row_lc r \<or> lc_step (j_max_attempts r) (row_lc r) (row_lc r')"
proof (cases "view db' i = view db i")
  case True
  then show ?thesis using that [of r] r by (simp add: view_def)
next
  case False
  then have "job_step c i (view db i) (view db' i)" using m by (simp add: moves_def) metis
  then have step: "job_step c i (Some r, attempts_of db i, events_of db i) (view db' i)" unfolding view_def r .
  show ?thesis by (rule job_step_row [OF step pg_wf_row(1) [OF wf r]]) (use that in \<open>simp add: view_def\<close>)
qed

lemma pg_run_row:
  assumes "pg_run p c db cs db'" and "pg_wf c db" "json_decodable c" "row_of db i = Some r"
  shows "\<exists>r'. row_of db' i = Some r' \<and> frozen r' = frozen r"
  using assms
proof (induction rule: pg_run.induct)
  case (pg_run_step cs d call d')
  then obtain r' where r': "row_of d i = Some r'" "frozen r' = frozen r" by blast
  have wf: "pg_wf c d" using pg_run_wf pg_run_step by blast
  obtain r'' where "row_of d' i = Some r''" "frozen r'' = frozen r'"
    using moves_row [OF pg_step_moves [OF pg_run_step.hyps(2) wf pg_run_step.prems(2)] wf r'(1)] by blast
  then show ?case using r'(2) by simp
qed simp

text \<open>
  The attempts of one moment continued at a later one: none is lost, none that has ended changes,
  and no attempt changes its identifier, number, worker or start.
\<close>

definition continues :: "attempt_row list \<Rightarrow> attempt_row list \<Rightarrow> bool" where
  "continues ats ats' \<longleftrightarrow> length ats \<le> length ats' \<and>
     (\<forall>n < length ats. (a_status (ats ! n) \<noteq> AttemptRunning \<longrightarrow> ats' ! n = ats ! n) \<and>
        a_id (ats' ! n) = a_id (ats ! n) \<and> a_attempt_number (ats' ! n) = a_attempt_number (ats ! n) \<and>
        a_worker_id (ats' ! n) = a_worker_id (ats ! n) \<and> a_started_at (ats' ! n) = a_started_at (ats ! n))"

lemma continues_refl [simp]: "continues ats ats"
  by (simp add: continues_def)

lemma continues_trans: "continues x y \<Longrightarrow> continues y z \<Longrightarrow> continues x z"
proof -
  assume xy: "continues x y" and yz: "continues y z"
  have l: "length x \<le> length y" "length y \<le> length z" using xy yz by (simp_all add: continues_def)
  have "(a_status (x ! n) \<noteq> AttemptRunning \<longrightarrow> z ! n = x ! n) \<and> a_id (z ! n) = a_id (x ! n) \<and>
      a_attempt_number (z ! n) = a_attempt_number (x ! n) \<and> a_worker_id (z ! n) = a_worker_id (x ! n) \<and>
      a_started_at (z ! n) = a_started_at (x ! n)" if n: "n < length x" for n
  proof -
    have 1: "a_status (x ! n) \<noteq> AttemptRunning \<longrightarrow> y ! n = x ! n" "a_id (y ! n) = a_id (x ! n)"
      "a_attempt_number (y ! n) = a_attempt_number (x ! n)" "a_worker_id (y ! n) = a_worker_id (x ! n)"
      "a_started_at (y ! n) = a_started_at (x ! n)" using xy n unfolding continues_def by blast+
    have 2: "a_status (y ! n) \<noteq> AttemptRunning \<longrightarrow> z ! n = y ! n" "a_id (z ! n) = a_id (y ! n)"
      "a_attempt_number (z ! n) = a_attempt_number (y ! n)" "a_worker_id (z ! n) = a_worker_id (y ! n)"
      "a_started_at (z ! n) = a_started_at (y ! n)" using yz n l(1) unfolding continues_def by auto
    show ?thesis using 1 2 by (cases "a_status (x ! n) = AttemptRunning") simp_all
  qed
  then show "continues x z" using l unfolding continues_def by simp
qed

lemma continues_snoc: "continues ats (ats @ [a])"
  by (simp add: continues_def nth_append)

lemma continues_end_open:
  assumes "\<And>a. a_id (f a) = a_id a \<and> a_attempt_number (f a) = a_attempt_number a \<and>
      a_worker_id (f a) = a_worker_id a \<and> a_started_at (f a) = a_started_at a"
  shows "continues ats (end_open f ats)"
  using assms by (simp add: continues_def end_open_def)

lemma job_step_history:
  "job_step c i v v' \<Longrightarrow> continues (fst (snd v)) (fst (snd v')) \<and> prefix (snd (snd v)) (snd (snd v'))"
proof (induction rule: job_step.induct)
  case (js_report r r' es' ats' ats now es)
  then show ?case using continues_end_open [of "\<lambda>a. a\<lparr> a_last_renewed_at := Some now \<rparr>" ats] by auto
next
  case (js_close r' r st e ats es now code msg)
  then show ?case using continues_end_open [of "ended now st code msg" ats] by auto
next
  case (js_poison r r' es' ats' ats now code msg es)
  then show ?case using continues_end_open [of "ended now AttemptFailed code msg" ats] by auto
qed (simp_all add: continues_snoc)

lemma moves_history:
  assumes "moves c db db'"
  shows "continues (attempts_of db i) (attempts_of db' i) \<and> prefix (events_of db i) (events_of db' i)"
proof (cases "view db' i = view db i")
  case False
  then have "job_step c i (view db i) (view db' i)" using assms unfolding moves_def by blast
  then show ?thesis using job_step_history by (fastforce simp: view_def)
qed (simp add: view_def)

lemma pg_run_history:
  assumes "pg_run p c db cs db'" and "pg_wf c db" "json_decodable c"
  shows "continues (attempts_of db i) (attempts_of db' i) \<and> prefix (events_of db i) (events_of db' i)"
  using assms
proof (induction rule: pg_run.induct)
  case (pg_run_step cs d call d')
  have wf: "pg_wf c d" using pg_run_wf pg_run_step by blast
  show ?case
    using pg_run_step.IH [OF pg_run_step.prems] moves_history [OF pg_step_moves [OF pg_run_step.hyps(2) wf pg_run_step.prems(2)], of i]
      continues_trans prefix_order.trans by blast
qed simp

section \<open>A sample\<close>

definition sample_codecs :: codecs where
  "sample_codecs =
     \<lparr> c_ts = (\<lambda>t. t), c_valid = (\<lambda>b. True), c_jsonb = (\<lambda>b. b),
       c_putManifest = (\<lambda>xs. ''{}''), c_getManifest = (\<lambda>b. Some []),
       c_putRange = (\<lambda>fr. replicate (Suc (to_nat (fr_Start fr, fr_End fr))) (CHR ''x'')),
       c_getRange = (\<lambda>b. case from_nat (length b - 1) of (s, e) \<Rightarrow> Some \<lparr> fr_Start = s, fr_End = e \<rparr>),
       c_putFacts = (\<lambda>f. None), c_getFacts = (\<lambda>b. None), c_putProvenance = (\<lambda>v. None),
       c_getProvenance = (\<lambda>b. None), c_telemetrySchema = (\<lambda>b. Some ''s''), c_errText = (\<lambda>e. ''corrupt''),
       c_collate = (\<lambda>s. s), c_unicode = (\<lambda>n. False), c_toLower = (\<lambda>s. s) \<rparr>"

lemma sample_json: "json_decodable sample_codecs"
  by (simp add: json_decodable_def sample_codecs_def)

definition sample_pg :: PgRepository where "sample_pg = pg_New 60 3"

text \<open>One job, submitted at 5 and claimed at 7.\<close>

definition sample_submitted :: tables where
  "sample_submitted = pg_exec sample_pg sample_codecs TxCommits (TSubmit 5 (sample_job ''a'')) empty_tables"

definition sample_running :: tables where
  "sample_running =
     pg_exec sample_pg sample_codecs TxCommits (TClaim 7 7 (\<lambda>i. False) ''w'' None) sample_submitted"

lemma sample_runs:
  "pg_run sample_pg sample_codecs empty_tables [TSubmit 5 (sample_job ''a'')] sample_submitted"
  "pg_run sample_pg sample_codecs sample_submitted [TClaim 7 7 (\<lambda>i. False) ''w'' None] sample_running"
  unfolding sample_submitted_def sample_running_def
  by (rule pg_run_step [where cs = "[]", OF pg_run_refl pg_step, simplified])+

end
