(* ===== verification/Postgres_Guarantees.thy ===== *)
theory Postgres_Guarantees
  imports Postgres_Runs
begin

text \<open>
  What producers, workers and operators rely on of the PostgreSQL repository: the lifecycle, the
  history, the ledger, fencing, the order of claims, idempotent submission, the round trip of a
  job; and where it differs from the in-memory repository and from its own comments.
\<close>

section \<open>The sample, evaluated\<close>

lemmas sample_pg_simps =
  pg_Submit_def ValidateChunk_def ValidateJobMetadata_def ValidateJobID_def id_ascii_ok_def RuneSelf_def
  withTx_def tx_defs insertJobRow_def insertJobRowOnly_def prepareJobRow_def normalizeJSON_def
  normalizeJobType_def sample_job_def JobSchemaV1_def JobSchemaVersionV1_def

definition sample_row :: job_row where
  "sample_row = inserted_row sample_pg sample_codecs 5 (sample_job ''a'')
     \<lparr> jr_jobType = ''render_segment'', jr_schema = ''renderinggen.job'', jr_version = 1, jr_plan = ''{}'',
       jr_manifest = ''{}'' \<rparr>"

lemma sample_submit:
  "pg_Submit sample_pg sample_codecs TxCommits 5 (sample_job ''a'') empty_tables =
     (Inr (), recordEvent 5 EventJobCreated ''a'' [] [] [] (empty_tables\<lparr> t_jobs := [sample_row] \<rparr>))"
  by (simp add: sample_pg_simps sample_row_def empty_tables_def sample_codecs_def JobTypeRenderSegment_def)

lemma sample_submitted_eq:
  "sample_submitted = recordEvent 5 EventJobCreated ''a'' [] [] [] (empty_tables\<lparr> t_jobs := [sample_row] \<rparr>)"
  by (simp add: sample_submitted_def sample_submit)

lemma sample_row_fields:
  "j_id sample_row = ''a''" "j_state sample_row = StatePending" "j_attempt_count sample_row = 0"
  "j_max_attempts sample_row = 3" "j_parent_job_id sample_row = None" "j_not_before sample_row = None"
  "j_idempotency_key sample_row = None" "j_artifact_id sample_row = None" "j_queued_at sample_row = 5"
  by (simp_all add: sample_row_def inserted_row_def sample_job_def sample_pg_def pg_New_def)

lemma sample_submitted_row: "row_of sample_submitted ''a'' = Some sample_row"
  by (simp add: sample_submitted_eq row_of_def sample_row_fields)

lemma sample_submitted_wf: "pg_wf sample_codecs sample_submitted"
  by (rule pg_run_wf [OF sample_runs(1) pg_wf_empty sample_json])

lemma sample_running_wf: "pg_wf sample_codecs sample_running"
  by (rule pg_run_wf [OF sample_runs(2) sample_submitted_wf sample_json])

definition sample_claimed_row :: job_row where
  "sample_claimed_row = claimed_job_row sample_pg sample_codecs 7 ''w'' 1 sample_row"

lemma sample_claim_query: "claim_query sample_codecs (\<lambda>i. False) None 7 sample_submitted = Some sample_row"
  by (simp add: claim_query_def claim_where_def has_children_def sample_submitted_eq sample_row_fields ClaimableStates_def)

lemma sample_decode: "decode_row sample_codecs sample_row = Inr (None, [])"
  by (simp add: decode_row_def decodeFrameRange_def decodeAssets_def sample_row_def inserted_row_def sample_job_def sample_codecs_def)

lemma sample_claim:
  "pg_ClaimState sample_pg sample_codecs TxCommits 7 7 (\<lambda>i. False) nobody ''w'' None sample_submitted =
     (Inr (Some (claimed_job sample_pg 7 ''w'' 1 sample_row None [], 60)), sample_running)"
  and sample_running_row: "row_of sample_running ''a'' = Some sample_claimed_row"
proof -
  have lease: "p_lease sample_pg = 60" by (simp add: sample_pg_def pg_New_def)
  note cl = claim_tx_Some [OF sample_submitted_wf sample_claim_query sample_decode, of sample_pg 7 "''w''",
      unfolded sample_row_fields, simplified]
  show "pg_ClaimState sample_pg sample_codecs TxCommits 7 7 (\<lambda>i. False) nobody ''w'' None sample_submitted =
     (Inr (Some (claimed_job sample_pg 7 ''w'' 1 sample_row None [], 60)), sample_running)"
    by (simp add: sample_running_def pg_ClaimState_def withTx_def cl attach_artifact_def lease)
  have "j_id (claimed_job_row p c t w n r) = j_id r" for p c t w n r by (simp add: claimed_job_row_def)
  then show "row_of sample_running ''a'' = Some sample_claimed_row"
    by (simp add: sample_running_def pg_ClaimState_def withTx_def cl attach_artifact_def sample_submitted_row sample_claimed_row_def)
qed

lemma sample_claimed_fields:
  "j_state sample_claimed_row = StateRunning" "j_current_worker_id sample_claimed_row = Some ''w''"
  "j_id sample_claimed_row = ''a''" "j_attempt_count sample_claimed_row = 1" "j_max_attempts sample_claimed_row = 3"
  by (simp_all add: sample_claimed_row_def claimed_job_row_def sample_row_fields)

lemma sample_step:
  "pg_step sample_pg sample_codecs sample_submitted (TClaim 7 7 (\<lambda>i. False) ''w'' None) sample_running"
  unfolding sample_running_def by (rule pg_step)

lemma sample_running_run:
  "pg_run sample_pg sample_codecs empty_tables
     [TSubmit 5 (sample_job ''a''), TClaim 7 7 (\<lambda>i. False) ''w'' None] sample_running"
  using pg_run_step [OF sample_runs(1) sample_step] by simp

section \<open>Lifecycle and history\<close>

text \<open>
  C3. The PostgreSQL repository refines the lifecycle of the in-memory one: in any reachable tables,
  whatever transaction is run and whatever its fate, every job is kept with what was submitted, and
  its state and attempt count stay or take one step of the abstract lifecycle, under the budget
  recorded in its own row; a job that appears is pending with no attempt.
\<close>

theorem postgres_refines_lifecycle:
  assumes "pg_run p c empty_tables cs db" and "json_decodable c" and "pg_step p c db call db'"
  shows "\<forall>i. case row_of db i of
      Some r \<Rightarrow> (\<exists>r'. row_of db' i = Some r' \<and> frozen r' = frozen r \<and>
        (row_lc r' = row_lc r \<or> lc_step (j_max_attempts r) (row_lc r) (row_lc r')))
    | None \<Rightarrow> (case row_of db' i of None \<Rightarrow> True | Some r' \<Rightarrow> row_lc r' = (StatePending, 0))"
proof
  fix i
  have wf: "pg_wf c db" by (rule pg_run_wf [OF assms(1) pg_wf_empty assms(2)])
  have m: "moves c db db'" by (rule pg_step_moves [OF assms(3) wf assms(2)])
  show "case row_of db i of
      Some r \<Rightarrow> (\<exists>r'. row_of db' i = Some r' \<and> frozen r' = frozen r \<and>
        (row_lc r' = row_lc r \<or> lc_step (j_max_attempts r) (row_lc r) (row_lc r')))
    | None \<Rightarrow> (case row_of db' i of None \<Rightarrow> True | Some r' \<Rightarrow> row_lc r' = (StatePending, 0))"
  proof (cases "row_of db i")
    case None
    have "view db' i = view db i \<or> job_step c i (view db i) (view db' i)" using m by (simp add: moves_def)
    then show ?thesis using None by (auto simp: view_def row_lc_def elim: job_step.cases split: option.split)
  next
    case (Some r)
    then show ?thesis using moves_row [OF m wf Some] by auto
  qed
qed

theorem postgres_refines_lifecycle_witness:
  "\<exists>r'. row_of sample_running ''a'' = Some r' \<and> lc_step 3 (StatePending, 0) (row_lc r')"
  using postgres_refines_lifecycle [OF sample_runs(1) sample_json sample_step, THEN spec, of "''a''"]
  by (auto simp: sample_submitted_row sample_running_row row_lc_def sample_row_fields sample_claimed_fields)

text \<open>
  C10. Attempts: in reachable tables the attempts of a job are numbered 1, 2, .. up to its attempt count
  without gap, so the number of the next claim is always the count plus one. At most the last attempt
  is open, and an attempt is open only while the job is running or finalizing. A running job has its
  last attempt open, under the worker that holds it. A finalizing job may have it open too, when it
  was claimed for finalization while it was running.
\<close>

theorem attempts_match_the_job:
  assumes "pg_run p c empty_tables cs db" and "json_decodable c" and "row_of db i = Some r"
  shows "attempts_ok i r (attempts_of db i) \<and> claim_attempt_number r db = j_attempt_count r + 1"
proof -
  have wf: "pg_wf c db" by (rule pg_run_wf [OF assms(1) pg_wf_empty assms(2)])
  then show ?thesis
    using pg_wf_row(2) [OF wf assms(3)] claim_attempt_number_eq [OF wf, of r] assms(3) row_of_id [OF assms(3)] by simp
qed

theorem attempts_match_the_job_witness:
  "attempts_ok ''a'' sample_claimed_row (attempts_of sample_running ''a'')
   \<and> claim_attempt_number sample_claimed_row sample_running = 2"
  using attempts_match_the_job [OF sample_running_run sample_json sample_running_row]
  by (simp add: sample_claimed_fields)

text \<open>
  History is append-only: along every run the events of a job are only extended, no attempt
  disappears, an attempt that has ended never changes again, and no attempt ever changes its
  identifier, number, worker or start.
\<close>

theorem history_is_append_only:
  assumes "pg_run p c empty_tables cs db" and "json_decodable c" and "pg_run p c db cs' db'"
  shows "continues (attempts_of db i) (attempts_of db' i) \<and> prefix (events_of db i) (events_of db' i)"
  by (rule pg_run_history [OF assms(3) pg_run_wf [OF assms(1) pg_wf_empty assms(2)] assms(2)])

theorem history_is_append_only_witness:
  "continues (attempts_of sample_submitted ''a'') (attempts_of sample_running ''a'')
   \<and> prefix (events_of sample_submitted ''a'') (events_of sample_running ''a'')"
  by (rule history_is_append_only [OF sample_runs(1) sample_json sample_runs(2)])

lemma replay_not_finalizing: "replay es \<noteq> Some StateFinalizing"
proof (induction es rule: rev_induct)
  case (snoc e es)
  have "announced (e_type e) \<noteq> Some StateFinalizing" by (cases "e_type e") simp_all
  then show ?case using snoc by (cases "announced (e_type e)") simp_all
qed (simp add: replay_def)

text \<open>
  C11. The ledger: replaying the events of a job gives its state, and they contain one claim for each
  attempt. The one state they do not give is \<open>finalizing\<close>: \<open>ClaimFinalization\<close> records no event, so
  the replay of a job being finalized still says pending or running.
\<close>

theorem ledger_replays_to_the_state:
  assumes "pg_run p c empty_tables cs db" and "json_decodable c" and "row_of db i = Some r"
  shows "(if j_state r = StateFinalizing then replay (events_of db i) \<in> {Some StatePending, Some StateRunning}
          else replay (events_of db i) = Some (j_state r))
     \<and> int (length (claim_events (events_of db i))) = j_attempt_count r"
proof -
  have "replay (events_of db i) \<noteq> Some StateFinalizing" by (rule replay_not_finalizing)
  then show ?thesis
    using pg_wf_row(3) [OF pg_run_wf [OF assms(1) pg_wf_empty assms(2)] assms(3)] by (auto simp: ledger_ok_def)
qed

theorem ledger_replays_to_the_state_witness:
  "replay (events_of sample_running ''a'') = Some StateRunning \<and> int (length (claim_events (events_of sample_running ''a''))) = 1"
  using ledger_replays_to_the_state [OF sample_running_run sample_json sample_running_row]
  by (simp add: sample_claimed_fields)

section \<open>Fencing\<close>

definition pg_holds :: "State list \<Rightarrow> string \<Rightarrow> string \<Rightarrow> tables \<Rightarrow> bool" where
  "pg_holds sts w i db \<longleftrightarrow> (case row_of db i of None \<Rightarrow> False | Some r \<Rightarrow> owned_in sts w r)"

definition refused :: "(pg_error, 'a) result \<times> tables \<Rightarrow> tables \<Rightarrow> bool" where
  "refused res db \<longleftrightarrow> isl (fst res) \<and> snd res = db"

lemma withTx_refused: "f db = Inl e \<Longrightarrow> refused (withTx fate f db) db"
  by (simp add: refused_def withTx_def split: tx_fate.split)

lemma requireTransitionRows_refuses:
  assumes "distinct (map j_id (t_jobs db))" and "\<not> pg_holds sts w i db"
  shows "requireTransitionRows i w (owned_in sts w) f db = Inl (PgNotOwned i w)"
  using assms by (auto simp: requireTransitionRows_def affected_0_iff pg_holds_def split: option.splits)

lemma lockRunning_refuses:
  assumes "distinct (map j_id (t_jobs db))" and "\<not> pg_holds [StateRunning] w i db"
  shows "lockRunningJobAttempts i w db = Inl (PgNotOwned i w)"
proof (cases "lockRunningJobAttempts i w db")
  case (Inl e)
  then show ?thesis by (auto simp: lockRunningJobAttempts_def split: option.splits)
next
  case (Inr x)
  obtain nm d where "x = (nm, d)" by (cases x)
  then have lk: "lockRunningJobAttempts i w db = Inr (nm, d)" using Inr by simp
  obtain r where "row_of db i = Some r" "owned_in [StateRunning] w r" using lockRunning_InrD [OF lk assms(1)] .
  then show ?thesis using assms(2) by (simp add: pg_holds_def)
qed

text \<open>
  C7. Fencing: a worker that does not hold the job cannot change it. Completing and renewing are refused
  unless the job is running or being finalized for that very worker, and rendering, failing and
  reporting progress unless it is running for it; a refused call leaves every table as it was,
  whatever the database does.
\<close>

theorem postgres_transitions_are_fenced:
  assumes "pg_run p c empty_tables cs db" and "json_decodable c"
  shows "(pg_holds [StateRunning, StateFinalizing] w i db \<or>
            refused (pg_Complete c fate now i w a db) db \<and> refused (pg_Renew p c fate now clk i w db) db)
       \<and> (pg_holds [StateRunning] w i db \<or>
            refused (pg_Rendered c fate now i w a reason db) db \<and> refused (pg_Fail fate now i w reason db) db \<and>
            refused (pg_FailPermanently fate now i w reason db) db \<and> refused (pg_SetProgress fate now nobody i w pr db) db)"
proof -
  have ids: "distinct (map j_id (t_jobs db))"
    by (rule pg_wf_ids [OF pg_run_wf [OF assms(1) pg_wf_empty assms(2)]])
  show ?thesis
  proof (intro conjI)
    show "pg_holds [StateRunning, StateFinalizing] w i db \<or>
            refused (pg_Complete c fate now i w a db) db \<and> refused (pg_Renew p c fate now clk i w db) db"
    proof (intro disjCI conjI)
      assume n: "\<not> (refused (pg_Complete c fate now i w a db) db \<and> refused (pg_Renew p c fate now clk i w db) db)"
      show "pg_holds [StateRunning, StateFinalizing] w i db"
      proof (rule ccontr)
        assume "\<not> pg_holds [StateRunning, StateFinalizing] w i db"
        note q = requireTransitionRows_refuses [OF ids this]
        have "complete_tx c now i w a db = Inl (PgNotOwned i w)" "renew_tx p c now clk i w db = Inl (PgNotOwned i w)"
          by (simp_all add: complete_tx_def renew_tx_def tx_defs q)
        then show False using n withTx_refused unfolding pg_Complete_def pg_Renew_def by blast
      qed
    qed
    show "pg_holds [StateRunning] w i db \<or>
            refused (pg_Rendered c fate now i w a reason db) db \<and> refused (pg_Fail fate now i w reason db) db \<and>
            refused (pg_FailPermanently fate now i w reason db) db \<and> refused (pg_SetProgress fate now nobody i w pr db) db"
    proof (cases "pg_holds [StateRunning] w i db")
      case False
      note q = requireTransitionRows_refuses [OF ids False] and l = lockRunning_refuses [OF ids False]
      have tx: "rendered_tx c now i w a reason db = Inl (PgNotOwned i w)" "fail_tx now i w reason db = Inl (PgNotOwned i w)"
        "failPermanently_tx now i w reason db = Inl (PgNotOwned i w)"
        by (simp_all add: rendered_tx_def fail_tx_def failPermanently_tx_def tx_defs q l)
      have "refused (pg_SetProgress fate now nobody i w pr db) db"
        by (auto simp: pg_SetProgress_def refused_def withTx_def q Let_def split: tx_fate.split option.split)
      then show ?thesis using tx withTx_refused unfolding pg_Rendered_def pg_Fail_def pg_FailPermanently_def by blast
    qed simp
  qed
qed

theorem postgres_transitions_are_fenced_witness:
  "refused (pg_Complete sample_codecs TxCommits 9 ''a'' ''thief'' blank_artifact sample_running) sample_running
   \<and> refused (pg_Fail TxCommits 9 ''a'' ''thief'' ''no'' sample_running) sample_running"
proof -
  have "\<not> pg_holds sts ''thief'' ''a'' sample_running" for sts
    by (simp add: pg_holds_def owned_in_def sample_running_row sample_claimed_fields)
  then show ?thesis
    using postgres_transitions_are_fenced [OF sample_running_run sample_json, of "''thief''" "''a''" TxCommits 9 blank_artifact]
    by simp
qed

section \<open>Claims\<close>

text \<open>
  A claim hands out a job that was claimable, due, without children and not locked by another
  session, and of all such jobs one that has waited longest; it comes back empty exactly when
  there is none. The job handed out carries the next attempt number, the lease, and belongs to the
  worker from then on.
\<close>

theorem postgres_claim_takes_the_longest_waiting:
  assumes "pg_run p c empty_tables cs db" and "json_decodable c" and "\<forall>st. state = Some st \<longrightarrow> IsClaimable st"
    and "pg_ClaimState p c fate now clk locked mid w state db = (Inr out, db')"
  shows "case out of
      None \<Rightarrow> db' = db \<and> (\<forall>r \<in> set (t_jobs db). \<not> claim_where c locked state clk db r)
    | Some (job, lease) \<Rightarrow> lease = p_lease p \<and> job_State job = StateRunning \<and> job_Worker job = w \<and>
        (\<exists>r. row_of db (job_ID job) = Some r \<and> IsClaimable (j_state r) \<and> claim_where c locked state clk db r \<and>
           (\<forall>s \<in> set (t_jobs db). claim_where c locked state clk db s \<longrightarrow> j_queued_at r \<le> j_queued_at s) \<and>
           job_Attempts job = j_attempt_count r + 1)"
proof -
  have wf: "pg_wf c db" by (rule pg_run_wf [OF assms(1) pg_wf_empty assms(2)])
  have tx: "\<exists>o1 d. claim_tx p c now clk locked w state db = Inr (o1, d) \<and>
     (case o1 of ClaimNothing \<Rightarrow> out = None \<and> db' = d | ClaimPoisoned e \<Rightarrow> False
      | ClaimGot job aid \<Rightarrow> (\<exists>job'. attach_artifact c aid job (mid d) = Inr job' \<and> out = Some (job', p_lease p)))"
    using assms(3,4) by (auto simp: pg_ClaimState_def withTx_def split: option.splits sum.splits if_splits
        prod.splits tx_fate.splits pg_claim_outcome.splits)
  then obtain o1 d where o1: "claim_tx p c now clk locked w state db = Inr (o1, d)"
    "case o1 of ClaimNothing \<Rightarrow> out = None \<and> db' = d | ClaimPoisoned e \<Rightarrow> False
      | ClaimGot job aid \<Rightarrow> (\<exists>job'. attach_artifact c aid job (mid d) = Inr job' \<and> out = Some (job', p_lease p))" by blast
  show ?thesis
    using wf assms(3) o1(1)
  proof (cases rule: claim_tx_cases)
    case none
    then show ?thesis using o1(2) by (simp add: claim_query_None_iff)
  next
    case (got r fr assets)
    then obtain job' where job': "attach_artifact c (j_artifact_id r) (claimed_job p clk w (j_attempt_count r + 1) r fr assets) (mid d) = Inr job'"
      "out = Some (job', p_lease p)" using o1(2) by auto
    have f: "job_ID job' = j_id r" "job_State job' = StateRunning" "job_Worker job' = w" "job_Attempts job' = j_attempt_count r + 1"
      using job'(1) by (auto simp: attach_artifact_def claimed_job_def split: option.splits sum.splits)
    show ?thesis using got(2,3) claim_query_SomeD [OF got(1)] f job'(2) by auto
  qed
qed

theorem postgres_claim_takes_the_longest_waiting_witness:
  "\<exists>r. row_of sample_submitted ''a'' = Some r \<and> IsClaimable (j_state r)
     \<and> claim_where sample_codecs (\<lambda>i. False) None 7 sample_submitted r"
  using postgres_claim_takes_the_longest_waiting [OF sample_runs(1) sample_json _ sample_claim]
  by (auto simp: claimed_job_def sample_row_fields)

end
