(* ===== verification/Postgres_Submission.thy ===== *)
theory Postgres_Submission
  imports Postgres_Guarantees
begin

text \<open>
  Submission to the PostgreSQL repository as producers see it: the idempotency key decides between
  concurrent submissions, what is read back is what was submitted; and the reports of a finalizer
  that the repository refuses.
\<close>

section \<open>Idempotent submission\<close>

definition keyed :: "string \<Rightarrow> string \<Rightarrow> tables \<Rightarrow> bool" where
  "keyed k i db \<longleftrightarrow> (\<exists>r. row_of db i = Some r \<and> j_idempotency_key r = Some k)"

lemma keyed_unique:
  assumes wf: "pg_wf c db" and "keyed k i db" "keyed k j db" shows "i = j"
proof -
  obtain r s where r: "row_of db i = Some r" "j_idempotency_key r = Some k"
    and s: "row_of db j = Some s" "j_idempotency_key s = Some k" using assms by (auto simp: keyed_def)
  have "r \<in> set (t_jobs db)" "s \<in> set (t_jobs db)" "j_id r = i" "j_id s = j"
    using r(1) s(1) by (auto simp: row_of_def dest: first_such_SomeD)
  moreover have "keys_unique db" using wf unfolding pg_wf_def by blast
  ultimately show ?thesis using r(2) s(2) unfolding keys_unique_def by fastforce
qed

lemma keyed_run:
  assumes "pg_run p c db cs db'" "pg_wf c db" "json_decodable c" "keyed k i db" shows "keyed k i db'"
proof -
  obtain r where r: "row_of db i = Some r" "j_idempotency_key r = Some k" using assms(4) by (auto simp: keyed_def)
  obtain r' where r': "row_of db' i = Some r'" "frozen r' = frozen r" using pg_run_row [OF assms(1-3) r(1)] by blast
  then show ?thesis using frozen_eqD(4) [OF r'(2)] r(2) by (auto simp: keyed_def)
qed

lemma by_key_SomeD:
  assumes "pg_wf c db" and "by_key k db = Some i" shows "keyed k i db"
proof -
  obtain r where "r \<in> set (t_jobs db)" "j_idempotency_key r = Some k" "j_id r = i"
    using assms(2) by (auto simp: by_key_def dest: first_such_SomeD)
  then show ?thesis using in_jobs_iff [OF pg_wf_ids [OF assms(1)]] by (auto simp: keyed_def)
qed

lemma Get_ID:
  assumes "pg_Get c fate now mid i db = (Inr job, db')"
  shows "job_ID job = i \<and> db' = mid db \<and> row_of db i \<noteq> None"
proof -
  obtain r where r: "row_of db i = Some r" using assms by (cases "row_of db i") (auto simp: pg_Get_def)
  then have "j_id r = i" by (rule row_of_id)
  then show ?thesis
    using assms r by (auto simp: pg_Get_def attach_artifact_def row_job_def withTx_def split: sum.splits option.splits
        tx_fate.splits prod.splits)
qed

lemma submit_keyed:
  assumes "pg_Submit p c fate now job db = (Inr u, db')" and "pg_wf c db" "json_decodable c"
    and "job_IdempotencyKey job \<noteq> []"
  shows "keyed (job_IdempotencyKey job) (job_ID job) db'" and "pg_wf c db'"
proof -
  have "moves c db db'" using submit_moves [OF assms(2,3), of p fate now job] assms(1) by simp
  then show "pg_wf c db'" using moves_wf assms(2) by blast
  obtain row where row: "prepareJobRow c job = Inr row" and new: "\<not> list_ex (\<lambda>r. j_id r = job_ID job) (t_jobs db)"
    and db': "db' = recordEvent now EventJobCreated (job_ID job) [] [] [] (db\<lparr> t_jobs := t_jobs db @ [inserted_row p c now job row] \<rparr>)"
    using assms(1) by (auto simp: pg_Submit_def withTx_def insertJobRow_def insertJobRowOnly_def tx_defs
        split: if_splits sum.splits tx_fate.splits)
  have "first_such (\<lambda>r. j_id r = job_ID job) (t_jobs db) = None" using new by (auto simp: first_such_None_iff list_ex_iff)
  then have "row_of db' (job_ID job) = Some (inserted_row p c now job row)"
    by (simp add: db' row_of_def first_such_append inserted_row_def)
  then show "keyed (job_IdempotencyKey job) (job_ID job) db'" using assms(4) by (simp add: keyed_def inserted_row_def)
qed

text \<open>What other sessions may do between two statements: any run.\<close>

definition runs :: "PgRepository \<Rightarrow> codecs \<Rightarrow> (tables \<Rightarrow> tables) \<Rightarrow> bool" where
  "runs p c f \<longleftrightarrow> (\<forall>d. \<exists>cs. pg_run p c d cs (f d))"

lemma runs_keeps:
  assumes "runs p c f" "pg_wf c db" "json_decodable c" shows "pg_wf c (f db)" "keyed k i db \<Longrightarrow> keyed k i (f db)"
proof -
  obtain cs where "pg_run p c db cs (f db)" using assms(1) by (auto simp: runs_def)
  then show "pg_wf c (f db)" "keyed k i db \<Longrightarrow> keyed k i (f db)" using pg_run_wf keyed_run assms(2,3) by blast+
qed

lemma SubmitIdempotent_keyed:
  assumes res: "pg_SubmitIdempotent p c fate now mid (pg_Get c gfate gnow gmid) job db = (Inr (j, created), db')"
    and wf: "pg_wf c db" and json: "json_decodable c" and k: "job_IdempotencyKey job \<noteq> []"
    and mid: "\<forall>n. runs p c (mid n)" "runs p c gmid"
  shows "keyed (job_IdempotencyKey job) (job_ID j) db' \<and> pg_wf c db' \<and> (created \<longrightarrow> job_ID j = job_ID job)"
proof -
  let ?k = "job_IdempotencyKey job"
  note keep = runs_keeps [OF mid(1) [rule_format] _ json] and gkeep = runs_keeps [OF mid(2) _ json]
  have read: "keyed ?k i d' \<and> pg_wf c d' \<and> job_ID j = i"
    if "pg_Get c gfate gnow gmid i d = (Inr j, d')" "keyed ?k i d" "pg_wf c d" for i d d'
    using Get_ID [OF that(1)] gkeep(1) [OF that(3)] gkeep(2) [OF that(3) that(2)] by simp
  show ?thesis
  proof (cases "by_key ?k db")
    case (Some i)
    have ki: "keyed ?k i (mid 1 db)" "pg_wf c (mid 1 db)"
      using keep(2) [OF wf by_key_SomeD [OF wf Some]] keep(1) [OF wf] by blast+
    have g: "pg_Get c gfate gnow gmid i (mid 1 db) = (Inr j, db')" "\<not> created"
      using res Some k by (auto simp: pg_SubmitIdempotent_def Let_def split: sum.splits prod.splits)
    show ?thesis using read [OF g(1) ki] g(2) by simp
  next
    case None
    have wf0: "pg_wf c (mid 0 db)" using keep(1) [OF wf] .
    obtain sres d1 where sub: "pg_Submit p c fate now job (mid 0 db) = (sres, d1)" by (cases "pg_Submit p c fate now job (mid 0 db)")
    show ?thesis
    proof (cases sres)
      case (Inr u)
      have s: "keyed ?k (job_ID job) d1" "pg_wf c d1" using submit_keyed [OF _ wf0 json k] sub Inr by auto
      have ki: "keyed ?k (job_ID job) (mid 1 d1)" "pg_wf c (mid 1 d1)"
        using keep(2) [OF s(2) s(1)] keep(1) [OF s(2)] by blast+
      have g: "pg_Get c gfate gnow gmid (job_ID job) (mid 1 d1) = (Inr j, db')"
        using res None k sub Inr by (auto simp: pg_SubmitIdempotent_def Let_def split: sum.splits prod.splits)
      show ?thesis using read [OF g ki] by simp
    next
      case (Inl e)
      have "pg_wf c d1" using submit_moves [OF wf0 json, of p fate now job] moves_wf [OF _ wf0] sub by simp
      then have wf2: "pg_wf c (mid 1 d1)" using keep(1) by blast
      obtain i where i: "by_key ?k (mid 1 d1) = Some i" "pg_Get c gfate gnow gmid i (mid 2 (mid 1 d1)) = (Inr j, db')" "\<not> created"
        using res None k sub Inl by (auto simp: pg_SubmitIdempotent_def Let_def split: sum.splits prod.splits option.splits)
      have ki: "keyed ?k i (mid 2 (mid 1 d1))" "pg_wf c (mid 2 (mid 1 d1))"
        using keep(2) [OF wf2 by_key_SomeD [OF wf2 i(1)]] keep(1) [OF wf2] by blast+
      show ?thesis using read [OF i(2) ki] i(3) by simp
    qed
  qed
qed

text \<open>
  C12. One winner per idempotency key: two submissions with the same key, interleaved with each other and
  with any other sessions at any of their statements, and whatever the database does to their
  transactions, answer with the same job when both answer. A submission that says it created the
  job answers with its own.
\<close>

theorem concurrent_submissions_agree:
  assumes "json_decodable c" and "pg_run p c empty_tables csA dbA" "pg_run p c empty_tables csB dbB"
    and "\<forall>n. runs p c (midA n)" "runs p c gmidA" "\<forall>n. runs p c (midB n)" "runs p c gmidB"
    and "pg_SubmitIdempotent p c fateA nowA midA (pg_Get c gfateA gnowA gmidA) jobA dbA = (Inr (jA, createdA), dA)"
    and "pg_SubmitIdempotent p c fateB nowB midB (pg_Get c gfateB gnowB gmidB) jobB dbB = (Inr (jB, createdB), dB)"
    and "job_IdempotencyKey jobA = job_IdempotencyKey jobB" "job_IdempotencyKey jobA \<noteq> []"
    and "pg_run p c dA endA db" "pg_run p c dB endB db"
  shows "job_ID jA = job_ID jB \<and> (createdA \<longrightarrow> job_ID jA = job_ID jobA) \<and> (createdB \<longrightarrow> job_ID jB = job_ID jobB)"
proof -
  let ?k = "job_IdempotencyKey jobA"
  have A: "keyed ?k (job_ID jA) dA" "pg_wf c dA" "createdA \<longrightarrow> job_ID jA = job_ID jobA"
    using SubmitIdempotent_keyed [OF assms(8) pg_run_wf [OF assms(2) pg_wf_empty assms(1)] assms(1) _ assms(4,5)] assms(11) by auto
  have B: "keyed ?k (job_ID jB) dB" "pg_wf c dB" "createdB \<longrightarrow> job_ID jB = job_ID jobB"
    using SubmitIdempotent_keyed [OF assms(9) pg_run_wf [OF assms(3) pg_wf_empty assms(1)] assms(1) _ assms(6,7)] assms(10,11) by auto
  have "keyed ?k (job_ID jA) db" "keyed ?k (job_ID jB) db"
    using keyed_run [OF assms(12) A(2) assms(1) A(1)] keyed_run [OF assms(13) B(2) assms(1) B(1)] by auto
  then show ?thesis using keyed_unique [OF pg_run_wf [OF assms(12) A(2) assms(1)]] A(3) B(3) by blast
qed

subsection \<open>A sample\<close>

definition sample_keyed :: "string \<Rightarrow> Job" where
  "sample_keyed i = (sample_job i)\<lparr> job_IdempotencyKey := ''k'' \<rparr>"

definition keyed_row :: job_row where
  "keyed_row = inserted_row sample_pg sample_codecs 5 (sample_keyed ''a'')
     \<lparr> jr_jobType = ''render_segment'', jr_schema = ''renderinggen.job'', jr_version = 1, jr_plan = ''{}'',
       jr_manifest = ''{}'' \<rparr>"

definition keyed_tables :: tables where
  "keyed_tables = recordEvent 5 EventJobCreated ''a'' [] [] [] (empty_tables\<lparr> t_jobs := [keyed_row] \<rparr>)"

lemma keyed_submit:
  "pg_Submit sample_pg sample_codecs TxCommits 5 (sample_keyed ''a'') empty_tables = (Inr (), keyed_tables)"
  by (simp add: sample_pg_simps sample_keyed_def keyed_row_def keyed_tables_def empty_tables_def sample_codecs_def JobTypeRenderSegment_def)

lemma keyed_row_fields:
  "j_id keyed_row = ''a''" "j_idempotency_key keyed_row = Some ''k''" "j_artifact_id keyed_row = None"
  "decode_row sample_codecs keyed_row = Inr (None, [])"
  by (simp_all add: keyed_row_def inserted_row_def sample_keyed_def sample_job_def decode_row_def decodeFrameRange_def
      decodeAssets_def sample_codecs_def)

lemma keyed_tables_jobs: "t_jobs keyed_tables = [keyed_row]"
  by (simp add: keyed_tables_def)

lemma keyed_get:
  "pg_Get sample_codecs TxCommits 5 nobody ''a'' keyed_tables = (Inr (row_job keyed_row None []), keyed_tables)"
  by (simp add: pg_Get_def row_of_def keyed_tables_jobs keyed_row_fields attach_artifact_def)

lemma keyed_run_sample: "pg_run sample_pg sample_codecs empty_tables [TSubmit 5 (sample_keyed ''a'')] keyed_tables"
proof -
  have "pg_step sample_pg sample_codecs empty_tables (TSubmit 5 (sample_keyed ''a''))
      (pg_exec sample_pg sample_codecs TxCommits (TSubmit 5 (sample_keyed ''a'')) empty_tables)" by (rule pg_step)
  then show ?thesis using pg_run_step [OF pg_run_refl, of sample_pg sample_codecs empty_tables] by (fastforce simp: keyed_submit)
qed

lemma runs_nobody: "runs p c nobody"
  using pg_run_refl by (fastforce simp: runs_def)

theorem concurrent_submissions_agree_witness:
  "job_ID (row_job keyed_row None []) = ''a'' \<and>
   pg_SubmitIdempotent sample_pg sample_codecs TxCommits 6 (\<lambda>n. nobody) (pg_Get sample_codecs TxCommits 5 nobody)
     (sample_keyed ''b'') keyed_tables = (Inr (row_job keyed_row None [], False), keyed_tables)"
proof -
  let ?get = "pg_Get sample_codecs TxCommits 5 nobody"
  have k: "job_IdempotencyKey (sample_keyed i) = ''k''" "job_ID (sample_keyed i) = i" for i
    by (simp_all add: sample_keyed_def sample_job_def)
  have A: "pg_SubmitIdempotent sample_pg sample_codecs TxCommits 5 (\<lambda>n. nobody) ?get (sample_keyed ''a'') empty_tables
      = (Inr (row_job keyed_row None [], True), keyed_tables)"
    by (simp add: pg_SubmitIdempotent_def k by_key_def empty_tables_def keyed_submit [unfolded empty_tables_def] keyed_get Let_def)
  have B: "pg_SubmitIdempotent sample_pg sample_codecs TxCommits 6 (\<lambda>n. nobody) ?get (sample_keyed ''b'') keyed_tables
      = (Inr (row_job keyed_row None [], False), keyed_tables)"
    by (simp add: pg_SubmitIdempotent_def k by_key_def keyed_tables_jobs keyed_row_fields keyed_get Let_def)
  have r: "\<forall>n :: nat. runs sample_pg sample_codecs nobody" by (simp add: runs_nobody)
  have "job_ID (row_job keyed_row None []) = job_ID (sample_keyed ''a'')"
    using concurrent_submissions_agree [OF sample_json pg_run_refl keyed_run_sample r runs_nobody r runs_nobody A B _ _
        pg_run_refl pg_run_refl] by (simp add: k)
  then show ?thesis using B k by simp
qed

section \<open>What is read back\<close>

text \<open>
  The job a reader gets for a submission: the caller's fields, the defaults for what it left open,
  and every field the queue owns reset.
\<close>

definition accepted_job :: "codecs \<Rightarrow> gotime \<Rightarrow> Job \<Rightarrow> Job" where
  "accepted_job c now job = job
     \<lparr> job_Schema := (if job_Schema job = [] then JobSchemaV1 else job_Schema job),
       job_Version := (if job_Version job = 0 then JobSchemaVersionV1 else job_Version job),
       job_JobType := (if job_JobType job = [] then JobTypeRenderSegment else job_JobType job),
       job_NotBefore := map_option (c_ts c) (job_NotBefore job),
       job_RenderPlan := c_jsonb c (if job_RenderPlan job = [] \<or> job_RenderPlan job = ''null'' then ''{}'' else job_RenderPlan job),
       job_State := StatePending, job_Worker := [], job_Attempts := 0, job_CreatedAt := zero_time,
       job_QueuedAt := now, job_StartedAt := zero_time, job_CompletedAt := zero_time,
       job_LeaseUntil := zero_time, job_FailReason := [], job_Artifact := None, job_Progress := None,
       job_Lease := 0 \<rparr>"

lemma row_job_inserted:
  assumes "prepareJobRow c job = Inr row"
  shows "row_job (inserted_row p c now job row) (job_FrameRange job) (job_Assets job) = accepted_job c now job"
  using assms
  by (cases job) (auto simp: prepareJobRow_def normalizeJSON_def normalizeJobType_def row_job_def inserted_row_def blank_job_def
      accepted_job_def schemaVersion_def row_progress_def split: if_splits sum.splits)

text \<open>
  C16. Round trip: a job that was submitted is read back as it was submitted, with defaults for what the
  caller left open, provided its assets survive their own encoding. (The instant of creation is not
  among the columns that \<open>Get\<close> reads, so it comes back as the zero time.)
\<close>

theorem submitted_job_is_read_back:
  assumes "pg_run p c empty_tables cs db" and "json_decodable c"
    and "c_jsonb c (c_putManifest c (job_Assets job)) \<noteq> []"
    and "c_getManifest c (c_jsonb c (c_putManifest c (job_Assets job))) = Some (job_Assets job)"
    and "pg_Submit p c fate now job db = (Inr (), db')"
  shows "pg_Get c gfate gnow mid (job_ID job) db' = (Inr (accepted_job c now job), mid db')"
proof -
  obtain row where row: "prepareJobRow c job = Inr row" and new: "\<not> list_ex (\<lambda>r. j_id r = job_ID job) (t_jobs db)"
    and db': "db' = recordEvent now EventJobCreated (job_ID job) [] [] [] (db\<lparr> t_jobs := t_jobs db @ [inserted_row p c now job row] \<rparr>)"
    using assms(5) by (auto simp: pg_Submit_def withTx_def insertJobRow_def insertJobRowOnly_def tx_defs
        split: if_splits sum.splits tx_fate.splits)
  let ?r = "inserted_row p c now job row"
  have "first_such (\<lambda>r. j_id r = job_ID job) (t_jobs db) = None" using new by (auto simp: first_such_None_iff list_ex_iff)
  then have r: "row_of db' (job_ID job) = Some ?r"
    by (simp add: db' row_of_def first_such_append inserted_row_def)
  have m: "jr_manifest row = c_putManifest c (job_Assets job)"
    using row by (auto simp: prepareJobRow_def split: sum.splits)
  obtain assets where "decode_row c ?r = Inr (job_FrameRange job, assets)" using decode_inserted [OF assms(2) row] by blast
  moreover have "decodeAssets c (j_input_manifest ?r) = Inr (job_Assets job)"
    using assms(3,4) m by (simp add: decodeAssets_def inserted_row_def)
  ultimately have "decode_row c ?r = Inr (job_FrameRange job, job_Assets job)"
    by (auto simp: decode_row_def split: sum.splits)
  moreover have "j_artifact_id ?r = None" by (simp add: inserted_row_def)
  ultimately show ?thesis using r row_job_inserted [OF row] by (simp add: pg_Get_def attach_artifact_def)
qed

theorem submitted_job_is_read_back_witness:
  "pg_Get sample_codecs TxCommits 9 nobody ''a'' keyed_tables = (Inr (accepted_job sample_codecs 5 (sample_keyed ''a'')), keyed_tables)"
  using submitted_job_is_read_back [OF pg_run_refl sample_json _ _ keyed_submit, of TxCommits 9 nobody]
  by (simp add: sample_keyed_def sample_job_def sample_codecs_def)

section \<open>Where the repository departs from its counterpart\<close>

text \<open>
  A submission with a fresh idempotency key but the id of another job is refused without its reason:
  the second lookup of the key overwrites the error of the insertion with the error of finding no
  row. The in-memory repository reports that the job exists.
\<close>

theorem duplicate_id_hides_its_reason:
  assumes "job_IdempotencyKey job \<noteq> []" and "by_key (job_IdempotencyKey job) db = None"
    and "ValidateChunk (c_unicode c) job = Inr ()" and "job_ID job \<noteq> []"
    and "prepareJobRow c job = Inr row" and "list_ex (\<lambda>r. j_id r = job_ID job) (t_jobs db)"
  shows "pg_Submit p c TxCommits now job db = (Inl (PgJobExists (job_ID job)), db)
     \<and> pg_SubmitIdempotent p c TxCommits now (\<lambda>n. nobody) get job db = (Inl PgNoRows, db)"
proof -
  have "pg_Submit p c TxCommits now job db = (Inl (PgJobExists (job_ID job)), db)"
    using assms by (simp add: pg_Submit_def withTx_def insertJobRow_def insertJobRowOnly_def tx_defs)
  then show ?thesis using assms(1,2) by (simp add: pg_SubmitIdempotent_def Let_def)
qed

theorem duplicate_id_hides_its_reason_witness:
  "pg_SubmitIdempotent sample_pg sample_codecs TxCommits 9 (\<lambda>n. nobody) (pg_Get sample_codecs TxCommits 9 nobody)
     ((sample_keyed ''a'')\<lparr> job_IdempotencyKey := ''k2'' \<rparr>) keyed_tables = (Inl PgNoRows, keyed_tables)"
  by (rule duplicate_id_hides_its_reason [THEN conjunct2])
    (simp_all add: by_key_def keyed_tables_jobs keyed_row_fields sample_pg_simps sample_keyed_def sample_codecs_def)

text \<open>
  A finalizer cannot report that it failed: a job that is being finalized is refused by \<open>Fail\<close>,
  \<open>FailPermanently\<close> and \<open>Rendered\<close> even for the worker that holds it, so it stays held until the
  lease runs out. The in-memory repository accepts these reports.
\<close>

theorem finalizer_cannot_report_failure:
  assumes "pg_run p c empty_tables cs db" and "json_decodable c" and "row_of db i = Some r" and "j_state r = StateFinalizing"
  shows "refused (pg_Fail fate now i w reason db) db \<and> refused (pg_FailPermanently fate now i w reason db) db
     \<and> refused (pg_Rendered c fate now i w a reason db) db"
proof -
  have ids: "distinct (map j_id (t_jobs db))"
    by (rule pg_wf_ids [OF pg_run_wf [OF assms(1) pg_wf_empty assms(2)]])
  have n: "\<not> pg_holds [StateRunning] w i db" using assms(3,4) by (simp add: pg_holds_def owned_in_def)
  note q = requireTransitionRows_refuses [OF ids n] and l = lockRunning_refuses [OF ids n]
  have "rendered_tx c now i w a reason db = Inl (PgNotOwned i w)" "fail_tx now i w reason db = Inl (PgNotOwned i w)"
    "failPermanently_tx now i w reason db = Inl (PgNotOwned i w)"
    by (simp_all add: rendered_tx_def fail_tx_def failPermanently_tx_def tx_defs q l)
  then show ?thesis using withTx_refused unfolding pg_Rendered_def pg_Fail_def pg_FailPermanently_def by blast
qed

definition sample_finalizing :: tables where
  "sample_finalizing = pg_exec sample_pg sample_codecs TxCommits (TClaimFinalization 8 ''a'' ''f'') sample_submitted"

lemma sample_finalizing_run:
  "pg_run sample_pg sample_codecs empty_tables [TSubmit 5 (sample_job ''a''), TClaimFinalization 8 ''a'' ''f''] sample_finalizing"
  using pg_run_step [OF sample_runs(1), of "TClaimFinalization 8 ''a'' ''f''" sample_finalizing]
    pg_step [of sample_pg sample_codecs sample_submitted "TClaimFinalization 8 ''a'' ''f''" TxCommits]
  by (simp add: sample_finalizing_def)

lemma sample_finalizing_row:
  "row_of sample_finalizing ''a'' = Some (finalizing_row sample_pg sample_codecs 8 ''f'' sample_row)"
proof -
  have "j_id (finalizing_row p c t w r) = j_id r" for p c t w r by (simp add: finalizing_row_def)
  then show ?thesis
    by (simp add: sample_finalizing_def withTx_def finalization_tx_def Let_def sample_submitted_row sample_row_fields)
qed

theorem finalizer_cannot_report_failure_witness:
  "refused (pg_Fail TxCommits 9 ''a'' ''f'' ''no'' sample_finalizing) sample_finalizing"
  using finalizer_cannot_report_failure [OF sample_finalizing_run sample_json sample_finalizing_row, of TxCommits 9 "''f''" "''no''"]
  by (simp add: finalizing_row_def)

text \<open>
  A job that was finalized straight from pending has no attempt, and the telemetry table wants one:
  completing it with a telemetry document fails with a NOT NULL violation, each time, and leaves it
  unfinished.
\<close>

theorem finalized_job_cannot_complete_with_telemetry:
  assumes "pg_run p c empty_tables cs db" and "json_decodable c" and "row_of db i = Some r"
    and "j_state r = StateFinalizing" "j_current_worker_id r = Some w" and "attempts_of db i = []"
    and "art_ChrononTelemetry a \<noteq> []" "c_telemetrySchema c (art_ChrononTelemetry a) = Some schema" "schema \<noteq> []"
  shows "pg_Complete c TxCommits now i w a db = (Inl PgNotNullViolation, db)"
proof -
  have ids: "distinct (map j_id (t_jobs db))"
    by (rule pg_wf_ids [OF pg_run_wf [OF assms(1) pg_wf_empty assms(2)]])
  have "requireTransitionRows i w (owned_in [StateRunning, StateFinalizing] w) f db
      = Inr ((), update_jobs i (owned_in [StateRunning, StateFinalizing] w) f db)" for f
    using affected_0_iff [OF ids, of i "owned_in [StateRunning, StateFinalizing] w"] assms(3-5)
    by (simp add: requireTransitionRows_def owned_in_def)
  moreover have "runningAttemptID i db = []"
    using assms(6) by (simp add: runningAttemptID_def attempts_of_def filter_empty_conv)
  ultimately show ?thesis
    using assms(7-9) by (simp add: pg_Complete_def complete_tx_def closeRunningAttempt_def persistArtifactTx_def
        insertRenderTelemetry_def withTx_def tx_defs)
qed

theorem finalized_job_cannot_complete_with_telemetry_witness:
  "pg_Complete sample_codecs TxCommits 9 ''a'' ''f'' (blank_artifact\<lparr> art_ChrononTelemetry := ''{}'' \<rparr>) sample_finalizing
     = (Inl PgNotNullViolation, sample_finalizing)"
proof -
  have "attempts_of sample_finalizing ''a'' = []"
    by (simp add: sample_finalizing_def withTx_def finalization_tx_def Let_def attempts_of_def sample_submitted_eq empty_tables_def)
  then show ?thesis
    by (intro finalized_job_cannot_complete_with_telemetry [OF sample_finalizing_run sample_json sample_finalizing_row, where schema = "''s''"])
      (simp_all add: finalizing_row_def sample_codecs_def)
qed

end
