(* ===== verification/Repository_Contract.thy ===== *)
theory Repository_Contract
  imports Postgres_Submission
begin

text \<open>
  The contract that the queue service relies on of a job repository (\<open>queue/internal/repository\<close>),
  whichever backend stands behind it: calls keep the invariant, never lose a job, and move it along
  the lifecycle under a budget that does not change. What follows from it is proved once and holds
  for both backends.
\<close>

locale lifecycle_repository =
  fixes call :: "'c \<Rightarrow> 's \<Rightarrow> 's" and ok :: "'s \<Rightarrow> bool" and allowed :: "'c \<Rightarrow> bool"
    and row :: "'s \<Rightarrow> string \<Rightarrow> (State \<times> int) option" and budget :: "'s \<Rightarrow> string \<Rightarrow> int"
  assumes ok_call: "ok s \<Longrightarrow> allowed x \<Longrightarrow> ok (call x s)"
    and row_call: "ok s \<Longrightarrow> allowed x \<Longrightarrow> row s i = Some q \<Longrightarrow>
      \<exists>q'. row (call x s) i = Some q' \<and> (q' = q \<or> lc_step (budget s i) q q')"
    and budget_call: "ok s \<Longrightarrow> allowed x \<Longrightarrow> row s i = Some q \<Longrightarrow> budget (call x s) i = budget s i"
    and new_call: "ok s \<Longrightarrow> allowed x \<Longrightarrow> row s i = None \<Longrightarrow> row (call x s) i = Some q \<Longrightarrow> fst q = StatePending"
begin

definition calls :: "'c list \<Rightarrow> 's \<Rightarrow> 's" where
  "calls xs s = foldl (\<lambda>s x. call x s) s xs"

lemma calls_simps [simp]: "calls [] s = s" "calls (x # xs) s = calls xs (call x s)"
  by (simp_all add: calls_def)

lemma ok_calls: "ok s \<Longrightarrow> list_all allowed xs \<Longrightarrow> ok (calls xs s)"
  by (induction xs arbitrary: s) (simp_all add: ok_call)

text \<open>Every job that exists keeps existing, and its state is reached along the lifecycle.\<close>

lemma row_calls:
  "ok s \<Longrightarrow> list_all allowed xs \<Longrightarrow> row s i = Some q \<Longrightarrow>
   \<exists>q'. row (calls xs s) i = Some q' \<and> (lc_step (budget s i))\<^sup>*\<^sup>* q q' \<and> budget (calls xs s) i = budget s i"
proof (induction xs arbitrary: s q)
  case (Cons x xs)
  obtain q1 where q1: "row (call x s) i = Some q1" "q1 = q \<or> lc_step (budget s i) q q1"
    using row_call [OF Cons.prems(1) _ Cons.prems(3), of x] Cons.prems(2) by auto
  have b: "budget (call x s) i = budget s i" using budget_call Cons.prems by simp
  obtain q' where "row (calls xs (call x s)) i = Some q'" "(lc_step (budget s i))\<^sup>*\<^sup>* q1 q'"
    "budget (calls xs (call x s)) i = budget s i"
    using Cons.IH [OF ok_call [OF Cons.prems(1)] _ q1(1)] Cons.prems(2) b by auto
  moreover have "(lc_step (budget s i))\<^sup>*\<^sup>* q q1" using q1(2) by auto
  ultimately show ?case by (metis calls_simps(2) rtranclp_trans)
qed simp

text \<open>The two results that are final.\<close>

lemma final_calls:
  assumes "ok s" "list_all allowed xs" "row s i = Some (q, n)" "q \<in> {StateCompleted, StateCancelled}"
  shows "row (calls xs s) i = Some (q, n)"
proof -
  obtain q' where q': "row (calls xs s) i = Some q'" "(lc_step (budget s i))\<^sup>*\<^sup>* (q, n) q'"
    using row_calls [OF assms(1-3)] by blast
  have "q' = (q, n)"
    using q'(2)
  proof (induction rule: rtranclp_induct)
    case (step y z)
    then show ?case using assms(4)
      by (auto elim!: lc_step_completedE lc_step_cancelledE simp: IsCancelable_def IsTerminalState_def IsClaimable_def)
  qed simp
  then show ?thesis using q'(1) by simp
qed

lemma lc_step_count: "lc_step m q q' \<Longrightarrow> snd q' = snd q \<or> fst q' = StateRunning \<and> snd q' = snd q + 1"
  by (induction rule: lc_step.induct) auto

text \<open>The count of attempts only grows.\<close>

lemma attempts_calls:
  assumes "ok s" "list_all allowed xs" "row s i = Some q"
  shows "\<exists>q'. row (calls xs s) i = Some q' \<and> snd q \<le> snd q'"
proof -
  obtain q' where q': "row (calls xs s) i = Some q'" "(lc_step (budget s i))\<^sup>*\<^sup>* q q'"
    using row_calls [OF assms] by blast
  have "snd q \<le> snd q'" using q'(2) by (induction rule: rtranclp_induct) (auto dest: lc_step_count)
  then show ?thesis using q'(1) by blast
qed

end

section \<open>Both backends keep it\<close>

definition mem_row :: "Repository \<Rightarrow> string \<Rightarrow> (State \<times> int) option" where
  "mem_row s i = map_option lc_of (r_jobs s i)"

definition pg_row :: "tables \<Rightarrow> string \<Rightarrow> (State \<times> int) option" where
  "pg_row db i = map_option row_lc (row_of db i)"

definition pg_budget :: "tables \<Rightarrow> string \<Rightarrow> int" where
  "pg_budget db i = (case row_of db i of None \<Rightarrow> 0 | Some r \<Rightarrow> j_max_attempts r)"

definition pg_call :: "PgRepository \<Rightarrow> codecs \<Rightarrow> tx_fate \<times> pg_call \<Rightarrow> tables \<Rightarrow> tables" where
  "pg_call p c x db = pg_exec p c (fst x) (snd x) db"

interpretation mem_repo: lifecycle_repository "exec U" mem_wf claimable_filter mem_row "\<lambda>s i. r_maxAttempts s"
proof
  show "mem_wf s \<Longrightarrow> claimable_filter x \<Longrightarrow> mem_wf (exec U x s)" for s x by (rule exec_wf)
  show "\<exists>q'. mem_row (exec U x s) i = Some q' \<and> (q' = q \<or> lc_step (r_maxAttempts s) q q')"
    if x: "claimable_filter x" and q: "mem_row s i = Some q" for s x i q
  proof -
    obtain job where job: "r_jobs s i = Some job" "q = lc_of job" using q by (auto simp: mem_row_def)
    obtain job' where "r_jobs (exec U x s) i = Some job'" "row_rel (r_maxAttempts s) job job'"
      using exec_rows [OF x, of s U] job(1) by (auto simp: rows_rel_def)
    then show ?thesis using job(2) by (auto simp: mem_row_def row_rel_def)
  qed
  show "r_maxAttempts (exec U x s) = r_maxAttempts s" if "claimable_filter x" for s x
    using exec_rows [OF that, of s U] by (simp add: rows_rel_def)
  show "fst q = StatePending" if "mem_row s i = None" "mem_row (exec U x s) i = Some q" for s x i q
    using exec_new_row [of s i U x] that by (auto simp: mem_row_def lc_of_def)
qed

interpretation pg_repo: lifecycle_repository "pg_call p c" "\<lambda>db. pg_wf c db \<and> json_decodable c" "\<lambda>x. True" pg_row pg_budget
proof
  fix db x assume ok: "pg_wf c db \<and> json_decodable c"
  have m: "moves c db (pg_call p c x db)" unfolding pg_call_def using pg_exec_moves ok by blast
  show "pg_wf c (pg_call p c x db) \<and> json_decodable c" using moves_wf [OF m] ok by blast
  show "\<exists>q'. pg_row (pg_call p c x db) i = Some q' \<and> (q' = q \<or> lc_step (pg_budget db i) q q')"
    if q: "pg_row db i = Some q" for i q
  proof -
    obtain r where r: "row_of db i = Some r" "q = row_lc r" using q by (auto simp: pg_row_def)
    have wf: "pg_wf c db" using ok by blast
    obtain r' where "row_of (pg_call p c x db) i = Some r'" "row_lc r' = row_lc r \<or> lc_step (j_max_attempts r) (row_lc r) (row_lc r')"
      using moves_row [OF m wf r(1)] .
    then show ?thesis using r by (auto simp: pg_row_def pg_budget_def)
  qed
  show "pg_budget (pg_call p c x db) i = pg_budget db i" if q: "pg_row db i = Some q" for i q
  proof -
    obtain r where r: "row_of db i = Some r" using q by (auto simp: pg_row_def)
    have wf: "pg_wf c db" using ok by blast
    obtain r' where r': "row_of (pg_call p c x db) i = Some r'" "frozen r' = frozen r" using moves_row [OF m wf r] .
    then show ?thesis using frozen_eqD(2) [OF r'(2)] r by (simp add: pg_budget_def)
  qed
  show "fst q = StatePending" if "pg_row db i = None" "pg_row (pg_call p c x db) i = Some q" for i q
  proof -
    have none: "row_of db i = None" using that(1) by (simp add: pg_row_def)
    have "view (pg_call p c x db) i = view db i \<or> job_step c i (view db i) (view (pg_call p c x db) i)"
      using m unfolding moves_def by blast
    then show ?thesis using that(2) none by (auto simp: view_def pg_row_def row_lc_def elim: job_step.cases)
  qed
qed

lemma pg_run_calls: "pg_run p c db cs db' \<Longrightarrow> \<exists>xs. db' = pg_repo.calls p c xs db"
proof (induction rule: pg_run.induct)
  case pg_run_refl
  then show ?case by (intro exI [of _ "[]"]) simp
next
  case (pg_run_step cs d call d')
  then obtain xs fate where "d = pg_repo.calls p c xs db" "d' = pg_exec p c fate call d" by (auto elim: pg_step.cases)
  then have "d' = pg_repo.calls p c (xs @ [(fate, call)]) db" by (simp add: pg_repo.calls_def pg_call_def)
  then show ?case by blast
qed

text \<open>
  Final is final: once a job is completed or cancelled in the PostgreSQL repository it stays so with
  the same attempt count, whatever transactions follow and whatever becomes of them.
\<close>

theorem postgres_results_are_final:
  assumes "pg_run p c empty_tables cs db" and "json_decodable c" and "row_of db i = Some r"
    and "j_state r \<in> {StateCompleted, StateCancelled}" and "pg_run p c db cs' db'"
  shows "\<exists>r'. row_of db' i = Some r' \<and> j_state r' = j_state r \<and> j_attempt_count r' = j_attempt_count r"
proof -
  have ok: "pg_wf c db \<and> json_decodable c" using pg_run_wf [OF assms(1) pg_wf_empty assms(2)] assms(2) by blast
  obtain xs where "db' = pg_repo.calls p c xs db" using pg_run_calls [OF assms(5)] by blast
  then have "pg_row db' i = Some (j_state r, j_attempt_count r)"
    using pg_repo.final_calls [OF ok, of xs i "j_state r" "j_attempt_count r" p] assms(3,4)
    by (simp add: pg_row_def row_lc_def list_all_iff)
  then show ?thesis by (auto simp: pg_row_def row_lc_def)
qed

definition sample_cancelled :: tables where
  "sample_cancelled = pg_exec sample_pg sample_codecs TxCommits (TCancel 8 ''a'') sample_submitted"

lemma sample_cancelled_run:
  "pg_run sample_pg sample_codecs empty_tables [TSubmit 5 (sample_job ''a''), TCancel 8 ''a''] sample_cancelled"
  using pg_run_step [OF sample_runs(1), of "TCancel 8 ''a''" sample_cancelled]
    pg_step [of sample_pg sample_codecs sample_submitted "TCancel 8 ''a''" TxCommits]
  by (simp add: sample_cancelled_def)

lemma sample_cancelled_row: "\<exists>r. row_of sample_cancelled ''a'' = Some r \<and> j_state r = StateCancelled"
  by (simp add: sample_cancelled_def pg_Cancel_def withJobState_def withTx_def tx_defs lockJobState_def cancel_body_def
      sample_submitted_row sample_row_fields IsTerminalState_def no_progress_def
      no_open_attempt(2) [OF sample_submitted_wf sample_submitted_row])

theorem postgres_results_are_final_witness:
  "\<exists>r'. row_of (pg_exec sample_pg sample_codecs TxCommits (TRetry 9 ''a'') sample_cancelled) ''a'' = Some r'
     \<and> j_state r' = StateCancelled"
proof -
  obtain r where r: "row_of sample_cancelled ''a'' = Some r" "j_state r = StateCancelled" using sample_cancelled_row by blast
  have "pg_run sample_pg sample_codecs sample_cancelled [TRetry 9 ''a'']
      (pg_exec sample_pg sample_codecs TxCommits (TRetry 9 ''a'') sample_cancelled)"
    by (rule pg_run_step [where cs = "[]", OF pg_run_refl pg_step, unfolded append_Nil])
  then show ?thesis using postgres_results_are_final [OF sample_cancelled_run sample_json r(1)] r(2) by fastforce
qed

end
