(* ===== verification/Worker_Lease.thy ===== *)
theory Worker_Lease
  imports Queue_Client
begin

text \<open>
  Lease renewal of the worker (\<open>renderinggen/cmd/renderinggen/lease.go\<close>): one renewal with its
  retries, and the background loop that renews while a stage of a job runs and cancels the stage when
  the lease is lost. The queue is reached through the client and its faulty network; what other
  processes do to the queue meanwhile is a parameter of each turn.
\<close>

section \<open>One renewal\<close>

text \<open>The settings of the worker stages.\<close>

record PipelineConfig =
  pc_ClaimLongPoll :: duration
  pc_ClaimRetryDelay :: duration
  pc_HeartbeatInterval :: duration
  pc_DegradedAfterFailures :: int
  pc_WorkspaceSweepInterval :: duration
  pc_WorkspaceStaleAfter :: duration
  pc_WorkspaceLeaseRefresh :: duration
  pc_WorkspaceLeaseTTL :: duration
  pc_LeaseRenewAttempts :: int
  pc_LeaseRenewBackoff :: duration
  pc_ReceiptVerify :: string
  pc_DeepVisualValidation :: bool
  pc_KeepWorkspace :: bool

text \<open>\<open>rnd n\<close> is \<open>rand.Int63n(n)\<close>; duration arithmetic wraps around at 64 bits.\<close>

definition jitter20 :: "(int \<Rightarrow> int) \<Rightarrow> duration \<Rightarrow> duration" where
  "jitter20 rnd d =
     (if d \<le> 0 then d
      else let delta = d div 5; j = rnd (2 * delta + 1) - delta in wrap64 (d + j))"

text \<open>
  A turn of the retry loop: what others do to the queue before the request is served, the clock of
  the server, the fate of the request, whether the context had ended when the call came back, the
  random source and whether the context ended during the wait.
\<close>

record renew_turn =
  rt_before :: "Service \<Rightarrow> Service"
  rt_env :: req_env
  rt_fault :: fault
  rt_ctxErr :: bool
  rt_rand :: "int \<Rightarrow> int"
  rt_cancelled :: bool

definition next_renew_backoff :: "duration \<Rightarrow> duration \<Rightarrow> duration" where
  "next_renew_backoff interval backoff =
     (let b = wrap64 (backoff * 2) in if b \<ge> interval then interval else b)"

text \<open>The waits of the loop are returned beside the verdict; \<open>None\<close> when the turns run out.\<close>

fun renew_loop ::
  "process \<Rightarrow> string \<Rightarrow> string \<Rightarrow> int \<Rightarrow> duration \<Rightarrow> int \<Rightarrow> duration \<Rightarrow> renew_turn list \<Rightarrow> Service \<Rightarrow>
   bool option \<times> duration list \<times> Service" where
  "renew_loop ps i w maxAttempts interval attempt backoff [] sv = (None, [], sv)"
| "renew_loop ps i w maxAttempts interval attempt backoff (t # ts) sv =
     (case qc_Renew (net ps (rt_env t) (rt_fault t)) i w (rt_before t sv) of
        (None, sv') \<Rightarrow> (Some True, [], sv')
      | (Some e, sv') \<Rightarrow>
          (if e = ErrLeaseConflict then (Some False, [], sv')
           else if attempt \<ge> maxAttempts \<or> rt_ctxErr t then (Some False, [], sv')
           else let wait = jitter20 (rt_rand t) backoff in
                if rt_cancelled t then (Some False, [wait], sv')
                else case renew_loop ps i w maxAttempts interval (attempt + 1)
                            (next_renew_backoff interval backoff) ts sv' of
                  (res, waits, sv'') \<Rightarrow> (res, wait # waits, sv'')))"

definition renew_budget :: "PipelineConfig \<Rightarrow> int" where
  "renew_budget cfg = (if pc_LeaseRenewAttempts cfg < 1 then 1 else pc_LeaseRenewAttempts cfg)"

definition first_backoff :: "PipelineConfig \<Rightarrow> duration" where
  "first_backoff cfg = (if pc_LeaseRenewBackoff cfg \<le> 0 then second else pc_LeaseRenewBackoff cfg)"

definition renewWithRetry ::
  "process \<Rightarrow> string \<Rightarrow> string \<Rightarrow> duration \<Rightarrow> PipelineConfig \<Rightarrow> renew_turn list \<Rightarrow> Service \<Rightarrow>
   bool option \<times> duration list \<times> Service" where
  "renewWithRetry ps i w interval cfg = renew_loop ps i w (renew_budget cfg) interval 1 (first_backoff cfg)"

section \<open>The background loop\<close>

definition lease_interval :: "duration \<Rightarrow> duration" where
  "lease_interval lease = (let d = lease div 2 in if d \<le> 0 then second else d)"

text \<open>
  One element per tick of the ticker while the stage runs. The result says whether the context of
  the stage is still alive at its end; a renewal whose turns run out is one that the end of the stage
  interrupts.
\<close>

fun lease_loop ::
  "process \<Rightarrow> string \<Rightarrow> string \<Rightarrow> duration \<Rightarrow> PipelineConfig \<Rightarrow> renew_turn list list \<Rightarrow> Service \<Rightarrow> bool \<times> Service" where
  "lease_loop ps i w interval cfg [] sv = (True, sv)"
| "lease_loop ps i w interval cfg (tick # ticks) sv =
     (case renewWithRetry ps i w interval cfg tick sv of
        (Some True, _, sv') \<Rightarrow> lease_loop ps i w interval cfg ticks sv'
      | (Some False, _, sv') \<Rightarrow> (False, sv')
      | (None, _, sv') \<Rightarrow> (True, sv'))"

text \<open>\<open>fn\<close> is the stage: its outcome depends on whether its context was cancelled.\<close>

definition withLeaseVoid ::
  "process \<Rightarrow> string \<Rightarrow> string \<Rightarrow> duration \<Rightarrow> PipelineConfig \<Rightarrow> renew_turn list list \<Rightarrow> (bool \<Rightarrow> Service \<Rightarrow> 'r \<times> Service) \<Rightarrow>
   Service \<Rightarrow> 'r \<times> Service" where
  "withLeaseVoid ps i w lease cfg ticks fn sv =
     (if lease \<le> 0 then fn False sv
      else case lease_loop ps i w (lease_interval lease) cfg ticks sv of
        (alive, sv') \<Rightarrow> fn (\<not> alive) sv')"

definition withLease ::
  "process \<Rightarrow> string \<Rightarrow> string \<Rightarrow> duration \<Rightarrow> PipelineConfig \<Rightarrow> renew_turn list list \<Rightarrow>
   (bool \<Rightarrow> Service \<Rightarrow> ('a \<times> 'e option) \<times> Service) \<Rightarrow> Service \<Rightarrow> ('a \<times> 'e option) \<times> Service" where
  "withLease ps i w lease cfg ticks fn sv = withLeaseVoid ps i w lease cfg ticks fn sv"

section \<open>Lemmas on one renewal\<close>

text \<open>A renewal that got no answer: the queue may have carried it out.\<close>

definition lost_renewal :: "string \<Rightarrow> string \<Rightarrow> Service \<Rightarrow> renew_turn \<Rightarrow> Service" where
  "lost_renewal i w sv t =
     (let sv1 = rt_before t sv in
      if holds i w (sv_repo sv1) \<and> rt_fault t = ReplyLost
      then snd (svc_Renew (en_clk (rt_env t)) i w sv1) else sv1)"

definition served_at :: "string \<Rightarrow> string \<Rightarrow> Service \<Rightarrow> renew_turn list \<Rightarrow> renew_turn \<Rightarrow> Service" where
  "served_at i w sv pre t = rt_before t (foldl (lost_renewal i w) sv pre)"

lemma qc_Renew_outcome:
  assumes "w \<noteq> []"
  shows "qc_Renew (net ps en f) i w sv =
    (if f = Delivered then if holds i w (sv_repo sv) then None else Some ErrLeaseConflict else Some NetworkError,
     if holds i w (sv_repo sv) \<and> f \<noteq> RequestLost then snd (svc_Renew (en_clk en) i w sv) else sv)"
  using send_report_outcome [of w RepRenew ps en f i sv, OF _ surjective_pairing] assms
  by (auto simp: admissible_def prod_eq_iff)

lemma renew_turn_cases:
  assumes "w \<noteq> []"
  shows "qc_Renew (net ps (rt_env t) (rt_fault t)) i w (rt_before t sv) =
    (if rt_fault t \<noteq> Delivered then (Some NetworkError, lost_renewal i w sv t)
     else if holds i w (sv_repo (rt_before t sv))
     then (None, snd (svc_Renew (en_clk (rt_env t)) i w (rt_before t sv)))
     else (Some ErrLeaseConflict, rt_before t sv))"
  by (cases "rt_fault t") (simp_all add: qc_Renew_outcome [OF assms] lost_renewal_def Let_def)

lemma svc_Renew_row:
  assumes "holds i w (sv_repo sv)"
  shows "\<exists>job. r_jobs (sv_repo sv) i = Some job \<and>
    r_jobs (sv_repo (snd (svc_Renew clk i w sv))) i = Some (job\<lparr> job_LeaseUntil := clk + r_lease (sv_repo sv) \<rparr>) \<and>
    r_lease (sv_repo (snd (svc_Renew clk i w sv))) = r_lease (sv_repo sv)"
  using assms by (auto simp: holds_def svc_Renew_def Renew_def with_running_def runningJob_def put_job_def)

lemma renew_budget_pos: "1 \<le> renew_budget cfg"
  by (simp add: renew_budget_def)

text \<open>How the loop ends, as a split of its turns at the last one it used.\<close>

definition renew_ends ::
  "string \<Rightarrow> string \<Rightarrow> int \<Rightarrow> renew_turn list \<Rightarrow> Service \<Rightarrow> bool \<Rightarrow> Service \<Rightarrow> bool" where
  "renew_ends i w room turns sv held sv' \<longleftrightarrow>
     (\<exists>pre t post. turns = pre @ t # post \<and> (\<forall>u \<in> set pre. rt_fault u \<noteq> Delivered \<and> \<not> rt_ctxErr u \<and> \<not> rt_cancelled u)
        \<and> int (length pre) < room
        \<and> (if held then rt_fault t = Delivered \<and> holds i w (sv_repo (served_at i w sv pre t))
             \<and> sv' = snd (svc_Renew (en_clk (rt_env t)) i w (served_at i w sv pre t))
           else if rt_fault t = Delivered then \<not> holds i w (sv_repo (served_at i w sv pre t)) \<and> sv' = served_at i w sv pre t
           else sv' = lost_renewal i w (foldl (lost_renewal i w) sv pre) t
             \<and> (rt_ctxErr t \<or> rt_cancelled t \<or> int (length pre) + 1 = room)))"

lemma renew_endsI:
  assumes "turns = pre @ t # post" and "\<forall>u \<in> set pre. rt_fault u \<noteq> Delivered \<and> \<not> rt_ctxErr u \<and> \<not> rt_cancelled u"
    and "int (length pre) < room"
    and "if held then rt_fault t = Delivered \<and> holds i w (sv_repo (served_at i w sv pre t))
       \<and> sv' = snd (svc_Renew (en_clk (rt_env t)) i w (served_at i w sv pre t))
     else if rt_fault t = Delivered then \<not> holds i w (sv_repo (served_at i w sv pre t)) \<and> sv' = served_at i w sv pre t
     else sv' = lost_renewal i w (foldl (lost_renewal i w) sv pre) t
       \<and> (rt_ctxErr t \<or> rt_cancelled t \<or> int (length pre) + 1 = room)"
  shows "renew_ends i w room turns sv held sv'"
  using assms unfolding renew_ends_def by blast

lemma renew_ends_head:
  assumes "0 < room"
  shows "rt_fault t = Delivered \<Longrightarrow> holds i w (sv_repo (rt_before t sv)) \<Longrightarrow>
      renew_ends i w room (t # ts) sv True (snd (svc_Renew (en_clk (rt_env t)) i w (rt_before t sv)))"
    and "rt_fault t = Delivered \<Longrightarrow> \<not> holds i w (sv_repo (rt_before t sv)) \<Longrightarrow> renew_ends i w room (t # ts) sv False (rt_before t sv)"
    and "rt_fault t \<noteq> Delivered \<Longrightarrow> rt_ctxErr t \<or> rt_cancelled t \<or> room = 1 \<Longrightarrow>
      renew_ends i w room (t # ts) sv False (lost_renewal i w sv t)"
  by (rule renew_endsI [of _ "[]" t ts]; use assms in \<open>simp add: served_at_def\<close>)+

lemma renew_ends_later:
  assumes "renew_ends i w (room - 1) ts (lost_renewal i w sv t) held sv'"
    and "rt_fault t \<noteq> Delivered" "\<not> rt_ctxErr t" "\<not> rt_cancelled t"
  shows "renew_ends i w room (t # ts) sv held sv'"
proof -
  obtain pre u post where "ts = pre @ u # post" "\<forall>u \<in> set pre. rt_fault u \<noteq> Delivered \<and> \<not> rt_ctxErr u \<and> \<not> rt_cancelled u"
    "int (length pre) < room - 1"
    "if held then rt_fault u = Delivered \<and> holds i w (sv_repo (served_at i w (lost_renewal i w sv t) pre u))
       \<and> sv' = snd (svc_Renew (en_clk (rt_env u)) i w (served_at i w (lost_renewal i w sv t) pre u))
     else if rt_fault u = Delivered then \<not> holds i w (sv_repo (served_at i w (lost_renewal i w sv t) pre u))
       \<and> sv' = served_at i w (lost_renewal i w sv t) pre u
     else sv' = lost_renewal i w (foldl (lost_renewal i w) (lost_renewal i w sv t) pre) u
       \<and> (rt_ctxErr u \<or> rt_cancelled u \<or> int (length pre) + 1 = room - 1)"
    using assms(1) unfolding renew_ends_def by blast
  with assms(2-4) show ?thesis
    by (intro renew_endsI [of _ "t # pre" u post]) (auto simp: served_at_def split: if_splits)
qed

lemma renew_loop_ends:
  assumes "w \<noteq> []" and "attempt \<le> maxAttempts"
    and "renew_loop ps i w maxAttempts interval attempt backoff turns sv = (res, waits, sv')"
  shows "(case res of
      None \<Rightarrow> int (length turns) < maxAttempts - attempt + 1
    | Some held \<Rightarrow> renew_ends i w (maxAttempts - attempt + 1) turns sv held sv')"
  using assms(2,3)
proof (induction turns arbitrary: attempt backoff sv waits)
  case (Cons t ts)
  let ?room = "maxAttempts - attempt + 1"
  have room: "0 < ?room" using Cons.prems(1) by simp
  note heads = renew_ends_head [OF room]
  show ?case
  proof (cases "rt_fault t = Delivered \<or> rt_ctxErr t \<or> rt_cancelled t \<or> attempt = maxAttempts")
    case True
    then show ?thesis
      using Cons.prems heads
      by (auto simp: renew_turn_cases [OF assms(1)] Let_def split: if_splits prod.splits)
  next
    case False
    then have "attempt + 1 \<le> maxAttempts" using Cons.prems(1) by simp
    moreover obtain waits' where rest: "renew_loop ps i w maxAttempts interval (attempt + 1)
        (next_renew_backoff interval backoff) ts (lost_renewal i w sv t) = (res, waits', sv')"
      using Cons.prems False by (auto simp: renew_turn_cases [OF assms(1)] Let_def split: prod.splits)
    ultimately have "case res of None \<Rightarrow> int (length ts) < maxAttempts - (attempt + 1) + 1
      | Some held \<Rightarrow> renew_ends i w (maxAttempts - (attempt + 1) + 1) ts (lost_renewal i w sv t) held sv'"
      using Cons.IH by blast
    then show ?thesis
      using False renew_ends_later [of i w ?room ts sv t _ sv']
      by (cases res) (simp_all add: algebra_simps)
  qed
qed auto

text \<open>
  The waits: jitter keeps a delay within a fifth, the doubling stops at the interval of the ticker.
\<close>

lemma jitter20_range:
  assumes "0 < d" and "d < 2 ^ 62" and "\<forall>n > 0. 0 \<le> rnd n \<and> rnd n < n"
  shows "0 < jitter20 rnd d \<and> 5 * jitter20 rnd d \<le> 6 * d"
proof -
  let ?delta = "d div 5" and ?r = "rnd (2 * (d div 5) + 1)"
  have delta: "0 \<le> ?delta" "5 * ?delta \<le> d" using assms(1) by simp_all
  have "0 < 2 * ?delta + 1" using delta by simp
  then have "0 \<le> ?r \<and> ?r < 2 * ?delta + 1" using assms(3) by blast
  then have b: "d - ?delta \<le> d + (?r - ?delta)" "d + (?r - ?delta) \<le> d + ?delta" by simp_all
  then have w: "wrap64 (d + (?r - ?delta)) = d + (?r - ?delta)" using assms(1,2) delta by (intro wrap64_id) auto
  show ?thesis using b delta assms(1) by (simp add: jitter20_def Let_def w)
qed

lemma next_renew_backoff_range:
  assumes "0 < interval" "interval < 2 ^ 62" "0 < backoff" "backoff < 2 ^ 62"
  shows "0 < next_renew_backoff interval backoff \<and> next_renew_backoff interval backoff \<le> interval"
  using assms wrap64_id [of "backoff * 2"] by (simp add: next_renew_backoff_def Let_def)

lemma renew_loop_waits:
  assumes "0 < interval" "interval < 2 ^ 62" and "\<forall>t \<in> set turns. \<forall>n > 0. 0 \<le> rt_rand t n \<and> rt_rand t n < n"
    and "0 < backoff" "backoff < 2 ^ 62"
    and "renew_loop ps i w maxAttempts interval attempt backoff turns sv = (res, waits, sv')"
  shows "\<forall>d \<in> set waits. 0 < d \<and> 5 * d \<le> 6 * max backoff interval"
  using assms(3-)
proof (induction turns arbitrary: attempt backoff sv waits res sv')
  case (Cons t ts)
  have j: "0 < jitter20 (rt_rand t) backoff \<and> 5 * jitter20 (rt_rand t) backoff \<le> 6 * max backoff interval"
    using jitter20_range [of backoff "rt_rand t"] Cons.prems by auto
  note n = next_renew_backoff_range [OF assms(1,2) Cons.prems(2,3)]
  show ?case
  proof
    fix d assume "d \<in> set waits"
    with Cons.prems(4) consider "d = jitter20 (rt_rand t) backoff"
      | res' waits' sv1 sv2 where "renew_loop ps i w maxAttempts interval (attempt + 1)
          (next_renew_backoff interval backoff) ts sv1 = (res', waits', sv2)" "d \<in> set waits'"
      by (auto simp: Let_def split: prod.splits option.splits if_splits)
    then show "0 < d \<and> 5 * d \<le> 6 * max backoff interval"
    proof cases
      case 2
      then have "0 < d \<and> 5 * d \<le> 6 * max (next_renew_backoff interval backoff) interval"
        using Cons.IH [of "next_renew_backoff interval backoff" "attempt + 1" sv1 res' waits' sv2] Cons.prems(1) n assms(2) by auto
      then show ?thesis using n by (simp add: max_def split: if_splits)
    qed (use j in simp)
  qed
qed simp

lemma renew_ends_determine:
  assumes "w \<noteq> []"
    and "renew_ends i w (maxAttempts - attempt + 1) turns sv held sv''"
    and "renew_loop ps i w maxAttempts interval attempt backoff turns sv = (res, waits, sv')"
  shows "res = Some held"
  using assms(2,3)
proof (induction turns arbitrary: attempt backoff sv waits)
  case Nil
  then show ?case by (simp add: renew_ends_def)
next
  case (Cons t ts)
  let ?room = "maxAttempts - attempt + 1"
  from Cons.prems(1) obtain pre u post where split: "t # ts = pre @ u # post"
    "\<forall>u \<in> set pre. rt_fault u \<noteq> Delivered \<and> \<not> rt_ctxErr u \<and> \<not> rt_cancelled u" "int (length pre) < ?room"
    and last: "if held then rt_fault u = Delivered \<and> holds i w (sv_repo (served_at i w sv pre u))
         \<and> sv'' = snd (svc_Renew (en_clk (rt_env u)) i w (served_at i w sv pre u))
       else if rt_fault u = Delivered then \<not> holds i w (sv_repo (served_at i w sv pre u)) \<and> sv'' = served_at i w sv pre u
       else sv'' = lost_renewal i w (foldl (lost_renewal i w) sv pre) u
         \<and> (rt_ctxErr u \<or> rt_cancelled u \<or> int (length pre) + 1 = ?room)"
    unfolding renew_ends_def by blast
  show ?case
  proof (cases pre)
    case Nil
    then show ?thesis using split last Cons.prems(2)
      by (auto simp: renew_turn_cases [OF assms(1)] served_at_def Let_def split: if_splits prod.splits)
  next
    case (Cons a pre')
    with split have a: "a = t" "ts = pre' @ u # post" "rt_fault t \<noteq> Delivered" "\<not> rt_ctxErr t" "\<not> rt_cancelled t"
      and lt: "attempt < maxAttempts" by auto
    have "renew_ends i w (maxAttempts - (attempt + 1) + 1) ts (lost_renewal i w sv t) held sv''"
      by (rule renew_endsI [OF a(2)]) (use split(2,3) last Cons a(1) in \<open>auto simp: served_at_def split: if_splits\<close>)
    moreover obtain waits' where "renew_loop ps i w maxAttempts interval (attempt + 1)
        (next_renew_backoff interval backoff) ts (lost_renewal i w sv t) = (res, waits', sv')"
      using Cons.prems(2) a(3-5) lt by (auto simp: renew_turn_cases [OF assms(1)] Let_def split: prod.splits)
    ultimately show ?thesis using Cons.IH by blast
  qed
qed

text \<open>
  C25. One renewal, with its retries, is honest and bounded. Enough turns for the budget always give a
  verdict. The verdict is \<open>held\<close> exactly when, after attempts that got no answer, one within the budget
  was answered while the worker held the job; then the queue has just extended the lease. It is
  \<open>lost\<close> exactly when an answered attempt found the job with somebody else, or when the context ended
  or the budget was spent with the last attempt unanswered; in that last case the queue may still
  have carried the renewal out, since only its answer was lost. One unanswered attempt is never
  enough while the budget and the context last.
\<close>

theorem renewal_is_honest:
  assumes "w \<noteq> []" and "renewWithRetry ps i w interval cfg turns sv = (res, waits, sv')"
  shows "(renew_budget cfg \<le> int (length turns) \<longrightarrow> res \<noteq> None)
    \<and> (\<forall>held. res = Some held \<longleftrightarrow> renew_ends i w (renew_budget cfg) turns sv held sv')
    \<and> (res = Some True \<longrightarrow> (\<exists>t \<in> set turns. \<exists>job. r_jobs (sv_repo sv') i = Some job \<and> job_Worker job = w
          \<and> job_LeaseUntil job = en_clk (rt_env t) + r_lease (sv_repo sv')))"
proof -
  have ends: "case res of None \<Rightarrow> int (length turns) < renew_budget cfg
      | Some held \<Rightarrow> renew_ends i w (renew_budget cfg) turns sv held sv'"
    using renew_loop_ends [OF assms(1) renew_budget_pos assms(2) [unfolded renewWithRetry_def]] by (simp only: diff_add_cancel)
  have verdict: "res = Some held \<longleftrightarrow> renew_ends i w (renew_budget cfg) turns sv held sv'" for held
  proof
    show "renew_ends i w (renew_budget cfg) turns sv held sv'" if "res = Some held"
      using ends that by simp
    show "res = Some held" if "renew_ends i w (renew_budget cfg) turns sv held sv'"
      using renew_ends_determine [OF assms(1) _ assms(2) [unfolded renewWithRetry_def]] that by simp
  qed
  have "\<exists>t \<in> set turns. \<exists>job. r_jobs (sv_repo sv') i = Some job \<and> job_Worker job = w
          \<and> job_LeaseUntil job = en_clk (rt_env t) + r_lease (sv_repo sv')" if held: "res = Some True"
  proof -
    obtain pre t post where t: "turns = pre @ t # post" "holds i w (sv_repo (served_at i w sv pre t))"
      "sv' = snd (svc_Renew (en_clk (rt_env t)) i w (served_at i w sv pre t))"
      using iffD1 [OF verdict held] by (auto simp: renew_ends_def)
    then show ?thesis using svc_Renew_row [OF t(2), of "en_clk (rt_env t)"] by (auto simp: holds_def)
  qed
  moreover have "res \<noteq> None" if "renew_budget cfg \<le> int (length turns)"
    using ends that by (cases res) simp_all
  ultimately show ?thesis using verdict by blast
qed

text \<open>A stage is cancelled only after a renewal that ended with a lost lease.\<close>

lemma cancelled_stage_lost_a_renewal:
  assumes "w \<noteq> []" and "lease_loop ps i w interval cfg ticks sv = (False, sv')"
  shows "\<exists>tick \<in> set ticks. \<exists>sv1. renew_ends i w (renew_budget cfg) tick sv1 False sv'"
  using assms(2)
proof (induction ticks arbitrary: sv)
  case (Cons tick ticks)
  obtain res waits sv1 where r: "renewWithRetry ps i w interval cfg tick sv = (res, waits, sv1)"
    by (cases "renewWithRetry ps i w interval cfg tick sv")
  have ends: "renew_ends i w (renew_budget cfg) tick sv False sv1" if "res = Some False"
    using renew_loop_ends [OF assms(1) renew_budget_pos r [unfolded renewWithRetry_def]] that by simp
  show ?case
  proof (cases "res = Some True")
    case True
    then show ?thesis using Cons r by auto
  next
    case False
    then have "res = Some False" "sv' = sv1" using Cons.prems r by (auto split: option.splits bool.splits)
    then show ?thesis using ends by auto
  qed
qed simp

definition sample_renewal :: "fault \<Rightarrow> renew_turn" where
  "sample_renewal f = \<lparr> rt_before = (\<lambda>sv. sv), rt_env = sample_env, rt_fault = f, rt_ctxErr = False,
                     rt_rand = (\<lambda>n. 0), rt_cancelled = False \<rparr>"

definition sample_config :: PipelineConfig where
  "sample_config = \<lparr> pc_ClaimLongPoll = 25 * second, pc_ClaimRetryDelay = 5 * second,
     pc_HeartbeatInterval = 30 * second, pc_DegradedAfterFailures = 3,
     pc_WorkspaceSweepInterval = 3600 * second, pc_WorkspaceStaleAfter = 86400 * second,
     pc_WorkspaceLeaseRefresh = 600 * second, pc_WorkspaceLeaseTTL = 7200 * second,
     pc_LeaseRenewAttempts = 3, pc_LeaseRenewBackoff = 2 * second,
     pc_ReceiptVerify = [], pc_DeepVisualValidation = False, pc_KeepWorkspace = False \<rparr>"

theorem renewal_is_honest_witness:
  "\<exists>held. fst (renewWithRetry sample_process ''b'' ''w'' (30 * second) sample_config
      [sample_renewal RequestLost, sample_renewal ReplyLost, sample_renewal Delivered] claimed_service) = Some held"
  using renewal_is_honest [of "''w''" sample_process "''b''" "30 * second" sample_config
      "[sample_renewal RequestLost, sample_renewal ReplyLost, sample_renewal Delivered]" claimed_service]
  by (cases "renewWithRetry sample_process ''b'' ''w'' (30 * second) sample_config
      [sample_renewal RequestLost, sample_renewal ReplyLost, sample_renewal Delivered] claimed_service")
    (auto simp: renew_budget_def sample_config_def)

text \<open>
  The waits between the attempts of one renewal are positive and exceed neither the first backoff
  nor the tick of the renewal loop by more than a fifth.
\<close>

lemma renewal_waits_are_bounded:
  assumes "renewWithRetry ps i w interval cfg turns sv = (res, waits, sv')"
    and "0 < interval" "interval < 2 ^ 62" "pc_LeaseRenewBackoff cfg < 2 ^ 62"
    and "\<forall>t \<in> set turns. \<forall>n > 0. 0 \<le> rt_rand t n \<and> rt_rand t n < n"
  shows "\<forall>d \<in> set waits. 0 < d \<and> 5 * d \<le> 6 * max (first_backoff cfg) interval"
  using renew_loop_waits [OF assms(2,3,5) _ _ assms(1) [unfolded renewWithRetry_def]] assms(4)
  by (simp add: first_backoff_def)

section \<open>Renewal against the sweep\<close>

text \<open>
  The stage of a worker against the rest of the system, as calls on the repository in the order of
  their clocks. Other calls leave the job alone unless they cancel it, take it over as a parent, or
  are reports of its own worker.
\<close>

fun leaves_alone :: "string \<Rightarrow> string \<Rightarrow> mem_call \<Rightarrow> bool" where
  "leaves_alone i w (CComplete clk k v a) \<longleftrightarrow> \<not> (k = i \<and> v = w)"
| "leaves_alone i w (CRendered clk k v a reason) \<longleftrightarrow> \<not> (k = i \<and> v = w)"
| "leaves_alone i w (CFail clk k v reason) \<longleftrightarrow> \<not> (k = i \<and> v = w)"
| "leaves_alone i w (CFailPermanently k v reason) \<longleftrightarrow> \<not> (k = i \<and> v = w)"
| "leaves_alone i w (CRenew clk k v) \<longleftrightarrow> \<not> (k = i \<and> v = w)"
| "leaves_alone i w (CCancel k) \<longleftrightarrow> k \<noteq> i"
| "leaves_alone i w (CClaimFinalization clk p v) \<longleftrightarrow> p \<noteq> i"
| "leaves_alone i w (CRequeueExpired now clk ord) \<longleftrightarrow> False"
| "leaves_alone i w c \<longleftrightarrow> \<not> asks_for StateRunning c"

definition same_hold :: "Job \<Rightarrow> Job \<Rightarrow> bool" where
  "same_hold job job' \<longleftrightarrow> job_State job' = job_State job \<and> job_Worker job' = job_Worker job \<and>
     job_LeaseUntil job' = job_LeaseUntil job"

lemma same_hold_refl [simp]: "same_hold job job"
  by (simp add: same_hold_def)

lemma with_running_other:
  assumes "r_jobs s i = Some job" and "job_Worker job = w" and "\<not> (k = i \<and> v = w)"
    and "\<And>r. k \<noteq> i \<Longrightarrow> r_jobs (f r) i = r_jobs s i"
  shows "r_jobs (snd (with_running k v f s)) i = Some job"
  using assms by (cases "k = i") (auto simp: with_running_def runningJob_def split: sum.splits option.splits)

lemma SetProgress_hold:
  assumes "r_jobs s i = Some job"
  shows "\<exists>job'. r_jobs (snd (SetProgress clk k v p s)) i = Some job' \<and> same_hold job job'"
  using assms by (auto simp: SetProgress_def with_running_def same_hold_def put_job_def runningJob_Inr split: sum.splits)

lemma ClaimState_hold:
  assumes "r_jobs s i = Some job" and "job_State job = StateRunning" and "\<not> asks_for StateRunning (CClaim clk cs v st)"
  shows "r_jobs (snd (ClaimState clk cs v st s)) i = Some job"
proof (cases "ClaimState clk cs v st s" rule: prod.exhaust)
  case (Pair res s')
  from this show ?thesis
  proof (cases rule: ClaimState_effect)
    case (Claimed k r)
    have "job_State r \<noteq> StateRunning"
      using claim_guardD [OF Claimed(1)] Claimed(2) assms(3)
      by (fastforce simp: asks_for_def IsClaimable_def ClaimableStates_def split: option.splits)
    then show ?thesis using Claimed assms(1,2) Pair by auto
  qed (use Pair assms in simp)
qed

lemma exec_leaves_alone:
  assumes "leaves_alone i w c" and "r_jobs s i = Some job" and "job_State job = StateRunning" and "job_Worker job = w"
  shows "\<exists>job'. r_jobs (exec U c s) i = Some job' \<and> same_hold job job'"
proof -
  note other = with_running_other [OF assms(2,4)]
  have fin: "r_jobs (snd (ClaimFinalization clk p v s)) i = Some job" if "p \<noteq> i" for clk p v
    using assms(2) that by (simp add: ClaimFinalization_def Let_def put_job_def split: option.split)
  have can: "r_jobs (snd (Cancel k s)) i = Some job" if "k \<noteq> i" for k
    using assms(2) that by (simp add: Cancel_def split: option.split)
  have ret: "r_jobs (snd (Retry clk k s)) i = Some job" for clk k
    using assms(2,3) by (cases "k = i") (simp_all add: Retry_def split: option.split)
  have tr: "r_jobs (snd (Complete clk k v a s)) i = Some job" "r_jobs (snd (Rendered clk k v a reason s)) i = Some job"
    "r_jobs (snd (Fail clk k v reason s)) i = Some job" "r_jobs (snd (FailPermanently k v reason s)) i = Some job"
    "r_jobs (snd (Renew clk k v s)) i = Some job" if "\<not> (k = i \<and> v = w)" for clk k v a reason
    unfolding Complete_def Rendered_def Fail_def FailPermanently_def Renew_def
    by (rule other [OF that], use assms(2) in \<open>simp add: put_job_def\<close>)+
  show ?thesis
    using assms(1) submissions_keep_row [OF assms(2)] SubmitBatch_keeps_row [OF assms(2)] ClaimState_hold [OF assms(2,3)]
      SetProgress_hold [OF assms(2)] fin can ret tr assms(2)
    by (cases c) auto
qed

text \<open>The clock of a renewal of the job by its worker, and of a sweep.\<close>

fun renewal_at :: "string \<Rightarrow> string \<Rightarrow> mem_call \<Rightarrow> gotime option" where
  "renewal_at i w (CRenew t k v) = (if k = i \<and> v = w then Some t else None)"
| "renewal_at i w c = None"

fun sweep_at :: "mem_call \<Rightarrow> gotime option" where
  "sweep_at (CRequeueExpired now clk ord) = Some now"
| "sweep_at c = None"

definition renewals :: "string \<Rightarrow> string \<Rightarrow> mem_call list \<Rightarrow> gotime list" where
  "renewals i w cs = List.map_filter (renewal_at i w) cs"

definition clocks :: "string \<Rightarrow> string \<Rightarrow> mem_call list \<Rightarrow> gotime list" where
  "clocks i w cs = List.map_filter (\<lambda>c. case renewal_at i w c of Some t \<Rightarrow> Some t | None \<Rightarrow> sweep_at c) cs"

text \<open>Calls during a stage: renewals, sweeps and calls that leave the job alone.\<close>

definition stage_call :: "string \<Rightarrow> string \<Rightarrow> mem_call \<Rightarrow> bool" where
  "stage_call i w c \<longleftrightarrow> renewal_at i w c \<noteq> None \<or> sweep_at c \<noteq> None \<or> leaves_alone i w c"

text \<open>Every renewal arrives before the lease ends, and the last lease lasts until \<open>T\<close>.\<close>

fun spaced :: "duration \<Rightarrow> gotime \<Rightarrow> gotime list \<Rightarrow> gotime \<Rightarrow> bool" where
  "spaced L u [] T \<longleftrightarrow> T \<le> u"
| "spaced L u (t # ts) T \<longleftrightarrow> t \<le> u \<and> spaced L (t + L) ts T"

lemma spaced_first: "spaced L u ts T \<Longrightarrow> (\<forall>t \<in> set ts. now \<le> t) \<Longrightarrow> now \<le> T \<Longrightarrow> now \<le> u"
  by (cases ts) auto

lemma renewals_subset_clocks: "set (renewals i w cs) \<subseteq> set (clocks i w cs)"
  by (induction cs) (auto simp: renewals_def clocks_def split: option.splits)

text \<open>No call changes the length of a lease.\<close>

lemma lease_frames:
  "r_lease (snd (with_running k w f s)) = r_lease s" if "\<And>job. r_lease (f job) = r_lease s"
  using that by (simp add: with_running_def split: sum.splits)

lemma lease_frames_ops:
  "r_lease (snd (Complete clk k w a s)) = r_lease s"
  "r_lease (snd (Rendered clk k w a reason s)) = r_lease s"
  "r_lease (snd (Fail clk k w reason s)) = r_lease s"
  "r_lease (snd (FailPermanently k w reason s)) = r_lease s"
  "r_lease (snd (Renew clk k w s)) = r_lease s"
  "r_lease (snd (SetProgress clk k w p s)) = r_lease s"
  by (unfold Complete_def Rendered_def Fail_def FailPermanently_def Renew_def SetProgress_def,
      (rule lease_frames, simp)+)

lemma lease_frames_more:
  "r_lease (snd (Retry clk k s)) = r_lease s" "r_lease (snd (Cancel k s)) = r_lease s"
  "r_lease (snd (ClaimFinalization clk k w s)) = r_lease s" "r_lease (insertLocked job clk s) = r_lease s"
  "r_lease (set_idem job s) = r_lease s"
  by (simp_all add: Retry_def Cancel_def ClaimFinalization_def insertLocked_def set_idem_def Let_def split: option.splits)

lemma RequeueExpired_lease: "r_lease (snd (RequeueExpired now clk ord s)) = r_lease s"
proof -
  have "r_lease (snd (foldl (requeue_one now clk) ns ord)) = r_lease (snd ns)" for ns
    by (induction ord arbitrary: ns) (auto simp: requeue_one_def split: option.splits)
  then show ?thesis by (simp add: RequeueExpired_def)
qed

lemma insert_family_lease: "r_lease (insert_family now jobs s) = r_lease s"
  by (induction jobs arbitrary: s) (simp_all add: lease_frames_more)

lemma submit_lease:
  "r_lease (snd (Submit U clk job s)) = r_lease s" "r_lease (snd (SubmitIdempotent U clk job s)) = r_lease s"
  "r_lease (snd (SubmitBatch U clk jobs s)) = r_lease s" "r_lease (snd (ClaimState clk cs w st s)) = r_lease s"
proof -
  show "r_lease (snd (ClaimState clk cs w st s)) = r_lease s"
    by (rule ClaimState_effect [of clk cs w st s "fst (ClaimState clk cs w st s)" "snd (ClaimState clk cs w st s)"]) auto
qed (auto simp: Submit_def SubmitIdempotent_def SubmitBatch_def lease_frames_more insert_family_lease
    split: sum.splits option.splits)

lemma exec_lease: "r_lease (exec U c s) = r_lease s"
  by (cases c) (simp_all add: lease_frames_ops lease_frames_more RequeueExpired_lease submit_lease)

text \<open>
  A sweep before the end of the lease and a renewal keep the hold, so a run whose renewals are spaced
  within the lease keeps it to the end.
\<close>

lemma sweep_before_end:
  assumes "r_jobs s i = Some job" and "now \<le> job_LeaseUntil job"
  shows "r_jobs (snd (RequeueExpired now clk ord s)) i = Some job"
  using assms by (simp add: RequeueExpired_rows swept_row_def lease_expired_def)

lemma Renew_hold:
  assumes "r_jobs s i = Some job" "job_State job = StateRunning" "job_Worker job = w"
  shows "r_jobs (snd (Renew t i w s)) i = Some (job\<lparr> job_LeaseUntil := t + r_lease s \<rparr>)"
  using assms by (simp add: Renew_def with_running_def runningJob_def put_job_def)

lemma stage_keeps_hold:
  assumes "\<forall>c \<in> set cs. stage_call i w c" and "sorted (clocks i w cs)" and "\<forall>t \<in> set (clocks i w cs). t \<le> T"
    and "r_jobs s i = Some job" "job_State job = StateRunning" "job_Worker job = w"
    and "spaced (r_lease s) (job_LeaseUntil job) (renewals i w cs) T"
  shows "\<exists>job'. r_jobs (foldl (\<lambda>s c. exec U c s) s cs) i = Some job' \<and> job_State job' = StateRunning
    \<and> job_Worker job' = w \<and> T \<le> job_LeaseUntil job'"
  using assms
proof (induction cs arbitrary: s job)
  case (Cons c cs)
  have cs: "\<forall>c \<in> set cs. stage_call i w c" and sorted: "sorted (clocks i w cs)" and upper: "\<forall>t \<in> set (clocks i w cs). t \<le> T"
    using Cons.prems(1-3) by (auto simp: clocks_def split: option.splits)
  have step: ?case if "r_jobs (exec U c s) i = Some job'" "job_State job' = StateRunning" "job_Worker job' = w"
    "spaced (r_lease s) (job_LeaseUntil job') (renewals i w cs) T" for job'
    using Cons.IH [OF cs sorted upper that(1-3)] that(4) by (simp add: exec_lease)
  consider (own) t where "c = CRenew t i w" | (sweep) now clk ord where "c = CRequeueExpired now clk ord"
    | (other) "leaves_alone i w c" "renewal_at i w c = None"
    using Cons.prems(1) by (cases c) (auto simp: stage_call_def split: if_splits)
  then show ?case
  proof cases
    case own
    then show ?thesis
      using step [of "job\<lparr> job_LeaseUntil := t + r_lease s \<rparr>"] Renew_hold [OF Cons.prems(4-6), of t] Cons.prems(5-7)
      by (simp add: renewals_def)
  next
    case (sweep now clk ord)
    have "\<forall>t \<in> set (renewals i w cs). now \<le> t"
      using Cons.prems(2) sweep renewals_subset_clocks [of i w cs] by (auto simp: clocks_def)
    moreover have "now \<le> T" using Cons.prems(3) sweep by (simp add: clocks_def)
    moreover have sp: "spaced (r_lease s) (job_LeaseUntil job) (renewals i w cs) T"
      using Cons.prems(7) sweep by (simp add: renewals_def)
    ultimately have "now \<le> job_LeaseUntil job" by (blast intro: spaced_first)
    then show ?thesis using step [of job] sweep_before_end [OF Cons.prems(4), of now clk ord] sp sweep Cons.prems(5,6) by simp
  next
    case other
    obtain job' where "r_jobs (exec U c s) i = Some job'" "same_hold job job'"
      using exec_leaves_alone [OF other(1) Cons.prems(4-6)] by blast
    then show ?thesis
      using step [of job'] Cons.prems(5-7) other(2) by (simp add: same_hold_def renewals_def)
  qed
qed (auto simp: renewals_def)

text \<open>A lease of at least two units is renewed after half of it.\<close>

lemma half_lease:
  assumes "2 \<le> L"
  shows "2 * lease_interval L \<le> L"
proof -
  have "0 < L div 2" using assms by (simp add: pos_imp_zdiv_pos_iff)
  then have "lease_interval L = L div 2" by (simp add: lease_interval_def)
  then show ?thesis by simp
qed

text \<open>
  The renewals of a stage that begins at \<open>start\<close>: the ticker fires after every interval, and a
  renewal is served some time after its tick.
\<close>

definition stage_renewals :: "gotime \<Rightarrow> duration \<Rightarrow> (nat \<Rightarrow> duration) \<Rightarrow> nat \<Rightarrow> gotime list" where
  "stage_renewals start interval lag n = map (\<lambda>k. start + int k * interval + lag k) [1..<n + 1]"

lemma ticks_spaced:
  assumes "\<forall>k. 0 \<le> lag k \<and> lag k \<le> M" and "interval + M \<le> L" "0 \<le> M"
    and "start + int m * interval + M \<le> u" and "T \<le> start + int (m + n) * interval"
  shows "spaced L u (map (\<lambda>k. start + int k * interval + lag k) [m..<m + n]) T"
  using assms(4,5)
proof (induction n arbitrary: m u)
  case (Suc n)
  let ?t = "start + int m * interval + lag m"
  have "[m..<m + Suc n] = m # [Suc m..<Suc m + n]" by (simp add: upt_conv_Cons)
  moreover have "spaced L (?t + L) (map (\<lambda>k. start + int k * interval + lag k) [Suc m..<Suc m + n]) T"
  proof (rule Suc.IH)
    show "start + int (Suc m) * interval + M \<le> ?t + L" using spec [OF assms(1), of m] assms(2) by (simp add: algebra_simps)
    show "T \<le> start + int (Suc m + n) * interval" using Suc.prems(2) by simp
  qed
  moreover have "?t \<le> u" using assms(1) Suc.prems(1) by (smt (verit))
  ultimately show ?case by simp
qed (use assms(3) in simp)

text \<open>
  C15. The renewal loop protects one stage. Take a worker that holds a job in the running state, with
  at least one renewal interval (half the lease) and \<open>M\<close> left on its lease when the stage begins, and
  whose renewals are carried out by the queue within \<open>M\<close> of their ticks, \<open>M\<close> at most half a lease. Let
  the sweeps and the calls of other clients be interleaved with the renewals in any order their clocks
  allow, except for the calls that take the job away on purpose: a cancellation of the job, a
  finalization claim on it, a report by the worker itself, and a claim that asks by name for running
  jobs. Then the worker still holds the job at the end of the stage and its lease lasts that long: no
  sweep, no claim and no report of another worker has taken it.
\<close>

theorem lease_covers_a_stage:
  assumes "mem_run U s cs s'" and "\<forall>c \<in> set cs. stage_call i w c"
    and "sorted (clocks i w cs)" "\<forall>t \<in> set (clocks i w cs). t \<le> T"
    and "r_jobs s i = Some job" "job_State job = StateRunning" "job_Worker job = w"
    and "renewals i w cs = stage_renewals start (lease_interval (r_lease s)) lag n"
    and "\<forall>k. 0 \<le> lag k \<and> lag k \<le> M" "2 \<le> r_lease s" "2 * M \<le> r_lease s"
    and "start + lease_interval (r_lease s) + M \<le> job_LeaseUntil job"
    and "T \<le> start + int (n + 1) * lease_interval (r_lease s)"
  shows "\<exists>job'. r_jobs s' i = Some job' \<and> job_State job' = StateRunning \<and> job_Worker job' = w \<and> T \<le> job_LeaseUntil job'"
proof -
  have "0 \<le> M" using assms(9) by force
  moreover have "lease_interval (r_lease s) + M \<le> r_lease s"
    using half_lease [OF assms(10)] assms(11) by simp
  ultimately have "spaced (r_lease s) (job_LeaseUntil job) (renewals i w cs) T"
    using ticks_spaced [OF assms(9), of "lease_interval (r_lease s)" "r_lease s" start 1 "job_LeaseUntil job" T n] assms(12,13)
    by (simp add: assms(8) stage_renewals_def algebra_simps)
  then show ?thesis
    using stage_keeps_hold [OF assms(2-7), of U] assms(1) by (simp add: mem_run_exec)
qed

theorem lease_covers_a_stage_witness:
  "\<exists>job'. r_jobs (foldl (\<lambda>s c. exec (\<lambda>_. False) c s) sample_claimed
      [CRenew 57 ''b'' ''w'', CRequeueExpired 61 (\<lambda>_. 61) [''b''], CClaim 61 [] ''v'' None, CRenew 62 ''b'' ''w'',
       CRequeueExpired 65 (\<lambda>_. 65) [''b'']]) ''b'' = Some job' \<and> job_State job' = StateRunning \<and> job_Worker job' = ''w''"
proof -
  let ?cs = "[CRenew 57 ''b'' ''w'', CRequeueExpired 61 (\<lambda>_. 61) [''b''], CClaim 61 [] ''v'' None, CRenew 62 ''b'' ''w'',
       CRequeueExpired 65 (\<lambda>_. 65) [''b'']]"
  obtain job where job: "r_jobs sample_claimed ''b'' = Some job" "job_State job = StateRunning" "job_Worker job = ''w''"
    "job_LeaseUntil job = 60" "r_lease sample_claimed = 10"
    by (simp add: sample_claimed_eq)
  have run: "mem_run (\<lambda>_. False) sample_claimed ?cs (foldl (\<lambda>s c. exec (\<lambda>_. False) c s) sample_claimed ?cs)"
    by (simp only: mem_run_exec)
  have upt: "[Suc 0..<3] = [1, 2]" by (simp add: upt_rec)
  show ?thesis
    using lease_covers_a_stage [OF run, of "''b''" "''w''" 65 job 50 "\<lambda>k. 2" 2 5] job
    by (auto simp: stage_call_def clocks_def renewals_def stage_renewals_def lease_interval_def asks_for_def upt
        simp del: foldl.simps)
qed

text \<open>The ticks of a stage of length \<open>d\<close>.\<close>

definition stage_ticks :: "duration \<Rightarrow> duration \<Rightarrow> nat" where
  "stage_ticks lease d = (if lease \<le> 0 then 0 else nat (d div lease_interval lease))"

lemma renewals_Nil: "renewals i w cs = [] \<Longrightarrow> c \<in> set cs \<Longrightarrow> renewal_at i w c = None"
  by (induction cs) (auto simp: renewals_def split: option.splits)

text \<open>
  Nothing carries over from one stage to the next: each starts its own ticker. A job whose stages
  are all shorter than half the lease is therefore never renewed, and when they add up to more than
  the lease the sweep takes the job away while its worker is still at work on it. The comment in
  \<open>worker_pools.go\<close> says that renewal is continuous from the preparation through the hand-off.
\<close>

theorem short_stages_let_the_lease_expire:
  assumes "r_jobs s i = Some job" "job_State job = StateRunning" "job_Worker job = w"
    and "job_LeaseUntil job = claimed + r_lease s" "claimed + r_lease s \<noteq> zero_time"
    and "\<forall>d \<in> set stages. 0 \<le> d \<and> d < lease_interval (r_lease s)"
    and "length (renewals i w cs) \<le> sum_list (map (stage_ticks (r_lease s)) stages)"
    and "\<forall>c \<in> set cs. sweep_at c = None \<and> stage_call i w c" and "mem_run U s cs s'"
    and "claimed + r_lease s < now" "now \<le> claimed + sum_list stages" and "i \<in> set ord"
  shows "\<not> holds i w (snd (RequeueExpired now clk ord s'))"
proof -
  have "stage_ticks (r_lease s) d = 0" if "d \<in> set stages" for d
    using assms(6) that by (auto simp: stage_ticks_def)
  then have zero: "sum_list (map (stage_ticks (r_lease s)) stages) = 0" by simp
  then have none: "renewals i w cs = []" using assms(7) unfolding zero by simp
  have alone: "\<forall>c \<in> set cs. leaves_alone i w c"
    using assms(8) renewals_Nil [OF none] by (auto simp: stage_call_def)
  have "\<exists>job'. r_jobs (foldl (\<lambda>s c. exec U c s) s cs) i = Some job' \<and> same_hold job job'"
    using alone assms(1-3)
  proof (induction cs arbitrary: s job)
    case (Cons c cs)
    obtain job1 where 1: "r_jobs (exec U c s) i = Some job1" "same_hold job job1"
      using exec_leaves_alone [of i w c s job U] Cons.prems by auto
    then obtain job2 where "r_jobs (foldl (\<lambda>s c. exec U c s) (exec U c s) cs) i = Some job2" "same_hold job1 job2"
      using Cons.IH [OF _ 1(1)] Cons.prems by (auto simp: same_hold_def)
    with 1 show ?case by (auto simp: same_hold_def)
  qed simp
  then obtain job' where "r_jobs s' i = Some job'" "same_hold job job'" using assms(9) by (auto simp: mem_run_exec)
  then show ?thesis
    using assms(2-5,10,12)
    by (auto simp: holds_def RequeueExpired_rows swept_row_def lease_expired_def same_hold_def)
qed

theorem short_stages_let_the_lease_expire_witness:
  "\<not> holds ''b'' ''w'' (snd (RequeueExpired 61 (\<lambda>_. 61) [''b''] sample_claimed))"
proof -
  obtain job where job: "r_jobs sample_claimed ''b'' = Some job" "job_State job = StateRunning" "job_Worker job = ''w''"
    "job_LeaseUntil job = 60" "r_lease sample_claimed = 10"
    by (simp add: sample_claimed_eq)
  have run: "mem_run (\<lambda>_. False) sample_claimed [] sample_claimed" by (simp add: mem_run_exec)
  show ?thesis
    by (rule short_stages_let_the_lease_expire [where claimed = 50 and stages = "[4, 4, 4]" and cs = "[]", OF job(1-3) _ _ _ _ _ run])
      (simp_all add: job lease_interval_def renewals_def)
qed

end
