(* ===== verification/Media_Probe.thy ===== *)
theory Media_Probe
  imports Queue_Service
begin

text \<open>
  Structural certification of a rendered file (\<open>renderinggen/internal/media\<close>): how the output of
  ffprobe becomes the facts of a \<open>ProbeResult\<close> (\<open>probe.go\<close>), the proof of a uniform closed-GOP
  cadence from the packet table (\<open>gop_probe.go\<close>), the overlay contract (\<open>validate.go\<close>) and the
  output profiles (\<open>profile.go\<close>). What ffprobe prints is a parameter, decoded from JSON; so are
  SHA-256 and \<open>strconv.ParseFloat\<close>.
\<close>

section \<open>Numerals and fields\<close>

definition is_digit :: "char \<Rightarrow> bool" where
  "is_digit c \<longleftrightarrow> 48 \<le> byte_of c \<and> byte_of c \<le> (57 :: nat)"

text \<open>\<open>strconv.Atoi\<close> on 64 bits; \<open>None\<close> is a syntax or range error.\<close>

definition Atoi :: "string \<Rightarrow> int option" where
  "Atoi s =
     (let neg = (take 1 s = ''-''); body = (if take 1 s = ''-'' \<or> take 1 s = ''+'' then drop 1 s else s)
      in if body = [] \<or> \<not> list_all is_digit body then None
         else let n = (if neg then - int (read_digits body) else int (read_digits body))
              in if - (2 ^ 63) \<le> n \<and> n < 2 ^ 63 then Some n else None)"

text \<open>\<open>strings.SplitN(s, sep, 2)\<close> with two parts (\<open>strings.Cut\<close>), and \<open>strings.Split\<close>, for a one-byte separator.\<close>

definition split_once :: "char \<Rightarrow> string \<Rightarrow> (string \<times> string) option" where
  "split_once c s = (if c \<in> set s then Some (takeWhile (\<lambda>x. x \<noteq> c) s, tl (dropWhile (\<lambda>x. x \<noteq> c) s)) else None)"

fun split_at :: "char \<Rightarrow> string \<Rightarrow> string list" where
  "split_at c [] = [[]]"
| "split_at c (x # xs) = (if x = c then [] # split_at c xs else (let ls = split_at c xs in (x # hd ls) # tl ls))"

text \<open>\<open>strings.Fields\<close>.\<close>

fun word_end :: "bytes \<Rightarrow> nat" where
  "word_end [] = 0"
| "word_end (c # cs) = (if space_prefix white_space (c # cs) > 0 then 0 else Suc (word_end cs))"

lemma trim_front_front: "trim_front ws s = [] \<or> space_prefix ws (trim_front ws s) = 0"
  by (induction ws s rule: trim_front.induct) (subst (1 2) trim_front.simps, auto)

lemma trim_front_length: "length (trim_front ws s) \<le> length s"
proof (induction ws s rule: trim_front.induct)
  case (1 ws s)
  then show ?case by (subst trim_front.simps) (auto intro: le_trans)
qed

function Fields :: "bytes \<Rightarrow> bytes list" where
  "Fields s =
     (let t = TrimLeft s in if t = [] then [] else take (word_end t) t # Fields (drop (word_end t) t))"
  by pat_completeness auto
termination
proof (relation "measure length")
  fix s t :: bytes
  assume t: "t = TrimLeft s" "t \<noteq> []"
  then have "space_prefix white_space t = 0" using trim_front_front [of white_space s] by (auto simp: TrimLeft_def)
  then have "0 < word_end t" using t(2) by (cases t) auto
  moreover have "length t \<le> length s" using t(1) trim_front_length by (simp add: TrimLeft_def)
  ultimately show "(drop (word_end t) t, s) \<in> measure length" using t(2) by (cases t) auto
qed simp

declare Fields.simps [simp del]

text \<open>A \<open>num/den\<close> or \<open>num:den\<close> form; \<open>(0, 0)\<close> stands for not reported.\<close>

definition parseRational :: "string \<Rightarrow> int \<times> int" where
  "parseRational raw0 =
     (let raw = TrimSpace raw0; sep = (if CHR '':'' \<in> set raw then CHR '':'' else CHR ''/'')
      in if raw = [] then (0, 0)
         else case split_once sep raw of
           None \<Rightarrow> (0, 0)
         | Some (a, b) \<Rightarrow>
             (case (Atoi (TrimSpace a), Atoi (TrimSpace b)) of
                (Some n, Some d) \<Rightarrow> if n \<le> 0 \<or> d \<le> 0 then (0, 0) else (n, d)
              | _ \<Rightarrow> (0, 0)))"

definition levelString :: "int \<Rightarrow> string" where
  "levelString level =
     (if level \<le> 0 then [] else decimal (nat (level div 10)) @ ''.'' @ decimal (nat (level mod 10)))"

text \<open>\<open>encoding/hex\<close>.\<close>

definition hex_val :: "char \<Rightarrow> nat option" where
  "hex_val c =
     (let b = byte_of c in
      if 48 \<le> b \<and> b \<le> 57 then Some (b - 48) else if 97 \<le> b \<and> b \<le> 102 then Some (b - 87)
      else if 65 \<le> b \<and> b \<le> 70 then Some (b - 55) else None)"

fun hex_decode :: "string \<Rightarrow> bytes option" where
  "hex_decode [] = Some []"
| "hex_decode [c] = None"
| "hex_decode (a # b # s) =
     (case (hex_val a, hex_val b, hex_decode s) of
        (Some x, Some y, Some r) \<Rightarrow> Some (char_of (16 * x + y) # r)
      | _ \<Rightarrow> None)"

text \<open>The text before the first run of two blanks, after which ffprobe prints the ASCII column.\<close>

fun before_gap :: "string \<Rightarrow> string" where
  "before_gap (x # y # s) = (if x = CHR '' '' \<and> y = CHR '' '' then [] else x # before_gap (y # s))"
| "before_gap s = s"

fun decode_words :: "string list \<Rightarrow> bytes option" where
  "decode_words [] = Some []"
| "decode_words (w # ws) =
     (if length w \<noteq> 2 \<and> length w \<noteq> 4 then None
      else case (hex_decode w, decode_words ws) of (Some a, Some b) \<Rightarrow> Some (a @ b) | _ \<Rightarrow> None)"

fun decode_dump :: "string list \<Rightarrow> bytes option" where
  "decode_dump [] = Some []"
| "decode_dump (line # ls) =
     (case split_once (CHR '':'') line of
        None \<Rightarrow> decode_dump ls
      | Some (_, payload) \<Rightarrow>
          (case (decode_words (Fields (before_gap (dropWhile (\<lambda>c. c = CHR '' '') payload))), decode_dump ls) of
             (Some a, Some b) \<Rightarrow> Some (a @ b)
           | _ \<Rightarrow> None))"

definition hashFFprobeExtradata :: "(bytes \<Rightarrow> string) \<Rightarrow> string \<Rightarrow> string" where
  "hashFFprobeExtradata sha dump =
     (if TrimSpace dump = [] then []
      else case decode_dump (split_at (CHR 0x0A) dump) of
        None \<Rightarrow> []
      | Some raw \<Rightarrow> if raw = [] then [] else sha raw)"

section \<open>The closed-GOP cadence\<close>

definition closedGOPPositionsCadence :: "int list \<Rightarrow> bool" where
  "closedGOPPositionsCadence positions =
     (if positions = [] \<or> hd positions \<noteq> 0 then False
      else if length positions < 3 then False
      else let expected = positions ! 1 - positions ! 0
           in expected > 0 \<and> list_all (\<lambda>i. positions ! i - positions ! (i - 1) = expected) [2..<length positions])"

text \<open>
  The tokens of \<open>json.Decoder\<close>; the list ends where the decoder reports an error or the end of
  ffprobe's output. The verdict is closed GOP, uncertifiable, and the interval.
\<close>

datatype json_token = Delim char | Text string | OtherToken

type_synonym gop_verdict = "bool \<times> bool \<times> int"

definition failProbe :: gop_verdict where "failProbe = (False, True, 0)"

text \<open>A third keyframe off the cadence ends the scan; the second one fixes the step.\<close>

definition note_keyframe :: "int list \<Rightarrow> int \<Rightarrow> (int list \<times> int) option" where
  "note_keyframe positions step =
     (let n = length positions in
      if n \<ge> 3 then (if positions ! (n - 1) - positions ! (n - 2) \<noteq> step then None else Some (positions, step))
      else if n = 2 then (let step' = positions ! 1 - positions ! 0 in if step' \<le> 0 then None else Some (positions, step'))
      else Some (positions, step))"

definition end_of_table :: "bool \<Rightarrow> int list \<Rightarrow> gop_verdict" where
  "end_of_table exitOK positions =
     (if \<not> exitOK then (False, True, 0)
      else if \<not> closedGOPPositionsCadence positions then (False, False, 0)
      else (True, False, if length positions \<ge> 2 then positions ! 1 - positions ! 0 else 0))"

fun scan_packets :: "bool \<Rightarrow> json_token list \<Rightarrow> int list \<Rightarrow> int \<Rightarrow> int \<Rightarrow> gop_verdict" where
  "scan_packets exitOK [] positions step packetIndex = failProbe"
| "scan_packets exitOK (tok # toks) positions step packetIndex =
     (if tok = Delim (CHR '']'') then end_of_table exitOK positions
      else if tok \<noteq> Delim (CHR ''{'') then failProbe
      else case toks of
        keyTok # valueTok # closeTok # rest \<Rightarrow>
          (if keyTok \<noteq> Text ''flags'' then failProbe
           else case valueTok of
             Text flags \<Rightarrow>
               (if closeTok \<noteq> Delim (CHR ''}'') then failProbe
                else if CHR ''K'' \<in> set flags then
                  (case note_keyframe (positions @ [packetIndex]) step of
                     None \<Rightarrow> (False, False, 0)
                   | Some (positions', step') \<Rightarrow> scan_packets exitOK rest positions' step' (packetIndex + 1))
                else scan_packets exitOK rest positions step (packetIndex + 1))
           | _ \<Rightarrow> failProbe)
      | _ \<Rightarrow> failProbe)"

definition probeClosedGOP :: "bool \<Rightarrow> json_token list \<Rightarrow> bool \<Rightarrow> gop_verdict" where
  "probeClosedGOP started tokens exitOK =
     (if \<not> started then (False, True, 0)
      else case tokens of
        a # b # c # rest \<Rightarrow>
          (if a \<noteq> Delim (CHR ''{'') \<or> b \<noteq> Text ''packets'' \<or> c \<noteq> Delim (CHR ''['') then failProbe
           else scan_packets exitOK rest [] 0 0)
      | _ \<Rightarrow> failProbe)"

section \<open>Probe results\<close>

text \<open>The pairs are the \<open>Num\<close> and \<open>Den\<close> fields of a rational.\<close>

record ProbeResult =
  pb_Container :: string
  pb_DurationUS :: int
  pb_Width :: int
  pb_Height :: int
  pb_FPSNum :: int
  pb_FPSDen :: int
  pb_PixelFormat :: string
  pb_VideoCodec :: string
  pb_CodecProfile :: string
  pb_FrameCount :: int
  pb_FirstFrameKeyframe :: bool
  pb_HasVideo :: bool
  pb_VideoStreams :: int
  pb_VideoLevel :: string
  pb_CodecConfigSHA256 :: string
  pb_VideoTimeBase :: "int \<times> int"
  pb_AudioTimeBase :: "int \<times> int"
  pb_SAR :: "int \<times> int"
  pb_ColorRange :: string
  pb_ColorSpace :: string
  pb_ColorTransfer :: string
  pb_ColorPrimaries :: string
  pb_FieldOrder :: string
  pb_StartPTS :: int
  pb_KeyframeInterval :: int
  pb_AudioStreams :: int
  pb_HasAudio :: bool
  pb_AudioCodec :: string
  pb_AudioProfile :: string
  pb_SampleRate :: int
  pb_Channels :: int
  pb_ChannelLayout :: string
  pb_AudioBitrate :: string
  pb_ClosedGOP :: bool
  pb_ClosedGOPUncertifiable :: bool
  pb_FPSUncertifiable :: bool

definition no_probe :: ProbeResult where
  "no_probe = \<lparr> pb_Container = [], pb_DurationUS = 0, pb_Width = 0, pb_Height = 0, pb_FPSNum = 0,
     pb_FPSDen = 0, pb_PixelFormat = [], pb_VideoCodec = [], pb_CodecProfile = [], pb_FrameCount = 0,
     pb_FirstFrameKeyframe = False, pb_HasVideo = False, pb_VideoStreams = 0, pb_VideoLevel = [],
     pb_CodecConfigSHA256 = [], pb_VideoTimeBase = (0, 0), pb_AudioTimeBase = (0, 0), pb_SAR = (0, 0),
     pb_ColorRange = [], pb_ColorSpace = [], pb_ColorTransfer = [], pb_ColorPrimaries = [],
     pb_FieldOrder = [], pb_StartPTS = 0, pb_KeyframeInterval = 0, pb_AudioStreams = 0,
     pb_HasAudio = False, pb_AudioCodec = [], pb_AudioProfile = [], pb_SampleRate = 0, pb_Channels = 0,
     pb_ChannelLayout = [], pb_AudioBitrate = [], pb_ClosedGOP = False, pb_ClosedGOPUncertifiable = False,
     pb_FPSUncertifiable = False \<rparr>"

record ffprobe_stream =
  fs_Index :: int
  fs_CodecType :: string
  fs_CodecName :: string
  fs_Width :: int
  fs_Height :: int
  fs_PixFmt :: string
  fs_Rate :: string
  fs_Profile :: string
  fs_Level :: int
  fs_Extradata :: string
  fs_NbFrames :: string
  fs_TimeBase :: string
  fs_SampleAspectRatio :: string
  fs_ColorRange :: string
  fs_ColorSpace :: string
  fs_ColorTransfer :: string
  fs_ColorPrimaries :: string
  fs_FieldOrder :: string
  fs_StartPTS :: "int option"
  fs_SampleRate :: string
  fs_Channels :: int
  fs_ChannelLayout :: string
  fs_BitRate :: string

record probeFrame =
  pf_StreamIndex :: "int option"
  pf_Key :: int

record ffprobeDocument =
  fd_Streams :: "ffprobe_stream list"
  fd_FormatName :: string
  fd_Duration :: string
  fd_Frames :: "probeFrame list"

definition firstFrameOfStream :: "probeFrame list \<Rightarrow> int \<Rightarrow> probeFrame option" where
  "firstFrameOfStream frames streamIndex =
     first_such (\<lambda>f. streamIndex < 0 \<or> pf_StreamIndex f = None \<or> pf_StreamIndex f = Some streamIndex) frames"

definition audio_facts :: "ffprobe_stream \<Rightarrow> ProbeResult \<Rightarrow> ProbeResult" where
  "audio_facts st r = r\<lparr> pb_AudioCodec := fs_CodecName st, pb_AudioProfile := fs_Profile st,
     pb_ChannelLayout := fs_ChannelLayout st, pb_Channels := fs_Channels st,
     pb_AudioBitrate := TrimSpace (fs_BitRate st),
     pb_SampleRate := (case Atoi (TrimSpace (fs_SampleRate st)) of
         Some rate \<Rightarrow> if rate > 0 then rate else pb_SampleRate r
       | None \<Rightarrow> pb_SampleRate r),
     pb_AudioTimeBase := parseRational (fs_TimeBase st) \<rparr>"

definition frame_rate :: "string \<Rightarrow> ProbeResult \<Rightarrow> ProbeResult" where
  "frame_rate rate r =
     (case split_once (CHR ''/'') rate of
        None \<Rightarrow> r\<lparr> pb_FPSUncertifiable := True \<rparr>
      | Some (a, b) \<Rightarrow>
          (case (Atoi a, Atoi b) of
             (Some num, Some den) \<Rightarrow>
               if num \<le> 0 \<or> den \<le> 0 then r\<lparr> pb_FPSUncertifiable := True \<rparr>
               else r\<lparr> pb_FPSNum := num, pb_FPSDen := den \<rparr>
           | _ \<Rightarrow> r\<lparr> pb_FPSUncertifiable := True \<rparr>))"

definition video_facts :: "(bytes \<Rightarrow> string) \<Rightarrow> ffprobe_stream \<Rightarrow> ProbeResult \<Rightarrow> ProbeResult" where
  "video_facts sha st r = frame_rate (fs_Rate st) (r\<lparr>
     pb_HasVideo := True, pb_VideoCodec := fs_CodecName st, pb_CodecProfile := fs_Profile st,
     pb_VideoLevel := levelString (fs_Level st), pb_CodecConfigSHA256 := hashFFprobeExtradata sha (fs_Extradata st),
     pb_FrameCount := (case Atoi (fs_NbFrames st) of Some n \<Rightarrow> n | None \<Rightarrow> pb_FrameCount r),
     pb_Width := fs_Width st, pb_Height := fs_Height st, pb_PixelFormat := fs_PixFmt st,
     pb_ColorRange := fs_ColorRange st, pb_ColorSpace := fs_ColorSpace st,
     pb_ColorTransfer := fs_ColorTransfer st, pb_ColorPrimaries := fs_ColorPrimaries st,
     pb_FieldOrder := fs_FieldOrder st,
     pb_StartPTS := (case fs_StartPTS st of Some t \<Rightarrow> if t > 0 then t else pb_StartPTS r | None \<Rightarrow> pb_StartPTS r),
     pb_VideoTimeBase := parseRational (fs_TimeBase st), pb_SAR := parseRational (fs_SampleAspectRatio st) \<rparr>)"

text \<open>The flags say whether a video and an audio stream were seen; the index is that of the video stream.\<close>

fun scan_streams ::
  "(bytes \<Rightarrow> string) \<Rightarrow> ffprobe_stream list \<Rightarrow> bool \<Rightarrow> bool \<Rightarrow> int \<Rightarrow> ProbeResult \<Rightarrow> ProbeResult \<times> int" where
  "scan_streams sha [] videoSeen audioSeen idx r = (r, idx)"
| "scan_streams sha (st # sts) videoSeen audioSeen idx r =
     (if fs_CodecType st = ''audio'' then
        (let r1 = r\<lparr> pb_AudioStreams := pb_AudioStreams r + 1 \<rparr>
         in scan_streams sha sts videoSeen True idx (if audioSeen then r1 else audio_facts st r1))
      else if fs_CodecType st \<noteq> ''video'' then scan_streams sha sts videoSeen audioSeen idx r
      else
        (let r1 = r\<lparr> pb_VideoStreams := pb_VideoStreams r + 1 \<rparr>
         in if videoSeen then scan_streams sha sts videoSeen audioSeen idx r1
            else scan_streams sha sts True audioSeen (fs_Index st) (video_facts sha st r1)))"

text \<open>
  What the runs of ffprobe give for a file: the document (\<open>None\<close>: the run or the decoding failed),
  the output of the frame count, the packet scan. \<open>fp_micros\<close> is the conversion of the duration text
  to microseconds (\<open>None\<close>: not a positive number).
\<close>

record ffprobe_runs =
  fp_document :: "ffprobeDocument option"
  fp_micros :: "string \<Rightarrow> int option"
  fp_count :: "string option"
  fp_gopStarted :: bool
  fp_gopTokens :: "json_token list"
  fp_gopExit :: bool

definition counted_frames :: "int \<Rightarrow> string option \<Rightarrow> ProbeResult \<Rightarrow> ProbeResult" where
  "counted_frames known count r =
     (let r1 = (if pb_FrameCount r = 0 \<and> known > 0 then r\<lparr> pb_FrameCount := known \<rparr> else r)
      in if pb_FrameCount r1 \<noteq> 0 then r1
         else case count of
           None \<Rightarrow> r1
         | Some out \<Rightarrow> (case Atoi (TrimSpace out) of Some n \<Rightarrow> r1\<lparr> pb_FrameCount := n \<rparr> | None \<Rightarrow> r1))"

definition probeFile :: "(bytes \<Rightarrow> string) \<Rightarrow> ffprobe_runs \<Rightarrow> int \<Rightarrow> ProbeResult option" where
  "probeFile sha fp known =
     (case fp_document fp of
        None \<Rightarrow> None
      | Some doc \<Rightarrow>
          (let r0 = no_probe\<lparr> pb_Container := fd_FormatName doc,
                      pb_DurationUS := (case fp_micros fp (fd_Duration doc) of Some us \<Rightarrow> us | None \<Rightarrow> 0) \<rparr>;
               (r1, idx) = scan_streams sha (fd_Streams doc) False False (- 1) r0;
               r2 = r1\<lparr> pb_HasAudio := pb_AudioStreams r1 > 0,
                        pb_FirstFrameKeyframe := (case firstFrameOfStream (fd_Frames doc) idx of
                            Some f \<Rightarrow> pf_Key f = 1 | None \<Rightarrow> False) \<rparr>;
               r3 = counted_frames known (fp_count fp) r2;
               (closedGOP, uncertifiable, interval) = probeClosedGOP (fp_gopStarted fp) (fp_gopTokens fp) (fp_gopExit fp)
           in Some (r3\<lparr> pb_ClosedGOP := closedGOP, pb_ClosedGOPUncertifiable := uncertifiable,
                        pb_KeyframeInterval := interval \<rparr>)))"

definition ProbeFile :: "(bytes \<Rightarrow> string) \<Rightarrow> ffprobe_runs \<Rightarrow> ProbeResult option" where
  "ProbeFile sha fp = probeFile sha fp 0"

definition ProbeFileWithKnownFrameCount :: "(bytes \<Rightarrow> string) \<Rightarrow> ffprobe_runs \<Rightarrow> int \<Rightarrow> ProbeResult option" where
  "ProbeFileWithKnownFrameCount sha fp known = probeFile sha fp (if known < 0 then 0 else known)"

text \<open>
  The cache of certified probes, a map of at most 256 entries. \<open>victim\<close> is the key that an iteration
  of the full map meets first.
\<close>

definition probeCacheMaxEntries :: nat where "probeCacheMaxEntries = 256"

definition ProbeFileCached ::
  "(bytes \<Rightarrow> string) \<Rightarrow> ffprobe_runs \<Rightarrow> string \<Rightarrow> string \<Rightarrow> (string \<times> ProbeResult) list \<Rightarrow>
   ProbeResult option \<times> (string \<times> ProbeResult) list" where
  "ProbeFileCached sha fp victim storageKey cache =
     (case (if storageKey = [] then None else map_of cache storageKey) of
        Some cached \<Rightarrow> (Some cached, cache)
      | None \<Rightarrow>
          (case ProbeFile sha fp of
             None \<Rightarrow> (None, cache)
           | Some r \<Rightarrow>
               (if storageKey = [] then (Some r, cache)
                else let kept = (if length cache \<ge> probeCacheMaxEntries then filter (\<lambda>(k, _). k \<noteq> victim) cache else cache)
                     in (Some r, (storageKey, r) # filter (\<lambda>(k, _). k \<noteq> storageKey) kept))))"

section \<open>The overlay contract\<close>

datatype media_error =
    OverlayHasAudio | OverlayNotPositive | OverlayResolution | OverlayFPSUncertifiable | OverlayFPS | OverlayNoCodec
  | UnknownProfile | ProfileContainer | ProfileVideo | ProfileRate | ProfileCodecProfile | ProfileLevel
  | ProfileCodecConfig | ProfileHasAudio | ProfileNoKeyframe | ProfileOpenGOP bool | ProfileInterval | ProfileSAR
  | ProfileVideoTimeBase | ProfileAudioTimeBase | ProfileColour string | ProfileStartPTS | ProfileVideoStreams
  | ProfileAudioStreams | ProfileAudioCodec | ProfileAudioProfile | ProfileSampleRate | ProfileChannels
  | ProfileChannelLayout | ProfileBitrate | ProfileNotPositive | VisibilityDuration | VisibilityFFmpeg | VisibilityNothing

definition ValidateOverlay :: "ProbeResult \<Rightarrow> int \<Rightarrow> int \<Rightarrow> int \<Rightarrow> int \<Rightarrow> media_error option" where
  "ValidateOverlay p width height fpsNum fpsDen =
     (if pb_AudioStreams p \<noteq> 0 then Some OverlayHasAudio
      else if pb_DurationUS p \<le> 0 \<or> pb_Width p \<le> 0 \<or> pb_Height p \<le> 0 then Some OverlayNotPositive
      else if width > 0 \<and> (pb_Width p \<noteq> width \<or> pb_Height p \<noteq> height) then Some OverlayResolution
      else if fpsNum > 0 \<and> fpsDen > 0 \<and> (pb_FPSUncertifiable p \<or> pb_FPSNum p \<le> 0 \<or> pb_FPSDen p \<le> 0)
      then Some OverlayFPSUncertifiable
      else if fpsNum > 0 \<and> fpsDen > 0 \<and> wrap64 (pb_FPSNum p * fpsDen) \<noteq> wrap64 (fpsNum * pb_FPSDen p) then Some OverlayFPS
      else if pb_VideoCodec p = [] \<or> pb_Container p = [] then Some OverlayNoCodec
      else None)"

text \<open>
  The pixel gate: ffmpeg prints the signal statistics of three frames (\<open>None\<close>: a run failed).
  \<open>parse_float\<close> is \<open>strconv.ParseFloat\<close>, with 0 for a text that is no number.
\<close>

fun contains :: "string \<Rightarrow> string \<Rightarrow> bool" where
  "contains w [] = (w = [])"
| "contains w (c # cs) = (take (length w) (c # cs) = w \<or> contains w cs)"

fun sample_ymax :: "(string \<Rightarrow> rat) \<Rightarrow> string list \<Rightarrow> rat \<Rightarrow> rat" where
  "sample_ymax parse_float [] best = best"
| "sample_ymax parse_float (raw # ls) best =
     (let line = TrimSpace raw
      in sample_ymax parse_float ls
           (if contains ''lavfi.signalstats.YMAX='' line then
              (case split_once (CHR ''='') line of
                 None \<Rightarrow> best
               | Some (_, v) \<Rightarrow> if parse_float (TrimSpace v) > best then parse_float (TrimSpace v) else best)
            else best))"

fun visible_samples :: "(string \<Rightarrow> rat) \<Rightarrow> string option list \<Rightarrow> rat \<Rightarrow> nat \<Rightarrow> (rat \<times> nat) option" where
  "visible_samples parse_float [] best count = Some (best, count)"
| "visible_samples parse_float (None # outs) best count = None"
| "visible_samples parse_float (Some out # outs) best count =
     (let y = sample_ymax parse_float (split_at (CHR 0x0A) out) 0
      in visible_samples parse_float outs (if y > best then y else best) (if y > 16 then count + 1 else count))"

definition ValidateVisible :: "(string \<Rightarrow> rat) \<Rightarrow> string option list \<Rightarrow> ProbeResult \<Rightarrow> media_error option" where
  "ValidateVisible parse_float outs p =
     (if pb_DurationUS p \<le> 0 then Some VisibilityDuration
      else case visible_samples parse_float outs 0 0 of
        None \<Rightarrow> Some VisibilityFFmpeg
      | Some (best, count) \<Rightarrow> if count = 0 \<or> best \<le> 16 then Some VisibilityNothing else None)"

section \<open>Output profiles\<close>

record OutputProfile =
  op_ID :: string
  op_Width :: int
  op_Height :: int
  op_FPSNum :: int
  op_FPSDen :: int
  op_Codec :: string
  op_CodecProfile :: string
  op_CodecConfigSHA256 :: string
  op_AcceptedCodecProfiles :: "string list"
  op_PixelFormat :: string
  op_Container :: string
  op_RequireNoAudio :: bool
  op_RequireKeyframe :: bool
  op_VideoLevel :: string
  op_RequireClosedGOP :: bool
  op_KeyframeInterval :: int
  op_SAR :: "int \<times> int"
  op_VideoTimeBase :: "int \<times> int"
  op_AudioTimeBase :: "int \<times> int"
  op_ColorRange :: string
  op_ColorSpace :: string
  op_ColorTransfer :: string
  op_ColorPrimaries :: string
  op_RequireStartPTSZero :: bool
  op_VideoStreams :: int
  op_AudioStreams :: int
  op_AudioCodec :: string
  op_AudioProfile :: string
  op_AudioSampleRate :: int
  op_AudioChannels :: int
  op_AudioChannelLayout :: string
  op_AudioBitrate :: string

definition no_profile :: OutputProfile where
  "no_profile = \<lparr> op_ID = [], op_Width = 0, op_Height = 0, op_FPSNum = 0, op_FPSDen = 0, op_Codec = [],
     op_CodecProfile = [], op_CodecConfigSHA256 = [], op_AcceptedCodecProfiles = [], op_PixelFormat = [],
     op_Container = [], op_RequireNoAudio = False, op_RequireKeyframe = False, op_VideoLevel = [],
     op_RequireClosedGOP = False, op_KeyframeInterval = 0, op_SAR = (0, 0), op_VideoTimeBase = (0, 0),
     op_AudioTimeBase = (0, 0), op_ColorRange = [], op_ColorSpace = [], op_ColorTransfer = [],
     op_ColorPrimaries = [], op_RequireStartPTSZero = False, op_VideoStreams = 0, op_AudioStreams = 0,
     op_AudioCodec = [], op_AudioProfile = [], op_AudioSampleRate = 0, op_AudioChannels = 0,
     op_AudioChannelLayout = [], op_AudioBitrate = [] \<rparr>"

definition assemblyReadyProfile :: OutputProfile where
  "assemblyReadyProfile = no_profile\<lparr> op_Width := 1920, op_Height := 1080, op_FPSNum := 24, op_FPSDen := 1,
     op_Codec := ''h264'', op_CodecProfile := ''High'',
     op_CodecConfigSHA256 := ''7201ce80a2b2b32a0c1a89501851099f267c1767d59ff799db744f72032aae5a'',
     op_PixelFormat := ''yuv420p'', op_Container := ''mp4'', op_RequireNoAudio := False,
     op_RequireKeyframe := True, op_RequireClosedGOP := True, op_KeyframeInterval := 48, op_SAR := (1, 1),
     op_ColorRange := ''tv'', op_ColorSpace := ''bt709'', op_ColorTransfer := ''bt709'',
     op_ColorPrimaries := ''bt709'', op_RequireStartPTSZero := True, op_VideoStreams := 1,
     op_AudioStreams := 1, op_AudioCodec := ''aac'', op_AudioProfile := ''LC'', op_AudioSampleRate := 48000 \<rparr>"

definition overlayVideoOnlyProfile :: OutputProfile where
  "overlayVideoOnlyProfile = no_profile\<lparr> op_Width := 1920, op_Height := 1080, op_FPSNum := 24, op_FPSDen := 1,
     op_Codec := ''h264'', op_CodecProfile := ''High'', op_PixelFormat := ''yuv420p'', op_Container := ''mp4'',
     op_RequireNoAudio := True, op_RequireKeyframe := True, op_KeyframeInterval := 48, op_SAR := (1, 1),
     op_ColorRange := ''tv'', op_ColorSpace := ''bt709'', op_ColorPrimaries := ''bt709'',
     op_RequireStartPTSZero := True, op_VideoStreams := 1, op_AudioStreams := 0 \<rparr>"

definition copy_ready_profile :: "string \<Rightarrow> int \<Rightarrow> int \<Rightarrow> OutputProfile" where
  "copy_ready_profile i width height = no_profile\<lparr> op_ID := i, op_Width := width, op_Height := height,
     op_FPSNum := 30, op_FPSDen := 1, op_Codec := ''h264'', op_CodecProfile := ''High'',
     op_PixelFormat := ''yuv420p'', op_Container := ''mp4'', op_RequireNoAudio := True, op_RequireKeyframe := True \<rparr>"

definition profiles :: "(string \<times> OutputProfile) list" where
  "profiles =
     [(''VELOX_OVERLAY_VIDEO_ONLY_V1'',
        overlayVideoOnlyProfile\<lparr> op_ID := ''VELOX_OVERLAY_VIDEO_ONLY_V1'', op_VideoLevel := ''4.0'' \<rparr>),
      (''VELOX_OVERLAY_VIDEO_ONLY_V2'',
        overlayVideoOnlyProfile\<lparr> op_ID := ''VELOX_OVERLAY_VIDEO_ONLY_V2'', op_VideoLevel := ''4.0'' \<rparr>),
      (''VELOX_ASSEMBLY_READY_V1'',
        assemblyReadyProfile\<lparr> op_ID := ''VELOX_ASSEMBLY_READY_V1'', op_VideoLevel := ''4.0'' \<rparr>),
      (''VELOX_ASSEMBLY_READY_V2'',
        assemblyReadyProfile\<lparr> op_ID := ''VELOX_ASSEMBLY_READY_V2'', op_VideoLevel := ''4.1'' \<rparr>),
      (''velox-h264-1080p30-v1'', copy_ready_profile ''velox-h264-1080p30-v1'' 1920 1080),
      (''velox-h264-720p30-v1'', copy_ready_profile ''velox-h264-720p30-v1'' 1280 720)]"

definition ResolveProfile :: "string \<Rightarrow> OutputProfile option" where
  "ResolveProfile i = map_of profiles i"

text \<open>Whether a rational is pinned, and whether the certified one equals it.\<close>

definition pinRational :: "int \<times> int \<Rightarrow> int \<times> int \<Rightarrow> bool \<times> bool" where
  "pinRational want got =
     (if fst want = 0 \<or> snd want = 0 then (False, True)
      else if fst got = 0 \<or> snd got = 0 then (True, False)
      else (True, wrap64 (fst want * snd got) = wrap64 (fst got * snd want)))"

definition rational_mismatch :: "int \<times> int \<Rightarrow> int \<times> int \<Rightarrow> bool" where
  "rational_mismatch want got \<longleftrightarrow> pinRational want got = (True, False)"

definition acceptsProfile :: "OutputProfile \<Rightarrow> string \<Rightarrow> bool" where
  "acceptsProfile p certified \<longleftrightarrow> certified = op_CodecProfile p \<or> certified \<in> set (op_AcceptedCodecProfiles p)"

text \<open>A pinned text is compared only when the certification reports one.\<close>

definition text_mismatch :: "string \<Rightarrow> string \<Rightarrow> bool" where
  "text_mismatch want certified \<longleftrightarrow> want \<noteq> [] \<and> certified \<noteq> [] \<and> certified \<noteq> want"

definition number_mismatch :: "int \<Rightarrow> int \<Rightarrow> bool" where
  "number_mismatch want certified \<longleftrightarrow> want > 0 \<and> certified > 0 \<and> certified \<noteq> want"

definition validateColour :: "OutputProfile \<Rightarrow> ProbeResult \<Rightarrow> media_error option" where
  "validateColour p pb =
     map_option (\<lambda>(n, _). ProfileColour n) (first_such (\<lambda>(_, want, certified). text_mismatch want certified)
       [(''color_range'', op_ColorRange p, pb_ColorRange pb), (''color_space'', op_ColorSpace p, pb_ColorSpace pb),
        (''color_transfer'', op_ColorTransfer p, pb_ColorTransfer pb),
        (''color_primaries'', op_ColorPrimaries p, pb_ColorPrimaries pb)])"

text \<open>The checks of \<open>ValidateProbe\<close> in their order, before and after the colour block.\<close>

definition probe_checks :: "OutputProfile \<Rightarrow> ProbeResult \<Rightarrow> (bool \<times> media_error) list" where
  "probe_checks p pb =
     [(pb_Container pb \<noteq> op_Container p \<and> pb_Container pb \<noteq> ''mov,mp4,m4a,3gp,3g2,mj2'', ProfileContainer),
      (pb_VideoCodec pb \<noteq> op_Codec p \<or> pb_Width pb \<noteq> op_Width p \<or> pb_Height pb \<noteq> op_Height p, ProfileVideo),
      (pb_FPSNum pb \<noteq> op_FPSNum p \<or> pb_FPSDen pb \<noteq> op_FPSDen p \<or> pb_PixelFormat pb \<noteq> op_PixelFormat p, ProfileRate),
      (\<not> acceptsProfile p (pb_CodecProfile pb), ProfileCodecProfile),
      (text_mismatch (op_VideoLevel p) (pb_VideoLevel pb), ProfileLevel),
      (op_CodecConfigSHA256 p \<noteq> [] \<and> pb_CodecConfigSHA256 pb \<noteq> op_CodecConfigSHA256 p, ProfileCodecConfig),
      (op_RequireNoAudio p \<and> pb_AudioStreams pb \<noteq> 0, ProfileHasAudio),
      (op_RequireKeyframe p \<and> \<not> pb_FirstFrameKeyframe pb, ProfileNoKeyframe),
      (op_RequireClosedGOP p \<and> \<not> pb_ClosedGOP pb, ProfileOpenGOP (pb_ClosedGOPUncertifiable pb)),
      (number_mismatch (op_KeyframeInterval p) (pb_KeyframeInterval pb), ProfileInterval),
      (rational_mismatch (op_SAR p) (pb_SAR pb), ProfileSAR),
      (rational_mismatch (op_VideoTimeBase p) (pb_VideoTimeBase pb), ProfileVideoTimeBase),
      (rational_mismatch (op_AudioTimeBase p) (pb_AudioTimeBase pb), ProfileAudioTimeBase)]"

definition probe_checks_more :: "OutputProfile \<Rightarrow> ProbeResult \<Rightarrow> (bool \<times> media_error) list" where
  "probe_checks_more p pb =
     [(op_RequireStartPTSZero p \<and> pb_StartPTS pb \<noteq> 0, ProfileStartPTS),
      (number_mismatch (op_VideoStreams p) (pb_VideoStreams pb), ProfileVideoStreams),
      (op_AudioStreams p > 0 \<and> op_AudioStreams p \<noteq> pb_AudioStreams pb, ProfileAudioStreams),
      (text_mismatch (op_AudioCodec p) (pb_AudioCodec pb), ProfileAudioCodec),
      (text_mismatch (op_AudioProfile p) (pb_AudioProfile pb), ProfileAudioProfile),
      (number_mismatch (op_AudioSampleRate p) (pb_SampleRate pb), ProfileSampleRate),
      (number_mismatch (op_AudioChannels p) (pb_Channels pb), ProfileChannels),
      (text_mismatch (op_AudioChannelLayout p) (pb_ChannelLayout pb), ProfileChannelLayout),
      (text_mismatch (op_AudioBitrate p) (pb_AudioBitrate pb), ProfileBitrate),
      (pb_DurationUS pb \<le> 0 \<or> pb_FrameCount pb \<le> 0, ProfileNotPositive)]"

definition ValidateProbe :: "OutputProfile \<Rightarrow> ProbeResult \<Rightarrow> media_error option" where
  "ValidateProbe p pb =
     (case first_such fst (probe_checks p pb) of
        Some (_, e) \<Rightarrow> Some e
      | None \<Rightarrow>
          (case validateColour p pb of
             Some e \<Rightarrow> Some e
           | None \<Rightarrow> map_option snd (first_such fst (probe_checks_more p pb))))"

section \<open>The verdict of the packet scan\<close>

text \<open>The tokens of a packet table, and the positions of its keyframes.\<close>

definition packet_tokens :: "string list \<Rightarrow> json_token list" where
  "packet_tokens fs = concat (map (\<lambda>f. [Delim (CHR ''{''), Text ''flags'', Text f, Delim (CHR ''}'')]) fs)"

definition packet_table :: "string list \<Rightarrow> json_token list" where
  "packet_table fs = [Delim (CHR ''{''), Text ''packets'', Delim (CHR ''['')] @ packet_tokens fs @ [Delim (CHR '']'')]"

fun key_positions :: "int \<Rightarrow> string list \<Rightarrow> int list" where
  "key_positions i [] = []"
| "key_positions i (f # fs) = (if CHR ''K'' \<in> set f then [i] else []) @ key_positions (i + 1) fs"

definition uniform :: "int \<Rightarrow> nat \<Rightarrow> int list" where
  "uniform L n = map (\<lambda>k. int k * L) [0..<n]"

lemma packet_tokens_simps [simp]:
  "packet_tokens [] = []"
  "packet_tokens (f # fs) = [Delim (CHR ''{''), Text ''flags'', Text f, Delim (CHR ''}'')] @ packet_tokens fs"
  by (simp_all add: packet_tokens_def)

fun gaps :: "int list \<Rightarrow> int \<Rightarrow> bool" where
  "gaps (x # y # zs) L \<longleftrightarrow> y - x = L \<and> gaps (y # zs) L"
| "gaps zs L \<longleftrightarrow> True"

lemma gaps_append: "gaps (ps @ qs) L \<Longrightarrow> gaps ps L"
  by (induction ps L rule: gaps.induct) auto

lemma gaps_snoc: "ps \<noteq> [] \<Longrightarrow> gaps (ps @ [x]) L \<longleftrightarrow> gaps ps L \<and> x - last ps = L"
  by (induction ps L rule: gaps.induct) auto

lemma all_nat_cases: "(\<forall>i :: nat. P i) \<longleftrightarrow> P 0 \<and> (\<forall>i. P (Suc i))"
  by (metis not0_implies_Suc)

lemma gaps_nth: "gaps ps L \<longleftrightarrow> (\<forall>i. Suc i < length ps \<longrightarrow> ps ! Suc i - ps ! i = L)"
proof (induction ps L rule: gaps.induct)
  case (1 x y zs L)
  have "(\<forall>i. Suc i < length (x # y # zs) \<longrightarrow> (x # y # zs) ! Suc i - (x # y # zs) ! i = L)
      \<longleftrightarrow> y - x = L \<and> (\<forall>i. Suc i < length (y # zs) \<longrightarrow> (y # zs) ! Suc i - (y # zs) ! i = L)"
    using all_nat_cases [of "\<lambda>i. Suc i < length (x # y # zs) \<longrightarrow> (x # y # zs) ! Suc i - (x # y # zs) ! i = L"] by simp
  then show ?case using 1 by simp
qed simp_all

lemma gaps_uniform: "gaps ps L \<Longrightarrow> ps = map (\<lambda>k. hd ps + int k * L) [0..<length ps]"
proof (induction ps L rule: gaps.induct)
  case (1 x y zs L)
  then have y: "y = x + L" by simp
  have "y # zs = map (\<lambda>k. hd (y # zs) + int k * L) [0..<length (y # zs)]"
    using 1(1) 1(2) [unfolded gaps.simps(1)] by blast
  then have "y # zs = map (\<lambda>k. (x + L) + int k * L) [0..<length (y # zs)]" unfolding list.sel(1) y .
  moreover have "map (\<lambda>k. x + int k * L) [0..<length (x # y # zs)]
      = x # map (\<lambda>k. (x + L) + int k * L) [0..<length (y # zs)]"
    by (simp only: length_Cons map_upt_Suc) (simp add: algebra_simps)
  ultimately show ?case by (metis list.sel(1))
qed simp_all

lemma uniform_gaps: "gaps (uniform L n) L"
  by (simp add: gaps_nth uniform_def algebra_simps)

lemma gap_unique: "gaps ps L \<Longrightarrow> gaps ps L' \<Longrightarrow> 2 \<le> length ps \<Longrightarrow> L = L'"
  by (cases ps; cases "tl ps") auto

lemma cadence_gaps:
  "closedGOPPositionsCadence ps \<longleftrightarrow> 3 \<le> length ps \<and> hd ps = 0 \<and> (\<exists>L > 0. gaps ps L)"
proof
  assume c: "closedGOPPositionsCadence ps"
  let ?L = "ps ! 1 - ps ! 0"
  have len: "3 \<le> length ps" "hd ps = 0" "0 < ?L"
    and all: "\<forall>i \<in> {2..<length ps}. ps ! i - ps ! (i - 1) = ?L"
    using c by (auto simp: closedGOPPositionsCadence_def Let_def list_all_iff split: if_splits)
  have "ps ! Suc i - ps ! i = ?L" if "Suc i < length ps" for i
    using bspec [OF all, of "Suc i"] that by (cases "i = 0") auto
  then have "gaps ps ?L" unfolding gaps_nth by blast
  then show "3 \<le> length ps \<and> hd ps = 0 \<and> (\<exists>L > 0. gaps ps L)" using len by blast
next
  assume r: "3 \<le> length ps \<and> hd ps = 0 \<and> (\<exists>L > 0. gaps ps L)"
  then obtain L where L: "0 < L" "\<forall>i. Suc i < length ps \<longrightarrow> ps ! Suc i - ps ! i = L" by (auto simp: gaps_nth)
  have first: "ps ! 1 - ps ! 0 = L" using spec [OF L(2), of 0] r by simp
  have "ps ! i - ps ! (i - 1) = L" if "i \<in> {2..<length ps}" for i
    using spec [OF L(2), of "i - 1"] that by simp
  then show "closedGOPPositionsCadence ps"
    using r L(1) first by (auto simp: closedGOPPositionsCadence_def list_all_iff)
qed

lemma cadence_uniform: "closedGOPPositionsCadence ps \<longleftrightarrow> (\<exists>L n. 0 < L \<and> 3 \<le> n \<and> ps = uniform L n)"
proof
  assume "closedGOPPositionsCadence ps"
  then obtain L where "0 < L" "3 \<le> length ps" "hd ps = 0" "gaps ps L" by (auto simp: cadence_gaps)
  then have "ps = uniform L (length ps)" using gaps_uniform [of ps L] by (simp add: uniform_def)
  then show "\<exists>L n. 0 < L \<and> 3 \<le> n \<and> ps = uniform L n" using \<open>0 < L\<close> \<open>3 \<le> length ps\<close> by blast
next
  assume "\<exists>L n. 0 < L \<and> 3 \<le> n \<and> ps = uniform L n"
  then obtain L n where "0 < L" "3 \<le> n" "ps = uniform L n" by blast
  moreover have "hd (uniform L n) = 0" using \<open>3 \<le> n\<close> by (simp add: uniform_def hd_map)
  ultimately show "closedGOPPositionsCadence ps" using uniform_gaps by (auto simp: cadence_gaps uniform_def)
qed

text \<open>The scan keeps a prefix of a cadence; it refuses only what no continuation makes uniform.\<close>

definition on_cadence :: "int list \<Rightarrow> int \<Rightarrow> bool" where
  "on_cadence ps step \<longleftrightarrow> (2 \<le> length ps \<longrightarrow> 0 < step \<and> gaps ps step)"

lemma note_keyframe_cases:
  assumes "on_cadence ps step"
  shows "case note_keyframe (ps @ [x]) step of
      None \<Rightarrow> \<not> (\<exists>qs. closedGOPPositionsCadence (ps @ [x] @ qs))
    | Some (ps', step') \<Rightarrow> ps' = ps @ [x] \<and> on_cadence ps' step'"
proof -
  have reject: "\<not> closedGOPPositionsCadence (ps @ [x] @ qs)" if "ps \<noteq> []" "\<not> (\<exists>L > 0. gaps (ps @ [x]) L)" for qs
    using that gaps_append [of "ps @ [x]" qs] by (auto simp: cadence_gaps)
  consider (none) "ps = []" | (one) y where "ps = [y]" | (more) "2 \<le> length ps"
    by (cases ps rule: list.exhaust; cases "tl ps" rule: list.exhaust) auto
  then show ?thesis
  proof cases
    case none
    then show ?thesis by (simp add: note_keyframe_def on_cadence_def)
  next
    case one
    then have g: "gaps (ps @ [x]) L \<longleftrightarrow> x - y = L" for L by simp
    then show ?thesis using one reject by (auto simp: note_keyframe_def on_cadence_def Let_def)
  next
    case more
    then have ne: "ps \<noteq> []" by auto
    have st: "0 < step" "gaps ps step" using assms more by (auto simp: on_cadence_def)
    have nth: "(ps @ [x]) ! (length (ps @ [x]) - 1) - (ps @ [x]) ! (length (ps @ [x]) - 2) = x - last ps"
      using more by (simp add: nth_append last_conv_nth ne numeral_2_eq_2)
    have "\<exists>L > 0. gaps (ps @ [x]) L \<Longrightarrow> x - last ps = step"
      using gaps_snoc [OF ne] gap_unique [OF _ st(2) more] by blast
    then show ?thesis
      using reject [OF ne] st more nth gaps_snoc [OF ne, of x step]
      by (auto simp: note_keyframe_def on_cadence_def Let_def)
  qed
qed

text \<open>The packets of a table that the tokens begin with.\<close>

fun read_table :: "json_token list \<Rightarrow> string list option" where
  "read_table [] = None"
| "read_table (tok # toks) =
     (if tok = Delim (CHR '']'') then Some []
      else case toks of
        Text k # Text f # Delim d # rest \<Rightarrow>
          (if tok = Delim (CHR ''{'') \<and> k = ''flags'' \<and> d = CHR ''}'' then map_option (Cons f) (read_table rest) else None)
      | _ \<Rightarrow> None)"

lemma read_table_tokens: "read_table (packet_tokens fs @ Delim (CHR '']'') # rest) = Some fs"
  by (induction fs) simp_all

lemma read_table_SomeD: "read_table toks = Some fs \<Longrightarrow> \<exists>rest. toks = packet_tokens fs @ Delim (CHR '']'') # rest"
  by (induction toks arbitrary: fs rule: read_table.induct) (auto split: if_splits list.splits json_token.splits)

text \<open>Once the table is off the cadence no continuation of it is accepted, so stopping early loses nothing.\<close>

definition verdict_ok :: "bool \<Rightarrow> (string list \<Rightarrow> int list) \<Rightarrow> string list option \<Rightarrow> gop_verdict \<Rightarrow> bool" where
  "verdict_ok exitOK pos table v \<longleftrightarrow>
     (case v of (closedGOP, uncertifiable, interval) \<Rightarrow>
        (case table of
           None \<Rightarrow> \<not> closedGOP
         | Some fs \<Rightarrow> (closedGOP \<longleftrightarrow> exitOK \<and> closedGOPPositionsCadence (pos fs))
             \<and> (closedGOP \<longrightarrow> gaps (pos fs) interval) \<and> (uncertifiable \<longrightarrow> \<not> exitOK))
        \<and> (uncertifiable \<longrightarrow> \<not> closedGOP) \<and> (\<not> closedGOP \<longrightarrow> interval = 0))"

lemma verdict_Cons:
  "verdict_ok exitOK (\<lambda>fs. pos (f # fs)) table v \<Longrightarrow> verdict_ok exitOK pos (map_option (Cons f) table) v"
  by (cases table) (simp_all add: verdict_ok_def)

lemma end_of_table_verdict: "pos [] = ps \<Longrightarrow> verdict_ok exitOK pos (Some []) (end_of_table exitOK ps)"
proof -
  assume pos: "pos [] = ps"
  have "gaps ps (ps ! 1 - ps ! 0) \<and> 2 \<le> length ps" if c: "closedGOPPositionsCadence ps"
  proof -
    obtain L where L: "gaps ps L" "3 \<le> length ps" using c unfolding cadence_gaps by blast
    then have "ps ! 1 - ps ! 0 = L" by (auto simp: gaps_nth)
    then show ?thesis using L by auto
  qed
  then show ?thesis by (auto simp: verdict_ok_def end_of_table_def pos)
qed

lemma scan_packets_verdict:
  assumes "on_cadence ps step"
  shows "verdict_ok exitOK (\<lambda>fs. ps @ key_positions i fs) (read_table toks) (scan_packets exitOK toks ps step i)"
  using assms
proof (induction toks arbitrary: ps step i rule: length_induct)
  case (1 all)
  consider (none) "all = []" | (last) toks where "all = Delim (CHR '']'') # toks"
    | (packet) f rest where "all = Delim (CHR ''{'') # Text ''flags'' # Text f # Delim (CHR ''}'') # rest"
    | (bad) tok toks where "all = tok # toks" "tok \<noteq> Delim (CHR '']'')"
        "\<not> (\<exists>f rest. tok = Delim (CHR ''{'') \<and> toks = Text ''flags'' # Text f # Delim (CHR ''}'') # rest)"
    by (cases all) blast+
  then show ?case
  proof cases
    case none
    then show ?thesis by (simp add: verdict_ok_def failProbe_def)
  next
    case last
    then show ?thesis using end_of_table_verdict [of "\<lambda>fs. ps @ key_positions i fs"] by simp
  next
    case bad
    then have "scan_packets exitOK all ps step i = failProbe" by (auto split: list.split json_token.split)
    moreover have "read_table all = None" using bad by (auto split: list.split json_token.split)
    ultimately show ?thesis by (simp add: verdict_ok_def failProbe_def)
  next
    case packet
    have IH: "verdict_ok exitOK (\<lambda>fs. ps' @ key_positions (i + 1) fs) (read_table rest)
        (scan_packets exitOK rest ps' step' (i + 1))" if "on_cadence ps' step'" for ps' step'
      using 1(1) packet that by simp
    have read: "read_table all = map_option (Cons f) (read_table rest)" using packet by simp
    show ?thesis
    proof (cases "CHR ''K'' \<in> set f")
      case False
      then show ?thesis unfolding read using IH [OF 1(2)] packet by (intro verdict_Cons) simp
    next
      case key: True
      show ?thesis
      proof (cases "note_keyframe (ps @ [i]) step")
        case None
        then have "scan_packets exitOK all ps step i = (False, False, 0)" using packet key by simp
        moreover have "\<not> closedGOPPositionsCadence (ps @ [i] @ qs)" for qs
          using note_keyframe_cases [OF 1(2), of i] None by auto
        ultimately show ?thesis
          unfolding read using key by (cases "read_table rest") (auto simp: verdict_ok_def)
      next
        case (Some r)
        then obtain step' where r: "r = (ps @ [i], step')" "on_cadence (ps @ [i]) step'"
          using note_keyframe_cases [OF 1(2), of i] by (cases r) auto
        then show ?thesis unfolding read using IH [OF r(2)] packet key Some by (intro verdict_Cons) simp
      qed
    qed
  qed
qed

lemma gop_verdict:
  assumes "probeClosedGOP started tokens exitOK = (closedGOP, uncertifiable, interval)"
  shows "(closedGOP \<longleftrightarrow> started \<and> exitOK \<and> (\<exists>fs rest L n. tokens = packet_table fs @ rest
        \<and> 0 < L \<and> 3 \<le> n \<and> key_positions 0 fs = uniform L n))
    \<and> (\<forall>fs rest L n. closedGOP \<and> tokens = packet_table fs @ rest \<and> 3 \<le> n \<and> key_positions 0 fs = uniform L n
        \<longrightarrow> interval = L)
    \<and> (closedGOP \<longrightarrow> \<not> uncertifiable) \<and> (\<not> closedGOP \<longrightarrow> interval = 0)
    \<and> (uncertifiable \<longrightarrow> \<not> (started \<and> exitOK \<and> (\<exists>fs rest. tokens = packet_table fs @ rest)))"
proof (cases "\<exists>toks. started \<and> tokens = Delim (CHR ''{'') # Text ''packets'' # Delim (CHR ''['') # toks")
  case True
  then obtain toks where toks: "started" "tokens = Delim (CHR ''{'') # Text ''packets'' # Delim (CHR ''['') # toks" by blast
  have v: "verdict_ok exitOK (key_positions 0) (read_table toks) (closedGOP, uncertifiable, interval)"
    using scan_packets_verdict [of "[]" 0 exitOK 0 toks] assms toks by (simp add: probeClosedGOP_def on_cadence_def)
  have table: "(\<exists>rest. tokens = packet_table fs @ rest) \<longleftrightarrow> read_table toks = Some fs" for fs
    using read_table_SomeD [of toks fs] read_table_tokens [of fs] toks by (auto simp: packet_table_def)
  have L: "interval = L" if "gaps (uniform L n) interval" "3 \<le> n" for L n
    using gap_unique [OF that(1) uniform_gaps] that(2) by (simp add: uniform_def)
  show ?thesis
  proof (cases "read_table toks")
    case None
    then show ?thesis using v table toks by (auto simp: verdict_ok_def)
  next
    case (Some fs)
    then have only: "(\<exists>rest. tokens = packet_table fs' @ rest) \<longleftrightarrow> fs' = fs" for fs' using table by auto
    show ?thesis
      using v Some toks L only unfolding verdict_ok_def cadence_uniform by (simp, metis)
  qed
next
  case False
  then have "(closedGOP, uncertifiable, interval) = (False, True, 0)"
    using assms by (auto simp: probeClosedGOP_def failProbe_def split: if_splits list.splits)
  moreover have "\<not> (started \<and> tokens = packet_table fs @ rest)" for fs rest
    using False by (auto simp: packet_table_def)
  ultimately show ?thesis by blast
qed

lemma gop_cadence:
  assumes "probeClosedGOP started tokens exitOK = (True, u, L)"
  shows "\<exists>fs rest n. exitOK \<and> tokens = packet_table fs @ rest \<and> 0 < L \<and> 3 \<le> n \<and> key_positions 0 fs = uniform L n"
  using gop_verdict [OF assms] by blast

text \<open>
  C23. The closed-GOP probe certifies a file exactly when ffprobe printed a complete packet table and ended
  well, and the keyframes of that table are the packets \<open>0\<close>, \<open>L\<close>, \<open>2 L\<close>, \ldots{} for one positive \<open>L\<close>,
  at least three of them; the reported interval is \<open>L\<close>. A refusal reports no interval, and the verdict
  "uncertifiable" is given only when no complete table of a successful run was read. Stopping at the
  first keyframe off the cadence changes none of this.
\<close>

theorem closed_gop_is_a_proven_cadence:
  assumes "probeClosedGOP started tokens exitOK = (closedGOP, uncertifiable, interval)"
  shows "(closedGOP \<longleftrightarrow> started \<and> exitOK \<and> (\<exists>fs rest L n. tokens = packet_table fs @ rest
        \<and> 0 < L \<and> 3 \<le> n \<and> key_positions 0 fs = uniform L n))
    \<and> (\<forall>fs rest L n. closedGOP \<and> tokens = packet_table fs @ rest \<and> 3 \<le> n \<and> key_positions 0 fs = uniform L n
        \<longrightarrow> interval = L)
    \<and> (closedGOP \<longrightarrow> \<not> uncertifiable) \<and> (\<not> closedGOP \<longrightarrow> interval = 0)
    \<and> (uncertifiable \<longrightarrow> \<not> (started \<and> exitOK \<and> (\<exists>fs rest. tokens = packet_table fs @ rest)))"
  using gop_verdict [OF assms] .

theorem closed_gop_is_a_proven_cadence_witness:
  "\<exists>fs rest L n. packet_table [''K_'', ''__'', ''K_'', ''__'', ''K_'', ''__''] = packet_table fs @ rest
     \<and> 0 < L \<and> 3 \<le> n \<and> key_positions 0 fs = uniform L n"
proof -
  have "probeClosedGOP True (packet_table [''K_'', ''__'', ''K_'', ''__'', ''K_'', ''__'']) True = (True, False, 2)" by code_simp
  from closed_gop_is_a_proven_cadence [OF this] show ?thesis by blast
qed

section \<open>The facts of a probe\<close>

text \<open>The counts are those of all streams, the facts those of the first stream of each kind.\<close>

definition is_video :: "ffprobe_stream \<Rightarrow> bool" where "is_video st \<longleftrightarrow> fs_CodecType st = ''video''"
definition is_audio :: "ffprobe_stream \<Rightarrow> bool" where "is_audio st \<longleftrightarrow> fs_CodecType st = ''audio''"

lemma kinds_differ: "is_audio st \<Longrightarrow> \<not> is_video st"
  by (simp add: is_audio_def is_video_def)

lemma facts_counts [simp]:
  "pb_AudioStreams (audio_facts st r) = pb_AudioStreams r" "pb_VideoStreams (audio_facts st r) = pb_VideoStreams r"
  "pb_AudioStreams (frame_rate q r) = pb_AudioStreams r" "pb_VideoStreams (frame_rate q r) = pb_VideoStreams r"
  "pb_AudioStreams (video_facts sha st r) = pb_AudioStreams r" "pb_VideoStreams (video_facts sha st r) = pb_VideoStreams r"
  by (simp_all add: audio_facts_def video_facts_def frame_rate_def split: option.split)

lemma frame_rate_keeps [simp]:
  "pb_VideoCodec (frame_rate q r) = pb_VideoCodec r" "pb_CodecProfile (frame_rate q r) = pb_CodecProfile r"
  "pb_Width (frame_rate q r) = pb_Width r" "pb_Height (frame_rate q r) = pb_Height r"
  "pb_VideoLevel (frame_rate q r) = pb_VideoLevel r" "pb_StartPTS (frame_rate q r) = pb_StartPTS r"
  "pb_HasVideo (frame_rate q r) = pb_HasVideo r" "pb_CodecConfigSHA256 (frame_rate q r) = pb_CodecConfigSHA256 r"
  "pb_PixelFormat (frame_rate q r) = pb_PixelFormat r" "pb_SAR (frame_rate q r) = pb_SAR r"
  by (simp_all add: frame_rate_def split: option.split)

text \<open>The video side of a result, which an audio stream leaves alone.\<close>

definition video_side where
  "video_side r = (pb_HasVideo r, pb_VideoCodec r, pb_CodecProfile r, pb_Width r, pb_Height r, pb_VideoLevel r,
     pb_PixelFormat r, pb_CodecConfigSHA256 r, pb_StartPTS r, pb_FPSNum r, pb_FPSDen r, pb_FPSUncertifiable r, pb_SAR r)"

lemma video_side_keeps [simp]:
  "video_side (audio_facts st r) = video_side r" "video_side (r\<lparr> pb_AudioStreams := n \<rparr>) = video_side r"
  "video_side (r\<lparr> pb_VideoStreams := n \<rparr>) = video_side r" "video_side (r\<lparr> pb_Container := s \<rparr>) = video_side r"
  "video_side (r\<lparr> pb_DurationUS := n \<rparr>) = video_side r" "video_side (r\<lparr> pb_HasAudio := b \<rparr>) = video_side r"
  "video_side (r\<lparr> pb_FirstFrameKeyframe := b \<rparr>) = video_side r" "video_side (r\<lparr> pb_FrameCount := n \<rparr>) = video_side r"
  "video_side (r\<lparr> pb_ClosedGOP := b \<rparr>) = video_side r" "video_side (r\<lparr> pb_ClosedGOPUncertifiable := b \<rparr>) = video_side r"
  "video_side (r\<lparr> pb_KeyframeInterval := n \<rparr>) = video_side r" "video_side (counted_frames k c r) = video_side r"
  by (simp_all add: video_side_def audio_facts_def counted_frames_def Let_def split: option.split)

lemma video_facts_side: "video_side r = video_side r' \<Longrightarrow> video_side (video_facts sha st r) = video_side (video_facts sha st r')"
  by (simp add: video_side_def video_facts_def frame_rate_def split: option.split)

lemma scan_streams_counts:
  "pb_AudioStreams (fst (scan_streams sha sts vs as idx r)) = pb_AudioStreams r + int (length (filter is_audio sts))"
  "pb_VideoStreams (fst (scan_streams sha sts vs as idx r)) = pb_VideoStreams r + int (length (filter is_video sts))"
  by (induction sha sts vs as idx r rule: scan_streams.induct)
    (auto simp: Let_def is_audio_def is_video_def)

lemma scan_streams_seen: "scan_streams sha sts True as idx r = (r', idx') \<Longrightarrow> idx' = idx \<and> video_side r' = video_side r"
  by (induction sts arbitrary: as r) (auto simp: Let_def split: if_splits)

lemma scan_streams_video:
  "scan_streams sha sts False as idx r = (r', idx') \<Longrightarrow>
     (case first_such is_video sts of
        None \<Rightarrow> idx' = idx \<and> video_side r' = video_side r
      | Some st \<Rightarrow> idx' = fs_Index st \<and> video_side r' = video_side (video_facts sha st r))"
proof (induction sts arbitrary: as r)
  case (Cons st sts)
  have add: "video_side (video_facts sha st (r\<lparr> pb_VideoStreams := n \<rparr>)) = video_side (video_facts sha st r)"
    "video_side (video_facts sha st (r\<lparr> pb_AudioStreams := n \<rparr>)) = video_side (video_facts sha st r)"
    "video_side (video_facts sha st (audio_facts st' r)) = video_side (video_facts sha st r)" for n st st' r
    by (rule video_facts_side, simp)+
  consider (audio) "is_audio st" "\<not> is_video st" | (video) "is_video st" "\<not> is_audio st" | (other) "\<not> is_video st" "\<not> is_audio st"
    using kinds_differ by blast
  then show ?case
  proof cases
    case audio
    then have "scan_streams sha sts False True idx
        (if as then r\<lparr> pb_AudioStreams := pb_AudioStreams r + 1 \<rparr> else audio_facts st (r\<lparr> pb_AudioStreams := pb_AudioStreams r + 1 \<rparr>)) = (r', idx')"
      using Cons.prems by (simp add: is_audio_def Let_def)
    from Cons.IH [OF this] show ?thesis using audio by (cases as) (simp_all add: add split: option.splits)
  next
    case video
    then have "scan_streams sha sts True as (fs_Index st) (video_facts sha st (r\<lparr> pb_VideoStreams := pb_VideoStreams r + 1 \<rparr>)) = (r', idx')"
      using Cons.prems by (simp add: is_audio_def is_video_def Let_def)
    from scan_streams_seen [OF this] show ?thesis using video by (simp add: add)
  next
    case other
    then show ?thesis using Cons by (simp add: is_audio_def is_video_def)
  qed
qed simp

text \<open>What a successful probe says of the document it was made from.\<close>

lemma probeFile_facts:
  assumes "probeFile sha fp known = Some r"
  shows "\<exists>doc. fp_document fp = Some doc
    \<and> pb_AudioStreams r = int (length (filter is_audio (fd_Streams doc)))
    \<and> pb_VideoStreams r = int (length (filter is_video (fd_Streams doc)))
    \<and> pb_FirstFrameKeyframe r = (case firstFrameOfStream (fd_Frames doc)
          (case first_such is_video (fd_Streams doc) of None \<Rightarrow> - 1 | Some st \<Rightarrow> fs_Index st) of Some f \<Rightarrow> pf_Key f = 1 | None \<Rightarrow> False)
    \<and> (pb_ClosedGOP r, pb_ClosedGOPUncertifiable r, pb_KeyframeInterval r)
        = probeClosedGOP (fp_gopStarted fp) (fp_gopTokens fp) (fp_gopExit fp)
    \<and> video_side r = (case first_such is_video (fd_Streams doc) of
          None \<Rightarrow> video_side no_probe | Some st \<Rightarrow> video_side (video_facts sha st no_probe))"
proof -
  obtain doc where doc: "fp_document fp = Some doc" using assms by (auto simp: probeFile_def split: option.splits)
  define r0 where "r0 = no_probe\<lparr> pb_Container := fd_FormatName doc,
                      pb_DurationUS := (case fp_micros fp (fd_Duration doc) of Some us \<Rightarrow> us | None \<Rightarrow> 0) \<rparr>"
  obtain r1 idx where s: "scan_streams sha (fd_Streams doc) False False (- 1) r0 = (r1, idx)" by fastforce
  obtain c u l where v: "probeClosedGOP (fp_gopStarted fp) (fp_gopTokens fp) (fp_gopExit fp) = (c, u, l)"
    by (cases "probeClosedGOP (fp_gopStarted fp) (fp_gopTokens fp) (fp_gopExit fp)") auto
  have r: "r = (counted_frames known (fp_count fp) (r1\<lparr> pb_HasAudio := pb_AudioStreams r1 > 0,
      pb_FirstFrameKeyframe := (case firstFrameOfStream (fd_Frames doc) idx of Some f \<Rightarrow> pf_Key f = 1 | None \<Rightarrow> False) \<rparr>))
      \<lparr> pb_ClosedGOP := c, pb_ClosedGOPUncertifiable := u, pb_KeyframeInterval := l \<rparr>"
    using assms s v by (simp add: probeFile_def doc r0_def)
  have keep: "pb_AudioStreams (counted_frames k n x) = pb_AudioStreams x" "pb_VideoStreams (counted_frames k n x) = pb_VideoStreams x"
    "pb_FirstFrameKeyframe (counted_frames k n x) = pb_FirstFrameKeyframe x" for k n x
    by (simp_all add: counted_frames_def Let_def split: option.split)
  have counts: "pb_AudioStreams r1 = int (length (filter is_audio (fd_Streams doc)))"
    "pb_VideoStreams r1 = int (length (filter is_video (fd_Streams doc)))"
    using scan_streams_counts [of sha "fd_Streams doc" False False "- 1" r0] s by (simp_all add: r0_def no_probe_def)
  have side: "video_side (video_facts sha st r0) = video_side (video_facts sha st no_probe)" for st
    by (rule video_facts_side) (simp add: r0_def)
  have base: "video_side r0 = video_side no_probe" by (simp add: r0_def)
  show ?thesis
    using scan_streams_video [OF s] counts doc v
    by (cases "first_such is_video (fd_Streams doc)") (simp_all add: r keep side base)
qed

lemma parseRational_range: "parseRational raw = (n, d) \<Longrightarrow> 0 \<le> n \<and> n < 2 ^ 63 \<and> 0 \<le> d \<and> d < 2 ^ 63"
proof -
  have "n < 2 ^ 63" if "Atoi s = Some n" for s n
    using that by (auto simp: Atoi_def Let_def split: if_splits)
  then show "parseRational raw = (n, d) \<Longrightarrow> 0 \<le> n \<and> n < 2 ^ 63 \<and> 0 \<le> d \<and> d < 2 ^ 63"
    by (fastforce simp: parseRational_def Let_def split: if_splits option.splits)
qed

section \<open>What a profile certifies\<close>

lemma no_failed_check: "first_such fst cs = None \<longleftrightarrow> list_all (\<lambda>c. \<not> fst c) cs"
  by (simp add: first_such_None_iff list_all_iff)

lemma validated_checks:
  "ValidateProbe p r = None \<longleftrightarrow>
     list_all (\<lambda>c. \<not> fst c) (probe_checks p r) \<and> validateColour p r = None \<and> list_all (\<lambda>c. \<not> fst c) (probe_checks_more p r)"
  by (auto simp: ValidateProbe_def no_failed_check [symmetric] split: option.split)

lemma assembly_profiles:
  assumes "i \<in> {''VELOX_ASSEMBLY_READY_V1'', ''VELOX_ASSEMBLY_READY_V2''}" and "ResolveProfile i = Some p"
  shows "\<exists>l. p = assemblyReadyProfile\<lparr> op_ID := i, op_VideoLevel := l \<rparr>"
  using assms by (auto simp: ResolveProfile_def profiles_def)

lemma frame_rate_24:
  assumes "pb_FPSNum (frame_rate q r) = n" "pb_FPSDen (frame_rate q r) = d" "0 < n" "pb_FPSNum r = 0"
  shows "\<exists>a b. split_once (CHR ''/'') q = Some (a, b) \<and> Atoi a = Some n \<and> Atoi b = Some d"
  using assms by (auto simp: frame_rate_def split: option.splits if_splits)

lemma assembly_ready_stream:
  assumes "i \<in> {''VELOX_ASSEMBLY_READY_V1'', ''VELOX_ASSEMBLY_READY_V2''}" and "ResolveProfile i = Some p"
    and "probeFile sha fp known = Some r" and "ValidateProbe p r = None"
  shows "\<exists>doc st fs rest n a b q. fp_document fp = Some doc \<and> first_such is_video (fd_Streams doc) = Some st
    \<and> fs_CodecName st = ''h264'' \<and> fs_Profile st = ''High'' \<and> fs_PixFmt st = ''yuv420p''
    \<and> hashFFprobeExtradata sha (fs_Extradata st) = ''7201ce80a2b2b32a0c1a89501851099f267c1767d59ff799db744f72032aae5a''
    \<and> fs_Width st = 1920 \<and> fs_Height st = 1080
    \<and> split_once (CHR ''/'') (fs_Rate st) = Some (a, b) \<and> Atoi a = Some 24 \<and> Atoi b = Some 1
    \<and> parseRational (fs_SampleAspectRatio st) = (q, q) \<and> 0 < q
    \<and> (case fs_StartPTS st of None \<Rightarrow> True | Some t \<Rightarrow> t \<le> 0)
    \<and> length (filter is_video (fd_Streams doc)) = 1 \<and> length (filter is_audio (fd_Streams doc)) = 1
    \<and> pb_FirstFrameKeyframe r \<and> fp_gopExit fp \<and> fp_gopTokens fp = packet_table fs @ rest
    \<and> 3 \<le> n \<and> key_positions 0 fs = uniform 48 n"
proof -
  obtain l where p: "p = assemblyReadyProfile\<lparr> op_ID := i, op_VideoLevel := l \<rparr>" using assembly_profiles [OF assms(1,2)] by blast
  note checks = assms(4) [unfolded validated_checks]
  have c: "pb_VideoCodec r = ''h264''" "pb_Width r = 1920" "pb_Height r = 1080" "pb_FPSNum r = 24" "pb_FPSDen r = 1"
    "pb_PixelFormat r = ''yuv420p''" "pb_CodecProfile r = ''High''"
    "pb_CodecConfigSHA256 r = ''7201ce80a2b2b32a0c1a89501851099f267c1767d59ff799db744f72032aae5a''"
    "pb_FirstFrameKeyframe r" "pb_ClosedGOP r" "\<not> number_mismatch 48 (pb_KeyframeInterval r)" "\<not> rational_mismatch (1, 1) (pb_SAR r)"
    using checks by (simp_all add: p probe_checks_def assemblyReadyProfile_def no_profile_def acceptsProfile_def)
  have m: "pb_StartPTS r = 0" "\<not> number_mismatch 1 (pb_VideoStreams r)" "pb_AudioStreams r = 1"
    using checks by (simp_all add: p probe_checks_more_def assemblyReadyProfile_def no_profile_def)
  obtain doc where doc: "fp_document fp = Some doc" "pb_AudioStreams r = int (length (filter is_audio (fd_Streams doc)))"
    "pb_VideoStreams r = int (length (filter is_video (fd_Streams doc)))"
    "(pb_ClosedGOP r, pb_ClosedGOPUncertifiable r, pb_KeyframeInterval r) = probeClosedGOP (fp_gopStarted fp) (fp_gopTokens fp) (fp_gopExit fp)"
    "video_side r = (case first_such is_video (fd_Streams doc) of
          None \<Rightarrow> video_side no_probe | Some st \<Rightarrow> video_side (video_facts sha st no_probe))"
    using probeFile_facts [OF assms(3)] by blast
  obtain st where st: "first_such is_video (fd_Streams doc) = Some st"
    using doc(5) c(2) by (cases "first_such is_video (fd_Streams doc)") (auto simp: video_side_def no_probe_def)
  define v where "v = video_facts sha st no_probe"
  have "video_side r = video_side v" using doc(5) st by (simp add: v_def)
  then have e: "pb_VideoCodec v = ''h264''" "pb_Width v = 1920" "pb_Height v = 1080" "pb_FPSNum v = 24" "pb_FPSDen v = 1"
    "pb_PixelFormat v = ''yuv420p''" "pb_CodecProfile v = ''High''" "pb_CodecConfigSHA256 v = pb_CodecConfigSHA256 r"
    "pb_SAR v = pb_SAR r" "pb_StartPTS v = 0"
    using c m by (simp_all add: video_side_def)
  have stream: "fs_CodecName st = ''h264''" "fs_Profile st = ''High''" "fs_PixFmt st = ''yuv420p''" "fs_Width st = 1920" "fs_Height st = 1080"
    "hashFFprobeExtradata sha (fs_Extradata st) = pb_CodecConfigSHA256 r"
    "case fs_StartPTS st of None \<Rightarrow> True | Some t \<Rightarrow> t \<le> 0"
    using e by (auto simp: v_def video_facts_def no_probe_def split: option.splits if_splits)
  have sar: "parseRational (fs_SampleAspectRatio st) = pb_SAR r"
    using e(9) by (simp add: v_def video_facts_def)
  obtain a b where rate: "split_once (CHR ''/'') (fs_Rate st) = Some (a, b)" "Atoi a = Some 24" "Atoi b = Some 1"
    using frame_rate_24 [OF e(4,5) [unfolded v_def video_facts_def]] by (auto simp: no_probe_def)
  obtain n1 d1 where nd: "pb_SAR r = (n1, d1)" by (cases "pb_SAR r")
  have "n1 = d1 \<and> n1 \<noteq> 0"
    using c(12) parseRational_range [of "fs_SampleAspectRatio st" n1 d1] sar wrap64_id [of n1] wrap64_id [of d1]
    by (auto simp: nd rational_mismatch_def pinRational_def split: if_splits)
  then have q: "parseRational (fs_SampleAspectRatio st) = (n1, n1)" "0 < n1"
    using parseRational_range [of "fs_SampleAspectRatio st" n1 d1] sar nd by auto
  have "0 < length (filter is_video (fd_Streams doc))"
    using first_such_SomeD [OF st] by (auto simp: filter_empty_conv)
  then have one: "length (filter is_video (fd_Streams doc)) = 1" "length (filter is_audio (fd_Streams doc)) = 1"
    using m doc(2,3) by (auto simp: number_mismatch_def)
  obtain u L where v: "probeClosedGOP (fp_gopStarted fp) (fp_gopTokens fp) (fp_gopExit fp) = (True, u, L)" "pb_KeyframeInterval r = L"
    using doc(4) c(10) by (metis (full_types))
  then obtain fs rest n where gop: "fp_gopExit fp" "fp_gopTokens fp = packet_table fs @ rest" "0 < L" "3 \<le> n" "key_positions 0 fs = uniform L n"
    using gop_cadence [OF v(1)] by blast
  have "L = 48" using c(11) v(2) gop(3) by (auto simp: number_mismatch_def)
  then have keys: "key_positions 0 fs = uniform 48 n" using gop(5) by simp
  show ?thesis
    by (rule exI [of _ doc], rule exI [of _ st], rule exI [of _ fs], rule exI [of _ rest], rule exI [of _ n],
        rule exI [of _ a], rule exI [of _ b], rule exI [of _ n1], intro conjI)
      (fact doc(1) st stream(1-5,7) stream(6) [unfolded c(8)] c(9) rate q one gop(1,2,4) keys)+
qed

text \<open>
  A file that is certified for assembly, from a probe of the file itself, is what a copy of its
  packets needs: the first video stream is H.264 High with the pinned parameter sets, 1920 by 1080 at
  24 frames per second with square pixels and no later start, the only video stream, beside exactly
  one audio stream; ffprobe read a complete packet table, and the keyframes of the file are its
  packets 0, 48, 96, \ldots{}, at least three of them.
\<close>

theorem assembly_ready_certifies_the_stream:
  assumes "i \<in> {''VELOX_ASSEMBLY_READY_V1'', ''VELOX_ASSEMBLY_READY_V2''}" and "ResolveProfile i = Some p"
    and "probeFile sha fp known = Some r" and "ValidateProbe p r = None"
  shows "\<exists>doc st fs rest n a b q. fp_document fp = Some doc \<and> first_such is_video (fd_Streams doc) = Some st
    \<and> fs_CodecName st = ''h264'' \<and> fs_Profile st = ''High'' \<and> fs_PixFmt st = ''yuv420p''
    \<and> hashFFprobeExtradata sha (fs_Extradata st) = ''7201ce80a2b2b32a0c1a89501851099f267c1767d59ff799db744f72032aae5a''
    \<and> fs_Width st = 1920 \<and> fs_Height st = 1080
    \<and> split_once (CHR ''/'') (fs_Rate st) = Some (a, b) \<and> Atoi a = Some 24 \<and> Atoi b = Some 1
    \<and> parseRational (fs_SampleAspectRatio st) = (q, q) \<and> 0 < q
    \<and> (case fs_StartPTS st of None \<Rightarrow> True | Some t \<Rightarrow> t \<le> 0)
    \<and> length (filter is_video (fd_Streams doc)) = 1 \<and> length (filter is_audio (fd_Streams doc)) = 1
    \<and> pb_FirstFrameKeyframe r \<and> fp_gopExit fp \<and> fp_gopTokens fp = packet_table fs @ rest
    \<and> 3 \<le> n \<and> key_positions 0 fs = uniform 48 n"
  by (rule assembly_ready_stream [OF assms])

text \<open>A file as the assembler wants it, with three keyframes 48 packets apart.\<close>

definition sample_stream :: ffprobe_stream where
  "sample_stream = \<lparr> fs_Index = 0, fs_CodecType = ''video'', fs_CodecName = ''h264'', fs_Width = 1920, fs_Height = 1080,
     fs_PixFmt = ''yuv420p'', fs_Rate = ''24/1'', fs_Profile = ''High'', fs_Level = 40,
     fs_Extradata = ''00000000: 0164 0028 ffe1  .d.('', fs_NbFrames = ''98'', fs_TimeBase = ''1/12288'',
     fs_SampleAspectRatio = ''1:1'', fs_ColorRange = ''tv'', fs_ColorSpace = ''bt709'', fs_ColorTransfer = ''bt709'',
     fs_ColorPrimaries = ''bt709'', fs_FieldOrder = ''progressive'', fs_StartPTS = Some 0, fs_SampleRate = [],
     fs_Channels = 0, fs_ChannelLayout = [], fs_BitRate = [] \<rparr>"

definition sample_audio :: ffprobe_stream where
  "sample_audio = sample_stream\<lparr> fs_Index := 1, fs_CodecType := ''audio'', fs_CodecName := ''aac'', fs_Profile := ''LC'',
     fs_TimeBase := ''1/48000'', fs_SampleRate := ''48000'', fs_Channels := 2, fs_ChannelLayout := ''stereo'' \<rparr>"

definition sample_packets :: "string list" where
  "sample_packets = map (\<lambda>i. if i mod 48 = 0 then ''K__'' else ''___'') [0..<98 :: nat]"

definition sample_runs_of :: ffprobe_runs where
  "sample_runs_of = \<lparr>
     fp_document = Some \<lparr> fd_Streams = [sample_stream, sample_audio], fd_FormatName = ''mov,mp4,m4a,3gp,3g2,mj2'',
       fd_Duration = ''4.083'', fd_Frames = [\<lparr> pf_StreamIndex = Some 0, pf_Key = 1 \<rparr>] \<rparr>,
     fp_micros = (\<lambda>_. Some 4083000), fp_count = None, fp_gopStarted = True,
     fp_gopTokens = packet_table sample_packets, fp_gopExit = True \<rparr>"

definition pinned_sha :: "bytes \<Rightarrow> string" where
  "pinned_sha _ = ''7201ce80a2b2b32a0c1a89501851099f267c1767d59ff799db744f72032aae5a''"

lemma probeFile_None_iff: "probeFile sha fp known = None \<longleftrightarrow> fp_document fp = None"
  by (simp add: probeFile_def split: option.split prod.split)

definition assembly_v1 :: OutputProfile where
  "assembly_v1 = assemblyReadyProfile\<lparr> op_ID := ''VELOX_ASSEMBLY_READY_V1'', op_VideoLevel := ''4.0'' \<rparr>"

lemma assembly_v1_resolved: "ResolveProfile ''VELOX_ASSEMBLY_READY_V1'' = Some assembly_v1"
  by (simp add: ResolveProfile_def profiles_def assembly_v1_def)

lemma sample_level: "levelString 40 = ''4.0''" by code_simp
lemma sample_numbers: "Atoi ''98'' = Some 98" "Atoi ''24'' = Some 24" "Atoi ''1'' = Some 1" "Atoi ''48000'' = Some 48000"
  by (simp_all add: Atoi_def read_digits_def is_digit_def)
lemma sample_rationals: "parseRational ''1/12288'' = (1, 12288)" "parseRational ''1:1'' = (1, 1)" "parseRational ''1/48000'' = (1, 48000)"
proof -
  have t: "TrimSpace ''1/12288'' = ''1/12288''" "TrimSpace ''12288'' = ''12288''" "TrimSpace ''1'' = ''1''" "TrimSpace ''1:1'' = ''1:1''"
    "TrimSpace ''1/48000'' = ''1/48000''" "TrimSpace ''48000'' = ''48000''"
    by (code_simp)+
  show "parseRational ''1/12288'' = (1, 12288)" "parseRational ''1:1'' = (1, 1)" "parseRational ''1/48000'' = (1, 48000)"
    by (simp_all add: parseRational_def t split_once_def Atoi_def read_digits_def is_digit_def)
qed
lemma sample_rate: "split_once (CHR ''/'') ''24/1'' = Some (''24'', ''1'')" by (simp add: split_once_def)
lemma sample_hash: "hashFFprobeExtradata pinned_sha ''00000000: 0164 0028 ffe1  .d.('' = pinned_sha []"
proof -
  have "TrimSpace ''00000000: 0164 0028 ffe1  .d.('' \<noteq> []" by code_simp
  moreover have "Fields ''0164 0028 ffe1'' = [''0164'', ''0028'', ''ffe1'']" by code_simp
  ultimately show ?thesis by (simp add: hashFFprobeExtradata_def split_once_def hex_val_def pinned_sha_def)
qed

lemma sample_trims: "TrimSpace ''48000'' = ''48000''" "TrimSpace [] = []"
  by (code_simp)+
lemma sample_gop: "probeClosedGOP True (packet_table sample_packets) True = (True, False, 48)"
  by code_simp

lemma sample_validates: "map_option (ValidateProbe assembly_v1) (probeFile pinned_sha sample_runs_of 0) = Some None"
  by (simp add: probeFile_def sample_runs_of_def sample_stream_def sample_audio_def video_facts_def audio_facts_def frame_rate_def
      sample_level sample_numbers sample_rationals sample_rate sample_hash sample_trims sample_gop counted_frames_def firstFrameOfStream_def validated_checks probe_checks_def probe_checks_more_def
      assembly_v1_def assemblyReadyProfile_def no_profile_def no_probe_def acceptsProfile_def validateColour_def pinned_sha_def
      text_mismatch_def number_mismatch_def rational_mismatch_def pinRational_def)

theorem assembly_ready_certifies_the_stream_witness:
  "\<exists>fs rest n. packet_table sample_packets = packet_table fs @ rest \<and> 3 \<le> n \<and> key_positions 0 fs = uniform 48 n"
proof -
  obtain r where r: "probeFile pinned_sha sample_runs_of 0 = Some r" "ValidateProbe assembly_v1 r = None"
    using sample_validates by (auto simp: map_option_case split: option.splits)
  have "fp_gopTokens sample_runs_of = packet_table sample_packets" by (simp add: sample_runs_of_def)
  then show ?thesis
    using assembly_ready_certifies_the_stream [OF _ assembly_v1_resolved r] by auto
qed

text \<open>
  Most pinned facts are compared only when the probe reports them, so a result that omits them passes
  whatever passed with them. An artifact certified at level 4.0 passes the profile of level 4.1 once
  its level is not reported (a receipt need not report it), where the comment of the profile has every
  artifact of the current renderer fail.
\<close>

definition assembly_v2 :: OutputProfile where
  "assembly_v2 = assemblyReadyProfile\<lparr> op_ID := ''VELOX_ASSEMBLY_READY_V2'', op_VideoLevel := ''4.1'' \<rparr>"

lemma assembly_v2_resolved: "ResolveProfile ''VELOX_ASSEMBLY_READY_V2'' = Some assembly_v2"
  by (simp add: ResolveProfile_def profiles_def assembly_v2_def)

lemma unreported_text [simp]: "\<not> text_mismatch want []"
  by (simp add: text_mismatch_def)

theorem unreported_level_passes_the_strict_profile:
  assumes "ValidateProbe assembly_v1 r = None"
  shows "ResolveProfile ''VELOX_ASSEMBLY_READY_V2'' = Some assembly_v2
    \<and> ValidateProbe assembly_v2 (r\<lparr> pb_VideoLevel := [] \<rparr>) = None"
proof -
  have "validateColour assembly_v2 (r\<lparr> pb_VideoLevel := [] \<rparr>) = validateColour assembly_v1 r"
    by (simp add: validateColour_def assembly_v1_def assembly_v2_def)
  moreover have "list_all (\<lambda>c. \<not> fst c) (probe_checks assembly_v2 (r\<lparr> pb_VideoLevel := [] \<rparr>))"
    "list_all (\<lambda>c. \<not> fst c) (probe_checks_more assembly_v2 (r\<lparr> pb_VideoLevel := [] \<rparr>))"
    using assms unfolding validated_checks
    by (simp_all add: probe_checks_def probe_checks_more_def assembly_v1_def assembly_v2_def acceptsProfile_def)
  ultimately show ?thesis using assms assembly_v2_resolved unfolding validated_checks by simp
qed

theorem unreported_level_passes_the_strict_profile_witness:
  "\<exists>r. pb_VideoLevel r = [] \<and> ValidateProbe assembly_v2 r = None"
proof -
  obtain r where "ValidateProbe assembly_v1 r = None"
    using sample_validates by (auto simp: map_option_case split: option.splits)
  from unreported_level_passes_the_strict_profile [OF this] show ?thesis
    by (intro exI [of _ "r\<lparr> pb_VideoLevel := [] \<rparr>"]) simp
qed

text \<open>A stream that starts before zero is certified as starting at zero.\<close>

lemma negative_start_is_dropped:
  assumes "fs_StartPTS st = Some t" and "t < 0"
  shows "pb_StartPTS (video_facts sha st no_probe) = 0"
  using assms by (simp add: video_facts_def no_probe_def)

section \<open>Further facts\<close>

text \<open>What ffprobe prints of a rate is read back.\<close>

lemma decimal_digits: "list_all is_digit (decimal n) \<and> decimal n \<noteq> []"
proof (induction n rule: decimal.induct)
  case (1 i)
  have d: "is_digit (digit k)" if "k < 10" for k
    using that by (simp add: is_digit_def digit_def)
  show ?case using 1 d by (subst (1 2) decimal.simps) simp
qed

lemma digit_not_sign: "is_digit c \<Longrightarrow> c \<noteq> CHR ''-'' \<and> c \<noteq> CHR ''+'' \<and> c \<noteq> CHR ''/''"
  by (auto simp: is_digit_def)

lemma Atoi_decimal: "n < 2 ^ 63 \<Longrightarrow> Atoi (decimal n) = Some (int n)"
proof -
  assume n: "n < 2 ^ 63"
  have "take 1 (decimal n) \<noteq> ''-'' \<and> take 1 (decimal n) \<noteq> ''+''"
    using decimal_digits [of n] digit_not_sign by (cases "decimal n") auto
  moreover have "int n < 2 ^ 63" using n by (simp add: of_nat_less_numeral_power_cancel_iff)
  ultimately show ?thesis using decimal_digits [of n] by (simp add: Atoi_def Let_def read_decimal)
qed

lemma frame_rate_read_back:
  assumes "0 < n" "0 < d" "n < 2 ^ 63" "d < 2 ^ 63"
  shows "frame_rate (decimal n @ ''/'' @ decimal d) r = r\<lparr> pb_FPSNum := int n, pb_FPSDen := int d \<rparr>"
proof -
  have no: "CHR ''/'' \<notin> set (decimal n)"
    using decimal_digits [of n] digit_not_sign by (auto simp: list_all_iff)
  then have "takeWhile (\<lambda>x. x \<noteq> CHR ''/'') (decimal n @ ''/'' @ decimal d) = decimal n"
    "dropWhile (\<lambda>x. x \<noteq> CHR ''/'') (decimal n @ ''/'' @ decimal d) = ''/'' @ decimal d"
    by (simp_all add: takeWhile_append dropWhile_append)
  then show ?thesis using assms by (simp add: frame_rate_def split_once_def Atoi_decimal)
qed

text \<open>The overlay contract on a rate is equality of fractions.\<close>

lemma overlay_rate:
  assumes "ValidateOverlay p w h n d = None" and "0 < n" "0 < d"
    and "pb_FPSNum p * d < 2 ^ 63" "n * pb_FPSDen p < 2 ^ 63"
  shows "0 < pb_FPSDen p \<and> pb_FPSNum p * d = n * pb_FPSDen p"
proof -
  have "0 < pb_FPSNum p" "0 < pb_FPSDen p" "wrap64 (pb_FPSNum p * d) = wrap64 (n * pb_FPSDen p)"
    using assms(1-3) by (auto simp: ValidateOverlay_def split: if_splits)
  moreover have "- (2 ^ 63) \<le> pb_FPSNum p * d" "- (2 ^ 63) \<le> n * pb_FPSDen p"
    using calculation assms(2,3) by (smt (verit) mult_pos_pos zero_less_power)+
  ultimately show ?thesis using assms(4,5) wrap64_id by metis
qed

text \<open>The pixel gate passes exactly when every run succeeded and some frame has a pixel brighter than black.\<close>

lemma visible_samples_eq:
  "visible_samples pf outs best count =
     (if None \<in> set outs then None
      else let ys = map (\<lambda>o'. sample_ymax pf (split_at (CHR 0x0A) (the o')) 0) outs
           in Some (foldl max best ys, count + length (filter (\<lambda>y. y > 16) ys)))"
proof (induction outs arbitrary: best count)
  case (Cons out outs)
  have "(if y > b then y else b) = max b y" for y b :: rat by (simp add: max_def)
  then show ?case using Cons by (cases out) (auto simp: Let_def)
qed simp

lemma ValidateVisible_iff:
  "ValidateVisible pf outs p = None \<longleftrightarrow>
     0 < pb_DurationUS p \<and> None \<notin> set outs \<and> (\<exists>out \<in> set outs. 16 < sample_ymax pf (split_at (CHR 0x0A) (the out)) 0)"
proof -
  have le: "b \<le> foldl max b ys \<and> (\<forall>y \<in> set ys. y \<le> foldl max b ys)" for b :: rat and ys
  proof (induction ys arbitrary: b)
    case (Cons y ys)
    then have "max b y \<le> foldl max (max b y) ys" "\<forall>z \<in> set ys. z \<le> foldl max (max b y) ys" by blast+
    then show ?case by simp
  qed simp
  show ?thesis
    using le [of 0 "map (\<lambda>out. sample_ymax pf (split_at (CHR 0x0A) (the out)) 0) outs"]
    by (auto simp: ValidateVisible_def visible_samples_eq Let_def filter_empty_conv split: if_splits)
qed

text \<open>The cache keeps one entry per key and at most its bound, and answers for a key as the first probe did.\<close>

definition cache_ok :: "(string \<times> ProbeResult) list \<Rightarrow> bool" where
  "cache_ok cache \<longleftrightarrow> distinct (map fst cache) \<and> length cache \<le> probeCacheMaxEntries"

lemma filter_out_key: "distinct (map fst xs) \<Longrightarrow> k \<in> fst ` set xs \<Longrightarrow> length (filter (\<lambda>(k', _). k' \<noteq> k) xs) < length xs"
  by (rule length_filter_less [of "(k, the (map_of xs k))"]) (auto simp: map_of_eq_Some_iff)

lemma ProbeFileCached_ok:
  assumes "cache_ok cache" and "length cache \<ge> probeCacheMaxEntries \<Longrightarrow> victim \<in> fst ` set cache"
    and "ProbeFileCached sha fp victim key cache = (res, cache')"
  shows "cache_ok cache' \<and> (key \<noteq> [] \<longrightarrow> res \<noteq> None \<longrightarrow> map_of cache' key = res)
    \<and> (\<forall>cached. key \<noteq> [] \<and> map_of cache key = Some cached \<longrightarrow> res = Some cached)"
proof (cases "key = [] \<or> map_of cache key \<noteq> None \<or> ProbeFile sha fp = None")
  case True
  then show ?thesis
    using assms by (cases "key = []") (auto simp: ProbeFileCached_def split: option.splits prod.splits)
next
  case False
  then obtain r where r: "ProbeFile sha fp = Some r" by auto
  define kept where "kept = (if length cache \<ge> probeCacheMaxEntries then filter (\<lambda>(k, _). k \<noteq> victim) cache else cache)"
  have c: "res = Some r" "cache' = (key, r) # filter (\<lambda>(k, _). k \<noteq> key) kept"
    using assms(3) False r by (auto simp: ProbeFileCached_def kept_def Let_def)
  have "distinct (map fst kept)" "length kept < probeCacheMaxEntries"
    using assms(1,2) filter_out_key [of cache victim]
    by (auto simp: cache_ok_def kept_def distinct_map_fst_filter)
  then have "distinct (map fst (filter (\<lambda>(k, _). k \<noteq> key) kept))" "length (filter (\<lambda>(k, _). k \<noteq> key) kept) < probeCacheMaxEntries"
    by (auto simp: distinct_map_fst_filter intro: le_less_trans [OF length_filter_le])
  then show ?thesis using c False by (auto simp: cache_ok_def)
qed

end
