(* ===== verification/Artifact_Gate.thy ===== *)
theory Artifact_Gate
  imports Media_Probe Http_Backend Chunk_Assembly
begin

text \<open>
  From a finished render to a stored artifact (\<open>renderinggen/internal/processor\<close>): Chronon's receipt
  (\<open>chronon/telemetry.go\<close>), the verification policy with its three verdicts (\<open>receipt_verify.go\<close>,
  \<open>receipt_identity.go\<close>), the cross-check of the execution path (\<open>composition_check.go\<close>), the store
  phase (\<open>store_artifact.go\<close>) and the job's finalization (\<open>finalize_job.go\<close>). The decoders, the reads of the
  output file, \<open>strings.EqualFold\<close> and \<open>strings.ToLower\<close> are parameters; metrics that carry a
  duration are left out.
\<close>

section \<open>The receipt of a render\<close>

record receipt_media =
  rm_Container :: string
  rm_Codec :: string
  rm_VideoCodec :: string
  rm_CodecProfile :: string
  rm_VideoLevel :: string
  rm_PixelFormat :: string
  rm_Width :: int
  rm_Height :: int
  rm_FPS :: "int \<times> int"
  rm_RFPS :: "int \<times> int"
  rm_FrameCount :: int
  rm_DurationMS :: float64
  rm_DurationUS :: int
  rm_HasAudio :: bool
  rm_HasVideo :: bool
  rm_VideoStreams :: int
  rm_VideoTimeBase :: "int \<times> int"
  rm_SAR :: "int \<times> int"
  rm_ColorRange :: string
  rm_ColorSpace :: string
  rm_ColorTransfer :: string
  rm_ColorPrimaries :: string
  rm_FieldOrder :: string
  rm_StartPTS :: int
  rm_FirstFrameKeyframe :: bool
  rm_ClosedGOP :: bool
  rm_KeyframeInterval :: int
  rm_AudioStreams :: int
  rm_AudioCodec :: string
  rm_AudioProfile :: string
  rm_SampleRate :: int
  rm_Channels :: int
  rm_ChannelLayout :: string
  rm_AudioBitrate :: string
  rm_AudioTimeBase :: "int \<times> int"

record receipt_timing =
  rt_SHA256MS :: "float64 option"
  rt_FFProbeMS :: "float64 option"
  rt_CountFramesMS :: "float64 option"
  rt_DecodeMS :: "float64 option"
  rt_TotalMS :: "float64 option"

record MediaReceipt =
  mr_Schema :: string
  mr_Bytes :: int
  mr_SHA256 :: string
  mr_RequestedPolicy :: string
  mr_ResolvedPolicy :: string
  mr_Status :: string
  mr_FFprobe :: string
  mr_Decode :: string
  mr_FrameCount :: string
  mr_Codec :: string
  mr_PixelFormat :: string
  mr_Resolution :: string
  mr_FPS :: string
  mr_Audio :: string
  mr_Timing :: receipt_timing
  mr_Media :: receipt_media

fun negative :: "float64 \<Rightarrow> bool" where
  "negative NegInf = True"
| "negative (Fin x) = (x < 0)"
| "negative _ = False"

definition measured :: "float64 option \<Rightarrow> float64 option" where
  "measured ms = (case ms of Some x \<Rightarrow> if negative x then None else Some x | None \<Rightarrow> None)"

text \<open>
  \<open>decoded\<close> is the receipt file as JSON (\<open>None\<close>: unreadable), \<open>legacy\<close> the value of the old key
  \<open>probe_ms\<close>. The result is \<open>None\<close> where the code returns an error.
\<close>

definition ReadMediaReceipt :: "MediaReceipt option \<Rightarrow> float64 option \<Rightarrow> MediaReceipt option" where
  "ReadMediaReceipt decoded legacy =
     (case decoded of
        None \<Rightarrow> None
      | Some r \<Rightarrow>
          (let t = mr_Timing r; ffprobe = (case rt_FFProbeMS t of None \<Rightarrow> legacy | Some x \<Rightarrow> Some x);
               t' = \<lparr> rt_SHA256MS = measured (rt_SHA256MS t), rt_FFProbeMS = measured ffprobe,
                      rt_CountFramesMS = measured (rt_CountFramesMS t), rt_DecodeMS = measured (rt_DecodeMS t),
                      rt_TotalMS = measured (rt_TotalMS t) \<rparr>
           in if mr_SHA256 r = [] \<or> mr_Bytes r \<le> 0 then None else Some (r\<lparr> mr_Timing := t' \<rparr>)))"

definition HasCanonicalMedia :: "MediaReceipt \<Rightarrow> bool" where
  "HasCanonicalMedia r \<longleftrightarrow> rm_Container (mr_Media r) \<noteq> [] \<and> rm_Width (mr_Media r) > 0 \<and> rm_Height (mr_Media r) > 0"

definition VerificationPassed :: "MediaReceipt \<Rightarrow> bool" where
  "VerificationPassed r \<longleftrightarrow> mr_Status r = ''pass''"

definition VerificationFailures :: "MediaReceipt \<Rightarrow> string list" where
  "VerificationFailures r =
     map fst (filter (\<lambda>(_, verdict). verdict = ''fail'')
       [(''ffprobe'', mr_FFprobe r), (''decode'', mr_Decode r), (''frame_count'', mr_FrameCount r), (''codec'', mr_Codec r),
        (''pixel_format'', mr_PixelFormat r), (''resolution'', mr_Resolution r), (''fps'', mr_FPS r), (''audio'', mr_Audio r)])"

definition verificationPolicyCodes :: "(string \<times> rat) list" where
  "verificationPolicyCodes = [(''fast'', 1), (''normal'', 2), (''certify'', 3)]"

definition VerificationMetrics :: "MediaReceipt \<Rightarrow> (string \<times> float64) list" where
  "VerificationMetrics r =
     (case map_of verificationPolicyCodes (mr_ResolvedPolicy r) of
        Some code \<Rightarrow> [(''chronon_receipt_verification_policy'', Fin code)] | None \<Rightarrow> []) @
     (if mr_Status r = ''pass'' then [(''chronon_receipt_verification_status'', Fin 1)]
      else if mr_Status r = ''fail'' then [(''chronon_receipt_verification_status'', Fin 0)] else [])"

definition ReceiptTimingMetrics :: "MediaReceipt \<Rightarrow> (string \<times> float64) list" where
  "ReceiptTimingMetrics r =
     List.map_filter (\<lambda>(key, ms). map_option (Pair key) (case ms of Some x \<Rightarrow> if \<not> negative x \<and> x \<noteq> NaN then Some x else None | None \<Rightarrow> None))
       [(''chronon_receipt_sha256_ms'', rt_SHA256MS (mr_Timing r)), (''chronon_receipt_probe_ms'', rt_FFProbeMS (mr_Timing r)),
        (''chronon_receipt_count_frames_ms'', rt_CountFramesMS (mr_Timing r)),
        (''chronon_receipt_decode_ms'', rt_DecodeMS (mr_Timing r)), (''chronon_receipt_total_ms'', rt_TotalMS (mr_Timing r))]"

section \<open>The verification policy\<close>

datatype renderVerifyLevel = RenderVerifyFast | RenderVerifyNormal | RenderVerifySample | RenderVerifyCertify | RenderVerifyStrict

definition receiptVerifyLevel :: "string \<Rightarrow> renderVerifyLevel" where
  "receiptVerifyLevel s =
     (if s = ''normal'' then RenderVerifyNormal else if s = ''sample'' then RenderVerifySample
      else if s = ''certify'' then RenderVerifyCertify else if s = ''strict'' then RenderVerifyStrict
      else RenderVerifyFast)"

definition chrononReceiptRequest :: "renderVerifyLevel \<Rightarrow> string" where
  "chrononReceiptRequest level = (if level = RenderVerifyCertify then ''certify'' else ''fast'')"

datatype compositionDivergence = SingleSourceDespiteOverlay | CompositedUnpredicted

datatype proc_error =
    ReceiptMissing renderVerifyLevel
  | ReceiptFailed renderVerifyLevel "string list"
  | DecodeFailed renderVerifyLevel
  | StatFailed
  | ReceiptSizeMismatch
  | ReceiptNoDigest
  | HashFailed
  | DigestMismatch
  | TailSizeMismatch
  | TailDigestMismatch
  | OpenFailed
  | PutFailed storage_error
  | CloseFailed
  | NoCertifiedFacts
  | CompositionDiverges compositionDivergence
  | ProbeFailed
  | ProfileRefused media_error
  | OverlayRefused media_error
  | VisualRefused media_error

text \<open>
  The tools of the gates on one output file: string folding, whether the sampled and the complete
  decode of the file succeed, the size \<open>os.Stat\<close> reports and the digest of a read of the file
  (\<open>None\<close>: the system call failed).
\<close>

record gate_env =
  ge_EqualFold :: "string \<Rightarrow> string \<Rightarrow> bool"
  ge_ToLower :: "string \<Rightarrow> string"
  ge_sampled :: bool
  ge_decode :: bool
  ge_size :: "int option"
  ge_digest :: "string option"

type_synonym metrics = "(string \<times> float64) list"

definition set_metric :: "string \<Rightarrow> metrics \<Rightarrow> metrics" where
  "set_metric k ms = (k, Fin 1) # filter (\<lambda>(k', _). k' \<noteq> k) ms"

definition receiptProvesDecode :: "gate_env \<Rightarrow> MediaReceipt \<Rightarrow> bool" where
  "receiptProvesDecode ge r \<longleftrightarrow>
     ge_EqualFold ge (TrimSpace (mr_Decode r)) ''pass''
     \<or> ge_ToLower ge (TrimSpace (mr_ResolvedPolicy r)) \<in> {''normal'', ''certify''}"

text \<open>The passes of \<open>ValidateDecodeSampled\<close> and the run of \<open>ValidateDecode\<close> are known by their exit codes.\<close>

definition enforceDecodableOutput ::
  "renderVerifyLevel \<Rightarrow> gate_env \<Rightarrow> MediaReceipt option \<Rightarrow> metrics \<Rightarrow> proc_error option \<times> metrics" where
  "enforceDecodableOutput policy ge receipt ms =
     (if policy \<notin> {RenderVerifySample, RenderVerifyNormal, RenderVerifyCertify} then (None, ms)
      else if (case receipt of Some r \<Rightarrow> receiptProvesDecode ge r | None \<Rightarrow> False) then (None, ms)
      else if policy = RenderVerifySample \<and> ge_sampled ge then
        (None, set_metric ''worker_decode_verified'' (set_metric ''worker_decode_sampled'' ms))
      else
        (let ms1 = (if policy = RenderVerifySample then set_metric ''worker_decode_escalated'' ms else ms)
         in if \<not> ge_decode ge then (Some (DecodeFailed policy), ms1)
            else (None, set_metric ''worker_decode_verified'' ms1)))"

definition enforceReceiptVerificationDirect ::
  "renderVerifyLevel \<Rightarrow> MediaReceipt option \<Rightarrow> metrics \<Rightarrow> proc_error option \<times> metrics" where
  "enforceReceiptVerificationDirect policy receipt ms =
     (case receipt of
        None \<Rightarrow>
          (if policy = RenderVerifyFast then (None, set_metric ''chronon_receipt_missing'' ms)
           else (Some (ReceiptMissing policy), ms))
      | Some r \<Rightarrow>
          (if \<not> VerificationPassed r then (Some (ReceiptFailed policy (VerificationFailures r)), ms) else (None, ms)))"

datatype identity_source = ReceiptAbsent | ReceiptSizeDiffers | ReceiptWithoutDigest | ReceiptSizeMatched | ReceiptVerified

record artifactIdentity =
  ai_SHA256 :: string
  ai_Proven :: bool
  ai_Source :: identity_source

definition unusable_identity :: "identity_source \<Rightarrow> artifactIdentity" where
  "unusable_identity src = \<lparr> ai_SHA256 = [], ai_Proven = False, ai_Source = src \<rparr>"

definition resolveArtifactIdentity ::
  "renderVerifyLevel \<Rightarrow> gate_env \<Rightarrow> MediaReceipt option \<Rightarrow> metrics \<Rightarrow> (proc_error, artifactIdentity) result \<times> metrics" where
  "resolveArtifactIdentity policy ge receipt ms =
     (case receipt of
        None \<Rightarrow> (Inr (unusable_identity ReceiptAbsent), set_metric ''chronon_receipt_missing'' ms)
      | Some r \<Rightarrow>
          (let claim = TrimSpace (mr_SHA256 r) in
           case ge_size ge of
             None \<Rightarrow> (Inl StatFailed, ms)
           | Some n \<Rightarrow>
               (if mr_Bytes r \<noteq> n then
                  (let ms1 = set_metric ''receipt_size_mismatch'' ms
                   in if policy \<noteq> RenderVerifyFast then (Inl ReceiptSizeMismatch, ms1)
                      else (Inr (unusable_identity ReceiptSizeDiffers), ms1))
                else if claim = [] then
                  (let ms1 = set_metric ''receipt_identity_unusable'' ms
                   in if policy \<noteq> RenderVerifyFast then (Inl ReceiptNoDigest, ms1)
                      else (Inr (unusable_identity ReceiptWithoutDigest), ms1))
                else if policy = RenderVerifyFast then
                  (Inr \<lparr> ai_SHA256 = claim, ai_Proven = False, ai_Source = ReceiptSizeMatched \<rparr>,
                   set_metric ''receipt_identity_unverified'' ms)
                else case ge_digest ge of
                  None \<Rightarrow> (Inl HashFailed, ms)
                | Some digest \<Rightarrow>
                    (if \<not> ge_EqualFold ge digest claim then (Inl DigestMismatch, set_metric ''receipt_identity_mismatch'' ms)
                     else (Inr \<lparr> ai_SHA256 = digest, ai_Proven = True, ai_Source = ReceiptVerified \<rparr>, ms)))))"

record receiptOutcome =
  ro_Receipt :: "MediaReceipt option"
  ro_Identity :: artifactIdentity

definition verifyArtifactReceipt ::
  "renderVerifyLevel \<Rightarrow> gate_env \<Rightarrow> MediaReceipt option \<Rightarrow> metrics \<Rightarrow> (proc_error, receiptOutcome) result \<times> metrics" where
  "verifyArtifactReceipt policy ge receipt ms =
     (case enforceReceiptVerificationDirect policy receipt ms of
        (Some e, ms1) \<Rightarrow> (Inl e, ms1)
      | (None, ms1) \<Rightarrow>
          (case enforceDecodableOutput policy ge receipt ms1 of
             (Some e, ms2) \<Rightarrow> (Inl e, ms2)
           | (None, ms2) \<Rightarrow>
               (case resolveArtifactIdentity policy ge receipt ms2 of
                  (Inl e, ms3) \<Rightarrow> (Inl e, ms3)
                | (Inr i, ms3) \<Rightarrow> (Inr \<lparr> ro_Receipt = receipt, ro_Identity = i \<rparr>, ms3))))"

section \<open>The cross-check of the execution path\<close>

text \<open>A plan is known by its canvas, its profile and, per layer, its type and id.\<close>

record render_plan =
  rp_Width :: int
  rp_Height :: int
  rp_FPSNum :: int
  rp_FPSDen :: int
  rp_DurationFrames :: int
  rp_ProfileID :: string
  rp_Layers :: "(string \<times> string) list"

fun overlay_layers :: "(string \<times> string) list \<Rightarrow> nat \<Rightarrow> bool" where
  "overlay_layers [] videoLayers = (videoLayers > 1)"
| "overlay_layers ((type, lid) # ls) videoLayers =
     (if type = ''video'' then
        (if lid \<noteq> [] \<and> lid \<noteq> ''source'' then True else overlay_layers ls (videoLayers + 1))
      else if type \<noteq> [] then True
      else overlay_layers ls videoLayers)"

definition planHasVisualOverlay :: "render_plan option \<Rightarrow> bool" where
  "planHasVisualOverlay plan = (case plan of None \<Rightarrow> False | Some p \<Rightarrow> overlay_layers (rp_Layers p) 0)"

fun positive :: "float64 \<Rightarrow> bool" where
  "positive PosInf = True"
| "positive (Fin x) = (x > 0)"
| "positive _ = False"

record ExecutionFacts =
  ef_ExecutionPath :: string
  ef_SurfaceHandoffPath :: string
  ef_CompositeFrames :: "int option"
  ef_CompositeBlendMS :: "float64 option"

text \<open>
  The decoders of the telemetry document: its schema, its bounded sections and its facts; \<open>None\<close> where
  the decoding fails.
\<close>

record facts_codec =
  fc_schema :: "bytes \<Rightarrow> string option"
  fc_bound :: "bytes \<Rightarrow> bytes option"
  fc_facts :: "bytes \<Rightarrow> ExecutionFacts option"

definition DecodeExecutionFacts :: "facts_codec \<Rightarrow> bytes \<Rightarrow> ExecutionFacts option" where
  "DecodeExecutionFacts fc raw =
     (if raw = [] then None
      else case fc_schema fc raw of
        None \<Rightarrow> None
      | Some schema \<Rightarrow>
          (if schema = ''chronon3d.render-telemetry-summary.v1'' then fc_facts fc raw
           else if schema \<in> {''chronon3d.frame-timing.v2'', ''chronon3d.frame-timing.v3''} then
             (case fc_bound fc raw of None \<Rightarrow> None | Some b \<Rightarrow> fc_facts fc b)
           else None))"

definition DirectSource :: "ExecutionFacts \<Rightarrow> bool" where
  "DirectSource f \<longleftrightarrow> ef_ExecutionPath f = ''direct_yuv''"

text \<open>Whether frames were composited, and whether the document says.\<close>

definition Composited :: "ExecutionFacts \<Rightarrow> bool \<times> bool" where
  "Composited f =
     (case ef_CompositeFrames f of
        Some n \<Rightarrow> (n > 0, True)
      | None \<Rightarrow> (case ef_CompositeBlendMS f of Some x \<Rightarrow> (positive x, True) | None \<Rightarrow> (False, False)))"

definition checkCompositionPrediction :: "bool \<Rightarrow> ExecutionFacts \<Rightarrow> compositionDivergence option" where
  "checkCompositionPrediction predicted facts =
     (case Composited facts of (composited, known) \<Rightarrow>
        (if predicted then (if DirectSource facts then Some SingleSourceDespiteOverlay else None)
         else if known \<and> composited then Some CompositedUnpredicted else None))"

definition verifyCompositionPrediction ::
  "facts_codec \<Rightarrow> render_plan option \<Rightarrow> bytes \<Rightarrow> renderVerifyLevel \<Rightarrow> metrics \<Rightarrow> proc_error option \<times> metrics" where
  "verifyCompositionPrediction fc plan raw level ms =
     (if raw = [] then (None, set_metric ''composition_prediction_unverifiable'' ms)
      else case DecodeExecutionFacts fc raw of
        None \<Rightarrow> (None, set_metric ''composition_prediction_unverifiable'' ms)
      | Some facts \<Rightarrow>
          (case checkCompositionPrediction (planHasVisualOverlay plan) facts of
             None \<Rightarrow> (None, ms)
           | Some d \<Rightarrow>
               (if d = SingleSourceDespiteOverlay \<or> level = RenderVerifyCertify \<or> level = RenderVerifyStrict
                then Some (CompositionDiverges d) else None,
                set_metric ''composition_prediction_divergence'' ms)))"

section \<open>What the gate decides\<close>

definition has_metric :: "string \<Rightarrow> metrics \<Rightarrow> bool" where
  "has_metric k ms \<longleftrightarrow> k \<in> fst ` set ms"

lemma has_set_metric [simp]: "has_metric k (set_metric k' ms) \<longleftrightarrow> k = k' \<or> has_metric k ms"
  by (force simp: has_metric_def set_metric_def)

definition decode_promised :: "renderVerifyLevel \<Rightarrow> bool" where
  "decode_promised policy \<longleftrightarrow> policy = RenderVerifySample \<or> policy = RenderVerifyNormal \<or> policy = RenderVerifyCertify"

definition decode_kept :: "renderVerifyLevel \<Rightarrow> gate_env \<Rightarrow> MediaReceipt \<Rightarrow> bool" where
  "decode_kept policy ge r \<longleftrightarrow>
     receiptProvesDecode ge r \<or> ge_decode ge \<or> policy = RenderVerifySample \<and> ge_sampled ge"

lemma decode_verdict:
  "fst (enforceDecodableOutput policy ge (Some r) ms) =
     (if decode_promised policy \<and> \<not> decode_kept policy ge r then Some (DecodeFailed policy) else None)"
  by (cases policy) (simp_all add: enforceDecodableOutput_def decode_promised_def decode_kept_def Let_def)

lemma identity_verdict:
  assumes "resolveArtifactIdentity policy ge (Some r) ms = (x, ms')"
  shows "((\<exists>i. x = Inr i) \<longleftrightarrow> ge_size ge \<noteq> None
        \<and> (policy \<noteq> RenderVerifyFast \<longrightarrow> ge_size ge = Some (mr_Bytes r) \<and> TrimSpace (mr_SHA256 r) \<noteq> []
             \<and> (\<exists>d. ge_digest ge = Some d \<and> ge_EqualFold ge d (TrimSpace (mr_SHA256 r)))))
    \<and> (\<forall>i. x = Inr i \<longrightarrow> (ai_Proven i \<longleftrightarrow> policy \<noteq> RenderVerifyFast)
        \<and> (ai_Proven i \<longrightarrow> ge_digest ge = Some (ai_SHA256 i))
        \<and> (\<not> ai_Proven i \<longrightarrow> has_metric ''receipt_size_mismatch'' ms'
             \<or> has_metric ''receipt_identity_unusable'' ms' \<or> has_metric ''receipt_identity_unverified'' ms'))"
  using assms
  by (auto simp: resolveArtifactIdentity_def unusable_identity_def Let_def split: option.splits if_splits)

text \<open>
  C20. The verification gate accepts a render exactly when the promises of its policy are kept. Without a
  receipt only the fast policy accepts. With one, its aggregate verdict must be a pass; under a policy
  that promises a decode there is evidence of it; and under every policy but fast the receipt describes
  the file in size and digest. The identity handed to the store phase is then the digest of a read of
  the file. Under fast it is unproven, and the metrics say so.
\<close>

theorem gate_keeps_the_promises_of_its_policy:
  assumes "verifyArtifactReceipt policy ge receipt ms = (res, ms')"
  shows "((\<exists>out. res = Inr out) \<longleftrightarrow>
      (case receipt of
         None \<Rightarrow> policy = RenderVerifyFast
       | Some r \<Rightarrow> VerificationPassed r \<and> (decode_promised policy \<longrightarrow> decode_kept policy ge r) \<and> ge_size ge \<noteq> None
           \<and> (policy \<noteq> RenderVerifyFast \<longrightarrow> ge_size ge = Some (mr_Bytes r) \<and> TrimSpace (mr_SHA256 r) \<noteq> []
                \<and> (\<exists>d. ge_digest ge = Some d \<and> ge_EqualFold ge d (TrimSpace (mr_SHA256 r))))))
    \<and> (\<forall>out. res = Inr out \<longrightarrow> ro_Receipt out = receipt
        \<and> (ai_Proven (ro_Identity out) \<longleftrightarrow> policy \<noteq> RenderVerifyFast)
        \<and> (ai_Proven (ro_Identity out) \<longrightarrow> ge_digest ge = Some (ai_SHA256 (ro_Identity out)))
        \<and> (\<not> ai_Proven (ro_Identity out) \<longrightarrow> has_metric ''chronon_receipt_missing'' ms' \<or> has_metric ''receipt_size_mismatch'' ms'
             \<or> has_metric ''receipt_identity_unusable'' ms' \<or> has_metric ''receipt_identity_unverified'' ms'))"
proof (cases receipt)
  case None
  then show ?thesis
    using assms by (cases policy)
      (auto simp: verifyArtifactReceipt_def enforceReceiptVerificationDirect_def enforceDecodableOutput_def
        resolveArtifactIdentity_def unusable_identity_def)
next
  case (Some r)
  show ?thesis
  proof (cases "VerificationPassed r \<and> (decode_promised policy \<longrightarrow> decode_kept policy ge r)")
    case False
    then have "\<exists>e. res = Inl e"
      using assms Some decode_verdict [of policy ge r ms]
      by (auto simp: verifyArtifactReceipt_def enforceReceiptVerificationDirect_def split: if_splits prod.splits option.splits)
    then show ?thesis using False Some by auto
  next
    case True
    obtain ms1 where "enforceDecodableOutput policy ge receipt ms = (None, ms1)"
      using decode_verdict [of policy ge r ms] True Some by (metis prod.collapse)
    moreover have "enforceReceiptVerificationDirect policy receipt ms = (None, ms)"
      using True Some by (simp add: enforceReceiptVerificationDirect_def)
    moreover obtain x ms2 where x: "resolveArtifactIdentity policy ge (Some r) ms1 = (x, ms2)" by fastforce
    ultimately have "ms' = ms2" "case x of Inl e \<Rightarrow> res = Inl e | Inr i \<Rightarrow> res = Inr \<lparr> ro_Receipt = receipt, ro_Identity = i \<rparr>"
      using assms Some by (auto simp: verifyArtifactReceipt_def split: sum.splits)
    then show ?thesis
      using identity_verdict [OF x] True Some by (cases x) auto
  qed
qed

section \<open>The store phase\<close>

text \<open>
  The upload of a file by its address: the bytes that reach the server may differ from those that were
  sent, and the request or its reply may be lost.
\<close>

record put_net =
  pn_received :: "reader \<Rightarrow> reader"
  pn_request :: bool
  pn_reply :: bool

type_synonym 's uploader = "string \<Rightarrow> reader \<Rightarrow> int \<Rightarrow> 's \<Rightarrow> storage_error option \<times> 's"

definition store_PutReader ::
  "(string \<Rightarrow> reader \<Rightarrow> int \<Rightarrow> 's \<Rightarrow> (store_error, unit) result \<times> 's) \<Rightarrow> put_net \<Rightarrow> 's uploader" where
  "store_PutReader put pn key body n s =
     (if \<not> pn_request pn then (Some BackendError, s)
      else case srv_put put key (pn_received pn body) n s of
        (resp, s') \<Rightarrow> (http_StoreReader (if pn_reply pn then Some resp else None), s'))"

text \<open>
  The raw timing document beside the output: its size, its content, the digest and size of a streamed
  read and the file opened for the upload.
\<close>

record sidecar_file =
  sf_size :: "int option"
  sf_data :: "bytes option"
  sf_hash :: "(string \<times> int) option"
  sf_open :: "reader option"

definition timingSidecarInlineMaxBytes :: int where "timingSidecarInlineMaxBytes = 4 * 2 ^ 20"

text \<open>\<open>None\<close> stands for an error; the size 0 for nothing to store.\<close>

definition putTimingSidecar ::
  "(bytes \<Rightarrow> string) \<Rightarrow> 's uploader \<Rightarrow> sidecar_file \<Rightarrow> 's \<Rightarrow>
   (string \<times> int) option \<times> 's" where
  "putTimingSidecar sha upload sf s =
     (case sf_size sf of
        None \<Rightarrow> (None, s)
      | Some n \<Rightarrow>
          (if n = 0 then (Some ([], 0), s)
           else if n \<le> timingSidecarInlineMaxBytes then
             (case sf_data sf of
                None \<Rightarrow> (None, s)
              | Some data \<Rightarrow>
                  (if data = [] then (Some ([], 0), s)
                   else case upload (sha data) (data, None) (int (length data)) s of
                     (Some _, s') \<Rightarrow> (None, s')
                   | (None, s') \<Rightarrow> (Some (sha data, int (length data)), s')))
           else
             (case sf_hash sf of
                None \<Rightarrow> (None, s)
              | Some (hash, m) \<Rightarrow>
                  (case sf_open sf of
                     None \<Rightarrow> (None, s)
                   | Some body \<Rightarrow>
                       (case upload hash body m s of
                          (Some _, s') \<Rightarrow> (None, s')
                        | (None, s') \<Rightarrow> (Some (hash, m), s'))))))"

definition artifactURL :: "string \<Rightarrow> string \<Rightarrow> string" where
  "artifactURL storeURL hash = (if storeURL = [] then [] else storeURL @ ''/objects/'' @ hash)"

definition preserveRawTimingSidecar ::
  "(bytes \<Rightarrow> string) \<Rightarrow> 's uploader \<Rightarrow> string \<Rightarrow> sidecar_file \<Rightarrow>
   Artifact \<Rightarrow> 's \<Rightarrow> Artifact \<times> 's" where
  "preserveRawTimingSidecar sha upload storeURL sf a s =
     (case putTimingSidecar sha upload sf s of
        (None, s') \<Rightarrow> (a\<lparr> art_Metrics := set_metric ''chronon_timing_sidecar_missing'' (art_Metrics a) \<rparr>, s')
      | (Some (hash, n), s') \<Rightarrow>
          (if n = 0 then (a\<lparr> art_Metrics := set_metric ''chronon_timing_sidecar_missing'' (art_Metrics a) \<rparr>, s')
           else (a\<lparr> art_ChrononTimingStorageKey := hash, art_ChrononTimingURL := artifactURL storeURL hash,
                    art_ChrononTimingSHA256 := hash, art_ChrononTimingSizeBytes := n,
                    art_ChrononTimingContentType := ''application/vnd.chronon.timing+json'',
                    art_Metrics := (''chronon_timing_bytes'', Fin (of_int n)) #
                      filter (\<lambda>(k, _). k \<noteq> ''chronon_timing_bytes'') (set_metric ''chronon_timing_preserved'' (art_Metrics a)) \<rparr>, s')))"

definition publishedRenderBackend :: "string \<Rightarrow> bool \<Rightarrow> string" where
  "publishedRenderBackend backend nativeCertified =
     (if backend = ''vulkan'' \<and> nativeCertified then ''chronon_vulkan'' else backend)"

record planMetadata =
  pm_Width :: int
  pm_Height :: int
  pm_FPSNum :: int
  pm_FPSDen :: int
  pm_FrameCount :: int
  pm_DurationUS :: int
  pm_ProfileID :: string

text \<open>Division of Go's integers truncates towards zero.\<close>

definition quot :: "int \<Rightarrow> int \<Rightarrow> int" where
  "quot a b = sgn a * sgn b * (\<bar>a\<bar> div \<bar>b\<bar>)"

definition planMetadataOf :: "render_plan option \<Rightarrow> planMetadata" where
  "planMetadataOf plan =
     (case plan of
        Some p \<Rightarrow>
          (if rp_FPSNum p \<le> 0 \<or> rp_FPSDen p \<le> 0
           then \<lparr> pm_Width = 0, pm_Height = 0, pm_FPSNum = 0, pm_FPSDen = 0, pm_FrameCount = 0, pm_DurationUS = 0, pm_ProfileID = [] \<rparr>
           else \<lparr> pm_Width = rp_Width p, pm_Height = rp_Height p, pm_FPSNum = rp_FPSNum p, pm_FPSDen = rp_FPSDen p,
                  pm_FrameCount = rp_DurationFrames p,
                  pm_DurationUS = quot (wrap64 (wrap64 (rp_DurationFrames p * 1000000) * rp_FPSDen p)) (rp_FPSNum p),
                  pm_ProfileID = rp_ProfileID p \<rparr>)
      | None \<Rightarrow> \<lparr> pm_Width = 0, pm_Height = 0, pm_FPSNum = 0, pm_FPSDen = 0, pm_FrameCount = 0, pm_DurationUS = 0, pm_ProfileID = [] \<rparr>)"

definition outputFactsFromProbe :: "ProbeResult \<Rightarrow> BatchSegmentFacts list \<Rightarrow> OutputFacts" where
  "outputFactsFromProbe p segments =
     OutputFacts (pb_Container p) (pb_HasVideo p) (pb_VideoStreams p) (pb_VideoCodec p) (pb_CodecProfile p) (pb_VideoLevel p)
       (pb_CodecConfigSHA256 p) (pb_PixelFormat p) (pb_Width p) (pb_Height p) (pb_FPSNum p) (pb_FPSDen p)
       (fst (pb_VideoTimeBase p)) (snd (pb_VideoTimeBase p)) (fst (pb_AudioTimeBase p)) (snd (pb_AudioTimeBase p))
       (fst (pb_SAR p)) (snd (pb_SAR p)) (pb_ColorRange p) (pb_ColorSpace p) (pb_ColorTransfer p) (pb_ColorPrimaries p)
       (pb_FieldOrder p) (pb_KeyframeInterval p) (pb_StartPTS p) (pb_HasAudio p) (pb_AudioStreams p) (pb_AudioCodec p)
       (pb_AudioProfile p) (pb_SampleRate p) (pb_Channels p) (pb_ChannelLayout p) (pb_AudioBitrate p) segments"

text \<open>The artifact of a stored output, before the telemetry is added.\<close>

record worker_identity =
  wi_backend :: string
  wi_chrononVersion :: string
  wi_storeURL :: string

definition base_artifact :: "worker_identity \<Rightarrow> planMetadata \<Rightarrow> bool \<Rightarrow> string \<Rightarrow> int \<Rightarrow> metrics \<Rightarrow> Artifact" where
  "base_artifact wi md nativeCertified hash n ms =
     \<lparr> art_ID = [], art_Kind = ''segment'', art_StorageKey = hash, art_ArtifactURL = artifactURL (wi_storeURL wi) hash,
       art_ArtifactHash = hash, art_ContentType = ''video/mp4'', art_SizeBytes = n, art_Width = pm_Width md,
       art_Height = pm_Height md, art_FPSNum = pm_FPSNum md, art_FPSDen = pm_FPSDen md, art_FrameCount = pm_FrameCount md,
       art_DurationUS = pm_DurationUS md, art_ProfileID = pm_ProfileID md, art_CopyEligible = False, art_Codec = [],
       art_CodecProfile = [], art_ClosedGOP = False, art_FirstFrameKeyframe = False,
       art_Backend = publishedRenderBackend (wi_backend wi) nativeCertified, art_ChrononVersion = wi_chrononVersion wi,
       art_Metrics = ms, art_ChrononTelemetry = [], art_ChrononTimingStorageKey = [], art_ChrononTimingURL = [],
       art_ChrononTimingSHA256 = [], art_ChrononTimingSizeBytes = 0, art_ChrononTimingContentType = [],
       art_DriveFileID = [], art_DriveLink = [], art_Container = [], art_PixelFormat = [], art_AudioStreams = 0,
       art_OutputFacts = None, art_Provenance = None \<rparr>"

definition probed_artifact :: "ProbeResult option \<Rightarrow> bool \<Rightarrow> Artifact \<Rightarrow> Artifact" where
  "probed_artifact probe copyEligible a =
     (case probe of
        None \<Rightarrow> a
      | Some p \<Rightarrow> a\<lparr> art_Container := pb_Container p, art_PixelFormat := pb_PixelFormat p, art_AudioStreams := pb_AudioStreams p,
          art_Codec := pb_VideoCodec p, art_CodecProfile := pb_CodecProfile p, art_OutputFacts := Some (outputFactsFromProbe p []),
          art_FrameCount := pb_FrameCount p, art_FirstFrameKeyframe := pb_FirstFrameKeyframe p, art_ClosedGOP := pb_ClosedGOP p,
          art_Metrics := (if pb_ClosedGOPUncertifiable p then set_metric ''closed_gop_uncertifiable'' (art_Metrics a) else art_Metrics a),
          art_Width := pb_Width p, art_Height := pb_Height p, art_FPSNum := pb_FPSNum p, art_FPSDen := pb_FPSDen p,
          art_DurationUS := pb_DurationUS p, art_CopyEligible := copyEligible \<rparr>)"

definition segmented_artifact :: "ProbeResult option \<Rightarrow> BatchSegmentFacts list \<Rightarrow> Artifact \<Rightarrow> (proc_error, Artifact) result" where
  "segmented_artifact probe segments a =
     (if segments = [] then Inr a
      else case probe of
        None \<Rightarrow> Inl NoCertifiedFacts
      | Some p \<Rightarrow> Inr (a\<lparr> art_OutputFacts := Some (outputFactsFromProbe p segments) \<rparr>))"

definition merge_metrics :: "metrics \<Rightarrow> metrics \<Rightarrow> metrics" where
  "merge_metrics extra ms = extra @ filter (\<lambda>(k, _). k \<notin> fst ` set extra) ms"

text \<open>
  What the store phase meets: the size, the digest and the bytes of the output file, whether closing
  it succeeds, the telemetry document (\<open>None\<close>: unavailable) with its decoders and its numeric
  projection, the timing sidecar, and the diagnostic mirror (\<open>None\<close>: not configured).
\<close>

record store_env =
  se_size :: "int option"
  se_digest :: "string option"
  se_open :: "reader option"
  se_close :: bool
  se_telemetry :: "bytes option"
  se_codec :: facts_codec
  se_projected :: "bytes \<Rightarrow> metrics"
  se_sidecar :: sidecar_file
  se_mirror :: "bool option"

text \<open>
  The streaming upload, if the render started one: \<open>tail\<close> lets it drain and finalize, which is the
  commit point of its bytes. The result is the address of the bytes that are now in the store.
\<close>

definition commit_tail ::
  "('s \<Rightarrow> (storage_error, string \<times> int) result \<times> 's) option \<Rightarrow> artifactIdentity \<Rightarrow> int \<Rightarrow> 's \<Rightarrow>
   (proc_error, string option) result \<times> 's" where
  "commit_tail tail i n s =
     (case tail of
        None \<Rightarrow> (Inr None, s)
      | Some drain \<Rightarrow>
          (case drain s of
             (Inl _, s') \<Rightarrow> (Inr None, s')
           | (Inr (stagedSHA, streamed), s') \<Rightarrow>
               (if streamed \<noteq> n then (Inl TailSizeMismatch, s')
                else if ai_SHA256 i \<noteq> [] \<and> ai_SHA256 i \<noteq> stagedSHA then (Inl TailDigestMismatch, s')
                else (Inr (Some stagedSHA), s'))))"

definition upload_output ::
  "'s uploader \<Rightarrow> store_env \<Rightarrow> artifactIdentity \<Rightarrow> int \<Rightarrow> 's \<Rightarrow>
   (proc_error, string) result \<times> 's" where
  "upload_output upload se i n s =
     (case (if ai_SHA256 i \<noteq> [] then Some (ai_SHA256 i) else se_digest se) of
        None \<Rightarrow> (Inl HashFailed, s)
      | Some hash \<Rightarrow>
          (case se_open se of
             None \<Rightarrow> (Inl OpenFailed, s)
           | Some body \<Rightarrow>
               (case upload hash body n s of
                  (Some e, s') \<Rightarrow> (Inl (PutFailed e), s')
                | (None, s') \<Rightarrow> (if se_close se then (Inr hash, s') else (Inl CloseFailed, s')))))"

definition store_output ::
  "'s uploader \<Rightarrow>
   ('s \<Rightarrow> (storage_error, string \<times> int) result \<times> 's) option \<Rightarrow> store_env \<Rightarrow> artifactIdentity \<Rightarrow> int \<Rightarrow> 's \<Rightarrow>
   (proc_error, string) result \<times> 's" where
  "store_output upload tail se i n s =
     (case commit_tail tail i n s of
        (Inl e, s') \<Rightarrow> (Inl e, s')
      | (Inr (Some hash), s') \<Rightarrow> (Inr hash, s')
      | (Inr None, s') \<Rightarrow> upload_output upload se i n s')"

text \<open>The telemetry document is recorded and checked against the plan.\<close>

definition ingest_telemetry ::
  "store_env \<Rightarrow> render_plan option \<Rightarrow> renderVerifyLevel \<Rightarrow> Artifact \<Rightarrow> (proc_error, Artifact) result" where
  "ingest_telemetry se plan level a =
     (case se_telemetry se of
        None \<Rightarrow> Inr (a\<lparr> art_Metrics := set_metric ''chronon_telemetry_missing'' (art_Metrics a) \<rparr>)
      | Some raw \<Rightarrow>
          (case verifyCompositionPrediction (se_codec se) plan raw level (merge_metrics (se_projected se raw) (art_Metrics a)) of
             (Some e, _) \<Rightarrow> Inl e
           | (None, ms) \<Rightarrow> Inr (a\<lparr> art_ChrononTelemetry := raw, art_Metrics := ms \<rparr>)))"

definition recordArtifact :: "bool option \<Rightarrow> Artifact \<Rightarrow> Artifact" where
  "recordArtifact mirror a =
     (if mirror = Some False then a\<lparr> art_Metrics := set_metric ''mirror_failure'' (art_Metrics a) \<rparr> else a)"

definition receipt_metrics :: "receiptOutcome \<Rightarrow> metrics \<Rightarrow> metrics" where
  "receipt_metrics out ms =
     (case ro_Receipt out of
        None \<Rightarrow> ms
      | Some r \<Rightarrow> merge_metrics (VerificationMetrics r) (merge_metrics (ReceiptTimingMetrics r) ms))"

text \<open>The output and its sidecar are uploaded by the same client, each over the network as it is then.\<close>

definition storeArtifact ::
  "(bytes \<Rightarrow> string) \<Rightarrow> 's uploader \<Rightarrow> 's uploader \<Rightarrow> worker_identity \<Rightarrow> renderVerifyLevel \<Rightarrow>
   store_env \<Rightarrow> receiptOutcome \<Rightarrow> ('s \<Rightarrow> (storage_error, string \<times> int) result \<times> 's) option \<Rightarrow> render_plan option \<Rightarrow>
   metrics \<Rightarrow> ProbeResult option \<Rightarrow> bool \<Rightarrow> bool \<Rightarrow> BatchSegmentFacts list \<Rightarrow> 's \<Rightarrow> (proc_error, Artifact) result \<times> 's" where
  "storeArtifact sha upload upload_sidecar wi level se out tail plan ms probe copyEligible nativeCertified segments s =
     (case se_size se of
        None \<Rightarrow> (Inl StatFailed, s)
      | Some n \<Rightarrow>
          (case store_output upload tail se (ro_Identity out) n s of
             (Inl e, s1) \<Rightarrow> (Inl e, s1)
           | (Inr hash, s1) \<Rightarrow>
               (let a1 = probed_artifact probe copyEligible
                           (base_artifact wi (planMetadataOf plan) nativeCertified hash n (receipt_metrics out ms))
                in case segmented_artifact probe segments a1 of
                     Inl e \<Rightarrow> (Inl e, s1)
                   | Inr a2 \<Rightarrow>
                       (case ingest_telemetry se plan level a2 of
                          Inl e \<Rightarrow> (Inl e, s1)
                        | Inr a3 \<Rightarrow>
                            (case preserveRawTimingSidecar sha upload_sidecar (wi_storeURL wi) (se_sidecar se) a3 s1 of
                               (a4, s2) \<Rightarrow> (Inr (recordArtifact (se_mirror se) a4), s2))))))"

section \<open>What is in the store when an artifact is returned\<close>

text \<open>
  The two ways to bring bytes into a store, as the store phase relies on them: the invariant of the store
  is kept, an address that is readable stays readable, and a reported success means that the address
  is readable.
\<close>

definition good_upload :: "('s \<Rightarrow> bool) \<Rightarrow> ('s \<Rightarrow> string \<Rightarrow> bytes option) \<Rightarrow> 's uploader \<Rightarrow> bool" where
  "good_upload P read upload \<longleftrightarrow>
     (\<forall>s key rd n r s'. P s \<longrightarrow> upload key rd n s = (r, s') \<longrightarrow>
        P s' \<and> (\<forall>k. read s k \<noteq> None \<longrightarrow> read s' k \<noteq> None) \<and> (r = None \<longrightarrow> read s' key \<noteq> None))"

definition good_tail ::
  "('s \<Rightarrow> bool) \<Rightarrow> ('s \<Rightarrow> string \<Rightarrow> bytes option) \<Rightarrow> ('s \<Rightarrow> (storage_error, string \<times> int) result \<times> 's) \<Rightarrow> bool" where
  "good_tail P read drain \<longleftrightarrow>
     (\<forall>s r s'. P s \<longrightarrow> drain s = (r, s') \<longrightarrow>
        P s' \<and> (\<forall>k. read s k \<noteq> None \<longrightarrow> read s' k \<noteq> None) \<and> (\<forall>d n. r = Inr (d, n) \<longrightarrow> read s' d \<noteq> None))"

text \<open>A store that accepts staged uploads. Its digests are content addresses.\<close>

locale staged_store = content_store sha inv read put
  for sha :: "bytes \<Rightarrow> string" and inv :: "'s \<Rightarrow> bool" and read :: "'s \<Rightarrow> string \<Rightarrow> bytes option"
    and put :: "string \<Rightarrow> reader \<Rightarrow> int \<Rightarrow> 's \<Rightarrow> (store_error, unit) result \<times> 's" +
  fixes stage :: "string \<Rightarrow> reader \<Rightarrow> 's \<Rightarrow> (store_error, string \<times> int) result \<times> 's"
    and finalize :: "string \<Rightarrow> string \<Rightarrow> 's \<Rightarrow> (store_error, unit) result \<times> 's"
    and abort :: "string \<Rightarrow> 's \<Rightarrow> (store_error, unit) result \<times> 's"
  assumes digests: "inv s \<Longrightarrow> CanonicalContentAddress (sha b)"
    and stage_inv: "inv s \<Longrightarrow> inv (snd (stage i rd s))"
    and stage_refuses: "snd rd \<noteq> None \<Longrightarrow> \<exists>e. fst (stage i rd s) = Inl e"
    and stage_read: "inv s \<Longrightarrow> read (snd (stage i rd s)) k = read s k"
    and abort_inv: "inv s \<Longrightarrow> inv (snd (abort i s))"
    and abort_read: "inv s \<Longrightarrow> read (snd (abort i s)) k = read s k"
    and finalize_inv: "inv s \<Longrightarrow> inv (snd (finalize i d s))"
    and finalize_keeps: "inv s \<Longrightarrow> read s k \<noteq> None \<Longrightarrow> read (snd (finalize i d s)) k \<noteq> None"
    and finalize_installs: "inv s \<Longrightarrow> CanonicalContentAddress d \<Longrightarrow> fst (finalize i d s) = Inr () \<Longrightarrow>
      read (snd (finalize i d s)) d \<noteq> None"
begin

lemma put_good: "good_upload inv read (store_PutReader put pn)"
  unfolding good_upload_def
proof (intro allI impI)
  fix s key rd n r s'
  assume s: "inv s" and up: "store_PutReader put pn key rd n s = (r, s')"
  let ?rd = "MaxBytesReader (pn_received pn rd) maxObjectBytes"
  show "inv s' \<and> (\<forall>k. read s k \<noteq> None \<longrightarrow> read s' k \<noteq> None) \<and> (r = None \<longrightarrow> read s' key \<noteq> None)"
  proof (cases "pn_request pn")
    case True
    obtain x where x: "put key ?rd n s = (x, s')"
      using up True by (auto simp: store_PutReader_def srv_put_def split: prod.splits sum.splits)
    have "x = Inr ()" if "r = None"
      using up x True that
      by (auto simp: store_PutReader_def srv_put_def http_StoreReader_def respond_def putErrorStatus_def
          split: sum.splits if_splits store_error.splits)
    then show ?thesis
      using put_inv [OF s, of key ?rd n] put_accepted [OF s, of key ?rd n] put_present [OF s, of _ key ?rd n] x by auto
  qed (use up s in \<open>auto simp: store_PutReader_def\<close>)
qed

lemma server_calls:
  assumes "inv s"
  shows "inv (snd (srv_putStaging stage i rd s))" "read (snd (srv_putStaging stage i rd s)) k = read s k"
    "inv (abortStaged abort net i s)" "read (abortStaged abort net i s) k = read s k"
    "inv (snd (srv_finalizeStaging finalize i g s))"
    "read s k \<noteq> None \<Longrightarrow> read (snd (srv_finalizeStaging finalize i g s)) k \<noteq> None"
  using stage_inv [OF assms, of i "MaxBytesReader rd maxObjectBytes"] stage_read [OF assms, of i "MaxBytesReader rd maxObjectBytes" k]
    abort_inv [OF assms, of i] abort_read [OF assms, of i k] finalize_inv [OF assms, of i "the g"]
    finalize_keeps [OF assms, of k i "the g"] assms
  by (auto simp: srv_putStaging_def abortStaged_def srv_abortStaging_def srv_finalizeStaging_def
      split: prod.split sum.split option.split)

lemma finalize_answer:
  assumes "inv s" and "srv_finalizeStaging finalize i (Some (sha b)) s = (resp, s')" and "rs_status resp = 201"
  shows "read s' (sha b) \<noteq> None"
proof -
  have "finalize i (sha b) s = (Inr (), s')"
    using assms(2,3) by (auto simp: srv_finalizeStaging_def respond_def stagingErrorStatus_def
        split: prod.splits sum.splits store_error.splits)
  then show ?thesis using finalize_installs [OF assms(1) digests [OF assms(1)], of i b] by simp
qed

lemma staged_good: "good_tail inv read (StoreStaged sha stage finalize abort net session sent)"
  unfolding good_tail_def
proof (intro allI impI)
  fix s r s'
  assume s: "inv s" and up: "StoreStaged sha stage finalize abort net session sent s = (r, s')"
  let ?i = "TrimSpace session"
  show "inv s' \<and> (\<forall>k. read s k \<noteq> None \<longrightarrow> read s' k \<noteq> None) \<and> (\<forall>d n. r = Inr (d, n) \<longrightarrow> read s' d \<noteq> None)"
  proof (cases "?i = [] \<or> nt_upload net = None")
    case True
    then show ?thesis using up s by (cases "?i = []") (auto simp: StoreStaged_def)
  next
    case False
    then obtain rd where rd: "nt_upload net = Some rd" by auto
    obtain resp s1 where put: "srv_putStaging stage ?i rd s = (resp, s1)" by fastforce
    have one: "inv s1" "read s1 k = read s k" for k using server_calls(1,2) [OF s, of ?i rd] put by simp_all
    obtain resp2 s2 where fin: "srv_finalizeStaging finalize ?i (Some (sha sent)) s1 = (resp2, s2)" by fastforce
    have two: "inv s2" "read s k \<noteq> None \<Longrightarrow> read s2 k \<noteq> None" for k
      using server_calls(5) [OF one(1), of ?i "Some (sha sent)"] server_calls(6) [OF one(1), of k ?i "Some (sha sent)"] fin one(2)
      by simp_all
    consider (failed) e where "r = Inl e" "s' \<in> {s1, s2, abortStaged abort net ?i s1, abortStaged abort net ?i s2}"
      | (stored) n where "r = Inr (sha sent, n)" "s' = s2" "rs_status resp2 = 201"
      using up False rd put fin by (auto simp: StoreStaged_def Let_def split: if_splits payload.splits)
    then show ?thesis
    proof cases
      case failed
      then show ?thesis using one two server_calls(3,4) by fastforce
    next
      case stored
      then show ?thesis using two finalize_answer [OF one(1) fin] by auto
    qed
  qed
qed

text \<open>A stream that breaks installs nothing.\<close>

lemma broken_stream:
  assumes "inv s" and "\<And>rd. nt_upload net = Some rd \<Longrightarrow> snd rd \<noteq> None"
    and "StoreStaged sha stage finalize abort net session sent s = (r, s')"
  shows "inv s' \<and> (\<forall>k. read s' k = read s k) \<and> (\<exists>e. r = Inl e)"
proof (cases "TrimSpace session = [] \<or> nt_upload net = None")
  case True
  then show ?thesis using assms by (cases "TrimSpace session = []") (auto simp: StoreStaged_def)
next
  case False
  then obtain rd where rd: "nt_upload net = Some rd" by auto
  obtain resp s1 where put: "srv_putStaging stage (TrimSpace session) rd s = (resp, s1)" by fastforce
  have "snd (MaxBytesReader rd maxObjectBytes) \<noteq> None" using assms(2) [OF rd] by (auto simp: MaxBytesReader_def split: prod.splits)
  then obtain e where "fst (stage (TrimSpace session) (MaxBytesReader rd maxObjectBytes) s) = Inl e" using stage_refuses by blast
  then have "rs_status resp \<noteq> 201"
    using put by (auto simp: srv_putStaging_def respond_def stagingErrorStatus_def split: prod.splits store_error.splits)
  then show ?thesis
    using assms(3) False rd put server_calls(1,2) [OF assms(1), of "TrimSpace session" rd]
    by (auto simp: StoreStaged_def Let_def split: if_splits)
qed

end

text \<open>Both backends of the server provide it.\<close>

lemma mem_staging_objects:
  "m_objects (snd (mem_StagingWrite sha i rd m)) = m_objects m" "m_objects (snd (mem_StagingAbort i m)) = m_objects m"
  by (auto simp: mem_StagingWrite_def mem_StagingAbort_def split: prod.split option.split)

lemma mem_staging_reads:
  "mem_read (snd (mem_StagingWrite sha i rd m)) k = mem_read m k" "mem_read (snd (mem_StagingAbort i m)) k = mem_read m k"
  by (simp_all add: mem_read_def mem_Get_def mem_staging_objects)

lemma mem_finalize_objects:
  "m_objects m k \<noteq> None \<Longrightarrow> m_objects (snd (mem_StagingFinalize clk i d m)) k \<noteq> None"
  "CanonicalContentAddress d \<Longrightarrow> fst (mem_StagingFinalize clk i d m) = Inr () \<Longrightarrow>
    m_objects (snd (mem_StagingFinalize clk i d m)) d \<noteq> None"
  by (auto simp: mem_StagingFinalize_def Let_def TrimSpace_canonical ToLower_digest split: option.splits if_splits)

abbreviation memory_inv :: "(bytes \<Rightarrow> string) \<Rightarrow> Memory \<Rightarrow> bool" where
  "memory_inv sha m \<equiv> mem_store_wf sha m \<and> (\<forall>b. CanonicalContentAddress (sha b))"

interpretation staged_memory: staged_store sha "memory_inv sha" mem_read
    "mem_PutReader sha clk" "mem_StagingWrite sha" "mem_StagingFinalize clk'" mem_StagingAbort for sha clk clk'
proof (unfold_locales, goal_cases)
  case (2 s k rd sz)
  then show ?case using memory.put_accepted by blast
next
  case (5 s k d)
  then show ?case using memory.read_sound by blast
next
  case (8 rd i s)
  then show ?case by (auto simp: mem_StagingWrite_def split: prod.split)
next
  case (13 s k i d)
  then show ?case using mem_finalize_objects(1) [of s k clk' i d] mem_StagingFinalize_wf [of sha s clk' i d] mem_read_eq [of sha s k]
    by (auto simp: mem_read_eq)
next
  case (14 s d i)
  then show ?case using mem_finalize_objects(2) [of d clk' i s] mem_StagingFinalize_wf [of sha s clk' i d]
    by (simp add: mem_read_eq)
qed (simp_all add: memory.put_inv memory.put_key memory.put_others mem_StagingWrite_wf mem_StagingFinalize_wf mem_StagingAbort_wf mem_staging_reads)

abbreviation disk_inv :: "(bytes \<Rightarrow> string) \<Rightarrow> Disk \<Rightarrow> bool" where
  "disk_inv sha s \<equiv> disk_wf sha s \<and> staging_wf sha s \<and> (\<forall>b. CanonicalContentAddress (sha b))"

text \<open>
  The staged writes of a disk on which every call may fail. When the write of the sidecar fails, it
  leaves the new digest line cut short at any byte, or, in a session without a sidecar, none; it does
  not leave a stale sidecar of an earlier write under the same session. (The worker draws a random
  session for every attempt, so there is none; \<open>stale_sidecar_installs_wrong_bytes\<close> is why it matters.)
\<close>

definition fresh_sidecar :: "nat option \<Rightarrow> string \<Rightarrow> Disk \<Rightarrow> nat option" where
  "fresh_sidecar torn session s =
     (case torn of Some n \<Rightarrow> Some n | None \<Rightarrow> if dk_digest s session = None then None else Some 0)"

definition disk_stage ::
  "(bytes \<Rightarrow> string) \<Rightarrow> (syscall \<Rightarrow> bool) \<Rightarrow> nat option \<Rightarrow> string \<Rightarrow> reader \<Rightarrow> Disk \<Rightarrow> (store_error, string \<times> int) result \<times> Disk" where
  "disk_stage sha ok torn session rd s = StagingWrite sha ok (fresh_sidecar torn session s) session rd s"

lemma disk_stage_fresh: "sidecar_fresh ok (fresh_sidecar torn session s) session s"
  by (simp add: sidecar_fresh_def fresh_sidecar_def split: option.split)

lemma disk_finalize_objects:
  "dk_objects s (path k) \<noteq> None \<Longrightarrow> dk_objects (snd (StagingFinalize ok i d s)) (path k) \<noteq> None"
  "CanonicalContentAddress d \<Longrightarrow> fst (StagingFinalize ok i d s) = Inr () \<Longrightarrow>
    dk_objects (snd (StagingFinalize ok i d s)) (path d) \<noteq> None"
  by (auto simp: StagingFinalize_def Let_def TrimSpace_canonical ToLower_digest split: option.splits if_splits)

interpretation staged_disk: staged_store sha "disk_inv sha" disk_read "PutReader sha ok tmp"
    "disk_stage sha ok1 torn" "StagingFinalize ok2" "StagingAbort ok3" for sha ok tmp ok1 torn ok2 ok3
proof (unfold_locales, goal_cases)
  case (1 s k rd sz)
  then show ?case using disk.put_inv by (simp add: staging_wf_def)
next
  case (2 s k rd sz)
  then show ?case using disk.put_accepted by blast
next
  case (3 s k rd sz)
  then show ?case using disk.put_key by blast
next
  case (4 s k' k rd sz)
  then show ?case using disk.put_others by blast
next
  case (5 s k d)
  then show ?case using disk.read_sound by blast
next
  case (7 s i rd)
  then show ?case using StagingWrite_staging [OF _ _ disk_stage_fresh, of sha s] by (simp add: disk_stage_def disk_wf_def)
next
  case (8 rd i s)
  then show ?case by (auto simp: disk_stage_def StagingWrite_def Let_def split: prod.split option.split)
next
  case (10 s i)
  then show ?case using StagingAbort_staging by (simp add: disk_wf_def)
next
  case (12 s i d)
  then show ?case using StagingFinalize_wf by blast
next
  case (13 s k i d)
  then show ?case using disk_finalize_objects(1) [of s k ok2 i d] by (auto simp: disk_read_def split: if_splits)
next
  case (14 s d i)
  then show ?case using disk_finalize_objects(2) [of d ok2 i s] by (simp add: disk_read_def)
qed (simp_all add: disk_read_def disk_stage_def)

section \<open>The store phase keeps its promise\<close>

lemma sidecar_stored:
  assumes "good_upload P read upload" "P s" and "putTimingSidecar sha upload sf s = (r, s')"
  shows "P s' \<and> (\<forall>k. read s k \<noteq> None \<longrightarrow> read s' k \<noteq> None) \<and> (\<forall>hash n. r = Some (hash, n) \<longrightarrow> n \<noteq> 0 \<longrightarrow> read s' hash \<noteq> None)"
  using assms unfolding good_upload_def putTimingSidecar_def
  by (auto split: option.splits if_splits prod.splits)

lemma output_stored:
  assumes "good_upload P read upload" "\<And>drain. tail = Some drain \<Longrightarrow> good_tail P read drain" "P s"
    and "store_output upload tail se i n s = (r, s')"
  shows "P s' \<and> (\<forall>hash. r = Inr hash \<longrightarrow> read s' hash \<noteq> None)"
proof -
  obtain x s1 where t: "commit_tail tail i n s = (x, s1)" by fastforce
  have one: "P s1 \<and> (\<forall>hash. x = Inr (Some hash) \<longrightarrow> read s1 hash \<noteq> None)"
    using t assms(2,3) unfolding commit_tail_def good_tail_def
    by (auto split: option.splits sum.splits prod.splits if_splits)
  then have "P (snd (upload_output upload se i n s1)) \<and>
      (\<forall>hash. fst (upload_output upload se i n s1) = Inr hash \<longrightarrow> read (snd (upload_output upload se i n s1)) hash \<noteq> None)"
    using assms(1) unfolding upload_output_def good_upload_def
    by (auto split: option.splits prod.splits if_splits)
  then show ?thesis
    using assms(4) one t unfolding store_output_def by (auto split: sum.splits option.splits)
qed

lemma artifact_key_kept:
  "art_StorageKey (probed_artifact probe ce a) = art_StorageKey a" "art_ArtifactHash (probed_artifact probe ce a) = art_ArtifactHash a"
  "art_ChrononTimingStorageKey (probed_artifact probe ce a) = art_ChrononTimingStorageKey a"
  "art_StorageKey (recordArtifact m a) = art_StorageKey a" "art_ArtifactHash (recordArtifact m a) = art_ArtifactHash a"
  "art_ChrononTimingStorageKey (recordArtifact m a) = art_ChrononTimingStorageKey a"
  by (simp_all add: probed_artifact_def recordArtifact_def split: option.split)

lemma checked_artifact_key:
  "segmented_artifact probe segs a = Inr a' \<Longrightarrow> art_StorageKey a' = art_StorageKey a \<and> art_ArtifactHash a' = art_ArtifactHash a
     \<and> art_ChrononTimingStorageKey a' = art_ChrononTimingStorageKey a"
  "ingest_telemetry se plan level a = Inr a' \<Longrightarrow> art_StorageKey a' = art_StorageKey a \<and> art_ArtifactHash a' = art_ArtifactHash a
     \<and> art_ChrononTimingStorageKey a' = art_ChrononTimingStorageKey a"
  by (auto simp: segmented_artifact_def ingest_telemetry_def split: if_splits option.splits prod.splits)

lemma preserved_sidecar:
  assumes "good_upload P read upload" "P s" and "preserveRawTimingSidecar sha upload url sf a s = (a', s')"
  shows "P s' \<and> (\<forall>k. read s k \<noteq> None \<longrightarrow> read s' k \<noteq> None)
    \<and> art_StorageKey a' = art_StorageKey a \<and> art_ArtifactHash a' = art_ArtifactHash a
    \<and> (art_ChrononTimingStorageKey a = [] \<longrightarrow> art_ChrononTimingStorageKey a' \<noteq> [] \<longrightarrow>
         read s' (art_ChrononTimingStorageKey a') \<noteq> None)"
proof -
  obtain r s1 where put: "putTimingSidecar sha upload sf s = (r, s1)" by fastforce
  have "s' = s1" using assms(3) put by (auto simp: preserveRawTimingSidecar_def split: option.splits if_splits)
  then show ?thesis
    using assms(3) put sidecar_stored [OF assms(1,2) put]
    by (auto simp: preserveRawTimingSidecar_def split: option.splits if_splits prod.splits)
qed

lemma stored_artifact_readable:
  assumes "good_upload P read upload" "good_upload P read upload_sidecar"
    and "\<And>drain. tail = Some drain \<Longrightarrow> good_tail P read drain" and "P s"
    and "storeArtifact sha upload upload_sidecar wi level se out tail plan ms probe ce nc segs s = (res, s')"
  shows "P s' \<and> (\<forall>a. res = Inr a \<longrightarrow> art_ArtifactHash a = art_StorageKey a \<and> read s' (art_StorageKey a) \<noteq> None
    \<and> (art_ChrononTimingStorageKey a \<noteq> [] \<longrightarrow> read s' (art_ChrononTimingStorageKey a) \<noteq> None))"
proof (cases "se_size se")
  case None
  then show ?thesis using assms(4,5) by (auto simp: storeArtifact_def)
next
  case (Some n)
  obtain x s1 where out: "store_output upload tail se (ro_Identity out) n s = (x, s1)" by fastforce
  have one: "P s1" "\<And>hash. x = Inr hash \<Longrightarrow> read s1 hash \<noteq> None"
    using output_stored [OF assms(1,3,4) out] by auto
  show ?thesis
  proof (cases "\<exists>a. res = Inr a")
    case False
    then show ?thesis using assms(5) Some out one
      by (auto simp: storeArtifact_def Let_def split: sum.splits prod.splits)
  next
    case True
    then obtain a where a: "res = Inr a" by auto
    obtain hash a2 a3 a4 where hash: "x = Inr hash"
      and a2: "segmented_artifact probe segs (probed_artifact probe ce
          (base_artifact wi (planMetadataOf plan) nc hash n (receipt_metrics out ms))) = Inr a2"
      and a3: "ingest_telemetry se plan level a2 = Inr a3"
      and a4: "preserveRawTimingSidecar sha upload_sidecar (wi_storeURL wi) (se_sidecar se) a3 s1 = (a4, s')"
      and fin: "a = recordArtifact (se_mirror se) a4"
      using assms(5) Some out a by (auto simp: storeArtifact_def Let_def split: sum.splits prod.splits)
    have keys: "art_StorageKey a3 = hash" "art_ArtifactHash a3 = hash" "art_ChrononTimingStorageKey a3 = []"
      using checked_artifact_key(1) [OF a2] checked_artifact_key(2) [OF a3] by (simp_all add: artifact_key_kept base_artifact_def)
    show ?thesis
      using preserved_sidecar [OF assms(2) one(1) a4] keys one(2) [OF hash] a fin by (simp add: artifact_key_kept)
  qed
qed

text \<open>
  C19. A worker that returns an artifact has its bytes in the store. Whether the output was streamed while it
  was rendered or uploaded afterwards, over any network and with any failures of the store's disk,
  the returned artifact is recorded under the address of readable bytes with that digest, and so is
  the timing document it refers to. Where the phase fails, the store still serves only bytes that
  match their address. One failure is excluded, that a sidecar that cannot be written keeps the one
  of an earlier staged write under the same session (\<open>disk_stage\<close>); and no other client works on the
  store during the phase.
\<close>

theorem returned_artifact_is_stored:
  assumes "disk_inv sha s"
    and "storeArtifact sha (store_PutReader (PutReader sha ok tmp) pn) (store_PutReader (PutReader sha ok1 tmp1) pn1) wi level se out
      (map_option (\<lambda>(net, session, sent). StoreStaged sha (disk_stage sha ok2 torn) (StagingFinalize ok3) (StagingAbort ok4)
        net session sent) tail) plan ms probe ce nc segs s = (res, s')"
  shows "disk_wf sha s' \<and> (\<forall>a. res = Inr a \<longrightarrow> art_ArtifactHash a = art_StorageKey a
    \<and> (\<exists>b. disk_read s' (art_StorageKey a) = Some b \<and> sha b = art_StorageKey a)
    \<and> (art_ChrononTimingStorageKey a \<noteq> [] \<longrightarrow>
         (\<exists>b. disk_read s' (art_ChrononTimingStorageKey a) = Some b \<and> sha b = art_ChrononTimingStorageKey a)))"
proof -
  have "good_tail (disk_inv sha) disk_read drain"
    if "map_option (\<lambda>(net, session, sent). StoreStaged sha (disk_stage sha ok2 torn) (StagingFinalize ok3) (StagingAbort ok4)
        net session sent) tail = Some drain" for drain
    using that staged_disk.staged_good by auto
  from stored_artifact_readable [OF staged_disk.put_good staged_disk.put_good this assms(1,2)]
  have s': "disk_inv sha s'" and keys: "\<And>a. res = Inr a \<Longrightarrow> art_ArtifactHash a = art_StorageKey a \<and> disk_read s' (art_StorageKey a) \<noteq> None
      \<and> (art_ChrononTimingStorageKey a \<noteq> [] \<longrightarrow> disk_read s' (art_ChrononTimingStorageKey a) \<noteq> None)"
    by blast+
  have "\<exists>b. disk_read s' k = Some b \<and> sha b = k" if "disk_read s' k \<noteq> None" for k
    using that disk.read_sound s' by fastforce
  then show ?thesis using s' keys by blast
qed

subsection \<open>The properties at work\<close>

text \<open>A receipt of three bytes, and the file it describes.\<close>

definition sample_media :: receipt_media where
  "sample_media = \<lparr> rm_Container = ''mp4'', rm_Codec = ''h264'', rm_VideoCodec = ''h264'', rm_CodecProfile = ''High'',
     rm_VideoLevel = ''4.0'', rm_PixelFormat = ''yuv420p'', rm_Width = 1920, rm_Height = 1080, rm_FPS = (24, 1), rm_RFPS = (24, 1),
     rm_FrameCount = 48, rm_DurationMS = Fin 2000, rm_DurationUS = 2000000, rm_HasAudio = False, rm_HasVideo = True,
     rm_VideoStreams = 1, rm_VideoTimeBase = (1, 12288), rm_SAR = (1, 1), rm_ColorRange = [], rm_ColorSpace = [],
     rm_ColorTransfer = [], rm_ColorPrimaries = [], rm_FieldOrder = [], rm_StartPTS = 0, rm_FirstFrameKeyframe = True,
     rm_ClosedGOP = True, rm_KeyframeInterval = 24, rm_AudioStreams = 0, rm_AudioCodec = [], rm_AudioProfile = [],
     rm_SampleRate = 0, rm_Channels = 0, rm_ChannelLayout = [], rm_AudioBitrate = [], rm_AudioTimeBase = (0, 0) \<rparr>"

definition sample_receipt :: MediaReceipt where
  "sample_receipt = \<lparr> mr_Schema = [], mr_Bytes = 3, mr_SHA256 = toy_sha ''abc'', mr_RequestedPolicy = ''fast'',
     mr_ResolvedPolicy = ''fast'', mr_Status = ''pass'', mr_FFprobe = ''pass'', mr_Decode = ''skip'', mr_FrameCount = ''skip'',
     mr_Codec = ''pass'', mr_PixelFormat = ''pass'', mr_Resolution = ''pass'', mr_FPS = ''pass'', mr_Audio = ''skip'',
     mr_Timing = \<lparr> rt_SHA256MS = None, rt_FFProbeMS = None, rt_CountFramesMS = None, rt_DecodeMS = None, rt_TotalMS = None \<rparr>,
     mr_Media = sample_media \<rparr>"

definition sample_gate :: gate_env where
  "sample_gate = \<lparr> ge_EqualFold = (\<lambda>a b. a = b), ge_ToLower = ToLower, ge_sampled = True, ge_decode = True,
     ge_size = Some 3, ge_digest = Some (toy_sha ''abc'') \<rparr>"

definition sample_store_env :: store_env where
  "sample_store_env = \<lparr> se_size = Some 3, se_digest = Some (toy_sha ''abc''), se_open = Some (''abc'', None), se_close = True,
     se_telemetry = None, se_codec = \<lparr> fc_schema = (\<lambda>_. None), fc_bound = (\<lambda>_. None), fc_facts = (\<lambda>_. None) \<rparr>,
     se_projected = (\<lambda>_. []), se_sidecar = \<lparr> sf_size = None, sf_data = None, sf_hash = None, sf_open = None \<rparr>, se_mirror = None \<rparr>"

definition sample_outcome :: receiptOutcome where
  "sample_outcome = \<lparr> ro_Receipt = Some sample_receipt,
     ro_Identity = \<lparr> ai_SHA256 = toy_sha ''abc'', ai_Proven = True, ai_Source = ReceiptVerified \<rparr> \<rparr>"

lemma toy_sha_nonempty [simp]: "toy_sha b \<noteq> []"
  using toy_sha_canonical [of b] by (auto simp: CanonicalContentAddress_def SHA256HexLen_def)

lemma sample_verified:
  "\<exists>ms. verifyArtifactReceipt RenderVerifyNormal sample_gate (Some sample_receipt) [] = (Inr sample_outcome, ms)"
proof -
  have "\<not> receiptProvesDecode sample_gate sample_receipt"
  proof -
    have "TrimSpace ''skip'' = ''skip''" "TrimSpace ''fast'' = ''fast''" "ToLower ''fast'' = ''fast''" by code_simp+
    then show ?thesis by (simp add: receiptProvesDecode_def sample_gate_def sample_receipt_def)
  qed
  then show ?thesis
    by (simp add: verifyArtifactReceipt_def enforceReceiptVerificationDirect_def VerificationPassed_def enforceDecodableOutput_def
        resolveArtifactIdentity_def sample_outcome_def Let_def)
       (simp add: sample_receipt_def sample_gate_def TrimSpace_canonical toy_sha_canonical toy_sha_nonempty)
qed

theorem gate_keeps_the_promises_of_its_policy_witness:
  "ge_digest sample_gate = Some (ai_SHA256 (ro_Identity sample_outcome)) \<and> VerificationPassed sample_receipt"
proof -
  obtain ms where v: "verifyArtifactReceipt RenderVerifyNormal sample_gate (Some sample_receipt) [] = (Inr sample_outcome, ms)"
    using sample_verified by blast
  have p: "ai_Proven (ro_Identity sample_outcome)" by (simp add: sample_outcome_def)
  from gate_keeps_the_promises_of_its_policy [OF v] p show ?thesis by auto
qed

definition faultless :: put_net where
  "faultless = \<lparr> pn_received = (\<lambda>rd. rd), pn_request = True, pn_reply = True \<rparr>"

text \<open>The output is streamed while it is rendered, and committed under the digest of the receipt.\<close>

abbreviation stored_disk :: Disk where
  "stored_disk \<equiv> NewDisk\<lparr> dk_objects := [path (toy_sha ''abc'') \<mapsto> ''abc''] \<rparr>"

lemma toy_disk_staged:
  "StoreStaged toy_sha (disk_stage toy_sha (\<lambda>_. True) None) (StagingFinalize (\<lambda>_. True)) (StagingAbort (\<lambda>_. True))
     (good_net ''abc'') ''s1'' ''abc'' NewDisk = (Inr (toy_sha ''abc'', 3), stored_disk)"
proof -
  have s: "TrimSpace ''s1'' = ''s1''" by code_simp
  show ?thesis
    by (simp add: StoreStaged_def Let_def s good_net_def srv_putStaging_def srv_finalizeStaging_def respond_def
        MaxBytesReader_def maxObjectBytes_def disk_stage_def StagingWrite_def StagingFinalize_def stagingSessionGrammar_def
        stage_bytes_def stage_digest_def TrimSpace_canonical TrimSpace_digest ToLower_digest toy_sha_canonical NewDisk_def
        fun_upd_idem)
qed

lemma sample_stored:
  "\<exists>a. storeArtifact toy_sha (store_PutReader (PutReader toy_sha (\<lambda>_. True) ''x'') faultless)
        (store_PutReader (PutReader toy_sha (\<lambda>_. True) ''y'') faultless) \<lparr> wi_backend = ''vulkan'', wi_chrononVersion = [], wi_storeURL = [] \<rparr>
        RenderVerifyNormal sample_store_env sample_outcome
        (map_option (\<lambda>(net, session, sent). StoreStaged toy_sha (disk_stage toy_sha (\<lambda>_. True) None)
           (StagingFinalize (\<lambda>_. True)) (StagingAbort (\<lambda>_. True)) net session sent) (Some (good_net ''abc'', ''s1'', ''abc'')))
        None [] None False True [] NewDisk = (Inr a, stored_disk)
      \<and> art_StorageKey a = toy_sha ''abc''"
  by (simp add: storeArtifact_def sample_store_env_def store_output_def commit_tail_def toy_disk_staged sample_outcome_def
      toy_sha_nonempty segmented_artifact_def ingest_telemetry_def preserveRawTimingSidecar_def putTimingSidecar_def
      recordArtifact_def probed_artifact_def base_artifact_def Let_def)

theorem returned_artifact_is_stored_witness:
  "\<exists>b. disk_read stored_disk (toy_sha ''abc'') = Some b \<and> toy_sha b = toy_sha ''abc''"
proof -
  have inv: "disk_inv toy_sha NewDisk"
    using NewDisk_wf toy_sha_canonical by (simp add: staging_wf_def NewDisk_def)
  obtain a where a: "storeArtifact toy_sha (store_PutReader (PutReader toy_sha (\<lambda>_. True) ''x'') faultless)
        (store_PutReader (PutReader toy_sha (\<lambda>_. True) ''y'') faultless) \<lparr> wi_backend = ''vulkan'', wi_chrononVersion = [], wi_storeURL = [] \<rparr>
        RenderVerifyNormal sample_store_env sample_outcome
        (map_option (\<lambda>(net, session, sent). StoreStaged toy_sha (disk_stage toy_sha (\<lambda>_. True) None)
           (StagingFinalize (\<lambda>_. True)) (StagingAbort (\<lambda>_. True)) net session sent) (Some (good_net ''abc'', ''s1'', ''abc'')))
        None [] None False True [] NewDisk = (Inr a, stored_disk)"
      "art_StorageKey a = toy_sha ''abc''"
    using sample_stored by blast
  from returned_artifact_is_stored [OF inv a(1)] a(2) show ?thesis by auto
qed

end
