(* ===== verification/Finalize_Job.thy ===== *)
theory Finalize_Job
  imports Artifact_Gate Growing_File
begin

text \<open>
  The finalization of a rendered job (\<open>renderinggen/internal/processor\<close>): where the structural facts of
  an output come from and which gates they pass (\<open>finalize_job.go\<close>), the native GPU gate
  (\<open>native_gate.go\<close>), the per-item segments of a batch with their single retry (\<open>segments.go\<close>), and the
  whole of \<open>FinalizeJob\<close> over an object store. The renderer and the reads of files are parameters.
\<close>

section \<open>Structural facts\<close>

datatype probeSource = ProbeSourceReceipt | ProbeSourceLocalProbe

text \<open>
  What the gates read of one output file: its receipt, the runs of ffprobe on it (a second run, for
  the codec configuration, may see another file), the decoded frame count, the statistics of the
  sampled frames, the size and the digest. \<open>fe_us\<close> is the conversion \<open>int64(ms * 1000)\<close> of a float.
\<close>

record file_env =
  fe_receipt :: "MediaReceipt option"
  fe_legacy :: "float64 option"
  fe_us :: "float64 \<Rightarrow> int"
  fe_probe :: ffprobe_runs
  fe_reprobe :: ffprobe_runs
  fe_counted :: "string option"
  fe_samples :: "string option list"
  fe_float :: "string \<Rightarrow> rat"
  fe_gate :: gate_env
  fe_size :: "int option"
  fe_digest :: "string option"

definition probeResultFromReceipt :: "(float64 \<Rightarrow> int) \<Rightarrow> MediaReceipt \<Rightarrow> ProbeResult" where
  "probeResultFromReceipt us r =
     (let m = mr_Media r;
          durUS = (if rm_DurationUS m \<le> 0 \<and> positive (rm_DurationMS m) then us (rm_DurationMS m) else rm_DurationUS m);
          videoCodec = (if rm_VideoCodec m = [] then rm_Codec m else rm_VideoCodec m);
          fps = (if fst (rm_RFPS m) \<le> 0 then rm_FPS m else rm_RFPS m);
          fpsNum = fst fps; fpsDen = (if snd fps \<le> 0 then 1 else snd fps)
      in no_probe\<lparr> pb_Container := rm_Container m, pb_DurationUS := durUS, pb_Width := rm_Width m, pb_Height := rm_Height m,
           pb_FPSNum := fpsNum, pb_FPSDen := fpsDen, pb_PixelFormat := rm_PixelFormat m, pb_VideoCodec := videoCodec,
           pb_CodecProfile := rm_CodecProfile m, pb_FrameCount := rm_FrameCount m,
           pb_FirstFrameKeyframe := rm_FirstFrameKeyframe m, pb_HasVideo := (rm_HasVideo m \<or> rm_Width m > 0),
           pb_VideoStreams := rm_VideoStreams m, pb_VideoLevel := rm_VideoLevel m, pb_VideoTimeBase := rm_VideoTimeBase m,
           pb_AudioTimeBase := rm_AudioTimeBase m, pb_SAR := rm_SAR m, pb_ColorRange := rm_ColorRange m,
           pb_ColorSpace := rm_ColorSpace m, pb_ColorTransfer := rm_ColorTransfer m, pb_ColorPrimaries := rm_ColorPrimaries m,
           pb_FieldOrder := rm_FieldOrder m, pb_StartPTS := rm_StartPTS m, pb_KeyframeInterval := rm_KeyframeInterval m,
           pb_AudioStreams := rm_AudioStreams m, pb_HasAudio := rm_HasAudio m, pb_AudioCodec := rm_AudioCodec m,
           pb_AudioProfile := rm_AudioProfile m, pb_SampleRate := rm_SampleRate m, pb_Channels := rm_Channels m,
           pb_ChannelLayout := rm_ChannelLayout m, pb_AudioBitrate := rm_AudioBitrate m, pb_ClosedGOP := rm_ClosedGOP m,
           pb_ClosedGOPUncertifiable := False, pb_FPSUncertifiable := (fpsNum \<le> 0 \<or> fpsDen \<le> 0) \<rparr>)"

definition probeFactsForFinalize ::
  "(bytes \<Rightarrow> string) \<Rightarrow> file_env \<Rightarrow> MediaReceipt option \<Rightarrow> int \<Rightarrow> (ProbeResult \<times> probeSource) option" where
  "probeFactsForFinalize sha fe receipt known =
     (case receipt of
        Some r \<Rightarrow>
          (if HasCanonicalMedia r \<and> rm_FrameCount (mr_Media r) > 0 \<and> rm_CodecProfile (mr_Media r) \<noteq> []
           then Some (probeResultFromReceipt (fe_us fe) r, ProbeSourceReceipt)
           else map_option (\<lambda>p. (p, ProbeSourceLocalProbe)) (ProbeFileWithKnownFrameCount sha (fe_probe fe) known))
      | None \<Rightarrow> map_option (\<lambda>p. (p, ProbeSourceLocalProbe)) (ProbeFileWithKnownFrameCount sha (fe_probe fe) known))"

definition knownFrameCountForPlan :: "int \<Rightarrow> int" where
  "knownFrameCountForPlan durationFrames = (if durationFrames \<le> 0 then 0 else durationFrames)"

definition knownFrameCountForProbe :: "int \<Rightarrow> FrameRange option \<Rightarrow> int" where
  "knownFrameCountForProbe canvasFrames frames =
     (case frames of
        Some r \<Rightarrow> knownFrameCountForPlan (wrap64 (fr_End r - fr_Start r))
      | None \<Rightarrow> knownFrameCountForPlan canvasFrames)"

definition ensureCodecConfigProbe ::
  "(bytes \<Rightarrow> string) \<Rightarrow> ffprobe_runs \<Rightarrow> ProbeResult \<Rightarrow> OutputProfile \<Rightarrow> ProbeResult option" where
  "ensureCodecConfigProbe sha reprobe p profile =
     (if op_CodecConfigSHA256 profile = [] \<or> pb_CodecConfigSHA256 p \<noteq> [] then Some p else ProbeFile sha reprobe)"

definition CountDecodedFrames :: "string option \<Rightarrow> int option" where
  "CountDecodedFrames out =
     (case out of
        None \<Rightarrow> None
      | Some text \<Rightarrow> (case Atoi (TrimSpace text) of Some n \<Rightarrow> if n \<le> 0 then None else Some n | None \<Rightarrow> None))"

definition requiresStructuralProbe :: "Job \<Rightarrow> bool" where
  "requiresStructuralProbe job \<longleftrightarrow>
     job_JobType job = JobTypeOverlayRender \<or> job_JobType job = JobTypeOverlayImport \<or> job_FrameRange job \<noteq> None"

text \<open>The certification of an output under the profile its plan names.\<close>

definition certified_probe ::
  "(bytes \<Rightarrow> string) \<Rightarrow> file_env \<Rightarrow> string \<Rightarrow> ProbeResult \<Rightarrow> (proc_error, ProbeResult) result" where
  "certified_probe sha fe profileID p =
     (case ResolveProfile profileID of
        None \<Rightarrow> Inl (ProfileRefused UnknownProfile)
      | Some profile \<Rightarrow>
          (case ensureCodecConfigProbe sha (fe_reprobe fe) p profile of
             None \<Rightarrow> Inl ProbeFailed
           | Some p' \<Rightarrow> (case ValidateProbe profile p' of Some e \<Rightarrow> Inl (ProfileRefused e) | None \<Rightarrow> Inr p')))"

definition structural_gate ::
  "(bytes \<Rightarrow> string) \<Rightarrow> file_env \<Rightarrow> bool \<Rightarrow> Job \<Rightarrow> render_plan option \<Rightarrow> MediaReceipt option \<Rightarrow>
   (proc_error, ProbeResult option) result" where
  "structural_gate sha fe deep job plan receipt =
     (let md = planMetadataOf plan;
          canvasFrames = (case plan of None \<Rightarrow> 0 | Some p \<Rightarrow> rp_DurationFrames p)
      in if \<not> requiresStructuralProbe job \<and> pm_ProfileID md = [] then Inr None
         else case probeFactsForFinalize sha fe receipt (knownFrameCountForProbe canvasFrames (job_FrameRange job)) of
           None \<Rightarrow> Inl ProbeFailed
         | Some (probed, _) \<Rightarrow>
             (case (if pm_ProfileID md \<noteq> [] then certified_probe sha fe (pm_ProfileID md) probed
                    else if job_JobType job = JobTypeOverlayRender then
                      (case ValidateOverlay probed (pm_Width md) (pm_Height md) (pm_FPSNum md) (pm_FPSDen md) of
                         Some e \<Rightarrow> Inl (OverlayRefused e) | None \<Rightarrow> Inr probed)
                    else Inr probed) of
                Inl e \<Rightarrow> Inl e
              | Inr p \<Rightarrow>
                  (if planHasVisualOverlay plan \<and> deep then
                     (case ValidateVisible (fe_float fe) (fe_samples fe) p of
                        Some e \<Rightarrow> Inl (VisualRefused e) | None \<Rightarrow> Inr (Some p))
                   else Inr (Some p))))"

section \<open>The native GPU gate\<close>

record NativeTelemetry =
  nv_Schema :: string
  nv_ExecutionPath :: string
  nv_SurfaceHandoffPath :: string
  nv_EffectiveBackend :: string
  nv_EncoderBackend :: string
  nv_FallbackNodes :: "int option"
  nv_CPUReadbackFrames :: "int option"
  nv_SoftwareEncodeFrames :: "int option"
  nv_VideoPipeFallback :: "int option"
  nv_NVENCFrames :: "int option"
  nv_VulkanFrames :: "int option"
  nv_NativeSurfaceFrames :: "int option"

datatype native_error =
    NativeTelemetryMissing | NativeUndecodable | NativeBackend | NativeFallback | NativeEncoder | NativeReadback
  | NativeSoftwareEncode | NativePipeFallback | NativeHandoff | NativeNVENCFrames | NativeSurfaceCount | NativeVulkanCount
  | NativeReceiptMissing

text \<open>The telemetry document beside the output, its decoder and whether the receipt is readable JSON.\<close>

record native_env =
  ne_raw :: "bytes option"
  ne_decode :: "bytes \<Rightarrow> NativeTelemetry option"
  ne_receipt :: bool

definition DecodeNativeTelemetry :: "(bytes \<Rightarrow> NativeTelemetry option) \<Rightarrow> bytes \<Rightarrow> NativeTelemetry option" where
  "DecodeNativeTelemetry dec raw =
     (if raw = [] then None
      else case dec raw of
        None \<Rightarrow> None
      | Some t \<Rightarrow>
          (if nv_Schema t \<noteq> ''chronon3d.render-telemetry-summary.v1''
              \<and> nv_Schema t \<notin> {''chronon3d.frame-timing.v2'', ''chronon3d.frame-timing.v3''} then None else Some t))"

definition at_least :: "int option \<Rightarrow> int \<Rightarrow> bool" where
  "at_least counter n = (case counter of None \<Rightarrow> False | Some k \<Rightarrow> k \<ge> n)"

definition not_positive :: "int option \<Rightarrow> bool" where
  "not_positive counter = (case counter of None \<Rightarrow> False | Some k \<Rightarrow> k \<le> 0)"

definition requireNativeVulkanTelemetry :: "native_env \<Rightarrow> int \<Rightarrow> native_error option" where
  "requireNativeVulkanTelemetry ne expectedFrames =
     (case ne_raw ne of
        None \<Rightarrow> Some NativeTelemetryMissing
      | Some raw \<Rightarrow>
          (case DecodeNativeTelemetry (ne_decode ne) raw of
             None \<Rightarrow> Some NativeUndecodable
           | Some t \<Rightarrow>
               (let directYUV = (nv_ExecutionPath t = ''direct_yuv'')
                in if \<not> directYUV \<and> nv_EffectiveBackend t \<noteq> ''vulkan'' then Some NativeBackend
                   else if nv_FallbackNodes t \<noteq> Some 0 then Some NativeFallback
                   else if nv_EncoderBackend t \<noteq> ''nvenc'' then Some NativeEncoder
                   else if \<not> not_positive (nv_CPUReadbackFrames t) then Some NativeReadback
                   else if \<not> not_positive (nv_SoftwareEncodeFrames t) then Some NativeSoftwareEncode
                   else if \<not> not_positive (nv_VideoPipeFallback t) then Some NativePipeFallback
                   else if nv_SurfaceHandoffPath t \<noteq> ''vulkan_copy'' \<and> nv_SurfaceHandoffPath t \<noteq> ''direct'' then Some NativeHandoff
                   else if expectedFrames > 0 \<and> \<not> at_least (nv_NVENCFrames t) expectedFrames then Some NativeNVENCFrames
                   else if expectedFrames > 0 \<and> directYUV \<and> \<not> at_least (nv_NativeSurfaceFrames t) expectedFrames
                   then Some NativeSurfaceCount
                   else if expectedFrames > 0 \<and> \<not> directYUV \<and> \<not> at_least (nv_VulkanFrames t) expectedFrames
                   then Some NativeVulkanCount
                   else None)))"

definition requireNativeVulkan :: "native_env \<Rightarrow> int \<Rightarrow> native_error option" where
  "requireNativeVulkan ne expectedFrames =
     (case requireNativeVulkanTelemetry ne expectedFrames of
        Some e \<Rightarrow> Some e
      | None \<Rightarrow> if \<not> ne_receipt ne then Some NativeReceiptMissing else None)"

definition planHasVideoSource :: "render_plan option \<Rightarrow> bool" where
  "planHasVideoSource plan =
     (case plan of None \<Rightarrow> False | Some p \<Rightarrow> \<exists>(type, lid) \<in> set (rp_Layers p). type = ''video'' \<and> (lid = [] \<or> lid = ''source''))"

definition isFinalJobComposite :: "Job \<Rightarrow> bool" where
  "isFinalJobComposite job = contains '':final-composite:'' (job_ID job)"

section \<open>The segments of a batch\<close>

datatype segment_error =
    SegCountMismatch
  | SegIdentity string
  | SegGate proc_error
  | SegHash
  | SegStat
  | SegProbe
  | SegCount
  | SegFrames int
  | SegContract media_error
  | SegStart
  | SegDuration
  | SegProfile proc_error
  | SegRetryRender
  | SegRetryNative native_error
  | SegOpen
  | SegStore storage_error
  | SegCancelled

record SegmentArtifact =
  sa_ArtifactURL :: string
  sa_OutputFacts :: "OutputFacts option"
  sa_FirstFrameKeyframe :: bool
  sa_ClosedGOP :: bool
  sa_CopyEligible :: bool
  sa_ItemID :: string
  sa_OutputPath :: string
  sa_SHA256 :: string
  sa_SizeBytes :: int
  sa_FrameCount :: int
  sa_DurationUS :: int
  sa_Width :: int
  sa_Height :: int
  sa_Retried :: bool

definition no_segment :: SegmentArtifact where
  "no_segment = \<lparr> sa_ArtifactURL = [], sa_OutputFacts = None, sa_FirstFrameKeyframe = False, sa_ClosedGOP = False,
     sa_CopyEligible = False, sa_ItemID = [], sa_OutputPath = [], sa_SHA256 = [], sa_SizeBytes = 0, sa_FrameCount = 0,
     sa_DurationUS = 0, sa_Width = 0, sa_Height = 0, sa_Retried = False \<rparr>"

definition batchSegmentFacts :: "SegmentArtifact list \<Rightarrow> BatchSegmentFacts list" where
  "batchSegmentFacts entries =
     map (\<lambda>e. BatchSegmentFacts (sa_ArtifactURL e) (sa_OutputFacts e) (sa_FirstFrameKeyframe e) (sa_ClosedGOP e)
       (sa_CopyEligible e) (sa_ItemID e) (sa_SHA256 e) (sa_SizeBytes e) (sa_FrameCount e) (sa_DurationUS e) (sa_Width e)
       (sa_Height e) (sa_Retried e)) entries"

definition window :: "OutputSegment \<Rightarrow> int" where
  "window seg = wrap64 (sg_EndFrame seg - sg_StartFrame seg)"

text \<open>The facts of a segment: a count of decoded frames replaces one that the receipt does not prove.\<close>

definition segment_probe ::
  "(bytes \<Rightarrow> string) \<Rightarrow> file_env \<Rightarrow> MediaReceipt option \<Rightarrow> OutputSegment \<Rightarrow> (segment_error, ProbeResult) result" where
  "segment_probe sha fe receipt seg =
     (case probeFactsForFinalize sha fe receipt (if window seg > 0 then window seg else 0) of
        None \<Rightarrow> Inl SegProbe
      | Some (p, _) \<Rightarrow>
          (if (case receipt of None \<Rightarrow> True | Some r \<Rightarrow> rt_CountFramesMS (mr_Timing r) = None \<or> mr_FrameCount r \<noteq> ''pass'') then
             (case CountDecodedFrames (fe_counted fe) of
                None \<Rightarrow> Inl SegCount | Some n \<Rightarrow> Inr (p\<lparr> pb_FrameCount := n \<rparr>))
           else Inr p))"

definition segment_checks :: "planMetadata \<Rightarrow> OutputSegment \<Rightarrow> ProbeResult \<Rightarrow> segment_error option" where
  "segment_checks md seg p =
     (if window seg \<le> 0 \<or> pb_FrameCount p \<noteq> window seg then Some (SegFrames (pb_FrameCount p))
      else case ValidateOverlay p (pm_Width md) (pm_Height md) (pm_FPSNum md) (pm_FPSDen md) of
        Some e \<Rightarrow> Some (SegContract e)
      | None \<Rightarrow>
          (if \<not> pb_FirstFrameKeyframe p \<or> pb_StartPTS p \<noteq> 0 then Some SegStart
           else if pm_FPSNum md > 0 \<and> pm_FPSDen md > 0 then
             (let expectedUS = quot (wrap64 (wrap64 (window seg * 1000000) * pm_FPSDen md)) (pm_FPSNum md);
                  delta = wrap64 (pb_DurationUS p - expectedUS)
              in if delta < - 1000 \<or> delta > 1000 then Some SegDuration else None)
           else None))"

definition segment_entry :: "string \<Rightarrow> string \<Rightarrow> planMetadata \<Rightarrow> OutputSegment \<Rightarrow> string \<Rightarrow> int \<Rightarrow> ProbeResult \<Rightarrow> SegmentArtifact" where
  "segment_entry storeURL itemID md seg digest n p =
     \<lparr> sa_ArtifactURL = artifactURL storeURL digest, sa_OutputFacts = Some (outputFactsFromProbe p []),
       sa_FirstFrameKeyframe = pb_FirstFrameKeyframe p, sa_ClosedGOP = pb_ClosedGOP p,
       sa_CopyEligible = (pm_ProfileID md \<noteq> [] \<and> \<not> pb_ClosedGOPUncertifiable p \<and> pb_ClosedGOP p), sa_ItemID = itemID,
       sa_OutputPath = sg_OutputPath seg, sa_SHA256 = digest, sa_SizeBytes = n, sa_FrameCount = pb_FrameCount p,
       sa_DurationUS = pb_DurationUS p, sa_Width = pb_Width p, sa_Height = pb_Height p, sa_Retried = False \<rparr>"

definition verifySegmentOutput ::
  "(bytes \<Rightarrow> string) \<Rightarrow> string \<Rightarrow> renderVerifyLevel \<Rightarrow> file_env \<Rightarrow> string \<Rightarrow> OutputSegment \<Rightarrow> metrics \<Rightarrow> planMetadata \<Rightarrow>
   (segment_error, SegmentArtifact) result \<times> metrics" where
  "verifySegmentOutput sha storeURL level fe itemID seg ms md =
     (let receipt = ReadMediaReceipt (fe_receipt fe) (fe_legacy fe)
      in case verifyArtifactReceipt level (fe_gate fe) receipt ms of
        (Inl e, ms') \<Rightarrow> (Inl (SegGate e), ms')
      | (Inr out, ms') \<Rightarrow>
          (case (if ai_SHA256 (ro_Identity out) = [] then fe_digest fe else Some (ai_SHA256 (ro_Identity out))) of
             None \<Rightarrow> (Inl SegHash, ms')
           | Some digest \<Rightarrow>
               (case fe_size fe of
                  None \<Rightarrow> (Inl SegStat, ms')
                | Some n \<Rightarrow>
                    (case segment_probe sha fe receipt seg of
                       Inl e \<Rightarrow> (Inl e, ms')
                     | Inr p \<Rightarrow>
                         (case segment_checks md seg p of
                            Some e \<Rightarrow> (Inl e, ms')
                          | None \<Rightarrow>
                              (case (if pm_ProfileID md = [] then Inr p else certified_probe sha fe (pm_ProfileID md) p) of
                                 Inl e \<Rightarrow> (Inl (SegProfile e), ms')
                               | Inr p' \<Rightarrow> (Inr (segment_entry storeURL itemID md seg digest n p'), ms')))))))"

definition storeSegment :: "'s uploader \<Rightarrow> reader option \<Rightarrow> SegmentArtifact \<Rightarrow> 's \<Rightarrow> segment_error option \<times> 's" where
  "storeSegment upload opened entry s =
     (case opened of
        None \<Rightarrow> (Some SegOpen, s)
      | Some body \<Rightarrow> (case upload (sa_SHA256 entry) body (sa_SizeBytes entry) s of (e, s') \<Rightarrow> (map_option SegStore e, s')))"

text \<open>The fields of a render request that a retry narrows, and two it carries along.\<close>

record RenderRequest =
  rr_PlanPath :: string
  rr_AssetsRoot :: string
  rr_OutputPath :: string
  rr_OutputSegments :: "OutputSegment list"
  rr_RangeEnabled :: bool
  rr_FirstFrame :: int
  rr_LastFrame :: int
  rr_TotalFrames :: int
  rr_Progress :: bool

definition segment_request :: "RenderRequest \<Rightarrow> OutputSegment \<Rightarrow> RenderRequest" where
  "segment_request base seg = base\<lparr> rr_OutputSegments := [], rr_OutputPath := sg_OutputPath seg, rr_RangeEnabled := True,
     rr_FirstFrame := sg_StartFrame seg, rr_LastFrame := wrap64 (sg_EndFrame seg - 1), rr_TotalFrames := window seg,
     rr_Progress := False \<rparr>"

record PreparedJob =
  pj_Job :: Job
  pj_Plan :: "render_plan option"
  pj_Metrics :: metrics
  pj_NativeCertified :: bool
  pj_Segments :: "OutputSegment list"
  pj_SegmentItemIDs :: "string list"
  pj_baseRenderRequest :: RenderRequest

definition retrySegment ::
  "bool \<Rightarrow> PreparedJob \<Rightarrow> (RenderRequest \<Rightarrow> bool) \<Rightarrow> native_env \<Rightarrow> OutputSegment \<Rightarrow> segment_error option" where
  "retrySegment strictNative prepared render ne seg =
     (if \<not> render (segment_request (pj_baseRenderRequest prepared) seg) then Some SegRetryRender
      else if strictNative \<and> planHasVideoSource (pj_Plan prepared) \<and> \<not> isFinalJobComposite (pj_Job prepared) then
        map_option SegRetryNative (requireNativeVulkan ne (window seg))
      else None)"

text \<open>
  One segment meets: the file of the session, whether the context ended before a retry, the renderer,
  the telemetry and the file after the retry, the opened file and the upload.
\<close>

record 's segment_env =
  sv_first :: file_env
  sv_cancelled :: bool
  sv_render :: "RenderRequest \<Rightarrow> bool"
  sv_native :: native_env
  sv_second :: file_env
  sv_open :: "reader option"
  sv_upload :: "'s uploader"

record segmentOutcome =
  so_entry :: SegmentArtifact
  so_metrics :: metrics
  so_err :: "segment_error option"
  so_fatal :: "segment_error option"

definition published_segment ::
  "'s segment_env \<Rightarrow> SegmentArtifact \<Rightarrow> metrics \<Rightarrow> 's \<Rightarrow> segmentOutcome \<times> 's" where
  "published_segment sv entry ms s =
     (case storeSegment (sv_upload sv) (sv_open sv) entry s of
        (Some e, s') \<Rightarrow> (\<lparr> so_entry = no_segment, so_metrics = ms, so_err = None, so_fatal = Some e \<rparr>, s')
      | (None, s') \<Rightarrow> (\<lparr> so_entry = entry, so_metrics = ms, so_err = None, so_fatal = None \<rparr>, s'))"

definition finalizeSegment ::
  "(bytes \<Rightarrow> string) \<Rightarrow> string \<Rightarrow> renderVerifyLevel \<Rightarrow> bool \<Rightarrow> PreparedJob \<Rightarrow> (nat \<Rightarrow> 's segment_env) \<Rightarrow> planMetadata \<Rightarrow> nat \<Rightarrow> 's \<Rightarrow>
   segmentOutcome \<times> 's" where
  "finalizeSegment sha storeURL level strictNative prepared envs md index s =
     (let seg = pj_Segments prepared ! index; itemID = pj_SegmentItemIDs prepared ! index; sv = envs index;
          failed = (\<lambda>ms e. (\<lparr> so_entry = no_segment, so_metrics = ms, so_err = Some e, so_fatal = None \<rparr>, s))
      in case verifySegmentOutput sha storeURL level (sv_first sv) itemID seg [] md of
        (Inr entry, ms) \<Rightarrow> published_segment sv entry ms s
      | (Inl e, ms) \<Rightarrow>
          (if sv_cancelled sv then (\<lparr> so_entry = no_segment, so_metrics = ms, so_err = None, so_fatal = Some SegCancelled \<rparr>, s)
           else case retrySegment strictNative prepared (sv_render sv) (sv_native sv) seg of
             Some e' \<Rightarrow> failed ms e'
           | None \<Rightarrow>
               (case verifySegmentOutput sha storeURL level (sv_second sv) itemID seg ms md of
                  (Inl e', ms') \<Rightarrow> failed ms' e'
                | (Inr entry, ms') \<Rightarrow> published_segment sv (entry\<lparr> sa_Retried := True \<rparr>) ms' s)))"

text \<open>
  The pool. A segment touches the store only in its upload and everything before it depends on the
  segment's own file, so a run of the lanes is given by the order of the uploads.
\<close>

fun run_segments :: "(nat \<Rightarrow> 's \<Rightarrow> segmentOutcome \<times> 's) \<Rightarrow> nat list \<Rightarrow> segmentOutcome list \<Rightarrow> 's \<Rightarrow> segmentOutcome list \<times> 's" where
  "run_segments f [] outs s = (outs, s)"
| "run_segments f (i # is) outs s = (case f i s of (out, s') \<Rightarrow> run_segments f is (outs[i := out]) s')"

fun bad_identity :: "string list \<Rightarrow> string list \<Rightarrow> string option" where
  "bad_identity seen [] = None"
| "bad_identity seen (i # is) = (if i = [] \<or> i \<in> set seen then Some i else bad_identity (i # seen) is)"

fun assemble_outcomes ::
  "bool \<Rightarrow> segmentOutcome list \<Rightarrow> metrics \<Rightarrow> SegmentArtifact list \<Rightarrow> segment_error list \<Rightarrow>
   (SegmentArtifact list \<times> segment_error list) \<times> metrics" where
  "assemble_outcomes ctxErr [] ms entries failures = ((entries, failures), ms)"
| "assemble_outcomes ctxErr (out # outs) ms entries failures =
     (let ms' = merge_metrics (so_metrics out) ms
      in case so_fatal out of
        Some e \<Rightarrow>
          (if ctxErr \<or> e = SegCancelled \<or> e = SegStore ContextCancelled then ((entries, [e]), ms') else (([], [e]), ms'))
      | None \<Rightarrow>
          (case so_err out of
             Some e \<Rightarrow> assemble_outcomes ctxErr outs ms' entries (failures @ [e])
           | None \<Rightarrow> assemble_outcomes ctxErr outs ms' (entries @ [so_entry out]) failures))"

definition no_outcome :: segmentOutcome where
  "no_outcome = \<lparr> so_entry = no_segment, so_metrics = [], so_err = None, so_fatal = None \<rparr>"

definition finalizeSegments ::
  "(bytes \<Rightarrow> string) \<Rightarrow> string \<Rightarrow> renderVerifyLevel \<Rightarrow> bool \<Rightarrow> PreparedJob \<Rightarrow> (nat \<Rightarrow> 's segment_env) \<Rightarrow> nat list \<Rightarrow> bool \<Rightarrow> 's \<Rightarrow>
   ((SegmentArtifact list \<times> segment_error list) \<times> metrics) \<times> 's" where
  "finalizeSegments sha storeURL level strictNative prepared envs ord ctxErr s =
     (if length (pj_Segments prepared) \<noteq> length (pj_SegmentItemIDs prepared) then
        ((([], [SegCountMismatch]), pj_Metrics prepared), s)
      else case bad_identity [] (pj_SegmentItemIDs prepared) of
        Some i \<Rightarrow> ((([], [SegIdentity i]), pj_Metrics prepared), s)
      | None \<Rightarrow>
          (case run_segments (finalizeSegment sha storeURL level strictNative prepared envs (planMetadataOf (pj_Plan prepared)))
                  ord (replicate (length (pj_Segments prepared)) no_outcome) s of
             (outs, s') \<Rightarrow> (assemble_outcomes ctxErr outs (pj_Metrics prepared) [] [], s')))"

section \<open>The finalization of a job\<close>

datatype job_error = SegmentFailures "segment_error list" | OutputError proc_error

text \<open>The streaming upload of the output: its commit, and its abort while it is not committed.\<close>

record 's tail_upload =
  tl_drain :: "'s \<Rightarrow> (storage_error, string \<times> int) result \<times> 's"
  tl_abort :: "'s \<Rightarrow> 's"

record 's finalize_env =
  fn_level :: renderVerifyLevel
  fn_worker :: worker_identity
  fn_deepVisual :: bool
  fn_strictNative :: bool
  fn_file :: file_env
  fn_store :: store_env
  fn_upload :: "'s uploader"
  fn_sidecarUpload :: "'s uploader"
  fn_tail :: "'s tail_upload option"
  fn_segments :: "nat \<Rightarrow> 's segment_env"
  fn_order :: "nat list"
  fn_ctxErr :: bool

definition abort_tail :: "'s finalize_env \<Rightarrow> 's \<Rightarrow> 's" where
  "abort_tail fn s = (case fn_tail fn of None \<Rightarrow> s | Some t \<Rightarrow> tl_abort t s)"

text \<open>\<open>Finish\<close> commits the stream once the output's size is known; the deferred abort then does nothing.\<close>

definition finalize_output ::
  "(bytes \<Rightarrow> string) \<Rightarrow> 's finalize_env \<Rightarrow> PreparedJob \<Rightarrow> SegmentArtifact list \<Rightarrow> metrics \<Rightarrow> 's \<Rightarrow>
   (proc_error, Artifact) result \<times> 's" where
  "finalize_output sha fn prepared entries ms s =
     (let job = pj_Job prepared; plan = pj_Plan prepared; fe = fn_file fn;
          receipt = ReadMediaReceipt (fe_receipt fe) (fe_legacy fe)
      in case structural_gate sha fe (fn_deepVisual fn) job plan receipt of
        Inl e \<Rightarrow> (Inl e, abort_tail fn s)
      | Inr probe \<Rightarrow>
          (case verifyArtifactReceipt (fn_level fn) (fe_gate fe) receipt ms of
             (Inl e, _) \<Rightarrow> (Inl e, abort_tail fn s)
           | (Inr out, ms') \<Rightarrow>
               (case storeArtifact sha (fn_upload fn) (fn_sidecarUpload fn) (fn_worker fn) (fn_level fn) (fn_store fn) out
                       (map_option tl_drain (fn_tail fn)) plan ms' probe
                       (requiresStructuralProbe job \<or> pm_ProfileID (planMetadataOf plan) \<noteq> []) (pj_NativeCertified prepared)
                       (batchSegmentFacts entries) s of
                  (Inl e, s') \<Rightarrow> (Inl e, if se_size (fn_store fn) = None then abort_tail fn s' else s')
                | (Inr a, s') \<Rightarrow> (Inr a, s'))))"

definition segments_phase ::
  "(bytes \<Rightarrow> string) \<Rightarrow> 's finalize_env \<Rightarrow> PreparedJob \<Rightarrow> 's \<Rightarrow>
   ((SegmentArtifact list \<times> segment_error list) \<times> metrics) \<times> 's" where
  "segments_phase sha fn prepared s =
     (if pj_Segments prepared = [] then ((([], []), pj_Metrics prepared), s)
      else finalizeSegments sha (wi_storeURL (fn_worker fn)) (fn_level fn) (fn_strictNative fn) prepared
             (fn_segments fn) (fn_order fn) (fn_ctxErr fn) s)"

definition FinalizeJob ::
  "(bytes \<Rightarrow> string) \<Rightarrow> 's finalize_env \<Rightarrow> PreparedJob \<Rightarrow> 's \<Rightarrow> (job_error, Artifact) result \<times> 's" where
  "FinalizeJob sha fn prepared s =
     (case segments_phase sha fn prepared s of
        (((entries, failures), ms), s1) \<Rightarrow>
          (if failures \<noteq> [] then (Inl (SegmentFailures failures), s1)
           else case finalize_output sha fn prepared entries ms s1 of
             (Inl e, s2) \<Rightarrow> (Inl (OutputError e), s2)
           | (Inr a, s2) \<Rightarrow> (Inr a, s2)))"

section \<open>What a batch receipt lists\<close>

text \<open>The profiles that pin the codec configuration; certifying under one of them may probe the file again.\<close>

definition assembly_ids :: "string set" where
  "assembly_ids = {''VELOX_ASSEMBLY_READY_V1'', ''VELOX_ASSEMBLY_READY_V2''}"

lemma unpinned_profile:
  assumes "ResolveProfile i = Some profile" and "i \<notin> assembly_ids"
  shows "op_CodecConfigSHA256 profile = []"
  using assms by (auto simp: ResolveProfile_def profiles_def assembly_ids_def overlayVideoOnlyProfile_def copy_ready_profile_def
      no_profile_def split: if_splits)

lemma certified_unpinned:
  "certified_probe sha fe i p = Inr p' \<Longrightarrow> i \<notin> assembly_ids \<Longrightarrow> p' = p"
  by (auto simp: certified_probe_def ensureCodecConfigProbe_def dest: unpinned_profile split: option.splits)

definition segment_facts :: "PreparedJob \<Rightarrow> nat \<Rightarrow> SegmentArtifact \<Rightarrow> bool" where
  "segment_facts prepared i e \<longleftrightarrow> sa_ItemID e = pj_SegmentItemIDs prepared ! i
     \<and> sa_OutputPath e = sg_OutputPath (pj_Segments prepared ! i)
     \<and> (pm_ProfileID (planMetadataOf (pj_Plan prepared)) \<notin> assembly_ids \<longrightarrow>
          0 < window (pj_Segments prepared ! i) \<and> sa_FrameCount e = window (pj_Segments prepared ! i) \<and> sa_FirstFrameKeyframe e)"

lemma checked_segment:
  "segment_checks md seg p = None \<Longrightarrow> 0 < window seg \<and> pb_FrameCount p = window seg \<and> pb_FirstFrameKeyframe p"
  by (auto simp: segment_checks_def split: if_splits option.splits)

lemma verified_segment:
  assumes "verifySegmentOutput sha url level fe (pj_SegmentItemIDs prepared ! i) (pj_Segments prepared ! i) ms
     (planMetadataOf (pj_Plan prepared)) = (Inr e, ms')"
  shows "segment_facts prepared i e"
proof -
  let ?seg = "pj_Segments prepared ! i" and ?md = "planMetadataOf (pj_Plan prepared)"
  obtain digest n p p' where c: "segment_checks ?md ?seg p = None"
    and p': "(if pm_ProfileID ?md = [] then Inr p else certified_probe sha fe (pm_ProfileID ?md) p) = Inr p'"
    and e: "e = segment_entry url (pj_SegmentItemIDs prepared ! i) ?md ?seg digest n p'"
    using assms by (auto simp: verifySegmentOutput_def Let_def split: prod.splits sum.splits option.splits)
  have "p' = p" if "pm_ProfileID ?md \<notin> assembly_ids"
    using p' that certified_unpinned by (fastforce split: if_splits)
  then show ?thesis using checked_segment [OF c] e by (auto simp: segment_facts_def segment_entry_def)
qed

lemma retried_facts: "segment_facts prepared i e \<Longrightarrow> segment_facts prepared i (e\<lparr> sa_Retried := True \<rparr>)"
  by (simp add: segment_facts_def)

definition segment_done :: "('s \<Rightarrow> string \<Rightarrow> bytes option) \<Rightarrow> PreparedJob \<Rightarrow> nat \<Rightarrow> segmentOutcome \<Rightarrow> 's \<Rightarrow> bool" where
  "segment_done read prepared i out s \<longleftrightarrow>
     (so_err out = None \<and> so_fatal out = None \<longrightarrow>
        segment_facts prepared i (so_entry out) \<and> read s (sa_SHA256 (so_entry out)) \<noteq> None)"

lemma published_ok:
  assumes "good_upload P read (sv_upload sv)" "P s" "segment_facts prepared i entry" "published_segment sv entry ms s = (out, s')"
  shows "P s' \<and> (\<forall>k. read s k \<noteq> None \<longrightarrow> read s' k \<noteq> None) \<and> segment_done read prepared i out s'"
  using assms by (auto simp: published_segment_def storeSegment_def good_upload_def segment_done_def split: option.splits prod.splits)

lemma finalizeSegment_ok:
  assumes "good_upload P read (sv_upload (envs i))" "P s"
    and "finalizeSegment sha url level strict prepared envs (planMetadataOf (pj_Plan prepared)) i s = (out, s')"
  shows "P s' \<and> (\<forall>k. read s k \<noteq> None \<longrightarrow> read s' k \<noteq> None) \<and> segment_done read prepared i out s'"
proof -
  let ?verify = "\<lambda>fe ms. verifySegmentOutput sha url level fe (pj_SegmentItemIDs prepared ! i) (pj_Segments prepared ! i) ms
     (planMetadataOf (pj_Plan prepared))"
  have failed: ?thesis if "s' = s" "so_err out \<noteq> None \<or> so_fatal out \<noteq> None"
    using that assms(2) by (auto simp: segment_done_def)
  obtain r1 ms1 where v1: "?verify (sv_first (envs i)) [] = (r1, ms1)" by fastforce
  obtain r2 ms2 where v2: "?verify (sv_second (envs i)) ms1 = (r2, ms2)" by fastforce
  note run = assms(3) [unfolded finalizeSegment_def Let_def v1 prod.case]
  show ?thesis
  proof (cases r1)
    case (Inr entry)
    then show ?thesis using published_ok [OF assms(1,2) verified_segment] v1 run by simp
  next
    case (Inl e)
    show ?thesis
    proof (cases "sv_cancelled (envs i) \<or> retrySegment strict prepared (sv_render (envs i)) (sv_native (envs i)) (pj_Segments prepared ! i) \<noteq> None")
      case True
      then show ?thesis using failed run Inl by (cases "sv_cancelled (envs i)") auto
    next
      case False
      then have run2: "(case r2 of Inl e' \<Rightarrow> (\<lparr> so_entry = no_segment, so_metrics = ms2, so_err = Some e', so_fatal = None \<rparr>, s)
          | Inr entry \<Rightarrow> published_segment (envs i) (entry\<lparr> sa_Retried := True \<rparr>) ms2 s) = (out, s')"
        using run Inl v2 by simp
      show ?thesis
      proof (cases r2)
        case (Inr entry)
        then show ?thesis using published_ok [OF assms(1,2) retried_facts [OF verified_segment]] v2 run2 by simp
      qed (use failed run2 in auto)
    qed
  qed
qed

lemma run_segments_ok:
  assumes step: "\<And>i s out s'. P s \<Longrightarrow> f i s = (out, s') \<Longrightarrow>
      P s' \<and> (\<forall>k. read s k \<noteq> None \<longrightarrow> read s' k \<noteq> None) \<and> segment_done read prepared i out s'"
    and "run_segments f ord outs s = (outs', s')" "P s" "distinct ord" "set ord \<subseteq> {..<length outs}"
  shows "P s' \<and> (\<forall>k. read s k \<noteq> None \<longrightarrow> read s' k \<noteq> None) \<and> length outs' = length outs
    \<and> (\<forall>i \<in> set ord. segment_done read prepared i (outs' ! i) s') \<and> (\<forall>i. i \<notin> set ord \<longrightarrow> outs' ! i = outs ! i)"
  using assms(2-)
proof (induction ord arbitrary: outs s)
  case (Cons i ord)
  obtain out s1 where one: "f i s = (out, s1)" by fastforce
  have st: "P s1" "\<And>k. read s k \<noteq> None \<Longrightarrow> read s1 k \<noteq> None" "segment_done read prepared i out s1"
    using step [OF Cons.prems(2) one] by blast+
  have "run_segments f ord (outs[i := out]) s1 = (outs', s')" using Cons.prems(1) one by simp
  from Cons.IH [OF this st(1)] Cons.prems(3,4)
  have rest: "P s'" "\<And>k. read s1 k \<noteq> None \<Longrightarrow> read s' k \<noteq> None" "length outs' = length outs"
    "\<forall>j \<in> set ord. segment_done read prepared j (outs' ! j) s'" "\<And>j. j \<notin> set ord \<Longrightarrow> outs' ! j = outs[i := out] ! j"
    by auto
  have "outs' ! i = out" using rest(5) [of i] Cons.prems(3,4) by simp
  then have "segment_done read prepared i (outs' ! i) s'" using st(3) rest(2) by (auto simp: segment_done_def)
  then show ?case using rest st(2) Cons.prems(3) by auto
qed simp

lemma assembled_all:
  assumes "assemble_outcomes ctxErr outs ms entries failures = ((es, []), ms')"
  shows "failures = [] \<and> es = entries @ map so_entry outs \<and> (\<forall>out \<in> set outs. so_err out = None \<and> so_fatal out = None)"
  using assms
proof (induction outs arbitrary: ms entries failures)
  case (Cons out outs)
  show ?case
  proof (cases "so_fatal out")
    case None
    show ?thesis
    proof (cases "so_err out")
      case (Some e)
      then show ?thesis using Cons.prems Cons.IH [of _ entries "failures @ [e]"] None by (simp add: Let_def)
    next
      case err: None
      then show ?thesis using Cons.prems Cons.IH [of _ "entries @ [so_entry out]" failures] None by (simp add: Let_def)
    qed
  qed (use Cons.prems in \<open>simp add: Let_def split: if_splits\<close>)
qed simp

lemma identities_distinct: "bad_identity seen ids = None \<Longrightarrow> distinct ids \<and> [] \<notin> set ids \<and> set ids \<inter> set seen = {}"
  by (induction seen ids rule: bad_identity.induct) (auto split: if_splits)

lemma finalized_segments:
  assumes up: "\<And>i. good_upload P read (sv_upload (envs i))" and "P s"
    and ord: "distinct ord" "set ord = {..<length (pj_Segments prepared)}"
    and fin: "finalizeSegments sha url level strict prepared envs ord ctxErr s = (((entries, []), ms), s')"
  shows "P s' \<and> length entries = length (pj_Segments prepared) \<and> length (pj_SegmentItemIDs prepared) = length entries
    \<and> distinct (pj_SegmentItemIDs prepared)
    \<and> (\<forall>i < length entries. segment_facts prepared i (entries ! i) \<and> read s' (sa_SHA256 (entries ! i)) \<noteq> None)"
proof -
  let ?f = "finalizeSegment sha url level strict prepared envs (planMetadataOf (pj_Plan prepared))"
    and ?n = "length (pj_Segments prepared)"
  have len: "?n = length (pj_SegmentItemIDs prepared)" and ids: "bad_identity [] (pj_SegmentItemIDs prepared) = None"
    using fin by (auto simp: finalizeSegments_def split: if_splits option.splits)
  obtain outs s1 where r: "run_segments ?f ord (replicate ?n no_outcome) s = (outs, s1)" by fastforce
  then have run: "run_segments ?f ord (replicate ?n no_outcome) s = (outs, s')"
    and asm: "assemble_outcomes ctxErr outs (pj_Metrics prepared) [] [] = ((entries, []), ms)"
    using fin len ids by (simp_all add: finalizeSegments_def)
  have d: "P s'" "length outs = ?n" "\<forall>i \<in> set ord. segment_done read prepared i (outs ! i) s'"
    using run_segments_ok [OF finalizeSegment_ok [OF up] run \<open>P s\<close>] ord by auto
  have e: "entries = map so_entry outs" "\<forall>out \<in> set outs. so_err out = None \<and> so_fatal out = None"
    using assembled_all [OF asm] by auto
  have n: "length entries = ?n" using d(2) e(1) by simp
  have "segment_facts prepared i (entries ! i) \<and> read s' (sa_SHA256 (entries ! i)) \<noteq> None" if i: "i < length entries" for i
  proof -
    have "i < length outs" "i \<in> set ord" using i n d(2) ord(2) by simp_all
    then have "segment_done read prepared i (outs ! i) s'" "so_err (outs ! i) = None \<and> so_fatal (outs ! i) = None"
      using d(3) e(2) by simp_all
    then show ?thesis using e(1) \<open>i < length outs\<close> by (simp add: segment_done_def)
  qed
  then show ?thesis using d(1) n len identities_distinct [OF ids] by simp
qed

lemma windows_each:
  assumes "windows_end e ws = Some t" "0 \<le> e" "t < 2 ^ 63"
  shows "map window (segments_from dir i ws) = map (\<lambda>w. iw_EndFrame w - iw_StartFrame w) ws"
  using assms
proof (induction e ws arbitrary: i rule: windows_end.induct)
  case (2 e w ws)
  then have w: "iw_StartFrame w = e" "e < iw_EndFrame w" "windows_end (iw_EndFrame w) ws = Some t" by (auto split: if_splits)
  have "iw_EndFrame w \<le> t" using windows_end_le [OF w(3)] .
  then have "window \<lparr> sg_OutputPath = q, sg_StartFrame = e, sg_EndFrame = iw_EndFrame w \<rparr> = iw_EndFrame w - e" for q
    using w 2 by (simp add: window_def wrap64_id)
  then show ?case using 2 w by simp
qed simp

lemma windows_total:
  "windows_end e ws = Some t \<Longrightarrow> sum_list (map (\<lambda>w. iw_EndFrame w - iw_StartFrame w) ws) = t - e"
  by (induction e ws rule: windows_end.induct) (auto split: if_splits)

text \<open>The uploads and the streams of a worker whose object store is on disk.\<close>

definition disk_upload :: "(bytes \<Rightarrow> string) \<Rightarrow> Disk uploader \<Rightarrow> bool" where
  "disk_upload sha up \<longleftrightarrow> (\<exists>ok tmp pn. up = store_PutReader (PutReader sha ok tmp) pn)"

lemma disk_upload_good: "disk_upload sha up \<Longrightarrow> good_upload (disk_inv sha) disk_read up"
  using staged_disk.put_good by (auto simp: disk_upload_def)

lemma disk_readable: "disk_inv sha s \<Longrightarrow> disk_read s k \<noteq> None \<Longrightarrow> \<exists>b. disk_read s k = Some b \<and> sha b = k"
  using disk.read_sound by fastforce

text \<open>
  C21. A batch that is finalized without a failure lists every item of its plan exactly once and in plan
  order, in whatever order the lanes of the pool finish, whichever segments were rendered again and
  whatever the network and the disk did. The bytes of each listed segment can be read from the store
  under its digest. If the plan's profile does not pin the codec configuration, each segment also
  starts on a keyframe and has the frames of its window, so the counts add up to the canvas. Under a
  profile that pins it, nothing is claimed of the counts: the segment may be probed again after its
  checks, and the facts of the second probe are what is listed.
\<close>

theorem batch_receipt_lists_every_item:
  assumes "planSegmentOutputs windows frames dir = Some \<lparr> sp_Segments = pj_Segments prepared, sp_ItemIDs = pj_SegmentItemIDs prepared \<rparr>"
    and "frames < 2 ^ 63" and "\<And>i. disk_upload sha (sv_upload (envs i))" and "disk_inv sha s"
    and "distinct ord" and "set ord = {..<length (pj_Segments prepared)}"
    and "finalizeSegments sha url level strict prepared envs ord ctxErr s = (((entries, []), ms), s')"
  shows "disk_inv sha s' \<and> map sa_ItemID entries = map iw_ItemID windows \<and> distinct (map sa_ItemID entries)
    \<and> (\<forall>e \<in> set entries. \<exists>b. disk_read s' (sa_SHA256 e) = Some b \<and> sha b = sa_SHA256 e)
    \<and> (pm_ProfileID (planMetadataOf (pj_Plan prepared)) \<notin> assembly_ids \<longrightarrow>
         list_all sa_FirstFrameKeyframe entries
         \<and> map sa_FrameCount entries = map (\<lambda>w. iw_EndFrame w - iw_StartFrame w) windows
         \<and> sum_list (map sa_FrameCount entries) = frames)"
proof -
  have plan: "windows_end 0 windows = Some frames" "pj_Segments prepared = segments_from dir 0 windows"
    "pj_SegmentItemIDs prepared = map iw_ItemID windows"
    using assms(1) by (auto simp: planSegmentOutputs_def split: if_splits option.splits)
  from finalized_segments [OF disk_upload_good [OF assms(3)] assms(4-7)]
  have f: "disk_inv sha s'" "length entries = length (pj_Segments prepared)" "length (pj_SegmentItemIDs prepared) = length entries"
    "distinct (pj_SegmentItemIDs prepared)" "\<And>i. i < length entries \<Longrightarrow> segment_facts prepared i (entries ! i)"
    "\<And>i. i < length entries \<Longrightarrow> disk_read s' (sa_SHA256 (entries ! i)) \<noteq> None"
    by auto
  have ids: "map sa_ItemID entries = pj_SegmentItemIDs prepared"
    using f(3,5) by (auto simp: list_eq_iff_nth_eq segment_facts_def)
  have "\<exists>b. disk_read s' (sa_SHA256 e) = Some b \<and> sha b = sa_SHA256 e" if "e \<in> set entries" for e
    using that f(6) disk_readable [OF f(1)] by (metis in_set_conv_nth)
  moreover have "list_all sa_FirstFrameKeyframe entries \<and> map sa_FrameCount entries = map window (pj_Segments prepared)"
    if "pm_ProfileID (planMetadataOf (pj_Plan prepared)) \<notin> assembly_ids"
    using that f(2,5) by (auto simp: list_eq_iff_nth_eq list_all_length segment_facts_def)
  moreover have "map window (pj_Segments prepared) = map (\<lambda>w. iw_EndFrame w - iw_StartFrame w) windows"
    using windows_each [OF plan(1) _ assms(2)] plan(2) by simp
  ultimately show ?thesis
    using ids f(1,4) plan windows_total [OF plan(1)] by simp
qed

section \<open>A finalized chunk can be assembled\<close>

text \<open>What the artifact says of its stream is what the probe found.\<close>

definition stream_facts :: "Artifact \<Rightarrow> bool \<times> bool \<times> bool \<times> string \<times> string \<times> int \<times> int \<times> int \<times> int" where
  "stream_facts a = (art_CopyEligible a, art_ClosedGOP a, art_FirstFrameKeyframe a, art_Codec a, art_PixelFormat a,
     art_Width a, art_Height a, art_FPSNum a, art_FPSDen a)"

lemma stream_facts_kept:
  "segmented_artifact probe segs a = Inr a' \<Longrightarrow> stream_facts a' = stream_facts a"
  "ingest_telemetry se plan level a = Inr a' \<Longrightarrow> stream_facts a' = stream_facts a"
  "stream_facts (recordArtifact m a) = stream_facts a"
  by (auto simp: stream_facts_def segmented_artifact_def ingest_telemetry_def recordArtifact_def
      split: if_splits option.splits prod.splits)

lemma sidecar_stream_facts: "preserveRawTimingSidecar sha upload url sf a s = (a', s') \<Longrightarrow> stream_facts a' = stream_facts a"
  by (auto simp: stream_facts_def preserveRawTimingSidecar_def split: if_splits option.splits prod.splits)

lemma stored_stream_facts:
  assumes "storeArtifact sha upload upload_sidecar wi level se out tail plan ms (Some p) ce nc segs s = (Inr a, s')"
  shows "stream_facts a = (ce, pb_ClosedGOP p, pb_FirstFrameKeyframe p, pb_VideoCodec p, pb_PixelFormat p, pb_Width p,
    pb_Height p, pb_FPSNum p, pb_FPSDen p)"
proof -
  obtain n hash s1 a2 a3 a4 where a2: "segmented_artifact (Some p) segs (probed_artifact (Some p) ce
          (base_artifact wi (planMetadataOf plan) nc hash n (receipt_metrics out ms))) = Inr a2"
      and a3: "ingest_telemetry se plan level a2 = Inr a3"
      and a4: "preserveRawTimingSidecar sha upload_sidecar (wi_storeURL wi) (se_sidecar se) a3 s1 = (a4, s')"
      and fin: "a = recordArtifact (se_mirror se) a4"
    using assms by (auto simp: storeArtifact_def Let_def split: sum.splits prod.splits option.splits)
  show ?thesis
    using stream_facts_kept(1) [OF a2] stream_facts_kept(2) [OF a3] sidecar_stream_facts [OF a4]
    by (simp add: fin stream_facts_kept(3)) (simp add: stream_facts_def probed_artifact_def)
qed

text \<open>Under a profile that pins the codec configuration, the facts of an output are never those of its receipt.\<close>

lemma local_facts:
  assumes "probeFactsForFinalize sha fe receipt known = Some (p, src)"
  shows "pb_CodecConfigSHA256 p = [] \<or> (\<exists>known'. probeFile sha (fe_probe fe) known' = Some p)"
  using assms
  by (auto simp: probeFactsForFinalize_def ProbeFileWithKnownFrameCount_def probeResultFromReceipt_def no_probe_def Let_def
      split: option.splits if_splits)

lemma certified_from_the_file:
  assumes "structural_gate sha fe deep job plan receipt = Inr probe" and "pm_ProfileID (planMetadataOf plan) \<in> assembly_ids"
  shows "\<exists>p profile fp known. probe = Some p \<and> ResolveProfile (pm_ProfileID (planMetadataOf plan)) = Some profile
    \<and> fp \<in> {fe_probe fe, fe_reprobe fe} \<and> probeFile sha fp known = Some p \<and> ValidateProbe profile p = None"
proof -
  let ?i = "pm_ProfileID (planMetadataOf plan)"
  have i: "?i \<noteq> []" using assms(2) by (auto simp: assembly_ids_def)
  obtain p0 src known p where facts: "probeFactsForFinalize sha fe receipt known = Some (p0, src)"
    and cert: "certified_probe sha fe ?i p0 = Inr p" and p: "probe = Some p"
    using assms(1) i by (auto simp: structural_gate_def Let_def split: option.splits sum.splits if_splits)
  obtain profile where prof: "ResolveProfile ?i = Some profile"
    and ens: "ensureCodecConfigProbe sha (fe_reprobe fe) p0 profile = Some p" and val: "ValidateProbe profile p = None"
    using cert by (auto simp: certified_probe_def split: option.splits)
  obtain l where "profile = assemblyReadyProfile\<lparr> op_ID := ?i, op_VideoLevel := l \<rparr>"
    using assembly_profiles [OF assms(2) [unfolded assembly_ids_def] prof] by blast
  then have "op_CodecConfigSHA256 profile \<noteq> []" by (simp add: assemblyReadyProfile_def)
  then have "\<exists>fp known'. fp \<in> {fe_probe fe, fe_reprobe fe} \<and> probeFile sha fp known' = Some p"
    using ens local_facts [OF facts] by (auto simp: ensureCodecConfigProbe_def ProbeFile_def split: if_splits)
  then show ?thesis using p prof val by blast
qed

lemma assembly_ready_facts:
  assumes "i \<in> assembly_ids" "ResolveProfile i = Some profile" "ValidateProbe profile p = None"
  shows "pb_VideoCodec p = ''h264'' \<and> pb_Width p = 1920 \<and> pb_Height p = 1080 \<and> pb_FPSNum p = 24 \<and> pb_FPSDen p = 1
    \<and> pb_PixelFormat p = ''yuv420p'' \<and> pb_FirstFrameKeyframe p \<and> pb_ClosedGOP p"
proof -
  obtain l where "profile = assemblyReadyProfile\<lparr> op_ID := i, op_VideoLevel := l \<rparr>"
    using assembly_profiles [OF assms(1) [unfolded assembly_ids_def] assms(2)] by blast
  then show ?thesis
    using assms(3) [unfolded validated_checks] by (simp add: probe_checks_def assemblyReadyProfile_def no_profile_def)
qed

text \<open>
  The streams of a worker whose store is on disk. The body of the upload is the stream of the reader of
  the growing file. An abort is the abort of that reader; the network may lose or cut the body, but
  the server sees the end of a body only where its reader has reported the end of the file.
\<close>

definition disk_tail :: "(bytes \<Rightarrow> string) \<Rightarrow> Disk tail_upload \<Rightarrow> bool" where
  "disk_tail sha t \<longleftrightarrow>
     (\<exists>ok1 torn ok2 ok3 net session sent. tl_drain t =
        StoreStaged sha (disk_stage sha ok1 torn) (StagingFinalize ok2) (StagingAbort ok3) net session sent)
     \<and> (\<exists>ok1 torn ok2 ok3 net session sent stream. tail_run stream \<and> gf_aborted (tl_reader stream) \<noteq> None
        \<and> (\<forall>rd. nt_upload net = Some rd \<longrightarrow> snd rd = None \<longrightarrow> tl_eof stream) \<and> tl_abort t =
        (\<lambda>s. snd (StoreStaged sha (disk_stage sha ok1 torn) (StagingFinalize ok2) (StagingAbort ok3) net session sent s)))"

definition on_disk :: "(bytes \<Rightarrow> string) \<Rightarrow> Disk finalize_env \<Rightarrow> bool" where
  "on_disk sha fn \<longleftrightarrow> disk_upload sha (fn_upload fn) \<and> disk_upload sha (fn_sidecarUpload fn)
     \<and> (\<forall>t. fn_tail fn = Some t \<longrightarrow> disk_tail sha t) \<and> (\<forall>i. disk_upload sha (sv_upload (fn_segments fn i)))"

lemma on_disk_tail_good:
  assumes "on_disk sha fn" and "map_option tl_drain (fn_tail fn) = Some commit"
  shows "good_tail (disk_inv sha) disk_read commit"
proof -
  obtain t where "disk_tail sha t" "tl_drain t = commit" using assms by (auto simp: on_disk_def)
  then show ?thesis using staged_disk.staged_good by (auto simp: disk_tail_def)
qed

lemma abort_installs_nothing:
  assumes "on_disk sha fn" "disk_inv sha s"
  shows "disk_inv sha (abort_tail fn s)" "disk_read (abort_tail fn s) = disk_read s"
proof -
  have "disk_inv sha (abort_tail fn s) \<and> disk_read (abort_tail fn s) = disk_read s"
  proof (cases "fn_tail fn")
    case (Some t)
    then obtain ok1 torn ok2 ok3 net session sent stream where st: "tail_run stream" "gf_aborted (tl_reader stream) \<noteq> None"
      and b: "\<And>rd. nt_upload net = Some rd \<Longrightarrow> snd rd = None \<Longrightarrow> tl_eof stream"
      and t: "tl_abort t = (\<lambda>s. snd (StoreStaged sha (disk_stage sha ok1 torn) (StagingFinalize ok2)
          (StagingAbort ok3) net session sent s))"
      using assms(1) unfolding on_disk_def disk_tail_def by blast
    obtain r s' where run: "StoreStaged sha (disk_stage sha ok1 torn) (StagingFinalize ok2) (StagingAbort ok3)
        net session sent s = (r, s')" by fastforce
    have "snd rd \<noteq> None" if "nt_upload net = Some rd" for rd using aborted_stream_never_ends [OF st] b that by blast
    from staged_disk.broken_stream [OF assms(2) this run] show ?thesis using Some t run by (simp add: abort_tail_def fun_eq_iff)
  qed (use assms(2) in \<open>simp add: abort_tail_def\<close>)
  then show "disk_inv sha (abort_tail fn s)" "disk_read (abort_tail fn s) = disk_read s" by simp_all
qed

lemma segments_keep_inv:
  assumes "on_disk sha fn" "disk_inv sha s" "distinct (fn_order fn)" "set (fn_order fn) = {..<length (pj_Segments prepared)}"
    and "finalizeSegments sha url level strict prepared (fn_segments fn) (fn_order fn) ctxErr s = (((entries, []), ms), s')"
  shows "disk_inv sha s'"
proof -
  have "good_upload (disk_inv sha) disk_read (sv_upload (fn_segments fn i))" for i
    using assms(1) disk_upload_good by (simp add: on_disk_def)
  from finalized_segments [OF this assms(2-5)] show ?thesis by simp
qed

text \<open>
  C18. The composition with the assembly of a family. A chunk that is finalized under an assembly profile
  is, once its job is completed with the returned artifact, a child that the assembler accepts: its
  bytes are in the store under the recorded address, and it is certified for a copy of its packets. The
  certification is that of the file, not of the renderer's receipt: ffprobe read a packet table whose
  keyframes are the packets 0, 48, 96, \ldots{}, and every such chunk has the same codec, pixel format,
  size and rate.
\<close>

theorem finalized_chunk_is_assembly_ready:
  assumes "on_disk sha fn" "disk_inv sha s" "distinct (fn_order fn)" "set (fn_order fn) = {..<length (pj_Segments prepared)}"
    and "pm_ProfileID (planMetadataOf (pj_Plan prepared)) \<in> assembly_ids"
    and "FinalizeJob sha fn prepared s = (Inr a, s')"
    and "job_Artifact child = Some a" "job_State child = StateCompleted" "job_ChunkIndex child = int k"
    and "job_FrameRange child = Some r" "fr_Start r < fr_End r"
  shows "certified_child k child
    \<and> (\<exists>b. disk_read s' (art_StorageKey a) = Some b \<and> sha b = art_StorageKey a)
    \<and> (art_Codec a, art_PixelFormat a, art_Width a, art_Height a, art_FPSNum a, art_FPSDen a) = (''h264'', ''yuv420p'', 1920, 1080, 24, 1)
    \<and> (\<exists>fp fs rest n. fp \<in> {fe_probe (fn_file fn), fe_reprobe (fn_file fn)} \<and> fp_gopTokens fp = packet_table fs @ rest
         \<and> 3 \<le> n \<and> key_positions 0 fs = uniform 48 n)"
proof -
  let ?md = "planMetadataOf (pj_Plan prepared)" and ?fe = "fn_file fn"
  let ?rc = "ReadMediaReceipt (fe_receipt ?fe) (fe_legacy ?fe)"
  obtain entries ms s1 where fin: "finalize_output sha fn prepared entries ms s1 = (Inr a, s')" and s1: "disk_inv sha s1"
    using assms(6) segments_keep_inv [OF assms(1-4)] assms(2)
    unfolding FinalizeJob_def segments_phase_def by (auto split: if_splits prod.splits sum.splits)
  obtain probe out ms' where gate: "structural_gate sha ?fe (fn_deepVisual fn) (pj_Job prepared) (pj_Plan prepared) ?rc = Inr probe"
    and store: "storeArtifact sha (fn_upload fn) (fn_sidecarUpload fn) (fn_worker fn) (fn_level fn) (fn_store fn) out
       (map_option tl_drain (fn_tail fn)) (pj_Plan prepared) ms' probe (requiresStructuralProbe (pj_Job prepared) \<or> pm_ProfileID ?md \<noteq> [])
       (pj_NativeCertified prepared) (batchSegmentFacts entries) s1 = (Inr a, s')"
    using fin by (auto simp: finalize_output_def Let_def split: sum.splits prod.splits)
  obtain p profile fp known where p: "probe = Some p" "ResolveProfile (pm_ProfileID ?md) = Some profile"
    "fp \<in> {fe_probe ?fe, fe_reprobe ?fe}" "probeFile sha fp known = Some p" "ValidateProbe profile p = None"
    using certified_from_the_file [OF gate assms(5)] by blast
  have "pm_ProfileID ?md \<noteq> []" using assms(5) by (auto simp: assembly_ids_def)
  then have facts: "stream_facts a = (True, True, True, ''h264'', ''yuv420p'', 1920, 1080, 24, 1)"
    using stored_stream_facts [OF store [unfolded p(1)]] assembly_ready_facts [OF assms(5) p(2,5)] by simp
  have up: "good_upload (disk_inv sha) disk_read (fn_upload fn)" "good_upload (disk_inv sha) disk_read (fn_sidecarUpload fn)"
    using assms(1) disk_upload_good by (simp_all add: on_disk_def)
  have stored: "disk_inv sha s'" "disk_read s' (art_StorageKey a) \<noteq> None"
    using stored_artifact_readable [OF up on_disk_tail_good [OF assms(1)] s1 store] by auto
  then obtain b where b: "disk_read s' (art_StorageKey a) = Some b" "sha b = art_StorageKey a"
    using disk_readable by blast
  have "CanonicalContentAddress (art_StorageKey a)" using stored(1) b(2) by metis
  then have "art_StorageKey a \<noteq> []" by (auto simp: CanonicalContentAddress_def SHA256HexLen_def)
  then have "certified_child k child"
    using assms(7-11) facts by (simp add: certified_child_def stream_facts_def)
  moreover obtain fs rest n where "fp_gopTokens fp = packet_table fs @ rest" "3 \<le> n" "key_positions 0 fs = uniform 48 n"
    using assembly_ready_stream [OF assms(5) [unfolded assembly_ids_def] p(2,4,5)] by blast
  ultimately show ?thesis using b facts p(3) by (auto simp: stream_facts_def)
qed

text \<open>
  C22. The gates decide before the store. Take the finalization of a job whose segments, if it has any, have
  been stored without a failure, and let the structural gate or the verification of the receipt refuse
  the output. Then the job fails and the store serves what it served when the segments were stored, and
  for a job without segments what it served before, although the bytes of the output may have been
  streaming to it meanwhile: the deferred abort ends the stream before its reader has reported the end
  of the file, so nothing of it is installed, whatever the network and the disk do (but for the stale
  sidecar of \<open>disk_stage\<close>).
\<close>

theorem refused_output_is_not_installed:
  assumes "on_disk sha fn" "disk_inv sha s" "distinct (fn_order fn)" "set (fn_order fn) = {..<length (pj_Segments prepared)}"
    and "segments_phase sha fn prepared s = (((entries, []), ms), s1)"
    and "FinalizeJob sha fn prepared s = (res, s')"
    and "receipt = ReadMediaReceipt (fe_receipt (fn_file fn)) (fe_legacy (fn_file fn))"
    and "structural_gate sha (fn_file fn) (fn_deepVisual fn) (pj_Job prepared) (pj_Plan prepared) receipt = Inl e
      \<or> fst (verifyArtifactReceipt (fn_level fn) (fe_gate (fn_file fn)) receipt ms) = Inl e"
  shows "(\<exists>e'. res = Inl (OutputError e')) \<and> disk_read s' = disk_read s1 \<and> disk_inv sha s'
    \<and> (pj_Segments prepared = [] \<longrightarrow> disk_read s' = disk_read s)"
proof -
  have "\<exists>e'. finalize_output sha fn prepared entries ms s1 = (Inl e', abort_tail fn s1)"
    using assms(7,8) by (auto simp: finalize_output_def Let_def split: sum.splits prod.splits)
  then have res: "\<exists>e'. res = Inl (OutputError e') \<and> s' = abort_tail fn s1"
    using assms(5,6) by (auto simp: FinalizeJob_def)
  have inv: "disk_inv sha s1"
    using assms(2,5) segments_keep_inv [OF assms(1-4)] unfolding segments_phase_def by (auto split: if_splits)
  have "s1 = s" if "pj_Segments prepared = []" using assms(5) that by (simp add: segments_phase_def)
  then show ?thesis using res abort_installs_nothing [OF assms(1) inv] by auto
qed

section \<open>The properties at work\<close>

subsection \<open>A batch of two items, whose second segment is stored first\<close>

definition segment_file :: "string \<Rightarrow> file_env" where
  "segment_file c = \<lparr> fe_receipt = Some sample_receipt, fe_legacy = None, fe_us = (\<lambda>_. 0), fe_probe = sample_runs_of,
     fe_reprobe = sample_runs_of, fe_counted = Some c, fe_samples = [], fe_float = (\<lambda>_. 0), fe_gate = sample_gate,
     fe_size = Some 3, fe_digest = Some (toy_sha ''abc'') \<rparr>"

definition toy_upload :: "Disk uploader" where
  "toy_upload = store_PutReader (PutReader toy_sha (\<lambda>_. True) ''x'') faultless"

definition sample_windows :: "ItemWindow list" where
  "sample_windows = [\<lparr> iw_ItemID = ''x'', iw_StartFrame = 0, iw_EndFrame = 4 \<rparr>, \<lparr> iw_ItemID = ''y'', iw_StartFrame = 4, iw_EndFrame = 9 \<rparr>]"

definition sample_batch :: PreparedJob where
  "sample_batch = \<lparr> pj_Job = sample_job ''b'', pj_Plan = None, pj_Metrics = [], pj_NativeCertified = False,
     pj_Segments = segments_from ''out'' 0 sample_windows, pj_SegmentItemIDs = [''x'', ''y''],
     pj_baseRenderRequest = \<lparr> rr_PlanPath = [], rr_AssetsRoot = [], rr_OutputPath = [], rr_OutputSegments = [],
       rr_RangeEnabled = False, rr_FirstFrame = 0, rr_LastFrame = 0, rr_TotalFrames = 9, rr_Progress = True \<rparr> \<rparr>"

definition sample_segments :: "nat \<Rightarrow> Disk segment_env" where
  "sample_segments i = \<lparr> sv_first = segment_file (if i = 0 then ''4'' else ''5''), sv_cancelled = False, sv_render = (\<lambda>_. True),
     sv_native = \<lparr> ne_raw = None, ne_decode = (\<lambda>_. None), ne_receipt = False \<rparr>, sv_second = segment_file [],
     sv_open = Some (''abc'', None), sv_upload = toy_upload \<rparr>"

lemma sample_receipt_read: "ReadMediaReceipt (Some sample_receipt) None = Some sample_receipt"
  by (simp add: ReadMediaReceipt_def sample_receipt_def measured_def)

lemma sample_fast:
  "\<exists>ms'. verifyArtifactReceipt RenderVerifyFast sample_gate (Some sample_receipt) ms =
     (Inr \<lparr> ro_Receipt = Some sample_receipt,
        ro_Identity = \<lparr> ai_SHA256 = toy_sha ''abc'', ai_Proven = False, ai_Source = ReceiptSizeMatched \<rparr> \<rparr>, ms')"
  by (simp add: verifyArtifactReceipt_def enforceReceiptVerificationDirect_def VerificationPassed_def enforceDecodableOutput_def
      resolveArtifactIdentity_def Let_def)
     (simp add: sample_receipt_def sample_gate_def TrimSpace_canonical toy_sha_canonical)

lemma no_plan: "planMetadataOf None = \<lparr> pm_Width = 0, pm_Height = 0, pm_FPSNum = 0, pm_FPSDen = 0, pm_FrameCount = 0,
    pm_DurationUS = 0, pm_ProfileID = [] \<rparr>"
  by (simp add: planMetadataOf_def)

lemma sample_counts: "CountDecodedFrames (Some ''4'') = Some 4" "CountDecodedFrames (Some ''5'') = Some 5"
proof -
  have "TrimSpace ''4'' = ''4''" "TrimSpace ''5'' = ''5''" by code_simp+
  then show "CountDecodedFrames (Some ''4'') = Some 4" "CountDecodedFrames (Some ''5'') = Some 5"
    by (simp_all add: CountDecodedFrames_def Atoi_def read_digits_def is_digit_def)
qed

lemma sample_checked:
  assumes "CountDecodedFrames (Some c) = Some n" "window seg = n" "0 < n"
  shows "\<exists>e ms'. verifySegmentOutput toy_sha [] RenderVerifyFast (segment_file c) i seg ms (planMetadataOf None) = (Inr e, ms')
    \<and> sa_SHA256 e = toy_sha ''abc'' \<and> sa_SizeBytes e = 3"
proof -
  obtain ms' where v: "verifyArtifactReceipt RenderVerifyFast sample_gate (Some sample_receipt) ms =
     (Inr \<lparr> ro_Receipt = Some sample_receipt,
        ro_Identity = \<lparr> ai_SHA256 = toy_sha ''abc'', ai_Proven = False, ai_Source = ReceiptSizeMatched \<rparr> \<rparr>, ms')"
    using sample_fast by blast
  define p where "p = (probeResultFromReceipt (\<lambda>_. 0) sample_receipt)\<lparr> pb_FrameCount := n \<rparr>"
  have "HasCanonicalMedia sample_receipt" by (simp add: HasCanonicalMedia_def sample_receipt_def sample_media_def)
  then have "segment_probe toy_sha (segment_file c) (Some sample_receipt) seg = Inr p"
    using assms(1) by (simp add: segment_probe_def probeFactsForFinalize_def p_def segment_file_def)
      (simp add: sample_receipt_def sample_media_def)
  moreover have "segment_checks (planMetadataOf None) seg p = None"
    using assms(2,3) by (simp add: segment_checks_def p_def no_plan ValidateOverlay_def probeResultFromReceipt_def sample_receipt_def
        sample_media_def no_probe_def Let_def)
  ultimately show ?thesis
    using v by (simp add: verifySegmentOutput_def segment_file_def sample_receipt_read segment_entry_def no_plan)
qed

lemma sample_upload:
  assumes "sa_SHA256 e = toy_sha ''abc''" "sa_SizeBytes e = 3"
  shows "\<exists>s'. storeSegment toy_upload (Some (''abc'', None)) e s = (None, s')"
  using assms by (simp add: storeSegment_def toy_upload_def store_PutReader_def faultless_def srv_put_def MaxBytesReader_def
      maxObjectBytes_def PutReader_all_ok toy_sha_canonical http_StoreReader_def respond_def)

lemma sample_segment:
  assumes "i < 2"
  shows "\<exists>out s'. finalizeSegment toy_sha [] RenderVerifyFast False sample_batch sample_segments (planMetadataOf None) i s = (out, s')
    \<and> so_err out = None \<and> so_fatal out = None"
proof -
  have "\<exists>c n. sv_first (sample_segments i) = segment_file c \<and> CountDecodedFrames (Some c) = Some n
      \<and> window (pj_Segments sample_batch ! i) = n \<and> 0 < n"
  proof (cases "i = 0")
    case True
    then have "sv_first (sample_segments i) = segment_file ''4'' \<and> window (pj_Segments sample_batch ! i) = 4"
      by (simp add: sample_segments_def sample_batch_def sample_windows_def window_def wrap64_id)
    then show ?thesis using sample_counts(1) by (intro exI [of _ "''4''"] exI [of _ 4]) simp
  next
    case False
    then have "i = 1" using assms by simp
    then have "sv_first (sample_segments i) = segment_file ''5'' \<and> window (pj_Segments sample_batch ! i) = 5"
      by (simp add: sample_segments_def sample_batch_def sample_windows_def window_def wrap64_id)
    then show ?thesis using sample_counts(2) by (intro exI [of _ "''5''"] exI [of _ 5]) simp
  qed
  then obtain c n where c: "sv_first (sample_segments i) = segment_file c" "CountDecodedFrames (Some c) = Some n"
      "window (pj_Segments sample_batch ! i) = n" "0 < n" by blast
  obtain e ms' where e: "verifySegmentOutput toy_sha [] RenderVerifyFast (segment_file c) (pj_SegmentItemIDs sample_batch ! i)
      (pj_Segments sample_batch ! i) [] (planMetadataOf None) = (Inr e, ms')" "sa_SHA256 e = toy_sha ''abc''" "sa_SizeBytes e = 3"
    using sample_checked [OF c(2-4)] by blast
  obtain s' where s': "storeSegment toy_upload (Some (''abc'', None)) e s = (None, s')" using sample_upload [OF e(2,3)] by blast
  have "sv_upload (sample_segments i) = toy_upload" "sv_open (sample_segments i) = Some (''abc'', None)"
    by (simp_all add: sample_segments_def)
  then show ?thesis using e(1) s' by (simp add: finalizeSegment_def published_segment_def c(1))
qed

lemma sample_batch_run:
  "\<exists>entries ms s'. finalizeSegments toy_sha [] RenderVerifyFast False sample_batch sample_segments [1, 0] False NewDisk
     = (((entries, []), ms), s')"
proof -
  let ?f = "finalizeSegment toy_sha [] RenderVerifyFast False sample_batch sample_segments (planMetadataOf None)"
  obtain o1 s1 where o1: "?f 1 NewDisk = (o1, s1)" "so_err o1 = None" "so_fatal o1 = None"
    using sample_segment [of 1 NewDisk] by auto
  obtain o0 s0 where o0: "?f 0 s1 = (o0, s0)" "so_err o0 = None" "so_fatal o0 = None"
    using sample_segment [of 0 s1] by auto
  have "pj_Plan sample_batch = None" "pj_SegmentItemIDs sample_batch = [''x'', ''y'']" "length (pj_Segments sample_batch) = 2"
    by (simp_all add: sample_batch_def sample_windows_def)
  then show ?thesis using o1 o0 by (simp add: finalizeSegments_def numeral_2_eq_2 Let_def)
qed

theorem batch_receipt_lists_every_item_witness:
  "\<exists>entries ms s'. finalizeSegments toy_sha [] RenderVerifyFast False sample_batch sample_segments [1, 0] False NewDisk
      = (((entries, []), ms), s')
    \<and> map sa_ItemID entries = [''x'', ''y''] \<and> sum_list (map sa_FrameCount entries) = 9"
proof -
  obtain entries ms s' where run: "finalizeSegments toy_sha [] RenderVerifyFast False sample_batch sample_segments [1, 0] False NewDisk
      = (((entries, []), ms), s')" using sample_batch_run by blast
  have plan: "planSegmentOutputs sample_windows 9 ''out'' =
      Some \<lparr> sp_Segments = pj_Segments sample_batch, sp_ItemIDs = pj_SegmentItemIDs sample_batch \<rparr>"
    by (simp add: planSegmentOutputs_def sample_windows_def sample_batch_def)
  have up: "disk_upload toy_sha (sv_upload (sample_segments i))" for i
    by (auto simp: sample_segments_def toy_upload_def disk_upload_def)
  have inv: "disk_inv toy_sha NewDisk" using NewDisk_wf toy_sha_canonical by (simp add: staging_wf_def NewDisk_def)
  have "length (pj_Segments sample_batch) = 2" by (simp add: sample_batch_def sample_windows_def)
  then have ord: "distinct [1, 0 :: nat]" "set [1, 0 :: nat] = {..<length (pj_Segments sample_batch)}" by auto
  have "pm_ProfileID (planMetadataOf (pj_Plan sample_batch)) \<notin> assembly_ids"
    by (simp add: sample_batch_def no_plan assembly_ids_def)
  with batch_receipt_lists_every_item [OF plan _ up inv ord run] run show ?thesis
    by (simp add: sample_windows_def)
qed

subsection \<open>A chunk under an assembly profile\<close>

text \<open>Two runs: the fast policy accepts the output without a receipt, the normal policy refuses it.\<close>

definition sample_plan :: render_plan where
  "sample_plan = \<lparr> rp_Width = 1920, rp_Height = 1080, rp_FPSNum = 24, rp_FPSDen = 1, rp_DurationFrames = 0,
     rp_ProfileID = ''VELOX_ASSEMBLY_READY_V1'', rp_Layers = [] \<rparr>"

definition sample_chunk :: PreparedJob where
  "sample_chunk = sample_batch\<lparr> pj_Plan := Some sample_plan, pj_Segments := [], pj_SegmentItemIDs := [] \<rparr>"

definition pinned_upload :: "Disk uploader" where
  "pinned_upload = store_PutReader (PutReader pinned_sha (\<lambda>_. True) ''x'') faultless"

definition sample_finalize :: "renderVerifyLevel \<Rightarrow> Disk finalize_env" where
  "sample_finalize level = \<lparr> fn_level = level,
     fn_worker = \<lparr> wi_backend = ''vulkan'', wi_chrononVersion = [], wi_storeURL = [] \<rparr>, fn_deepVisual = False, fn_strictNative = False,
     fn_file = (segment_file [])\<lparr> fe_receipt := None \<rparr>, fn_store = sample_store_env\<lparr> se_digest := Some (pinned_sha ''abc'') \<rparr>,
     fn_upload = pinned_upload, fn_sidecarUpload = pinned_upload, fn_tail = None,
     fn_segments = (\<lambda>i. (sample_segments i)\<lparr> sv_upload := pinned_upload \<rparr>), fn_order = [], fn_ctxErr = False \<rparr>"

lemma pinned_canonical: "CanonicalContentAddress (pinned_sha b)"
  by (simp add: CanonicalContentAddress_def SHA256HexLen_def pinned_sha_def hex_digit_def)

lemma sample_on_disk: "on_disk pinned_sha (sample_finalize level)" "disk_inv pinned_sha NewDisk"
  using NewDisk_wf pinned_canonical
  by (auto simp: on_disk_def disk_upload_def sample_finalize_def pinned_upload_def staging_wf_def NewDisk_def)

lemma sample_profile: "pm_ProfileID (planMetadataOf (Some sample_plan)) = ''VELOX_ASSEMBLY_READY_V1''"
  by (simp add: planMetadataOf_def sample_plan_def)

lemma sample_probed:
  "\<exists>p. structural_gate pinned_sha ((segment_file [])\<lparr> fe_receipt := None \<rparr>) False (sample_job ''b'') (Some sample_plan) None = Inr (Some p)"
proof -
  obtain p where p: "probeFile pinned_sha sample_runs_of 0 = Some p" "ValidateProbe assembly_v1 p = None"
    using sample_validates by (cases "probeFile pinned_sha sample_runs_of 0") auto
  have "op_CodecConfigSHA256 assembly_v1 \<noteq> []" by (simp add: assembly_v1_def assemblyReadyProfile_def)
  moreover have "op_CodecConfigSHA256 assembly_v1 \<noteq> [] \<Longrightarrow> pb_CodecConfigSHA256 p = op_CodecConfigSHA256 assembly_v1"
    using p(2) [unfolded validated_checks] by (simp add: probe_checks_def)
  ultimately have "ensureCodecConfigProbe pinned_sha sample_runs_of p assembly_v1 = Some p"
    by (simp add: ensureCodecConfigProbe_def)
  moreover have "probeFactsForFinalize pinned_sha ((segment_file [])\<lparr> fe_receipt := None \<rparr>) None 0 = Some (p, ProbeSourceLocalProbe)"
    using p(1) by (simp add: probeFactsForFinalize_def ProbeFileWithKnownFrameCount_def segment_file_def)
  moreover have "job_FrameRange (sample_job ''b'') = None" by (simp add: sample_job_def)
  ultimately show ?thesis
    using p(2) by (simp add: structural_gate_def sample_profile knownFrameCountForProbe_def knownFrameCountForPlan_def
        certified_probe_def assembly_v1_resolved planHasVisualOverlay_def Let_def)
      (simp add: sample_plan_def segment_file_def)
qed

lemma sample_finalized: "\<exists>a s'. FinalizeJob pinned_sha (sample_finalize RenderVerifyFast) sample_chunk NewDisk = (Inr a, s')"
proof -
  let ?fe = "(segment_file [])\<lparr> fe_receipt := None \<rparr>"
  obtain p where gate: "structural_gate pinned_sha ?fe False (sample_job ''b'') (Some sample_plan) None = Inr (Some p)"
    using sample_probed by blast
  obtain ms where verify: "verifyArtifactReceipt RenderVerifyFast sample_gate None [] =
      (Inr \<lparr> ro_Receipt = None, ro_Identity = unusable_identity ReceiptAbsent \<rparr>, ms)"
    by (simp add: verifyArtifactReceipt_def enforceReceiptVerificationDirect_def enforceDecodableOutput_def resolveArtifactIdentity_def)
  have up: "\<exists>s'. pinned_upload (pinned_sha ''abc'') (''abc'', None) 3 NewDisk = (None, s')"
    by (simp add: pinned_upload_def store_PutReader_def faultless_def srv_put_def MaxBytesReader_def maxObjectBytes_def
        PutReader_all_ok pinned_canonical http_StoreReader_def respond_def)
  have "ReadMediaReceipt (fe_receipt ?fe) (fe_legacy ?fe) = None" by (simp add: ReadMediaReceipt_def)
  then show ?thesis
    using gate verify up
    by (simp add: FinalizeJob_def segments_phase_def sample_chunk_def sample_batch_def sample_finalize_def finalize_output_def
        batchSegmentFacts_def)
      (auto simp: segment_file_def ReadMediaReceipt_def storeArtifact_def sample_store_env_def store_output_def commit_tail_def
        upload_output_def unusable_identity_def segmented_artifact_def ingest_telemetry_def preserveRawTimingSidecar_def
        putTimingSidecar_def Let_def)
qed

definition completed_chunk :: "Artifact \<Rightarrow> Job" where
  "completed_chunk a = (sample_job ''b'')\<lparr> job_Artifact := Some a, job_State := StateCompleted, job_ChunkIndex := 2,
     job_FrameRange := Some \<lparr> fr_Start = 96, fr_End = 194 \<rparr> \<rparr>"

theorem finalized_chunk_is_assembly_ready_witness:
  "\<exists>a s'. FinalizeJob pinned_sha (sample_finalize RenderVerifyFast) sample_chunk NewDisk = (Inr a, s')
     \<and> certified_child 2 (completed_chunk a) \<and> art_Codec a = ''h264''"
proof -
  obtain a s' where run: "FinalizeJob pinned_sha (sample_finalize RenderVerifyFast) sample_chunk NewDisk = (Inr a, s')"
    using sample_finalized by blast
  have ord: "distinct (fn_order (sample_finalize RenderVerifyFast))"
    "set (fn_order (sample_finalize RenderVerifyFast)) = {..<length (pj_Segments sample_chunk)}"
    by (simp_all add: sample_finalize_def sample_chunk_def)
  have prof: "pm_ProfileID (planMetadataOf (pj_Plan sample_chunk)) \<in> assembly_ids"
    by (simp add: sample_chunk_def sample_profile assembly_ids_def)
  have child: "job_Artifact (completed_chunk a) = Some a" "job_State (completed_chunk a) = StateCompleted"
    "job_ChunkIndex (completed_chunk a) = int 2" "job_FrameRange (completed_chunk a) = Some \<lparr> fr_Start = 96, fr_End = 194 \<rparr>"
    "fr_Start \<lparr> fr_Start = 96, fr_End = 194 \<rparr> < fr_End \<lparr> fr_Start = 96, fr_End = 194 \<rparr>"
    by (simp_all add: completed_chunk_def)
  from finalized_chunk_is_assembly_ready [OF sample_on_disk ord prof run child] run show ?thesis by auto
qed

text \<open>The batch again, with a receipt that reports a failed check; its output is being streamed meanwhile.\<close>

definition aborted_net :: net where
  "aborted_net = \<lparr> nt_upload = Some (tl_out aborted_tail, Some IOFailure), nt_uploadReply = True, nt_finalize = True,
     nt_finalizeReply = True, nt_abort = True \<rparr>"

definition sample_stream :: "Disk tail_upload" where
  "sample_stream = \<lparr> tl_drain = StoreStaged toy_sha (disk_stage toy_sha (\<lambda>_. True) None) (StagingFinalize (\<lambda>_. True))
       (StagingAbort (\<lambda>_. True)) (good_net ''abc'') ''s1'' ''abc'',
     tl_abort = (\<lambda>s. snd (StoreStaged toy_sha (disk_stage toy_sha (\<lambda>_. True) None) (StagingFinalize (\<lambda>_. True))
       (StagingAbort (\<lambda>_. True)) aborted_net ''s1'' (tl_out aborted_tail) s)) \<rparr>"

definition refused_batch :: "Disk finalize_env" where
  "refused_batch = \<lparr> fn_level = RenderVerifyFast,
     fn_worker = \<lparr> wi_backend = ''vulkan'', wi_chrononVersion = [], wi_storeURL = [] \<rparr>, fn_deepVisual = False, fn_strictNative = False,
     fn_file = (segment_file [])\<lparr> fe_receipt := Some (sample_receipt\<lparr> mr_Status := ''failed'' \<rparr>) \<rparr>, fn_store = sample_store_env,
     fn_upload = toy_upload, fn_sidecarUpload = toy_upload, fn_tail = Some sample_stream,
     fn_segments = sample_segments, fn_order = [1, 0], fn_ctxErr = False \<rparr>"

lemma refused_batch_on_disk: "on_disk toy_sha refused_batch" "disk_inv toy_sha NewDisk"
proof -
  have "disk_tail toy_sha sample_stream"
    unfolding disk_tail_def
  proof (intro conjI)
    show "\<exists>ok1 torn ok2 ok3 net session sent. tl_drain sample_stream =
        StoreStaged toy_sha (disk_stage toy_sha ok1 torn) (StagingFinalize ok2) (StagingAbort ok3) net session sent"
      unfolding sample_stream_def tail_upload.simps by blast
    have "\<forall>rd. nt_upload aborted_net = Some rd \<longrightarrow> snd rd = None \<longrightarrow> tl_eof aborted_tail" by (simp add: aborted_net_def)
    then show "\<exists>ok1 torn ok2 ok3 net session sent stream. tail_run stream \<and> gf_aborted (tl_reader stream) \<noteq> None
        \<and> (\<forall>rd. nt_upload net = Some rd \<longrightarrow> snd rd = None \<longrightarrow> tl_eof stream) \<and> tl_abort sample_stream =
        (\<lambda>s. snd (StoreStaged toy_sha (disk_stage toy_sha ok1 torn) (StagingFinalize ok2) (StagingAbort ok3) net session sent s))"
      using aborted_tail_run unfolding sample_stream_def tail_upload.simps by (metis option.distinct(1))
  qed
  then show "on_disk toy_sha refused_batch"
    by (auto simp: on_disk_def disk_upload_def refused_batch_def toy_upload_def sample_segments_def)
  show "disk_inv toy_sha NewDisk" using NewDisk_wf toy_sha_canonical by (simp add: staging_wf_def NewDisk_def)
qed

theorem refused_output_is_not_installed_witness:
  "\<exists>entries ms s1 e s'. segments_phase toy_sha refused_batch sample_batch NewDisk = (((entries, []), ms), s1)
     \<and> FinalizeJob toy_sha refused_batch sample_batch NewDisk = (Inl (OutputError e), s') \<and> disk_read s' = disk_read s1"
proof -
  have two: "length (pj_Segments sample_batch) = 2" by (simp add: sample_batch_def sample_windows_def)
  then have ord: "distinct (fn_order refused_batch)" "set (fn_order refused_batch) = {..<length (pj_Segments sample_batch)}"
    by (auto simp: refused_batch_def)
  have "pj_Segments sample_batch \<noteq> []" using two by auto
  then have "segments_phase toy_sha refused_batch sample_batch NewDisk =
      finalizeSegments toy_sha [] RenderVerifyFast False sample_batch sample_segments [1, 0] False NewDisk"
    by (simp add: segments_phase_def refused_batch_def)
  then obtain entries ms s1 where phase: "segments_phase toy_sha refused_batch sample_batch NewDisk = (((entries, []), ms), s1)"
    using sample_batch_run by auto
  obtain res s' where run: "FinalizeJob toy_sha refused_batch sample_batch NewDisk = (res, s')" by fastforce
  let ?r = "ReadMediaReceipt (fe_receipt (fn_file refused_batch)) (fe_legacy (fn_file refused_batch))"
  have "\<exists>e. fst (verifyArtifactReceipt (fn_level refused_batch) (fe_gate (fn_file refused_batch)) ?r ms) = Inl e"
    by (simp add: verifyArtifactReceipt_def enforceReceiptVerificationDirect_def VerificationPassed_def refused_batch_def
        segment_file_def ReadMediaReceipt_def measured_def sample_receipt_def)
  then obtain e where "fst (verifyArtifactReceipt (fn_level refused_batch) (fe_gate (fn_file refused_batch)) ?r ms) = Inl e" ..
  from refused_output_is_not_installed [OF refused_batch_on_disk ord phase run refl disjI2 [OF this]] phase run
  show ?thesis by auto
qed

end
