(* ===== verification/Spec2Isabelle.thy ===== *)
theory Spec2Isabelle
  imports Queue_Guarantees Queue_Service Http_Backend Growing_File Chunk_Assembly Batch Schema_Validation Workspace_Assets
    Repository_Contract Worker_Lease Finalize_Job
begin

text \<open>
  Verification development of RenderingGen, a distributed video rendering system.

  \<^bold>\<open>The program.\<close> Producers expand manifests into jobs and submit them over HTTP to the job queue
  (\<open>queue/\<close>). Workers (\<open>renderinggen/\<close>) claim jobs with a lease, fetch their assets by content
  address through a two-level cache from the object store (\<open>objectstore/\<close>), render, upload the
  result while it is still growing, and report the outcome. A long job is a parent with chunk
  children; when the family is complete one worker assembles it and completes the parent. A sweep
  returns jobs with an elapsed lease to the queue.

  \<^bold>\<open>The theories, from the bottom up.\<close>

  \<^item> \<open>Prelude\<close>: instants and durations of 64 bits with saturation, results, the parts of Go's
    \<open>strings\<close> and \<open>utf8\<close> packages the code calls, lemmas on lists and maps.
  \<^item> \<open>Queue_Model\<close>: the job envelope (\<open>queue/client/client.go\<close>), ingress validation
    (\<open>queue/internal/model/model.go\<close>) and the lifecycle predicates (\<open>lifecycle.go\<close>).
  \<^item> \<open>Workers\<close>: the worker registry and the derived liveness (\<open>queue/internal/model/liveness.go\<close>,
    \<open>repository/memory/workers.go\<close>, \<open>service/workers.go\<close>).
  \<^item> \<open>Queue_Memory\<close>: the in-memory repository (\<open>queue/internal/repository/memory/repository.go\<close>);
    the record \<open>Repository\<close> has the fields of the Go struct, one definition per method.
  \<^item> \<open>Queue_Lifecycle\<close>: the repository as a transition system. A call is one critical section, a run
    is any sequence of calls, and a claim is split into its two phases. It has the representation
    invariant, the abstract lifecycle of a job and the refinement of the one by the other.
  \<^item> \<open>Queue_Guarantees\<close>: what producers and workers rely on: fencing, terminal states, the retry
    budget, idempotent submission, batches, the sweep, anchors.
  \<^item> \<open>Postgres_Tables\<close>, \<open>Postgres_Artifacts\<close>, \<open>Postgres_Queue\<close>, \<open>Postgres_Reads\<close>: the PostgreSQL
    repository (\<open>queue/internal/repository/postgres\<close>), from the tables and the statements on them to
    one definition per method.
  \<^item> \<open>Postgres_Steps\<close>, \<open>Postgres_Moves\<close>, \<open>Postgres_Runs\<close>: what each transaction does to the rows of a
    job, its attempts and its events, and the repository as a transition system of transactions.
  \<^item> \<open>Postgres_Guarantees\<close>, \<open>Postgres_Submission\<close>: refinement of the same lifecycle, attempts, the
    event ledger, fencing, claims, and submission under races.
  \<^item> \<open>Repository_Contract\<close>: what both repositories promise, and what follows from it.
  \<^item> \<open>Notifier\<close>, \<open>Queue_Service\<close>: the wake-up primitive and the service over the repository
    (\<open>queue/internal/service\<close>): long polls, transitions, the completion gate, the retried sweep.
  \<^item> \<open>Queue_Http\<close>: the handlers and the route table (\<open>queue/internal/server\<close>).
  \<^item> \<open>Queue_Client\<close>: the client of producers and workers (\<open>queue/client\<close>) against those handlers,
    over a network that may lose a request or a reply.
  \<^item> \<open>Worker_Lease\<close>: lease renewal of the worker (\<open>renderinggen/cmd/renderinggen/lease.go\<close>): one renewal
    with its retries, and the loop that renews while a stage of a job runs.
  \<^item> \<open>Batch\<close>: manifests, their expansion and their submission (\<open>renderinggen/internal/batch\<close>).
  \<^item> \<open>Object_Store\<close>, \<open>Object_Disk\<close>, \<open>Object_Server\<close>: the content-addressed store with its in-process
    and disk backends and its HTTP handlers (\<open>objectstore/internal\<close>).
  \<^item> \<open>L1_Cache\<close>, \<open>L2_Cache\<close>, \<open>Storage_Client\<close>, \<open>Http_Backend\<close>, \<open>Growing_File\<close>: the asset client of the
    worker (\<open>renderinggen/internal/storage\<close>): the two cache levels, resolution with one fetch in
    flight, the protocol with the object store, and the reader that tails a growing file.
  \<^item> \<open>Chunk_Assembly\<close>: the contract of a chunk family and the finalization of a parent
    (\<open>renderinggen/internal/queue/finalization.go\<close>, \<open>renderinggen/internal/processor\<close>).
  \<^item> \<open>Media_Probe\<close>: the structural facts of a rendered file from the output of ffprobe, the proof of a
    closed-GOP cadence, the overlay contract and the output profiles (\<open>renderinggen/internal/media\<close>).
  \<^item> \<open>Artifact_Gate\<close>: the receipt of the renderer, the verification policy and its three verdicts, the
    cross-check of the execution path, and the store phase that turns an output into an artifact
    (\<open>renderinggen/internal/chronon/telemetry.go\<close>, \<open>processor/receipt_verify.go\<close>,
    \<open>receipt_identity.go\<close>, \<open>composition_check.go\<close>, \<open>store_artifact.go\<close>).
  \<^item> \<open>Finalize_Job\<close>: \<open>FinalizeJob\<close> with its structural gate, the native GPU gate and the segments of a
    batch with their single retry (\<open>processor/finalize_job.go\<close>, \<open>native_gate.go\<close>, \<open>segments.go\<close>).
  \<^item> \<open>Go_Path\<close>: the lexical operations of Go's \<open>path/filepath\<close> the code calls (\<open>Clean\<close>, \<open>Join\<close>,
    \<open>Rel\<close>, \<open>Dir\<close>, \<open>Base\<close>).
  \<^item> \<open>Schema_Validation\<close>: the JSON Schema validator of the wire contracts
    (\<open>renderinggen/internal/schemaval\<close>).
  \<^item> \<open>Workspace\<close>, \<open>Workspace_Sharing\<close>, \<open>Workspace_Sweep\<close>, \<open>Workspace_Assets\<close>: the per-job directories
    of the worker (\<open>renderinggen/internal/workspace\<close>): the operations on a shared base directory,
    its use by several processes under file locks, the start-up sweep, and the pool that
    materializes assets into a workspace.

  \<^bold>\<open>Interfaces.\<close> \<open>lifecycle_repository\<close> is what the service relies on of a job repository (interpreted
  for the in-memory and the PostgreSQL one), \<open>waiter_queue\<close> is what the service relies on of the notifier, \<open>content_store\<close> what the
  handlers rely on of a storage backend (interpreted for both backends), \<open>staged_store\<close>, which extends
  it, what the worker's store phase relies on of staged uploads (interpreted for both), \<open>single_flight\<close> what the
  asset client relies on of its two tables of running fetches (interpreted for both).

  \<^bold>\<open>What the theorems show.\<close> In every interleaving of calls the repository keeps its invariant, moves
  each job along the abstract lifecycle, hands no job to two workers, respects the owner, the retry
  budget and terminal results. The one call that steps out of this is a claim that asks for a state by
  name: it takes a job from that state, whatever it is, to running, and each theorem names it where it
  matters (\<open>asks_for\<close>). The PostgreSQL repository refines the same lifecycle, whatever becomes
  of its transactions; its attempts are numbered without gap, its history is append-only and its
  events replay to the state of the job. Through the handlers and the client these facts reach the processes:
  a resent submission or a replayed batch changes nothing, a lost claim is recovered by the sweep,
  and a worker's report succeeds exactly when the queue carried it out. A renewal reports a lease as
  held exactly when an attempt was answered while the worker held the job, and the renewals of a stage,
  served in time, keep its job against every sweep. Whatever system call fails,
  the object store and the caches serve no bytes under an address they do not hash to, except in the
  cases the theorems name: a sidecar write that fails and leaves the sidecar of an earlier write of its
  session, two writers of one session, and bytes that the store of the asset client itself gets wrong.
  A tailing reader delivers exactly the file, and one that is aborted never reports its end. A parent is
  completed once, with children that cover all its frames, and stays completed.
  The gates of a finished render decide before its output is stored: a policy accepts exactly the
  renders for which its promises are kept, a returned artifact is in the store under its address, a
  refused output installs nothing, a batch lists each of its items once, and a chunk finalized under an
  assembly profile is a child that the assembler accepts. The schema validator decides the meaning that
  draft 2020-12 gives to the keywords it supports, on the schemas and documents where the two agree.
  Asset paths stay inside
  their workspace, no two live processes share a workspace, and the sweep removes exactly the stale
  ones, of those without a dot in front of their name. Some theorems and lemmas state
  where the code departs from its own documentation: a claim that asks for a terminal state, two
  uploads that share a staging session, a stale digest sidecar, an edited plan under an old job id, a
  finalizer that cannot report its failure to PostgreSQL, a job of several short stages whose lease is
  never renewed.

  \<^bold>\<open>Conventions.\<close> A transaction is a function on the tables with a fate (committed, failed, or committed
  with a lost acknowledgement) that the database chooses; the order of rows that a query leaves open
  is that of the list, which a run may permute between transactions; what other sessions commit
  between two statements outside a transaction is an argument. Methods are functions that take and return the state of their component; errors are
  values of a datatype per component, without their texts. The clock, random identifiers, the order
  in which a Go map is visited, SHA-256, JSON decoding, Unicode tables, regular expressions and the
  failure of each system call are arguments, so that the theorems hold for all of them; SHA-256 is
  never assumed to be injective. Loops are structural recursions; a loop that waits for other
  processes runs over the list of events it meets (the turns of a long poll, the rounds of a wait),
  and the theorems are for every such list. The validator terminates because a reference is followed
  at most \<open>maxRefDepth\<close> times and every other step goes to a proper subschema.

  \<^bold>\<open>Idealizations.\<close> A job that a method returns is a value: the in-memory claim of the code returns a
  pointer to the stored row, through which the claim handler sets the lease field of that row after the
  lock is released. The attempts of a job are not bounded. The jitter of the sweep rounds like
  \<open>float64\<close>; infinities and NaN of a configuration are not values of the model. \<open>Get_enter\<close>,
  \<open>Get_lead\<close> and \<open>LocalPath_enter\<close> are whole operations; a run also has their locked sections as steps of
  their own, so that other goroutines come between them. The disk store runs its calls one after the
  other, except in the theorem on two writers of one session.

  \<^bold>\<open>Not modelled.\<close> The schema migrations (the tables are those they leave behind), the compilation of overlays, motion, maps and date animations (layout in floating
  point for an external renderer), the control of the renderer processes (what ffprobe, ffmpeg and the renderer answer is a
  parameter), VRAM probing, Drive publication, configuration, logging, metrics and the commands. The manifest lists
  them one by one.
\<close>

end
